(* ===== verification/Prelude.thy ===== *)
theory Prelude
  imports Main "HOL-Library.Word" "HOL-Library.Monad_Syntax"
begin

text \<open>
  Shared vocabulary of the development: the machine integer types of the C++ sources, the
  bit-level lemmas about splitting a word into octets, the option monad lemmas, and two
  interfaces several components rely on:

  \<^item> \<open>byte_parser\<close>: a state machine fed one octet at a time (\<open>UbxParser::feed\<close>,
    \<open>Sds011Parser::feed\<close>). Undefined behaviour (an access outside a buffer) is the
    value \<open>None\<close>, so the laws say that it is never reached.
  \<^item> \<open>write_queue\<close>: the transmit queue of the asynchronous writers
    (\<open>SerialUblox\<close>, \<open>Sds011\<close>, \<open>TcpConnection\<close>), which start a write when the
    queue was empty and pop the front when a write completes.
\<close>

unbundle bit_operations_syntax

type_synonym byte = "8 word"
type_synonym u8 = "8 word"
type_synonym u16 = "16 word"
type_synonym u32 = "32 word"
type_synonym u64 = "64 word"
type_synonym i8 = "8 word"
type_synonym i16 = "16 word"
type_synonym i32 = "32 word"
type_synonym i64 = "64 word"

named_theorems octet_simps \<open>splitting words into octets and joining them again\<close>

section \<open>Octets of a word\<close>

lemma join16_le [octet_simps]:
  "(ucast (ucast w :: byte) :: u16) OR push_bit 8 (ucast (ucast (drop_bit 8 w) :: byte)) = w"
  by (rule bit_word_eqI) (auto simp: bit_simps dest: bit_imp_le_length)

lemma low_byte_of_join16 [octet_simps]:
  fixes a b :: byte
  shows "ucast (((ucast a :: u16) OR push_bit 8 (ucast b))) = a"
  by (rule bit_word_eqI) (auto simp: bit_simps dest: bit_imp_le_length)

lemma high_byte_of_join16 [octet_simps]:
  fixes a b :: byte
  shows "ucast (drop_bit 8 (((ucast a :: u16) OR push_bit 8 (ucast b)))) = b"
  by (rule bit_word_eqI) (auto simp: bit_simps dest: bit_imp_le_length)

lemma and_ff [octet_simps]: "w AND 0xff = take_bit 8 w" for w :: "'a::len word"
  by (simp add: take_bit_eq_mask mask_numeral)

lemma and_ff00 [octet_simps]:
  "w AND 0xff00 = push_bit 8 (take_bit 8 (drop_bit 8 w))" for w :: "'a::len word"
proof -
  have "(0xff00 :: 'a word) = push_bit 8 (mask 8)"
    by (simp add: mask_numeral push_bit_eq_mult)
  moreover have "w AND push_bit 8 (mask 8) = push_bit 8 (take_bit 8 (drop_bit 8 w))"
    by (rule bit_word_eqI) (auto simp: bit_simps)
  ultimately show ?thesis by metis
qed

lemma bit_of_nat_word [octet_simps]:
  "bit (word_of_nat n :: 'a::len word) k \<longleftrightarrow> k < LENGTH('a) \<and> bit n k"
  by transfer (simp add: bit_take_bit_iff bit_of_nat_iff_bit)

lemma low_octet_of_nat [octet_simps]:
  "8 \<le> LENGTH('a) \<Longrightarrow> (ucast (word_of_nat n :: 'a::len word) :: byte) = word_of_nat n"
  by (rule bit_word_eqI) (auto simp: bit_simps octet_simps)

lemma drop_take_nth_update:
  assumes "k < length xs"
  shows "take (Suc k) (xs[k := x]) = take k xs @ [x]"
  using assms by (simp add: take_Suc_conv_app_nth)

section \<open>The option monad\<close>

lemma bind_eq_Some_iff:
  "Option.bind m f = Some y \<longleftrightarrow> (\<exists>x. m = Some x \<and> f x = Some y)"
  by (cases m) auto

section \<open>Feeding octets to a state machine\<close>

fun feed_with :: "('s \<Rightarrow> byte \<Rightarrow> ('s \<times> 'm list) option) \<Rightarrow> 's \<Rightarrow> byte list
    \<Rightarrow> ('s \<times> 'm list) option" where
  "feed_with step s [] = Some (s, [])"
| "feed_with step s (b # bs) =
     (case step s b of None \<Rightarrow> None
      | Some (s1, out1) \<Rightarrow>
          (case feed_with step s1 bs of None \<Rightarrow> None
           | Some (s2, out2) \<Rightarrow> Some (s2, out1 @ out2)))"

lemma feed_with_append:
  "feed_with step s (xs @ ys) =
     (case feed_with step s xs of None \<Rightarrow> None
      | Some (s1, out1) \<Rightarrow>
          (case feed_with step s1 ys of None \<Rightarrow> None
           | Some (s2, out2) \<Rightarrow> Some (s2, out1 @ out2)))"
  by (induction xs arbitrary: s) (auto split: option.splits)

fun feed_chunks :: "('s \<Rightarrow> byte \<Rightarrow> ('s \<times> 'm list) option) \<Rightarrow> 's \<Rightarrow> byte list list
    \<Rightarrow> ('s \<times> 'm list) option" where
  "feed_chunks step s [] = Some (s, [])"
| "feed_chunks step s (c # cs) =
     (case feed_with step s c of None \<Rightarrow> None
      | Some (s1, out1) \<Rightarrow>
          (case feed_chunks step s1 cs of None \<Rightarrow> None
           | Some (s2, out2) \<Rightarrow> Some (s2, out1 @ out2)))"

lemma feed_chunks_concat: "feed_chunks step s cs = feed_with step s (concat cs)"
  by (induction cs arbitrary: s) (auto simp: feed_with_append split: option.splits)

locale byte_parser =
  fixes step :: "'s \<Rightarrow> byte \<Rightarrow> ('s \<times> 'm list) option"
    and inv :: "'s \<Rightarrow> bool"
    and good :: "'m \<Rightarrow> bool"
  assumes step_safe:
    "inv s \<Longrightarrow> \<exists>s' out. step s b = Some (s', out) \<and> inv s' \<and> (\<forall>m \<in> set out. good m)"
begin

lemma feed_safe:
  "inv s \<Longrightarrow> \<exists>s' out. feed_with step s bs = Some (s', out) \<and> inv s' \<and> (\<forall>m \<in> set out. good m)"
proof (induction bs arbitrary: s)
  case Nil
  then show ?case by simp
next
  case (Cons b bs)
  obtain s1 out1 where 1: "step s b = Some (s1, out1)" "inv s1" "\<forall>m \<in> set out1. good m"
    using step_safe [OF Cons.prems] by blast
  obtain s2 out2 where 2: "feed_with step s1 bs = Some (s2, out2)" "inv s2" "\<forall>m \<in> set out2. good m"
    using Cons.IH [OF 1(2)] by blast
  from 1 2 show ?case by auto
qed

lemma feed_inv:
  "inv s \<Longrightarrow> feed_with step s bs = Some (s', out) \<Longrightarrow> inv s' \<and> (\<forall>m \<in> set out. good m)"
  using feed_safe [of s bs] by auto

end

text \<open>
  A parser that has a framing: from an idle state the encoding of an item yields exactly what
  the item stands for, a message or none, and an idle state again. Then a stream of encodings, however it
  is cut into chunks by the reader, yields exactly the messages, in order.
\<close>

locale framed_parser = byte_parser +
  fixes idle :: "'s \<Rightarrow> bool"
    and encode :: "'x \<Rightarrow> byte list"
    and ok :: "'x \<Rightarrow> bool"
    and msgs :: "'x \<Rightarrow> 'm list"
  assumes frame: "idle s \<Longrightarrow> ok x \<Longrightarrow>
      \<exists>s'. feed_with step s (encode x) = Some (s', msgs x) \<and> idle s'"
begin

lemma feed_frames:
  "idle s \<Longrightarrow> \<forall>x \<in> set xs. ok x \<Longrightarrow>
    \<exists>s'. feed_with step s (concat (map encode xs)) = Some (s', concat (map msgs xs)) \<and> idle s'"
proof (induction xs arbitrary: s)
  case Nil
  then show ?case by simp
next
  case (Cons x xs)
  from Cons.prems have "idle s" and "ok x" by auto
  then obtain s1 where 1: "feed_with step s (encode x) = Some (s1, msgs x)" "idle s1"
    using frame by blast
  have "\<forall>x \<in> set xs. ok x" using Cons.prems by simp
  with 1(2) obtain s2 where "feed_with step s1 (concat (map encode xs)) = Some (s2, concat (map msgs xs))"
      "idle s2"
    using Cons.IH by blast
  with 1 show ?case by (simp add: feed_with_append)
qed

lemma feed_chunked_frames:
  "idle s \<Longrightarrow> \<forall>x \<in> set xs. ok x \<Longrightarrow> concat cs = concat (map encode xs) \<Longrightarrow>
    \<exists>s'. feed_chunks step s cs = Some (s', concat (map msgs xs)) \<and> idle s'"
  using feed_frames [of s xs] by (simp add: feed_chunks_concat)

end

section \<open>Asynchronous transmit queues\<close>

text \<open>
  \<open>post\<close> is the task a sender posts to the transmit strand, \<open>complete\<close> the completion
  handler of a successful write. \<open>queue\<close> is the member queue, \<open>writes\<close> the frames of the writes
  that were started and have not completed, \<open>wire\<close> what completed writes have sent so far.
\<close>

locale write_queue =
  fixes post :: "'f \<Rightarrow> 's \<Rightarrow> 's"
    and complete :: "'s \<Rightarrow> 's"
    and queue :: "'s \<Rightarrow> 'f list"
    and writes :: "'s \<Rightarrow> 'f list"
    and wire :: "'s \<Rightarrow> 'f list"
  assumes post_queue: "queue (post f s) = queue s @ [f]"
    and post_wire: "wire (post f s) = wire s"
    and post_writes: "writes (post f s) = (if queue s = [] then writes s @ [f] else writes s)"
    and complete_queue: "writes s \<noteq> [] \<Longrightarrow> queue (complete s) = tl (queue s)"
    and complete_wire: "writes s \<noteq> [] \<Longrightarrow> wire (complete s) = wire s @ [hd (writes s)]"
    and complete_writes: "writes s \<noteq> [] \<Longrightarrow> writes (complete s) = tl (writes s) @ take 1 (tl (queue s))"
begin

text \<open>The one write that was started and has not completed is that of the head of the queue: writes never overlap.\<close>

definition wq_inv :: "'s \<Rightarrow> bool" where
  "wq_inv s \<longleftrightarrow> writes s = take 1 (queue s)"

lemma post_inv: "wq_inv s \<Longrightarrow> wq_inv (post f s)"
  by (cases "queue s") (simp_all add: wq_inv_def post_queue post_writes)

lemma complete_inv: "wq_inv s \<Longrightarrow> writes s \<noteq> [] \<Longrightarrow> wq_inv (complete s)"
  by (cases "queue s") (simp_all add: wq_inv_def complete_queue complete_writes)

lemma post_stream: "wire (post f s) @ queue (post f s) = (wire s @ queue s) @ [f]"
  by (simp add: post_queue post_wire)

lemma complete_stream:
  "wq_inv s \<Longrightarrow> writes s \<noteq> [] \<Longrightarrow> wire (complete s) @ queue (complete s) = wire s @ queue s"
  by (cases "queue s") (simp_all add: wq_inv_def complete_queue complete_wire)

text \<open>
  A schedule interleaves posts (\<open>Inl f\<close>) with completions (\<open>Inr ()\<close>), which can only
  happen while a write is outstanding.
\<close>

fun exec :: "('f + unit) list \<Rightarrow> 's \<Rightarrow> 's" where
  "exec [] s = s"
| "exec (Inl f # es) s = exec es (post f s)"
| "exec (Inr u # es) s = exec es (if writes s \<noteq> [] then complete s else s)"

lemma exec_inv: "wq_inv s \<Longrightarrow> wq_inv (exec es s)"
  by (induction es s rule: exec.induct) (auto simp: post_inv complete_inv)

lemma exec_stream:
  "wq_inv s \<Longrightarrow>
    wire (exec es s) @ queue (exec es s) =
      (wire s @ queue s) @ concat (map (\<lambda>e. case e of Inl f \<Rightarrow> [f] | Inr _ \<Rightarrow> []) es)"
  by (induction es s rule: exec.induct)
    (auto simp: post_inv complete_inv post_stream complete_stream post_queue post_wire)

end

end
