(* ===== verification/Ubx_Message.thy ===== *)
theory Ubx_Message
  imports Prelude
begin

text \<open>
  \<open>UbxMessage\<close> (library/src/data/ublox/ublox_structs.h and .cpp): a UBX message is a
  16-bit id (class and message id) and a payload; \<open>raw_message_string\<close> is the frame sent
  on the serial line. The checksum is the 8-bit Fletcher checksum over everything between
  the sync characters and the checksum itself.
\<close>

record ubx_message =
  m_full_id :: u16
  m_payload :: "byte list"

definition full_id :: "ubx_message \<Rightarrow> u16" where
  "full_id m = m_full_id m"

definition payload :: "ubx_message \<Rightarrow> byte list" where
  "payload m = m_payload m"

definition class_id :: "ubx_message \<Rightarrow> u8" where
  "class_id m = ucast (drop_bit 8 (m_full_id m) AND 0xff)"

definition message_id :: "ubx_message \<Rightarrow> u8" where
  "message_id m = ucast (m_full_id m AND 0xff)"

text \<open>
  \<open>CheckSum::operator()\<close>: \<open>chkB += chkA += ch\<close> on octets; both sums wrap modulo 256, so
  the signedness of \<open>char\<close> does not matter.
\<close>

definition ck_byte :: "byte \<times> byte \<Rightarrow> byte \<Rightarrow> byte \<times> byte" where
  "ck_byte = (\<lambda>(chkA, chkB) ch. (let chkA' = chkA + ch in (chkA', chkB + chkA')))"

definition ck_fold :: "byte \<times> byte \<Rightarrow> byte list \<Rightarrow> byte \<times> byte" where
  "ck_fold = foldl ck_byte"

definition check_sum :: "byte list \<Rightarrow> u16" where
  "check_sum bs = (let (chkA, chkB) = ck_fold (0, 0) bs in push_bit 8 (ucast chkB) OR ucast chkA)"

definition check_sum_msg :: "ubx_message \<Rightarrow> u16" where
  "check_sum_msg m =
     (let size = (word_of_nat (length (m_payload m)) :: u64)
      in check_sum ([class_id m, message_id m, ucast (size AND 0xff),
                     ucast (drop_bit 8 size AND 0xff)] @ m_payload m))"

definition raw_message_string :: "ubx_message \<Rightarrow> byte list" where
  "raw_message_string m =
     (let size = (word_of_nat (length (m_payload m)) :: u64);
          raw = [0xb5, 0x62, class_id m, message_id m, ucast (size AND 0xff),
                 ucast (drop_bit 8 (ucast (size AND 0xff00) :: u16))] @ m_payload m;
          chksum = check_sum (drop 2 raw)
      in raw @ [ucast (chksum AND 0xff), ucast (drop_bit 8 chksum)])"

section \<open>The checksum\<close>

lemma ck_fold_Nil [simp]: "ck_fold c [] = c"
  by (simp add: ck_fold_def)

lemma ck_fold_Cons [simp]: "ck_fold c (b # bs) = ck_fold (ck_byte c b) bs"
  by (simp add: ck_fold_def)

lemma ck_fold_append: "ck_fold c (xs @ ys) = ck_fold (ck_fold c xs) ys"
  by (simp add: ck_fold_def)

lemma fst_ck_fold: "fst (ck_fold (a, b) bs) = a + sum_list bs"
  by (induction bs arbitrary: a b) (simp_all add: ck_byte_def Let_def algebra_simps)

text \<open>
  The first sum is the plain sum of the octets, so changing one octet changes it: an
  altered octet never goes unnoticed.
\<close>

lemma ck_fold_single_change:
  assumes "x \<noteq> y"
  shows "fst (ck_fold (a, b) (us @ x # vs)) \<noteq> fst (ck_fold (a, b) (us @ y # vs))"
  using assms by (simp add: fst_ck_fold)

lemma octets_of_check_sum:
  "ucast (check_sum bs AND 0xff) = fst (ck_fold (0, 0) bs)"
  "ucast (drop_bit 8 (check_sum bs)) = snd (ck_fold (0, 0) bs)"
proof -
  obtain a b where ab: "ck_fold (0, 0) bs = (a, b)" by (cases "ck_fold (0, 0) bs")
  have "ucast (take_bit 8 (push_bit 8 (ucast b) OR ucast a :: u16)) = a"
    by (rule bit_word_eqI) (auto simp: bit_simps dest: bit_imp_le_length)
  then show "ucast (check_sum bs AND 0xff) = fst (ck_fold (0, 0) bs)"
    by (simp add: check_sum_def ab and_ff)
  have "ucast (drop_bit 8 (push_bit 8 (ucast b) OR ucast a :: u16)) = b"
    by (rule bit_word_eqI) (auto simp: bit_simps dest: bit_imp_le_length)
  then show "ucast (drop_bit 8 (check_sum bs)) = snd (ck_fold (0, 0) bs)"
    by (simp add: check_sum_def ab)
qed

section \<open>The shape of a frame\<close>

text \<open>Two sync octets, class, id, two length octets, the payload and the two sums.\<close>

definition ubx_header :: "ubx_message \<Rightarrow> byte list" where
  "ubx_header m = [class_id m, message_id m, word_of_nat (length (m_payload m)),
     word_of_nat (length (m_payload m) div 256)]"

lemma size_octets:
  "(ucast ((word_of_nat n :: u64) AND 0xff) :: byte) = word_of_nat n"
  "(ucast (drop_bit 8 (ucast ((word_of_nat n :: u64) AND 0xff00) :: u16)) :: byte)
      = word_of_nat (n div 256)"
  "(ucast (drop_bit 8 (word_of_nat n :: u64) AND 0xff) :: byte) = word_of_nat (n div 256)"
proof -
  have div: "bit (n div 256) k = bit n (8 + k)" for k
    by (simp add: bit_iff_odd div_mult2_eq power_add)
  show "(ucast ((word_of_nat n :: u64) AND 0xff) :: byte) = word_of_nat n"
    by (rule bit_word_eqI) (auto simp: bit_simps octet_simps)
  show "(ucast (drop_bit 8 (ucast ((word_of_nat n :: u64) AND 0xff00) :: u16)) :: byte)
      = word_of_nat (n div 256)"
    by (rule bit_word_eqI) (auto simp: bit_simps octet_simps div)
  show "(ucast (drop_bit 8 (word_of_nat n :: u64) AND 0xff) :: byte) = word_of_nat (n div 256)"
    by (rule bit_word_eqI) (auto simp: bit_simps octet_simps div)
qed

lemma raw_message_string_shape:
  "raw_message_string m =
     [0xb5, 0x62] @ ubx_header m @ m_payload m @
     (let (a, b) = ck_fold (0, 0) (ubx_header m @ m_payload m) in [a, b])"
  by (simp add: raw_message_string_def ubx_header_def size_octets Let_def octets_of_check_sum
        split_def)

lemma check_sum_msg_shape: "check_sum_msg m = check_sum (ubx_header m @ m_payload m)"
  by (simp add: check_sum_msg_def ubx_header_def size_octets Let_def)

lemma full_id_split:
  "(push_bit 8 (ucast (class_id m)) OR ucast (message_id m) :: u16) = m_full_id m"
  by (rule bit_word_eqI) (auto simp: bit_simps class_id_def message_id_def octet_simps)

lemma length_octets_join:
  "n < 2 ^ 16 \<Longrightarrow>
    (ucast (word_of_nat n :: byte) OR push_bit 8 (ucast (word_of_nat (n div 256) :: byte)) :: u16)
      = word_of_nat n"
proof -
  have div: "bit (n div 256) k = bit n (8 + k)" for k
    by (simp add: bit_iff_odd div_mult2_eq power_add)
  show ?thesis
    by (rule bit_word_eqI) (auto simp: bit_simps octet_simps div)
qed

end
