(* ===== verification/Ubx_Parser.thy ===== *)
theory Ubx_Parser
  imports Ubx_Message "HOL-Library.Sublist"
begin

text \<open>
  \<open>UbxParser\<close> (daemon/src/hardware/ublox/ubx_parser.h and .cpp): the receive state machine.
  \<open>ubx_step\<close> is one iteration of the loop of \<open>feed\<close>; it returns the messages handed to
  \<open>on_msg\<close>. \<open>None\<close> is undefined behaviour: a store to \<open>payload_\<close> at or beyond its size,
  or a view longer than the buffer it points to.
\<close>

datatype ubx_state = SYNC1 | SYNC2 | CLASS | ID | LEN1 | LEN2 | PAYLOAD | CK_A | CK_B

record ubx_view =
  view_msg_id :: u16
  view_payload :: "byte list"
  view_len :: u16

record ubx_parser =
  up_state :: ubx_state
  up_class_id :: u8
  up_msg_id :: u8
  up_len :: u16
  up_len_idx :: u16
  up_ck_a_calc :: u8
  up_ck_b_calc :: u8
  up_ck_a_recv :: u8
  up_ck_b_recv :: u8
  up_payload :: "byte list"

definition MAX_LEN :: u16 where
  "MAX_LEN = 4096"

definition ubx_init :: ubx_parser where
  "ubx_init = \<lparr>up_state = SYNC1, up_class_id = 0, up_msg_id = 0, up_len = 0, up_len_idx = 0,
     up_ck_a_calc = 0, up_ck_b_calc = 0, up_ck_a_recv = 0, up_ck_b_recv = 0, up_payload = []\<rparr>"

definition ubx_reset :: "ubx_parser \<Rightarrow> ubx_parser" where
  "ubx_reset s = s\<lparr>up_state := SYNC1, up_class_id := 0, up_msg_id := 0, up_len := 0,
     up_len_idx := 0, up_ck_a_calc := 0, up_ck_b_calc := 0, up_ck_a_recv := 0,
     up_ck_b_recv := 0\<rparr>"

definition ck_update :: "u8 \<Rightarrow> ubx_parser \<Rightarrow> ubx_parser" where
  "ck_update b s =
     (let a = up_ck_a_calc s + b
      in s\<lparr>up_ck_a_calc := a, up_ck_b_calc := up_ck_b_calc s + a\<rparr>)"

text \<open>\<open>vector::resize\<close>: truncation, or extension with zeros.\<close>

definition resize_vec :: "nat \<Rightarrow> byte list \<Rightarrow> byte list" where
  "resize_vec n xs = take n xs @ replicate (n - length xs) 0"

definition ubx_step :: "ubx_parser \<Rightarrow> byte \<Rightarrow> (ubx_parser \<times> ubx_view list) option" where
  "ubx_step s b = (case up_state s of
     SYNC1 \<Rightarrow> Some (if b = 0xB5 then s\<lparr>up_state := SYNC2\<rparr> else s, [])
   | SYNC2 \<Rightarrow>
       Some (if b = 0x62 then s\<lparr>up_state := CLASS\<rparr>
             else if b = 0xB5 then s\<lparr>up_state := SYNC2\<rparr>
             else s\<lparr>up_state := SYNC1\<rparr>, [])
   | CLASS \<Rightarrow>
       Some ((ck_update b (s\<lparr>up_class_id := b, up_ck_a_calc := 0, up_ck_b_calc := 0\<rparr>))
               \<lparr>up_state := ID\<rparr>, [])
   | ID \<Rightarrow> Some ((ck_update b (s\<lparr>up_msg_id := b\<rparr>))\<lparr>up_state := LEN1\<rparr>, [])
   | LEN1 \<Rightarrow> Some ((ck_update b (s\<lparr>up_len := ucast b\<rparr>))\<lparr>up_state := LEN2\<rparr>, [])
   | LEN2 \<Rightarrow>
       (let s1 = s\<lparr>up_len := up_len s OR push_bit 8 (ucast b)\<rparr>
        in if up_len s1 > MAX_LEN then Some ((ubx_reset s1)\<lparr>up_state := SYNC1\<rparr>, [])
           else let s2 = ck_update b s1
                in if up_len s2 > MAX_LEN then Some (ubx_reset s2, [])
                   else Some (s2\<lparr>up_payload := resize_vec (unat (up_len s2)) (up_payload s2),
                                 up_len_idx := 0,
                                 up_state := (if up_len s2 = 0 then CK_A else PAYLOAD)\<rparr>, []))
   | PAYLOAD \<Rightarrow>
       if unat (up_len_idx s) < length (up_payload s) then
         (let s1 = s\<lparr>up_payload := (up_payload s)[unat (up_len_idx s) := b],
                     up_len_idx := up_len_idx s + 1\<rparr>;
              s2 = ck_update b s1
          in Some (if up_len_idx s2 = up_len s2 then s2\<lparr>up_state := CK_A\<rparr> else s2, []))
       else None
   | CK_A \<Rightarrow> Some (s\<lparr>up_ck_a_recv := b, up_state := CK_B\<rparr>, [])
   | CK_B \<Rightarrow>
       (let s1 = s\<lparr>up_ck_b_recv := b\<rparr>;
            s2 = (ubx_reset s1)\<lparr>up_state := SYNC1\<rparr>
        in if up_ck_a_recv s1 = up_ck_a_calc s1 \<and> up_ck_b_recv s1 = up_ck_b_calc s1 then
             if unat (up_len s1) \<le> length (up_payload s1) then
               Some (s2, [\<lparr>view_msg_id = push_bit 8 (ucast (up_class_id s1)) OR ucast (up_msg_id s1),
                           view_payload = take (unat (up_len s1)) (up_payload s1),
                           view_len = up_len s1\<rparr>])
             else None
           else Some (s2, [])))"

definition ubx_feed :: "ubx_parser \<Rightarrow> byte list \<Rightarrow> (ubx_parser \<times> ubx_view list) option" where
  "ubx_feed = feed_with ubx_step"

text \<open>
  The callback of \<open>SerialUblox::startAsyncRead\<close> copies the view into a \<open>UbxMessage\<close>.
\<close>

definition message_of_view :: "ubx_view \<Rightarrow> ubx_message" where
  "message_of_view v = \<lparr>m_full_id = view_msg_id v, m_payload = view_payload v\<rparr>"

section \<open>Memory safety\<close>

definition ubx_inv :: "ubx_parser \<Rightarrow> bool" where
  "ubx_inv s \<longleftrightarrow>
     (up_state s \<in> {PAYLOAD, CK_A, CK_B} \<longrightarrow>
        length (up_payload s) = unat (up_len s) \<and> up_len s \<le> MAX_LEN) \<and>
     (up_state s = PAYLOAD \<longrightarrow> up_len_idx s < up_len s)"

definition view_ok :: "ubx_view \<Rightarrow> bool" where
  "view_ok v \<longleftrightarrow> length (view_payload v) = unat (view_len v) \<and> view_len v \<le> MAX_LEN"

lemma length_resize_vec [simp]: "length (resize_vec n xs) = n"
  by (simp add: resize_vec_def)

lemma next_index: "(i :: u16) < n \<Longrightarrow> i + 1 \<noteq> n \<Longrightarrow> i + 1 < n"
  by unat_arith

lemma ubx_step_safe:
  "ubx_inv s \<Longrightarrow>
    \<exists>s' out. ubx_step s b = Some (s', out) \<and> ubx_inv s' \<and> (\<forall>v \<in> set out. view_ok v)"
  by (cases "up_state s")
    (auto simp: ubx_step_def ubx_inv_def ubx_reset_def ck_update_def view_ok_def Let_def
        word_less_nat_alt [symmetric] word_gt_0 not_less next_index
      split: if_splits)

interpretation ubx: byte_parser ubx_step ubx_inv view_ok
  by unfold_locales (rule ubx_step_safe)

section \<open>Frames\<close>

definition ubx_idle :: "ubx_parser \<Rightarrow> bool" where
  "ubx_idle s \<longleftrightarrow> up_state s = SYNC1"

definition sendable :: "ubx_message \<Rightarrow> bool" where
  "sendable m \<longleftrightarrow> length (m_payload m) \<le> 4096"

definition view_of :: "ubx_message \<Rightarrow> ubx_view" where
  "view_of m = \<lparr>view_msg_id = m_full_id m, view_payload = m_payload m,
     view_len = word_of_nat (length (m_payload m))\<rparr>"

lemma message_of_view_of [simp]: "message_of_view (view_of m) = m"
  by (simp add: message_of_view_def view_of_def)

lemma unat_add_1: "(i :: u16) < n \<Longrightarrow> unat (i + 1) = Suc (unat i)"
  by unat_arith

lemma feed_payload:
  assumes "up_state s = PAYLOAD" and "length (up_payload s) = unat (up_len s)"
    and "unat (up_len_idx s) + length ps = unat (up_len s)" and "ps \<noteq> []"
  shows "feed_with ubx_step s ps = Some (s\<lparr>up_state := CK_A, up_len_idx := up_len s,
      up_ck_a_calc := fst (ck_fold (up_ck_a_calc s, up_ck_b_calc s) ps),
      up_ck_b_calc := snd (ck_fold (up_ck_a_calc s, up_ck_b_calc s) ps),
      up_payload := take (unat (up_len_idx s)) (up_payload s) @ ps\<rparr>, [])"
  using assms
proof (induction ps arbitrary: s)
  case Nil
  then show ?case by simp
next
  case (Cons b ps)
  let ?i = "up_len_idx s"
  from Cons.prems have lt: "unat ?i < length (up_payload s)" and lt': "?i < up_len s"
    by (simp_all add: word_less_nat_alt)
  have idx: "unat (?i + 1) = Suc (unat ?i)" by (rule unat_add_1 [OF lt'])
  show ?case
  proof (cases "ps = []")
    case True
    with Cons.prems have "?i + 1 = up_len s" by (simp add: word_unat_eq_iff idx)
    moreover have "(up_payload s)[unat ?i := b] = take (unat ?i) (up_payload s) @ [b]"
      using lt True Cons.prems by (simp add: upd_conv_take_nth_drop)
    ultimately show ?thesis
      using True Cons.prems lt by (simp add: ubx_step_def ck_update_def ck_byte_def Let_def)
  next
    case False
    let ?s1 = "ck_update b (s\<lparr>up_payload := (up_payload s)[unat ?i := b], up_len_idx := ?i + 1\<rparr>)"
    have ne: "?i + 1 \<noteq> up_len s"
      using Cons.prems False by (cases ps) (auto simp: word_unat_eq_iff idx)
    have step: "ubx_step s b = Some (?s1, [])"
      using Cons.prems lt ne by (simp add: ubx_step_def ck_update_def Let_def)
    have "feed_with ubx_step ?s1 ps = Some (?s1\<lparr>up_state := CK_A, up_len_idx := up_len ?s1,
        up_ck_a_calc := fst (ck_fold (up_ck_a_calc ?s1, up_ck_b_calc ?s1) ps),
        up_ck_b_calc := snd (ck_fold (up_ck_a_calc ?s1, up_ck_b_calc ?s1) ps),
        up_payload := take (unat (up_len_idx ?s1)) (up_payload ?s1) @ ps\<rparr>, [])"
      by (rule Cons.IH) (use Cons.prems False idx in \<open>simp_all add: ck_update_def Let_def\<close>)
    then show ?thesis
      using step idx lt
      by (simp add: ck_update_def ck_byte_def Let_def drop_take_nth_update)
  qed
qed

text \<open>The six octets before the payload.\<close>

lemma ubx_step_sync:
  "up_state s = SYNC1 \<Longrightarrow> ubx_step s 0xb5 = Some (s\<lparr>up_state := SYNC2\<rparr>, [])"
  "up_state s = SYNC2 \<Longrightarrow> ubx_step s 0x62 = Some (s\<lparr>up_state := CLASS\<rparr>, [])"
  by (simp_all add: ubx_step_def)

lemma ubx_step_class:
  "up_state s = CLASS \<Longrightarrow> ubx_step s c =
     Some (s\<lparr>up_class_id := c, up_ck_a_calc := c, up_ck_b_calc := c, up_state := ID\<rparr>, [])"
  by (simp add: ubx_step_def ck_update_def)

lemma ubx_step_id:
  "up_state s = ID \<Longrightarrow> ubx_step s i =
     Some (s\<lparr>up_msg_id := i, up_ck_a_calc := up_ck_a_calc s + i,
             up_ck_b_calc := up_ck_b_calc s + (up_ck_a_calc s + i), up_state := LEN1\<rparr>, [])"
  by (simp add: ubx_step_def ck_update_def Let_def)

lemma ubx_step_len1:
  "up_state s = LEN1 \<Longrightarrow> ubx_step s lo =
     Some (s\<lparr>up_len := ucast lo, up_ck_a_calc := up_ck_a_calc s + lo,
             up_ck_b_calc := up_ck_b_calc s + (up_ck_a_calc s + lo), up_state := LEN2\<rparr>, [])"
  by (simp add: ubx_step_def ck_update_def Let_def)

lemma ubx_step_len2:
  "up_state s = LEN2 \<Longrightarrow> up_len s OR push_bit 8 (ucast hi) = n \<Longrightarrow> \<not> n > MAX_LEN \<Longrightarrow>
    ubx_step s hi =
     Some (s\<lparr>up_len := n, up_ck_a_calc := up_ck_a_calc s + hi,
             up_ck_b_calc := up_ck_b_calc s + (up_ck_a_calc s + hi),
             up_payload := resize_vec (unat n) (up_payload s), up_len_idx := 0,
             up_state := (if n = 0 then CK_A else PAYLOAD)\<rparr>, [])"
  by (simp add: ubx_step_def ck_update_def Let_def)

lemmas ubx_header_steps = ubx_step_sync ubx_step_class ubx_step_id ubx_step_len1 ubx_step_len2

lemma feed_header:
  assumes "ubx_idle s" and "ucast lo OR push_bit 8 (ucast hi) = n" and "\<not> n > MAX_LEN"
  shows "feed_with ubx_step s [0xb5, 0x62, c, i, lo, hi] =
    Some (s\<lparr>up_class_id := c, up_msg_id := i, up_len := n,
      up_len_idx := 0, up_ck_a_calc := fst (ck_fold (0, 0) [c, i, lo, hi]),
      up_ck_b_calc := snd (ck_fold (0, 0) [c, i, lo, hi]),
      up_payload := resize_vec (unat n) (up_payload s),
      up_state := (if n = 0 then CK_A else PAYLOAD)\<rparr>, [])"
  using assms
  by (simp add: ubx_idle_def ubx_header_steps ck_byte_def Let_def)

lemma ubx_step_sums:
  "up_state s = CK_A \<Longrightarrow> ubx_step s x = Some (s\<lparr>up_ck_a_recv := x, up_state := CK_B\<rparr>, [])"
  "up_state s = CK_B \<Longrightarrow> unat (up_len s) \<le> length (up_payload s) \<Longrightarrow> ubx_step s y =
     Some (ubx_reset (s\<lparr>up_ck_b_recv := y\<rparr>),
       if up_ck_a_recv s = up_ck_a_calc s \<and> y = up_ck_b_calc s
       then [\<lparr>view_msg_id = push_bit 8 (ucast (up_class_id s)) OR ucast (up_msg_id s),
              view_payload = take (unat (up_len s)) (up_payload s), view_len = up_len s\<rparr>]
       else [])"
  by (simp_all add: ubx_step_def ubx_reset_def Let_def)

text \<open>
  What the state machine does between the sync characters and the end of a frame whose
  length octets say \<open>length ps\<close>, whatever the two sums are.
\<close>

definition frame_of :: "u8 \<Rightarrow> u8 \<Rightarrow> byte list \<Rightarrow> byte list" where
  "frame_of c i ps = [c, i, word_of_nat (length ps), word_of_nat (length ps div 256)] @ ps"

lemma feed_frame_any_sum:
  assumes "ubx_idle s" and "length ps \<le> 4096"
  shows "\<exists>s'. feed_with ubx_step s ([0xb5, 0x62] @ frame_of c i ps @ [x, y]) =
      Some (s', if (x, y) = ck_fold (0, 0) (frame_of c i ps)
                then [\<lparr>view_msg_id = push_bit 8 (ucast c) OR ucast i, view_payload = ps,
                       view_len = word_of_nat (length ps)\<rparr>] else [])
      \<and> ubx_idle s'"
proof -
  define n :: u16 where "n = word_of_nat (length ps)"
  define lo :: byte where "lo = word_of_nat (length ps)"
  define hi :: byte where "hi = word_of_nat (length ps div 256)"
  have n: "length ps < 2 ^ 16" using assms(2) by simp
  have len: "ucast lo OR push_bit 8 (ucast hi) = n"
    unfolding n_def lo_def hi_def by (rule length_octets_join [OF n])
  have unat_n: "unat n = length ps"
    using n by (simp add: n_def unat_of_nat take_bit_nat_eq_self)
  have le: "\<not> n > MAX_LEN"
    using assms(2) by (simp add: word_less_nat_alt unat_n MAX_LEN_def)
  have zero: "n = 0 \<longleftrightarrow> ps = []"
    using unat_n by (metis length_0_conv unat_0 word_unat_eq_iff)
  define ck where "ck = ck_fold (0, 0) [c, i, lo, hi]"
  define s1 where "s1 = s\<lparr>up_class_id := c, up_msg_id := i, up_len := n,
    up_len_idx := 0, up_ck_a_calc := fst ck, up_ck_b_calc := snd ck,
    up_payload := resize_vec (unat n) (up_payload s),
    up_state := (if n = 0 then CK_A else PAYLOAD)\<rparr>"
  have header: "feed_with ubx_step s [0xb5, 0x62, c, i, lo, hi] = Some (s1, [])"
    unfolding s1_def ck_def by (rule feed_header [OF assms(1) len le])
  define s2 where "s2 = s1\<lparr>up_state := CK_A, up_len_idx := up_len s1,
    up_ck_a_calc := fst (ck_fold ck ps), up_ck_b_calc := snd (ck_fold ck ps),
    up_payload := ps\<rparr>"
  have body: "feed_with ubx_step s1 ps = Some (s2, [])"
  proof (cases "ps = []")
    case True
    then show ?thesis using zero unat_n by (simp add: s1_def s2_def resize_vec_def)
  next
    case False
    then have "feed_with ubx_step s1 ps = Some (s1\<lparr>up_state := CK_A, up_len_idx := up_len s1,
      up_ck_a_calc := fst (ck_fold (up_ck_a_calc s1, up_ck_b_calc s1) ps),
      up_ck_b_calc := snd (ck_fold (up_ck_a_calc s1, up_ck_b_calc s1) ps),
      up_payload := take (unat (up_len_idx s1)) (up_payload s1) @ ps\<rparr>, [])"
      by (intro feed_payload) (use False zero unat_n in \<open>simp_all add: s1_def\<close>)
    then show ?thesis by (simp add: s2_def s1_def)
  qed
  have frame: "[0xb5, 0x62] @ frame_of c i ps @ [x, y] = [0xb5, 0x62, c, i, lo, hi] @ ps @ [x, y]"
    by (simp add: frame_of_def lo_def hi_def)
  have ck_all: "ck_fold (0, 0) (frame_of c i ps) = ck_fold ck ps"
    by (simp add: frame_of_def ck_def lo_def hi_def)
  have sums: "feed_with ubx_step s2 [x, y] =
    Some (ubx_reset (s2\<lparr>up_ck_a_recv := x, up_state := CK_B, up_ck_b_recv := y\<rparr>),
      if (x, y) = ck_fold ck ps
      then [\<lparr>view_msg_id = push_bit 8 (ucast c) OR ucast i, view_payload = ps, view_len = n\<rparr>]
      else [])"
    by (simp add: ubx_step_sums s2_def s1_def unat_n prod_eq_iff)
  show ?thesis
    unfolding frame ck_all feed_with_append header
    by (simp add: body sums ubx_idle_def ubx_reset_def n_def del: feed_with.simps)
qed

text \<open>A frame built by \<open>raw_message_string\<close> is the instance with the right sums.\<close>

lemma ubx_frame:
  assumes "ubx_idle s" and "sendable m"
  shows "\<exists>s'. feed_with ubx_step s (raw_message_string m) = Some (s', [view_of m]) \<and> ubx_idle s'"
proof -
  have raw: "raw_message_string m = [0xb5, 0x62] @ frame_of (class_id m) (message_id m) (m_payload m)
      @ [fst (ck_fold (0, 0) (frame_of (class_id m) (message_id m) (m_payload m))),
         snd (ck_fold (0, 0) (frame_of (class_id m) (message_id m) (m_payload m)))]"
    by (simp add: raw_message_string_shape ubx_header_def frame_of_def split_def Let_def)
  let ?ck = "ck_fold (0, 0) (frame_of (class_id m) (message_id m) (m_payload m))"
  have "length (m_payload m) \<le> 4096" using assms(2) by (simp add: sendable_def)
  from feed_frame_any_sum [OF assms(1) this, of "class_id m" "message_id m" "fst ?ck" "snd ?ck"]
  show ?thesis
    by (simp only: raw prod.collapse simp_thms if_True view_of_def full_id_split)
qed

interpretation ubx_frames: framed_parser ubx_step ubx_inv view_ok ubx_idle raw_message_string
    sendable "\<lambda>m. [view_of m]"
  by unfold_locales (rule ubx_frame)

section \<open>Nothing is fabricated\<close>

text \<open>
  \<open>ubx_hist h s\<close>: the octets \<open>h\<close> consumed so far end in the part of a frame that the
  state remembers.
\<close>

definition ubx_hist :: "byte list \<Rightarrow> ubx_parser \<Rightarrow> bool" where
  "ubx_hist h s \<longleftrightarrow> (case up_state s of
     SYNC1 \<Rightarrow> True
   | SYNC2 \<Rightarrow> suffix [0xb5] h
   | CLASS \<Rightarrow> suffix [0xb5, 0x62] h
   | ID \<Rightarrow> suffix [0xb5, 0x62, up_class_id s] h \<and>
       (up_ck_a_calc s, up_ck_b_calc s) = ck_fold (0, 0) [up_class_id s]
   | LEN1 \<Rightarrow> suffix [0xb5, 0x62, up_class_id s, up_msg_id s] h \<and>
       (up_ck_a_calc s, up_ck_b_calc s) = ck_fold (0, 0) [up_class_id s, up_msg_id s]
   | LEN2 \<Rightarrow> (\<exists>lo. up_len s = ucast lo \<and>
       suffix [0xb5, 0x62, up_class_id s, up_msg_id s, lo] h \<and>
       (up_ck_a_calc s, up_ck_b_calc s) = ck_fold (0, 0) [up_class_id s, up_msg_id s, lo])
   | _ \<Rightarrow> (\<exists>lo hi ps. up_len s = ucast lo OR push_bit 8 (ucast hi) \<and>
       ps = (if up_state s = PAYLOAD then take (unat (up_len_idx s)) (up_payload s)
             else up_payload s) \<and>
       suffix ([0xb5, 0x62, up_class_id s, up_msg_id s, lo, hi] @ ps @
               (if up_state s = CK_B then [up_ck_a_recv s] else [])) h \<and>
       (up_ck_a_calc s, up_ck_b_calc s) =
         ck_fold (0, 0) ([up_class_id s, up_msg_id s, lo, hi] @ ps)))"

lemma suffix_snoc: "suffix xs h \<Longrightarrow> suffix (xs @ [b]) (h @ [b])"
  by (auto simp: suffix_def)

lemma suffix_single: "suffix [b] (h @ [b])"
  by (simp add: suffix_def)

lemma ck_fold_snoc:
  "(a, b) = ck_fold c xs \<Longrightarrow> (a + x, b + (a + x)) = ck_fold c (xs @ [x])"
  by (cases "ck_fold c xs") (simp add: ck_fold_append ck_byte_def Let_def)

lemma octets_of_len:
  assumes "unat (ucast lo OR push_bit 8 (ucast hi) :: u16) = n"
  shows "(word_of_nat n :: byte) = lo" and "(word_of_nat (n div 256) :: byte) = hi"
proof -
  let ?w = "ucast lo OR push_bit 8 (ucast hi) :: u16"
  have "(word_of_nat n :: byte) = ucast ?w"
    by (simp add: assms [symmetric])
  then show "(word_of_nat n :: byte) = lo" by (simp add: octet_simps)
  have "n div 256 = unat (drop_bit 8 ?w)"
    by (simp add: assms [symmetric] drop_bit_eq_div unat_div)
  then have "(word_of_nat (n div 256) :: byte) = ucast (drop_bit 8 ?w)"
    by simp
  then show "(word_of_nat (n div 256) :: byte) = hi" by (simp only: high_byte_of_join16)
qed

lemma class_message_id_join:
  "class_id \<lparr>m_full_id = push_bit 8 (ucast c) OR ucast i, m_payload = p\<rparr> = c"
  "message_id \<lparr>m_full_id = push_bit 8 (ucast c) OR ucast i, m_payload = p\<rparr> = i"
proof -
  show "class_id \<lparr>m_full_id = push_bit 8 (ucast c) OR ucast i, m_payload = p\<rparr> = c"
    by (simp add: class_id_def and_ff)
      (rule bit_word_eqI, auto simp: bit_simps dest: bit_imp_le_length)
  show "message_id \<lparr>m_full_id = push_bit 8 (ucast c) OR ucast i, m_payload = p\<rparr> = i"
    by (simp add: message_id_def and_ff)
      (rule bit_word_eqI, auto simp: bit_simps dest: bit_imp_le_length)
qed

lemma ubx_hist_bodyI:
  assumes "up_state s \<in> {PAYLOAD, CK_A, CK_B}"
    and "up_len s = ucast lo OR push_bit 8 (ucast hi)"
    and "ps = (if up_state s = PAYLOAD then take (unat (up_len_idx s)) (up_payload s)
               else up_payload s)"
    and "suffix ([0xb5, 0x62, up_class_id s, up_msg_id s, lo, hi] @ ps @
               (if up_state s = CK_B then [up_ck_a_recv s] else [])) h"
    and "(up_ck_a_calc s, up_ck_b_calc s) =
         ck_fold (0, 0) ([up_class_id s, up_msg_id s, lo, hi] @ ps)"
  shows "ubx_hist h s"
proof -
  have "\<exists>lo hi ps. up_len s = ucast lo OR push_bit 8 (ucast hi) \<and>
       ps = (if up_state s = PAYLOAD then take (unat (up_len_idx s)) (up_payload s)
             else up_payload s) \<and>
       suffix ([0xb5, 0x62, up_class_id s, up_msg_id s, lo, hi] @ ps @
               (if up_state s = CK_B then [up_ck_a_recv s] else [])) h \<and>
       (up_ck_a_calc s, up_ck_b_calc s) =
         ck_fold (0, 0) ([up_class_id s, up_msg_id s, lo, hi] @ ps)"
    using assms(2-) by blast
  with assms(1) show ?thesis by (auto simp only: ubx_hist_def ubx_state.case insert_iff empty_iff)
qed

lemma ubx_hist_step:
  assumes "ubx_inv s" and "ubx_hist h s" and "ubx_step s b = Some (s', out)"
  shows "ubx_hist (h @ [b]) s' \<and>
    (\<forall>v \<in> set out. suffix (raw_message_string (message_of_view v)) (h @ [b]))"
proof (cases "up_state s")
  case SYNC1
  then show ?thesis using assms(3)
    by (auto simp: ubx_step_def ubx_hist_def suffix_single)
next
  case SYNC2
  then show ?thesis using assms suffix_snoc [of "[0xb5]" h b]
    by (auto simp: ubx_step_def ubx_hist_def suffix_single)
next
  case CLASS
  then show ?thesis using assms suffix_snoc [of "[0xb5, 0x62]" h b]
    by (auto simp: ubx_step_class ubx_hist_def ck_byte_def)
next
  case ID
  then show ?thesis using assms suffix_snoc [of "[0xb5, 0x62, up_class_id s]" h b]
    by (auto simp: ubx_step_id ubx_hist_def ck_byte_def Let_def)
next
  case LEN1
  then show ?thesis using assms suffix_snoc [of "[0xb5, 0x62, up_class_id s, up_msg_id s]" h b]
    by (auto simp: ubx_step_len1 ubx_hist_def ck_byte_def Let_def)
next
  case LEN2
  then obtain lo where lo: "up_len s = ucast lo"
      "suffix [0xb5, 0x62, up_class_id s, up_msg_id s, lo] h"
      "(up_ck_a_calc s, up_ck_b_calc s) = ck_fold (0, 0) [up_class_id s, up_msg_id s, lo]"
    using assms(2) by (auto simp: ubx_hist_def)
  let ?n = "up_len s OR push_bit 8 (ucast b)"
  show ?thesis
  proof (cases "?n > MAX_LEN")
    case True
    then show ?thesis using LEN2 assms(3)
      by (auto simp: ubx_step_def ubx_hist_def ubx_reset_def)
  next
    case False
    have "suffix [0xb5, 0x62, up_class_id s, up_msg_id s, lo, b] (h @ [b])"
      using suffix_snoc [OF lo(2), of b] by simp
    then show ?thesis
      using ubx_step_len2 [OF LEN2 refl False] assms(3) lo(1) ck_fold_snoc [OF lo(3), of b]
      by (auto simp: ubx_hist_def resize_vec_def simp del: ck_fold_Cons)
  qed
next
  case PAYLOAD
  let ?i = "unat (up_len_idx s)"
  from PAYLOAD assms(2) obtain lo hi where pre:
      "up_len s = ucast lo OR push_bit 8 (ucast hi)"
      "suffix ([0xb5, 0x62, up_class_id s, up_msg_id s, lo, hi] @ take ?i (up_payload s)) h"
      "(up_ck_a_calc s, up_ck_b_calc s) =
         ck_fold (0, 0) ([up_class_id s, up_msg_id s, lo, hi] @ take ?i (up_payload s))"
    by (auto simp: ubx_hist_def)
  from PAYLOAD assms(1) have lt: "up_len_idx s < up_len s" and len: "length (up_payload s) = unat (up_len s)"
    by (auto simp: ubx_inv_def)
  then have i: "?i < length (up_payload s)" by (simp add: word_less_nat_alt)
  let ?P = "(up_payload s)[?i := b]"
  have grown: "take (Suc ?i) ?P = take ?i (up_payload s) @ [b]"
    by (rule drop_take_nth_update [OF i])
  have suf: "suffix ([0xb5, 0x62, up_class_id s, up_msg_id s, lo, hi] @ take (Suc ?i) ?P) (h @ [b])"
    using suffix_snoc [OF pre(2), of b] by (simp add: grown)
  have ck: "(up_ck_a_calc s + b, up_ck_b_calc s + (up_ck_a_calc s + b)) =
      ck_fold (0, 0) ([up_class_id s, up_msg_id s, lo, hi] @ take (Suc ?i) ?P)"
    using ck_fold_snoc [OF pre(3), of b] by (simp only: grown append_assoc)
  have next_idx: "unat (up_len_idx s + 1) = Suc ?i" by (rule unat_add_1 [OF lt])
  have full: "up_len_idx s + 1 = up_len s \<Longrightarrow> take (Suc ?i) ?P = ?P"
    using len next_idx by simp
  show ?thesis
  proof (cases "up_len_idx s + 1 = up_len s")
    case True
    from True PAYLOAD assms(3) i have step: "out = []" "s' = s\<lparr>up_payload := ?P,
        up_len_idx := up_len_idx s + 1, up_ck_a_calc := up_ck_a_calc s + b,
        up_ck_b_calc := up_ck_b_calc s + (up_ck_a_calc s + b), up_state := CK_A\<rparr>"
      by (auto simp: ubx_step_def ck_update_def Let_def)
    have "ubx_hist (h @ [b]) s'"
      by (rule ubx_hist_bodyI [where lo = lo and hi = hi and ps = ?P])
        (use step pre(1) suf ck full [OF True] in \<open>simp_all del: ck_fold_Cons\<close>)
    with step show ?thesis by simp
  next
    case False
    from False PAYLOAD assms(3) i have step: "out = []" "s' = s\<lparr>up_payload := ?P,
        up_len_idx := up_len_idx s + 1, up_ck_a_calc := up_ck_a_calc s + b,
        up_ck_b_calc := up_ck_b_calc s + (up_ck_a_calc s + b)\<rparr>"
      by (auto simp: ubx_step_def ck_update_def Let_def)
    have "ubx_hist (h @ [b]) s'"
      by (rule ubx_hist_bodyI [where lo = lo and hi = hi and ps = "take (Suc ?i) ?P"])
        (use step PAYLOAD pre(1) suf ck next_idx in \<open>simp_all del: ck_fold_Cons\<close>)
    with step show ?thesis by simp
  qed
next
  case CK_A
  then show ?thesis
    using assms(2,3) suffix_snoc [where b = b and h = h]
    by (fastforce simp: ubx_step_sums ubx_hist_def)
next
  case CK_B
  from CK_B assms(2) obtain lo hi where pre:
      "up_len s = ucast lo OR push_bit 8 (ucast hi)"
      "suffix ([0xb5, 0x62, up_class_id s, up_msg_id s, lo, hi] @ up_payload s @ [up_ck_a_recv s]) h"
      "(up_ck_a_calc s, up_ck_b_calc s) =
         ck_fold (0, 0) ([up_class_id s, up_msg_id s, lo, hi] @ up_payload s)"
    by (auto simp: ubx_hist_def)
  from CK_B assms(1) have len: "unat (up_len s) = length (up_payload s)"
    by (auto simp: ubx_inv_def)
  note octets = octets_of_len [OF len [unfolded pre(1)]]
  let ?v = "\<lparr>view_msg_id = push_bit 8 (ucast (up_class_id s)) OR ucast (up_msg_id s),
    view_payload = take (unat (up_len s)) (up_payload s), view_len = up_len s\<rparr>"
  have raw: "raw_message_string (message_of_view ?v) =
      [0xb5, 0x62, up_class_id s, up_msg_id s, lo, hi] @ up_payload s @
      [up_ck_a_calc s, up_ck_b_calc s]"
    using pre(3) [symmetric]
    by (simp add: raw_message_string_shape ubx_header_def message_of_view_def
        class_message_id_join len octets del: ck_fold_Cons)
  have "suffix ([0xb5, 0x62, up_class_id s, up_msg_id s, lo, hi] @ up_payload s @
      [up_ck_a_recv s, b]) (h @ [b])"
    using suffix_snoc [OF pre(2), of b] by simp
  then show ?thesis
    using assms(3) ubx_step_sums(2) [OF CK_B] raw
    by (auto simp: ubx_hist_def ubx_reset_def len split: if_splits)
qed

lemma ubx_feed_hist:
  assumes "ubx_inv s" and "ubx_hist h s" and "feed_with ubx_step s bs = Some (s', out)"
  shows "ubx_hist (h @ bs) s' \<and> (\<forall>v \<in> set out. sublist (raw_message_string (message_of_view v)) (h @ bs))"
  using assms
proof (induction bs arbitrary: s h out)
  case Nil
  then show ?case by simp
next
  case (Cons b bs)
  obtain s1 out1 where 1: "ubx_step s b = Some (s1, out1)" "ubx_inv s1"
    using ubx_step_safe [OF Cons.prems(1), of b] by blast
  then obtain out2 where 2: "feed_with ubx_step s1 bs = Some (s', out2)" "out = out1 @ out2"
    using Cons.prems(3) by (auto split: option.splits)
  note here = ubx_hist_step [OF Cons.prems(1,2) 1(1)]
  have rest: "ubx_hist ((h @ [b]) @ bs) s' \<and>
      (\<forall>v \<in> set out2. sublist (raw_message_string (message_of_view v)) ((h @ [b]) @ bs))"
    using Cons.IH [OF 1(2) _ 2(1)] here by blast
  have "sublist (raw_message_string (message_of_view v)) (h @ b # bs)" if "v \<in> set out1" for v
  proof -
    have "suffix (raw_message_string (message_of_view v)) (h @ [b])" using here that by blast
    then obtain zs where "h @ [b] = zs @ raw_message_string (message_of_view v)"
      by (auto simp: suffix_def)
    have "h @ b # bs = (h @ [b]) @ bs" by simp
    also have "\<dots> = zs @ raw_message_string (message_of_view v) @ bs"
      by (simp only: \<open>h @ [b] = _\<close> append_assoc)
    finally show ?thesis by (auto simp only: sublist_def)
  qed
  then show ?case using rest 2(2) by auto
qed

lemma ubx_init_inv: "ubx_inv ubx_init" "ubx_hist [] ubx_init" "ubx_idle ubx_init"
  by (simp_all add: ubx_init_def ubx_inv_def ubx_hist_def ubx_idle_def)

section \<open>Single-octet corruption\<close>

lemma raw_as_frame:
  "raw_message_string m = [0xb5, 0x62] @ frame_of (class_id m) (message_id m) (m_payload m) @
     [fst (ck_fold (0, 0) (frame_of (class_id m) (message_id m) (m_payload m))),
      snd (ck_fold (0, 0) (frame_of (class_id m) (message_id m) (m_payload m)))]"
  by (simp add: raw_message_string_shape ubx_header_def frame_of_def split_def Let_def)

lemma length_raw_message_string: "length (raw_message_string m) = 8 + length (m_payload m)"
  by (simp add: raw_as_frame frame_of_def)

lemma feed_bad_frame:
  assumes "ubx_idle s" and "length ps \<le> 4096" and "(x, y) \<noteq> ck_fold (0, 0) (frame_of c i ps)"
  shows "\<exists>s'. feed_with ubx_step s ([0xb5, 0x62] @ frame_of c i ps @ [x, y]) = Some (s', [])
    \<and> ubx_idle s'"
  using feed_frame_any_sum [OF assms(1,2), of c i x y] by (simp only: assms(3) if_False)

lemma ck_fold_update:
  assumes "k < length bs" and "x \<noteq> bs ! k"
  shows "fst (ck_fold (a, b) (bs[k := x])) \<noteq> fst (ck_fold (a, b) bs)"
proof -
  have "bs = take k bs @ bs ! k # drop (Suc k) bs"
    by (rule id_take_nth_drop [OF assms(1)])
  then show ?thesis
    using ck_fold_single_change [OF assms(2), of a b "take k bs" "drop (Suc k) bs"]
    by (simp add: upd_conv_take_nth_drop [OF assms(1)])
qed

text \<open>A changed class or message id, or a changed payload octet, is still a frame.\<close>

lemma frame_of_update:
  assumes "k < 2 \<or> 4 \<le> k" and "k < length (frame_of c i ps)"
  shows "\<exists>c' i' ps'. (frame_of c i ps)[k := x] = frame_of c' i' ps' \<and> length ps' = length ps"
proof (cases "k < 2")
  case True
  then consider "k = 0" | "k = 1" by linarith
  then show ?thesis
  proof cases
    case 1
    then have "(frame_of c i ps)[k := x] = frame_of x i ps" by (simp add: frame_of_def)
    then show ?thesis by blast
  next
    case 2
    then have "(frame_of c i ps)[k := x] = frame_of c x ps" by (simp add: frame_of_def)
    then show ?thesis by blast
  qed
next
  case False
  with assms obtain j where "k = 4 + j" using le_Suc_ex by blast
  then have k: "k = Suc (Suc (Suc (Suc j)))" by simp
  have "(frame_of c i ps)[k := x] = frame_of c i (ps[j := x])"
    by (simp add: frame_of_def k)
  then show ?thesis by (metis length_list_update)
qed

lemma ubx_corrupt_frame:
  assumes "ubx_idle s" and "sendable m" and "k < length (raw_message_string m)"
    and "k \<notin> {0, 1, 4, 5}" and "x \<noteq> raw_message_string m ! k"
  shows "\<exists>s'. feed_with ubx_step s ((raw_message_string m)[k := x]) = Some (s', []) \<and> ubx_idle s'"
proof -
  let ?f = "frame_of (class_id m) (message_id m) (m_payload m)"
  let ?ck = "ck_fold (0, 0) ?f"
  have raw: "raw_message_string m = [0xb5, 0x62] @ ?f @ [fst ?ck, snd ?ck]" by (rule raw_as_frame)
  have len: "length (m_payload m) \<le> 4096" using assms(2) by (simp add: sendable_def)
  have "2 \<le> k" using assms(4) by auto
  then obtain j where "k = 2 + j" using le_Suc_ex by blast
  then have k: "k = Suc (Suc j)" by simp
  show ?thesis
  proof (cases "k < 2 + length ?f")
    case True
    have kf: "j < length ?f" using True k by simp
    have nth: "raw_message_string m ! k = ?f ! j"
      using kf k by (simp add: raw nth_append)
    have upd: "(raw_message_string m)[k := x] = [0xb5, 0x62] @ ?f[j := x] @ [fst ?ck, snd ?ck]"
      using kf k by (simp add: raw list_update_append)
    have "j < 2 \<or> 4 \<le> j" using assms(4) k by auto
    from frame_of_update [OF this kf, of x] obtain c i ps where
        f: "?f[j := x] = frame_of c i ps" "length ps = length (m_payload m)" by blast
    have "(fst ?ck, snd ?ck) \<noteq> ck_fold (0, 0) (frame_of c i ps)"
      using ck_fold_update [OF kf, of x 0 0] assms(5) nth f(1) by (auto simp: prod_eq_iff)
    from feed_bad_frame [OF assms(1) _ this] len f show ?thesis
      by (simp only: upd)
  next
    case False
    with assms(3) have "k = 2 + length ?f \<or> k = 3 + length ?f" by (auto simp: raw)
    then obtain a b where upd: "(raw_message_string m)[k := x] = [0xb5, 0x62] @ ?f @ [a, b]"
        "(a, b) \<noteq> ?ck"
    proof
      assume "k = 2 + length ?f"
      with k have j: "j = length ?f" by simp
      then have "x \<noteq> fst ?ck" using assms(5) k by (simp add: raw nth_append)
      with k j that [of x "snd ?ck"] show ?thesis
        by (simp add: raw list_update_append prod_eq_iff)
    next
      assume "k = 3 + length ?f"
      with k have j: "j = Suc (length ?f)" by simp
      then have "x \<noteq> snd ?ck" using assms(5) k by (simp add: raw nth_append)
      with k j that [of "fst ?ck" x] show ?thesis
        by (simp add: raw list_update_append prod_eq_iff)
    qed
    from feed_bad_frame [OF assms(1) len upd(2)] show ?thesis by (simp only: upd(1))
  qed
qed

section \<open>Properties\<close>

text \<open>
  C1: however the reads of the serial port cut the octet stream into chunks, a stream of frames
  built by \<open>UbxMessage::raw_message_string\<close> (payloads of at most \<open>MAX_LEN\<close> octets) is
  delivered by \<open>UbxParser::feed\<close> as exactly those messages, in order, and the parser is
  ready for the next frame.
\<close>

theorem ubx_stream_roundtrip:
  assumes "ubx_idle s" and "\<forall>m \<in> set ms. sendable m"
    and "concat chunks = concat (map raw_message_string ms)"
  shows "\<exists>s' vs. feed_chunks ubx_step s chunks = Some (s', vs) \<and> map message_of_view vs = ms
    \<and> ubx_idle s'"
  using ubx_frames.feed_chunked_frames [OF assms, unfolded concat_map_singleton]
  by (metis (no_types, lifting) message_of_view_of map_idI map_map comp_def)

theorem ubx_stream_roundtrip_witness:
  "\<exists>s' vs. feed_chunks ubx_step ubx_init
      [[0xb5, 0x62, 0x06], [0x01, 0x01, 0x00, 0x07, 0x0f, 0x2c]] = Some (s', vs)
    \<and> map message_of_view vs = [\<lparr>m_full_id = 0x0601, m_payload = [0x07]\<rparr>] \<and> ubx_idle s'"
proof -
  have "concat [[0xb5, 0x62, 0x06], [0x01, 0x01, 0x00, 0x07, 0x0f, 0x2c]] =
      concat (map raw_message_string [\<lparr>m_full_id = 0x0601, m_payload = [0x07]\<rparr>])"
    by code_simp
  moreover have "\<forall>m \<in> set [\<lparr>m_full_id = 0x0601, m_payload = [0x07]\<rparr>]. sendable m"
    by (simp add: sendable_def)
  ultimately show ?thesis
    using ubx_stream_roundtrip [OF ubx_init_inv(3)] by blast
qed

text \<open>
  C2: on every octet stream, starting from a fresh parser, \<open>UbxParser::feed\<close> never stores
  outside \<open>payload_\<close>, never hands out a view longer than its buffer, and every message it
  delivers has at most \<open>MAX_LEN\<close> payload octets.
\<close>

theorem ubx_feed_memory_safe:
  "\<exists>s' vs. ubx_feed ubx_init bs = Some (s', vs) \<and> ubx_inv s' \<and> list_all view_ok vs"
  using ubx.feed_safe [OF ubx_init_inv(1), of bs] by (simp add: ubx_feed_def list_all_iff)

text \<open>
  C3: a message is never fabricated. Whatever octets arrive, each message the parser delivers
  was present in the stream as a complete frame, with sync characters, matching length and
  valid checksum.
\<close>

theorem ubx_no_fabrication:
  assumes "ubx_feed ubx_init bs = Some (s', vs)" and "v \<in> set vs"
  shows "sublist (raw_message_string (message_of_view v)) bs"
  using ubx_feed_hist [OF ubx_init_inv(1,2), of bs s' vs] assms by (simp add: ubx_feed_def)

theorem ubx_no_fabrication_witness:
  "sublist (raw_message_string \<lparr>m_full_id = 0x0601, m_payload = [0x07]\<rparr>)
     [0x00, 0xb5, 0xb5, 0x62, 0x06, 0x01, 0x01, 0x00, 0x07, 0x0f, 0x2c, 0xff]"
proof -
  let ?bs = "[0x00, 0xb5, 0xb5, 0x62, 0x06, 0x01, 0x01, 0x00, 0x07, 0x0f, 0x2c, 0xff] :: byte list"
  let ?v = "\<lparr>view_msg_id = 0x0601, view_payload = [0x07], view_len = 1\<rparr>"
  have "map_option snd (ubx_feed ubx_init ?bs) = Some [?v]"
    by code_simp
  then obtain s' where "ubx_feed ubx_init ?bs = Some (s', [?v])" by auto
  from ubx_no_fabrication [OF this, of ?v] show ?thesis
    by (simp add: message_of_view_def)
qed

text \<open>
  C4: a frame in which one octet was altered in transit (class, id, payload or checksum; not
  the sync or length octets, which decide where the frame is and ends) is dropped without
  delivering anything, and the parser is ready for the next frame.
\<close>

theorem ubx_rejects_corruption:
  assumes "ubx_idle s" and "sendable m" and "k < length (raw_message_string m)"
    and "k \<notin> {0, 1, 4, 5}" and "x \<noteq> raw_message_string m ! k"
  shows "\<exists>s'. ubx_feed s ((raw_message_string m)[k := x]) = Some (s', []) \<and> ubx_idle s'"
  using ubx_corrupt_frame [OF assms] by (simp add: ubx_feed_def)

theorem ubx_rejects_corruption_witness:
  "\<exists>s'. ubx_feed ubx_init ((raw_message_string \<lparr>m_full_id = 0x0601, m_payload = [0x07]\<rparr>)[6 := 9])
      = Some (s', []) \<and> ubx_idle s'"
proof (rule ubx_rejects_corruption [OF ubx_init_inv(3)])
  show "sendable \<lparr>m_full_id = 0x0601, m_payload = [0x07]\<rparr>" by (simp add: sendable_def)
  show "6 < length (raw_message_string \<lparr>m_full_id = 0x0601, m_payload = [0x07]\<rparr>)" by code_simp
  show "(9 :: byte) \<noteq> raw_message_string \<lparr>m_full_id = 0x0601, m_payload = [0x07]\<rparr> ! 6"
    by code_simp
qed simp

end
