(* ===== verification/Ubx_Ids.thy ===== *)
theory Ubx_Ids
  imports Prelude
begin

text \<open>
  library/src/data/ublox/ublox_messages.h: the protocol version type, the UBX message ids (class
  in the high octet, message in the low one), their names, the messages whose rate the daemon
  configures, the messages the receiver acknowledges, and the rates set at start-up.
\<close>

named_theorems msg_id_simps \<open>the values of the message ids\<close>

record UbxProtVersion =
  major :: u32
  minor :: u32

definition version_less :: "UbxProtVersion \<Rightarrow> UbxProtVersion \<Rightarrow> bool" where
  "version_less v other =
     (if major v \<noteq> major other then major v < major other else minor v < minor other)"

section \<open>Message ids\<close>

definition ACK :: u16 where [msg_id_simps]: "ACK = 0x0501"
definition NAK :: u16 where [msg_id_simps]: "NAK = 0x0500"
definition NAV_CLOCK :: u16 where [msg_id_simps]: "NAV_CLOCK = 0x0122"
definition NAV_DGPS :: u16 where [msg_id_simps]: "NAV_DGPS = 0x0131"
definition NAV_AOPSTATUS :: u16 where [msg_id_simps]: "NAV_AOPSTATUS = 0x0160"
definition NAV_DOP :: u16 where [msg_id_simps]: "NAV_DOP = 0x0104"
definition NAV_EOE :: u16 where [msg_id_simps]: "NAV_EOE = 0x0161"
definition NAV_GEOFENCE :: u16 where [msg_id_simps]: "NAV_GEOFENCE = 0x0139"
definition NAV_ODO :: u16 where [msg_id_simps]: "NAV_ODO = 0x0109"
definition NAV_ORB :: u16 where [msg_id_simps]: "NAV_ORB = 0x0134"
definition NAV_POSECEF :: u16 where [msg_id_simps]: "NAV_POSECEF = 0x0101"
definition NAV_POSLLH :: u16 where [msg_id_simps]: "NAV_POSLLH = 0x0102"
definition NAV_PVT :: u16 where [msg_id_simps]: "NAV_PVT = 0x0107"
definition NAV_RESETODO :: u16 where [msg_id_simps]: "NAV_RESETODO = 0x0110"
definition NAV_SAT :: u16 where [msg_id_simps]: "NAV_SAT = 0x0135"
definition NAV_SBAS :: u16 where [msg_id_simps]: "NAV_SBAS = 0x0132"
definition NAV_SOL :: u16 where [msg_id_simps]: "NAV_SOL = 0x0106"
definition NAV_STATUS :: u16 where [msg_id_simps]: "NAV_STATUS = 0x0103"
definition NAV_SVINFO :: u16 where [msg_id_simps]: "NAV_SVINFO = 0x0130"
definition NAV_TIMEBDS :: u16 where [msg_id_simps]: "NAV_TIMEBDS = 0x0124"
definition NAV_TIMEGAL :: u16 where [msg_id_simps]: "NAV_TIMEGAL = 0x0125"
definition NAV_TIMEGLO :: u16 where [msg_id_simps]: "NAV_TIMEGLO = 0x0123"
definition NAV_TIMEGPS :: u16 where [msg_id_simps]: "NAV_TIMEGPS = 0x0120"
definition NAV_TIMELS :: u16 where [msg_id_simps]: "NAV_TIMELS = 0x0126"
definition NAV_TIMEUTC :: u16 where [msg_id_simps]: "NAV_TIMEUTC = 0x0121"
definition NAV_VELECEF :: u16 where [msg_id_simps]: "NAV_VELECEF = 0x0111"
definition NAV_VELNED :: u16 where [msg_id_simps]: "NAV_VELNED = 0x0112"
definition CFG_ANT :: u16 where [msg_id_simps]: "CFG_ANT = 0x0613"
definition CFG_CFG :: u16 where [msg_id_simps]: "CFG_CFG = 0x0609"
definition CFG_DAT :: u16 where [msg_id_simps]: "CFG_DAT = 0x0606"
definition CFG_DOSC :: u16 where [msg_id_simps]: "CFG_DOSC = 0x0661"
definition CFG_DYNSEED :: u16 where [msg_id_simps]: "CFG_DYNSEED = 0x0685"
definition CFG_ESRC :: u16 where [msg_id_simps]: "CFG_ESRC = 0x0660"
definition CFG_FIXSEED :: u16 where [msg_id_simps]: "CFG_FIXSEED = 0x0684"
definition CFG_GEOFENCE :: u16 where [msg_id_simps]: "CFG_GEOFENCE = 0x0669"
definition CFG_GNSS :: u16 where [msg_id_simps]: "CFG_GNSS = 0x063e"
definition CFG_INF :: u16 where [msg_id_simps]: "CFG_INF = 0x0602"
definition CFG_ITFM :: u16 where [msg_id_simps]: "CFG_ITFM = 0x0639"
definition CFG_LOGFILTER :: u16 where [msg_id_simps]: "CFG_LOGFILTER = 0x0647"
definition CFG_MSG :: u16 where [msg_id_simps]: "CFG_MSG = 0x0601"
definition CFG_NAV5 :: u16 where [msg_id_simps]: "CFG_NAV5 = 0x0624"
definition CFG_NAVX5 :: u16 where [msg_id_simps]: "CFG_NAVX5 = 0x0623"
definition CFG_NMEA :: u16 where [msg_id_simps]: "CFG_NMEA = 0x0617"
definition CFG_ODO :: u16 where [msg_id_simps]: "CFG_ODO = 0x061e"
definition CFG_PM2 :: u16 where [msg_id_simps]: "CFG_PM2 = 0x063b"
definition CFG_PMS :: u16 where [msg_id_simps]: "CFG_PMS = 0x0686"
definition CFG_PRT :: u16 where [msg_id_simps]: "CFG_PRT = 0x0600"
definition CFG_PWR :: u16 where [msg_id_simps]: "CFG_PWR = 0x0657"
definition CFG_RATE :: u16 where [msg_id_simps]: "CFG_RATE = 0x0608"
definition CFG_RINV :: u16 where [msg_id_simps]: "CFG_RINV = 0x0634"
definition CFG_RST :: u16 where [msg_id_simps]: "CFG_RST = 0x0604"
definition CFG_RXM :: u16 where [msg_id_simps]: "CFG_RXM = 0x0611"
definition CFG_SBAS :: u16 where [msg_id_simps]: "CFG_SBAS = 0x0616"
definition CFG_SMGR :: u16 where [msg_id_simps]: "CFG_SMGR = 0x0662"
definition CFG_TMODE2 :: u16 where [msg_id_simps]: "CFG_TMODE2 = 0x063d"
definition CFG_TP5 :: u16 where [msg_id_simps]: "CFG_TP5 = 0x0631"
definition CFG_TXSLOT :: u16 where [msg_id_simps]: "CFG_TXSLOT = 0x0653"
definition CFG_USB :: u16 where [msg_id_simps]: "CFG_USB = 0x061b"
definition TIM_TP :: u16 where [msg_id_simps]: "TIM_TP = 0x0d01"
definition TIM_TM2 :: u16 where [msg_id_simps]: "TIM_TM2 = 0x0d03"
definition TIM_VRFY :: u16 where [msg_id_simps]: "TIM_VRFY = 0x0d06"
definition MON_VER :: u16 where [msg_id_simps]: "MON_VER = 0x0a04"
definition MON_GNSS :: u16 where [msg_id_simps]: "MON_GNSS = 0x0a28"
definition MON_HW :: u16 where [msg_id_simps]: "MON_HW = 0x0a09"
definition MON_HW2 :: u16 where [msg_id_simps]: "MON_HW2 = 0x0a0b"
definition MON_IO :: u16 where [msg_id_simps]: "MON_IO = 0x0a02"
definition MON_MSGPP :: u16 where [msg_id_simps]: "MON_MSGPP = 0x0a06"
definition MON_PATCH :: u16 where [msg_id_simps]: "MON_PATCH = 0x0a27"
definition MON_RXBUF :: u16 where [msg_id_simps]: "MON_RXBUF = 0x0a07"
definition MON_RXR :: u16 where [msg_id_simps]: "MON_RXR = 0x0a21"
definition MON_SMGR :: u16 where [msg_id_simps]: "MON_SMGR = 0x0a2e"
definition MON_TXBUF :: u16 where [msg_id_simps]: "MON_TXBUF = 0x0a08"
definition NMEA_DTM :: u16 where [msg_id_simps]: "NMEA_DTM = 0xf00a"
definition NMEA_GBQ :: u16 where [msg_id_simps]: "NMEA_GBQ = 0xf044"
definition NMEA_GBS :: u16 where [msg_id_simps]: "NMEA_GBS = 0xf009"
definition NMEA_GGA :: u16 where [msg_id_simps]: "NMEA_GGA = 0xf000"
definition NMEA_GLL :: u16 where [msg_id_simps]: "NMEA_GLL = 0xf001"
definition NMEA_GLQ :: u16 where [msg_id_simps]: "NMEA_GLQ = 0xf043"
definition NMEA_GNQ :: u16 where [msg_id_simps]: "NMEA_GNQ = 0xf042"
definition NMEA_GNS :: u16 where [msg_id_simps]: "NMEA_GNS = 0xf00d"
definition NMEA_GPQ :: u16 where [msg_id_simps]: "NMEA_GPQ = 0xf040"
definition NMEA_GRS :: u16 where [msg_id_simps]: "NMEA_GRS = 0xf006"
definition NMEA_GSA :: u16 where [msg_id_simps]: "NMEA_GSA = 0xf002"
definition NMEA_GST :: u16 where [msg_id_simps]: "NMEA_GST = 0xf007"
definition NMEA_GSV :: u16 where [msg_id_simps]: "NMEA_GSV = 0xf003"
definition NMEA_RMC :: u16 where [msg_id_simps]: "NMEA_RMC = 0xf004"
definition NMEA_TXT :: u16 where [msg_id_simps]: "NMEA_TXT = 0xf041"
definition NMEA_VLW :: u16 where [msg_id_simps]: "NMEA_VLW = 0xf00f"
definition NMEA_VTG :: u16 where [msg_id_simps]: "NMEA_VTG = 0xf005"
definition NMEA_ZDA :: u16 where [msg_id_simps]: "NMEA_ZDA = 0xf008"
definition NMEA_CONFIG :: u16 where [msg_id_simps]: "NMEA_CONFIG = 0xf141"
definition NMEA_POSITION :: u16 where [msg_id_simps]: "NMEA_POSITION = 0xf100"
definition NMEA_RATE :: u16 where [msg_id_simps]: "NMEA_RATE = 0xf140"
definition NMEA_SVSTATUS :: u16 where [msg_id_simps]: "NMEA_SVSTATUS = 0xf103"
definition NMEA_TIME :: u16 where [msg_id_simps]: "NMEA_TIME = 0xf104"
definition RXM_RAW :: u16 where [msg_id_simps]: "RXM_RAW = 0x0210"
definition RXM_SFRB :: u16 where [msg_id_simps]: "RXM_SFRB = 0x0211"
definition RXM_SFRBX :: u16 where [msg_id_simps]: "RXM_SFRBX = 0x0213"
definition RXM_RAWX :: u16 where [msg_id_simps]: "RXM_RAWX = 0x0215"
definition TRK_D5 :: u16 where [msg_id_simps]: "TRK_D5 = 0x030A"
definition TRK_MEAS :: u16 where [msg_id_simps]: "TRK_MEAS = 0x0310"
definition TRK_SFRBX :: u16 where [msg_id_simps]: "TRK_SFRBX = 0x030F"

section \<open>Tables\<close>

definition msg_string_list :: "(u16 \<times> string) list" where
  "msg_string_list = [
    (ACK, ''ACK-ACK''), (NAK, ''ACK-NAK''), (NAV_CLOCK, ''NAV-CLOCK''),
    (NAV_DGPS, ''NAV-DGPS''), (NAV_AOPSTATUS, ''NAV-AOPSTATUS''), (NAV_DOP, ''NAV-DOP''),
    (NAV_POSECEF, ''NAV-POSECEF''), (NAV_POSLLH, ''NAV-POSLLH''), (NAV_PVT, ''NAV-PVT''),
    (NAV_SBAS, ''NAV-SBAS''), (NAV_SOL, ''NAV-SOL''), (NAV_STATUS, ''NAV-STATUS''),
    (NAV_SVINFO, ''NAV-SVINFO''), (NAV_TIMEGPS, ''NAV-TIMEGPS''),
    (NAV_TIMEUTC, ''NAV-TIMEUTC''), (NAV_VELECEF, ''NAV-VELECEF''),
    (NAV_VELNED, ''NAV-VELNED''), (CFG_ANT, ''CFG-ANT''), (CFG_CFG, ''CFG-CFG''),
    (CFG_DAT, ''CFG-DAT''), (CFG_GNSS, ''CFG-GNSS''), (CFG_INF, ''CFG-INF''),
    (CFG_ITFM, ''CFG-ITFM''), (CFG_LOGFILTER, ''CFG-LOGFILTER''), (CFG_MSG, ''CFG-MSG''),
    (CFG_NAV5, ''CFG-NAV5''), (CFG_NAVX5, ''CFG-NAV5X''), (CFG_NMEA, ''CFG-NMEA''),
    (CFG_PM2, ''CFG-PM2''), (CFG_PRT, ''CFG-PRT''), (CFG_RATE, ''CFG-RATE''),
    (CFG_RINV, ''CFG-RINV''), (CFG_RST, ''CFG-RST''), (CFG_RXM, ''CFG-RXM''),
    (CFG_SBAS, ''CFG-SBAS''), (CFG_TP5, ''CFG-TP5''), (CFG_USB, ''CFG-USB''),
    (TIM_TP, ''TIM-TP''), (TIM_TM2, ''TIM-TM2''), (TIM_VRFY, ''TIM-VRFY''),
    (MON_VER, ''MON-VER''), (MON_HW, ''MON-HW''), (MON_HW2, ''MON-HW2''),
    (MON_IO, ''MON-IO''), (MON_MSGPP, ''MON-MSGP''), (MON_RXBUF, ''MON-RXBUF''),
    (MON_RXR, ''MON-RXR''), (MON_TXBUF, ''MON-TXBUF''), (NAV_EOE, ''NAV-EOE''),
    (NAV_GEOFENCE, ''NAV-GEOFENCE''), (NAV_ODO, ''NAV-ODO''), (NAV_ORB, ''NAV-ORB''),
    (NAV_RESETODO, ''NAV-RESETODO''), (NAV_SAT, ''NAV-SAT''),
    (NAV_TIMEBDS, ''NAV-TIMEBDS''), (NAV_TIMEGAL, ''NAV-TIMEGAL''),
    (NAV_TIMEGLO, ''NAV-TIMEGLO''), (NAV_TIMELS, ''NAV-TIMELS''), (NMEA_DTM, ''NMEA-DTM''),
    (NMEA_GBQ, ''NMEA-GBQ''), (NMEA_GBS, ''NMEA-GBS''), (NMEA_GGA, ''NMEA-GGA''),
    (NMEA_GLL, ''NMEA-GLL''), (NMEA_GLQ, ''NMEA-GLQ''), (NMEA_GNQ, ''NMEA-GNQ''),
    (NMEA_GNS, ''NMEA-GNS''), (NMEA_GPQ, ''NMEA-GPQ''), (NMEA_GRS, ''NMEA-GRS''),
    (NMEA_GSA, ''NMEA-GSA''), (NMEA_GST, ''NMEA-GST''), (NMEA_GSV, ''NMEA-GSV''),
    (NMEA_RMC, ''NMEA-RMC''), (NMEA_TXT, ''NMEA-TXT''), (NMEA_VLW, ''NMEA-VLW''),
    (NMEA_VTG, ''NMEA-VTG''), (NMEA_ZDA, ''NMEA-ZDA''), (NMEA_CONFIG, ''NMEA-CONFIG''),
    (NMEA_POSITION, ''NMEA-POSITION''), (NMEA_RATE, ''NMEA-RATE''),
    (NMEA_SVSTATUS, ''NMEA-SVSTATUS''), (NMEA_TIME, ''NMEA-TIME''), (RXM_RAW, ''RXM-RAW''),
    (RXM_SFRB, ''RXMSFRB''), (RXM_RAWX, ''RXM-RAWX''), (TRK_D5, ''TRK-D5''),
    (TRK_MEAS, ''TRK-MEAS''), (TRK_SFRBX, ''TRK-SFRBX'')]"

definition msg_string :: "u16 \<Rightarrow> string option" where
  "msg_string = map_of msg_string_list"

definition rateCfgMsgID :: "u16 list" where
  "rateCfgMsgID = [
    TIM_TM2, TIM_TP, NAV_CLOCK, NAV_DGPS, NAV_AOPSTATUS, NAV_DOP, NAV_POSECEF, NAV_POSLLH,
    NAV_PVT, NAV_SBAS, NAV_SOL, NAV_STATUS, NAV_SVINFO, NAV_TIMEGPS, NAV_TIMEUTC,
    NAV_VELECEF, NAV_VELNED, MON_HW, MON_HW2, MON_IO, MON_MSGPP, MON_RXBUF, MON_RXR,
    MON_TXBUF]"

definition idsExpectedAck :: "u16 list" where
  "idsExpectedAck = [
    CFG_ANT, CFG_CFG, CFG_DAT, CFG_DOSC, CFG_DYNSEED, CFG_ESRC, CFG_FIXSEED, CFG_GEOFENCE,
    CFG_GNSS, CFG_INF, CFG_ITFM, CFG_LOGFILTER, CFG_MSG, CFG_NAV5, CFG_NAVX5, CFG_NMEA,
    CFG_ODO, CFG_PM2, CFG_PMS, CFG_PRT, CFG_PWR, CFG_RATE, CFG_RINV, CFG_RST, CFG_RXM,
    CFG_SBAS, CFG_SMGR, CFG_TMODE2, CFG_TP5, CFG_TXSLOT, CFG_USB]"

definition defaultRates :: "(u16 \<times> u8 \<times> u8) list" where
  "defaultRates = [
    (TIM_TM2, 1, 1), (TIM_TP, 1, 0), (NAV_TIMEUTC, 1, 131), (MON_HW, 1, 47),
    (MON_HW2, 1, 49), (NAV_POSLLH, 1, 43), (NAV_TIMEGPS, 1, 0), (NAV_STATUS, 1, 71),
    (NAV_CLOCK, 1, 189), (MON_RXBUF, 1, 53), (MON_TXBUF, 1, 51), (NAV_SBAS, 1, 0),
    (NAV_DOP, 1, 254)]"

section \<open>The version order\<close>

lemma version_less_irrefl: "\<not> version_less v v"
  by (simp add: version_less_def)

lemma version_less_trans: "version_less u v \<Longrightarrow> version_less v w \<Longrightarrow> version_less u w"
  by (auto simp: version_less_def split: if_splits)

lemma version_less_linear: "version_less u v \<or> u = v \<or> version_less v u"
  by (cases u; cases v) (auto simp: version_less_def)

lemma defaultRates_distinct: "distinct (map fst defaultRates)"
  by (simp add: defaultRates_def msg_id_simps)

end
