(* ===== verification/Ieee_Double.thy ===== *)
theory Ieee_Double
  imports Complex_Main "HOL-Library.Log_Nat"
begin

text \<open>
  Arithmetic on \<open>double\<close> and \<open>float\<close> as the C++ of this repository uses it: IEEE 754 binary64
  and binary32 with rounding to nearest, ties to even. A finite number is the rational it
  denotes, and an operation is the exact operation followed by \<open>rnd p\<close>, rounding to \<open>p\<close>
  significant bits (53 or 24). Overflow, underflow and the non-finite values are outside the
  model: the magnitudes here lie between 1e-12 and 1e20.
\<close>

definition pow2 :: "int \<Rightarrow> rat" where
  "pow2 k = (if 0 \<le> k then 2 ^ nat k else 1 / 2 ^ nat (- k))"

text \<open>\<open>ilog2 x\<close> is the exponent of a positive \<open>x\<close>: \<open>pow2 (ilog2 x) \<le> x < pow2 (ilog2 x + 1)\<close>.\<close>

definition ilog2 :: "rat \<Rightarrow> int" where
  "ilog2 x = (let (p, q) = quotient_of x; k = bitlen p - bitlen q
              in if pow2 k \<le> x then k else k - 1)"

definition round_half_even :: "rat \<Rightarrow> int" where
  "round_half_even x =
     (let f = \<lfloor>x\<rfloor>; d = x - of_int f
      in if d < 1 / 2 then f else if 1 / 2 < d then f + 1 else if even f then f else f + 1)"

definition rnd :: "nat \<Rightarrow> rat \<Rightarrow> rat" where
  "rnd p x = (if x = 0 then 0
              else let ulp = pow2 (ilog2 \<bar>x\<bar> - (int p - 1)) in of_int (round_half_even (x / ulp)) * ulp)"

definition double :: "rat \<Rightarrow> rat" where
  "double x = rnd 53 x"

definition float :: "rat \<Rightarrow> rat" where
  "float x = rnd 24 x"

text \<open>Conversion of a double to a 64-bit signed integer truncates; out of range is undefined.\<close>

definition trunc_rat :: "rat \<Rightarrow> int" where
  "trunc_rat x = (if 0 \<le> x then \<lfloor>x\<rfloor> else \<lceil>x\<rceil>)"

definition to_int64 :: "rat \<Rightarrow> int option" where
  "to_int64 x = (let n = trunc_rat x in if - (2 ^ 63) \<le> n \<and> n < 2 ^ 63 then Some n else None)"

text \<open>\<open>std::lround\<close>, halves away from zero; it saturates at the bounds of a 64-bit \<open>long\<close>.\<close>

definition lround :: "rat \<Rightarrow> int" where
  "lround x = (let n = if 0 \<le> x then \<lfloor>x + 1 / 2\<rfloor> else - \<lfloor>1 / 2 - x\<rfloor>
               in max (- (2 ^ 63)) (min (2 ^ 63 - 1) n))"

section \<open>Powers of two and exponents\<close>

lemma pow2_pos [simp]: "0 < pow2 k"
  by (simp add: pow2_def)

lemma pow2_nonzero [simp]: "pow2 k \<noteq> 0"
  using pow2_pos [of k] by linarith

lemma pow2_powi: "pow2 k = 2 powi k"
  by (simp add: pow2_def power_int_def field_simps)

lemma pow2_add: "pow2 (j + k) = pow2 j * pow2 k"
  by (simp add: pow2_powi power_int_add)

lemma pow2_diff: "pow2 (j - k) = pow2 j / pow2 k"
  by (simp add: pow2_powi power_int_diff)

lemma pow2_mono: "j \<le> k \<Longrightarrow> pow2 j \<le> pow2 k"
  by (simp add: pow2_powi power_int_increasing)

lemma pow2_less_iff: "pow2 j < pow2 k \<longleftrightarrow> j < k"
  by (metis linorder_not_less pow2_mono pow2_powi power_int_strict_increasing one_less_numeral_iff
      semiring_norm(76) antisym_conv3 order_less_asym)

lemma pow2_nat: "pow2 (int n) = 2 ^ n"
  by (simp add: pow2_def)

lemma bitlen_pow2_bounds:
  assumes "0 < p" shows "pow2 (bitlen p - 1) \<le> of_int p" and "of_int p < pow2 (bitlen p)"
proof -
  have b: "0 < bitlen p" using assms using bitlen_bounds [OF assms] bitlen_eq_zero_iff [of p] bitlen_nonneg [of p] by linarith
  then have nb: "nat (bitlen p) - 1 = nat (bitlen p - 1)" by simp
  from bitlen_bounds [OF assms] have lo: "2 ^ nat (bitlen p - 1) \<le> p" and hi: "p < 2 ^ nat (bitlen p)"
    by (auto simp: nb)
  have "(of_int (2 ^ nat (bitlen p - 1)) :: rat) \<le> of_int p" using lo by (simp only: of_int_le_iff)
  then show "pow2 (bitlen p - 1) \<le> of_int p" using b by (simp add: pow2_def)
  have "(of_int p :: rat) < of_int (2 ^ nat (bitlen p))" using hi by (simp only: of_int_less_iff)
  then show "of_int p < pow2 (bitlen p)" using b by (simp add: pow2_def)
qed

lemma ilog2_bounds:
  assumes "0 < x" shows "pow2 (ilog2 x) \<le> x" and "x < pow2 (ilog2 x + 1)"
proof -
  obtain p q where pq: "quotient_of x = (p, q)" by (cases "quotient_of x")
  then have q: "0 < q" and x: "x = of_int p / of_int q"
    using quotient_of_denom_pos quotient_of_div by blast+
  then have p: "0 < p" using assms by (simp add: zero_less_divide_iff)
  let ?k = "bitlen p - bitlen q"
  have hi: "x < pow2 (?k + 1)"
  proof -
    have "x * of_int q < pow2 (bitlen p)" using bitlen_pow2_bounds(2) [OF p] q by (simp add: x)
    also have "\<dots> = pow2 (?k + 1) * pow2 (bitlen q - 1)" by (simp flip: pow2_add)
    also have "\<dots> \<le> pow2 (?k + 1) * of_int q"
      using bitlen_pow2_bounds(1) [OF q] by (intro mult_left_mono) (auto simp: less_imp_le)
    finally show ?thesis using q by simp
  qed
  have lo: "pow2 (?k - 1) \<le> x"
  proof -
    have "pow2 (?k - 1) * of_int q \<le> pow2 (?k - 1) * pow2 (bitlen q)"
      using bitlen_pow2_bounds(2) [OF q] by (intro mult_left_mono) (auto simp: less_imp_le)
    also have "\<dots> = pow2 (bitlen p - 1)" by (simp flip: pow2_add)
    also have "\<dots> \<le> x * of_int q" using bitlen_pow2_bounds(1) [OF p] q by (simp add: x)
    finally show ?thesis using q by simp
  qed
  show "pow2 (ilog2 x) \<le> x" using lo by (simp add: ilog2_def pq Let_def)
  show "x < pow2 (ilog2 x + 1)" using hi by (auto simp: ilog2_def pq Let_def)
qed

lemma ilog2_less:
  assumes "0 < x" and "x < pow2 k" shows "ilog2 x < k"
  using ilog2_bounds(1) [OF assms(1)] assms(2) pow2_less_iff by force

section \<open>Rounding\<close>

lemma round_half_even_error: "\<bar>of_int (round_half_even x) - x\<bar> \<le> 1 / 2"
proof -
  have "of_int \<lfloor>x\<rfloor> \<le> x" "x < of_int \<lfloor>x\<rfloor> + 1" by linarith+
  then show ?thesis by (auto simp: round_half_even_def Let_def abs_le_iff)
qed

lemma round_half_even_int [simp]: "round_half_even (of_int n) = n"
  by (simp add: round_half_even_def)

lemma round_half_even_ge: "of_int n \<le> x \<Longrightarrow> n \<le> round_half_even x"
  using le_floor_iff [of n x] by (auto simp: round_half_even_def Let_def)

lemma round_half_even_le: "x \<le> of_int n \<Longrightarrow> round_half_even x \<le> n"
proof -
  assume le: "x \<le> of_int n"
  show ?thesis
  proof (cases "x = of_int n")
    case True then show ?thesis by simp
  next
    case False
    then have "\<lfloor>x\<rfloor> < n" using le by (simp add: floor_less_iff)
    then show ?thesis by (auto simp: round_half_even_def Let_def)
  qed
qed

lemma rnd_0 [simp]: "rnd p 0 = 0"
  by (simp add: rnd_def)

text \<open>The error is at most half a unit in the last place.\<close>

lemma rnd_error:
  assumes "\<bar>x\<bar> < pow2 k"
  shows "\<bar>rnd p x - x\<bar> \<le> pow2 (k - int p) / 2"
proof (cases "x = 0")
  case True
  then show ?thesis by (simp add: less_imp_le)
next
  case False
  define ulp where "ulp = pow2 (ilog2 \<bar>x\<bar> - (int p - 1))"
  have u: "0 < ulp" by (simp add: ulp_def)
  have "rnd p x - x = (of_int (round_half_even (x / ulp)) - x / ulp) * ulp"
    using u False by (simp add: rnd_def ulp_def [symmetric] Let_def left_diff_distrib)
  then have "\<bar>rnd p x - x\<bar> = \<bar>of_int (round_half_even (x / ulp)) - x / ulp\<bar> * ulp"
    using u by (simp add: abs_mult)
  also have "\<dots> \<le> 1 / 2 * ulp"
    using round_half_even_error u by (intro mult_right_mono) auto
  also have "ulp \<le> pow2 (k - int p)"
    unfolding ulp_def using ilog2_less [of "\<bar>x\<bar>" k] assms False by (intro pow2_mono) auto
  finally show ?thesis by simp
qed

text \<open>A number with at most \<open>p\<close> significant bits is not changed.\<close>

lemma rnd_exact:
  assumes "x = of_int m * pow2 e" and "\<bar>x\<bar> < pow2 (e + int p)"
  shows "rnd p x = x"
proof (cases "x = 0")
  case True
  then show ?thesis by simp
next
  case False
  define l where "l = ilog2 \<bar>x\<bar> - (int p - 1)"
  have "l \<le> e" using ilog2_less [OF _ assms(2)] False by (simp add: l_def)
  then have "pow2 (e - l) = of_int (2 ^ nat (e - l))" by (simp add: pow2_def)
  moreover have "x / pow2 l = of_int m * pow2 (e - l)" by (simp add: assms(1) pow2_diff)
  ultimately have "x / pow2 l = of_int (m * 2 ^ nat (e - l))" by simp
  then have "round_half_even (x / pow2 l) = m * 2 ^ nat (e - l)" by (simp only: round_half_even_int)
  then have "of_int (round_half_even (x / pow2 l)) = x / pow2 l"
    using \<open>x / pow2 l = of_int (m * 2 ^ nat (e - l))\<close> by simp
  then show ?thesis using False by (simp add: rnd_def l_def [symmetric] Let_def)
qed

lemma rnd_of_int: "\<bar>m\<bar> < 2 ^ p \<Longrightarrow> rnd p (of_int m) = of_int m"
proof -
  assume "\<bar>m\<bar> < 2 ^ p"
  then have "(of_int \<bar>m\<bar> :: rat) < of_int (2 ^ p)" by (simp only: of_int_less_iff)
  then have "\<bar>of_int m :: rat\<bar> < pow2 (0 + int p)" by (simp add: pow2_def)
  then show ?thesis by (intro rnd_exact [where e = 0 and m = m]) (simp_all add: pow2_def)
qed

lemma rnd_nonneg: "0 \<le> x \<Longrightarrow> 0 \<le> rnd p x"
proof -
  assume "0 \<le> x"
  then have "0 \<le> x / pow2 (ilog2 \<bar>x\<bar> - (int p - 1))"
    by (intro divide_nonneg_pos) simp_all
  then have "0 \<le> round_half_even (x / pow2 (ilog2 \<bar>x\<bar> - (int p - 1)))"
    using round_half_even_ge [of 0] by simp
  then show ?thesis by (simp add: rnd_def Let_def less_imp_le)
qed

text \<open>A rounded number is an integer multiple of a small enough power of two.\<close>

lemma rnd_grid:
  assumes "0 < x"
  shows "\<exists>m. rnd p x = of_int m * pow2 (ilog2 x - (int p - 1))"
  using assms by (auto simp: rnd_def Let_def)

lemma ilog2_ge:
  assumes "pow2 k \<le> x" shows "k \<le> ilog2 x"
proof -
  have "0 < x" using assms pow2_pos [of k] by linarith
  then have "pow2 k < pow2 (ilog2 x + 1)" using ilog2_bounds(2) assms by fastforce
  then show ?thesis by (simp add: pow2_less_iff)
qed

text \<open>Below \<open>2^p\<close> every integer is representable, so rounding does not cross one.\<close>

lemma rnd_int_bounds:
  assumes "0 < x" and "ilog2 x < int p"
  shows "of_int n \<le> x \<Longrightarrow> of_int n \<le> rnd p x" and "x \<le> of_int n \<Longrightarrow> rnd p x \<le> of_int n"
proof -
  define e where "e = ilog2 x - (int p - 1)"
  define k where "k = n * 2 ^ nat (- e)"
  have e: "e \<le> 0" using assms(2) by (simp add: e_def)
  then have "pow2 (- e) = of_int (2 ^ nat (- e))" by (simp add: pow2_def)
  moreover have "pow2 (- e) * pow2 e = 1" by (simp flip: pow2_add) (simp add: pow2_def)
  ultimately have n: "(of_int n :: rat) = of_int k * pow2 e" by (simp add: k_def)
  have r: "rnd p x = of_int (round_half_even (x / pow2 e)) * pow2 e"
    using assms(1) by (simp add: rnd_def e_def Let_def)
  show "of_int n \<le> rnd p x" if "of_int n \<le> x"
  proof -
    have "of_int k \<le> x / pow2 e" using that by (simp add: n pos_le_divide_eq)
    then have "k \<le> round_half_even (x / pow2 e)" by (rule round_half_even_ge)
    then show ?thesis by (simp add: n r)
  qed
  show "rnd p x \<le> of_int n" if "x \<le> of_int n"
  proof -
    have "x / pow2 e \<le> of_int k" using that by (simp add: n pos_divide_le_eq)
    then have "round_half_even (x / pow2 e) \<le> k" by (rule round_half_even_le)
    then show ?thesis by (simp add: n r)
  qed
qed

lemma rnd_idem:
  assumes "0 < x" and "0 < p"
  shows "rnd p (rnd p x) = rnd p x"
proof -
  define e where "e = ilog2 x - (int p - 1)"
  define m where "m = round_half_even (x / pow2 e)"
  have r: "rnd p x = of_int m * pow2 e"
    using assms(1) by (simp add: rnd_def e_def m_def Let_def)
  have "x < pow2 (int p) * pow2 e"
    using ilog2_bounds(2) [OF assms(1)] by (simp add: e_def flip: pow2_add)
  then have "x / pow2 e < of_int (2 ^ p)"
    by (simp add: pos_divide_less_eq pow2_nat)
  then have "m \<le> 2 ^ p" unfolding m_def by (intro round_half_even_le) simp
  moreover have "0 \<le> m" unfolding m_def using assms(1)
    by (intro round_half_even_ge) (simp add: less_imp_le)
  ultimately consider "m = 2 ^ p" | "0 \<le> m" "m < 2 ^ p" by linarith
  then show ?thesis
  proof cases
    case 1
    then have "rnd p x = of_int 1 * pow2 (int p + e)" by (simp add: r pow2_add pow2_nat)
    moreover have "pow2 (int p + e) < pow2 (int p + e + int p)"
      using assms(2) by (simp add: pow2_less_iff)
    ultimately show ?thesis by (intro rnd_exact [where m = 1 and e = "int p + e"])
        (simp_all add: abs_of_pos [OF pow2_pos])
  next
    case 2
    then have "(of_int m :: rat) < of_int (2 ^ p)" by (simp only: of_int_less_iff)
    then have "\<bar>rnd p x\<bar> < pow2 (e + int p)"
      using 2 by (simp add: r abs_mult abs_of_pos [OF pow2_pos] pow2_add pow2_nat mult.commute)
    then show ?thesis by (intro rnd_exact [where m = m and e = e]) (simp_all add: r)
  qed
qed

text \<open>Rounding is monotone and odd, so a comparison of exact results survives it.\<close>

lemma round_half_even_mono: "x \<le> y \<Longrightarrow> round_half_even x \<le> round_half_even y"
proof -
  assume le: "x \<le> y"
  show ?thesis
  proof (cases "\<lfloor>x\<rfloor> = \<lfloor>y\<rfloor>")
    case True
    then show ?thesis using le by (auto simp: round_half_even_def Let_def)
  next
    case False
    then have "\<lfloor>x\<rfloor> + 1 \<le> \<lfloor>y\<rfloor>" using floor_mono [OF le] by simp
    moreover have "round_half_even x \<le> \<lfloor>x\<rfloor> + 1" by (simp add: round_half_even_def Let_def)
    moreover have "\<lfloor>y\<rfloor> \<le> round_half_even y" by (simp add: round_half_even_def Let_def)
    ultimately show ?thesis by linarith
  qed
qed

lemma round_half_even_minus: "round_half_even (- x) = - round_half_even x"
proof (cases "x = of_int \<lfloor>x\<rfloor>")
  case True
  then show ?thesis by (metis of_int_minus round_half_even_int)
next
  case False
  then have "of_int \<lfloor>x\<rfloor> < x" using of_int_floor_le [of x] by linarith
  moreover have "x < of_int \<lfloor>x\<rfloor> + 1" by linarith
  ultimately have "\<lfloor>- x\<rfloor> = - \<lfloor>x\<rfloor> - 1" by (intro floor_unique) auto
  then show ?thesis by (auto simp: round_half_even_def Let_def)
qed

lemma rnd_minus: "rnd p (- x) = - rnd p x"
  by (simp add: rnd_def Let_def round_half_even_minus)

lemma rnd_le_pow2:
  assumes "0 < x" and "0 < p" shows "rnd p x \<le> pow2 (ilog2 x + 1)" and "pow2 (ilog2 x) \<le> rnd p x"
proof -
  define e where "e = ilog2 x - (int p - 1)"
  have r: "rnd p x = of_int (round_half_even (x / pow2 e)) * pow2 e"
    using assms(1) by (simp add: rnd_def e_def Let_def)
  have "x / pow2 e \<le> of_int (2 ^ p)"
    using ilog2_bounds(2) [OF assms(1)]
    by (simp add: pos_divide_le_eq e_def less_imp_le flip: pow2_nat pow2_add)
  then have "of_int (round_half_even (x / pow2 e)) \<le> (of_int (2 ^ p) :: rat)"
    unfolding of_int_le_iff by (rule round_half_even_le)
  then have "rnd p x \<le> of_int (2 ^ p) * pow2 e" unfolding r by (intro mult_right_mono) (auto simp: less_imp_le)
  also have "\<dots> = pow2 (ilog2 x + 1)" by (simp add: e_def flip: pow2_nat pow2_add)
  finally show "rnd p x \<le> pow2 (ilog2 x + 1)" .
  have p: "(of_int (2 ^ (p - 1)) :: rat) * pow2 e = pow2 (ilog2 x)"
    using assms(2) by (simp add: e_def of_nat_diff flip: pow2_nat pow2_add)
  have "of_int (2 ^ (p - 1)) \<le> x / pow2 e"
    using ilog2_bounds(1) [OF assms(1)] p by (simp add: pos_le_divide_eq)
  then have "(of_int (2 ^ (p - 1)) :: rat) \<le> of_int (round_half_even (x / pow2 e))"
    unfolding of_int_le_iff by (rule round_half_even_ge)
  then have "of_int (2 ^ (p - 1)) * pow2 e \<le> rnd p x"
    unfolding r by (intro mult_right_mono) (auto simp: less_imp_le)
  then show "pow2 (ilog2 x) \<le> rnd p x" unfolding p .
qed

lemma ilog2_mono: "0 < x \<Longrightarrow> x \<le> y \<Longrightarrow> ilog2 x \<le> ilog2 y"
  using ilog2_bounds(1) by (intro ilog2_ge) fastforce

lemma rnd_mono_pos:
  assumes "0 < x" and "x \<le> y" and "0 < p" shows "rnd p x \<le> rnd p y"
proof (cases "ilog2 x = ilog2 y")
  case True
  define e where "e = ilog2 y - (int p - 1)"
  have "rnd p x = of_int (round_half_even (x / pow2 e)) * pow2 e"
      "rnd p y = of_int (round_half_even (y / pow2 e)) * pow2 e"
    using assms(1,2) True by (simp_all add: rnd_def e_def Let_def)
  moreover have "round_half_even (x / pow2 e) \<le> round_half_even (y / pow2 e)"
    using assms(2) by (intro round_half_even_mono) (simp add: divide_right_mono less_imp_le)
  ultimately show ?thesis by (simp add: mult_right_mono less_imp_le)
next
  case False
  then have "pow2 (ilog2 x + 1) \<le> pow2 (ilog2 y)" using ilog2_mono [OF assms(1,2)] by (intro pow2_mono) simp
  moreover have "0 < y" using assms(1,2) by linarith
  ultimately show ?thesis using rnd_le_pow2(1) [OF assms(1,3)] rnd_le_pow2(2) [of y p] assms(3) by fastforce
qed

lemma rnd_mono: "x \<le> y \<Longrightarrow> 0 < p \<Longrightarrow> rnd p x \<le> rnd p y"
proof -
  assume le: "x \<le> y" and p: "0 < p"
  consider "0 < x" | "x \<le> 0" "0 \<le> y" | "y < 0" using le by linarith
  then show ?thesis
  proof cases
    case 1
    then show ?thesis using rnd_mono_pos le p by blast
  next
    case 2
    then have "0 \<le> rnd p (- x)" "0 \<le> rnd p y" by (simp_all add: rnd_nonneg)
    then show ?thesis by (simp add: rnd_minus)
  next
    case 3
    then have "rnd p (- y) \<le> rnd p (- x)" using le p by (intro rnd_mono_pos) auto
    then show ?thesis by (simp add: rnd_minus)
  qed
qed

lemma rnd_eq_0_iff: "0 < p \<Longrightarrow> rnd p x = 0 \<longleftrightarrow> x = 0"
proof -
  have pos: "rnd p y \<noteq> 0" if "0 < y" "0 < p" for y
    using rnd_le_pow2(2) [OF that] pow2_pos [of "ilog2 y"] by linarith
  assume "0 < p"
  then show ?thesis using pos [of x] pos [of "- x"] by (cases x "0 :: rat" rule: linorder_cases) (auto simp: rnd_minus)
qed

lemma double_mono: "x \<le> y \<Longrightarrow> double x \<le> double y"
  by (simp add: double_def rnd_mono)

lemma double_sign: "double x \<le> 0 \<longleftrightarrow> x \<le> 0"
  using double_mono [of x 0] rnd_nonneg [of x 53] rnd_eq_0_iff [of 53 x]
  by (cases "x \<le> 0") (auto simp: double_def)

lemma double_minus: "double (- x) = - double x"
  by (simp add: double_def rnd_minus)

lemma double_of_int: "\<bar>m\<bar> < 2 ^ 53 \<Longrightarrow> double (of_int m) = of_int m"
  by (simp add: double_def rnd_of_int)

lemma lround_bounds:
  assumes "0 \<le> x" and "x \<le> of_int m" and "m < 2 ^ 63" shows "0 \<le> lround x \<and> lround x \<le> m"
proof -
  have "0 \<le> \<lfloor>x + 1 / 2\<rfloor>" using assms(1) by simp
  moreover have "\<lfloor>x + 1 / 2\<rfloor> \<le> m"
    using assms(2) by (simp add: floor_le_iff)
  ultimately show ?thesis using assms(1,3) by (simp add: lround_def Let_def)
qed

text \<open>The nearest integer is at most a half away.\<close>

lemma lround_error:
  assumes "0 \<le> x" and "x < 2 ^ 62" shows "\<bar>of_int (lround x) - x\<bar> \<le> 1 / 2" and "0 \<le> lround x"
proof -
  have "\<lfloor>x + 1 / 2\<rfloor> < 2 ^ 63 - 1" using assms(2) by (simp add: floor_less_iff)
  moreover have "0 \<le> \<lfloor>x + 1 / 2\<rfloor>" using assms(1) by simp
  ultimately have n: "lround x = \<lfloor>x + 1 / 2\<rfloor>" using assms(1) by (simp add: lround_def Let_def)
  have "of_int \<lfloor>x + 1 / 2\<rfloor> \<le> x + 1 / 2" "x + 1 / 2 < of_int \<lfloor>x + 1 / 2\<rfloor> + 1" by linarith+
  then show "\<bar>of_int (lround x) - x\<bar> \<le> 1 / 2" unfolding n by (simp only: abs_le_iff) linarith
  show "0 \<le> lround x" unfolding n using assms(1) by simp
qed

section \<open>Square roots\<close>

text \<open>The integer square root, two bits at a time.\<close>

fun isqrt :: "nat \<Rightarrow> nat" where
  "isqrt n = (if n = 0 then 0 else let r = 2 * isqrt (n div 4) in if (r + 1) * (r + 1) \<le> n then r + 1 else r)"

declare isqrt.simps [simp del]

lemma isqrt_bounds: "isqrt n * isqrt n \<le> n \<and> n < (isqrt n + 1) * (isqrt n + 1)"
proof (induction n rule: isqrt.induct)
  case (1 n)
  show ?case
  proof (cases "n = 0")
    case False
    let ?q = "isqrt (n div 4)"
    from 1 [OF False] have q: "?q * ?q \<le> n div 4" "n div 4 < (?q + 1) * (?q + 1)" by simp_all
    then have "4 * (?q * ?q) \<le> n" "n < 4 * ((?q + 1) * (?q + 1))" by linarith+
    then have b: "2 * ?q * (2 * ?q) \<le> n" "n < (2 * ?q + 2) * (2 * ?q + 2)" by (simp_all add: algebra_simps)
    show ?thesis
    proof (cases "(2 * ?q + 1) * (2 * ?q + 1) \<le> n")
      case True
      then have "isqrt n = 2 * ?q + 1" using False by (simp add: isqrt.simps [of n] Let_def)
      then show ?thesis using True b(2) by simp
    next
      case False2: False
      then have "isqrt n = 2 * ?q" using False by (simp add: isqrt.simps [of n] Let_def)
      then show ?thesis using False2 b(1) by simp
    qed
  qed (simp add: isqrt.simps)
qed

text \<open>
  \<open>std::sqrt\<close> is correctly rounded. The root is computed to 55 bits or more; where it is not exact, half a unit
  more stands for the rest, so that \<open>double\<close> rounds it as it would the root.
\<close>

definition double_sqrt :: "rat \<Rightarrow> rat" where
  "double_sqrt x =
     (if x \<le> 0 then 0
      else (let k = (111 - ilog2 x) div 2; y = x * pow2 (2 * k); s = isqrt (nat \<lfloor>y\<rfloor>);
                rest = (if of_nat (s * s) = y then 0 else 1 / 2)
            in double ((of_nat s + rest) * pow2 (- k))))"

lemma isqrt_square: "isqrt (m * m) = m"
proof -
  have "\<not> m < isqrt (m * m)" using isqrt_bounds [of "m * m"] mult_strict_mono' [of m "isqrt (m * m)" m "isqrt (m * m)"] by auto
  moreover have "\<not> isqrt (m * m) + 1 \<le> m" using isqrt_bounds [of "m * m"] mult_le_mono [of "isqrt (m * m) + 1" m] by (meson leD)
  ultimately show ?thesis by simp
qed

lemma ilog2_square_le: "0 < x \<Longrightarrow> ilog2 (x * x) \<le> 2 * ilog2 x + 1"
proof -
  assume x: "0 < x"
  have b: "x < pow2 (ilog2 x + 1)" using ilog2_bounds [OF x] by simp
  then have "x * x < pow2 (ilog2 x + 1) * pow2 (ilog2 x + 1)" using x by (intro mult_strict_mono') simp_all
  also have "\<dots> = pow2 (2 * ilog2 x + 2)" by (simp add: pow2_add [symmetric] algebra_simps)
  finally have "pow2 (ilog2 (x * x)) < pow2 (2 * ilog2 x + 2)" using ilog2_bounds [of "x * x"] x by simp
  then show ?thesis by (simp add: pow2_less_iff)
qed

lemma double_sqrt_exact:
  assumes "0 \<le> y" "double y = y"
  shows "double_sqrt (y * y) = y"
proof (cases "y = 0")
  case False
  then have y: "0 < y" "0 < y * y" using assms(1) by simp_all
  let ?k = "(111 - ilog2 (y * y)) div 2" and ?u = "pow2 (ilog2 y - 52)"
  let ?m = "round_half_even (y / ?u)"
  have ym: "y = of_int ?m * ?u" using assms(2) y by (simp add: double_def rnd_def Let_def)
  have k: "0 \<le> ilog2 y - 52 + ?k" using ilog2_square_le [OF y(1)] by simp
  define n where "n = nat ?m * 2 ^ nat (ilog2 y - 52 + ?k)"
  have "0 < of_int ?m * ?u" using y(1) ym by simp
  then have "0 < ?m" using pow2_pos [of "ilog2 y - 52"] by (auto simp: zero_less_mult_iff)
  then have root: "y * pow2 ?k = of_nat n"
    using k by (subst ym) (simp add: n_def mult.assoc pow2_add [symmetric] pow2_nat [symmetric])
  have "y * y * pow2 (2 * ?k) = (y * pow2 ?k) * (y * pow2 ?k)" by (simp add: pow2_add [symmetric])
  also have "\<dots> = of_nat (n * n)" unfolding root by simp
  finally have sq: "y * y * pow2 (2 * ?k) = of_nat (n * n)" .
  have "of_nat n * pow2 (- ?k) = y" using root by (metis mult.assoc mult.right_neutral pow2_add add.right_inverse pow2_def nat_zero_as_int power_0 order_refl)
  moreover have "nat \<lfloor>rat_of_nat n * rat_of_nat n\<rfloor> = n * n" by (metis floor_of_nat nat_int of_nat_mult)
  ultimately show ?thesis using y(2) sq assms(2) isqrt_square [of n] by (simp add: double_sqrt_def Let_def flip: not_less)
qed (simp add: double_sqrt_def)

end
