(* ===== verification/Ubx_Events.thy ===== *)
theory Ubx_Events
  imports Ubx_Ids Ieee_Double
begin

text \<open>
  The decoded messages of library/src/data/events/ubx_event.h, one record per struct (fields
  carry a short prefix, since Isabelle keeps field names global), the satellite entry with its
  two constructors, and the variant \<open>UbxEvent\<close>. Signed fields are words read with \<open>sint\<close>;
  the members \<open>double\<close> and \<open>float\<close> are the rationals they denote.
\<close>

record GnssSatellite =
  sat_GnssId :: u8
  sat_SatId :: u8
  sat_Cnr :: u8
  sat_Elev :: i8
  sat_Azim :: i16
  sat_PrRes :: rat
  sat_Quality :: u8
  sat_Health :: u8
  sat_OrbitSource :: u8
  sat_Used :: bool
  sat_DiffCorr :: bool
  sat_Smoothed :: bool

text \<open>The constructor used for NAV-SAT: the last seven members come from the flag word.\<close>

definition satellite_of_flags :: "u8 \<Rightarrow> u8 \<Rightarrow> u8 \<Rightarrow> i8 \<Rightarrow> i16 \<Rightarrow> rat \<Rightarrow> u32 \<Rightarrow> GnssSatellite" where
  "satellite_of_flags gnssId satId cnr elev azim prRes flags =
     \<lparr>sat_GnssId = gnssId, sat_SatId = satId, sat_Cnr = cnr, sat_Elev = elev, sat_Azim = azim,
      sat_PrRes = prRes,
      sat_Quality = ucast (flags AND 0x07),
      sat_Health = ucast (drop_bit 4 flags AND 0x03),
      sat_OrbitSource = ucast (drop_bit 8 flags AND 0x07),
      sat_Used = (flags AND 0x08 \<noteq> 0),
      sat_DiffCorr = (flags AND 0x40 \<noteq> 0),
      sat_Smoothed = (flags AND 0x80 \<noteq> 0)\<rparr>"

record UbxDopStruct =
  gDOP :: u16
  pDOP :: u16
  tDOP :: u16
  vDOP :: u16
  hDOP :: u16
  nDOP :: u16
  eDOP :: u16

record NavStatus =
  nst_iTOW :: u32
  nst_gpsFix :: u8
  nst_flags :: u8
  nst_flags2 :: u8
  nst_ttff :: u32
  nst_msss :: u32

record NavTimeGPS =
  ntg_iTOW :: u32
  ntg_fTOW :: i32
  ntg_wnR :: u16
  ntg_leapS :: i8
  ntg_flags :: u8
  ntg_tAcc :: u32

record NavTimeUTC =
  ntu_iTOW :: u32
  ntu_tAcc :: u32
  ntu_nano :: i32
  ntu_year :: u16
  ntu_month :: u16
  ntu_day :: u16
  ntu_hour :: u16
  ntu_min :: u16
  ntu_sec :: u16
  ntu_flags :: u8

record NavClock =
  ncl_iTOW :: u32
  ncl_clkB :: i32
  ncl_clkD :: i32
  ncl_tAcc :: u32
  ncl_fAcc :: u32

record NavSat =
  nsa_iTOW :: u32
  nsa_version :: "u8 option"
  nsa_globFlags :: "u8 option"
  nsa_numSvs :: u8
  nsa_goodSats :: nat
  nsa_satellites :: "GnssSatellite list"

record GnssPosStruct =
  pos_iTOW :: u32
  pos_lon :: i32
  pos_lat :: i32
  pos_height :: i32
  pos_hMSL :: i32
  pos_hAcc :: u32
  pos_vAcc :: u32

record CfgAnt =
  ant_flags :: u16
  ant_pins :: u16

record CfgNavX5 =
  nx5_version :: u8
  nx5_minSVs :: u8
  nx5_maxSVs :: u8
  nx5_minCNO :: u8
  nx5_iniFix3D :: u8
  nx5_wknRollover :: u16
  nx5_aopCfg :: u8
  nx5_aopOrbMaxErr :: u16

record CfgNav5 =
  nv5_mask :: u16
  nv5_dynModel :: u8
  nv5_fixMode :: u8
  nv5_fixedAlt :: i32
  nv5_fixedAltVar :: u32
  nv5_minElev :: i8
  nv5_cnoThreshNumSVs :: u8
  nv5_cnoThresh :: u8

record UbxTimePulseStruct =
  tp_tpIndex :: u8
  tp_version :: u8
  tp_antCableDelay :: i16
  tp_rfGroupDelay :: i16
  tp_freqPeriod :: u32
  tp_freqPeriodLock :: u32
  tp_pulseLenRatio :: u32
  tp_pulseLenRatioLock :: u32
  tp_userConfigDelay :: i32
  tp_flags :: u32

record GnssConfigStruct =
  gc_gnssId :: u8
  gc_resTrkCh :: u8
  gc_maxTrkCh :: u8
  gc_flags :: u32

record CfgGNSS =
  cgn_version :: u8
  cgn_numTrkChHw :: u8
  cgn_numTrkChUse :: u8
  cgn_numConfigBlocks :: u8
  cgn_configs :: "GnssConfigStruct list"

record CfgMsg =
  cm_msgID :: u16
  cm_rate :: int

definition s_nr_targets :: nat where
  "s_nr_targets = 6"

definition s_default_target :: nat where
  "s_default_target = 1"

record MonRx =
  mrx_pending :: "u16 list"
  mrx_usage :: "u8 list"
  mrx_peakUsage :: "u8 list"
  mrx_tUsage :: u8
  mrx_tPeakUsage :: u8

record MonTx =
  mtx_pending :: "u16 list"
  mtx_usage :: "u8 list"
  mtx_peakUsage :: "u8 list"
  mtx_tUsage :: u8
  mtx_tPeakUsage :: u8

record GnssMonHwStruct =
  mhw_noisePerMS :: u16
  mhw_agcCnt :: u16
  mhw_antStatus :: u8
  mhw_antPower :: u8
  mhw_flags :: u8
  mhw_jamInd :: u8

record GnssMonHw2Struct =
  mh2_ofsI :: i8
  mh2_magI :: u8
  mh2_ofsQ :: i8
  mh2_magQ :: u8
  mh2_cfgSrc :: u8
  mh2_postStatus :: u32

record GpsVersion =
  gv_hwString :: "byte list"
  gv_swString :: "byte list"
  gv_prot :: "byte list"

record TimTP =
  ttp_towMS :: u32
  ttp_towSubMS :: u32
  ttp_qErr :: i32
  ttp_week :: u16
  ttp_flags :: u8
  ttp_refInfo :: u8

text \<open>\<open>struct timespec\<close>, with both members 64 bits wide; the values stay below 2^37 here.\<close>

record timespec =
  tv_sec :: int
  tv_nsec :: int

record UbxTimeMarkStruct =
  tmk_rising :: timespec
  tmk_falling :: timespec
  tmk_risingValid :: bool
  tmk_fallingValid :: bool
  tmk_accuracy_ns :: u32
  tmk_valid :: bool
  tmk_timeBase :: u8
  tmk_utcAvailable :: bool
  tmk_flags :: u8
  tmk_evtCounter :: u16

record UbxAckNak =
  nak_msgID :: u16
  nak_payload :: u16

record UbxAckAck =
  ack_msgID :: u16

datatype UbxEvent =
    EvNavStatus NavStatus
  | EvDop UbxDopStruct
  | EvNavTimeGPS NavTimeGPS
  | EvNavTimeUTC NavTimeUTC
  | EvNavClock NavClock
  | EvNavSat NavSat
  | EvGnssPos GnssPosStruct
  | EvCfgAnt CfgAnt
  | EvCfgNavX5 CfgNavX5
  | EvCfgNav5 CfgNav5
  | EvTimePulse UbxTimePulseStruct
  | EvCfgGNSS CfgGNSS
  | EvCfgMsg CfgMsg
  | EvMonRx MonRx
  | EvMonTx MonTx
  | EvMonHw GnssMonHwStruct
  | EvMonHw2 GnssMonHw2Struct
  | EvGpsVersion GpsVersion
  | EvTimTP TimTP
  | EvTimeMark UbxTimeMarkStruct
  | EvAckNak UbxAckNak
  | EvAckAck UbxAckAck

end
