(* ===== verification/Byte_Access.thy ===== *)
theory Byte_Access
  imports Prelude
begin

text \<open>
  The templates \<open>get<T, endian>\<close> and \<open>put<T>\<close> of daemon/src/utility/helper_functions.h.
  The loops run over the octets of a buffer; an access past its end is \<open>None\<close>.

  \<open>get\<close> runs over a \<open>std::string\<close>, whose element type is plain \<open>char\<close>. Whether plain
  \<open>char\<close> is signed is implementation-defined: \<open>char_value\<close> takes it as an argument. The
  daemon is built for the Raspberry Pi, whose Linux ABIs (armhf and aarch64) make plain
  \<open>char\<close> unsigned, so the decoders use \<open>plain_char_signed = False\<close>.
\<close>

definition plain_char_signed :: bool where
  "plain_char_signed = False"

definition char_value :: "bool \<Rightarrow> byte \<Rightarrow> int" where
  "char_value cs b = (if cs then sint b else uint b)"

fun get_loop :: "bool \<Rightarrow> 'a::len word \<Rightarrow> nat \<Rightarrow> byte list \<Rightarrow> 'a word" where
  "get_loop cs value shift [] = value"
| "get_loop cs value shift (b # bs) =
     get_loop cs (value + push_bit shift (word_of_int (char_value cs b))) (shift + 8) bs"

fun get_loop_big :: "bool \<Rightarrow> 'a::len word \<Rightarrow> nat \<Rightarrow> byte list \<Rightarrow> 'a word" where
  "get_loop_big cs value shift [] = value"
| "get_loop_big cs value shift (b # bs) =
     get_loop_big cs (value + push_bit shift (word_of_int (char_value cs b))) (shift - 8) bs"

definition get_with :: "bool \<Rightarrow> byte list \<Rightarrow> nat \<Rightarrow> 'a::len word option" where
  "get_with cs msg pos =
     (let n = LENGTH('a) div 8
      in if pos + n \<le> length msg then Some (get_loop cs 0 0 (take n (drop pos msg))) else None)"

definition get :: "byte list \<Rightarrow> nat \<Rightarrow> 'a::len word option" where
  "get msg pos = get_with plain_char_signed msg pos"

definition get_big :: "byte list \<Rightarrow> nat \<Rightarrow> 'a::len word option" where
  "get_big msg pos =
     (let n = LENGTH('a) div 8
      in if pos + n \<le> length msg
         then Some (get_loop_big plain_char_signed 0 ((n - 1) * 8) (take n (drop pos msg)))
         else None)"

fun put_loop :: "'a::len word \<Rightarrow> nat \<Rightarrow> nat \<Rightarrow> byte list" where
  "put_loop value shift 0 = []"
| "put_loop value shift (Suc n) =
     ucast (drop_bit shift value AND 0xff) # put_loop value (shift + 8) n"

definition put :: "nat \<Rightarrow> 'a::len word \<Rightarrow> byte list \<Rightarrow> byte list option" where
  "put pos value buf =
     (let n = LENGTH('a) div 8
      in if pos + n \<le> length buf
         then Some (take pos buf @ put_loop value 0 n @ drop (pos + n) buf) else None)"

text \<open>
  \<open>char_at\<close> is \<open>std::string::operator[]\<close> on a constant string: the position \<open>size()\<close> reads the
  terminating zero, a larger one is undefined.
\<close>

definition char_at :: "byte list \<Rightarrow> nat \<Rightarrow> byte option" where
  "char_at msg i = (if i < length msg then Some (msg ! i) else if i = length msg then Some 0 else None)"

section \<open>What the loops compute\<close>

fun le_value :: "bool \<Rightarrow> byte list \<Rightarrow> int" where
  "le_value cs [] = 0"
| "le_value cs (b # bs) = char_value cs b + 256 * le_value cs bs"

lemma get_loop_value:
  "get_loop cs v s bs = v + word_of_int (2 ^ s * le_value cs bs)"
proof (induction bs arbitrary: v s)
  case Nil
  then show ?case by simp
next
  case (Cons b bs)
  have "(2 :: int) ^ (s + 8) = 2 ^ s * 256" by (simp add: power_add)
  then show ?case
    by (simp add: Cons.IH push_bit_eq_mult algebra_simps)
qed

lemma le_value_put_loop:
  fixes w :: "'a::len word"
  shows "le_value False (put_loop w s n) = uint (drop_bit s w) mod 256 ^ n"
proof (induction n arbitrary: s)
  case 0
  then show ?case by simp
next
  case (Suc n)
  let ?v = "uint (drop_bit s w)"
  have lo: "char_value False (ucast (drop_bit s w AND 0xff)) = ?v mod 256"
  proof -
    have "uint (ucast (take_bit 8 (drop_bit s w)) :: byte) = take_bit 8 ?v"
      by (simp add: unsigned_ucast_eq unsigned_take_bit_eq)
    then show ?thesis by (simp add: char_value_def and_ff take_bit_eq_mod)
  qed
  have drop: "uint (drop_bit k w) = uint w div 2 ^ k" for k
    by (simp only: unsigned_drop_bit_eq) (simp add: drop_bit_eq_div take_bit_int_eq_self uint_lt2p)
  have hi: "uint (drop_bit (s + 8) w) = ?v div 256"
    by (simp add: drop zdiv_zmult2_eq power_add)
  have "?v mod 256 ^ Suc n = ?v mod (256 * 256 ^ n)" by simp
  also have "\<dots> = ?v mod 256 + 256 * (?v div 256 mod 256 ^ n)"
    by (simp add: zmod_zmult2_eq)
  finally show ?case by (simp add: Suc.IH lo hi)
qed

lemma length_put_loop [simp]: "length (put_loop w s n) = n"
  by (induction n arbitrary: s) auto

text \<open>Reading back what was written gives the value, at every width that is whole octets.\<close>

lemma get_loop_put_loop:
  fixes w :: "'a::len word"
  assumes "LENGTH('a) = 8 * n"
  shows "get_loop False 0 0 (put_loop w 0 n) = w"
proof -
  have "(256 :: int) ^ n = 2 ^ LENGTH('a)"
    by (simp add: assms power_mult)
  then have "uint w mod 256 ^ n = uint w" by (simp add: uint_lt2p)
  then show ?thesis by (simp add: get_loop_value le_value_put_loop)
qed

lemma get_Some_iff:
  "(\<exists>v. (get msg pos :: 'a::len word option) = Some v) \<longleftrightarrow> pos + LENGTH('a) div 8 \<le> length msg"
  by (simp add: get_def get_with_def Let_def)

lemma get_eq_None: "get msg pos = (None :: 'a::len word option) \<longleftrightarrow> length msg < pos + LENGTH('a) div 8"
  by (auto simp: get_def get_with_def Let_def)

lemma get_put_same:
  fixes w :: "'a::len word"
  assumes "LENGTH('a) = 8 * n" and "put pos w buf = Some buf'"
  shows "get buf' pos = Some w"
  using assms get_loop_put_loop [OF assms(1)]
  by (auto simp: put_def get_def get_with_def plain_char_signed_def Let_def split: if_splits)

lemma get_append_at:
  fixes w :: "'a::len word"
  assumes "LENGTH('a) = 8 * n"
  shows "get (xs @ put_loop w 0 n @ ys) (length xs) = Some w"
  using assms get_loop_put_loop [OF assms(1)]
  by (simp add: get_def get_with_def plain_char_signed_def Let_def)

end
