(* ===== verification/Ubx_Decode.thy ===== *)
theory Ubx_Decode
  imports Ubx_Events Ubx_Message Byte_Access
begin

text \<open>
  \<open>MessageProcessor\<close> (daemon/src/hardware/ublox/message_processor.cpp): one decoder per UBX
  message, and the dispatch of \<open>processMessage\<close>. A decoder reads the payload with \<open>get\<close>;
  \<open>None\<close> is a read past the end of the payload (undefined behaviour), since the decoders do
  not check the payload's length. The debug output is not modelled.

  The two static variables are the state \<open>processor\<close>: \<open>gpsVersion\<close> and the
  \<open>lastPulseLength\<close> of \<open>UBXTimTM2\<close>.
\<close>

record processor =
  mp_gpsVersion :: "GpsVersion option"
  mp_lastPulseLength :: int

definition processor_init :: processor where
  "processor_init = \<lparr>mp_gpsVersion = None, mp_lastPulseLength = 0\<rparr>"

section \<open>Fixed-layout messages\<close>

definition UBXNavStatus :: "byte list \<Rightarrow> NavStatus option" where
  "UBXNavStatus msg = do {
     iTOW \<leftarrow> get msg 0; gpsFix \<leftarrow> get msg 4; flags \<leftarrow> get msg 5; flags2 \<leftarrow> get msg 7;
     ttff \<leftarrow> get msg 8; msss \<leftarrow> get msg 12;
     Some \<lparr>nst_iTOW = iTOW, nst_gpsFix = gpsFix, nst_flags = flags, nst_flags2 = flags2,
           nst_ttff = ttff, nst_msss = msss\<rparr> }"

definition UBXNavDOP :: "byte list \<Rightarrow> UbxDopStruct option" where
  "UBXNavDOP msg = do {
     iTOW \<leftarrow> (get msg 0 :: u32 option);
     g \<leftarrow> get msg 4; p \<leftarrow> get msg 6; t \<leftarrow> get msg 8; v \<leftarrow> get msg 10;
     h \<leftarrow> get msg 12; n \<leftarrow> get msg 14; e \<leftarrow> get msg 16;
     Some \<lparr>gDOP = g, pDOP = p, tDOP = t, vDOP = v, hDOP = h, nDOP = n, eDOP = e\<rparr> }"

definition UBXNavTimeGPS :: "byte list \<Rightarrow> NavTimeGPS option" where
  "UBXNavTimeGPS msg = do {
     iTOW \<leftarrow> get msg 0; fTOW \<leftarrow> get msg 4; wnR \<leftarrow> get msg 8; leapS \<leftarrow> get msg 10;
     flags \<leftarrow> get msg 11; tAcc \<leftarrow> get msg 12;
     Some \<lparr>ntg_iTOW = iTOW, ntg_fTOW = fTOW, ntg_wnR = wnR, ntg_leapS = leapS,
           ntg_flags = flags, ntg_tAcc = tAcc\<rparr> }"

text \<open>
  \<open>static_cast<uint16_t>(msg[i])\<close> of a plain \<open>char\<close>. The flags octet is read into a local
  variable; the member \<open>flags\<close> of the result keeps its default.
\<close>

definition char_to_u16 :: "byte \<Rightarrow> u16" where
  "char_to_u16 b = word_of_int (char_value plain_char_signed b)"

definition UBXNavTimeUTC :: "byte list \<Rightarrow> NavTimeUTC option" where
  "UBXNavTimeUTC msg = do {
     iTOW \<leftarrow> get msg 0; tAcc \<leftarrow> get msg 4; nano \<leftarrow> get msg 8; year \<leftarrow> get msg 12;
     month \<leftarrow> char_at msg 14; day \<leftarrow> char_at msg 15; hour \<leftarrow> char_at msg 16;
     min \<leftarrow> char_at msg 17; sec \<leftarrow> char_at msg 18;
     flags \<leftarrow> char_at msg 19;
     Some \<lparr>ntu_iTOW = iTOW, ntu_tAcc = tAcc, ntu_nano = nano, ntu_year = year,
           ntu_month = char_to_u16 month, ntu_day = char_to_u16 day,
           ntu_hour = char_to_u16 hour, ntu_min = char_to_u16 min,
           ntu_sec = char_to_u16 sec, ntu_flags = 0\<rparr> }"

definition UBXNavClock :: "byte list \<Rightarrow> NavClock option" where
  "UBXNavClock msg = do {
     iTOW \<leftarrow> get msg 0; clkB \<leftarrow> get msg 4; clkD \<leftarrow> get msg 8; tAcc \<leftarrow> get msg 12;
     fAcc \<leftarrow> get msg 16;
     Some \<lparr>ncl_iTOW = iTOW, ncl_clkB = clkB, ncl_clkD = clkD, ncl_tAcc = tAcc,
           ncl_fAcc = fAcc\<rparr> }"

definition UBXNavPosLLH :: "byte list \<Rightarrow> GnssPosStruct option" where
  "UBXNavPosLLH msg = do {
     iTOW \<leftarrow> get msg 0; lon \<leftarrow> get msg 4; lat \<leftarrow> get msg 8; height \<leftarrow> get msg 12;
     hMSL \<leftarrow> get msg 16; hAcc \<leftarrow> get msg 20; vAcc \<leftarrow> get msg 24;
     Some \<lparr>pos_iTOW = iTOW, pos_lon = lon, pos_lat = lat, pos_height = height,
           pos_hMSL = hMSL, pos_hAcc = hAcc, pos_vAcc = vAcc\<rparr> }"

definition UBXCfgAnt :: "byte list \<Rightarrow> CfgAnt option" where
  "UBXCfgAnt msg = do {
     flags \<leftarrow> get msg 0; pins \<leftarrow> get msg 2;
     Some \<lparr>ant_flags = flags, ant_pins = pins\<rparr> }"

definition UBXCfgNavX5 :: "byte list \<Rightarrow> CfgNavX5 option" where
  "UBXCfgNavX5 msg = do {
     version \<leftarrow> get msg 0; minSVs \<leftarrow> get msg 10; maxSVs \<leftarrow> get msg 11; minCNO \<leftarrow> get msg 12;
     iniFix3D \<leftarrow> get msg 14; wknRollover \<leftarrow> get msg 18; aopCfg \<leftarrow> get msg 27;
     aopOrbMaxErr \<leftarrow> get msg 30;
     Some \<lparr>nx5_version = version, nx5_minSVs = minSVs, nx5_maxSVs = maxSVs,
           nx5_minCNO = minCNO, nx5_iniFix3D = iniFix3D, nx5_wknRollover = wknRollover,
           nx5_aopCfg = aopCfg, nx5_aopOrbMaxErr = aopOrbMaxErr\<rparr> }"

definition UBXCfgNav5 :: "byte list \<Rightarrow> CfgNav5 option" where
  "UBXCfgNav5 msg = do {
     mask \<leftarrow> get msg 0; dynModel \<leftarrow> get msg 2; fixMode \<leftarrow> get msg 3; fixedAlt \<leftarrow> get msg 4;
     fixedAltVar \<leftarrow> get msg 8; minElev \<leftarrow> get msg 12; cnoThreshNumSVs \<leftarrow> get msg 24;
     cnoThresh \<leftarrow> get msg 25;
     Some \<lparr>nv5_mask = mask, nv5_dynModel = dynModel, nv5_fixMode = fixMode,
           nv5_fixedAlt = fixedAlt, nv5_fixedAltVar = fixedAltVar, nv5_minElev = minElev,
           nv5_cnoThreshNumSVs = cnoThreshNumSVs, nv5_cnoThresh = cnoThresh\<rparr> }"

definition UBXCfgTP5 :: "byte list \<Rightarrow> UbxTimePulseStruct option" where
  "UBXCfgTP5 msg = do {
     tpIndex \<leftarrow> get msg 0; version \<leftarrow> get msg 1; antCableDelay \<leftarrow> get msg 4;
     rfGroupDelay \<leftarrow> get msg 6; freqPeriod \<leftarrow> get msg 8; freqPeriodLock \<leftarrow> get msg 12;
     pulseLenRatio \<leftarrow> get msg 16; pulseLenRatioLock \<leftarrow> get msg 20;
     userConfigDelay \<leftarrow> get msg 24; flags \<leftarrow> get msg 28;
     Some \<lparr>tp_tpIndex = tpIndex, tp_version = version, tp_antCableDelay = antCableDelay,
           tp_rfGroupDelay = rfGroupDelay, tp_freqPeriod = freqPeriod,
           tp_freqPeriodLock = freqPeriodLock, tp_pulseLenRatio = pulseLenRatio,
           tp_pulseLenRatioLock = pulseLenRatioLock, tp_userConfigDelay = userConfigDelay,
           tp_flags = flags\<rparr> }"

definition UBXCfgMSG :: "byte list \<Rightarrow> CfgMsg option" where
  "UBXCfgMSG msg = do {
     msgID \<leftarrow> get_big msg 0; rate \<leftarrow> (get msg (2 + s_default_target) :: u8 option);
     Some \<lparr>cm_msgID = msgID, cm_rate = uint rate\<rparr> }"

definition UBXMonHW :: "byte list \<Rightarrow> GnssMonHwStruct option" where
  "UBXMonHW msg = do {
     noisePerMS \<leftarrow> get msg 16; agcCnt \<leftarrow> get msg 18; antStatus \<leftarrow> get msg 20;
     antPower \<leftarrow> get msg 21; flags \<leftarrow> get msg 22; jamInd \<leftarrow> get msg 45;
     Some \<lparr>mhw_noisePerMS = noisePerMS, mhw_agcCnt = agcCnt, mhw_antStatus = antStatus,
           mhw_antPower = antPower, mhw_flags = flags, mhw_jamInd = jamInd\<rparr> }"

definition UBXMonHW2 :: "byte list \<Rightarrow> GnssMonHw2Struct option" where
  "UBXMonHW2 msg = do {
     ofsI \<leftarrow> get msg 0; magI \<leftarrow> get msg 1; ofsQ \<leftarrow> get msg 2; magQ \<leftarrow> get msg 3;
     cfgSrc \<leftarrow> get msg 4; postStatus \<leftarrow> get msg 20;
     Some \<lparr>mh2_ofsI = ofsI, mh2_magI = magI, mh2_ofsQ = ofsQ, mh2_magQ = magQ,
           mh2_cfgSrc = cfgSrc, mh2_postStatus = postStatus\<rparr> }"

text \<open>Both \<open>flags\<close> and \<open>refInfo\<close> are read from offset 14.\<close>

definition UBXTimTP :: "byte list \<Rightarrow> TimTP option" where
  "UBXTimTP msg = do {
     towMS \<leftarrow> get msg 0; towSubMS \<leftarrow> get msg 4; qErr \<leftarrow> get msg 8; week \<leftarrow> get msg 12;
     flags \<leftarrow> get msg 14; refInfo \<leftarrow> get msg 14;
     Some \<lparr>ttp_towMS = towMS, ttp_towSubMS = towSubMS, ttp_qErr = qErr, ttp_week = week,
           ttp_flags = flags, ttp_refInfo = refInfo\<rparr> }"

section \<open>Messages with repeated blocks\<close>

text \<open>\<open>(msg.size() - c) / w\<close> in \<open>size_t\<close>: the difference wraps around when the payload is short.\<close>

definition n_blocks :: "byte list \<Rightarrow> nat \<Rightarrow> nat \<Rightarrow> nat" where
  "n_blocks msg c w = unat ((word_of_nat (length msg) - word_of_nat c :: u64)) div w"

text \<open>\<open>for (i = 0; i < N; i++)\<close>, stopping at the first undefined read.\<close>

fun for_blocks :: "(nat \<Rightarrow> 'a option) \<Rightarrow> nat \<Rightarrow> nat \<Rightarrow> 'a list option" where
  "for_blocks f i 0 = Some []"
| "for_blocks f i (Suc n) =
     (case f i of None \<Rightarrow> None
      | Some x \<Rightarrow> (case for_blocks f (Suc i) n of None \<Rightarrow> None | Some xs \<Rightarrow> Some (x # xs)))"

definition gnss_of_satId :: "u8 \<Rightarrow> u8" where
  "gnss_of_satId satId =
     (if satId < 33 then 0 else if satId < 65 then 3
      else if satId < 97 \<or> satId = 255 then 6
      else if satId < 159 then 1 else if satId < 164 then 3 else if satId < 183 then 4
      else if satId < 198 then 5 else if satId < 247 then 2 else 7)"

definition svinfo_block :: "byte list \<Rightarrow> nat \<Rightarrow> GnssSatellite option" where
  "svinfo_block msg i = do {
     let n = 8 + i * 12;
     satId \<leftarrow> (get msg (n + 1) :: u8 option); flags \<leftarrow> (get msg (n + 2) :: u8 option);
     quality \<leftarrow> get msg (n + 3); cnr \<leftarrow> get msg (n + 4); elev \<leftarrow> get msg (n + 5);
     azim \<leftarrow> get msg (n + 6); prRes \<leftarrow> (get msg (n + 8) :: i32 option);
     Some \<lparr>sat_GnssId = gnss_of_satId satId, sat_SatId = satId, sat_Cnr = cnr,
           sat_Elev = elev, sat_Azim = azim,
           sat_PrRes = float (float (of_int (sint prRes)) / 100),
           sat_Quality = quality,
           sat_Health = (drop_bit 4 flags AND 0x01) + 1,
           sat_OrbitSource =
             (if flags AND 0x04 \<noteq> 0 then
                (if flags AND 0x08 \<noteq> 0 then 1 else if flags AND 0x20 \<noteq> 0 then 2
                 else if flags AND 0x40 \<noteq> 0 then 3 else 0)
              else 0),
           sat_Used = (flags AND 0x01 \<noteq> 0),
           sat_DiffCorr = (flags AND 0x02 \<noteq> 0),
           sat_Smoothed = (flags AND 0x80 \<noteq> 0)\<rparr> }"

definition good_sats :: "GnssSatellite list \<Rightarrow> nat" where
  "good_sats sats = length (filter (\<lambda>sat. sat_Cnr sat > 0) sats)"

definition UBXNavSVinfo :: "byte list \<Rightarrow> NavSat option" where
  "UBXNavSVinfo msg = do {
     iTOW \<leftarrow> get msg 0; numSvs \<leftarrow> get msg 4; globFlags \<leftarrow> get msg 5;
     sats \<leftarrow> for_blocks (svinfo_block msg) 0 (n_blocks msg 8 12);
     Some \<lparr>nsa_iTOW = iTOW, nsa_version = None, nsa_globFlags = Some globFlags,
           nsa_numSvs = numSvs, nsa_goodSats = good_sats sats, nsa_satellites = sats\<rparr> }"

definition sat_block :: "byte list \<Rightarrow> nat \<Rightarrow> GnssSatellite option" where
  "sat_block msg i = do {
     let n = 8 + i * 12;
     gnssId \<leftarrow> get msg n; satId \<leftarrow> get msg (n + 1); cnr \<leftarrow> get msg (n + 2);
     elev \<leftarrow> get msg (n + 3); azim \<leftarrow> get msg (n + 4);
     prRes \<leftarrow> (get msg (n + 6) :: i16 option); flags \<leftarrow> get msg (n + 8);
     Some (satellite_of_flags gnssId satId cnr elev azim
             (float (float (of_int (sint prRes)) / 10)) flags) }"

text \<open>\<open>version\<close> and \<open>numSvs\<close> are read into local variables; the members keep their defaults.\<close>

definition UBXNavSat :: "byte list \<Rightarrow> NavSat option" where
  "UBXNavSat msg = do {
     iTOW \<leftarrow> get msg 0; version \<leftarrow> (get msg 4 :: u8 option); numSvs \<leftarrow> (get msg 5 :: u8 option);
     sats \<leftarrow> for_blocks (sat_block msg) 0 (n_blocks msg 8 12);
     Some \<lparr>nsa_iTOW = iTOW, nsa_version = None, nsa_globFlags = None,
           nsa_numSvs = 0, nsa_goodSats = good_sats sats, nsa_satellites = sats\<rparr> }"

definition gnss_block :: "byte list \<Rightarrow> nat \<Rightarrow> GnssConfigStruct option" where
  "gnss_block msg i = do {
     let n = 8 * i;
     gnssId \<leftarrow> get msg (n + 4); resTrkCh \<leftarrow> get msg (n + 5); maxTrkCh \<leftarrow> get msg (n + 6);
     flags \<leftarrow> get msg (n + 8);
     Some \<lparr>gc_gnssId = gnssId, gc_resTrkCh = resTrkCh, gc_maxTrkCh = maxTrkCh,
           gc_flags = flags\<rparr> }"

definition UBXCfgGNSS :: "byte list \<Rightarrow> CfgGNSS option" where
  "UBXCfgGNSS msg = do {
     version \<leftarrow> get msg 0; numTrkChHw \<leftarrow> get msg 1; numTrkChUse \<leftarrow> get msg 2;
     numConfigBlocks \<leftarrow> get msg 3;
     configs \<leftarrow> for_blocks (gnss_block msg) 0 (n_blocks msg 4 8);
     Some \<lparr>cgn_version = version, cgn_numTrkChHw = numTrkChHw,
           cgn_numTrkChUse = numTrkChUse, cgn_numConfigBlocks = numConfigBlocks,
           cgn_configs = configs\<rparr> }"

definition UBXMonRx :: "byte list \<Rightarrow> MonRx option" where
  "UBXMonRx msg = do {
     rows \<leftarrow> for_blocks (\<lambda>target. do {
         pending \<leftarrow> get msg (2 * target); usage \<leftarrow> get msg (target + 12);
         peakUsage \<leftarrow> get msg (target + 18);
         Some (pending, usage, peakUsage) }) 0 s_nr_targets;
     Some \<lparr>mrx_pending = map fst rows, mrx_usage = map (fst \<circ> snd) rows,
           mrx_peakUsage = map (snd \<circ> snd) rows,
           mrx_tUsage = sum_list (map (fst \<circ> snd) rows),
           mrx_tPeakUsage = sum_list (map (snd \<circ> snd) rows)\<rparr> }"

definition UBXMonTx :: "byte list \<Rightarrow> MonTx option" where
  "UBXMonTx msg = do {
     rows \<leftarrow> for_blocks (\<lambda>target. do {
         pending \<leftarrow> get msg (2 * target); usage \<leftarrow> get msg (target + 12);
         peakUsage \<leftarrow> get msg (target + 18);
         Some (pending, usage, peakUsage) }) 0 s_nr_targets;
     tUsage \<leftarrow> get msg 24; tPeakUsage \<leftarrow> get msg 25;
     Some \<lparr>mtx_pending = map fst rows, mtx_usage = map (fst \<circ> snd) rows,
           mtx_peakUsage = map (snd \<circ> snd) rows,
           mtx_tUsage = tUsage, mtx_tPeakUsage = tPeakUsage\<rparr> }"

end
