(* ===== verification/Text.thy ===== *)
theory Text
  imports Prelude
begin

text \<open>
  The parts of the C++ standard library on text that several components use, in the C locale:
  character classes, decimal output (\<open>std::to_string\<close> of an unsigned value) and decimal input
  (\<open>std::from_chars\<close> for \<open>unsigned\<close>). Text is a list of octets.
\<close>

definition isspace :: "byte \<Rightarrow> bool" where
  "isspace b \<longleftrightarrow> b = 32 \<or> (9 \<le> b \<and> b \<le> 13)"

definition isdigit :: "byte \<Rightarrow> bool" where
  "isdigit b \<longleftrightarrow> 48 \<le> b \<and> b \<le> 57"

definition isgraph :: "byte \<Rightarrow> bool" where
  "isgraph b \<longleftrightarrow> 33 \<le> b \<and> b \<le> 126"

definition digit_char :: "nat \<Rightarrow> byte" where
  "digit_char d = word_of_nat (48 + d)"

definition digit_value :: "byte \<Rightarrow> nat" where
  "digit_value b = unat b - 48"

fun to_string :: "nat \<Rightarrow> byte list" where
  "to_string n = (if n < 10 then [digit_char n] else to_string (n div 10) @ [digit_char (n mod 10)])"

declare to_string.simps [simp del]

definition digits_value :: "byte list \<Rightarrow> nat" where
  "digits_value = foldl (\<lambda>n b. 10 * n + digit_value b) 0"

text \<open>\<open>Some (value, count)\<close>: the value and the number of characters consumed.\<close>

definition from_chars :: "byte list \<Rightarrow> (u32 \<times> nat) option" where
  "from_chars text =
     (let ds = takeWhile isdigit text; n = digits_value ds
      in if ds = [] \<or> (2 ^ 32 :: int) \<le> int n then None else Some (word_of_nat n, length ds))"

lemma digit_char_props:
  assumes "d < 10"
  shows "isdigit (digit_char d)" and "digit_value (digit_char d) = d"
proof -
  have u: "unat (digit_char d) = 48 + d"
    unfolding digit_char_def using assms by (simp only: unsigned_of_nat) (simp add: take_bit_nat_eq_self)
  show "isdigit (digit_char d)"
    using assms by (simp add: isdigit_def word_le_nat_alt u)
  show "digit_value (digit_char d) = d" by (simp add: digit_value_def u)
qed

lemma to_string_digits: "\<forall>b \<in> set (to_string n). isdigit b"
proof (induction n rule: to_string.induct)
  case (1 n)
  show ?case
  proof (cases "n < 10")
    case True
    then show ?thesis by (simp add: to_string.simps [of n] digit_char_props)
  next
    case False
    with 1 have "\<forall>b \<in> set (to_string (n div 10)). isdigit b" by simp
    with False show ?thesis by (simp add: to_string.simps [of n] digit_char_props)
  qed
qed

lemma to_string_nonempty: "to_string n \<noteq> []"
  by (simp add: to_string.simps [of n])

lemma digits_value_to_string: "digits_value (to_string n) = n"
proof (induction n rule: to_string.induct)
  case (1 n)
  show ?case
  proof (cases "n < 10")
    case True
    then show ?thesis by (simp add: to_string.simps [of n] digits_value_def digit_char_props)
  next
    case False
    with 1 have "digits_value (to_string (n div 10)) = n div 10" by simp
    with False show ?thesis
      by (simp add: to_string.simps [of n] digits_value_def digit_char_props)
  qed
qed

lemma takeWhile_to_string: "takeWhile isdigit (to_string n) = to_string n"
  using to_string_digits [of n] by simp

lemma from_chars_to_string:
  "n < 2 ^ 32 \<Longrightarrow> from_chars (to_string n) = Some (word_of_nat n, length (to_string n))"
  by (simp add: from_chars_def takeWhile_to_string to_string_nonempty digits_value_to_string)

lemma isdigit_not_isspace: "isdigit b \<Longrightarrow> \<not> isspace b"
  by (auto simp: isdigit_def isspace_def word_le_nat_alt)

end
