(* ===== verification/Ubx_Version.thy ===== *)
theory Ubx_Version
  imports Ubx_Decode Text
begin

text \<open>
  The version message of \<open>MessageProcessor\<close>: \<open>getProtVersion\<close> parses texts such as "18",
  "9.10" or " 23.01 ", and \<open>UBXMonVer\<close> extracts the software and hardware versions and the
  text of the PROTVER extension from the MON-VER payload.
\<close>

definition trim :: "byte list \<Rightarrow> byte list" where
  "trim text = rev (dropWhile isspace (rev (dropWhile isspace text)))"

text \<open>The whole text must be consumed by \<open>from_chars\<close>.\<close>

definition whole_number :: "byte list \<Rightarrow> u32 option" where
  "whole_number text = (case from_chars text of None \<Rightarrow> None
     | Some (v, n) \<Rightarrow> if n = length text then Some v else None)"

definition getProtVersion :: "byte list \<Rightarrow> UbxProtVersion option" where
  "getProtVersion txt =
     (let text = trim txt
      in if text = [] then None
         else if 46 \<notin> set text then
           (case whole_number text of None \<Rightarrow> None | Some v \<Rightarrow> Some \<lparr>major = v, minor = 0\<rparr>)
         else
           (let majorPart = takeWhile (\<lambda>b. b \<noteq> 46) text;
                minorPart = tl (dropWhile (\<lambda>b. b \<noteq> 46) text)
            in if majorPart = [] \<or> minorPart = [] then None
               else (case (whole_number majorPart, whole_number minorPart) of
                       (Some v, Some w) \<Rightarrow> Some \<lparr>major = v, minor = w\<rparr>
                     | _ \<Rightarrow> None)))"

text \<open>\<open>for (i = from; msg[i] != 0 && i < stop; i++) s += msg[i]\<close>\<close>

function read_cstr :: "byte list \<Rightarrow> nat \<Rightarrow> nat \<Rightarrow> byte list option" where
  "read_cstr msg i stop = (case char_at msg i of None \<Rightarrow> None
     | Some c \<Rightarrow>
         if c \<noteq> 0 \<and> i < stop
         then (case read_cstr msg (Suc i) stop of None \<Rightarrow> None | Some s \<Rightarrow> Some (c # s))
         else Some [])"
  by pat_completeness auto
termination by (relation "measure (\<lambda>(msg, i, stop). stop - i)") auto

declare read_cstr.simps [simp del]

text \<open>\<open>msg.find(0x00, from)\<close>; \<open>npos\<close> is \<open>2^64 - 1\<close>.\<close>

definition find_zero :: "byte list \<Rightarrow> nat \<Rightarrow> nat option" where
  "find_zero msg from = (case filter (\<lambda>j. msg ! j = 0) [from..<length msg] of
     [] \<Rightarrow> None | j # _ \<Rightarrow> Some j)"

definition npos :: nat where
  "npos = 2 ^ 64 - 1"

text \<open>\<open>msg.substr(i, msg.find(0x00, i + 1) - i + 1)\<close>, the count computed in \<open>size_t\<close>.\<close>

definition ver_segment :: "byte list \<Rightarrow> nat \<Rightarrow> byte list" where
  "ver_segment msg i =
     (let pos = (case find_zero msg (i + 1) of Some j \<Rightarrow> j | None \<Rightarrow> npos);
          count = (pos + 2 ^ 64 - i + 1) mod 2 ^ 64
      in take count (drop i msg))"

definition PROTVER :: "byte list" where
  "PROTVER = [0x50, 0x52, 0x4f, 0x54, 0x56, 0x45, 0x52]"

fun contains :: "byte list \<Rightarrow> byte list \<Rightarrow> bool" where
  "contains pat [] = (pat = [])"
| "contains pat (b # bs) = (take (length pat) (b # bs) = pat \<or> contains pat bs)"

text \<open>
  The text after the first seven characters, from its first digit to its last visible
  character.
\<close>

definition prot_text :: "byte list \<Rightarrow> byte list" where
  "prot_text s = rev (dropWhile (\<lambda>b. b = 32 \<or> \<not> isgraph b)
      (rev (dropWhile (\<lambda>b. \<not> isdigit b) (drop 7 s))))"

lemma find_zero_bounds: "find_zero msg from = Some j \<Longrightarrow> from \<le> j \<and> j < length msg \<and> msg ! j = 0"
  by (auto simp: find_zero_def filter_eq_Cons_iff split: list.splits)
    (metis atLeastLessThan_iff atLeastLessThan_upt in_set_conv_decomp)+

function ver_loop :: "byte list \<Rightarrow> nat \<Rightarrow> byte list \<Rightarrow> byte list" where
  "ver_loop msg i prot =
     (if i < length msg then
        (let s = dropWhile (\<lambda>b. b = 0) (ver_segment msg i);
             prot' = (if s \<noteq> [] \<and> contains PROTVER s then prot_text s else prot)
         in case find_zero msg (i + 1) of None \<Rightarrow> prot' | Some j \<Rightarrow> ver_loop msg j prot')
      else prot)"
  by pat_completeness auto
termination
  by (relation "measure (\<lambda>(msg, i, prot). length msg - i)") (auto dest: find_zero_bounds)

declare ver_loop.simps [simp del]

definition UBXMonVer :: "byte list \<Rightarrow> GpsVersion option" where
  "UBXMonVer msg = do {
     sw \<leftarrow> read_cstr msg 0 30;
     hw \<leftarrow> read_cstr msg 30 40;
     Some \<lparr>gv_hwString = hw, gv_swString = sw, gv_prot = ver_loop msg 0 []\<rparr> }"


section \<open>Version texts\<close>

lemma dropWhile_all: "\<forall>b \<in> set xs. P b \<Longrightarrow> dropWhile P (xs @ ys) = dropWhile P ys"
  by (induction xs) auto

lemma trim_padded:
  assumes "\<forall>b \<in> set ws1. isspace b" and "\<forall>b \<in> set ws2. isspace b"
    and "t \<noteq> []" and "\<not> isspace (hd t)" and "\<not> isspace (last t)"
  shows "trim (ws1 @ t @ ws2) = t"
proof -
  have 1: "dropWhile isspace (ws1 @ t @ ws2) = t @ ws2"
    using assms(1,3,4) by (cases t) (auto simp: dropWhile_all)
  have "dropWhile isspace (rev ws2 @ rev t) = rev t"
    using assms(2,3,5) by (cases t rule: rev_cases) (auto simp: dropWhile_all)
  then show ?thesis by (simp add: trim_def 1)
qed

lemma to_string_edges: "isdigit (hd (to_string n))" "isdigit (last (to_string n))"
  using to_string_digits [of n] to_string_nonempty [of n] by auto

lemma isdigit_not_dot: "isdigit b \<Longrightarrow> b \<noteq> 46"
  by (auto simp: isdigit_def word_le_nat_alt)

lemma whole_number_to_string: "n < 2 ^ 32 \<Longrightarrow> whole_number (to_string n) = Some (word_of_nat n)"
  by (simp add: whole_number_def from_chars_to_string)

text \<open>
  a version text "a.b" or "a" of two 32-bit numbers, with any white space around it, is
  parsed to exactly the version it denotes.
\<close>

theorem getProtVersion_roundtrip:
  assumes "\<forall>b \<in> set ws1. isspace b" and "\<forall>b \<in> set ws2. isspace b"
    and "a < 2 ^ 32" and "b < 2 ^ 32"
  shows "getProtVersion (ws1 @ (to_string a @ 46 # to_string b) @ ws2) =
      Some \<lparr>major = word_of_nat a, minor = word_of_nat b\<rparr>
    \<and> getProtVersion (ws1 @ to_string a @ ws2) = Some \<lparr>major = word_of_nat a, minor = 0\<rparr>"
proof -
  have nd: "\<forall>b \<in> set (to_string n). b \<noteq> 46" for n
    using to_string_digits isdigit_not_dot by blast
  have 1: "trim (ws1 @ (to_string a @ 46 # to_string b) @ ws2) = to_string a @ 46 # to_string b"
    using assms(1,2) to_string_edges isdigit_not_isspace to_string_nonempty
    by (intro trim_padded) auto
  have 2: "trim (ws1 @ to_string a @ ws2) = to_string a"
    using assms(1,2) to_string_edges isdigit_not_isspace to_string_nonempty
    by (intro trim_padded) auto
  have 3: "takeWhile (\<lambda>b. b \<noteq> 46) (to_string a @ 46 # to_string b) = to_string a"
    "dropWhile (\<lambda>b. b \<noteq> 46) (to_string a @ 46 # to_string b) = 46 # to_string b"
    using nd [of a] by (simp_all add: takeWhile_append2 dropWhile_append2)
  have 4: "46 \<notin> set (to_string a)" using nd [of a] by auto
  show ?thesis
    using assms(3,4) 4
    by (simp add: getProtVersion_def Let_def 1 [simplified] 2 3 whole_number_to_string to_string_nonempty)
qed

theorem getProtVersion_roundtrip_witness:
  "getProtVersion ([32] @ (to_string 23 @ 46 # to_string 1) @ [10]) =
     Some \<lparr>major = word_of_nat 23, minor = word_of_nat 1\<rparr>"
  using getProtVersion_roundtrip [of "[32]" "[10]" 23 1] by (simp add: isspace_def)
end
