(* ===== verification/Ubx_Timemark.thy ===== *)
theory Ubx_Timemark
  imports Ubx_Decode "HOL-Library.Signed_Division"
begin

text \<open>
  Time marks: \<open>unixtime_from_gps\<close> (daemon/src/utility/unixtime_from_gps.h) and
  \<open>MessageProcessor::UBXTimTM2\<close>, which turns the two edges of an event into Unix times and
  recovers a missing edge from the last pulse length. The sub-second part is computed in
  \<open>double\<close>, each operation rounded as in \<open>Ieee_Double\<close> (no contraction into a fused
  multiply-add).
\<close>

definition unixtime_from_gps :: "int \<Rightarrow> int \<Rightarrow> int \<Rightarrow> timespec" where
  "unixtime_from_gps week_nr s_of_week ns =
     \<lparr>tv_sec = 315964800 + week_nr * 7 * 24 * 3600 + s_of_week, tv_nsec = ns\<rparr>"

text \<open>
  \<open>double sr = towMs / 1000.; sr = sr - towMs / 1000;\<close> and \<open>(long int) (sr * 1e9 + towSubMs)\<close>
\<close>

definition sub_second :: "u32 \<Rightarrow> rat" where
  "sub_second towMs = double (double (of_int (uint towMs) / 1000) - of_int (uint towMs div 1000))"

definition sub_second_ns :: "u32 \<Rightarrow> u32 \<Rightarrow> int option" where
  "sub_second_ns towMs towSubMs =
     to_int64 (double (double (sub_second towMs * 1000000000) + of_int (uint towSubMs)))"

text \<open>The part after the fields of \<open>tm\<close> are set; the first result is \<open>lastPulseLength\<close>.\<close>

definition recover_edges :: "int \<Rightarrow> UbxTimeMarkStruct \<Rightarrow> (int \<times> UbxTimeMarkStruct) option" where
  "recover_edges lastPulseLength tm =
     (if \<not> tmk_risingValid tm \<and> tmk_fallingValid tm then
        (let sec = tv_sec (tmk_falling tm) - lastPulseLength sdiv 1000000000;
             nsec = tv_nsec (tmk_falling tm) - lastPulseLength smod 1000000000;
             rising = (if nsec \<ge> 1000000000 then \<lparr>tv_sec = sec + 1, tv_nsec = nsec - 1000000000\<rparr>
                       else if nsec < 0 then \<lparr>tv_sec = sec - 1, tv_nsec = nsec + 1000000000\<rparr>
                       else \<lparr>tv_sec = sec, tv_nsec = nsec\<rparr>)
         in Some (lastPulseLength, tm\<lparr>tmk_rising := rising\<rparr>))
      else if \<not> tmk_fallingValid tm \<and> tmk_risingValid tm then
        (let sec = tv_sec (tmk_rising tm) + lastPulseLength sdiv 1000000000;
             nsec = tv_nsec (tmk_rising tm) + lastPulseLength smod 1000000000;
             falling = (if nsec \<ge> 1000000000 then \<lparr>tv_sec = sec + 1, tv_nsec = nsec - 1000000000\<rparr>
                        else \<lparr>tv_sec = sec, tv_nsec = nsec\<rparr>)
         in Some (lastPulseLength, tm\<lparr>tmk_falling := falling\<rparr>))
      else if \<not> tmk_fallingValid tm \<and> \<not> tmk_risingValid tm then Some (lastPulseLength, tm)
      else do {
        d \<leftarrow> to_int64 (double (double (of_int (tv_sec (tmk_falling tm) - tv_sec (tmk_rising tm)))
                         * 1000000000));
        let dts = d + (tv_nsec (tmk_falling tm) - tv_nsec (tmk_rising tm));
        Some (if dts > 0 \<and> dts < 1000000 then dts else lastPulseLength, tm) })"

definition UBXTimTM2 :: "int \<Rightarrow> byte list \<Rightarrow> (int \<times> UbxTimeMarkStruct) option" where
  "UBXTimTM2 lastPulseLength msg = do {
     ch \<leftarrow> (get msg 0 :: u8 option); flags \<leftarrow> get msg 1; count \<leftarrow> get msg 2;
     wnR \<leftarrow> (get msg 4 :: u16 option); wnF \<leftarrow> (get msg 6 :: u16 option);
     towMsR \<leftarrow> get msg 8; towSubMsR \<leftarrow> get msg 12; towMsF \<leftarrow> get msg 16; towSubMsF \<leftarrow> get msg 20;
     accEst \<leftarrow> get msg 24;
     nsR \<leftarrow> sub_second_ns towMsR towSubMsR;
     nsF \<leftarrow> sub_second_ns towMsF towSubMsF;
     let ts_r = unixtime_from_gps (uint wnR) (uint towMsR div 1000) nsR;
     let ts_f = unixtime_from_gps (uint wnF) (uint towMsF div 1000) nsF;
     let tm = \<lparr>tmk_rising = ts_r, tmk_falling = ts_f,
               tmk_risingValid = (flags AND 0x80 \<noteq> 0),
               tmk_fallingValid = (flags AND 0x04 \<noteq> 0),
               tmk_accuracy_ns = accEst,
               tmk_valid = (flags AND 0x40 \<noteq> 0),
               tmk_timeBase = drop_bit 3 (flags AND 0x18),
               tmk_utcAvailable = (flags AND 0x20 \<noteq> 0),
               tmk_flags = flags, tmk_evtCounter = count\<rparr>;
     recover_edges lastPulseLength tm }"

section \<open>The rounding of the sub-second part\<close>

lemma double_div_1000:
  fixes t :: int
  assumes "0 \<le> t" and "t < 2 ^ 32"
  defines "s \<equiv> double (of_int t / 1000)"
  shows "of_int (t div 1000) \<le> s" and "s \<le> of_int (t div 1000 + 1)"
    and "\<bar>s - of_int t / 1000\<bar> \<le> 1 / 2 ^ 31"
    and "double (s - of_int (t div 1000)) = s - of_int (t div 1000)"
proof -
  let ?x = "of_int t / 1000 :: rat" and ?k = "t div 1000"
  have "(of_int t :: rat) < of_int (2 ^ 32)" using assms(2) by (simp only: of_int_less_iff)
  then have x: "?x < pow2 23" by (simp add: pow2_def)
  have x0: "0 \<le> ?x" using assms(1) by simp
  show "\<bar>s - ?x\<bar> \<le> 1 / 2 ^ 31"
    using rnd_error [of ?x 23 53] x x0 by (simp add: s_def double_def pow2_def)
  have kx: "of_int ?k \<le> ?x" "?x \<le> of_int (?k + 1)"
  proof -
    have "(of_int (1000 * ?k) :: rat) \<le> of_int t"
      by (simp only: of_int_le_iff)
    then show "of_int ?k \<le> ?x" by simp
    have "t \<le> 1000 * (?k + 1)" by presburger
    then have "(of_int t :: rat) \<le> of_int (1000 * (?k + 1))" by (simp only: of_int_le_iff)
    then show "?x \<le> of_int (?k + 1)" by simp
  qed
  show lo: "of_int ?k \<le> s" and hi: "s \<le> of_int (?k + 1)"
  proof (atomize (full), cases "t = 0")
    case True
    then show "of_int ?k \<le> s \<and> s \<le> of_int (?k + 1)" by (simp add: s_def double_def)
  next
    case False
    then have pos: "0 < ?x" using assms(1) by simp
    have "ilog2 ?x < 23" by (rule ilog2_less [OF pos x])
    then have l: "ilog2 ?x < int 53" by simp
    show "of_int ?k \<le> s \<and> s \<le> of_int (?k + 1)"
      unfolding s_def double_def using rnd_int_bounds [OF pos l] kx by blast
  qed
  show "double (s - of_int ?k) = s - of_int ?k"
  proof (cases "1000 \<le> t")
    case False
    then have "?k = 0" using assms(1) by simp
    moreover have "double s = s"
      using rnd_idem [of ?x 53] assms(1) by (cases "t = 0") (simp_all add: s_def double_def)
    ultimately show ?thesis by simp
  next
    case True
    then have pos: "0 < ?x" and "(of_int 1000 :: rat) \<le> of_int t" by (simp, simp only: of_int_le_iff)
    then have "pow2 0 \<le> ?x" by (simp add: pow2_def)
    then have il: "0 \<le> ilog2 ?x" by (rule ilog2_ge)
    have iu: "ilog2 ?x < 23" by (rule ilog2_less [OF pos x])
    define e where "e = ilog2 ?x - 52"
    obtain m where m: "s = of_int m * pow2 e"
      using rnd_grid [OF pos, of 53] by (auto simp: s_def double_def e_def)
    have "pow2 (- e) = of_int (2 ^ nat (- e))" using iu by (simp add: pow2_def e_def)
    moreover have "pow2 (- e) * pow2 e = 1" by (simp flip: pow2_add) (simp add: pow2_def)
    ultimately have "(of_int ?k :: rat) = of_int (?k * 2 ^ nat (- e)) * pow2 e" by simp
    then have diff: "s - of_int ?k = of_int (m - ?k * 2 ^ nat (- e)) * pow2 e"
      by (simp add: m left_diff_distrib)
    have "\<bar>s - of_int ?k\<bar> \<le> 1" using lo hi by simp
    also have "1 < pow2 (e + 53)"
      using pow2_less_iff [of 0 "e + 53"] il by (simp add: e_def pow2_def [of 0])
    finally show ?thesis
      unfolding double_def by (intro rnd_exact [OF diff]) simp
  qed
qed

text \<open>The exact nanoseconds within the second, for a time of week in milliseconds.\<close>

definition exact_ns :: "u32 \<Rightarrow> u32 \<Rightarrow> int" where
  "exact_ns towMs towSubMs = (uint towMs mod 1000) * 1000000 + uint towSubMs"

lemma trunc_near:
  assumes "0 \<le> q" and "\<bar>q - of_int n\<bar> < 1 / 2"
  shows "trunc_rat q \<in> {n - 1, n}"
proof -
  have "q - of_int n < 1 / 2" "- (q - of_int n) < 1 / 2"
    using assms(2) by (simp_all only: abs_less_iff)
  then have "of_int (n - 1) < q" "q < of_int (n + 1)" by simp_all
  then have "n - 1 \<le> \<lfloor>q\<rfloor>" "\<lfloor>q\<rfloor> < n + 1"
    by (simp_all only: le_floor_iff floor_less_iff)
  then show ?thesis using assms(1) by (auto simp: trunc_rat_def)
qed

lemma sub_second_ns_near:
  "\<exists>n. sub_second_ns towMs towSubMs = Some n \<and>
     n \<in> {exact_ns towMs towSubMs - 1, exact_ns towMs towSubMs} \<and> 0 \<le> n"
proof -
  define t where "t = uint towMs"
  define b where "b = uint towSubMs"
  have t: "0 \<le> t" "t < 2 ^ 32" using uint_bounded [of towMs] by (auto simp: t_def)
  have b: "0 \<le> b" "b < 2 ^ 32" using uint_bounded [of towSubMs] by (auto simp: b_def)
  then have br: "0 \<le> (of_int b :: rat)" "(of_int b :: rat) < of_int (2 ^ 32)"
    by (simp, simp only: of_int_less_iff)
  define s where "s = double (of_int t / 1000)"
  note div = double_div_1000 [OF t, folded s_def]
  define r where "r = s - of_int (t div 1000)"
  have sr: "sub_second towMs = r"
    using div(4) by (simp add: sub_second_def t_def s_def r_def uint_div)
  have r: "0 \<le> r" "r \<le> 1" using div(1,2) by (simp_all add: r_def)
  define x where "x = (of_int (t mod 1000) / 1000 :: rat)"
  have tx: "(of_int t / 1000 :: rat) = of_int (t div 1000) + x"
    unfolding x_def using div_mult_mod_eq [of t 1000]
    by (metis (no_types, lifting) add_divide_distrib nonzero_mult_div_cancel_right of_int_add
        of_int_mult of_int_numeral zero_neq_numeral)
  have rx: "\<bar>r - x\<bar> \<le> 1 / 2 ^ 31" using div(3) unfolding tx r_def by (simp only: diff_diff_eq)
  define p where "p = double (r * 1000000000)"
  have "\<bar>r * 1000000000\<bar> < pow2 30" using r by (simp add: pow2_def)
  then have p: "\<bar>p - r * 1000000000\<bar> \<le> 1 / 2 ^ 24"
    using rnd_error [of "r * 1000000000" 30 53] by (simp add: p_def double_def pow2_def)
  have p0: "0 \<le> p" using r(1) by (simp add: p_def double_def rnd_nonneg)
  define q where "q = double (p + of_int b)"
  have "\<bar>p + of_int b\<bar> < pow2 33"
  proof -
    have "p - r * 1000000000 \<le> 1 / 2 ^ 24" using p by (simp only: abs_le_iff)
    then have "p < 2 ^ 32" using r(2) by simp
    moreover have "(of_int b :: rat) < 2 ^ 32" using br(2) by simp
    moreover have "(2 ^ 32 + 2 ^ 32 :: rat) = pow2 33" by (simp add: pow2_def)
    ultimately have "p + of_int b < pow2 33" by linarith
    moreover have "0 \<le> p + of_int b" using p0 br(1) by linarith
    ultimately show ?thesis by (simp only: abs_of_nonneg)
  qed
  then have q: "\<bar>q - (p + of_int b)\<bar> \<le> 1 / 2 ^ 21"
    using rnd_error [of "p + of_int b" 33 53] by (simp add: q_def double_def pow2_def)
  have q0: "0 \<le> q" using p0 br by (simp add: q_def double_def rnd_nonneg)
  have ex: "of_int (exact_ns towMs towSubMs) = x * 1000000000 + of_int b"
    by (simp add: exact_ns_def x_def t_def b_def uint_mod)
  have near: "\<bar>q - of_int (exact_ns towMs towSubMs)\<bar> < 1 / 2"
    unfolding ex using q p rx by (simp only: abs_le_iff abs_less_iff) (simp add: field_simps)
  have n: "trunc_rat q \<in> {exact_ns towMs towSubMs - 1, exact_ns towMs towSubMs}"
    by (rule trunc_near [OF q0 near])
  have n0: "0 \<le> trunc_rat q" using q0 by (simp add: trunc_rat_def)
  have "exact_ns towMs towSubMs < 2 ^ 33"
    using b t pos_mod_bound [of 1000 t] by (simp add: exact_ns_def t_def b_def uint_mod)
  then have "to_int64 q = Some (trunc_rat q)"
    using n n0 by (auto simp: to_int64_def Let_def)
  then have "sub_second_ns towMs towSubMs = Some (trunc_rat q)"
    by (simp add: sub_second_ns_def sr p_def q_def b_def)
  with n n0 show ?thesis by blast
qed

section \<open>Edges\<close>

definition instant_ns :: "timespec \<Rightarrow> int" where
  "instant_ns t = tv_sec t * 1000000000 + tv_nsec t"

definition normalised :: "timespec \<Rightarrow> bool" where
  "normalised t \<longleftrightarrow> 0 \<le> tv_nsec t \<and> tv_nsec t < 1000000000"

definition pulse_length_ok :: "int \<Rightarrow> bool" where
  "pulse_length_ok l \<longleftrightarrow> 0 \<le> l \<and> l < 1000000"

lemma sdiv_smod_pulse_length:
  "pulse_length_ok l \<Longrightarrow> l sdiv 1000000000 = 0"
  "pulse_length_ok l \<Longrightarrow> l smod 1000000000 = l"
  by (auto simp: pulse_length_ok_def signed_divide_int_def signed_modulo_int_def sgn_if)

lemma recover_edges_pulse_length:
  "recover_edges l tm = Some (l', tm') \<Longrightarrow> pulse_length_ok l \<Longrightarrow> pulse_length_ok l'"
  by (auto simp: recover_edges_def pulse_length_ok_def Let_def bind_eq_Some_iff split: if_splits)

lemma recover_edges_missing:
  assumes "recover_edges l tm = Some (l', tm')" and "pulse_length_ok l"
    and "tmk_risingValid tm \<noteq> tmk_fallingValid tm"
  shows "l' = l \<and> instant_ns (tmk_falling tm') - instant_ns (tmk_rising tm') = l
    \<and> (normalised (if tmk_risingValid tm then tmk_rising tm else tmk_falling tm) \<longrightarrow>
         normalised (tmk_rising tm') \<and> normalised (tmk_falling tm'))
    \<and> (tmk_risingValid tm \<longrightarrow> tmk_rising tm' = tmk_rising tm)
    \<and> (tmk_fallingValid tm \<longrightarrow> tmk_falling tm' = tmk_falling tm)"
  using assms
  by (auto simp: recover_edges_def Let_def sdiv_smod_pulse_length instant_ns_def normalised_def
      pulse_length_ok_def split: if_splits)

lemma recover_edges_keeps:
  assumes "recover_edges l tm = Some (l', tm')"
  shows "tmk_risingValid tm' = tmk_risingValid tm" and "tmk_fallingValid tm' = tmk_fallingValid tm"
    and "tmk_risingValid tm \<Longrightarrow> tmk_rising tm' = tmk_rising tm"
    and "tmk_fallingValid tm \<Longrightarrow> tmk_falling tm' = tmk_falling tm"
  using assms by (auto simp: recover_edges_def Let_def bind_eq_Some_iff split: if_splits)

text \<open>The fields of a decoded time mark before the recovery.\<close>

definition raw_timemark :: "u8 \<Rightarrow> u16 \<Rightarrow> u16 \<Rightarrow> u16 \<Rightarrow> u32 \<Rightarrow> int \<Rightarrow> u32 \<Rightarrow> int \<Rightarrow> u32
    \<Rightarrow> UbxTimeMarkStruct" where
  "raw_timemark flags count wnR wnF towMsR nsR towMsF nsF accEst =
     \<lparr>tmk_rising = unixtime_from_gps (uint wnR) (uint towMsR div 1000) nsR,
      tmk_falling = unixtime_from_gps (uint wnF) (uint towMsF div 1000) nsF,
      tmk_risingValid = (flags AND 0x80 \<noteq> 0), tmk_fallingValid = (flags AND 0x04 \<noteq> 0),
      tmk_accuracy_ns = accEst, tmk_valid = (flags AND 0x40 \<noteq> 0),
      tmk_timeBase = drop_bit 3 (flags AND 0x18), tmk_utcAvailable = (flags AND 0x20 \<noteq> 0),
      tmk_flags = flags, tmk_evtCounter = count\<rparr>"

lemma UBXTimTM2_SomeE:
  assumes "UBXTimTM2 l msg = Some (l', tm)"
  obtains flags count wnR wnF towMsR towSubMsR towMsF towSubMsF accEst nsR nsF where
    "get msg 1 = Some flags" "get msg 8 = Some towMsR" "get msg 12 = Some towSubMsR"
    "get msg 16 = Some towMsF" "get msg 20 = Some towSubMsF"
    "get msg 4 = Some wnR" "get msg 6 = Some wnF"
    "sub_second_ns towMsR towSubMsR = Some nsR" "sub_second_ns towMsF towSubMsF = Some nsF"
    "recover_edges l (raw_timemark flags count wnR wnF towMsR nsR towMsF nsF accEst) =
       Some (l', tm)"
  using assms by (auto simp: UBXTimTM2_def bind_eq_Some_iff raw_timemark_def)

lemma exact_ns_normalised:
  assumes "n \<in> {exact_ns towMs towSubMs - 1, exact_ns towMs towSubMs}" and "0 \<le> n"
    and "towSubMs < 1000000"
  shows "normalised (unixtime_from_gps w s n)"
proof -
  have "uint towSubMs < 1000000" using assms(3) by (simp add: word_less_def)
  then have "exact_ns towMs towSubMs < 1000000000"
    using pos_mod_bound [of 1000 "uint towMs"] by (simp add: exact_ns_def)
  then show ?thesis using assms(1,2) by (auto simp: normalised_def unixtime_from_gps_def)
qed

lemma UBXTimTM2_pulse_length:
  "UBXTimTM2 l msg = Some (l', tm) \<Longrightarrow> pulse_length_ok l \<Longrightarrow> pulse_length_ok l'"
  by (elim UBXTimTM2_SomeE) (rule recover_edges_pulse_length)

lemma UBXTimTM2_missing_edge:
  assumes "UBXTimTM2 l msg = Some (l', tm)" and "pulse_length_ok l"
    and "tmk_risingValid tm \<noteq> tmk_fallingValid tm"
    and "get msg (if tmk_risingValid tm then 12 else 20) = Some (sub :: u32)"
  shows "l' = l \<and> instant_ns (tmk_falling tm) - instant_ns (tmk_rising tm) = l
    \<and> (sub < 1000000 \<longrightarrow> normalised (tmk_rising tm) \<and> normalised (tmk_falling tm))"
proof -
  from assms(1) obtain flags count wnR wnF towMsR towSubMsR towMsF towSubMsF accEst nsR nsF where
    d: "get msg 12 = Some towSubMsR" "get msg 20 = Some towSubMsF"
    "sub_second_ns towMsR towSubMsR = Some nsR" "sub_second_ns towMsF towSubMsF = Some nsF" and
    rec: "recover_edges l (raw_timemark flags count wnR wnF towMsR nsR towMsF nsF accEst) =
       Some (l', tm)"
    by (rule UBXTimTM2_SomeE) blast
  let ?tm = "raw_timemark flags count wnR wnF towMsR nsR towMsF nsF accEst"
  note k = recover_edges_keeps(1,2) [OF rec]
  have "sub < 1000000 \<longrightarrow> normalised (if tmk_risingValid ?tm then tmk_rising ?tm else tmk_falling ?tm)"
    using sub_second_ns_near [of towMsR towSubMsR] sub_second_ns_near [of towMsF towSubMsF] d assms(4) k(1)
    by (auto simp: raw_timemark_def intro!: exact_ns_normalised)
  with recover_edges_missing [OF rec assms(2)] k assms(3) show ?thesis by auto
qed

text \<open>With edges at most 15000 weeks apart the conversion to \<open>int64_t\<close> stays in range.\<close>

lemma to_int64_Some:
  assumes "\<bar>x\<bar> < 2 ^ 63" shows "\<exists>n. to_int64 x = Some n"
proof -
  from assms have "- of_int (2 ^ 63) < x" "x < of_int (2 ^ 63)" by (simp_all add: abs_less_iff)
  then have "- (2 ^ 63) \<le> trunc_rat x" "trunc_rat x < 2 ^ 63"
    by (simp_all add: trunc_rat_def le_floor_iff floor_less_iff le_ceiling_iff) 
  then show ?thesis by (simp add: to_int64_def Let_def)
qed

lemma recover_edges_total:
  assumes "\<bar>tv_sec (tmk_falling tm) - tv_sec (tmk_rising tm)\<bar> \<le> 9100000000"
  shows "\<exists>r. recover_edges l tm = Some r"
proof -
  let ?d = "tv_sec (tmk_falling tm) - tv_sec (tmk_rising tm)"
  let ?x = "of_int ?d * 1000000000 :: rat"
  have exact: "double (of_int ?d) = of_int ?d"
    unfolding double_def by (rule rnd_of_int) (use assms in simp)
  have "\<bar>of_int ?d :: rat\<bar> \<le> of_int 9100000000"
    using assms by (simp only: of_int_le_iff flip: of_int_abs)
  then have x: "\<bar>?x\<bar> \<le> 9100000000000000000" by (simp only: abs_mult) simp
  then have "\<bar>?x\<bar> < pow2 63" by (simp add: pow2_def)
  from rnd_error [OF this, of 53] have "\<bar>double ?x - ?x\<bar> \<le> 512"
    by (simp add: double_def pow2_def)
  with x have "\<bar>double ?x\<bar> < 9223372036854775808"
    unfolding abs_le_iff abs_less_iff by (elim conjE) (intro conjI; linarith)
  then have "\<bar>double ?x\<bar> < 2 ^ 63" by simp
  then obtain n where n: "to_int64 (double ?x) = Some n" using to_int64_Some by blast
  have "to_int64 (double (double (of_int ?d) * 1000000000)) = Some n" unfolding exact by (rule n)
  then show ?thesis by (simp add: recover_edges_def Let_def)
qed

lemma UBXTimTM2_total:
  assumes "28 \<le> length msg" and "get msg 4 = Some wnR" and "get msg 6 = Some wnF"
    and "\<bar>uint (wnR :: u16) - uint (wnF :: u16)\<bar> \<le> 15000"
  shows "\<exists>r. UBXTimTM2 l msg = Some r"
proof -
  have g8: "\<exists>v. (get msg k :: u8 option) = Some v" if "k < 28" for k
    using assms(1) that by (simp add: get_Some_iff)
  have g16: "\<exists>v. (get msg k :: u16 option) = Some v" if "k < 27" for k
    using assms(1) that by (simp add: get_Some_iff)
  have g32: "\<exists>v. (get msg k :: u32 option) = Some v" if "k < 25" for k
    using assms(1) that by (simp add: get_Some_iff)
  obtain ch flags count tR sR tF sF acc where
    g: "get msg 0 = Some (ch :: u8)" "get msg 1 = Some (flags :: u8)"
      "get msg 2 = Some (count :: u16)" "get msg 8 = Some (tR :: u32)" "get msg 12 = Some (sR :: u32)"
      "get msg 16 = Some (tF :: u32)" "get msg 20 = Some (sF :: u32)" "get msg 24 = Some (acc :: u32)"
    using g8 [of 0] g8 [of 1] g16 [of 2] g32 [of 8] g32 [of 12] g32 [of 16] g32 [of 20] g32 [of 24]
    by auto
  obtain nR nF where n: "sub_second_ns tR sR = Some nR" "sub_second_ns tF sF = Some nF"
    using sub_second_ns_near by blast
  let ?tm = "raw_timemark flags count wnR wnF tR nR tF nF acc"
  have "uint tR div 1000 \<le> 4294967" "uint tF div 1000 \<le> 4294967"
      "0 \<le> uint tR div 1000" "0 \<le> uint tF div 1000"
    using uint_bounded [of tR, simplified] uint_bounded [of tF, simplified]
    by (simp_all add: pos_imp_zdiv_nonneg_iff)
  then have "\<bar>tv_sec (tmk_falling ?tm) - tv_sec (tmk_rising ?tm)\<bar> \<le> 9100000000"
    using assms(4) by (simp add: raw_timemark_def unixtime_from_gps_def)
  from recover_edges_total [OF this] show ?thesis
    by (simp add: UBXTimTM2_def g g(2) [simplified] n assms(2,3) raw_timemark_def Let_def)
qed


section \<open>How exact a time mark is\<close>

definition gps_instant_ns :: "u16 \<Rightarrow> u32 \<Rightarrow> u32 \<Rightarrow> int" where
  "gps_instant_ns wn towMs towSubMs =
     (315964800 + uint wn * 604800) * 1000000000 + uint towMs * 1000000 + uint towSubMs"

lemma raw_edge_instant:
  assumes "sub_second_ns towMs towSubMs = Some ns"
  shows "instant_ns (unixtime_from_gps (uint wn) (uint towMs div 1000) ns)
    \<in> {gps_instant_ns wn towMs towSubMs - 1, gps_instant_ns wn towMs towSubMs}"
proof -
  obtain d r where dr: "uint towMs div 1000 = d" "uint towMs mod 1000 = r" by blast
  then have ms: "uint towMs = d * 1000 + r" by auto
  have "ns \<in> {exact_ns towMs towSubMs - 1, exact_ns towMs towSubMs}"
    using sub_second_ns_near [of towMs towSubMs] assms by auto
  then show ?thesis
    unfolding instant_ns_def unixtime_from_gps_def gps_instant_ns_def exact_ns_def dr
    unfolding ms by auto
qed

text \<open>
  C7: a valid edge of a decoded time mark is the GPS instant the message states, or one
  nanosecond less, never anything else.
\<close>

theorem timemark_edges_exact:
  assumes "UBXTimTM2 l msg = Some (l', tm)"
    and "get msg 4 = Some wnR" and "get msg 6 = Some wnF"
    and "get msg 8 = Some towMsR" and "get msg 12 = Some towSubMsR"
    and "get msg 16 = Some towMsF" and "get msg 20 = Some towSubMsF"
  shows "(tmk_risingValid tm \<longrightarrow> instant_ns (tmk_rising tm)
      \<in> {gps_instant_ns wnR towMsR towSubMsR - 1, gps_instant_ns wnR towMsR towSubMsR})
    \<and> (tmk_fallingValid tm \<longrightarrow> instant_ns (tmk_falling tm)
      \<in> {gps_instant_ns wnF towMsF towSubMsF - 1, gps_instant_ns wnF towMsF towSubMsF})"
proof -
  from assms(1) obtain flags count accEst nsR nsF where
    n: "sub_second_ns towMsR towSubMsR = Some nsR" "sub_second_ns towMsF towSubMsF = Some nsF" and
    rec: "recover_edges l (raw_timemark flags count wnR wnF towMsR nsR towMsF nsF accEst) =
       Some (l', tm)"
    by (rule UBXTimTM2_SomeE) (use assms(2-) in auto)
  from raw_edge_instant [OF n(1), of wnR] raw_edge_instant [OF n(2), of wnF]
    recover_edges_keeps [OF rec]
  show ?thesis by (auto simp: raw_timemark_def)
qed

text \<open>A time mark at 1.001 s into GPS week 0 with both edges valid, the falling one 500 ns later.\<close>

definition sample_tm2 :: "byte list" where
  "sample_tm2 = [0, 0xc4, 1, 0, 0, 0, 0, 0, 0xe9, 3, 0, 0, 0, 0, 0, 0,
                 0xe9, 3, 0, 0, 0xf4, 1, 0, 0, 10, 0, 0, 0]"

lemma sample_tm2_decoded:
  "(case UBXTimTM2 0 sample_tm2 of None \<Rightarrow> None
    | Some (l, tm) \<Rightarrow> Some (l, tmk_rising tm, tmk_falling tm, tmk_risingValid tm, tmk_fallingValid tm)) =
   Some (500, \<lparr>tv_sec = 315964801, tv_nsec = 999999\<rparr>, \<lparr>tv_sec = 315964801, tv_nsec = 1000499\<rparr>,
     True, True)"
  by code_simp

lemma sample_tm2_fields:
  "get sample_tm2 4 = Some (0 :: u16)" "get sample_tm2 6 = Some (0 :: u16)"
  "get sample_tm2 8 = Some (1001 :: u32)" "get sample_tm2 12 = Some (0 :: u32)"
  "get sample_tm2 16 = Some (1001 :: u32)" "get sample_tm2 20 = Some (500 :: u32)"
  by code_simp+

theorem timemark_edges_exact_witness:
  "\<exists>l tm. UBXTimTM2 0 sample_tm2 = Some (l, tm) \<and> instant_ns (tmk_rising tm)
      \<in> {gps_instant_ns 0 1001 0 - 1, gps_instant_ns 0 1001 0}"
proof -
  obtain l tm where d: "UBXTimTM2 0 sample_tm2 = Some (l, tm)" and v: "tmk_risingValid tm"
    using sample_tm2_decoded by (auto split: option.splits)
  show ?thesis
    using timemark_edges_exact [OF d sample_tm2_fields] d v by auto
qed

text \<open>
  the nanosecond really is lost. At 1001 ms into the week, a time mark whose rising edge is
  exactly on the millisecond is decoded one nanosecond early: the conversion to \<open>double\<close>
  rounds 1.001 down and the final conversion to an integer truncates.
\<close>

theorem timemark_loses_a_nanosecond:
  "\<exists>tm. UBXTimTM2 0 sample_tm2 = Some (500, tm) \<and> tmk_risingValid tm
     \<and> get sample_tm2 8 = Some (1001 :: u32) \<and> get sample_tm2 12 = Some (0 :: u32)
     \<and> instant_ns (tmk_rising tm) = gps_instant_ns 0 1001 0 - 1"
  using sample_tm2_decoded
  by (auto simp: sample_tm2_fields instant_ns_def gps_instant_ns_def split: option.splits)
end
