(* ===== verification/Ubx_Processor.thy ===== *)
theory Ubx_Processor
  imports Ubx_Version Ubx_Timemark
begin

text \<open>
  \<open>MessageProcessor::processMessage\<close>: the table \<open>handlerLookup\<close>, the acknowledgements, and
  messages without a handler. The outer \<open>None\<close> is undefined behaviour, the inner one the empty
  optional the code returns.
\<close>

type_synonym handler = "processor \<Rightarrow> byte list \<Rightarrow> (processor \<times> UbxEvent) option"

definition stateless :: "(byte list \<Rightarrow> 'a option) \<Rightarrow> ('a \<Rightarrow> UbxEvent) \<Rightarrow> handler" where
  "stateless f ev st msg = (case f msg of None \<Rightarrow> None | Some d \<Rightarrow> Some (st, ev d))"

definition handle_MonVer :: handler where
  "handle_MonVer st msg = (case UBXMonVer msg of None \<Rightarrow> None
     | Some d \<Rightarrow> Some (st\<lparr>mp_gpsVersion := Some d\<rparr>, EvGpsVersion d))"

definition handle_TimTM2 :: handler where
  "handle_TimTM2 st msg = (case UBXTimTM2 (mp_lastPulseLength st) msg of None \<Rightarrow> None
     | Some (l, tm) \<Rightarrow> Some (st\<lparr>mp_lastPulseLength := l\<rparr>, EvTimeMark tm))"

definition handlerLookup :: "(u16 \<times> handler) list" where
  "handlerLookup = [
     (NAV_STATUS, stateless UBXNavStatus EvNavStatus),
     (NAV_DOP, stateless UBXNavDOP EvDop),
     (NAV_TIMEGPS, stateless UBXNavTimeGPS EvNavTimeGPS),
     (NAV_TIMEUTC, stateless UBXNavTimeUTC EvNavTimeUTC),
     (NAV_CLOCK, stateless UBXNavClock EvNavClock),
     (NAV_SVINFO, stateless UBXNavSVinfo EvNavSat),
     (NAV_SAT, stateless UBXNavSat EvNavSat),
     (NAV_POSLLH, stateless UBXNavPosLLH EvGnssPos),
     (CFG_ANT, stateless UBXCfgAnt EvCfgAnt),
     (CFG_NAVX5, stateless UBXCfgNavX5 EvCfgNavX5),
     (CFG_NAV5, stateless UBXCfgNav5 EvCfgNav5),
     (CFG_TP5, stateless UBXCfgTP5 EvTimePulse),
     (CFG_GNSS, stateless UBXCfgGNSS EvCfgGNSS),
     (CFG_MSG, stateless UBXCfgMSG EvCfgMsg),
     (MON_RXBUF, stateless UBXMonRx EvMonRx),
     (MON_TXBUF, stateless UBXMonTx EvMonTx),
     (MON_HW, stateless UBXMonHW EvMonHw),
     (MON_HW2, stateless UBXMonHW2 EvMonHw2),
     (MON_VER, handle_MonVer),
     (TIM_TP, stateless UBXTimTP EvTimTP),
     (TIM_TM2, handle_TimTM2)]"

definition UBXAck :: "ubx_message \<Rightarrow> UbxEvent option" where
  "UBXAck msg =
     (case payload msg of
        b0 # b1 # _ \<Rightarrow>
          (let ackedMsgID = push_bit 8 (char_to_u16 b0) OR char_to_u16 b1
           in if message_id msg = 0x00
              then Some (EvAckNak \<lparr>nak_msgID = ackedMsgID, nak_payload = 0\<rparr>)
              else Some (EvAckAck \<lparr>ack_msgID = ackedMsgID\<rparr>))
      | _ \<Rightarrow> None)"

definition processMessage :: "processor \<Rightarrow> ubx_message \<Rightarrow> (processor \<times> UbxEvent option) option" where
  "processMessage st msg =
     (case map_of handlerLookup (full_id msg) of
        Some handle \<Rightarrow> (case handle st (payload msg) of None \<Rightarrow> None
                        | Some (st', ev) \<Rightarrow> Some (st', Some ev))
      | None \<Rightarrow> if class_id msg = 0x05 then Some (st, UBXAck msg) else Some (st, None))"

section \<open>How long a payload has to be\<close>

definition needed_length :: "(u16 \<times> nat) list" where
  "needed_length = [
     (NAV_STATUS, 16), (NAV_DOP, 18), (NAV_TIMEGPS, 16), (NAV_TIMEUTC, 19), (NAV_CLOCK, 20),
     (NAV_SVINFO, 8), (NAV_SAT, 8), (NAV_POSLLH, 28), (CFG_ANT, 4), (CFG_NAVX5, 32),
     (CFG_NAV5, 26), (CFG_TP5, 32), (CFG_GNSS, 4), (CFG_MSG, 4), (MON_RXBUF, 24),
     (MON_TXBUF, 26), (MON_HW, 46), (MON_HW2, 24), (MON_VER, 30), (TIM_TP, 15)]"

lemmas read_simps = get_def get_with_def get_big_def char_at_def Let_def s_default_target_def

lemma fixed_layout_defined:
  "(\<exists>d. UBXNavStatus msg = Some d) \<longleftrightarrow> 16 \<le> length msg"
  "(\<exists>d. UBXNavDOP msg = Some d) \<longleftrightarrow> 18 \<le> length msg"
  "(\<exists>d. UBXNavTimeGPS msg = Some d) \<longleftrightarrow> 16 \<le> length msg"
  "(\<exists>d. UBXNavTimeUTC msg = Some d) \<longleftrightarrow> 19 \<le> length msg"
  "(\<exists>d. UBXNavClock msg = Some d) \<longleftrightarrow> 20 \<le> length msg"
  "(\<exists>d. UBXNavPosLLH msg = Some d) \<longleftrightarrow> 28 \<le> length msg"
  "(\<exists>d. UBXCfgAnt msg = Some d) \<longleftrightarrow> 4 \<le> length msg"
  "(\<exists>d. UBXCfgNavX5 msg = Some d) \<longleftrightarrow> 32 \<le> length msg"
  "(\<exists>d. UBXCfgNav5 msg = Some d) \<longleftrightarrow> 26 \<le> length msg"
  "(\<exists>d. UBXCfgTP5 msg = Some d) \<longleftrightarrow> 32 \<le> length msg"
  "(\<exists>d. UBXCfgMSG msg = Some d) \<longleftrightarrow> 4 \<le> length msg"
  "(\<exists>d. UBXMonHW msg = Some d) \<longleftrightarrow> 46 \<le> length msg"
  "(\<exists>d. UBXMonHW2 msg = Some d) \<longleftrightarrow> 24 \<le> length msg"
  "(\<exists>d. UBXTimTP msg = Some d) \<longleftrightarrow> 15 \<le> length msg"
  by (auto simp: UBXNavStatus_def UBXNavDOP_def UBXNavTimeGPS_def UBXNavTimeUTC_def
      UBXNavClock_def UBXNavPosLLH_def UBXCfgAnt_def UBXCfgNavX5_def UBXCfgNav5_def UBXCfgTP5_def
      UBXCfgMSG_def UBXMonHW_def UBXMonHW2_def UBXTimTP_def bind_eq_Some_iff read_simps
      split: if_splits)

lemma for_blocks_defined:
  "(\<exists>xs. for_blocks f i n = Some xs) \<longleftrightarrow> (\<forall>j. i \<le> j \<longrightarrow> j < i + n \<longrightarrow> (\<exists>x. f j = Some x))"
proof (induction n arbitrary: i)
  case 0
  then show ?case by auto
next
  case (Suc n)
  have "(\<exists>xs. for_blocks f i (Suc n) = Some xs) \<longleftrightarrow>
      (\<exists>x. f i = Some x) \<and> (\<exists>xs. for_blocks f (Suc i) n = Some xs)"
    by (auto split: option.splits)
  also have "\<dots> \<longleftrightarrow> (\<forall>j. i \<le> j \<longrightarrow> j < i + Suc n \<longrightarrow> (\<exists>x. f j = Some x))"
    unfolding Suc.IH by (metis Suc_leD Suc_leI add_Suc_right add_Suc less_add_Suc1 le_eq_less_or_eq)
  finally show ?case .
qed

lemma n_blocks_eq:
  assumes "h \<le> length msg" and "length msg < 2 ^ 64"
  shows "n_blocks msg h b = (length msg - h) div b"
proof -
  have "unat (word_of_nat (length msg) :: u64) = length msg" "unat (word_of_nat h :: u64) = h"
    using assms by (simp_all add: unsigned_of_nat take_bit_nat_eq_self)
  then show ?thesis using assms(1) by (simp add: n_blocks_def unat_sub word_le_nat_alt)
qed

lemma n_blocks_fit:
  assumes "h \<le> length msg" and "0 < b" and "length msg < 2 ^ 64" and "j < n_blocks msg h b"
  shows "h + b * j + b \<le> length msg"
proof -
  have "Suc j \<le> (length msg - h) div b"
    using assms(4) by (simp add: n_blocks_eq [OF assms(1,3)])
  then have "Suc j * b \<le> length msg - h" by (simp add: less_eq_div_iff_mult_less_eq assms(2))
  with assms(1) show ?thesis by (simp add: algebra_simps)
qed

lemma n_blocks_wraps:
  assumes "length msg < h" and "h \<le> 8" and "0 < b" and "b \<le> 12"
  shows "0 < n_blocks msg h b"
proof -
  have "unat (word_of_nat (length msg) :: u64) = length msg" "unat (word_of_nat h :: u64) = h"
    using assms by (simp_all add: unsigned_of_nat take_bit_nat_eq_self)
  then have "unat (word_of_nat (length msg) - word_of_nat h :: u64) = 2 ^ 64 + length msg - h"
    using assms by (simp add: unat_sub_if')
  then show ?thesis using assms by (simp add: n_blocks_def div_greater_zero_iff)
qed

lemma blocks_defined:
  "(\<exists>d. svinfo_block msg i = Some d) \<longleftrightarrow> 8 + 12 * i + 12 \<le> length msg"
  "(\<exists>d. sat_block msg i = Some d) \<longleftrightarrow> 8 + 12 * i + 12 \<le> length msg"
  "(\<exists>d. gnss_block msg i = Some d) \<longleftrightarrow> 4 + 8 * i + 8 \<le> length msg"
  by (auto simp: svinfo_block_def sat_block_def gnss_block_def bind_eq_Some_iff read_simps
      split: if_splits)

lemma for_blocks_payload:
  assumes "\<And>i. (\<exists>d. f i = Some d) \<longleftrightarrow> h + b * i + b \<le> length msg"
    and "h \<le> 8" and "0 < b" and "b \<le> 12" and "length msg < 2 ^ 64"
  shows "(\<exists>xs. for_blocks f 0 (n_blocks msg h b) = Some xs) \<longleftrightarrow> h \<le> length msg"
proof (cases "h \<le> length msg")
  case True
  then show ?thesis
    using n_blocks_fit [OF True assms(3,5)] by (auto simp: for_blocks_defined assms(1))
next
  case False
  then have "0 < n_blocks msg h b" using n_blocks_wraps assms(2-4) by simp
  moreover have "\<not> (\<exists>d. f 0 = Some d)" unfolding assms(1) using False by simp
  ultimately show ?thesis using False by (auto simp: for_blocks_defined)
qed

lemma block_layout_defined:
  assumes "length msg < 2 ^ 64"
  shows "(\<exists>d. UBXNavSVinfo msg = Some d) \<longleftrightarrow> 8 \<le> length msg"
    and "(\<exists>d. UBXNavSat msg = Some d) \<longleftrightarrow> 8 \<le> length msg"
    and "(\<exists>d. UBXCfgGNSS msg = Some d) \<longleftrightarrow> 4 \<le> length msg"
  using for_blocks_payload [where f = "svinfo_block msg", OF blocks_defined(1)] 
    for_blocks_payload [where f = "sat_block msg", OF blocks_defined(2)] 
    for_blocks_payload [where f = "gnss_block msg", OF blocks_defined(3)] assms
  by (auto simp: UBXNavSVinfo_def UBXNavSat_def UBXCfgGNSS_def bind_eq_Some_iff read_simps
      split: if_splits)

lemma read_cstr_defined: "(\<exists>s. read_cstr msg i stop = Some s) \<longleftrightarrow> i \<le> length msg"
proof (induction msg i stop rule: read_cstr.induct)
  case (1 msg i stop)
  show ?case
  proof (cases "i < length msg \<and> msg ! i \<noteq> 0 \<and> i < stop")
    case True
    then have "char_at msg i = Some (msg ! i)" by (simp add: char_at_def)
    with True 1 show ?thesis
      by (auto simp: read_cstr.simps [of msg i stop] Suc_le_eq split: option.splits)
  next
    case False
    then show ?thesis by (auto simp: read_cstr.simps [of msg i stop] char_at_def split: if_splits)
  qed
qed

lemma buffers_defined:
  "(\<exists>rows. for_blocks (\<lambda>target. do {
         pending \<leftarrow> (get msg (2 * target) :: u16 option); usage \<leftarrow> (get msg (target + 12) :: u8 option);
         peakUsage \<leftarrow> (get msg (target + 18) :: u8 option);
         Some (pending, usage, peakUsage) }) 0 s_nr_targets = Some rows) \<longleftrightarrow> 24 \<le> length msg"
  (is "?L \<longleftrightarrow> _")
proof -
  have "?L \<longleftrightarrow> (\<forall>j<6. 2 * j + 2 \<le> length msg \<and> 13 + j \<le> length msg \<and> 19 + j \<le> length msg)"
    by (auto simp: bind_eq_Some_iff read_simps for_blocks_defined s_nr_targets_def)
  also have "\<dots> \<longleftrightarrow> 24 \<le> length msg"
  proof
    assume a: "\<forall>j<6. 2 * j + 2 \<le> length msg \<and> 13 + j \<le> length msg \<and> 19 + j \<le> length msg"
    show "24 \<le> length msg" using a [rule_format, of 5] by simp
  qed auto
  finally show ?thesis .
qed

lemma mon_defined:
  "(\<exists>d. UBXMonRx msg = Some d) \<longleftrightarrow> 24 \<le> length msg"
  "(\<exists>d. UBXMonTx msg = Some d) \<longleftrightarrow> 26 \<le> length msg"
  "(\<exists>d. UBXMonVer msg = Some d) \<longleftrightarrow> 30 \<le> length msg"
proof -
  show "(\<exists>d. UBXMonRx msg = Some d) \<longleftrightarrow> 24 \<le> length msg"
    using buffers_defined [of msg] by (auto simp: UBXMonRx_def bind_eq_Some_iff)
  have "(\<exists>v. (get msg 24 :: u8 option) = Some v) \<and> (\<exists>v. (get msg 25 :: u8 option) = Some v)
      \<longleftrightarrow> 26 \<le> length msg"
    by (auto simp: get_Some_iff)
  then show "(\<exists>d. UBXMonTx msg = Some d) \<longleftrightarrow> 26 \<le> length msg"
    using buffers_defined [of msg] by (auto simp: UBXMonTx_def bind_eq_Some_iff)
  show "(\<exists>d. UBXMonVer msg = Some d) \<longleftrightarrow> 30 \<le> length msg"
    using read_cstr_defined [of msg 0 30] read_cstr_defined [of msg 30 40]
    by (auto simp: UBXMonVer_def bind_eq_Some_iff)
qed

lemma stateless_None: "stateless f ev st msg = None \<longleftrightarrow> \<not> (\<exists>d. f msg = Some d)"
  by (auto simp: stateless_def split: option.splits)

lemma handle_MonVer_None: "handle_MonVer st msg = None \<longleftrightarrow> \<not> (\<exists>d. UBXMonVer msg = Some d)"
  by (auto simp: handle_MonVer_def split: option.splits)

lemmas handlers_defined = stateless_None handle_MonVer_None fixed_layout_defined
  block_layout_defined mon_defined

lemma handler_None:
  assumes "map_of needed_length i = Some n" and "length msg < 2 ^ 64"
  shows "\<exists>h. map_of handlerLookup i = Some h \<and> (h st msg = None \<longleftrightarrow> length msg < n)"
  using assms
  by (auto simp: needed_length_def handlerLookup_def handlers_defined msg_id_simps not_le
      simp del: not_None_eq split: if_splits)

lemma processMessage_None:
  "map_of handlerLookup (full_id m) = Some h \<Longrightarrow>
    processMessage st m = None \<longleftrightarrow> h st (payload m) = None"
  by (auto simp: processMessage_def split: option.splits)

text \<open>
  C5: for every message the processor decodes, other than TIM-TM2, decoding stays inside the
  payload exactly when the payload has at least the number of octets listed for the message in
  \<open>needed_length\<close>: no decoder checks the length, so a shorter payload, with a valid checksum,
  is read past its end.
\<close>

theorem processMessage_reads_inside:
  assumes "map_of needed_length (full_id m) = Some n" and "length (payload m) < 2 ^ 64"
  shows "processMessage st m = None \<longleftrightarrow> length (payload m) < n"
  using handler_None [OF assms, of st] by (auto simp: processMessage_None)

theorem processMessage_reads_inside_witness:
  "processMessage processor_init \<lparr>m_full_id = NAV_STATUS, m_payload = replicate 15 0\<rparr> = None"
  using processMessage_reads_inside
    [of "\<lparr>m_full_id = NAV_STATUS, m_payload = replicate 15 0\<rparr>" 16 processor_init]
  by (simp add: needed_length_def full_id_def payload_def)

text \<open>The pulse length stays within \<open>pulse_length_ok\<close> whatever messages are processed.\<close>

definition processor_inv :: "processor \<Rightarrow> bool" where
  "processor_inv st \<longleftrightarrow> pulse_length_ok (mp_lastPulseLength st)"

fun process_all :: "processor \<Rightarrow> ubx_message list \<Rightarrow> (processor \<times> UbxEvent option list) option" where
  "process_all st [] = Some (st, [])"
| "process_all st (m # ms) =
     (case processMessage st m of None \<Rightarrow> None
      | Some (st', e) \<Rightarrow> (case process_all st' ms of None \<Rightarrow> None
                         | Some (st'', es) \<Rightarrow> Some (st'', e # es)))"

lemma stateless_keeps: "stateless f ev st msg = Some (st', e) \<Longrightarrow> st' = st"
  by (simp add: stateless_def split: option.splits)

lemma handler_keeps_inv:
  assumes "map_of handlerLookup i = Some h" and "h st msg = Some (st', e)" and "processor_inv st"
  shows "processor_inv st'"
  using assms
  by (auto simp: handlerLookup_def handle_MonVer_def handle_TimTM2_def processor_inv_def
      dest!: stateless_keeps intro: UBXTimTM2_pulse_length split: if_splits option.splits)

lemma processMessage_keeps_inv:
  "processMessage st m = Some (st', e) \<Longrightarrow> processor_inv st \<Longrightarrow> processor_inv st'"
  by (auto simp: processMessage_def dest: handler_keeps_inv split: option.splits if_splits)

lemma process_all_keeps_inv:
  "process_all st ms = Some (st', es) \<Longrightarrow> processor_inv st \<Longrightarrow> processor_inv st'"
proof (induction ms arbitrary: st es)
  case (Cons m ms)
  then show ?case by (fastforce dest: processMessage_keeps_inv split: option.splits)
qed simp

lemma processor_init_inv: "processor_inv processor_init"
  by (simp add: processor_inv_def processor_init_def pulse_length_ok_def)

lemma process_TM2:
  assumes "processMessage st m = Some (st', e)" and "full_id m = TIM_TM2"
  obtains l tm where "UBXTimTM2 (mp_lastPulseLength st) (payload m) = Some (l, tm)"
    "e = Some (EvTimeMark tm)" "mp_lastPulseLength st' = l"
  using assms
  by (auto simp: processMessage_def handlerLookup_def handle_TimTM2_def msg_id_simps
      split: option.splits)

text \<open>
  C6: whatever messages were processed before, a time mark of which only one edge is valid is
  completed from the last measured pulse: the pulse it describes lasts exactly the remembered
  pulse length, which is below one millisecond. Where the part of the valid edge below one millisecond is below
  10^6 ns, as the receiver's protocol says it is, both edges have normalised nanoseconds; the code does not
  check it.
\<close>

theorem timemark_recovers_missing_edge:
  assumes "process_all processor_init ms = Some (st, es)"
    and "processMessage st m = Some (st', Some (EvTimeMark tm))" and "full_id m = TIM_TM2"
    and "tmk_risingValid tm \<noteq> tmk_fallingValid tm"
    and "get (payload m) (if tmk_risingValid tm then 12 else 20) = Some (sub :: u32)"
  shows "instant_ns (tmk_falling tm) - instant_ns (tmk_rising tm) = mp_lastPulseLength st
    \<and> 0 \<le> mp_lastPulseLength st \<and> mp_lastPulseLength st < 1000000
    \<and> (sub < 1000000 \<longrightarrow> normalised (tmk_rising tm) \<and> normalised (tmk_falling tm))
    \<and> mp_lastPulseLength st' = mp_lastPulseLength st"
proof -
  from process_TM2 [OF assms(2,3)] have
    tm: "UBXTimTM2 (mp_lastPulseLength st) (payload m) = Some (mp_lastPulseLength st', tm)" by auto
  have "pulse_length_ok (mp_lastPulseLength st)"
    using process_all_keeps_inv [OF assms(1) processor_init_inv] by (simp add: processor_inv_def)
  with UBXTimTM2_missing_edge [OF tm this assms(4,5)] show ?thesis
    by (simp add: pulse_length_ok_def)
qed

text \<open>The same pulse with only its rising edge valid.\<close>

definition rising_only_tm2 :: "byte list" where
  "rising_only_tm2 = [0, 0xc0, 2, 0, 0, 0, 0, 0, 0xe9, 3, 0, 0, 0, 0, 0, 0,
                      0xe9, 3, 0, 0, 0, 0, 0, 0, 10, 0, 0, 0]"

lemma rising_only_decoded:
  "(case UBXTimTM2 500 rising_only_tm2 of None \<Rightarrow> None
    | Some (l, tm) \<Rightarrow> Some (l, tmk_risingValid tm, tmk_fallingValid tm)) = Some (500, True, False)"
  by code_simp

lemma rising_only_fields:
  "get rising_only_tm2 12 = Some (0 :: u32)" "get rising_only_tm2 20 = Some (0 :: u32)"
  by code_simp+

lemma processMessage_TM2:
  "processMessage st \<lparr>m_full_id = TIM_TM2, m_payload = p\<rparr> =
     (case UBXTimTM2 (mp_lastPulseLength st) p of None \<Rightarrow> None
      | Some (l, tm) \<Rightarrow> Some (st\<lparr>mp_lastPulseLength := l\<rparr>, Some (EvTimeMark tm)))"
  by (simp add: processMessage_def full_id_def payload_def handlerLookup_def handle_TimTM2_def
      msg_id_simps split: option.splits)

theorem timemark_recovers_missing_edge_witness:
  "\<exists>st es st' tm. process_all processor_init [\<lparr>m_full_id = TIM_TM2, m_payload = sample_tm2\<rparr>] = Some (st, es)
     \<and> processMessage st \<lparr>m_full_id = TIM_TM2, m_payload = rising_only_tm2\<rparr> =
         Some (st', Some (EvTimeMark tm))
     \<and> instant_ns (tmk_falling tm) - instant_ns (tmk_rising tm) = 500"
proof -
  obtain tm1 where 1: "UBXTimTM2 0 sample_tm2 = Some (500, tm1)"
    using sample_tm2_decoded by (auto split: option.splits)
  obtain tm where 2: "UBXTimTM2 500 rising_only_tm2 = Some (500, tm)"
      and v: "tmk_risingValid tm" "\<not> tmk_fallingValid tm"
    using rising_only_decoded by (auto split: option.splits)
  let ?st = "processor_init\<lparr>mp_lastPulseLength := 500\<rparr>"
  have a: "process_all processor_init [\<lparr>m_full_id = TIM_TM2, m_payload = sample_tm2\<rparr>] =
      Some (?st, [Some (EvTimeMark tm1)])"
    by (simp add: processMessage_TM2 processor_init_def 1)
  have b: "processMessage ?st \<lparr>m_full_id = TIM_TM2, m_payload = rising_only_tm2\<rparr> =
      Some (?st, Some (EvTimeMark tm))"
    by (simp add: processMessage_TM2 2)
  from timemark_recovers_missing_edge [OF a b, of 0] rising_only_fields v a b
  show ?thesis by (auto simp: full_id_def payload_def)
qed
end
