(* ===== verification/Serial_Ublox.thy ===== *)
theory Serial_Ublox
  imports Ubx_Parser Ubx_Processor
begin

text \<open>
  \<open>SerialUblox\<close> (daemon/src/hardware/ublox/serialublox.h and .cpp): the connection to the GNSS
  receiver. It starts up through a handshake (protocol selection, rate selection, then the default
  configuration), builds the configuration messages, sends them through a transmit queue, tracks
  the acknowledgements it expects and delays version-dependent commands until the receiver's
  protocol version is known.

  The bus is asynchronous (\<open>EventBus::publish\<close> hands the event to a thread pool), so a published
  event only appends to \<open>sx_published\<close>; the subscriptions post to the protocol strand, whose tasks
  \<open>sx_tasks\<close> run in order. Logging and the pauses of \<open>processQueuedCmds\<close> are not modelled, nor
  \<open>last_send\<close> and \<open>pending_cfg_msg_\<close>, which nothing reads.
\<close>

section \<open>Commands\<close>

definition RESET_WARM :: u32 where "RESET_WARM = 0x00010000"
definition RESET_COLD :: u32 where "RESET_COLD = 0xFFFF0000"
definition RESET_SW :: u32 where "RESET_SW = 0x00000001"
definition DEV_BBR :: u8 where "DEV_BBR = 0x01"
definition DEV_FLASH :: u8 where "DEV_FLASH = 0x02"

datatype version_cmd = RateCmd u16 u8 u8 | GnssCmd "GnssConfigStruct list"

record version_entry =
  ve_min :: UbxProtVersion
  ve_max :: UbxProtVersion
  ve_cmd :: version_cmd

definition applies :: "version_entry \<Rightarrow> UbxProtVersion \<Rightarrow> bool" where
  "applies e v \<longleftrightarrow> \<not> version_less v (ve_min e) \<and> \<not> version_less (ve_max e) v"

datatype sx_cmd =
    DynamicModelCmd u8
  | GnssConfigCmd "GnssConfigStruct list"
  | MinCnoCmd u8
  | MinMaxSvCmd u8 u8
  | MsgPollCmd u16
  | MsgPollRateCmd u16
  | ResetCmd u32
  | SaveCmd u32
  | SetAopCmd bool u16
  | VersionDependentCmd "version_entry list"
  | Tp5Cmd UbxTimePulseStruct
  | ConfigDefaultCmd
  | GpsVersionEv GpsVersion
  | AckAckEv u16
  | AckNakEv u16

text \<open>A task of the protocol strand: a delivered event, or what an acknowledgement posts.\<close>

datatype sx_task = Deliver sx_cmd | AckAckBody u16 | AckNakBody u16

datatype bus_event = PubCmd sx_cmd | PubStore UbxEvent

datatype sx_error = Runtime_error | Bad_optional_access | Undefined

datatype init_state = Connecting | ReceivedProtoAck | ReceivedRateAck | Ready

text \<open>
  \<open>sx_timer\<close> counts the waits on \<open>timer_\<close> whose handler has still to run: the handler ignores its
  error code, so a wait that is cancelled by a later one calls \<open>makeConnection\<close> too.
  \<open>sx_writing\<close> are the frames of the calls of \<open>async_write\<close> that have not completed, \<open>sx_wire\<close> those that have.
  \<open>sx_rate_order\<close> is the order in which the unordered map \<open>defaultRates\<close> is iterated.
\<close>

record sx =
  sx_uart_port :: u8
  sx_outProtocolMask :: u8
  sx_measRate :: u16
  sx_navRate :: u16
  sx_baud :: u32
  sx_model :: u8
  sx_rate_order :: "(u16 \<times> u8 \<times> u8) list"
  sx_pending :: "ubx_message list"
  sx_init_state :: init_state
  sx_timer :: nat
  sx_reading :: bool
  sx_tasks :: "sx_task list"
  sx_tx_tasks :: "byte list list"
  sx_tx_queue :: "byte list list"
  sx_writing :: "byte list list"
  sx_wire :: "byte list list"
  sx_parser :: ubx_parser
  sx_processor :: processor
  sx_protocolVersion :: "GpsVersion option"
  sx_queuedCmds :: "version_entry list list"
  sx_published :: "bus_event list"

definition sx_constructed :: "u32 \<Rightarrow> u8 \<Rightarrow> (u16 \<times> u8 \<times> u8) list \<Rightarrow> sx" where
  "sx_constructed baud model order =
     \<lparr>sx_uart_port = 1, sx_outProtocolMask = 1, sx_measRate = 100, sx_navRate = 1,
      sx_baud = baud, sx_model = model, sx_rate_order = order, sx_pending = [],
      sx_init_state = Connecting, sx_timer = 0, sx_reading = False, sx_tasks = [],
      sx_tx_tasks = [], sx_tx_queue = [], sx_writing = [], sx_wire = [],
      sx_parser = ubx_init, sx_processor = processor_init, sx_protocolVersion = None,
      sx_queuedCmds = [], sx_published = []\<rparr>"

definition publish :: "bus_event \<Rightarrow> sx \<Rightarrow> sx" where
  "publish ev s = s\<lparr>sx_published := sx_published s @ [ev]\<rparr>"

definition retryLater :: "sx \<Rightarrow> sx" where
  "retryLater s = s\<lparr>sx_timer := sx_timer s + 1\<rparr>"

section \<open>Sending\<close>

definition send :: "ubx_message \<Rightarrow> bool \<Rightarrow> sx \<Rightarrow> sx" where
  "send msg trackAck s =
     (let s = (if trackAck then s\<lparr>sx_pending := sx_pending s @ [msg]\<rparr> else s)
      in s\<lparr>sx_tx_tasks := sx_tx_tasks s @ [raw_message_string msg]\<rparr>)"

definition is_allowed :: "init_state \<Rightarrow> ubx_message \<Rightarrow> bool" where
  "is_allowed st msg \<longleftrightarrow> st = Ready \<or> (st = Connecting \<and> full_id msg = CFG_PRT)
     \<or> (st = ReceivedProtoAck \<and> full_id msg = CFG_RATE)"

definition enqueueMessage :: "ubx_message \<Rightarrow> bool \<Rightarrow> sx \<Rightarrow> sx" where
  "enqueueMessage msg trackAck s =
     (if is_allowed (sx_init_state s) msg then send msg trackAck s else retryLater s)"

text \<open>The task posted by \<open>send\<close>, with \<open>do_write\<close>, and the completion handler of the write.\<close>

definition do_write :: "sx \<Rightarrow> sx" where
  "do_write s = s\<lparr>sx_writing := sx_writing s @ [hd (sx_tx_queue s)]\<rparr>"

definition tx_post :: "byte list \<Rightarrow> sx \<Rightarrow> sx" where
  "tx_post data s =
     (let write_in_progress = sx_tx_queue s \<noteq> [];
          s = s\<lparr>sx_tx_queue := sx_tx_queue s @ [data]\<rparr>
      in if \<not> write_in_progress then do_write s else s)"

definition write_handler :: "bool \<Rightarrow> sx \<Rightarrow> sx" where
  "write_handler ec s =
     (let frame = hd (sx_writing s); s = s\<lparr>sx_writing := tl (sx_writing s)\<rparr>
      in if ec then s
         else (let s = s\<lparr>sx_wire := sx_wire s @ [frame],
                         sx_tx_queue := tl (sx_tx_queue s)\<rparr>
               in if sx_tx_queue s \<noteq> [] then do_write s else s))"

section \<open>Messages built from the configuration\<close>

definition zeros :: "nat \<Rightarrow> byte list" where
  "zeros n = replicate n 0"

definition protSelCmd :: "sx \<Rightarrow> ubx_message" where
  "protSelCmd s =
     \<lparr>m_full_id = CFG_PRT,
      m_payload =
        (if sx_uart_port s = 1
         then (zeros 20)[0 := sx_uart_port s, 4 := 0xc0, 5 := 0x08,
                8 := ucast (sx_baud s AND 0xff), 9 := ucast (drop_bit 8 (sx_baud s) AND 0xff),
                10 := ucast (drop_bit 16 (sx_baud s) AND 0xff), 11 := 0,
                12 := 0x27, 13 := 0, 14 := sx_outProtocolMask s]
         else zeros 20)\<rparr>"

definition rateSelCmd :: "sx \<Rightarrow> sx_error + ubx_message" where
  "rateSelCmd s =
     (if sx_measRate s < 10 \<or> sx_navRate s < 1 \<or> sx_navRate s > 127 then Inl Runtime_error
      else Inr \<lparr>m_full_id = CFG_RATE,
                m_payload = [ucast (sx_measRate s AND 0xff), ucast (drop_bit 8 (sx_measRate s) AND 0xff),
                             ucast (sx_navRate s AND 0xff), ucast (drop_bit 8 (sx_navRate s) AND 0xff),
                             0, 0]\<rparr>)"

section \<open>Commands that build a message\<close>

definition msg_id_octets :: "u16 \<Rightarrow> byte list" where
  "msg_id_octets i = [ucast (drop_bit 8 i AND 0xff), ucast (i AND 0xff)]"

text \<open>\<open>data[2 + cmd.port]\<close> of an array of eight octets.\<close>

definition rate_payload :: "u16 \<Rightarrow> u8 \<Rightarrow> u8 \<Rightarrow> byte list option" where
  "rate_payload i port rate =
     (let data = msg_id_octets i @ zeros 6
      in if port \<noteq> 6
         then (if 2 + unat port < 8 then Some (data[2 + unat port := rate]) else None)
         else Some (data[2 := rate, 3 := rate, 4 := rate, 5 := rate]))"

definition handle_MsgRate :: "u16 \<Rightarrow> u8 \<Rightarrow> u8 \<Rightarrow> sx \<Rightarrow> sx_error + sx" where
  "handle_MsgRate i port rate s =
     (case rate_payload i port rate of None \<Rightarrow> Inl Undefined
      | Some data \<Rightarrow>
          Inr (publish (PubCmd (MsgPollRateCmd i))
                 (enqueueMessage \<lparr>m_full_id = CFG_MSG, m_payload = data\<rparr> True s)))"

definition handle_MsgPoll :: "u16 \<Rightarrow> sx \<Rightarrow> sx" where
  "handle_MsgPoll i s =
     (if i = 0 then s
      else if i = CFG_PRT then enqueueMessage \<lparr>m_full_id = i, m_payload = [1]\<rparr> True s
      else if i = MON_VER then enqueueMessage \<lparr>m_full_id = i, m_payload = []\<rparr> False s
      else if i = CFG_TP5 then enqueueMessage \<lparr>m_full_id = i, m_payload = [0]\<rparr> True s
      else enqueueMessage \<lparr>m_full_id = i, m_payload = []\<rparr> (i \<in> set idsExpectedAck) s)"

definition handle_MsgPollRate :: "u16 \<Rightarrow> sx \<Rightarrow> sx" where
  "handle_MsgPollRate i s =
     enqueueMessage \<lparr>m_full_id = CFG_MSG, m_payload = msg_id_octets i\<rparr> True s"

definition aop_payload :: "bool \<Rightarrow> u16 \<Rightarrow> byte list" where
  "aop_payload enable maxOrbErr =
     (zeros 40)[3 := 0x40, 27 := of_bool enable, 30 := ucast (maxOrbErr AND 0xff),
                31 := ucast (drop_bit 8 maxOrbErr AND 0xff)]"

definition handle_SetAop :: "bool \<Rightarrow> u16 \<Rightarrow> sx \<Rightarrow> sx" where
  "handle_SetAop enable maxOrbErr s =
     publish (PubCmd (MsgPollCmd CFG_NAVX5))
       (enqueueMessage \<lparr>m_full_id = CFG_NAVX5, m_payload = aop_payload enable maxOrbErr\<rparr> True s)"

definition minmax_payload :: "u8 \<Rightarrow> u8 \<Rightarrow> byte list" where
  "minmax_payload minSVs maxSVs = (zeros 40)[2 := 0x04, 10 := minSVs, 11 := maxSVs]"

definition handle_MinMaxSv :: "u8 \<Rightarrow> u8 \<Rightarrow> sx \<Rightarrow> sx" where
  "handle_MinMaxSv minSVs maxSVs s =
     publish (PubCmd (MsgPollCmd CFG_NAVX5))
       (enqueueMessage \<lparr>m_full_id = CFG_NAVX5, m_payload = minmax_payload minSVs maxSVs\<rparr> True s)"

definition mincno_payload :: "u8 \<Rightarrow> byte list" where
  "mincno_payload minCNO = (zeros 40)[2 := 0x08, 12 := minCNO]"

definition handle_MinCno :: "u8 \<Rightarrow> sx \<Rightarrow> sx" where
  "handle_MinCno minCNO s =
     publish (PubCmd (MsgPollCmd CFG_NAVX5))
       (enqueueMessage \<lparr>m_full_id = CFG_NAVX5, m_payload = mincno_payload minCNO\<rparr> True s)"

definition save_payload :: "u32 \<Rightarrow> byte list" where
  "save_payload devMask =
     (let sectionMask = (0x01 OR 0x02 OR 0x08 OR 0x10 OR 0x400 :: u32)
      in (zeros 13)[4 := ucast (sectionMask AND 0xff), 5 := ucast (drop_bit 8 sectionMask AND 0xff),
           6 := ucast (drop_bit 16 sectionMask AND 0xff), 7 := ucast (drop_bit 24 sectionMask AND 0xff),
           12 := ucast devMask])"

definition handle_Save :: "u32 \<Rightarrow> sx \<Rightarrow> sx" where
  "handle_Save devMask s =
     enqueueMessage \<lparr>m_full_id = CFG_CFG, m_payload = save_payload devMask\<rparr> True s"

definition reset_payload :: "u32 \<Rightarrow> byte list" where
  "reset_payload resetFlags =
     (let navBbrMask = (ucast (drop_bit 16 resetFlags AND 0xffff) :: u16);
          resetMode = (ucast (resetFlags AND 0xff) :: u8)
      in [ucast (navBbrMask AND 0xff), ucast (drop_bit 8 navBbrMask AND 0xff), resetMode, 0])"

definition handle_Reset :: "u32 \<Rightarrow> sx \<Rightarrow> sx" where
  "handle_Reset resetFlags s =
     enqueueMessage \<lparr>m_full_id = CFG_RST, m_payload = reset_payload resetFlags\<rparr> True s"

definition dynmodel_payload :: "u8 \<Rightarrow> byte list" where
  "dynmodel_payload model = (zeros 36)[0 := 0x01, 1 := 0x00, 2 := model]"

definition handle_DynamicModel :: "u8 \<Rightarrow> sx \<Rightarrow> sx" where
  "handle_DynamicModel model s =
     publish (PubCmd (MsgPollCmd CFG_NAV5))
       (enqueueMessage \<lparr>m_full_id = CFG_NAV5, m_payload = dynmodel_payload model\<rparr> True s)"

definition tp5_payload :: "UbxTimePulseStruct \<Rightarrow> byte list option" where
  "tp5_payload tp = do {
     buf \<leftarrow> put 0 (tp_tpIndex tp) (zeros 32);
     buf \<leftarrow> put 1 (0 :: u8) buf;
     buf \<leftarrow> put 4 (ucast (tp_antCableDelay tp) :: u16) buf;
     buf \<leftarrow> put 6 (ucast (tp_rfGroupDelay tp) :: u16) buf;
     buf \<leftarrow> put 8 (tp_freqPeriod tp) buf;
     buf \<leftarrow> put 12 (tp_freqPeriodLock tp) buf;
     buf \<leftarrow> put 16 (tp_pulseLenRatio tp) buf;
     buf \<leftarrow> put 20 (tp_pulseLenRatioLock tp) buf;
     buf \<leftarrow> put 24 (ucast (tp_userConfigDelay tp) :: u32) buf;
     put 28 (tp_flags tp) buf }"

definition handle_Tp5 :: "UbxTimePulseStruct \<Rightarrow> sx \<Rightarrow> sx_error + sx" where
  "handle_Tp5 tp s =
     (case tp5_payload tp of None \<Rightarrow> Inl Undefined
      | Some buf \<Rightarrow>
          Inr (publish (PubCmd (MsgPollCmd CFG_TP5))
                 (enqueueMessage \<lparr>m_full_id = CFG_TP5, m_payload = buf\<rparr> True s)))"

section \<open>Version-dependent commands\<close>

definition gnss_flags :: "UbxProtVersion \<Rightarrow> GnssConfigStruct \<Rightarrow> u32" where
  "gnss_flags version cfg =
     (if major version \<ge> 15
      then (let flags = gc_flags cfg OR push_bit 16 0x0001
            in if gc_gnssId cfg = 5 then flags OR push_bit 16 0x0004 else flags)
      else gc_flags cfg)"

definition gnss_config_block :: "UbxProtVersion \<Rightarrow> GnssConfigStruct \<Rightarrow> byte list" where
  "gnss_config_block version cfg =
     (let flags = gnss_flags version cfg
      in [gc_gnssId cfg, gc_resTrkCh cfg, gc_maxTrkCh cfg, 0,
          ucast (flags AND 0xff), ucast (drop_bit 8 flags AND 0xff),
          ucast (drop_bit 16 flags AND 0xff), ucast (drop_bit 24 flags AND 0xff)])"

text \<open>\<open>version.value()\<close> is only evaluated inside the loop, and throws when it has no value.\<close>

definition gnss_payload :: "UbxProtVersion option \<Rightarrow> GnssConfigStruct list \<Rightarrow> sx_error + byte list" where
  "gnss_payload version cfgs =
     (case version of
        Some v \<Rightarrow> Inr ([0, 0, 0xff, word_of_nat (length cfgs)] @ concat (map (gnss_config_block v) cfgs))
      | None \<Rightarrow> if cfgs = [] then Inr [0, 0, 0xff, 0] else Inl Bad_optional_access)"

text \<open>
  \<open>processQueuedCmds\<close> and \<open>handle(UbxGnssConfigCmd)\<close> call each other, but never deeper than once:
  without a version the former only publishes a poll (\<open>poll_version\<close>), and with one the latter
  sends its message.
\<close>

definition poll_version :: "sx \<Rightarrow> sx" where
  "poll_version = publish (PubCmd (MsgPollCmd MON_VER))"

definition handle_GnssConfig :: "GnssConfigStruct list \<Rightarrow> sx \<Rightarrow> sx_error + sx" where
  "handle_GnssConfig cfgs s =
     (case sx_protocolVersion s of
        None \<Rightarrow> Inr (poll_version (s\<lparr>sx_queuedCmds := sx_queuedCmds s @
                  [[\<lparr>ve_min = \<lparr>major = 0, minor = 1\<rparr>, ve_max = \<lparr>major = 99, minor = 0\<rparr>,
                     ve_cmd = GnssCmd cfgs\<rparr>]]\<rparr>))
      | Some gv \<Rightarrow>
          (case gnss_payload (getProtVersion (gv_prot gv)) cfgs of
             Inl e \<Rightarrow> Inl e
           | Inr data \<Rightarrow>
               Inr (publish (PubCmd (MsgPollCmd CFG_GNSS))
                      (enqueueMessage \<lparr>m_full_id = CFG_GNSS, m_payload = data\<rparr> True s))))"

definition handle_version_cmd :: "version_cmd \<Rightarrow> sx \<Rightarrow> sx_error + sx" where
  "handle_version_cmd c s = (case c of RateCmd i port rate \<Rightarrow> handle_MsgRate i port rate s
     | GnssCmd cfgs \<Rightarrow> handle_GnssConfig cfgs s)"

text \<open>\<open>for (x : xs) f(x)\<close>, left at the first exception.\<close>

fun for_each :: "('a \<Rightarrow> 's \<Rightarrow> 'e + 's) \<Rightarrow> 'a list \<Rightarrow> 's \<Rightarrow> 'e + 's" where
  "for_each f [] s = Inr s"
| "for_each f (x # xs) s = (case f x s of Inl e \<Rightarrow> Inl e | Inr s' \<Rightarrow> for_each f xs s')"

definition run_entries :: "UbxProtVersion \<Rightarrow> version_entry list \<Rightarrow> sx \<Rightarrow> sx_error + sx" where
  "run_entries v = for_each (\<lambda>e s. if applies e v then handle_version_cmd (ve_cmd e) s else Inr s)"

text \<open>The commands handled in the loop do not add to the queue, since the version is known.\<close>

definition processQueuedCmds :: "sx \<Rightarrow> sx_error + sx" where
  "processQueuedCmds s =
     (case sx_protocolVersion s of
        None \<Rightarrow> Inr (poll_version s)
      | Some gv \<Rightarrow>
          (case getProtVersion (gv_prot gv) of
             None \<Rightarrow> Inr s
           | Some v \<Rightarrow> for_each (\<lambda>config s. run_entries v config (s\<lparr>sx_queuedCmds := tl (sx_queuedCmds s)\<rparr>))
                        (sx_queuedCmds s) s))"

definition handle_VersionDependent :: "version_entry list \<Rightarrow> sx \<Rightarrow> sx_error + sx" where
  "handle_VersionDependent config s =
     processQueuedCmds (s\<lparr>sx_queuedCmds := sx_queuedCmds s @ [config]\<rparr>)"

definition handle_GpsVersion :: "GpsVersion \<Rightarrow> sx \<Rightarrow> sx_error + sx" where
  "handle_GpsVersion gv s =
     (if sx_protocolVersion s \<noteq> None then Inr s
      else processQueuedCmds (s\<lparr>sx_protocolVersion := Some gv\<rparr>))"

section \<open>The default configuration\<close>

definition initAllUbxMsgRate :: "sx \<Rightarrow> sx_error + sx" where
  "initAllUbxMsgRate s =
     for_each (\<lambda>(i, port, rate). handle_MsgRate i port rate) (sx_rate_order s) s"

definition pollAllUbxMsgRate :: "sx \<Rightarrow> sx" where
  "pollAllUbxMsgRate = fold handle_MsgPollRate rateCfgMsgID"

definition pollAllUbxMsg :: "sx \<Rightarrow> sx" where
  "pollAllUbxMsg s = fold handle_MsgPoll ([MON_VER, CFG_GNSS, CFG_TP5] @ rateCfgMsgID) s"

definition max_version :: UbxProtVersion where
  "max_version = \<lparr>major = - 1, minor = 0\<rparr>"

definition svinfo_config :: "version_entry list" where
  "svinfo_config =
     [\<lparr>ve_min = \<lparr>major = 0, minor = 1\<rparr>, ve_max = \<lparr>major = 15, minor = 0\<rparr>,
       ve_cmd = RateCmd NAV_SVINFO 1 69\<rparr>,
      \<lparr>ve_min = \<lparr>major = 15, minor = 0\<rparr>, ve_max = max_version,
       ve_cmd = RateCmd NAV_SVINFO 1 0\<rparr>]"

definition sat_config :: "version_entry list" where
  "sat_config =
     [\<lparr>ve_min = \<lparr>major = 15, minor = 0\<rparr>, ve_max = max_version, ve_cmd = RateCmd NAV_SAT 1 69\<rparr>]"

text \<open>The part of \<open>handle(UbxConfigDefaultCmd)\<close> that follows the acknowledged rate selection.\<close>

definition configure :: "sx \<Rightarrow> sx_error + sx" where
  "configure s =
     (let s = handle_SetAop True 0 (handle_DynamicModel (sx_model s) (s\<lparr>sx_init_state := Ready\<rparr>))
      in case initAllUbxMsgRate s of Inl e \<Rightarrow> Inl e
         | Inr s \<Rightarrow> for_each handle_VersionDependent [svinfo_config, sat_config]
                      (pollAllUbxMsgRate (pollAllUbxMsg s)))"

definition handle_ConfigDefault :: "sx \<Rightarrow> sx_error + sx" where
  "handle_ConfigDefault s =
     (case sx_init_state s of
        Connecting \<Rightarrow> Inr (enqueueMessage (protSelCmd s) True s)
      | ReceivedProtoAck \<Rightarrow>
          (case rateSelCmd s of Inl e \<Rightarrow> Inl e | Inr msg \<Rightarrow> Inr (enqueueMessage msg True s))
      | ReceivedRateAck \<Rightarrow> configure s
      | Ready \<Rightarrow> Inr s)"

section \<open>Acknowledgements\<close>

text \<open>\<open>pending_.erase(range.first)\<close>: one of the entries with the id.\<close>

fun erase_one :: "u16 \<Rightarrow> ubx_message list \<Rightarrow> ubx_message list" where
  "erase_one i [] = []"
| "erase_one i (m # ms) = (if full_id m = i then ms else m # erase_one i ms)"

definition post_task :: "sx_task \<Rightarrow> sx \<Rightarrow> sx" where
  "post_task t s = s\<lparr>sx_tasks := sx_tasks s @ [t]\<rparr>"

definition handle_AckAck :: "u16 \<Rightarrow> sx \<Rightarrow> sx" where
  "handle_AckAck i s = post_task (AckAckBody i) s"

definition ack_ack_body :: "u16 \<Rightarrow> sx \<Rightarrow> sx" where
  "ack_ack_body i s =
     (let s = s\<lparr>sx_pending := erase_one i (sx_pending s)\<rparr>
      in if sx_init_state s = Ready then s
         else if i = CFG_PRT
         then publish (PubCmd ConfigDefaultCmd) (s\<lparr>sx_init_state := ReceivedProtoAck\<rparr>)
         else if i = CFG_RATE
         then publish (PubCmd ConfigDefaultCmd) (s\<lparr>sx_init_state := ReceivedRateAck\<rparr>)
         else s)"

definition handle_AckNak :: "u16 \<Rightarrow> sx \<Rightarrow> sx" where
  "handle_AckNak i s =
     post_task (AckNakBody i) (publish (PubStore (EvCfgMsg \<lparr>cm_msgID = i, cm_rate = -1\<rparr>)) s)"

definition ack_nak_body :: "u16 \<Rightarrow> sx \<Rightarrow> sx" where
  "ack_nak_body i s = s\<lparr>sx_pending := erase_one i (sx_pending s)\<rparr>"

section \<open>Dispatch\<close>

fun handle :: "sx_cmd \<Rightarrow> sx \<Rightarrow> sx_error + sx" where
  "handle (DynamicModelCmd model) s = Inr (handle_DynamicModel model s)"
| "handle (GnssConfigCmd cfgs) s = handle_GnssConfig cfgs s"
| "handle (MinCnoCmd minCNO) s = Inr (handle_MinCno minCNO s)"
| "handle (MinMaxSvCmd minSVs maxSVs) s = Inr (handle_MinMaxSv minSVs maxSVs s)"
| "handle (MsgPollCmd i) s = Inr (handle_MsgPoll i s)"
| "handle (MsgPollRateCmd i) s = Inr (handle_MsgPollRate i s)"
| "handle (ResetCmd resetFlags) s = Inr (handle_Reset resetFlags s)"
| "handle (SaveCmd devMask) s = Inr (handle_Save devMask s)"
| "handle (SetAopCmd enable maxOrbErr) s = Inr (handle_SetAop enable maxOrbErr s)"
| "handle (VersionDependentCmd config) s = handle_VersionDependent config s"
| "handle (Tp5Cmd tp) s = handle_Tp5 tp s"
| "handle ConfigDefaultCmd s = handle_ConfigDefault s"
| "handle (GpsVersionEv gv) s = handle_GpsVersion gv s"
| "handle (AckAckEv i) s = Inr (handle_AckAck i s)"
| "handle (AckNakEv i) s = Inr (handle_AckNak i s)"

fun run_task :: "sx_task \<Rightarrow> sx \<Rightarrow> sx_error + sx" where
  "run_task (Deliver cmd) s = handle cmd s"
| "run_task (AckAckBody i) s = Inr (ack_ack_body i s)"
| "run_task (AckNakBody i) s = Inr (ack_nak_body i s)"

section \<open>The connection\<close>

text \<open>
  What the operating system and Boost.Asio report when the port is opened and configured is the
  argument \<open>port_result\<close>.
\<close>

datatype port_result = Open_fails | Option_fails | Opened

definition makeConnection :: "port_result \<Rightarrow> sx \<Rightarrow> sx_error + sx" where
  "makeConnection r s =
     (case r of Open_fails \<Rightarrow> Inl Runtime_error
      | Option_fails \<Rightarrow> Inl Runtime_error
      | Opened \<Rightarrow> (let s = s\<lparr>sx_reading := True\<rparr> in Inr (enqueueMessage (protSelCmd s) True s)))"

fun process_messages :: "processor \<Rightarrow> ubx_message list \<Rightarrow> (processor \<times> UbxEvent list) option" where
  "process_messages st [] = Some (st, [])"
| "process_messages st (m # ms) =
     (case processMessage st m of None \<Rightarrow> None
      | Some (st', parsed) \<Rightarrow>
          (case process_messages st' ms of None \<Rightarrow> None
           | Some (st'', evs) \<Rightarrow> Some (st'', (case parsed of None \<Rightarrow> evs | Some e \<Rightarrow> e # evs))))"

text \<open>The completion handler of \<open>async_read_some\<close>; \<open>bs\<close> are the octets read, at most 1024.\<close>

definition read_handler :: "bool \<Rightarrow> byte list \<Rightarrow> sx \<Rightarrow> sx_error + sx" where
  "read_handler ec bs s =
     (if ec then Inr (retryLater (s\<lparr>sx_reading := False\<rparr>))
      else (case ubx_feed (sx_parser s) bs of None \<Rightarrow> Inl Undefined
            | Some (p, views) \<Rightarrow>
                (case process_messages (sx_processor s) (map message_of_view views) of
                   None \<Rightarrow> Inl Undefined
                 | Some (st, evs) \<Rightarrow>
                     Inr (fold (\<lambda>e. publish (PubStore e)) evs
                            (s\<lparr>sx_parser := p, sx_processor := st\<rparr>)))))"

section \<open>The transmit queue\<close>

text \<open>
  The task posted by \<open>send\<close> and the handler of a successful write keep the discipline of
  \<open>write_queue\<close>: writes never overlap and nothing is lost, reordered or repeated.
\<close>

interpretation sx_tx: write_queue tx_post "write_handler False" sx_tx_queue sx_writing sx_wire
  by unfold_locales
    (auto simp: tx_post_def write_handler_def do_write_def Let_def take_Suc)

end
