(* ===== verification/Config_Echo.thy ===== *)
theory Config_Echo
  imports Serial_Ublox
begin

text \<open>
  Configuration messages read back. The GNSS receiver answers a poll of a configuration message
  with the same layout that set it, so the encoder in \<open>SerialUblox\<close> and the decoder in
  \<open>MessageProcessor\<close> must agree. Each property sends a configuration through the frame, the parser
  and the decoder and says what comes out.
\<close>

section \<open>Reading a buffer\<close>

lemma get_octet: "k < length msg \<Longrightarrow> get msg k = Some (msg ! k :: byte)"
  by (simp add: get_def get_with_def Let_def take_Suc_conv_app_nth char_value_def
      plain_char_signed_def Cons_nth_drop_Suc [symmetric])

lemma get_drop:
  "n \<le> length xs \<Longrightarrow> get xs (n + k) = (get (drop n xs) k :: 'a::len word option)"
  by (auto simp: get_def get_with_def Let_def add.commute)

lemma get_append_there:
  fixes w :: "'a::len word"
  assumes "LENGTH('a) = 8 * n" and "length xs = k"
  shows "get ((xs @ put_loop w 0 n) @ ys) k = Some w"
  using get_append_at [OF assms(1), of xs w ys] assms(2) by simp

lemma put_defined:
  fixes w :: "'a::len word"
  assumes "pos + LENGTH('a) div 8 \<le> length buf"
  shows "\<exists>buf'. put pos w buf = Some buf' \<and> length buf' = length buf"
  using assms by (simp add: put_def Let_def)

lemma put_length: "put pos w buf = Some buf' \<Longrightarrow> length buf' = length buf"
  by (auto simp: put_def Let_def split: if_splits)

lemma take_drop_left:
  "q + m \<le> pos \<Longrightarrow> pos \<le> length buf \<Longrightarrow> take m (drop q (take pos buf @ zs)) = take m (drop q buf)"
  by (simp add: drop_take min_absorb1 min_absorb2)

lemma get_put_other:
  fixes w :: "'a::len word"
  assumes "put pos w buf = Some buf'" and "q + LENGTH('b) div 8 \<le> pos \<or> pos + LENGTH('a) div 8 \<le> q"
  shows "get buf' q = (get buf q :: 'b::len word option)"
proof -
  let ?n = "LENGTH('a) div 8" and ?m = "LENGTH('b) div 8"
  have p: "pos + ?n \<le> length buf" and b: "buf' = take pos buf @ put_loop w 0 ?n @ drop (pos + ?n) buf"
    using assms(1) by (auto simp: put_def Let_def split: if_splits)
  have "take ?m (drop q buf') = take ?m (drop q buf)"
    using assms(2)
  proof
    assume "q + ?m \<le> pos"
    then show ?thesis using p unfolding b by (intro take_drop_left) auto
  next
    assume "pos + ?n \<le> q"
    then show ?thesis using p by (simp add: b)
  qed
  moreover have "length buf' = length buf" using p by (simp add: b)
  ultimately show ?thesis by (simp add: get_def get_with_def Let_def)
qed


section \<open>From the sender to the decoder\<close>

lemma frame_arrives:
  assumes "length p \<le> 4096"
  shows "\<exists>s' v. ubx_feed ubx_init (raw_message_string \<lparr>m_full_id = i, m_payload = p\<rparr>) = Some (s', [v])
    \<and> message_of_view v = \<lparr>m_full_id = i, m_payload = p\<rparr>"
  using ubx_frames.feed_frames [OF ubx_init_inv(3), of "[\<lparr>m_full_id = i, m_payload = p\<rparr>]"] assms
  by (auto simp: sendable_def ubx_feed_def)

text \<open>What a frame with the given id and payload is decoded to by a fresh connection.\<close>

definition echo :: "u16 \<Rightarrow> byte list \<Rightarrow> UbxEvent option" where
  "echo i p = (case ubx_feed ubx_init (raw_message_string \<lparr>m_full_id = i, m_payload = p\<rparr>) of
     Some (_, [v]) \<Rightarrow> (case processMessage processor_init (message_of_view v) of
                        Some (_, e) \<Rightarrow> e | None \<Rightarrow> None)
   | _ \<Rightarrow> None)"

lemma echo_stateless:
  assumes "length p \<le> 4096" and "map_of handlerLookup i = Some (stateless f ev)" and "f p = Some d"
  shows "echo i p = Some (ev d)"
  using frame_arrives [OF assms(1), of i] assms(2,3)
  by (auto simp: echo_def processMessage_def full_id_def payload_def stateless_def)

lemma cfg_handlers:
  "map_of handlerLookup CFG_TP5 = Some (stateless UBXCfgTP5 EvTimePulse)"
  "map_of handlerLookup CFG_GNSS = Some (stateless UBXCfgGNSS EvCfgGNSS)"
  "map_of handlerLookup CFG_MSG = Some (stateless UBXCfgMSG EvCfgMsg)"
  "map_of handlerLookup CFG_NAVX5 = Some (stateless UBXCfgNavX5 EvCfgNavX5)"
  "map_of handlerLookup CFG_NAV5 = Some (stateless UBXCfgNav5 EvCfgNav5)"
  by (simp_all add: handlerLookup_def msg_id_simps)

section \<open>The time pulse\<close>

lemma length_zeros [simp]: "length (zeros n) = n"
  by (simp add: zeros_def)

lemma tp5_payload_decodes:
  "\<exists>p. tp5_payload tp = Some p \<and> length p = 32 \<and> UBXCfgTP5 p = Some (tp\<lparr>tp_version := 0\<rparr>)"
proof -
  let ?acd = "ucast (tp_antCableDelay tp) :: u16" and ?rfg = "ucast (tp_rfGroupDelay tp) :: u16"
    and ?ucd = "ucast (tp_userConfigDelay tp) :: u32"
  obtain b1 where 1: "put 0 (tp_tpIndex tp) (zeros 32) = Some b1" "length b1 = 32"
    using put_defined [of 0 "zeros 32" "tp_tpIndex tp"] by auto
  obtain b2 where 2: "put 1 (0 :: u8) b1 = Some b2" "length b2 = 32"
    using put_defined [of 1 b1 "0 :: u8"] 1 by auto
  obtain b3 where 3: "put 4 ?acd b2 = Some b3" "length b3 = 32"
    using put_defined [of 4 b2 ?acd] 2 by auto
  obtain b4 where 4: "put 6 ?rfg b3 = Some b4" "length b4 = 32"
    using put_defined [of 6 b3 ?rfg] 3 by auto
  obtain b5 where 5: "put 8 (tp_freqPeriod tp) b4 = Some b5" "length b5 = 32"
    using put_defined [of 8 b4 "tp_freqPeriod tp"] 4 by auto
  obtain b6 where 6: "put 12 (tp_freqPeriodLock tp) b5 = Some b6" "length b6 = 32"
    using put_defined [of 12 b5 "tp_freqPeriodLock tp"] 5 by auto
  obtain b7 where 7: "put 16 (tp_pulseLenRatio tp) b6 = Some b7" "length b7 = 32"
    using put_defined [of 16 b6 "tp_pulseLenRatio tp"] 6 by auto
  obtain b8 where 8: "put 20 (tp_pulseLenRatioLock tp) b7 = Some b8" "length b8 = 32"
    using put_defined [of 20 b7 "tp_pulseLenRatioLock tp"] 7 by auto
  obtain b9 where 9: "put 24 ?ucd b8 = Some b9" "length b9 = 32"
    using put_defined [of 24 b8 ?ucd] 8 by auto
  obtain b10 where 10: "put 28 (tp_flags tp) b9 = Some b10" "length b10 = 32"
    using put_defined [of 28 b9 "tp_flags tp"] 9 by auto
  have p: "tp5_payload tp = Some b10"
    unfolding tp5_payload_def by (simp add: 1 2(1) [simplified] 3(1) [simplified] 4(1) [simplified] 5 6 7 8 9(1) [simplified] 10)
  note skip = get_put_other [OF 2(1)] get_put_other [OF 3(1)] get_put_other [OF 4(1)]
    get_put_other [OF 5(1)] get_put_other [OF 6(1)] get_put_other [OF 7(1)] get_put_other [OF 8(1)]
    get_put_other [OF 9(1)] get_put_other [OF 10(1)]
  have g:
    "get b10 0 = Some (tp_tpIndex tp)" "get b10 1 = Some (0 :: u8)"
    "get b10 4 = Some ?acd" "get b10 6 = Some ?rfg"
    "get b10 8 = Some (tp_freqPeriod tp)" "get b10 12 = Some (tp_freqPeriodLock tp)"
    "get b10 16 = Some (tp_pulseLenRatio tp)" "get b10 20 = Some (tp_pulseLenRatioLock tp)"
    "get b10 24 = Some ?ucd" "get b10 28 = Some (tp_flags tp)"
    using get_put_same [OF _ 1(1), of 1] get_put_same [OF _ 2(1), of 1] get_put_same [OF _ 3(1), of 2]
      get_put_same [OF _ 4(1), of 2] get_put_same [OF _ 5(1), of 4] get_put_same [OF _ 6(1), of 4]
      get_put_same [OF _ 7(1), of 4] get_put_same [OF _ 8(1), of 4] get_put_same [OF _ 9(1), of 4]
      get_put_same [OF _ 10(1), of 4]
    by (simp_all add: skip)
  have "UBXCfgTP5 b10 = Some (tp\<lparr>tp_version := 0\<rparr>)"
    unfolding UBXCfgTP5_def using g by simp
  with p 10(2) show ?thesis by blast
qed

text \<open>
  C17: the time-pulse configuration survives the trip. What \<open>handle(UbxTp5Cmd)\<close> encodes, put into a
  frame, parsed and decoded, is the same configuration in every field (only the version octet is
  always sent as 0).
\<close>

theorem tp5_echo:
  "\<exists>p. tp5_payload tp = Some p \<and> echo CFG_TP5 p = Some (EvTimePulse (tp\<lparr>tp_version := 0\<rparr>))"
  using tp5_payload_decodes [of tp] echo_stateless [OF _ cfg_handlers(1)] by fastforce

section \<open>The satellite systems\<close>

lemma octets_u32:
  fixes w :: u32
  shows "[ucast (w AND 0xff), ucast (drop_bit 8 w AND 0xff), ucast (drop_bit 16 w AND 0xff),
     ucast (drop_bit 24 w AND 0xff)] = put_loop w 0 4"
  by (simp add: eval_nat_numeral)

lemma gnss_config_block_shape:
  "gnss_config_block v c =
     [gc_gnssId c, gc_resTrkCh c, gc_maxTrkCh c, 0] @ put_loop (gnss_flags v c) 0 4"
  by (simp add: gnss_config_block_def Let_def flip: octets_u32)

lemma length_gnss_config_block: "length (gnss_config_block v c) = 8"
  by (simp add: gnss_config_block_shape)

lemma length_gnss_blocks: "length (concat (map (gnss_config_block v) cs)) = 8 * length cs"
  by (induction cs) (simp_all add: gnss_config_block_shape)

lemma drop_gnss_blocks:
  "i \<le> length cs \<Longrightarrow>
    drop (8 * i) (concat (map (gnss_config_block v) cs)) = concat (map (gnss_config_block v) (drop i cs))"
proof (induction i arbitrary: cs)
  case (Suc i)
  then obtain c cs' where "cs = c # cs'" by (cases cs) auto
  with Suc show ?case by (simp add: length_gnss_config_block)
qed simp

definition gnss_set :: "UbxProtVersion \<Rightarrow> GnssConfigStruct \<Rightarrow> GnssConfigStruct" where
  "gnss_set v c = \<lparr>gc_gnssId = gc_gnssId c, gc_resTrkCh = gc_resTrkCh c,
     gc_maxTrkCh = gc_maxTrkCh c, gc_flags = gnss_flags v c\<rparr>"

lemma gnss_block_decodes:
  assumes "i < length cs"
  shows "gnss_block ([0, 0, 0xff, n] @ concat (map (gnss_config_block v) cs)) i =
    Some (gnss_set v (cs ! i))"
proof -
  let ?p = "[0, 0, 0xff, n] @ concat (map (gnss_config_block v) cs)"
  let ?rest = "concat (map (gnss_config_block v) (drop (Suc i) cs))"
  have d: "drop (8 * i + 4) ?p = gnss_config_block v (cs ! i) @ ?rest"
  proof -
    have "drop (8 * i + 4) ?p = drop (8 * i) (concat (map (gnss_config_block v) cs))"
      unfolding drop_drop [symmetric] by simp
    also have "\<dots> = concat (map (gnss_config_block v) (cs ! i # drop (Suc i) cs))"
      using drop_gnss_blocks [of i cs v] assms by (simp add: Cons_nth_drop_Suc)
    finally show ?thesis by simp
  qed
  have l: "8 * i + 4 \<le> length ?p" using assms by (simp add: length_gnss_blocks)
  have shift: "get ?p (8 * i + k) = (get (drop (8 * i + 4) ?p) (k - 4) :: 'a::len word option)"
    if "4 \<le> k" for k
    using get_drop [OF l, of "k - 4"] that by (simp add: add.assoc)
  have "get (drop (8 * i + 4) ?p) 4 = Some (gnss_flags v (cs ! i))"
    unfolding d gnss_config_block_shape by (rule get_append_there) simp_all
  moreover have "get (drop (8 * i + 4) ?p) 0 = Some (gc_gnssId (cs ! i))"
    "get (drop (8 * i + 4) ?p) 1 = Some (gc_resTrkCh (cs ! i))"
    "get (drop (8 * i + 4) ?p) 2 = Some (gc_maxTrkCh (cs ! i))"
    unfolding d gnss_config_block_shape by (simp_all add: get_octet)
  ultimately show ?thesis
    unfolding gnss_block_def Let_def
    by (simp only: shift) (simp add: gnss_set_def)
qed

lemma for_blocks_map:
  "(\<And>j. i \<le> j \<Longrightarrow> j < i + n \<Longrightarrow> f j = Some (g j)) \<Longrightarrow> for_blocks f i n = Some (map g [i..<i + n])"
proof (induction n arbitrary: i)
  case (Suc n)
  have "for_blocks f (Suc i) n = Some (map g [Suc i..<Suc i + n])"
    by (rule Suc.IH) (use Suc.prems in auto)
  moreover have "f i = Some (g i)" using Suc.prems by simp
  moreover have "[i..<Suc (i + n)] = i # [Suc i..<Suc (i + n)]" by (rule upt_conv_Cons) simp
  ultimately show ?case by simp
qed simp

lemma gnss_payload_decodes:
  assumes "8 * length cs < 4096"
  shows "UBXCfgGNSS ([0, 0, 0xff, n] @ concat (map (gnss_config_block v) cs)) =
    Some \<lparr>cgn_version = 0, cgn_numTrkChHw = 0, cgn_numTrkChUse = 0xff, cgn_numConfigBlocks = n,
      cgn_configs = map (gnss_set v) cs\<rparr>"
proof -
  let ?p = "[0, 0, 0xff, n] @ concat (map (gnss_config_block v) cs)"
  have "n_blocks ?p 4 8 = length cs"
    using assms by (subst n_blocks_eq) (simp_all add: length_gnss_blocks)
  then have "for_blocks (gnss_block ?p) 0 (n_blocks ?p 4 8) =
      Some (map (\<lambda>i. gnss_set v (cs ! i)) [0..<0 + length cs])"
    by (simp only:) (rule for_blocks_map; simp only: gnss_block_decodes add_0)
  moreover have "map (\<lambda>i. gnss_set v (cs ! i)) [0..<length cs] = map (gnss_set v) cs"
    by (rule nth_equalityI) auto
  moreover have "get ?p 0 = Some (0 :: u8)" "get ?p 1 = Some (0 :: u8)" "get ?p 2 = Some (0xff :: u8)"
    "get ?p 3 = Some n"
    by (simp_all add: get_octet)
  ultimately show ?thesis unfolding UBXCfgGNSS_def by simp
qed

text \<open>
  the configuration of the satellite systems survives the trip: for at most 511 systems, what
  \<open>handle(UbxGnssConfigCmd)\<close> encodes is decoded to the same list of systems, with the flags that
  the protocol version asks for (from major version 15 on, the L1 signal bit, and the one for QZSS).
\<close>

theorem gnss_echo:
  assumes "length cs \<le> 511"
  shows "\<exists>p. gnss_payload (Some v) cs = Inr p \<and> echo CFG_GNSS p = Some (EvCfgGNSS
    \<lparr>cgn_version = 0, cgn_numTrkChHw = 0, cgn_numTrkChUse = 0xff,
     cgn_numConfigBlocks = word_of_nat (length cs),
     cgn_configs = map (\<lambda>c. c\<lparr>gc_flags := gnss_flags v c\<rparr>) cs\<rparr>)"
proof -
  let ?p = "[0, 0, 0xff, word_of_nat (length cs)] @ concat (map (gnss_config_block v) cs)"
  have s: "gnss_set v = (\<lambda>c. c\<lparr>gc_flags := gnss_flags v c\<rparr>)" by (simp add: gnss_set_def fun_eq_iff)
  have "length ?p \<le> 4096" using assms by (simp add: length_gnss_blocks)
  moreover have "gnss_payload (Some v) cs = Inr ?p" by (simp add: gnss_payload_def)
  ultimately show ?thesis
    using echo_stateless [OF _ cfg_handlers(2) gnss_payload_decodes [of cs "word_of_nat (length cs)" v]] assms
    unfolding s by auto
qed

theorem gnss_echo_witness:
  "\<exists>p. gnss_payload (Some \<lparr>major = 18, minor = 0\<rparr>) [\<lparr>gc_gnssId = 5, gc_resTrkCh = 0, gc_maxTrkCh = 3, gc_flags = 1\<rparr>] = Inr p
    \<and> echo CFG_GNSS p = Some (EvCfgGNSS
      \<lparr>cgn_version = 0, cgn_numTrkChHw = 0, cgn_numTrkChUse = 0xff, cgn_numConfigBlocks = 1,
       cgn_configs = [\<lparr>gc_gnssId = 5, gc_resTrkCh = 0, gc_maxTrkCh = 3, gc_flags = 0x00050001\<rparr>]\<rparr>)"
  using gnss_echo [of "[\<lparr>gc_gnssId = 5, gc_resTrkCh = 0, gc_maxTrkCh = 3, gc_flags = 1\<rparr>]"
      "\<lparr>major = 18, minor = 0\<rparr>"]
  by (simp add: gnss_flags_def)

section \<open>Rates and navigation engine settings\<close>

lemma get_u16:
  assumes "Suc k < length msg"
  shows "get msg k = Some (ucast (msg ! k) + push_bit 8 (ucast (msg ! Suc k)) :: u16)"
proof -
  have "take 2 (drop k msg) = [msg ! k, msg ! Suc k]"
    using assms by (simp add: numeral_2_eq_2 take_Suc_conv_app_nth)
  then show ?thesis
    using assms by (simp add: get_def get_with_def char_value_def plain_char_signed_def)
qed

lemma join_u16:
  fixes w :: u16
  shows "ucast (ucast (w AND 0xff) :: byte) + push_bit 8 (ucast (ucast (drop_bit 8 w AND 0xff) :: byte)) = w"
proof -
  have "ucast (ucast (w AND 0xff) :: byte) + push_bit 8 (ucast (ucast (drop_bit 8 w AND 0xff) :: byte)) =
      (ucast (ucast (w AND 0xff) :: byte) OR push_bit 8 (ucast (ucast (drop_bit 8 w AND 0xff) :: byte)) :: u16)"
    by (rule disjunctive_add) (auto simp: bit_simps)
  also have "\<dots> = w" by (rule bit_word_eqI) (auto simp: bit_simps octet_simps)
  finally show ?thesis .
qed

lemma navx5_fields:
  "UBXCfgNavX5 p = Some d \<Longrightarrow> get p 10 = Some (nx5_minSVs d) \<and> get p 11 = Some (nx5_maxSVs d)
    \<and> get p 12 = Some (nx5_minCNO d) \<and> get p 27 = Some (nx5_aopCfg d)
    \<and> get p 30 = Some (nx5_aopOrbMaxErr d)"
  by (auto simp: UBXCfgNavX5_def bind_eq_Some_iff)

lemma nav5_fields: "UBXCfgNav5 p = Some d \<Longrightarrow> get p 2 = Some (nv5_dynModel d)"
  by (auto simp: UBXCfgNav5_def bind_eq_Some_iff)

lemma navx5_arrives:
  assumes "length p = 40"
  shows "\<exists>d. echo CFG_NAVX5 p = Some (EvCfgNavX5 d) \<and> p ! 10 = nx5_minSVs d \<and> p ! 11 = nx5_maxSVs d
    \<and> p ! 12 = nx5_minCNO d \<and> p ! 27 = nx5_aopCfg d
    \<and> ucast (p ! 30) + push_bit 8 (ucast (p ! 31)) = nx5_aopOrbMaxErr d"
proof -
  obtain d where d: "UBXCfgNavX5 p = Some d" using fixed_layout_defined(8) [of p] assms by auto
  have "echo CFG_NAVX5 p = Some (EvCfgNavX5 d)"
    using assms by (intro echo_stateless [OF _ cfg_handlers(4) d]) simp
  then show ?thesis using navx5_fields [OF d] assms by (auto simp: get_octet get_u16)
qed

lemma nav5_arrives:
  assumes "length p = 36"
  shows "\<exists>d. echo CFG_NAV5 p = Some (EvCfgNav5 d) \<and> p ! 2 = nv5_dynModel d"
proof -
  obtain d where d: "UBXCfgNav5 p = Some d" using fixed_layout_defined(9) [of p] assms by auto
  have "echo CFG_NAV5 p = Some (EvCfgNav5 d)"
    using assms by (intro echo_stateless [OF _ cfg_handlers(5) d]) simp
  then show ?thesis using nav5_fields [OF d] assms by (auto simp: get_octet)
qed

lemma get_big_msg_id: "get_big (msg_id_octets i @ p) 0 = Some i"
  using join_u16 [of i]
  by (simp add: get_big_def msg_id_octets_def char_value_def plain_char_signed_def numeral_2_eq_2 add.commute)

lemma rate_payload_ports:
  "rate_payload i 1 rate = Some (msg_id_octets i @ [0, rate, 0, 0, 0, 0])"
  "rate_payload i 6 rate = Some (msg_id_octets i @ [rate, rate, rate, rate, 0, 0])"
proof -
  have "zeros 6 = [0, 0, 0, 0, 0, 0]" by (simp add: zeros_def eval_nat_numeral)
  then show "rate_payload i 1 rate = Some (msg_id_octets i @ [0, rate, 0, 0, 0, 0])"
    "rate_payload i 6 rate = Some (msg_id_octets i @ [rate, rate, rate, rate, 0, 0])"
    by (simp_all add: rate_payload_def msg_id_octets_def Let_def)
qed

lemma rate_arrives:
  assumes "port = 1 \<or> port = 6"
  shows "\<exists>p. rate_payload i port rate = Some p
    \<and> echo CFG_MSG p = Some (EvCfgMsg \<lparr>cm_msgID = i, cm_rate = uint rate\<rparr>)"
proof -
  obtain q where q: "rate_payload i port rate = Some (msg_id_octets i @ q)" "length q = 6" "q ! 1 = rate"
    using assms rate_payload_ports by fastforce
  have "UBXCfgMSG (msg_id_octets i @ q) = Some \<lparr>cm_msgID = i, cm_rate = uint rate\<rparr>"
    using q(2,3) get_big_msg_id [of i q] by (simp add: UBXCfgMSG_def s_default_target_def get_octet
        msg_id_octets_def numeral_3_eq_3)
  moreover have "length (msg_id_octets i @ q) \<le> 4096" using q(2) by (simp add: msg_id_octets_def)
  ultimately show ?thesis using q(1) echo_stateless [OF _ cfg_handlers(3)] by blast
qed

text \<open>
  the other configuration messages survive the trip. A rate set on the default port 1 or on
  all ports (6) is read back as this rate for this message; \<open>UbxSetAopCmd\<close>, \<open>UbxMinMaxSvCmd\<close>,
  \<open>UbxMinCnoCmd\<close> and \<open>UbxDynamicModelCmd\<close> are read back in exactly the field they set.
\<close>

theorem settings_echo:
  "\<exists>p1 p6 nx1 nx2 nx3 nv.
     rate_payload i 1 rate = Some p1 \<and> echo CFG_MSG p1 = Some (EvCfgMsg \<lparr>cm_msgID = i, cm_rate = uint rate\<rparr>)
     \<and> rate_payload i 6 rate = Some p6 \<and> echo CFG_MSG p6 = Some (EvCfgMsg \<lparr>cm_msgID = i, cm_rate = uint rate\<rparr>)
     \<and> echo CFG_NAVX5 (aop_payload enable maxOrbErr) = Some (EvCfgNavX5 nx1)
     \<and> nx5_aopCfg nx1 = of_bool enable \<and> nx5_aopOrbMaxErr nx1 = maxOrbErr
     \<and> echo CFG_NAVX5 (minmax_payload minSVs maxSVs) = Some (EvCfgNavX5 nx2)
     \<and> nx5_minSVs nx2 = minSVs \<and> nx5_maxSVs nx2 = maxSVs
     \<and> echo CFG_NAVX5 (mincno_payload minCNO) = Some (EvCfgNavX5 nx3) \<and> nx5_minCNO nx3 = minCNO
     \<and> echo CFG_NAV5 (dynmodel_payload model) = Some (EvCfgNav5 nv) \<and> nv5_dynModel nv = model"
proof -
  note lens = aop_payload_def minmax_payload_def mincno_payload_def dynmodel_payload_def
  obtain nx1 where 1: "echo CFG_NAVX5 (aop_payload enable maxOrbErr) = Some (EvCfgNavX5 nx1)
      \<and> nx5_aopCfg nx1 = of_bool enable \<and> nx5_aopOrbMaxErr nx1 = maxOrbErr"
    using navx5_arrives [of "aop_payload enable maxOrbErr"] join_u16 [of maxOrbErr] by (auto simp: lens)
  obtain nx2 where 2: "echo CFG_NAVX5 (minmax_payload minSVs maxSVs) = Some (EvCfgNavX5 nx2)
      \<and> nx5_minSVs nx2 = minSVs \<and> nx5_maxSVs nx2 = maxSVs"
    using navx5_arrives [of "minmax_payload minSVs maxSVs"] by (auto simp: lens)
  obtain nx3 where 3: "echo CFG_NAVX5 (mincno_payload minCNO) = Some (EvCfgNavX5 nx3)
      \<and> nx5_minCNO nx3 = minCNO"
    using navx5_arrives [of "mincno_payload minCNO"] by (auto simp: lens)
  obtain nv where 4: "echo CFG_NAV5 (dynmodel_payload model) = Some (EvCfgNav5 nv) \<and> nv5_dynModel nv = model"
    using nav5_arrives [of "dynmodel_payload model"] by (auto simp: lens)
  from 1 2 3 4 rate_arrives [of 1 i rate] rate_arrives [of 6 i rate] show ?thesis by blast
qed

end
