(* ===== verification/Serial_Session.thy ===== *)
theory Serial_Session
  imports Serial_Ublox
begin

text \<open>
  Runs of \<open>SerialUblox\<close>: the events that drive it, in any order, as a step relation, and what
  holds in every reachable state. The environment decides which events the bus delivers, what the
  port reads, and when writes and timers complete.
\<close>

section \<open>The step relation\<close>

inductive sx_step :: "sx \<Rightarrow> sx \<Rightarrow> bool" where
  deliver: "sx_step s (post_task (Deliver cmd) s)"
| run: "sx_tasks s = t # ts \<Longrightarrow> run_task t (s\<lparr>sx_tasks := ts\<rparr>) = Inr s' \<Longrightarrow> sx_step s s'"
| tx_run: "sx_tx_tasks s = f # fs \<Longrightarrow> sx_step s (tx_post f (s\<lparr>sx_tx_tasks := fs\<rparr>))"
| written: "sx_writing s \<noteq> [] \<Longrightarrow> sx_step s (write_handler ec s)"
| read: "sx_reading s \<Longrightarrow> read_handler ec bs s = Inr s' \<Longrightarrow> sx_step s s'"
| timer: "0 < sx_timer s \<Longrightarrow> makeConnection r (s\<lparr>sx_timer := sx_timer s - 1\<rparr>) = Inr s' \<Longrightarrow> sx_step s s'"

inductive sx_reachable :: "sx \<Rightarrow> bool" where
  start: "makeConnection Opened (sx_constructed baud model order) = Inr s \<Longrightarrow> sx_reachable s"
| step: "sx_reachable s \<Longrightarrow> sx_step s s' \<Longrightarrow> sx_reachable s'"

inductive_cases sx_stepE: "sx_step s s'"

section \<open>What a handler may change\<close>

text \<open>
  A handler that leaves the handshake alone: it appends frames that are allowed in the present
  state to the transmit strand and touches neither the queue nor the state of the handshake.
\<close>

definition steady :: "sx \<Rightarrow> sx \<Rightarrow> bool" where
  "steady s s' \<longleftrightarrow> sx_init_state s' = sx_init_state s \<and> sx_wire s' = sx_wire s
     \<and> sx_tx_queue s' = sx_tx_queue s \<and> sx_writing s' = sx_writing s
     \<and> (\<exists>ms. sx_tx_tasks s' = sx_tx_tasks s @ map raw_message_string ms
         \<and> (\<forall>m \<in> set ms. is_allowed (sx_init_state s) m))"

named_theorems steady_intros

lemma steady_refl [steady_intros]: "steady s s"
  by (auto simp: steady_def intro: exI [of _ "[]"])

lemma steady_trans:
  assumes "steady s1 s2" and "steady s2 s3" shows "steady s1 s3"
proof -
  from assms obtain ms1 ms2 where
    "sx_tx_tasks s2 = sx_tx_tasks s1 @ map raw_message_string ms1"
    "\<forall>m \<in> set ms1. is_allowed (sx_init_state s1) m"
    "sx_tx_tasks s3 = sx_tx_tasks s2 @ map raw_message_string ms2"
    "\<forall>m \<in> set ms2. is_allowed (sx_init_state s2) m"
    "sx_init_state s2 = sx_init_state s1"
    unfolding steady_def by auto
  then have "sx_tx_tasks s3 = sx_tx_tasks s1 @ map raw_message_string (ms1 @ ms2)
      \<and> (\<forall>m \<in> set (ms1 @ ms2). is_allowed (sx_init_state s1) m)" by auto
  with assms show ?thesis unfolding steady_def by (metis (no_types, lifting))
qed

lemma steady_enqueue: "steady s (enqueueMessage msg trackAck s)"
proof (cases "is_allowed (sx_init_state s) msg")
  case True
  then show ?thesis
    by (auto simp: enqueueMessage_def send_def Let_def steady_def intro!: exI [of _ "[msg]"])
next
  case False
  then show ?thesis by (simp add: enqueueMessage_def retryLater_def steady_def)
qed

lemma steady_publish: "steady s (publish ev s)"
  by (simp add: publish_def steady_def)

lemma steady_enqueue_trans [steady_intros]: "steady s s' \<Longrightarrow> steady s (enqueueMessage msg trackAck s')"
  by (blast intro: steady_trans steady_enqueue)

lemma steady_publish_trans [steady_intros]: "steady s s' \<Longrightarrow> steady s (publish ev s')"
  by (blast intro: steady_trans steady_publish)

lemma steady_fields [steady_intros]:
  "steady s s' \<Longrightarrow> steady s (s'\<lparr>sx_queuedCmds := q\<rparr>)"
  "steady s s' \<Longrightarrow> steady s (s'\<lparr>sx_protocolVersion := v\<rparr>)"
  "steady s s' \<Longrightarrow> steady s (s'\<lparr>sx_pending := ps\<rparr>)"
  "steady s s' \<Longrightarrow> steady s (s'\<lparr>sx_tasks := ts\<rparr>)"
  "steady s s' \<Longrightarrow> steady s (s'\<lparr>sx_parser := p\<rparr>)"
  "steady s s' \<Longrightarrow> steady s (s'\<lparr>sx_processor := st\<rparr>)"
  "steady s s' \<Longrightarrow> steady s (s'\<lparr>sx_reading := b\<rparr>)"
  "steady s s' \<Longrightarrow> steady s (s'\<lparr>sx_timer := n\<rparr>)"
  by (simp_all add: steady_def)

lemma steady_handlers [steady_intros]:
  "steady s s' \<Longrightarrow> steady s (handle_DynamicModel model s')"
  "steady s s' \<Longrightarrow> steady s (handle_MinCno c s')"
  "steady s s' \<Longrightarrow> steady s (handle_MinMaxSv a b s')"
  "steady s s' \<Longrightarrow> steady s (handle_MsgPoll i s')"
  "steady s s' \<Longrightarrow> steady s (handle_MsgPollRate i s')"
  "steady s s' \<Longrightarrow> steady s (handle_Reset r s')"
  "steady s s' \<Longrightarrow> steady s (handle_Save d s')"
  "steady s s' \<Longrightarrow> steady s (handle_SetAop e x s')"
  "steady s s' \<Longrightarrow> steady s (handle_AckAck i s')"
  "steady s s' \<Longrightarrow> steady s (handle_AckNak i s')"
  "steady s s' \<Longrightarrow> steady s (ack_nak_body i s')"
  "steady s s' \<Longrightarrow> steady s (post_task t s')"
  "steady s s' \<Longrightarrow> steady s (poll_version s')"
  "steady s s' \<Longrightarrow> steady s (retryLater s')"
  by (auto simp: handle_DynamicModel_def handle_MinCno_def handle_MinMaxSv_def handle_MsgPoll_def
      handle_MsgPollRate_def handle_Reset_def handle_Save_def handle_SetAop_def handle_AckAck_def
      handle_AckNak_def ack_nak_body_def post_task_def poll_version_def retryLater_def
      intro!: steady_intros)

lemma steady_fold:
  "(\<And>x s. steady s (f x s)) \<Longrightarrow> steady s (fold f xs s)"
  by (induction xs arbitrary: s) (auto intro: steady_refl steady_trans)

lemma steady_for_each:
  "for_each f xs s = Inr s' \<Longrightarrow> (\<And>x s s'. f x s = Inr s' \<Longrightarrow> steady s s') \<Longrightarrow> steady s s'"
  by (induction f xs s rule: for_each.induct)
    (auto intro: steady_refl steady_trans split: sum.splits)

lemma steady_MsgRate: "handle_MsgRate i port rate s = Inr s' \<Longrightarrow> steady s s'"
  by (auto simp: handle_MsgRate_def intro!: steady_intros split: option.splits)

lemma steady_Tp5: "handle_Tp5 tp s = Inr s' \<Longrightarrow> steady s s'"
  by (auto simp: handle_Tp5_def intro!: steady_intros split: option.splits)

lemma steady_GnssConfig: "handle_GnssConfig cfgs s = Inr s' \<Longrightarrow> steady s s'"
  by (auto simp: handle_GnssConfig_def intro!: steady_intros split: option.splits sum.splits)

lemma steady_run_entries: "run_entries v config s = Inr s' \<Longrightarrow> steady s s'"
  unfolding run_entries_def
  by (erule steady_for_each)
    (auto simp: handle_version_cmd_def intro: steady_refl steady_MsgRate steady_GnssConfig
      split: if_splits version_cmd.splits)

lemma steady_processQueuedCmds: "processQueuedCmds s = Inr s' \<Longrightarrow> steady s s'"
proof -
  have "steady s s'" if "run_entries v config (s\<lparr>sx_queuedCmds := q\<rparr>) = Inr s'" for v config q s s'
    using steady_run_entries [OF that] by (auto simp: steady_def)
  then show "processQueuedCmds s = Inr s' \<Longrightarrow> steady s s'"
    by (auto simp: processQueuedCmds_def intro!: steady_intros elim!: steady_for_each
        split: option.splits)
qed

lemma steady_VersionDependent: "handle_VersionDependent config s = Inr s' \<Longrightarrow> steady s s'"
  unfolding handle_VersionDependent_def by (drule steady_processQueuedCmds) (auto simp: steady_def)

lemma steady_GpsVersion: "handle_GpsVersion gv s = Inr s' \<Longrightarrow> steady s s'"
  unfolding handle_GpsVersion_def
  by (auto simp: steady_refl dest!: steady_processQueuedCmds split: if_splits) (auto simp: steady_def)

section \<open>Nothing but the handshake before the receiver is ready\<close>

definition outgoing :: "sx \<Rightarrow> byte list list" where
  "outgoing s = sx_wire s @ sx_tx_queue s @ sx_tx_tasks s"

definition handshake_frame :: "byte list \<Rightarrow> bool" where
  "handshake_frame f \<longleftrightarrow> (\<exists>m. f = raw_message_string m \<and> full_id m \<in> {CFG_PRT, CFG_RATE})"

definition sx_safe :: "sx \<Rightarrow> bool" where
  "sx_safe s \<longleftrightarrow> (sx_writing s = [] \<or> sx_tx_queue s \<noteq> [] \<and> sx_writing s = [hd (sx_tx_queue s)])
     \<and> (sx_init_state s \<noteq> Ready \<longrightarrow> (\<forall>f \<in> set (outgoing s). handshake_frame f))"

lemma steady_safe: "steady s s' \<Longrightarrow> sx_safe s \<Longrightarrow> sx_safe s'"
proof -
  have "handshake_frame (raw_message_string m)"
    if "is_allowed (sx_init_state s) m" and "sx_init_state s \<noteq> Ready" for m
    using that unfolding is_allowed_def handshake_frame_def by auto
  then show "steady s s' \<Longrightarrow> sx_safe s \<Longrightarrow> sx_safe s'"
    unfolding steady_def sx_safe_def outgoing_def by auto
qed

lemma configure_steady:
  assumes "configure s = Inr s'" shows "steady (s\<lparr>sx_init_state := Ready\<rparr>) s'"
proof -
  let ?s1 = "handle_SetAop True 0 (handle_DynamicModel (sx_model s) (s\<lparr>sx_init_state := Ready\<rparr>))"
  from assms obtain s2 where 2: "initAllUbxMsgRate ?s1 = Inr s2" and
    3: "for_each handle_VersionDependent [svinfo_config, sat_config]
          (pollAllUbxMsgRate (pollAllUbxMsg s2)) = Inr s'"
    unfolding configure_def Let_def by (auto split: sum.splits)
  have a: "steady (s\<lparr>sx_init_state := Ready\<rparr>) ?s1" by (intro steady_intros)
  have b: "steady ?s1 s2" using 2 unfolding initAllUbxMsgRate_def
    by (rule steady_for_each) (auto intro: steady_MsgRate)
  have c: "steady s2 (pollAllUbxMsgRate (pollAllUbxMsg s2))"
    unfolding pollAllUbxMsgRate_def pollAllUbxMsg_def
    by (rule steady_trans; rule steady_fold; rule steady_handlers; rule steady_refl)
  have d: "steady (pollAllUbxMsgRate (pollAllUbxMsg s2)) s'"
    using 3 by (rule steady_for_each) (auto intro: steady_VersionDependent)
  from a b c d show ?thesis by (blast intro: steady_trans)
qed

lemma configure_safe:
  assumes "configure s = Inr s'" and "sx_safe s" shows "sx_safe s'"
  by (rule steady_safe [OF configure_steady [OF assms(1)]]) (use assms(2) in \<open>simp add: sx_safe_def\<close>)

lemma handle_ConfigDefault_safe:
  assumes "handle_ConfigDefault s = Inr s'" and "sx_safe s" shows "sx_safe s'"
proof (cases "sx_init_state s")
  case ReceivedRateAck
  then show ?thesis using assms by (auto simp: handle_ConfigDefault_def intro: configure_safe)
next
  case Connecting
  then have "steady s s'" using assms(1) by (auto simp: handle_ConfigDefault_def steady_enqueue)
  then show ?thesis using assms(2) by (rule steady_safe)
next
  case ReceivedProtoAck
  then have "steady s s'"
    using assms(1) by (auto simp: handle_ConfigDefault_def steady_enqueue split: sum.splits)
  then show ?thesis using assms(2) by (rule steady_safe)
qed (use assms in \<open>simp add: handle_ConfigDefault_def\<close>)

lemma handle_safe:
  assumes "handle cmd s = Inr s'" and "sx_safe s" shows "sx_safe s'"
proof (cases "cmd = ConfigDefaultCmd")
  case True
  then show ?thesis using assms by (auto intro: handle_ConfigDefault_safe)
next
  case False
  with assms(1) have "steady s s'"
    by (cases cmd) (auto intro: steady_handlers steady_refl steady_Tp5 steady_GnssConfig
        steady_VersionDependent steady_GpsVersion)
  then show ?thesis using assms(2) by (rule steady_safe)
qed

lemma ack_ack_body_safe: "sx_safe s \<Longrightarrow> sx_safe (ack_ack_body i s)"
  by (auto simp: ack_ack_body_def Let_def sx_safe_def outgoing_def publish_def)

lemma run_task_safe: "run_task t s = Inr s' \<Longrightarrow> sx_safe s \<Longrightarrow> sx_safe s'"
  by (cases t)
    (auto intro: handle_safe ack_ack_body_safe steady_safe [OF steady_handlers(11) [OF steady_refl]])

lemma makeConnection_steady: "makeConnection r s = Inr s' \<Longrightarrow> steady s s'"
  by (auto simp: makeConnection_def Let_def intro!: steady_intros split: port_result.splits)

lemma read_handler_steady: "read_handler ec bs s = Inr s' \<Longrightarrow> steady s s'"
proof -
  have "steady s (fold (\<lambda>e. publish (PubStore e)) evs (s\<lparr>sx_parser := p, sx_processor := st\<rparr>))" for evs p st
    by (rule steady_trans [of _ "s\<lparr>sx_parser := p, sx_processor := st\<rparr>"])
      (auto intro!: steady_intros steady_fold)
  then show "read_handler ec bs s = Inr s' \<Longrightarrow> steady s s'"
    by (auto simp: read_handler_def intro!: steady_intros split: if_splits option.splits)
qed

lemma tx_post_safe: "sx_tx_tasks s = f # fs \<Longrightarrow> sx_safe s \<Longrightarrow> sx_safe (tx_post f (s\<lparr>sx_tx_tasks := fs\<rparr>))"
  by (auto simp: tx_post_def Let_def sx_safe_def outgoing_def do_write_def)

lemma write_handler_safe: "sx_writing s \<noteq> [] \<Longrightarrow> sx_safe s \<Longrightarrow> sx_safe (write_handler ec s)"
  by (auto simp: write_handler_def Let_def sx_safe_def outgoing_def do_write_def neq_Nil_conv)

lemma sx_step_safe: "sx_step s s' \<Longrightarrow> sx_safe s \<Longrightarrow> sx_safe s'"
proof (induction rule: sx_step.induct)
  case (deliver s cmd)
  then show ?case by (auto intro: steady_safe [OF steady_handlers(12) [OF steady_refl]])
next
  case (run s t ts s')
  then have "sx_safe (s\<lparr>sx_tasks := ts\<rparr>)" by (simp add: sx_safe_def outgoing_def)
  with run show ?case by (blast intro: run_task_safe)
next
  case (timer s r s')
  then have "sx_safe (s\<lparr>sx_timer := sx_timer s - 1\<rparr>)" by (simp add: sx_safe_def outgoing_def)
  with timer show ?case by (blast intro: steady_safe makeConnection_steady)
qed (auto intro: tx_post_safe write_handler_safe steady_safe read_handler_steady)

lemma reachable_safe: "sx_reachable s \<Longrightarrow> sx_safe s"
proof (induction rule: sx_reachable.induct)
  case (start baud model order s)
  moreover have "sx_safe (sx_constructed baud model order)"
    by (simp add: sx_constructed_def sx_safe_def outgoing_def)
  ultimately show ?case by (blast intro: steady_safe makeConnection_steady)
qed (rule sx_step_safe)

text \<open>How a step changes the state of the handshake.\<close>

lemma steady_state: "steady s s' \<Longrightarrow> sx_init_state s' = sx_init_state s"
  by (simp add: steady_def)

lemma handle_state:
  assumes "handle cmd s = Inr s'"
  shows "sx_init_state s' = sx_init_state s \<or> sx_init_state s = ReceivedRateAck \<and> sx_init_state s' = Ready"
proof (cases "cmd = ConfigDefaultCmd")
  case True
  then show ?thesis
    using assms steady_state [OF configure_steady [of s s']] steady_state [OF steady_enqueue]
    by (auto simp: handle_ConfigDefault_def split: init_state.splits sum.splits)
next
  case False
  with assms have "steady s s'"
    by (cases cmd) (auto intro: steady_handlers steady_refl steady_Tp5 steady_GnssConfig
        steady_VersionDependent steady_GpsVersion)
  then show ?thesis using steady_state by blast
qed

lemma run_task_state:
  assumes "run_task k s = Inr s'" and "sx_init_state s' \<noteq> sx_init_state s"
  shows "sx_init_state s = ReceivedRateAck \<and> sx_init_state s' = Ready \<or> k = AckAckBody CFG_PRT \<and> sx_init_state s' = ReceivedProtoAck
    \<or> k = AckAckBody CFG_RATE \<and> sx_init_state s' = ReceivedRateAck"
proof (cases k)
  case (AckAckBody i)
  then show ?thesis using assms by (auto simp: ack_ack_body_def publish_def Let_def split: if_splits)
qed (use assms handle_state steady_state [OF steady_handlers(11) [OF steady_refl]] in \<open>force+\<close>)

lemma transmit_state:
  "sx_init_state (tx_post f s) = sx_init_state s" "sx_init_state (write_handler ec s) = sx_init_state s"
  "sx_init_state (post_task k s) = sx_init_state s"
  by (simp_all add: post_task_def tx_post_def write_handler_def do_write_def Let_def)

lemma step_state:
  assumes "sx_step s t" and "sx_init_state t \<noteq> sx_init_state s"
  shows "sx_init_state s = ReceivedRateAck \<and> sx_init_state t = Ready \<or> (\<exists>ks. sx_tasks s = AckAckBody CFG_PRT # ks) \<and> sx_init_state t = ReceivedProtoAck
    \<or> (\<exists>ks. sx_tasks s = AckAckBody CFG_RATE # ks) \<and> sx_init_state t = ReceivedRateAck"
  using assms
proof (cases rule: sx_step.cases)
  case (run k ks)
  then show ?thesis using run_task_state [OF run(2)] assms(2) by auto
next
  case (timer r)
  then show ?thesis using steady_state [OF makeConnection_steady [OF timer(2)]] assms(2) by simp
next
  case (read ec bs)
  then show ?thesis using steady_state [OF read_handler_steady [OF read(2)]] assms(2) by simp
qed (simp_all add: transmit_state)

text \<open>
  C10: as long as the state of the connection is not \<open>Ready\<close>, nothing was sent to the receiver, is being written,
  queued or handed to the transmit strand but messages of the identifiers CFG-PRT and CFG-RATE (selections or
  polls), whatever commands the bus delivers, whatever the port reads, and however writes and timers interleave.
  The state becomes \<open>Ready\<close> only from \<open>ReceivedRateAck\<close>, and that is entered only by the task of an acknowledgement of
  CFG-RATE, whether or not one of CFG-PRT came before.
\<close>

theorem only_handshake_before_ready:
  assumes "sx_reachable s" and "sx_init_state s \<noteq> Ready"
  shows "(f \<in> set (sx_wire s @ sx_writing s @ sx_tx_queue s @ sx_tx_tasks s) \<longrightarrow>
      (\<exists>m. f = raw_message_string m \<and> full_id m \<in> {CFG_PRT, CFG_RATE}))
    \<and> (sx_step s t \<and> sx_init_state t = Ready \<longrightarrow> sx_init_state s = ReceivedRateAck)
    \<and> (sx_step s t \<and> sx_init_state s \<noteq> ReceivedRateAck \<and> sx_init_state t = ReceivedRateAck \<longrightarrow>
        (\<exists>ks. sx_tasks s = AckAckBody CFG_RATE # ks))"
proof -
  have safe: "sx_safe s" by (rule reachable_safe [OF assms(1)])
  then have "set (sx_writing s) \<subseteq> set (sx_tx_queue s)" by (auto simp: sx_safe_def)
  then have "f \<in> set (sx_wire s @ sx_writing s @ sx_tx_queue s @ sx_tx_tasks s) \<longrightarrow> handshake_frame f"
    using safe assms(2) unfolding sx_safe_def outgoing_def by auto
  then show ?thesis using step_state [of s t] assms(2) by (auto simp: handshake_frame_def)
qed

lemma makeConnection_opened:
  "sx_init_state s = Connecting \<Longrightarrow>
    makeConnection Opened s = Inr (send (protSelCmd s) True (s\<lparr>sx_reading := True\<rparr>))"
  by (simp add: makeConnection_def enqueueMessage_def is_allowed_def protSelCmd_def full_id_def Let_def)

definition started :: sx where
  "started = send (protSelCmd (sx_constructed 9600 2 defaultRates)) True
     ((sx_constructed 9600 2 defaultRates)\<lparr>sx_reading := True\<rparr>)"

lemma started_reachable: "sx_reachable started"
  unfolding started_def
  by (rule sx_reachable.start [OF makeConnection_opened]) (simp add: sx_constructed_def)

theorem only_handshake_before_ready_witness:
  "\<exists>f m. sx_tx_tasks started = [f] \<and> f = raw_message_string m \<and> full_id m \<in> {CFG_PRT, CFG_RATE}"
proof -
  obtain f where f: "sx_tx_tasks started = [f]" and st: "sx_init_state started = Connecting"
    by (simp add: started_def send_def Let_def sx_constructed_def)
  from only_handshake_before_ready [OF started_reachable, of f] f st show ?thesis by auto
qed

section \<open>What is sent\<close>

text \<open>
  \<open>sends s ms s'\<close>: the handler sent exactly the messages \<open>ms\<close>, in order, those with mark
  \<open>True\<close> being tracked until they are acknowledged.
\<close>

definition sends :: "sx \<Rightarrow> (ubx_message \<times> bool) list \<Rightarrow> sx \<Rightarrow> bool" where
  "sends s ms s' \<longleftrightarrow> sx_init_state s' = sx_init_state s
     \<and> sx_tx_tasks s' = sx_tx_tasks s @ map (raw_message_string \<circ> fst) ms
     \<and> sx_pending s' = sx_pending s @ map fst (filter snd ms)
     \<and> sx_protocolVersion s' = sx_protocolVersion s \<and> sx_queuedCmds s' = sx_queuedCmds s
     \<and> sx_tasks s' = sx_tasks s \<and> sx_timer s' = sx_timer s
     \<and> sx_rate_order s' = sx_rate_order s"

named_theorems sends_intros

lemma sends_Nil: "sends s [] s"
  by (simp add: sends_def)

lemma sends_trans: "sends s1 ms s2 \<Longrightarrow> sends s2 ns s3 \<Longrightarrow> sends s1 (ms @ ns) s3"
  by (simp add: sends_def)

lemma sends_init_state: "sends s ms s' \<Longrightarrow> sx_init_state s' = sx_init_state s"
  by (simp add: sends_def)

lemma sends_publish: "sends s ms s' \<Longrightarrow> sends s ms (publish ev s')"
  by (simp add: sends_def publish_def)

lemma sends_enqueue: "is_allowed (sx_init_state s) msg \<Longrightarrow> sends s [(msg, t)] (enqueueMessage msg t s)"
  by (simp add: sends_def enqueueMessage_def send_def Let_def)

lemma sends_Ready: "sx_init_state s = Ready \<Longrightarrow> sends s [(msg, t)] (enqueueMessage msg t s)"
  by (rule sends_enqueue) (simp add: is_allowed_def)

definition poll_message :: "u16 \<Rightarrow> ubx_message \<times> bool" where
  "poll_message i =
     (\<lparr>m_full_id = i, m_payload = (if i = CFG_PRT then [1] else if i = CFG_TP5 then [0] else [])\<rparr>,
      i \<in> set idsExpectedAck)"

definition poll_rate_message :: "u16 \<Rightarrow> ubx_message \<times> bool" where
  "poll_rate_message i = (\<lparr>m_full_id = CFG_MSG, m_payload = msg_id_octets i\<rparr>, True)"

definition rate_message :: "u16 \<times> u8 \<times> u8 \<Rightarrow> ubx_message \<times> bool" where
  "rate_message = (\<lambda>(i, port, rate). (\<lparr>m_full_id = CFG_MSG, m_payload = the (rate_payload i port rate)\<rparr>, True))"

lemma tracked_polls:
  "CFG_PRT \<in> set idsExpectedAck" "CFG_TP5 \<in> set idsExpectedAck" "MON_VER \<notin> set idsExpectedAck"
  by (simp_all add: idsExpectedAck_def msg_id_simps)

lemma sends_MsgPoll:
  "sx_init_state s = Ready \<Longrightarrow> i \<noteq> 0 \<Longrightarrow> sends s [poll_message i] (handle_MsgPoll i s)"
  using tracked_polls
  by (auto simp: handle_MsgPoll_def poll_message_def intro!: sends_Ready)

lemma sends_MsgPollRate:
  "sx_init_state s = Ready \<Longrightarrow> sends s [poll_rate_message i] (handle_MsgPollRate i s)"
  by (simp add: handle_MsgPollRate_def poll_rate_message_def sends_Ready)

lemma rate_payload_defined: "port \<le> 6 \<Longrightarrow> \<exists>p. rate_payload i port rate = Some p"
proof -
  assume "port \<le> 6"
  then have le: "unat port \<le> 6" by (simp add: word_le_nat_alt)
  have "unat port < 6" if "port \<noteq> 6"
  proof -
    have "unat port \<noteq> unat (6 :: u8)" using that by (metis unsigned_word_eqI)
    with le show ?thesis by simp
  qed
  then show ?thesis by (auto simp: rate_payload_def Let_def)
qed

lemma sends_MsgRate:
  "sx_init_state s = Ready \<Longrightarrow> port \<le> 6 \<Longrightarrow>
    \<exists>s'. handle_MsgRate i port rate s = Inr s' \<and> sends s [rate_message (i, port, rate)] s'"
  using rate_payload_defined [of port i rate]
  by (auto simp: handle_MsgRate_def rate_message_def intro!: sends_publish sends_Ready)

lemma sends_fold:
  "sx_init_state s = Ready \<Longrightarrow> (\<And>x s. x \<in> set xs \<Longrightarrow> sx_init_state s = Ready \<Longrightarrow> sends s [g x] (f x s)) \<Longrightarrow>
    sends s (map g xs) (fold f xs s)"
proof (induction xs arbitrary: s)
  case (Cons x xs)
  have 1: "sends s [g x] (f x s)" using Cons.prems by simp
  then have "sends (f x s) (map g xs) (fold f xs (f x s))"
    using Cons.prems using sends_init_state [OF 1]
    by (intro Cons.IH) auto
  from sends_trans [OF 1 this] show ?case by simp
qed (simp add: sends_Nil)

lemma sends_for_each:
  "sx_init_state s = Ready \<Longrightarrow>
    (\<And>x s. x \<in> set xs \<Longrightarrow> sx_init_state s = Ready \<Longrightarrow> \<exists>s'. f x s = Inr s' \<and> sends s [g x] s') \<Longrightarrow>
    \<exists>s'. for_each f xs s = Inr s' \<and> sends s (map g xs) s'"
proof (induction xs arbitrary: s)
  case (Cons x xs)
  obtain s1 where 1: "f x s = Inr s1" "sends s [g x] s1" using Cons.prems by auto
  then obtain s' where "for_each f xs s1 = Inr s'" "sends s1 (map g xs) s'"
    using Cons by (metis (no_types, lifting) list.set_intros(2) sends_init_state)
  with 1 sends_trans [OF 1(2)] show ?case by fastforce
qed (simp add: sends_Nil)

section \<open>The handshake\<close>

definition default_messages :: "u8 \<Rightarrow> (u16 \<times> u8 \<times> u8) list \<Rightarrow> (ubx_message \<times> bool) list" where
  "default_messages model order =
     [(\<lparr>m_full_id = CFG_NAV5, m_payload = dynmodel_payload model\<rparr>, True),
      (\<lparr>m_full_id = CFG_NAVX5, m_payload = aop_payload True 0\<rparr>, True)]
     @ map rate_message order
     @ map poll_message ([MON_VER, CFG_GNSS, CFG_TP5] @ rateCfgMsgID)
     @ map poll_rate_message rateCfgMsgID"

lemma polled_ids_nonzero: "\<forall>i \<in> set ([MON_VER, CFG_GNSS, CFG_TP5] @ rateCfgMsgID). i \<noteq> 0"
  by (simp add: rateCfgMsgID_def msg_id_simps)

lemma handle_VersionDependent_None:
  "sx_protocolVersion s = None \<Longrightarrow>
    handle_VersionDependent config s =
      Inr (poll_version (s\<lparr>sx_queuedCmds := sx_queuedCmds s @ [config]\<rparr>))"
  by (simp add: handle_VersionDependent_def processQueuedCmds_def)

lemma sends_defaults:
  assumes "sx_init_state s = Ready" and "\<forall>(i, port, rate) \<in> set (sx_rate_order s). port \<le> 6"
  shows "\<exists>s2. initAllUbxMsgRate (handle_SetAop True 0 (handle_DynamicModel model s)) = Inr s2
    \<and> sends s (default_messages model (sx_rate_order s)) (pollAllUbxMsgRate (pollAllUbxMsg s2))"
proof -
  let ?a = "[(\<lparr>m_full_id = CFG_NAV5, m_payload = dynmodel_payload model\<rparr>, True)]"
  let ?b = "[(\<lparr>m_full_id = CFG_NAVX5, m_payload = aop_payload True 0\<rparr>, True)]"
  let ?s0 = "handle_DynamicModel model s"
  let ?s1 = "handle_SetAop True 0 ?s0"
  have 1: "sends s ?a ?s0"
    unfolding handle_DynamicModel_def by (rule sends_publish [OF sends_Ready [OF assms(1)]])
  then have r1: "sx_init_state ?s0 = Ready" using assms(1) by (simp add: sends_init_state)
  then have 2: "sends ?s0 ?b ?s1"
    unfolding handle_SetAop_def by (rule sends_publish [OF sends_Ready])
  have o: "sx_rate_order ?s1 = sx_rate_order s" using 1 2 by (simp add: sends_def)
  have r2: "sx_init_state ?s1 = Ready" using r1 sends_init_state [OF 2] by simp
  have "\<exists>s2. for_each (\<lambda>(i, port, rate). handle_MsgRate i port rate) (sx_rate_order ?s1) ?s1 = Inr s2
      \<and> sends ?s1 (map rate_message (sx_rate_order ?s1)) s2"
    by (rule sends_for_each [OF r2]) (use assms(2) o in \<open>auto intro!: sends_MsgRate\<close>)
  then obtain s2 where 3: "initAllUbxMsgRate ?s1 = Inr s2"
      "sends ?s1 (map rate_message (sx_rate_order s)) s2"
    by (auto simp: initAllUbxMsgRate_def o)
  have r3: "sx_init_state s2 = Ready" using r2 sends_init_state [OF 3(2)] by simp
  have 4: "sends s2 (map poll_message ([MON_VER, CFG_GNSS, CFG_TP5] @ rateCfgMsgID)) (pollAllUbxMsg s2)"
    unfolding pollAllUbxMsg_def
    by (rule sends_fold [OF r3]) (use polled_ids_nonzero in \<open>auto intro: sends_MsgPoll\<close>)
  have r4: "sx_init_state (pollAllUbxMsg s2) = Ready" using r3 sends_init_state [OF 4] by simp
  have 5: "sends (pollAllUbxMsg s2) (map poll_rate_message rateCfgMsgID)
      (pollAllUbxMsgRate (pollAllUbxMsg s2))"
    unfolding pollAllUbxMsgRate_def
    by (rule sends_fold [OF r4]) (rule sends_MsgPollRate)
  from sends_trans [OF 1 sends_trans [OF 2 sends_trans [OF 3(2) sends_trans [OF 4 5]]]] 3(1)
  show ?thesis by (auto simp: default_messages_def)
qed

lemma configure_sends:
  assumes "sx_protocolVersion s = None" and "\<forall>(i, port, rate) \<in> set (sx_rate_order s). port \<le> 6"
  shows "\<exists>s'. configure s = Inr s' \<and> sx_init_state s' = Ready
    \<and> sx_tx_tasks s' = sx_tx_tasks s @
        map (raw_message_string \<circ> fst) (default_messages (sx_model s) (sx_rate_order s))
    \<and> sx_queuedCmds s' = sx_queuedCmds s @ [svinfo_config, sat_config]
    \<and> sx_tasks s' = sx_tasks s \<and> sx_timer s' = sx_timer s"
proof -
  let ?r = "s\<lparr>sx_init_state := Ready\<rparr>"
  obtain s2 where 2: "initAllUbxMsgRate (handle_SetAop True 0 (handle_DynamicModel (sx_model s) ?r)) = Inr s2"
    and s: "sends ?r (default_messages (sx_model s) (sx_rate_order s)) (pollAllUbxMsgRate (pollAllUbxMsg s2))"
    using sends_defaults [of ?r "sx_model s"] assms(2) by auto
  then have "sx_protocolVersion (pollAllUbxMsgRate (pollAllUbxMsg s2)) = None"
    using assms(1) by (simp add: sends_def)
  with s 2 show ?thesis
    by (auto simp: configure_def handle_VersionDependent_None poll_version_def publish_def sends_def)
qed

text \<open>
  A delivered event and the tasks it posts to the strand; an acknowledgement posts one more task,
  so two steps empty a strand that was empty before.
\<close>

fun drain :: "nat \<Rightarrow> sx \<Rightarrow> sx_error + sx" where
  "drain 0 s = Inr s"
| "drain (Suc n) s =
     (case sx_tasks s of [] \<Rightarrow> Inr s
      | t # ts \<Rightarrow> (case run_task t (s\<lparr>sx_tasks := ts\<rparr>) of Inl e \<Rightarrow> Inl e | Inr s' \<Rightarrow> drain n s'))"

definition react :: "sx_cmd \<Rightarrow> sx \<Rightarrow> sx_error + sx" where
  "react cmd s = drain 2 (post_task (Deliver cmd) s)"

definition valid_rates :: "sx \<Rightarrow> bool" where
  "valid_rates s \<longleftrightarrow> 10 \<le> sx_measRate s \<and> 1 \<le> sx_navRate s \<and> sx_navRate s \<le> 127"

lemma rateSelCmd_valid:
  assumes "valid_rates s" shows "\<exists>rate. rateSelCmd s = Inr rate \<and> full_id rate = CFG_RATE"
proof -
  have n: "\<not> sx_measRate s < 10" "\<not> sx_navRate s < 1" "\<not> 127 < sx_navRate s"
    using assms unfolding valid_rates_def not_less by blast+
  show ?thesis unfolding rateSelCmd_def by (simp only: n simp_thms if_False) (simp add: full_id_def)
qed

lemma no_tasks_left: "sx_tasks s = [] \<Longrightarrow> s\<lparr>sx_tasks := []\<rparr> = s"
  by (cases s) simp

lemma react_AckAck:
  "sx_tasks s = [] \<Longrightarrow> react (AckAckEv i) s = Inr (ack_ack_body i s)"
  by (simp add: react_def numeral_2_eq_2 post_task_def handle_AckAck_def no_tasks_left)

lemma react_ConfigDefault:
  "sx_tasks s = [] \<Longrightarrow> handle_ConfigDefault s = Inr s' \<Longrightarrow> sx_tasks s' = [] \<Longrightarrow>
    react ConfigDefaultCmd s = Inr s'"
  by (simp add: react_def numeral_2_eq_2 post_task_def no_tasks_left)

text \<open>
  C11: the handshake completes. Once the receiver acknowledges the protocol selection and then the
  rate selection, and the bus delivers the \<open>UbxConfigDefaultCmd\<close> each of them publishes, the
  connection is ready, no reconnection was scheduled, and exactly the rate selection and the
  default configuration have been handed to the transmit strand, in this order; the two
  version-dependent commands wait for the receiver's version.
\<close>

theorem handshake_completes:
  assumes "sx_init_state s = Connecting" and "sx_tasks s = []" and "sx_protocolVersion s = None"
    and "valid_rates s" and "\<forall>(i, port, rate) \<in> set (sx_rate_order s). port \<le> 6"
  shows "\<exists>rate s1 s2 s3 s4. rateSelCmd s = Inr rate
    \<and> react (AckAckEv CFG_PRT) s = Inr s1 \<and> last (sx_published s1) = PubCmd ConfigDefaultCmd
    \<and> react ConfigDefaultCmd s1 = Inr s2
    \<and> react (AckAckEv CFG_RATE) s2 = Inr s3 \<and> last (sx_published s3) = PubCmd ConfigDefaultCmd
    \<and> react ConfigDefaultCmd s3 = Inr s4
    \<and> sx_init_state s4 = Ready \<and> sx_timer s4 = sx_timer s
    \<and> sx_tx_tasks s4 = sx_tx_tasks s @ raw_message_string rate #
        map (raw_message_string \<circ> fst) (default_messages (sx_model s) (sx_rate_order s))
    \<and> sx_queuedCmds s4 = sx_queuedCmds s @ [svinfo_config, sat_config]"
proof -
  obtain rate where r: "rateSelCmd s = Inr rate" "full_id rate = CFG_RATE"
    using rateSelCmd_valid [OF assms(4)] by blast
  define s1 where "s1 = ack_ack_body CFG_PRT s"
  have a: "react (AckAckEv CFG_PRT) s = Inr s1" by (simp add: s1_def react_AckAck assms(2))
  have f1: "sx_tasks s1 = []" "sx_init_state s1 = ReceivedProtoAck" "rateSelCmd s1 = Inr rate"
      "last (sx_published s1) = PubCmd ConfigDefaultCmd"
    using assms(1,2) r(1)
    by (simp_all add: s1_def ack_ack_body_def Let_def publish_def rateSelCmd_def split: if_splits)
  define s2 where "s2 = send rate True s1"
  have b: "react ConfigDefaultCmd s1 = Inr s2"
    using f1 r(2) by (intro react_ConfigDefault)
      (simp_all add: s2_def handle_ConfigDefault_def enqueueMessage_def is_allowed_def send_def)
  define s3 where "s3 = ack_ack_body CFG_RATE s2"
  have c: "react (AckAckEv CFG_RATE) s2 = Inr s3"
    unfolding s3_def by (rule react_AckAck) (simp add: s2_def send_def Let_def f1)
  have f3: "sx_tasks s3 = []" "sx_init_state s3 = ReceivedRateAck" "sx_protocolVersion s3 = None"
      "last (sx_published s3) = PubCmd ConfigDefaultCmd" "sx_rate_order s3 = sx_rate_order s"
      "sx_model s3 = sx_model s" "sx_queuedCmds s3 = sx_queuedCmds s" "sx_timer s3 = sx_timer s"
      "sx_tx_tasks s3 = sx_tx_tasks s @ [raw_message_string rate]"
    using assms(1-3)
    by (simp_all add: s3_def s2_def s1_def ack_ack_body_def Let_def publish_def send_def msg_id_simps)
  obtain s4 where d: "configure s3 = Inr s4" "sx_init_state s4 = Ready"
      "sx_tx_tasks s4 = sx_tx_tasks s3 @
        map (raw_message_string \<circ> fst) (default_messages (sx_model s3) (sx_rate_order s3))"
      "sx_queuedCmds s4 = sx_queuedCmds s3 @ [svinfo_config, sat_config]"
      "sx_tasks s4 = sx_tasks s3" "sx_timer s4 = sx_timer s3"
    using configure_sends [of s3] f3 assms(5) by auto
  have e: "react ConfigDefaultCmd s3 = Inr s4"
    using d f3 by (intro react_ConfigDefault) (simp_all add: handle_ConfigDefault_def)
  show ?thesis using r(1) a f1(4) b c f3 d e by auto
qed

theorem handshake_completes_witness:
  "\<exists>s1 s2 s3 s4. react (AckAckEv CFG_PRT) started = Inr s1 \<and> react ConfigDefaultCmd s1 = Inr s2
    \<and> react (AckAckEv CFG_RATE) s2 = Inr s3 \<and> react ConfigDefaultCmd s3 = Inr s4
    \<and> sx_init_state s4 = Ready"
proof -
  have "sx_init_state started = Connecting" "sx_tasks started = []"
    "sx_protocolVersion started = None" "valid_rates started"
    "\<forall>(i, port, rate) \<in> set (sx_rate_order started). port \<le> 6"
    by (simp_all add: started_def sx_constructed_def send_def Let_def valid_rates_def defaultRates_def)
  from handshake_completes [OF this] show ?thesis by blast
qed

section \<open>Version-dependent commands\<close>

text \<open>The messages a queue of version-dependent rate commands stands for.\<close>

definition entry_messages :: "UbxProtVersion \<Rightarrow> version_entry \<Rightarrow> (ubx_message \<times> bool) list" where
  "entry_messages v e =
     (if applies e v then (case ve_cmd e of RateCmd i port rate \<Rightarrow> [rate_message (i, port, rate)]
                           | GnssCmd cfgs \<Rightarrow> (case gnss_payload (Some v) cfgs of Inl _ \<Rightarrow> []
                               | Inr p \<Rightarrow> [(\<lparr>m_full_id = CFG_GNSS, m_payload = p\<rparr>, True)]))
      else [])"

definition valid_entry :: "version_entry \<Rightarrow> bool" where
  "valid_entry e = (case ve_cmd e of RateCmd i port rate \<Rightarrow> port \<le> 6 | GnssCmd cfgs \<Rightarrow> True)"

definition version_known :: "UbxProtVersion \<Rightarrow> sx \<Rightarrow> bool" where
  "version_known v s \<longleftrightarrow> sx_init_state s = Ready \<and>
     (\<exists>gv. sx_protocolVersion s = Some gv \<and> getProtVersion (gv_prot gv) = Some v)"

lemma sends_version_known: "sends s ms s' \<Longrightarrow> version_known v s \<Longrightarrow> version_known v s'"
  by (simp add: sends_def version_known_def)

lemma sends_entry:
  assumes "version_known v s" and "valid_entry e"
  shows "\<exists>s'. (if applies e v then handle_version_cmd (ve_cmd e) s else Inr s) = Inr s'
    \<and> sends s (entry_messages v e) s'"
proof (cases "applies e v")
  case True
  show ?thesis
  proof (cases "ve_cmd e")
    case (RateCmd i port rate)
    then show ?thesis
      using assms True sends_MsgRate [of s port i rate]
      by (simp add: version_known_def valid_entry_def handle_version_cmd_def entry_messages_def)
  next
    case (GnssCmd cfgs)
    then show ?thesis
      using assms True
      by (auto simp: version_known_def handle_version_cmd_def entry_messages_def
          handle_GnssConfig_def gnss_payload_def intro!: sends_publish sends_Ready)
  qed
qed (simp add: sends_Nil entry_messages_def)

lemma sends_run_entries:
  "version_known v s \<Longrightarrow> \<forall>e \<in> set config. valid_entry e \<Longrightarrow>
    \<exists>s'. run_entries v config s = Inr s' \<and> sends s (concat (map (entry_messages v) config)) s'"
proof (induction config arbitrary: s)
  case Nil
  then show ?case by (simp add: run_entries_def sends_Nil)
next
  case (Cons e config)
  obtain s1 where 1: "(if applies e v then handle_version_cmd (ve_cmd e) s else Inr s) = Inr s1"
      "sends s (entry_messages v e) s1"
    using sends_entry Cons.prems by (metis list.set_intros(1))
  obtain s2 where 2: "run_entries v config s1 = Inr s2"
      "sends s1 (concat (map (entry_messages v) config)) s2"
    using Cons.IH [OF sends_version_known [OF 1(2) Cons.prems(1)]] Cons.prems(2) by auto
  from 1(1) 2(1) sends_trans [OF 1(2) 2(2)] show ?case by (auto simp: run_entries_def)
qed

definition sends_all :: "sx \<Rightarrow> (ubx_message \<times> bool) list \<Rightarrow> sx \<Rightarrow> bool" where
  "sends_all s ms s' \<longleftrightarrow> sx_init_state s' = sx_init_state s \<and> sx_queuedCmds s' = []
     \<and> sx_tx_tasks s' = sx_tx_tasks s @ map (raw_message_string \<circ> fst) ms
     \<and> sx_pending s' = sx_pending s @ map fst (filter snd ms)"

lemma sends_queue:
  "version_known v s \<Longrightarrow> sx_queuedCmds s = q \<Longrightarrow> \<forall>config \<in> set q. \<forall>e \<in> set config. valid_entry e \<Longrightarrow>
    \<exists>s'. for_each (\<lambda>config s. run_entries v config (s\<lparr>sx_queuedCmds := tl (sx_queuedCmds s)\<rparr>)) q s = Inr s'
      \<and> sends_all s (concat (map (entry_messages v) (concat q))) s'"
proof (induction q arbitrary: s)
  case Nil
  then show ?case by (simp add: sends_all_def)
next
  case (Cons config q)
  let ?s0 = "s\<lparr>sx_queuedCmds := q\<rparr>"
  have "version_known v ?s0" using Cons.prems(1) by (simp add: version_known_def)
  then obtain s1 where 1: "run_entries v config ?s0 = Inr s1"
      "sends ?s0 (concat (map (entry_messages v) config)) s1"
    using sends_run_entries [of v ?s0 config] Cons.prems(3) by auto
  then have "version_known v s1" "sx_queuedCmds s1 = q"
    using \<open>version_known v ?s0\<close> by (auto simp: sends_version_known) (simp add: sends_def)
  then obtain s' where 2: "for_each (\<lambda>config s. run_entries v config
        (s\<lparr>sx_queuedCmds := tl (sx_queuedCmds s)\<rparr>)) q s1 = Inr s'"
      "sends_all s1 (concat (map (entry_messages v) (concat q))) s'"
    using Cons.IH [of s1] Cons.prems(3) by auto
  from 1 2 Cons.prems(2) show ?case by (auto simp: sends_def sends_all_def)
qed

text \<open>
  C12: when the receiver's version arrives and its text is a version \<open>v\<close>, every queued
  version-dependent command is processed exactly once, in order: the messages handed to the
  transmit strand are exactly those of the entries that apply to \<open>v\<close>, each tracked until it is
  acknowledged, and the queue is empty.
\<close>

theorem version_releases_queue:
  assumes "sx_init_state s = Ready" and "sx_protocolVersion s = None"
    and "getProtVersion (gv_prot gv) = Some v"
    and "\<forall>config \<in> set (sx_queuedCmds s). \<forall>e \<in> set config. valid_entry e"
  shows "\<exists>s' ms. handle_GpsVersion gv s = Inr s'
    \<and> ms = concat (map (entry_messages v) (concat (sx_queuedCmds s)))
    \<and> sx_queuedCmds s' = []
    \<and> sx_tx_tasks s' = sx_tx_tasks s @ map (raw_message_string \<circ> fst) ms
    \<and> sx_pending s' = sx_pending s @ map fst (filter snd ms)"
proof -
  let ?s = "s\<lparr>sx_protocolVersion := Some gv\<rparr>"
  have "version_known v ?s" using assms(1,3) by (simp add: version_known_def)
  from sends_queue [OF this refl] assms(4) show ?thesis
    by (auto simp: handle_GpsVersion_def assms(2,3) processQueuedCmds_def sends_all_def)
qed

definition version_18 :: GpsVersion where
  "version_18 = \<lparr>gv_hwString = [], gv_swString = [], gv_prot = [0x31, 0x38, 0x2e, 0x30, 0x30]\<rparr>"

lemma version_18_parsed: "getProtVersion (gv_prot version_18) = Some \<lparr>major = 18, minor = 0\<rparr>"
  by code_simp

theorem version_releases_queue_witness:
  "\<exists>s'. handle_GpsVersion version_18
      (started\<lparr>sx_init_state := Ready, sx_queuedCmds := [sat_config]\<rparr>) = Inr s'
    \<and> sx_tx_tasks s' = sx_tx_tasks started @ [raw_message_string (fst (rate_message (NAV_SAT, 1, 69)))]"
proof -
  let ?s = "started\<lparr>sx_init_state := Ready, sx_queuedCmds := [sat_config]\<rparr>"
  have v: "\<forall>config \<in> set (sx_queuedCmds ?s). \<forall>e \<in> set config. valid_entry e"
    by (simp add: sat_config_def valid_entry_def)
  have n: "sx_protocolVersion ?s = None"
    by (simp add: started_def sx_constructed_def send_def Let_def)
  have "concat (map (entry_messages \<lparr>major = 18, minor = 0\<rparr>) sat_config) = [rate_message (NAV_SAT, 1, 69)]"
    by (simp add: sat_config_def entry_messages_def applies_def version_less_def max_version_def)
  with version_releases_queue [OF _ n version_18_parsed v] show ?thesis by auto
qed

text \<open>
  which satellite message the default configuration enables. Below protocol version 15.0 it is
  NAV-SVINFO; above it NAV-SVINFO is disabled and NAV-SAT enabled. At exactly 15.0 all three entries
  apply, since the bounds of an entry are both inclusive: NAV-SVINFO is enabled and disabled again,
  and NAV-SAT enabled, although the comment restricts NAV-SAT to versions above 15.0.
\<close>

theorem satellite_message_by_version:
  "concat (map (entry_messages v) (svinfo_config @ sat_config)) =
     (if v = \<lparr>major = 0, minor = 0\<rparr> then []
      else if version_less v \<lparr>major = 15, minor = 0\<rparr> then [rate_message (NAV_SVINFO, 1, 69)]
      else if v = \<lparr>major = 15, minor = 0\<rparr>
      then [rate_message (NAV_SVINFO, 1, 69), rate_message (NAV_SVINFO, 1, 0), rate_message (NAV_SAT, 1, 69)]
      else if major v = - 1 \<and> minor v \<noteq> 0 then []
      else [rate_message (NAV_SVINFO, 1, 0), rate_message (NAV_SAT, 1, 69)])"
proof -
  obtain M m where v: "v = \<lparr>major = M, minor = m\<rparr>" by (cases v)
  have top: "\<not> - 1 < M" by (simp add: not_less)
  have low: "m < 1 \<longleftrightarrow> m = 0" by (simp add: word_less_nat_alt unat_eq_0)
  consider "M = 0" | "M \<noteq> 0" "M < 15" | "M = 15" | "15 < M" "M \<noteq> - 1" | "M = - 1"
    by fastforce
  then show ?thesis
    by cases (auto simp: v svinfo_config_def sat_config_def entry_messages_def applies_def
        version_less_def max_version_def top low word_gt_0)
qed

section \<open>The transmit queue\<close>

text \<open>
  C14: frames leave the transmit strand in the order in which they were posted, each exactly once, and never
  two at a time: whatever way posts and successful completions interleave, what was written followed by what is
  queued is what was there at the start followed by the posted frames, and the writes that were started and
  have not completed are one, that of the head of the queue, or none if the queue is empty.
\<close>

theorem tx_stream:
  assumes "sx_writing s = take 1 (sx_tx_queue s)"
  shows "sx_wire (sx_tx.exec es s) @ sx_tx_queue (sx_tx.exec es s) =
      (sx_wire s @ sx_tx_queue s) @ concat (map (\<lambda>e. case e of Inl f \<Rightarrow> [f] | Inr _ \<Rightarrow> []) es)
    \<and> sx_writing (sx_tx.exec es s) = take 1 (sx_tx_queue (sx_tx.exec es s))"
  using sx_tx.exec_stream [of s es] sx_tx.exec_inv [of s es] assms by (simp add: sx_tx.wq_inv_def)

theorem tx_stream_witness:
  "sx_wire (sx_tx.exec [Inl [1], Inl [2], Inr ()] started) @
     sx_tx_queue (sx_tx.exec [Inl [1], Inl [2], Inr ()] started) = [[1], [2]]"
proof -
  have "sx_writing started = take 1 (sx_tx_queue started)" "sx_wire started @ sx_tx_queue started = []"
    by (simp_all add: started_def sx_constructed_def send_def Let_def)
  from tx_stream [OF this(1), of "[Inl [1], Inl [2], Inr ()]"] this(2) show ?thesis by simp
qed

lemma tx_post_stalled:
  "sx_writing s = [] \<Longrightarrow> sx_tx_queue s \<noteq> [] \<Longrightarrow>
    sx_writing (tx_post f s) = [] \<and> sx_tx_queue (tx_post f s) = sx_tx_queue s @ [f]
    \<and> sx_wire (tx_post f s) = sx_wire s"
  by (simp add: tx_post_def do_write_def Let_def)

text \<open>
  a failed write stops the transmission for good. The frame stays at the head of the queue and
  no write is outstanding, so every later post finds a non-empty queue and starts no write: no
  frame is ever written again, however many are posted.
\<close>

theorem write_error_stalls:
  assumes "length (sx_writing s) = 1" and "sx_tx_queue s \<noteq> []"
  shows "sx_wire (fold tx_post fs (write_handler True s)) = sx_wire s
    \<and> sx_writing (fold tx_post fs (write_handler True s)) = []
    \<and> sx_tx_queue (fold tx_post fs (write_handler True s)) = sx_tx_queue s @ fs"
proof -
  have "sx_wire (fold tx_post fs t) = sx_wire t \<and> sx_writing (fold tx_post fs t) = []
      \<and> sx_tx_queue (fold tx_post fs t) = sx_tx_queue t @ fs"
    if "sx_writing t = []" "sx_tx_queue t \<noteq> []" for t
    using that by (induction fs arbitrary: t) (simp_all add: tx_post_stalled)
  moreover have "sx_writing (write_handler True s) = []" "sx_tx_queue (write_handler True s) = sx_tx_queue s"
    "sx_wire (write_handler True s) = sx_wire s"
    using assms(1) by (cases "sx_writing s"; simp add: write_handler_def Let_def)+
  ultimately show ?thesis using assms(2) by metis
qed

theorem write_error_stalls_witness:
  "sx_wire (fold tx_post [[1], [2]] (write_handler True (tx_post [0] started))) = []"
proof -
  have "length (sx_writing (tx_post [0] started)) = 1" "sx_tx_queue (tx_post [0] started) \<noteq> []"
    "sx_wire (tx_post [0] started) = []"
    by (simp_all add: started_def sx_constructed_def send_def tx_post_def do_write_def Let_def)
  from write_error_stalls [OF this(1,2), of "[[1], [2]]"] this(3) show ?thesis by simp
qed

section \<open>Reconnection\<close>

text \<open>
  a denied message or a read error takes the daemon down. Both schedule a call of
  \<open>makeConnection\<close>, nothing closes the port before it, and opening a port that is open fails
  (\<open>open_result\<close> stands for what Boost.Asio's \<open>serial_port::open\<close> reports, given whether the port
  is open), which \<open>makeConnection\<close> turns into an exception.
\<close>

theorem reconnect_throws:
  assumes "open_result True = Open_fails"
    and "\<not> is_allowed (sx_init_state s) msg"
  shows "0 < sx_timer (enqueueMessage msg t s)
    \<and> makeConnection (open_result True) (enqueueMessage msg t s) = Inl Runtime_error
    \<and> (\<exists>s'. read_handler True bs s = Inr s' \<and> 0 < sx_timer s'
        \<and> makeConnection (open_result True) s' = Inl Runtime_error)"
  using assms by (simp add: enqueueMessage_def retryLater_def makeConnection_def read_handler_def)

theorem reconnect_throws_witness:
  "makeConnection ((\<lambda>is_open. if is_open then Open_fails else Opened) True)
     (enqueueMessage \<lparr>m_full_id = MON_VER, m_payload = []\<rparr> False started) = Inl Runtime_error"
proof -
  let ?f = "\<lambda>is_open. if is_open then Open_fails else Opened"
  have "\<not> is_allowed (sx_init_state started) \<lparr>m_full_id = MON_VER, m_payload = []\<rparr>"
    by (simp add: started_def sx_constructed_def send_def Let_def is_allowed_def full_id_def msg_id_simps)
  from reconnect_throws [of ?f, OF _ this] show ?thesis by simp
qed
end
