(* ===== verification/Tcp_Connection.thy ===== *)
theory Tcp_Connection
  imports Prelude
begin

text \<open>
  \<open>TcpConnection\<close> (library/src/network/tcpconnection.h and .cpp): packets over a TCP socket. A frame
  is a header of 12 octets (magic, version, key, payload size, all big-endian), the payload and its
  FNV-1a checksum. What the packet handler is called with is the output of a step; the calls of the
  disconnect handler are recorded in \<open>tc_disconnects\<close>. Times come in as arguments. What the
  operating system reports for a read or a write is an argument of the completion handlers.
\<close>

section \<open>Frames\<close>

record tcp_packet =
  pk_key :: u16
  pk_payload :: "byte list"

definition kMagic :: u32 where "kMagic = 0x4D554F4E"
definition kHeaderSize :: nat where "kHeaderSize = 12"
definition kChecksumSize :: nat where "kChecksumSize = 4"
definition kFrameOverhead :: nat where "kFrameOverhead = kHeaderSize + kChecksumSize"
definition kProtocolVersion :: u16 where "kProtocolVersion = 1"
definition kMaxPayloadSize :: u64 where "kMaxPayloadSize = 1024 * 1024"

definition checksum_step :: "u32 \<Rightarrow> byte \<Rightarrow> u32" where
  "checksum_step hash b = (hash XOR ucast b) * 16777619"

definition checksum :: "byte list \<Rightarrow> u32" where
  "checksum payload = foldl checksum_step 2166136261 payload"

definition readU16 :: "byte list \<Rightarrow> u16" where
  "readU16 p = push_bit 8 (ucast (p ! 0)) OR ucast (p ! 1)"

definition readU32 :: "byte list \<Rightarrow> u32" where
  "readU32 p = push_bit 24 (ucast (p ! 0)) OR push_bit 16 (ucast (p ! 1))
     OR push_bit 8 (ucast (p ! 2)) OR ucast (p ! 3)"

definition writeU16 :: "u16 \<Rightarrow> byte list" where
  "writeU16 v = [ucast (drop_bit 8 v AND 0xFF), ucast (v AND 0xFF)]"

definition writeU32 :: "u32 \<Rightarrow> byte list" where
  "writeU32 v = [ucast (drop_bit 24 v AND 0xFF), ucast (drop_bit 16 v AND 0xFF),
     ucast (drop_bit 8 v AND 0xFF), ucast (v AND 0xFF)]"

definition buildFrame :: "u16 \<Rightarrow> byte list \<Rightarrow> byte list" where
  "buildFrame key payload =
     writeU32 kMagic @ writeU16 kProtocolVersion @ writeU16 key @
     writeU32 (word_of_nat (length payload)) @ payload @ writeU32 (checksum payload)"

section \<open>The connection\<close>

datatype tcp_error = Fault | Operation_not_supported | Message_size | Bad_descriptor | Io_error

record tcp =
  tc_open :: bool
  tc_reading :: bool
  tc_receiveBuffer :: "byte list"
  tc_writeQueue :: "byte list list"
  tc_writing :: "byte list list"
  tc_wire :: "byte list list"
  tc_lastReceived :: u64
  tc_disconnects :: "tcp_error list"

definition tcp_init :: "u64 \<Rightarrow> tcp" where
  "tcp_init now = \<lparr>tc_open = True, tc_reading = True, tc_receiveBuffer = [], tc_writeQueue = [], tc_writing = [],
     tc_wire = [], tc_lastReceived = now, tc_disconnects = []\<rparr>"

definition tcp_stop :: "tcp \<Rightarrow> tcp" where
  "tcp_stop s = s\<lparr>tc_open := False\<rparr>"

definition closeWithError :: "tcp_error \<Rightarrow> tcp \<Rightarrow> tcp" where
  "closeWithError ec s = s\<lparr>tc_open := False, tc_disconnects := tc_disconnects s @ [ec]\<rparr>"

definition consumeIncomingBytes :: "byte list \<Rightarrow> tcp \<Rightarrow> tcp" where
  "consumeIncomingBytes bs s = s\<lparr>tc_receiveBuffer := tc_receiveBuffer s @ bs\<rparr>"

text \<open>\<open>Some p\<close> when the code returns true, having called the packet handler with \<open>p\<close>.\<close>

definition tryParsePacket :: "u64 \<Rightarrow> tcp \<Rightarrow> tcp \<times> tcp_packet option" where
  "tryParsePacket now s =
     (let buf = tc_receiveBuffer s
      in if length buf < kHeaderSize then (s, None)
         else
           (let magic = readU32 buf;
                version = readU16 (drop 4 buf);
                key = readU16 (drop 6 buf);
                payloadSize32 = readU32 (drop 8 buf);
                payloadSize = unat payloadSize32
            in if magic \<noteq> kMagic then (closeWithError Fault s, None)
               else if version \<noteq> kProtocolVersion
               then (closeWithError Operation_not_supported s, None)
               else if ucast payloadSize32 > kMaxPayloadSize then (closeWithError Message_size s, None)
               else
                 (let frameSize = kFrameOverhead + payloadSize
                  in if length buf < frameSize then (s, None)
                     else
                       (let payload = take payloadSize (drop kHeaderSize buf);
                            checksumValue = readU32 (drop (kHeaderSize + payloadSize) buf)
                        in if checksumValue \<noteq> checksum payload
                           then (closeWithError Bad_descriptor s, None)
                           else (s\<lparr>tc_receiveBuffer := drop frameSize buf, tc_lastReceived := now\<rparr>,
                                 Some \<lparr>pk_key = key, pk_payload = payload\<rparr>)))))"

lemma tryParsePacket_shrinks:
  "tryParsePacket now s = (s', Some p) \<Longrightarrow> length (tc_receiveBuffer s') < length (tc_receiveBuffer s)"
  by (auto simp: tryParsePacket_def Let_def kFrameOverhead_def kHeaderSize_def split: if_splits)

function parse_all :: "u64 \<Rightarrow> tcp \<Rightarrow> tcp \<times> tcp_packet list" where
  "parse_all now s =
     (case tryParsePacket now s of (s', None) \<Rightarrow> (s', [])
      | (s', Some p) \<Rightarrow> (case parse_all now s' of (s'', ps) \<Rightarrow> (s'', p # ps)))"
  by pat_completeness auto
termination
  by (relation "measure (\<lambda>(now, s). length (tc_receiveBuffer s))") (auto dest: tryParsePacket_shrinks [OF sym])

declare parse_all.simps [simp del]

text \<open>The completion handler of \<open>async_read_some\<close>.\<close>

definition tcp_read_handler :: "tcp_error option \<Rightarrow> byte list \<Rightarrow> u64 \<Rightarrow> tcp \<Rightarrow> tcp \<times> tcp_packet list" where
  "tcp_read_handler ec bs now s =
     (case ec of Some e \<Rightarrow> (closeWithError e (s\<lparr>tc_reading := False\<rparr>), [])
      | None \<Rightarrow> parse_all now (consumeIncomingBytes bs s))"

text \<open>
  The reads of a connection: a read of a closed socket fails, a read of an open one delivers a
  chunk, and after a failed read no other one is started.
\<close>

definition read_chunk :: "u64 \<Rightarrow> tcp \<Rightarrow> byte list \<Rightarrow> tcp \<times> tcp_packet list" where
  "read_chunk now s bs =
     (if \<not> tc_reading s then (s, [])
      else if tc_open s then tcp_read_handler None bs now s
      else tcp_read_handler (Some Bad_descriptor) [] now s)"

fun read_chunks :: "tcp \<Rightarrow> (u64 \<times> byte list) list \<Rightarrow> tcp \<times> tcp_packet list" where
  "read_chunks s [] = (s, [])"
| "read_chunks s ((now, c) # cs) =
     (case read_chunk now s c of (s1, out1) \<Rightarrow>
        (case read_chunks s1 cs of (s2, out2) \<Rightarrow> (s2, out1 @ out2)))"

section \<open>Writing\<close>

definition tcp_do_write :: "tcp \<Rightarrow> tcp" where
  "tcp_do_write s = s\<lparr>tc_writing := tc_writing s @ [hd (tc_writeQueue s)]\<rparr>"

definition sendPacket :: "u16 \<times> byte list \<Rightarrow> tcp \<Rightarrow> tcp" where
  "sendPacket = (\<lambda>(key, payload) s.
     (let writing = tc_writeQueue s \<noteq> [];
          s = s\<lparr>tc_writeQueue := tc_writeQueue s @ [buildFrame key payload]\<rparr>
      in if \<not> writing then tcp_do_write s else s))"

definition tcp_write_handler :: "tcp_error option \<Rightarrow> tcp \<Rightarrow> tcp" where
  "tcp_write_handler ec s =
     (let frame = hd (tc_writing s); s = s\<lparr>tc_writing := tl (tc_writing s)\<rparr>
      in case ec of Some e \<Rightarrow> closeWithError e s
         | None \<Rightarrow>
             (let s = s\<lparr>tc_wire := tc_wire s @ [frame],
                        tc_writeQueue := tl (tc_writeQueue s)\<rparr>
              in if tc_writeQueue s \<noteq> [] then tcp_do_write s else s))"

text \<open>\<open>post_frame\<close> is the task of \<open>sendPacket\<close> once the frame is built.\<close>

definition post_frame :: "byte list \<Rightarrow> tcp \<Rightarrow> tcp" where
  "post_frame frame s =
     (let s' = s\<lparr>tc_writeQueue := tc_writeQueue s @ [frame]\<rparr>
      in if tc_writeQueue s = [] then tcp_do_write s' else s')"

lemma sendPacket_post: "sendPacket (key, payload) = post_frame (buildFrame key payload)"
  by (simp add: sendPacket_def post_frame_def fun_eq_iff Let_def)

interpretation tcp_tx: write_queue post_frame "tcp_write_handler None" tc_writeQueue tc_writing tc_wire
  by unfold_locales (auto simp: post_frame_def tcp_write_handler_def tcp_do_write_def Let_def take_Suc)


section \<open>The reference decoder\<close>

text \<open>What is at the front of the receive buffer, and what a whole octet stream stands for.\<close>

datatype frame_result = Incomplete | Bad tcp_error | Frame tcp_packet nat

definition next_frame :: "byte list \<Rightarrow> frame_result" where
  "next_frame buf =
     (if length buf < 12 then Incomplete
      else if readU32 buf \<noteq> kMagic then Bad Fault
      else if readU16 (drop 4 buf) \<noteq> kProtocolVersion then Bad Operation_not_supported
      else (let n = unat (readU32 (drop 8 buf))
            in if ucast (readU32 (drop 8 buf)) > kMaxPayloadSize then Bad Message_size
               else if length buf < 16 + n then Incomplete
               else if readU32 (drop (12 + n) buf) \<noteq> checksum (take n (drop 12 buf)) then Bad Bad_descriptor
               else Frame \<lparr>pk_key = readU16 (drop 6 buf), pk_payload = take n (drop 12 buf)\<rparr> (16 + n)))"

lemma next_frame_bounds: "next_frame buf = Frame p n \<Longrightarrow> 16 \<le> n \<and> n \<le> length buf"
  by (auto simp: next_frame_def Let_def split: if_splits)

function decode :: "byte list \<Rightarrow> tcp_packet list \<times> byte list \<times> tcp_error option" where
  "decode buf =
     (case next_frame buf of Incomplete \<Rightarrow> ([], buf, None)
      | Bad e \<Rightarrow> ([], buf, Some e)
      | Frame p n \<Rightarrow> (case decode (drop n buf) of (ps, rest, e) \<Rightarrow> (p # ps, rest, e)))"
  by pat_completeness auto
termination by (relation "measure length") (auto dest: next_frame_bounds)

declare decode.simps [simp del]

lemma tryParsePacket_next:
  "tryParsePacket now s =
     (case next_frame (tc_receiveBuffer s) of Incomplete \<Rightarrow> (s, None)
      | Bad e \<Rightarrow> (closeWithError e s, None)
      | Frame p n \<Rightarrow> (s\<lparr>tc_receiveBuffer := drop n (tc_receiveBuffer s), tc_lastReceived := now\<rparr>, Some p))"
  by (simp add: tryParsePacket_def next_frame_def Let_def kFrameOverhead_def kHeaderSize_def
      kChecksumSize_def)

text \<open>The loop of the read handler computes the reference decoder.\<close>

lemma parse_all_decode:
  "decode (tc_receiveBuffer s) = (ps, rest, e) \<Longrightarrow>
    snd (parse_all now s) = ps \<and> tc_receiveBuffer (fst (parse_all now s)) = rest
    \<and> tc_open (fst (parse_all now s)) = (tc_open s \<and> e = None)
    \<and> tc_reading (fst (parse_all now s)) = tc_reading s
    \<and> tc_disconnects (fst (parse_all now s)) =
        tc_disconnects s @ (case e of None \<Rightarrow> [] | Some err \<Rightarrow> [err])"
proof (induction now s arbitrary: ps rule: parse_all.induct)
  case (1 now s)
  show ?case
  proof (cases "next_frame (tc_receiveBuffer s)")
    case Incomplete
    then have "tryParsePacket now s = (s, None)" by (simp add: tryParsePacket_next)
    then have "parse_all now s = (s, [])" by (subst parse_all.simps) simp
    moreover have "decode (tc_receiveBuffer s) = ([], tc_receiveBuffer s, None)"
      by (simp add: decode.simps [of "tc_receiveBuffer s"] Incomplete)
    ultimately show ?thesis using "1.prems" by auto
  next
    case (Bad err)
    then have "tryParsePacket now s = (closeWithError err s, None)" by (simp add: tryParsePacket_next)
    then have "parse_all now s = (closeWithError err s, [])" by (subst parse_all.simps) simp
    moreover have "decode (tc_receiveBuffer s) = ([], tc_receiveBuffer s, Some err)"
      by (simp add: decode.simps [of "tc_receiveBuffer s"] Bad)
    ultimately show ?thesis using "1.prems" by (auto simp: closeWithError_def)
  next
    case (Frame p n)
    let ?s = "s\<lparr>tc_receiveBuffer := drop n (tc_receiveBuffer s), tc_lastReceived := now\<rparr>"
    obtain qs where q: "decode (drop n (tc_receiveBuffer s)) = (qs, rest, e)" "ps = p # qs"
      using "1.prems" Frame by (auto simp: decode.simps [of "tc_receiveBuffer s"] split: prod.splits)
    have t: "tryParsePacket now s = (?s, Some p)" by (simp add: tryParsePacket_next Frame)
    obtain s2 qs2 where p: "parse_all now ?s = (s2, qs2)" by fastforce
    then have "parse_all now s = (s2, p # qs2)"
      by (subst parse_all.simps) (simp add: t)
    with "1.IH" [OF t [symmetric] refl, of qs] q p show ?thesis by simp
  qed
qed

lemma readU_append:
  "2 \<le> length p \<Longrightarrow> readU16 (p @ q) = readU16 p"
  "4 \<le> length p \<Longrightarrow> readU32 (p @ q) = readU32 p"
  by (auto simp: readU16_def readU32_def nth_append)

lemma next_frame_append:
  assumes "next_frame buf \<noteq> Incomplete" shows "next_frame (buf @ ext) = next_frame buf"
proof -
  have 12: "12 \<le> length buf" using assms by (auto simp: next_frame_def split: if_splits)
  have r: "readU32 (buf @ ext) = readU32 buf" "readU16 (drop 4 (buf @ ext)) = readU16 (drop 4 buf)"
    "readU16 (drop 6 (buf @ ext)) = readU16 (drop 6 buf)"
    "readU32 (drop 8 (buf @ ext)) = readU32 (drop 8 buf)"
    using 12 by (simp_all add: readU_append)
  have c: "readU32 (drop (12 + n) (buf @ ext)) = readU32 (drop (12 + n) buf)"
      "take n (drop 12 (buf @ ext)) = take n (drop 12 buf)" if "16 + n \<le> length buf" for n
    using that by (simp_all add: readU_append)
  show ?thesis
    using assms 12 unfolding next_frame_def Let_def r by (auto simp: c readU_append split: if_splits)
qed

lemma decode_append:
  "decode (buf @ ext) =
     (case decode buf of
        (ps, rest, Some e) \<Rightarrow> (ps, rest @ ext, Some e)
      | (ps, rest, None) \<Rightarrow> (case decode (rest @ ext) of (qs, rest', e) \<Rightarrow> (ps @ qs, rest', e)))"
proof (induction buf rule: decode.induct)
  case (1 buf)
  show ?case
  proof (cases "next_frame buf")
    case Incomplete
    then show ?thesis by (simp add: decode.simps [of buf])
  next
    case (Bad err)
    then show ?thesis using next_frame_append [of buf ext]
      by (simp add: decode.simps [of buf] decode.simps [of "buf @ ext"])
  next
    case (Frame p n)
    then have "next_frame (buf @ ext) = Frame p n" "n \<le> length buf"
      using next_frame_append [of buf ext] next_frame_bounds [of buf p n] by auto
    then show ?thesis using "1.IH" [OF Frame]
      by (simp add: decode.simps [of buf] decode.simps [of "buf @ ext"] Frame
          split: prod.splits option.splits)
  qed
qed


section \<open>Reads of any size\<close>

text \<open>A connection whose buffer holds nothing the loop could still work on.\<close>

definition tcp_drained :: "tcp \<Rightarrow> bool" where
  "tcp_drained s \<longleftrightarrow> tc_open s \<and> tc_reading s \<and> next_frame (tc_receiveBuffer s) = Incomplete"

lemma decode_rest:
  "decode buf = (ps, rest, e) \<Longrightarrow> (e = None \<longleftrightarrow> next_frame rest = Incomplete)"
proof (induction buf arbitrary: ps rule: decode.induct)
  case (1 buf)
  then show ?case
    by (subst (asm) (2) decode.simps) (auto split: frame_result.splits prod.splits)
qed

lemma decode_Incomplete: "next_frame buf = Incomplete \<Longrightarrow> decode buf = ([], buf, None)"
  by (simp add: decode.simps [of buf])

lemma closed_reads_nothing: "\<not> tc_open s \<Longrightarrow> snd (read_chunks s cs) = [] \<and> \<not> tc_open (fst (read_chunks s cs))"
proof (induction s cs rule: read_chunks.induct)
  case (2 s now c cs)
  have "snd (read_chunk now s c) = []" "\<not> tc_open (fst (read_chunk now s c))"
    using "2.prems" by (auto simp: read_chunk_def tcp_read_handler_def closeWithError_def)
  then show ?case using "2.IH" by (auto split: prod.splits)
qed simp

lemma read_chunk_open:
  assumes "tcp_drained s" and "decode (tc_receiveBuffer s @ c) = (ps, rest, e)"
  shows "snd (read_chunk now s c) = ps \<and> tc_receiveBuffer (fst (read_chunk now s c)) = rest
    \<and> tc_open (fst (read_chunk now s c)) = (e = None)
    \<and> (e = None \<longrightarrow> tcp_drained (fst (read_chunk now s c)))
    \<and> tc_disconnects (fst (read_chunk now s c)) =
        tc_disconnects s @ (case e of None \<Rightarrow> [] | Some err \<Rightarrow> [err])"
proof -
  have "decode (tc_receiveBuffer (consumeIncomingBytes c s)) = (ps, rest, e)"
    using assms(2) by (simp add: consumeIncomingBytes_def)
  from parse_all_decode [OF this, of now] decode_rest [OF assms(2)] assms(1) show ?thesis
    by (auto simp: tcp_drained_def read_chunk_def tcp_read_handler_def consumeIncomingBytes_def)
qed

lemma read_chunks_decode:
  "tcp_drained s \<Longrightarrow> decode (tc_receiveBuffer s @ concat (map snd cs)) = (ps, rest, e) \<Longrightarrow>
    snd (read_chunks s cs) = ps \<and> tc_open (fst (read_chunks s cs)) = (e = None)
    \<and> (e = None \<longrightarrow> tc_receiveBuffer (fst (read_chunks s cs)) = rest)"
proof (induction cs arbitrary: s ps)
  case Nil
  then show ?case by (simp add: tcp_drained_def decode_Incomplete)
next
  case (Cons nc cs)
  obtain now c where nc: "nc = (now, c)" by fastforce
  obtain ps1 rest1 e1 where d1: "decode (tc_receiveBuffer s @ c) = (ps1, rest1, e1)"
    by (metis prod_cases3)
  obtain s1 out1 where r: "read_chunk now s c = (s1, out1)" by fastforce
  note 1 = read_chunk_open [OF Cons.prems(1) d1, of now, unfolded r, simplified]
  obtain s2 out2 where r2: "read_chunks s1 cs = (s2, out2)" by fastforce
  have d: "decode ((tc_receiveBuffer s @ c) @ concat (map snd cs)) = (ps, rest, e)"
    using Cons.prems(2) nc by simp
  show ?case
  proof (cases e1)
    case None
    then have dr: "tcp_drained s1" "tc_receiveBuffer s1 = rest1" using 1 by auto
    obtain qs where q: "decode (rest1 @ concat (map snd cs)) = (qs, rest, e)" "ps = ps1 @ qs"
      using d unfolding decode_append [of "tc_receiveBuffer s @ c"] d1 None
      by (auto split: prod.splits)
    from Cons.IH [OF dr(1), of qs] q dr(2) r r2 1 nc show ?thesis by auto
  next
    case (Some err)
    then have c: "\<not> tc_open s1" "out1 = ps1" using 1 by auto
    have "ps = ps1" "e = Some err"
      using d unfolding decode_append [of "tc_receiveBuffer s @ c"] d1 Some by auto
    with closed_reads_nothing [OF c(1), of cs] c(2) r r2 nc show ?thesis by auto
  qed
qed

text \<open>
  C20: how TCP cuts the stream into reads does not matter. Whatever octets arrive, valid frames or
  not, the packets delivered over all reads are exactly those that the reference decoder finds in
  the whole stream, and the connection stays open exactly when the decoder finds no error.
\<close>

theorem tcp_chunks_equal_stream:
  assumes "decode (concat (map snd cs)) = (ps, rest, e)"
  shows "snd (read_chunks (tcp_init now) cs) = ps
    \<and> (tc_open (fst (read_chunks (tcp_init now) cs)) \<longleftrightarrow> e = None)
    \<and> (e = None \<longrightarrow> tc_receiveBuffer (fst (read_chunks (tcp_init now) cs)) = rest)"
proof -
  have "tcp_drained (tcp_init now)" by (simp add: tcp_drained_def tcp_init_def next_frame_def)
  from read_chunks_decode [OF this, of cs ps rest e] assms show ?thesis by (simp add: tcp_init_def)
qed

theorem tcp_chunks_equal_stream_witness:
  "snd (read_chunks (tcp_init 0) [(1, [0x4D, 0x55, 0x4F]), (2, [0x4E, 0, 1, 0, 9, 0, 0, 0, 0, 0x81, 0x1c]), (3, [0x9d, 0xc5])])
     = [\<lparr>pk_key = 9, pk_payload = []\<rparr>]"
proof -
  have "decode (concat (map snd [(1 :: u64, [0x4D, 0x55, 0x4F]), (2, [0x4E, 0, 1, 0, 9, 0, 0, 0, 0, 0x81, 0x1c]), (3, [0x9d, 0xc5])]))
    = ([\<lparr>pk_key = 9, pk_payload = []\<rparr>], [], None)"
    by code_simp
  from tcp_chunks_equal_stream [OF this] show ?thesis by blast
qed

section \<open>Frames that were sent\<close>

lemma readU_write:
  "readU32 (writeU32 v @ xs) = v" "readU16 (writeU16 w @ xs) = w"
proof -
  have "push_bit 24 (ucast (ucast (drop_bit 24 v AND 0xFF) :: byte)) OR
      push_bit 16 (ucast (ucast (drop_bit 16 v AND 0xFF) :: byte)) OR
      push_bit 8 (ucast (ucast (drop_bit 8 v AND 0xFF) :: byte)) OR
      ucast (ucast (v AND 0xFF) :: byte) = v" (is "?l = v")
  proof (rule bit_word_eqI)
    fix n :: nat
    assume "n < LENGTH(32)"
    then consider "n < 8" | "8 \<le> n" "n < 16" | "16 \<le> n" "n < 24" | "24 \<le> n" "n < 32"
      by fastforce
    then show "bit ?l n \<longleftrightarrow> bit v n" by cases (auto simp: bit_simps octet_simps)
  qed
  then show "readU32 (writeU32 v @ xs) = v" by (simp add: readU32_def writeU32_def numeral_3_eq_3)
  have "push_bit 8 (ucast (ucast (drop_bit 8 w AND 0xFF) :: byte)) OR
      ucast (ucast (w AND 0xFF) :: byte) = w"
    by (rule bit_word_eqI) (auto simp: bit_simps octet_simps)
  then show "readU16 (writeU16 w @ xs) = w" by (simp add: readU16_def writeU16_def)
qed

lemma length_write [simp]: "length (writeU32 v) = 4" "length (writeU16 w) = 2"
  by (simp_all add: writeU32_def writeU16_def)

lemma buildFrame_parts:
  assumes "length payload \<le> 1048576"
  shows "length (buildFrame key payload) = 16 + length payload"
    and "readU32 (buildFrame key payload @ xs) = kMagic"
    and "readU16 (drop 4 (buildFrame key payload @ xs)) = kProtocolVersion"
    and "readU16 (drop 6 (buildFrame key payload @ xs)) = key"
    and "readU32 (drop 8 (buildFrame key payload @ xs)) = word_of_nat (length payload)"
    and "take (length payload) (drop 12 (buildFrame key payload @ xs)) = payload"
    and "readU32 (drop (12 + length payload) (buildFrame key payload @ xs)) = checksum payload"
proof -
  let ?s = "word_of_nat (length payload) :: u32"
  have d: "drop 4 (buildFrame key payload @ xs) = writeU16 kProtocolVersion @ writeU16 key @
      writeU32 ?s @ payload @ writeU32 (checksum payload) @ xs"
    "drop 6 (buildFrame key payload @ xs) = writeU16 key @ writeU32 ?s @ payload @
      writeU32 (checksum payload) @ xs"
    "drop 8 (buildFrame key payload @ xs) = writeU32 ?s @ payload @ writeU32 (checksum payload) @ xs"
    "drop 12 (buildFrame key payload @ xs) = payload @ writeU32 (checksum payload) @ xs"
    "drop (12 + length payload) (buildFrame key payload @ xs) = writeU32 (checksum payload) @ xs"
    by (simp_all add: buildFrame_def)
  show "length (buildFrame key payload) = 16 + length payload" by (simp add: buildFrame_def)
  show "readU32 (buildFrame key payload @ xs) = kMagic" by (simp add: buildFrame_def readU_write)
  show "readU16 (drop 4 (buildFrame key payload @ xs)) = kProtocolVersion"
    and "readU16 (drop 6 (buildFrame key payload @ xs)) = key"
    and "readU32 (drop 8 (buildFrame key payload @ xs)) = ?s"
    and "take (length payload) (drop 12 (buildFrame key payload @ xs)) = payload"
    and "readU32 (drop (12 + length payload) (buildFrame key payload @ xs)) = checksum payload"
    unfolding d by (simp_all only: readU_write) simp
qed

lemma payload_size_word:
  assumes "n \<le> 1048576"
  shows "unat (word_of_nat n :: u32) = n" and "\<not> (ucast (word_of_nat n :: u32) :: u64) > kMaxPayloadSize"
proof -
  show n: "unat (word_of_nat n :: u32) = n" using assms by (simp add: unsigned_of_nat take_bit_nat_eq_self)
  have "unat (ucast (word_of_nat n :: u32) :: u64) = n"
    using assms by (simp add: unsigned_ucast_eq n take_bit_nat_eq_self)
  then show "\<not> (ucast (word_of_nat n :: u32) :: u64) > kMaxPayloadSize"
    using assms by (simp add: word_less_nat_alt kMaxPayloadSize_def)
qed

lemma next_frame_buildFrame:
  assumes "length payload \<le> 1048576"
  shows "next_frame (buildFrame key payload @ xs) =
    Frame \<lparr>pk_key = key, pk_payload = payload\<rparr> (16 + length payload)"
  unfolding next_frame_def Let_def buildFrame_parts(2-5) [OF assms] payload_size_word(1) [OF assms]
    buildFrame_parts(6,7) [OF assms]
  using buildFrame_parts(1) [OF assms, of key] payload_size_word(2) [OF assms] by simp

definition tcp_frame :: "tcp_packet \<Rightarrow> byte list" where
  "tcp_frame p = buildFrame (pk_key p) (pk_payload p)"

lemma decode_frames:
  "\<forall>p \<in> set ps. length (pk_payload p) \<le> 1048576 \<Longrightarrow> decode (concat (map tcp_frame ps)) = (ps, [], None)"
proof (induction ps)
  case Nil
  then show ?case by (simp add: decode.simps [of "[]"] next_frame_def)
next
  case (Cons p ps)
  let ?rest = "concat (map tcp_frame ps)"
  have l: "length (pk_payload p) \<le> 1048576" using Cons.prems by simp
  have "drop (16 + length (pk_payload p)) (tcp_frame p @ ?rest) = ?rest"
    using buildFrame_parts(1) [OF l] by (simp add: tcp_frame_def)
  moreover have "next_frame (tcp_frame p @ ?rest) = Frame p (16 + length (pk_payload p))"
    using next_frame_buildFrame [OF l, of "pk_key p" ?rest] by (simp add: tcp_frame_def)
  moreover have "decode ?rest = (ps, [], None)" using Cons by simp
  ultimately have "decode (tcp_frame p @ ?rest) = (p # ps, [], None)"
    by (subst decode.simps) simp
  then show ?case by simp
qed

text \<open>
  C21: packets of at most 1 MiB arrive as they were sent: however the octets of their frames are cut
  into reads, exactly these packets are delivered, in order, the connection stays open and nothing
  is left in the buffer.
\<close>

theorem tcp_stream_roundtrip:
  assumes "\<forall>p \<in> set ps. length (pk_payload p) \<le> 1024 * 1024"
    and "concat (map snd cs) = concat (map (\<lambda>p. buildFrame (pk_key p) (pk_payload p)) ps)"
  shows "snd (read_chunks (tcp_init now) cs) = ps \<and> tc_open (fst (read_chunks (tcp_init now) cs))
    \<and> tc_receiveBuffer (fst (read_chunks (tcp_init now) cs)) = []"
proof -
  have dr: "tcp_drained (tcp_init now)" by (simp add: tcp_drained_def tcp_init_def next_frame_def)
  have "decode (concat (map snd cs)) = (ps, [], None)"
    using decode_frames [of ps] assms by (simp add: tcp_frame_def [abs_def])
  with read_chunks_decode [OF dr, of cs ps "[]" None] show ?thesis by (simp add: tcp_init_def)
qed

theorem tcp_stream_roundtrip_witness:
  "snd (read_chunks (tcp_init 0) [(1, take 5 (buildFrame 7 [1, 2])), (2, drop 5 (buildFrame 7 [1, 2]) @ buildFrame 8 [])])
     = [\<lparr>pk_key = 7, pk_payload = [1, 2]\<rparr>, \<lparr>pk_key = 8, pk_payload = []\<rparr>]"
  using tcp_stream_roundtrip [of "[\<lparr>pk_key = 7, pk_payload = [1, 2]\<rparr>, \<lparr>pk_key = 8, pk_payload = []\<rparr>]"
      "[(1, take 5 (buildFrame 7 [1, 2])), (2, drop 5 (buildFrame 7 [1, 2]) @ buildFrame 8 [])]" 0]
  by (simp flip: append_assoc)

lemma Incomplete_bound: "next_frame buf = Incomplete \<Longrightarrow> length buf < 16 + 1048576"
proof -
  assume i: "next_frame buf = Incomplete"
  have "unat n \<le> 1048576" if "\<not> (ucast n :: u64) > kMaxPayloadSize" for n :: u32
  proof -
    have "unat n < 2 ^ LENGTH(32)" by (rule unsigned_less)
    then have "unat (ucast n :: u64) = unat n"
      by (simp add: unsigned_ucast_eq take_bit_nat_eq_self)
    with that show ?thesis by (simp add: not_less word_le_nat_alt kMaxPayloadSize_def)
  qed
  with i show ?thesis by (fastforce simp: next_frame_def Let_def split: if_splits)
qed

text \<open>
  the receive buffer is bounded. After any reads, a connection that is still open holds less
  than one maximal frame, 16 octets and 1 MiB: larger sizes in a header close it.
\<close>

theorem tcp_buffer_bounded:
  assumes "tc_open (fst (read_chunks (tcp_init now) cs))"
  shows "length (tc_receiveBuffer (fst (read_chunks (tcp_init now) cs))) < 16 + 1024 * 1024"
proof -
  obtain ps rest e where d: "decode (concat (map snd cs)) = (ps, rest, e)" by (metis prod_cases3)
  have dr: "tcp_drained (tcp_init now)" by (simp add: tcp_drained_def tcp_init_def next_frame_def)
  from read_chunks_decode [OF dr, of cs ps rest e] d assms
  have "e = None" "tc_receiveBuffer (fst (read_chunks (tcp_init now) cs)) = rest"
    by (auto simp: tcp_init_def)
  with decode_rest [OF d] Incomplete_bound [of rest] show ?thesis by simp
qed

theorem tcp_buffer_bounded_witness:
  "length (tc_receiveBuffer (fst (read_chunks (tcp_init 0) [(1, [0x4D, 0x55])]))) < 16 + 1024 * 1024"
proof (rule tcp_buffer_bounded)
  have "tcp_drained (tcp_init 0)" by (simp add: tcp_drained_def tcp_init_def next_frame_def)
  moreover have "decode (tc_receiveBuffer (tcp_init 0) @ concat (map snd [(1 :: u64, [0x4D, 0x55])])) =
      ([], [0x4D, 0x55], None)"
    by (simp add: tcp_init_def decode_Incomplete next_frame_def)
  ultimately show "tc_open (fst (read_chunks (tcp_init 0) [(1, [0x4D, 0x55])]))"
    using read_chunks_decode by blast
qed

section \<open>Corrupted frames\<close>

lemma checksum_step_inj:
  "checksum_step h b = checksum_step h' b' \<Longrightarrow> h XOR ucast b = h' XOR ucast b'"
proof -
  assume e: "checksum_step h b = checksum_step h' b'"
  have "(x * 16777619) * 899433627 = x" for x :: u32
  proof -
    have "(16777619 * 899433627 :: u32) = 1" by simp
    then show ?thesis by (simp only: mult.assoc mult_1_right)
  qed
  with e show ?thesis unfolding checksum_step_def by metis
qed

lemma checksum_fold_inj: "foldl checksum_step h bs = foldl checksum_step h' bs \<Longrightarrow> h = h'"
proof (induction bs arbitrary: h h')
  case (Cons b bs)
  then have "checksum_step h b = checksum_step h' b" by simp
  from checksum_step_inj [OF this] have "(h XOR ucast b) XOR ucast b = (h' XOR ucast b) XOR ucast b"
    by simp
  then show ?case by (simp add: xor.assoc)
qed simp

text \<open>FNV-1a tells apart two payloads that differ in one octet.\<close>

lemma checksum_single_change:
  assumes "k < length p" and "x \<noteq> p ! k"
  shows "checksum (p[k := x]) \<noteq> checksum p"
proof
  assume e: "checksum (p[k := x]) = checksum p"
  let ?h = "foldl checksum_step 2166136261 (take k p)"
  have "p[k := x] = take k p @ x # drop (Suc k) p" by (rule upd_conv_take_nth_drop [OF assms(1)])
  moreover have "p = take k p @ p ! k # drop (Suc k) p" by (rule id_take_nth_drop [OF assms(1)])
  ultimately have "foldl checksum_step (checksum_step ?h x) (drop (Suc k) p) =
      foldl checksum_step (checksum_step ?h (p ! k)) (drop (Suc k) p)"
    using e unfolding checksum_def by (metis foldl_Cons foldl_append)
  then have "?h XOR ucast x = ?h XOR ucast (p ! k)"
    by (intro checksum_step_inj) (rule checksum_fold_inj)
  then have "?h XOR (?h XOR ucast x) = ?h XOR (?h XOR ucast (p ! k))" by simp
  then have "(ucast x :: u32) = ucast (p ! k)" by (simp flip: xor.assoc)
  then have "ucast (ucast x :: u32) = (ucast (ucast (p ! k) :: u32) :: byte)" by simp
  moreover have "ucast (ucast b :: u32) = b" for b :: byte
    by (rule bit_word_eqI) (auto simp: bit_simps)
  ultimately have "x = p ! k" by simp
  with assms(2) show False by simp
qed

lemma write_readU:
  "4 \<le> length p \<Longrightarrow> writeU32 (readU32 p) = take 4 p"
  "2 \<le> length p \<Longrightarrow> writeU16 (readU16 p) = take 2 p"
proof -
  fix p :: "byte list"
  assume "4 \<le> length p"
  then obtain a b c d q where p: "p = a # b # c # d # q"
    by (auto simp: numeral_eq_Suc Suc_le_length_iff)
  have o: "ucast (drop_bit 24 (readU32 p) AND 0xFF) = a" "ucast (drop_bit 16 (readU32 p) AND 0xFF) = b"
    "ucast (drop_bit 8 (readU32 p) AND 0xFF) = c" "ucast (readU32 p AND 0xFF) = d"
    unfolding p readU32_def
    by (rule bit_word_eqI; auto simp: bit_simps octet_simps numeral_3_eq_3 dest: bit_imp_le_length)+
  show "writeU32 (readU32 p) = take 4 p" unfolding writeU32_def o by (simp add: p)
next
  fix p :: "byte list"
  assume "2 \<le> length p"
  then obtain a b q where p: "p = a # b # q" by (auto simp: numeral_eq_Suc Suc_le_length_iff)
  have o: "ucast (drop_bit 8 (readU16 p) AND 0xFF) = a" "ucast (readU16 p AND 0xFF) = b"
    unfolding p readU16_def
    by (rule bit_word_eqI; auto simp: bit_simps octet_simps dest: bit_imp_le_length)+
  show "writeU16 (readU16 p) = take 2 p" unfolding writeU16_def o by (simp add: p)
qed

lemma readU_single_change:
  "k < 4 \<Longrightarrow> 4 \<le> length p \<Longrightarrow> x \<noteq> p ! k \<Longrightarrow> readU32 (p[k := x]) \<noteq> readU32 p"
  "k < 2 \<Longrightarrow> 2 \<le> length p \<Longrightarrow> x \<noteq> p ! k \<Longrightarrow> readU16 (p[k := x]) \<noteq> readU16 p"
proof -
  assume a: "k < 4" "4 \<le> length p" "x \<noteq> p ! k"
  show "readU32 (p[k := x]) \<noteq> readU32 p"
  proof
    assume "readU32 (p[k := x]) = readU32 p"
    then have "take 4 (p[k := x]) ! k = take 4 p ! k"
      using write_readU(1) [of p] write_readU(1) [of "p[k := x]"] a by simp
    then show False using a by simp
  qed
next
  assume a: "k < 2" "2 \<le> length p" "x \<noteq> p ! k"
  show "readU16 (p[k := x]) \<noteq> readU16 p"
  proof
    assume "readU16 (p[k := x]) = readU16 p"
    then have "take 2 (p[k := x]) ! k = take 2 p ! k"
      using write_readU(2) [of p] write_readU(2) [of "p[k := x]"] a by simp
    then show False using a by simp
  qed
qed

lemma readU_update_out:
  "4 \<le> k \<Longrightarrow> readU32 (p[k := x]) = readU32 p"
  "2 \<le> k \<Longrightarrow> readU16 (p[k := x]) = readU16 p"
  by (simp_all add: readU32_def readU16_def)

lemma corrupt_frame_Bad:
  assumes len: "length payload \<le> 1048576" and k: "k < 16 + length payload" "k \<notin> {6..11}"
    and x: "x \<noteq> buildFrame key payload ! k"
  shows "\<exists>e. next_frame ((buildFrame key payload)[k := x]) = Bad e"
proof -
  let ?f = "buildFrame key payload" and ?n = "length payload"
  let ?g = "?f[k := x]"
  note parts = buildFrame_parts(1) [OF len, of key]
    buildFrame_parts(2-7) [OF len, of key "[]", unfolded append_Nil2]
  have l: "length ?g = 16 + ?n" using parts(1) by simp
  consider "k < 4" | "4 \<le> k" "k < 6" | "12 \<le> k" "k < 12 + ?n" | "12 + ?n \<le> k" using k by fastforce
  then show ?thesis
  proof cases
    case 1
    then have "readU32 ?g \<noteq> kMagic" using readU_single_change(1) [of k ?f x] x parts(1,2) by simp
    then show ?thesis using l by (simp add: next_frame_def)
  next
    case 2
    then have "readU32 ?g = kMagic" by (simp add: readU_update_out parts(2))
    moreover have "readU16 (drop 4 ?g) \<noteq> kProtocolVersion"
      using 2 readU_single_change(2) [of "k - 4" "drop 4 ?f" x] x parts(1,3)
      by (simp add: drop_update_swap)
    ultimately show ?thesis using l by (simp add: next_frame_def)
  next
    case 3
    have h: "readU32 ?g = kMagic" "readU16 (drop 4 ?g) = kProtocolVersion"
      "readU32 (drop 8 ?g) = word_of_nat ?n" "readU32 (drop (12 + ?n) ?g) = checksum payload"
      "take ?n (drop 12 ?g) = payload[k - 12 := x]"
      using 3 parts by (simp_all add: readU_update_out drop_update_swap drop_update_cancel take_update_swap)
    have "?f ! k = payload ! (k - 12)"
      using 3 parts(1) arg_cong [OF parts(6), of "\<lambda>p. p ! (k - 12)"] by simp
    then have "checksum (payload[k - 12 := x]) \<noteq> checksum payload"
      using 3 x by (intro checksum_single_change) auto
    then show ?thesis
      using l payload_size_word [OF len] unfolding next_frame_def Let_def h by (simp add: h)
  next
    case 4
    have b: "payload[k - 12 := x] = payload" by (rule list_update_beyond) (use 4 in simp)
    have h: "readU32 ?g = kMagic" "readU16 (drop 4 ?g) = kProtocolVersion"
      "readU32 (drop 8 ?g) = word_of_nat ?n" "take ?n (drop 12 ?g) = payload"
      using 4 parts by (simp_all add: readU_update_out drop_update_swap take_update_swap b)
    have "readU32 (drop (12 + ?n) ?g) \<noteq> checksum payload"
      using 4 k x parts(1,7) readU_single_change(1) [of "k - (12 + ?n)" "drop (12 + ?n) ?f" x]
      by (simp add: drop_update_swap)
    then show ?thesis
      using l payload_size_word [OF len] unfolding next_frame_def Let_def h by (simp add: h)
  qed
qed

text \<open>
  C23: a frame with one altered octet in the magic, the version, the payload or the checksum is never
  delivered: however it is cut into reads, no packet comes out and the connection is closed. (The
  key and the size are not covered by the checksum: an altered key is delivered as another key.)
\<close>

theorem tcp_rejects_corruption:
  assumes "length payload \<le> 1024 * 1024"
    and "k < length (buildFrame key payload)" and "k \<notin> {6..11}" and "x \<noteq> buildFrame key payload ! k"
    and "concat (map snd cs) = (buildFrame key payload)[k := x]"
  shows "snd (read_chunks (tcp_init now) cs) = [] \<and> \<not> tc_open (fst (read_chunks (tcp_init now) cs))"
proof -
  have len: "length payload \<le> 1048576" using assms(1) by simp
  obtain e where e: "next_frame ((buildFrame key payload)[k := x]) = Bad e"
    using corrupt_frame_Bad [OF len _ assms(3,4)] assms(2) buildFrame_parts(1) [OF len] by auto
  have "decode (concat (map snd cs)) = ([], concat (map snd cs), Some e)"
    unfolding assms(5) by (simp add: decode.simps [of "(buildFrame key payload)[k := x]"] e)
  moreover have "tcp_drained (tcp_init now)" by (simp add: tcp_drained_def tcp_init_def next_frame_def)
  ultimately show ?thesis
    using read_chunks_decode [of "tcp_init now" cs "[]" "concat (map snd cs)" "Some e"]
    by (simp add: tcp_init_def)
qed

theorem tcp_rejects_corruption_witness:
  "snd (read_chunks (tcp_init 0) [(1, (buildFrame 7 [1, 2])[12 := 5])]) = []"
proof -
  have "length (buildFrame 7 [1, 2]) = 18" "5 \<noteq> buildFrame 7 [1, 2] ! 12"
    by (simp_all add: buildFrame_def writeU32_def writeU16_def)
  from tcp_rejects_corruption [of "[1, 2]" 12 7 5 "[(1, (buildFrame 7 [1, 2])[12 := 5])]" 0] this
  show ?thesis by simp
qed

text \<open>
  packets are sent in the order of the calls, each frame exactly once and never two writes at a
  time: what was written followed by the queue is always the frames of the packets sent so far.
\<close>

fun tcp_run :: "((u16 \<times> byte list) + unit) list \<Rightarrow> tcp \<Rightarrow> tcp" where
  "tcp_run [] s = s"
| "tcp_run (Inl p # es) s = tcp_run es (sendPacket p s)"
| "tcp_run (Inr u # es) s = tcp_run es (if tc_writing s \<noteq> [] then tcp_write_handler None s else s)"

lemma tcp_run_exec:
  "tcp_run es s = tcp_tx.exec (map (map_sum (\<lambda>(k, p). buildFrame k p) id) es) s"
  by (induction es s rule: tcp_run.induct) (auto simp: sendPacket_post split: prod.splits)

theorem tcp_send_stream:
  "tc_wire (tcp_run es (tcp_init now)) @ tc_writeQueue (tcp_run es (tcp_init now)) =
      concat (map (\<lambda>e. case e of Inl (k, p) \<Rightarrow> [buildFrame k p] | Inr _ \<Rightarrow> []) es)
    \<and> tc_writing (tcp_run es (tcp_init now)) = take 1 (tc_writeQueue (tcp_run es (tcp_init now)))"
proof -
  have i: "tcp_tx.wq_inv (tcp_init now)" by (simp add: tcp_tx.wq_inv_def tcp_init_def)
  have c: "map ((\<lambda>e. case e of Inl f \<Rightarrow> [f] | Inr _ \<Rightarrow> []) \<circ> map_sum (\<lambda>(k, p). buildFrame k p) id) es =
      map (\<lambda>e. case e of Inl (k, p) \<Rightarrow> [buildFrame k p] | Inr _ \<Rightarrow> []) es"
    by (auto split: sum.splits)
  show ?thesis
    using tcp_tx.exec_stream [OF i] tcp_tx.exec_inv [OF i] unfolding tcp_run_exec tcp_tx.wq_inv_def
    by (simp add: c) (simp add: tcp_init_def)
qed

end
