(* ===== verification/Message_Keys.thy ===== *)
theory Message_Keys
  imports Prelude
begin

text \<open>
  The keys of the packets between daemon and client (\<open>library/src/network/tcpmessage_keys.h\<close>).
\<close>

named_theorems msg_keys \<open>the values of the keys\<close>

definition MSG_PONG :: u16 where [msg_keys]: "MSG_PONG = 1"
definition MSG_PING :: u16 where [msg_keys]: "MSG_PING = 2"
definition MSG_THRESHOLD :: u16 where [msg_keys]: "MSG_THRESHOLD = 7"
definition MSG_THRESHOLD_REQUEST :: u16 where [msg_keys]: "MSG_THRESHOLD_REQUEST = 11"
definition MSG_UBX_MSG_RATE_REQUEST :: u16 where [msg_keys]: "MSG_UBX_MSG_RATE_REQUEST = 13"
definition MSG_UBX_MSG_RATE :: u16 where [msg_keys]: "MSG_UBX_MSG_RATE = 17"
definition MSG_GPIO_EVENT :: u16 where [msg_keys]: "MSG_GPIO_EVENT = 19"
definition MSG_BIAS_VOLTAGE :: u16 where [msg_keys]: "MSG_BIAS_VOLTAGE = 23"
definition MSG_BIAS_VOLTAGE_REQUEST :: u16 where [msg_keys]: "MSG_BIAS_VOLTAGE_REQUEST = 29"
definition MSG_BIAS_SWITCH :: u16 where [msg_keys]: "MSG_BIAS_SWITCH = 31"
definition MSG_BIAS_SWITCH_REQUEST :: u16 where [msg_keys]: "MSG_BIAS_SWITCH_REQUEST = 37"
definition MSG_PCA_SWITCH :: u16 where [msg_keys]: "MSG_PCA_SWITCH = 41"
definition MSG_PCA_SWITCH_REQUEST :: u16 where [msg_keys]: "MSG_PCA_SWITCH_REQUEST = 43"
definition MSG_GPIO_RATE_REQUEST :: u16 where [msg_keys]: "MSG_GPIO_RATE_REQUEST = 47"
definition MSG_GPIO_RATE :: u16 where [msg_keys]: "MSG_GPIO_RATE = 53"
definition MSG_GEO_POS :: u16 where [msg_keys]: "MSG_GEO_POS = 61"
definition MSG_ADC_SAMPLE :: u16 where [msg_keys]: "MSG_ADC_SAMPLE = 67"
definition MSG_ADC_SAMPLE_REQUEST :: u16 where [msg_keys]: "MSG_ADC_SAMPLE_REQUEST = 71"
definition MSG_DAC_READBACK :: u16 where [msg_keys]: "MSG_DAC_READBACK = 73"
definition MSG_DAC_REQUEST :: u16 where [msg_keys]: "MSG_DAC_REQUEST = 79"
definition MSG_GAIN_SWITCH :: u16 where [msg_keys]: "MSG_GAIN_SWITCH = 83"
definition MSG_GAIN_SWITCH_REQUEST :: u16 where [msg_keys]: "MSG_GAIN_SWITCH_REQUEST = 89"
definition MSG_PREAMP_SWITCH :: u16 where [msg_keys]: "MSG_PREAMP_SWITCH = 97"
definition MSG_PREAMP_SWITCH_REQUEST :: u16 where [msg_keys]: "MSG_PREAMP_SWITCH_REQUEST = 101"
definition MSG_TEMPERATURE :: u16 where [msg_keys]: "MSG_TEMPERATURE = 103"
definition MSG_TEMPERATURE_REQUEST :: u16 where [msg_keys]: "MSG_TEMPERATURE_REQUEST = 107"
definition MSG_DAC_EEPROM_SET :: u16 where [msg_keys]: "MSG_DAC_EEPROM_SET = 109"
definition MSG_CALIB_SET :: u16 where [msg_keys]: "MSG_CALIB_SET = 127"
definition MSG_CALIB_REQUEST :: u16 where [msg_keys]: "MSG_CALIB_REQUEST = 131"
definition MSG_I2C_STATS :: u16 where [msg_keys]: "MSG_I2C_STATS = 137"
definition MSG_I2C_STATS_REQUEST :: u16 where [msg_keys]: "MSG_I2C_STATS_REQUEST = 139"
definition MSG_GNSS_SATS :: u16 where [msg_keys]: "MSG_GNSS_SATS = 149"
definition MSG_CALIB_SAVE :: u16 where [msg_keys]: "MSG_CALIB_SAVE = 151"
definition MSG_UBX_TIME_ACCURACY :: u16 where [msg_keys]: "MSG_UBX_TIME_ACCURACY = 157"
definition MSG_I2C_SCAN_BUS :: u16 where [msg_keys]: "MSG_I2C_SCAN_BUS = 163"
definition MSG_UBX_TXBUF :: u16 where [msg_keys]: "MSG_UBX_TXBUF = 167"
definition MSG_UBX_TXBUF_PEAK :: u16 where [msg_keys]: "MSG_UBX_TXBUF_PEAK = 173"
definition MSG_UBX_MONHW :: u16 where [msg_keys]: "MSG_UBX_MONHW = 179"
definition MSG_UBX_VERSION :: u16 where [msg_keys]: "MSG_UBX_VERSION = 181"
definition MSG_UBX_FIXSTATUS :: u16 where [msg_keys]: "MSG_UBX_FIXSTATUS = 191"
definition MSG_UBX_EVENTCOUNTER :: u16 where [msg_keys]: "MSG_UBX_EVENTCOUNTER = 193"
definition MSG_UBX_RESET :: u16 where [msg_keys]: "MSG_UBX_RESET = 197"
definition MSG_UBX_CONFIG_DEFAULT :: u16 where [msg_keys]: "MSG_UBX_CONFIG_DEFAULT = 199"
definition MSG_UBX_FREQ_ACCURACY :: u16 where [msg_keys]: "MSG_UBX_FREQ_ACCURACY = 211"
definition MSG_UBX_MONHW2 :: u16 where [msg_keys]: "MSG_UBX_MONHW2 = 213"
definition MSG_UBX_GNSS_CONFIG :: u16 where [msg_keys]: "MSG_UBX_GNSS_CONFIG = 221"
definition MSG_UBX_UPTIME :: u16 where [msg_keys]: "MSG_UBX_UPTIME = 223"
definition MSG_UBX_CFG_TP5 :: u16 where [msg_keys]: "MSG_UBX_CFG_TP5 = 227"
definition MSG_GPIO_RATE_RESET :: u16 where [msg_keys]: "MSG_GPIO_RATE_RESET = 229"
definition MSG_HISTOGRAM :: u16 where [msg_keys]: "MSG_HISTOGRAM = 233"
definition MSG_UBX_CFG_SAVE :: u16 where [msg_keys]: "MSG_UBX_CFG_SAVE = 239"
definition MSG_UBX_RXBUF :: u16 where [msg_keys]: "MSG_UBX_RXBUF = 241"
definition MSG_UBX_RXBUF_PEAK :: u16 where [msg_keys]: "MSG_UBX_RXBUF_PEAK = 251"
definition MSG_EVENTTRIGGER :: u16 where [msg_keys]: "MSG_EVENTTRIGGER = 257"
definition MSG_EVENTTRIGGER_REQUEST :: u16 where [msg_keys]: "MSG_EVENTTRIGGER_REQUEST = 263"
definition MSG_SPI_STATS :: u16 where [msg_keys]: "MSG_SPI_STATS = 269"
definition MSG_SPI_STATS_REQUEST :: u16 where [msg_keys]: "MSG_SPI_STATS_REQUEST = 271"
definition MSG_HISTOGRAM_REQUEST :: u16 where [msg_keys]: "MSG_HISTOGRAM_REQUEST = 273"
definition MSG_HISTOGRAM_CLEAR :: u16 where [msg_keys]: "MSG_HISTOGRAM_CLEAR = 277"
definition MSG_ADC_TRACE :: u16 where [msg_keys]: "MSG_ADC_TRACE = 281"
definition MSG_ADC_MODE :: u16 where [msg_keys]: "MSG_ADC_MODE = 283"
definition MSG_ADC_MODE_REQUEST :: u16 where [msg_keys]: "MSG_ADC_MODE_REQUEST = 293"
definition MSG_LOG_INFO :: u16 where [msg_keys]: "MSG_LOG_INFO = 307"
definition MSG_FILE_DOWNLOAD :: u16 where [msg_keys]: "MSG_FILE_DOWNLOAD = 311"
definition MSG_OLED_ENTRIES :: u16 where [msg_keys]: "MSG_OLED_ENTRIES = 313"
definition MSG_RATE_SCAN :: u16 where [msg_keys]: "MSG_RATE_SCAN = 317"
definition MSG_MQTT_STATUS :: u16 where [msg_keys]: "MSG_MQTT_STATUS = 331"
definition MSG_GPIO_INHIBIT :: u16 where [msg_keys]: "MSG_GPIO_INHIBIT = 337"
definition MSG_UBX_TIMEMARK :: u16 where [msg_keys]: "MSG_UBX_TIMEMARK = 349"
definition MSG_POLARITY_SWITCH :: u16 where [msg_keys]: "MSG_POLARITY_SWITCH = 353"
definition MSG_POLARITY_SWITCH_REQUEST :: u16 where [msg_keys]: "MSG_POLARITY_SWITCH_REQUEST = 359"
definition MSG_MQTT_INHIBIT :: u16 where [msg_keys]: "MSG_MQTT_INHIBIT = 367"
definition MSG_VERSION :: u16 where [msg_keys]: "MSG_VERSION = 373"
definition MSG_DAC_SET :: u16 where [msg_keys]: "MSG_DAC_SET = 383"
definition MSG_POSITION_MODEL :: u16 where [msg_keys]: "MSG_POSITION_MODEL = 389"
definition MSG_RESERVED2 :: u16 where [msg_keys]: "MSG_RESERVED2 = 397"
definition MSG_RESERVED3 :: u16 where [msg_keys]: "MSG_RESERVED3 = 401"
definition MSG_UBX_MSG_POLL :: u16 where [msg_keys]: "MSG_UBX_MSG_POLL = 403"
definition MSG_UBX_NAVCLOCK :: u16 where [msg_keys]: "MSG_UBX_NAVCLOCK = 405"
definition MSG_UBX_NAVSTATUS :: u16 where [msg_keys]: "MSG_UBX_NAVSTATUS = 407"
definition MSG_SDS011_SAMPLE :: u16 where [msg_keys]: "MSG_SDS011_SAMPLE = 411"

end
