(* ===== verification/Tcp_Server.thy ===== *)
theory Tcp_Server
  imports Tcp_Connection Message_Keys "HOL-Library.Sublist"
begin

text \<open>
  The TCP server with its sink and source (\<open>daemon/src/network/tcpserver.cpp\<close>,
  \<open>daemon/src/sinks/tcp_sink.cpp\<close>, \<open>daemon/src/sources/tcp_source.cpp\<close>). The objects of
  \<open>TcpConnection\<close> are shared: sessions, sink and pending operations refer to them by their number.
  One thread runs the \<open>io_context\<close>; what is posted to it waits in \<open>sv_posted\<close>, in order. Other
  threads call \<open>TcpSink::handle\<close> and \<open>heartbeatAndCleanup\<close>.
\<close>

record session =
  ss_connection :: nat
  ss_connectedAt :: u64
  ss_lastHeartbeatSentAt :: u64
  ss_heartbeatCount :: u32

text \<open>A posted task: closing a connection, sending a packet on one, or a heartbeat with its \<open>maxIdle\<close>.\<close>

datatype posted = Close nat | Send nat u16 "byte list" | Heartbeat int

text \<open>
  Session ids are counted from 1 (2^64 of them are out of reach). \<open>sv_counts\<close> are the published
  \<open>ServerConnCountEvent\<close>s, \<open>sv_packets\<close> the published \<open>TcpPacketEvent\<close>s.
\<close>

record server =
  sv_sessions :: "(nat \<times> session) list"
  sv_nextSessionId :: nat
  sv_sink :: "nat list"
  sv_conns :: "tcp list"
  sv_posted :: "posted list"
  sv_counts :: "(nat \<times> bool) list"
  sv_packets :: "(nat \<times> tcp_packet) list"

definition server_init :: server where
  "server_init = \<lparr>sv_sessions = [], sv_nextSessionId = 1, sv_sink = [], sv_conns = [], sv_posted = [],
     sv_counts = [], sv_packets = []\<rparr>"

section \<open>The sink\<close>

definition addConnection :: "nat \<Rightarrow> server \<Rightarrow> server" where
  "addConnection c s = s\<lparr>sv_sink := sv_sink s @ [c]\<rparr>"

definition removeConnection :: "nat \<Rightarrow> server \<Rightarrow> server" where
  "removeConnection c s = s\<lparr>sv_sink := filter (\<lambda>d. d \<noteq> c) (sv_sink s)\<rparr>"

definition pruneDisconnected :: "server \<Rightarrow> server" where
  "pruneDisconnected s = s\<lparr>sv_sink := filter (\<lambda>c. tc_open (sv_conns s ! c)) (sv_sink s)\<rparr>"

text \<open>\<open>TcpSink::handle\<close>: \<open>sendPacket\<close> posts the packet of the event for every connection.\<close>

definition sink_handle :: "u16 \<Rightarrow> byte list \<Rightarrow> server \<Rightarrow> server" where
  "sink_handle key packet s = s\<lparr>sv_posted := sv_posted s @ map (\<lambda>c. Send c key packet) (sv_sink s)\<rparr>"

section \<open>Sessions\<close>

definition removeSession :: "nat \<Rightarrow> server \<Rightarrow> server" where
  "removeSession i s =
     (case map_of (sv_sessions s) i of None \<Rightarrow> s
      | Some ss \<Rightarrow> (removeConnection (ss_connection ss) s)
          \<lparr>sv_sessions := filter (\<lambda>p. fst p \<noteq> i) (sv_sessions s)\<rparr>)"

text \<open>
  The handler of \<open>async_accept\<close>: the new connection's disconnect handler removes the session with the
  id \<open>c + 1\<close> for the connection number \<open>c\<close>; the connection handler registers it with the \<open>TcpSource\<close>.
\<close>

definition session_of :: "nat \<Rightarrow> nat" where
  "session_of c = c + 1"

definition accept_handler :: "bool \<Rightarrow> u64 \<Rightarrow> server \<Rightarrow> server" where
  "accept_handler ec now s =
     (if ec then s
      else
        (let c = length (sv_conns s);
             s = s\<lparr>sv_nextSessionId := sv_nextSessionId s + 1, sv_conns := sv_conns s @ [tcp_init now],
                   sv_sessions := sv_sessions s @ [(sv_nextSessionId s,
                     \<lparr>ss_connection = c, ss_connectedAt = now, ss_lastHeartbeatSentAt = now, ss_heartbeatCount = 0\<rparr>)]\<rparr>;
             s = addConnection c s
         in s\<lparr>sv_counts := sv_counts s @ [(length (sv_sessions s), True)]\<rparr>))"

text \<open>
  A handler of a connection: the calls of the disconnect handler it makes remove the session, the
  packets it delivers are published.
\<close>

definition conn_event :: "nat \<Rightarrow> (tcp \<Rightarrow> tcp \<times> tcp_packet list) \<Rightarrow> server \<Rightarrow> server" where
  "conn_event c f s =
     (case f (sv_conns s ! c) of (conn, ps) \<Rightarrow>
        (let calls = drop (length (tc_disconnects (sv_conns s ! c))) (tc_disconnects conn);
             s = s\<lparr>sv_conns := (sv_conns s)[c := conn], sv_packets := sv_packets s @ map (Pair c) ps\<rparr>
         in fold (\<lambda>_. removeSession (session_of c)) calls s))"

section \<open>Heartbeats\<close>

definition stale :: "int \<Rightarrow> u64 \<Rightarrow> tcp \<Rightarrow> bool" where
  "stale maxIdle now conn \<longleftrightarrow> sint now - sint (tc_lastReceived conn) > maxIdle"

text \<open>One round of the loop over the sessions; the flag is \<open>removedConnections\<close>.\<close>

definition heartbeat_session :: "int \<Rightarrow> u64 \<Rightarrow> nat \<times> session \<Rightarrow> server \<times> bool \<Rightarrow> server \<times> bool" where
  "heartbeat_session maxIdle now = (\<lambda>(i, state) (s, removed).
     (let c = ss_connection state; conn = sv_conns s ! c
      in if \<not> tc_open conn \<or> stale maxIdle now conn then
           ((removeConnection c (s\<lparr>sv_posted := sv_posted s @ [Close c]\<rparr>))
              \<lparr>sv_sessions := filter (\<lambda>p. fst p \<noteq> i) (sv_sessions s)\<rparr>, True)
         else
           (s\<lparr>sv_posted := sv_posted s @ [Send c MSG_PING []],
              sv_sessions := map (\<lambda>p. if fst p = i then (i, state\<lparr>ss_lastHeartbeatSentAt := now,
                 ss_heartbeatCount := ss_heartbeatCount state + 1\<rparr>) else p) (sv_sessions s)\<rparr>, removed)))"

definition heartbeat :: "int \<Rightarrow> u64 \<Rightarrow> server \<Rightarrow> server" where
  "heartbeat maxIdle now s =
     (case fold (heartbeat_session maxIdle now) (sv_sessions s) (s, False) of (s, removed) \<Rightarrow>
        pruneDisconnected
          (if removed then s\<lparr>sv_counts := sv_counts s @ [(length (sv_sessions s), False)]\<rparr> else s))"

definition heartbeatAndCleanup :: "int \<Rightarrow> server \<Rightarrow> server" where
  "heartbeatAndCleanup maxIdle s = s\<lparr>sv_posted := sv_posted s @ [Heartbeat maxIdle]\<rparr>"

text \<open>The first posted task, run at the time \<open>now\<close>.\<close>

definition run_posted :: "u64 \<Rightarrow> server \<Rightarrow> server" where
  "run_posted now s =
     (case sv_posted s of [] \<Rightarrow> s
      | p # ps \<Rightarrow>
          (let s = s\<lparr>sv_posted := ps\<rparr>
           in case p of Close c \<Rightarrow> s\<lparr>sv_conns := (sv_conns s)[c := tcp_stop (sv_conns s ! c)]\<rparr>
              | Send c key payload \<Rightarrow> s\<lparr>sv_conns := (sv_conns s)[c := sendPacket (key, payload) (sv_conns s ! c)]\<rparr>
              | Heartbeat maxIdle \<Rightarrow> heartbeat maxIdle now s))"

inductive server_step :: "server \<Rightarrow> server \<Rightarrow> bool" where
  Accept: "server_step s (accept_handler ec now s)"
| Read: "c < length (sv_conns s) \<Longrightarrow> server_step s (conn_event c (\<lambda>conn. read_chunk now conn bs) s)"
| Write: "c < length (sv_conns s) \<Longrightarrow> tc_writing (sv_conns s ! c) \<noteq> [] \<Longrightarrow>
    server_step s (conn_event c (\<lambda>conn. (tcp_write_handler ec conn, [])) s)"
| Read_error: "c < length (sv_conns s) \<Longrightarrow> tc_reading (sv_conns s ! c) \<Longrightarrow>
    server_step s (conn_event c (\<lambda>conn. tcp_read_handler (Some e) [] now conn) s)"
| Publish: "server_step s (sink_handle key packet s)"
| Timer: "server_step s (heartbeatAndCleanup maxIdle s)"
| Posted: "server_step s (run_posted now s)"

inductive server_reachable :: "server \<Rightarrow> bool" where
  Init: "server_reachable server_init"
| Step: "server_reachable s \<Longrightarrow> server_step s s' \<Longrightarrow> server_reachable s'"

section \<open>Handlers of a connection\<close>

text \<open>A handler closes the socket exactly when it calls the disconnect handler, and never opens it.\<close>

definition proper_handler :: "(tcp \<Rightarrow> tcp) \<Rightarrow> bool" where
  "proper_handler f \<longleftrightarrow> (\<forall>conn. prefix (tc_disconnects conn) (tc_disconnects (f conn))
     \<and> (tc_open conn \<longrightarrow> tc_open (f conn) = (tc_disconnects (f conn) = tc_disconnects conn))
     \<and> (\<not> tc_open conn \<longrightarrow> \<not> tc_open (f conn)))"

lemma proper_handlerI:
  assumes "\<And>conn. tc_open (f conn) = tc_open conn \<and> tc_disconnects (f conn) = tc_disconnects conn
    \<or> \<not> tc_open (f conn) \<and> (\<exists>e es. tc_disconnects (f conn) = tc_disconnects conn @ e # es)"
  shows "proper_handler f"
  unfolding proper_handler_def
proof
  fix conn
  show "prefix (tc_disconnects conn) (tc_disconnects (f conn))
     \<and> (tc_open conn \<longrightarrow> tc_open (f conn) = (tc_disconnects (f conn) = tc_disconnects conn))
     \<and> (\<not> tc_open conn \<longrightarrow> \<not> tc_open (f conn))"
    using assms [of conn] by (elim disjE conjE exE) simp_all
qed

lemma tryParsePacket_effect:
  "tryParsePacket now conn = (conn', r) \<Longrightarrow>
     tc_open conn' = tc_open conn \<and> tc_disconnects conn' = tc_disconnects conn
   \<or> r = None \<and> \<not> tc_open conn' \<and> (\<exists>e. tc_disconnects conn' = tc_disconnects conn @ [e])"
  by (auto simp: tryParsePacket_def closeWithError_def Let_def split: if_splits)

lemma parse_all_effect:
  "parse_all now conn = (conn', ps) \<Longrightarrow>
     tc_open conn' = tc_open conn \<and> tc_disconnects conn' = tc_disconnects conn
   \<or> \<not> tc_open conn' \<and> (\<exists>e. tc_disconnects conn' = tc_disconnects conn @ [e])"
proof (induction now conn arbitrary: conn' ps rule: parse_all.induct)
  case (1 now conn)
  obtain c1 r where t: "tryParsePacket now conn = (c1, r)" by fastforce
  show ?case
  proof (cases r)
    case None
    then show ?thesis using "1.prems" t tryParsePacket_effect [OF t] by (auto simp: parse_all.simps [of now conn])
  next
    case (Some p)
    obtain c2 qs where p: "parse_all now c1 = (c2, qs)" by fastforce
    then have "c2 = conn'" using "1.prems" t Some by (simp add: parse_all.simps [of now conn])
    then show ?thesis using "1.IH" [OF t [symmetric] Some p] tryParsePacket_effect [OF t] Some by auto
  qed
qed

lemma proper_read_handler: "proper_handler (\<lambda>conn. fst (tcp_read_handler ec bs now conn))"
proof (rule proper_handlerI)
  fix conn
  let ?f = "fst (tcp_read_handler ec bs now conn)"
  obtain c ps where "parse_all now (consumeIncomingBytes bs conn) = (c, ps)" by fastforce
  from parse_all_effect [OF this] this
  show "tc_open ?f = tc_open conn \<and> tc_disconnects ?f = tc_disconnects conn
    \<or> \<not> tc_open ?f \<and> (\<exists>e es. tc_disconnects ?f = tc_disconnects conn @ e # es)"
    by (auto simp: tcp_read_handler_def closeWithError_def consumeIncomingBytes_def split: option.splits)
qed

lemma proper_read_chunk: "proper_handler (\<lambda>conn. fst (read_chunk now conn bs))"
proof (rule proper_handlerI)
  fix conn
  let ?f = "fst (read_chunk now conn bs)"
  obtain c ps where "parse_all now (consumeIncomingBytes bs conn) = (c, ps)" by fastforce
  from parse_all_effect [OF this] this
  show "tc_open ?f = tc_open conn \<and> tc_disconnects ?f = tc_disconnects conn
    \<or> \<not> tc_open ?f \<and> (\<exists>e es. tc_disconnects ?f = tc_disconnects conn @ e # es)"
    by (auto simp: read_chunk_def tcp_read_handler_def closeWithError_def consumeIncomingBytes_def)
qed

lemma proper_write_handler: "proper_handler (tcp_write_handler ec)"
  by (rule proper_handlerI)
    (auto simp: tcp_write_handler_def closeWithError_def tcp_do_write_def Let_def split: option.splits)

section \<open>The server's invariant\<close>

definition session_conns :: "server \<Rightarrow> nat list" where
  "session_conns s = map (ss_connection \<circ> snd) (sv_sessions s)"

definition server_inv :: "server \<Rightarrow> bool" where
  "server_inv s \<longleftrightarrow>
     sv_nextSessionId s = session_of (length (sv_conns s))
     \<and> (\<forall>p \<in> set (sv_sessions s). fst p = session_of (ss_connection (snd p)))
     \<and> distinct (session_conns s)
     \<and> sv_sink s = session_conns s
     \<and> (\<forall>c \<in> set (session_conns s). c < length (sv_conns s) \<and> tc_open (sv_conns s ! c))
     \<and> (\<forall>c. Close c \<in> set (sv_posted s) \<longrightarrow> c \<notin> set (session_conns s) \<and> c < length (sv_conns s))
     \<and> (\<forall>c < length (sv_conns s). c \<notin> set (session_conns s) \<longrightarrow>
          \<not> tc_open (sv_conns s ! c) \<or> Close c \<in> set (sv_posted s))"

lemma server_inv_init: "server_inv server_init"
  by (simp add: server_inv_def server_init_def session_conns_def session_of_def)

lemma session_of_eq [simp]: "session_of c = session_of d \<longleftrightarrow> c = d"
  by (simp add: session_of_def)

lemma server_inv_accept: "server_inv s \<Longrightarrow> server_inv (accept_handler ec now s)"
  by (auto simp: server_inv_def accept_handler_def addConnection_def session_conns_def tcp_init_def
      nth_append less_Suc_eq session_of_def Let_def)

text \<open>Removing the session of connection \<open>c\<close> removes \<open>c\<close> from the sessions and from the sink.\<close>

lemma removeSession_conns:
  assumes "\<forall>p \<in> set (sv_sessions s). fst p = session_of (ss_connection (snd p))"
    and "sv_sink s = session_conns s"
  shows "session_conns (removeSession (session_of c) s) = filter (\<lambda>d. d \<noteq> c) (session_conns s)"
    and "sv_sink (removeSession (session_of c) s) = filter (\<lambda>d. d \<noteq> c) (session_conns s)"
    and "sv_sessions (removeSession (session_of c) s) = filter (\<lambda>p. fst p \<noteq> session_of c) (sv_sessions s)"
    and "sv_conns (removeSession (session_of c) s) = sv_conns s" and "sv_posted (removeSession (session_of c) s) = sv_posted s"
    and "sv_nextSessionId (removeSession (session_of c) s) = sv_nextSessionId s"
proof -
  have same: "filter (\<lambda>d. d \<noteq> c) (session_conns s)
      = map (ss_connection \<circ> snd) (filter (\<lambda>p. fst p \<noteq> session_of c) (sv_sessions s))"
    using assms(1) by (auto simp: session_conns_def filter_map comp_def intro!: arg_cong [where f = "map _"] filter_cong)
  have none: "filter (\<lambda>p. fst p \<noteq> session_of c) (sv_sessions s) = sv_sessions s"
    if "map_of (sv_sessions s) (session_of c) = None"
    using that by (force simp: map_of_eq_None_iff filter_id_conv)
  have some: "ss_connection ss = c" if "map_of (sv_sessions s) (session_of c) = Some ss" for ss
    using map_of_SomeD [OF that] assms(1) by fastforce
  show "sv_sessions (removeSession (session_of c) s) = filter (\<lambda>p. fst p \<noteq> session_of c) (sv_sessions s)"
    using none by (auto simp: removeSession_def split: option.splits)
  then show "session_conns (removeSession (session_of c) s) = filter (\<lambda>d. d \<noteq> c) (session_conns s)"
    by (simp add: same) (simp add: session_conns_def)
  show "sv_sink (removeSession (session_of c) s) = filter (\<lambda>d. d \<noteq> c) (session_conns s)"
    using none some same assms(2) by (auto simp: removeSession_def removeConnection_def session_conns_def split: option.splits)
qed (auto simp: removeSession_def removeConnection_def split: option.splits)

lemma fold_const_idem: "f \<circ> f = f \<Longrightarrow> fold (\<lambda>_. f) xs s = (if xs = [] then s else f s)"
  by (induction xs arbitrary: s) (auto simp: fun_eq_iff)

lemma removeSession_idem: "removeSession i \<circ> removeSession i = removeSession i"
proof
  fix s
  have "map_of (filter (\<lambda>p. fst p \<noteq> i) xs) i = None" for xs :: "(nat \<times> session) list"
    by (auto simp: map_of_eq_None_iff)
  then have "map_of (sv_sessions (removeSession i s)) i = None"
    by (auto simp: removeSession_def split: option.splits)
  then show "(removeSession i \<circ> removeSession i) s = removeSession i s"
    by (simp add: removeSession_def [of i "removeSession i s"])
qed

lemma server_inv_conn_event:
  assumes inv: "server_inv s" and c: "c < length (sv_conns s)" and f: "proper_handler (\<lambda>conn. fst (f conn))"
  shows "server_inv (conn_event c f s)"
proof -
  obtain conn ps where fc: "f (sv_conns s ! c) = (conn, ps)" by fastforce
  define s1 where "s1 = s\<lparr>sv_conns := (sv_conns s)[c := conn], sv_packets := sv_packets s @ map (Pair c) ps\<rparr>"
  define closes where "closes \<longleftrightarrow> tc_disconnects conn \<noteq> tc_disconnects (sv_conns s ! c)"
  have proper: "prefix (tc_disconnects (sv_conns s ! c)) (tc_disconnects conn)"
      "tc_open (sv_conns s ! c) \<Longrightarrow> tc_open conn = (\<not> closes)" "\<not> tc_open (sv_conns s ! c) \<Longrightarrow> \<not> tc_open conn"
    using f [unfolded proper_handler_def, THEN spec, of "sv_conns s ! c"] by (auto simp: fc closes_def)
  then have "drop (length (tc_disconnects (sv_conns s ! c))) (tc_disconnects conn) = [] \<longleftrightarrow> \<not> closes"
    by (auto simp: closes_def prefix_def)
  then have event: "conn_event c f s = (if closes then removeSession (session_of c) s1 else s1)"
    by (simp add: conn_event_def fc Let_def s1_def [symmetric] fold_const_idem [OF removeSession_idem])
  have s1: "sv_sessions s1 = sv_sessions s" "session_conns s1 = session_conns s" "sv_sink s1 = sv_sink s"
      "sv_posted s1 = sv_posted s" "sv_nextSessionId s1 = sv_nextSessionId s" "sv_conns s1 = (sv_conns s)[c := conn]"
    by (simp_all add: s1_def session_conns_def)
  have inv1: "\<forall>p \<in> set (sv_sessions s). fst p = session_of (ss_connection (snd p))" "sv_sink s = session_conns s"
      "sv_nextSessionId s = session_of (length (sv_conns s))" "distinct (session_conns s)"
    and inv2: "\<And>d. d \<in> set (session_conns s) \<Longrightarrow> d < length (sv_conns s) \<and> tc_open (sv_conns s ! d)"
      "\<And>d. Close d \<in> set (sv_posted s) \<Longrightarrow> d \<notin> set (session_conns s) \<and> d < length (sv_conns s)"
      "\<And>d. d < length (sv_conns s) \<Longrightarrow> d \<notin> set (session_conns s) \<Longrightarrow>
          \<not> tc_open (sv_conns s ! d) \<or> Close d \<in> set (sv_posted s)"
    using inv unfolding server_inv_def by blast+
  have closed: "tc_open ((sv_conns s)[c := conn] ! d) \<longleftrightarrow>
      (if d = c then tc_open conn else tc_open (sv_conns s ! d))" for d
    using c by (simp add: nth_list_update)
  show ?thesis
  proof (cases closes)
    case True
    note rs = removeSession_conns [where s = s1 and c = c, unfolded s1, OF inv1(1,2)]
    have "\<not> tc_open conn" using proper(2,3) True by blast
    then have ev: "conn_event c f s = removeSession (session_of c) s1" using event True by simp
    show ?thesis unfolding ev server_inv_def rs s1 closed length_list_update
    proof (intro conjI)
      show "\<forall>p \<in> set (filter (\<lambda>p. fst p \<noteq> session_of c) (sv_sessions s)). fst p = session_of (ss_connection (snd p))"
        using inv1(1) by simp
      show "distinct (filter (\<lambda>d. d \<noteq> c) (session_conns s))" using inv1(4) by simp
      show "\<forall>d \<in> set (filter (\<lambda>d. d \<noteq> c) (session_conns s)).
          d < length (sv_conns s) \<and> (if d = c then tc_open conn else tc_open (sv_conns s ! d))"
        using inv2(1) by simp
      show "\<forall>d. Close d \<in> set (sv_posted s) \<longrightarrow>
          d \<notin> set (filter (\<lambda>d. d \<noteq> c) (session_conns s)) \<and> d < length (sv_conns s)"
        using inv2(2) by simp
      show "\<forall>d < length (sv_conns s). d \<notin> set (filter (\<lambda>d. d \<noteq> c) (session_conns s)) \<longrightarrow>
          \<not> (if d = c then tc_open conn else tc_open (sv_conns s ! d)) \<or> Close d \<in> set (sv_posted s)"
        using inv2(3) \<open>\<not> tc_open conn\<close> by simp
    qed (rule inv1(3) refl)+
  next
    case False
    then have ev: "conn_event c f s = s1" using event by simp
    show ?thesis unfolding ev server_inv_def s1 closed length_list_update
    proof (intro conjI)
      show "\<forall>d \<in> set (session_conns s).
          d < length (sv_conns s) \<and> (if d = c then tc_open conn else tc_open (sv_conns s ! d))"
        using inv2(1) proper(2) False by auto
      show "\<forall>d < length (sv_conns s). d \<notin> set (session_conns s) \<longrightarrow>
          \<not> (if d = c then tc_open conn else tc_open (sv_conns s ! d)) \<or> Close d \<in> set (sv_posted s)"
        using inv2(3) proper(3) by auto
      show "\<forall>d. Close d \<in> set (sv_posted s) \<longrightarrow> d \<notin> set (session_conns s) \<and> d < length (sv_conns s)"
        using inv2(2) by blast
    qed (rule inv1)+
  qed
qed

section \<open>The round of heartbeats\<close>

text \<open>A session that stays, what becomes of it, and what is posted for a session.\<close>

definition alive :: "int \<Rightarrow> u64 \<Rightarrow> server \<Rightarrow> nat \<times> session \<Rightarrow> bool" where
  "alive maxIdle now s p \<longleftrightarrow> tc_open (sv_conns s ! ss_connection (snd p))
     \<and> \<not> stale maxIdle now (sv_conns s ! ss_connection (snd p))"

definition beat :: "u64 \<Rightarrow> nat \<times> session \<Rightarrow> nat \<times> session" where
  "beat now = (\<lambda>(i, ss). (i, ss\<lparr>ss_lastHeartbeatSentAt := now, ss_heartbeatCount := ss_heartbeatCount ss + 1\<rparr>))"

definition beat_task :: "int \<Rightarrow> u64 \<Rightarrow> server \<Rightarrow> nat \<times> session \<Rightarrow> posted" where
  "beat_task maxIdle now s p =
     (if alive maxIdle now s p then Send (ss_connection (snd p)) MSG_PING [] else Close (ss_connection (snd p)))"

lemma beat_fst [simp]: "fst (beat now p) = fst p" "ss_connection (snd (beat now p)) = ss_connection (snd p)"
  by (simp_all add: beat_def split: prod.splits)

lemma heartbeat_session_step:
  assumes "sv_sessions s = don @ p # rest" and "distinct (map fst (don @ p # rest))"
    and "sv_sink s = session_conns s" and "distinct (session_conns s)"
  shows "\<exists>s' r'. heartbeat_session maxIdle now p (s, r) = (s', r')
    \<and> sv_sessions s' = (don @ (if alive maxIdle now s p then [beat now p] else [])) @ rest
    \<and> sv_posted s' = sv_posted s @ [beat_task maxIdle now s p]
    \<and> sv_sink s' = session_conns s'
    \<and> sv_conns s' = sv_conns s \<and> sv_nextSessionId s' = sv_nextSessionId s"
proof -
  obtain i ss where p: "p = (i, ss)" by (cases p)
  have others: "\<forall>q \<in> set don \<union> set rest. fst q \<noteq> i" using assms(2) by (auto simp: p image_iff)
  then have ids: "filter (\<lambda>q. fst q \<noteq> i) don = don" "filter (\<lambda>q. fst q \<noteq> i) rest = rest"
    by (simp_all add: filter_id_conv)
  have upd: "map (\<lambda>q. if fst q = i then x else q) don = don" "map (\<lambda>q. if fst q = i then x else q) rest = rest" for x
    by (rule map_idI, use others in force)+
  have "filter (\<lambda>d. d \<noteq> ss_connection ss) (map (ss_connection \<circ> snd) (don @ rest)) = map (ss_connection \<circ> snd) (don @ rest)"
    using assms(1,4) by (intro filter_True) (auto simp: session_conns_def p image_iff)
  then show ?thesis using assms(1,3)
    by (auto simp: heartbeat_session_def p alive_def beat_def beat_task_def removeConnection_def session_conns_def
        Let_def ids upd)
qed

lemma alive_cong: "sv_conns s' = sv_conns s \<Longrightarrow> alive m now s' = alive m now s"
  "sv_conns s' = sv_conns s \<Longrightarrow> beat_task m now s' = beat_task m now s"
  by (simp_all add: alive_def beat_task_def fun_eq_iff)

lemma heartbeat_loop:
  assumes "sv_sessions s = don @ rest" and "distinct (map fst (don @ rest))"
    and "sv_sink s = session_conns s" and "distinct (session_conns s)"
  shows "\<exists>s' r'. fold (heartbeat_session maxIdle now) rest (s, r) = (s', r')
    \<and> sv_sessions s' = don @ map (beat now) (filter (alive maxIdle now s) rest)
    \<and> sv_posted s' = sv_posted s @ map (beat_task maxIdle now s) rest
    \<and> sv_sink s' = session_conns s'
    \<and> sv_conns s' = sv_conns s \<and> sv_nextSessionId s' = sv_nextSessionId s"
  using assms
proof (induction rest arbitrary: s don r)
  case Nil
  then show ?case by auto
next
  case (Cons p rest)
  obtain s1 r1 where s1: "heartbeat_session maxIdle now p (s, r) = (s1, r1)"
      "sv_sessions s1 = (don @ (if alive maxIdle now s p then [beat now p] else [])) @ rest"
      "sv_posted s1 = sv_posted s @ [beat_task maxIdle now s p]"
      "sv_sink s1 = session_conns s1" "sv_conns s1 = sv_conns s" "sv_nextSessionId s1 = sv_nextSessionId s"
    using heartbeat_session_step [OF Cons.prems, of maxIdle now r] by auto
  have "distinct (map fst ((don @ (if alive maxIdle now s p then [beat now p] else [])) @ rest))"
    using Cons.prems(2) by auto
  moreover have "distinct (session_conns s1)"
    using Cons.prems(1,4) by (auto simp: session_conns_def s1(2))
  ultimately obtain s2 r2 where "fold (heartbeat_session maxIdle now) rest (s1, r1) = (s2, r2)"
      "sv_sessions s2 = (don @ (if alive maxIdle now s p then [beat now p] else []))
         @ map (beat now) (filter (alive maxIdle now s1) rest)"
      "sv_posted s2 = sv_posted s1 @ map (beat_task maxIdle now s1) rest" "sv_sink s2 = session_conns s2"
      "sv_conns s2 = sv_conns s1" "sv_nextSessionId s2 = sv_nextSessionId s1"
    using Cons.IH [OF s1(2) _ s1(4)] by blast
  then show ?case using s1 by (auto simp: alive_cong [OF s1(5)])
qed

lemma heartbeat_effect:
  assumes inv: "server_inv s"
  shows "sv_sessions (heartbeat maxIdle now s) = map (beat now) (filter (alive maxIdle now s) (sv_sessions s))
    \<and> sv_posted (heartbeat maxIdle now s) = sv_posted s @ map (beat_task maxIdle now s) (sv_sessions s)
    \<and> sv_sink (heartbeat maxIdle now s) = session_conns (heartbeat maxIdle now s)
    \<and> sv_conns (heartbeat maxIdle now s) = sv_conns s
    \<and> sv_nextSessionId (heartbeat maxIdle now s) = sv_nextSessionId s"
proof -
  have ids: "\<forall>p \<in> set (sv_sessions s). fst p = session_of (ss_connection (snd p))" and d: "distinct (session_conns s)"
    and sink: "sv_sink s = session_conns s"
    using inv by (simp_all add: server_inv_def)
  have "map fst (sv_sessions s) = map session_of (session_conns s)" using ids by (simp add: session_conns_def)
  then have "distinct (map fst (sv_sessions s))" using d by (simp add: distinct_map inj_on_def)
  then obtain s1 r1 where s1: "fold (heartbeat_session maxIdle now) (sv_sessions s) (s, False) = (s1, r1)"
      "sv_sessions s1 = map (beat now) (filter (alive maxIdle now s) (sv_sessions s))"
      "sv_posted s1 = sv_posted s @ map (beat_task maxIdle now s) (sv_sessions s)"
      "sv_sink s1 = session_conns s1" "sv_conns s1 = sv_conns s" "sv_nextSessionId s1 = sv_nextSessionId s"
    using heartbeat_loop [of s "[]" "sv_sessions s" maxIdle now False] d sink by auto
  have "\<forall>c \<in> set (session_conns s1). tc_open (sv_conns s ! c)"
    by (auto simp: session_conns_def s1(2) alive_def)
  then have "filter (\<lambda>c. tc_open (sv_conns s ! c)) (session_conns s1) = session_conns s1"
    by (simp add: filter_id_conv)
  then show ?thesis
    by (simp add: heartbeat_def s1 pruneDisconnected_def) (simp add: session_conns_def s1)
qed

lemma server_inv_heartbeat:
  assumes inv: "server_inv s" shows "server_inv (heartbeat maxIdle now s)"
proof -
  note eff = heartbeat_effect [OF inv, of maxIdle now]
  let ?h = "heartbeat maxIdle now s"
  have conns: "session_conns ?h = filter (\<lambda>c. tc_open (sv_conns s ! c) \<and> \<not> stale maxIdle now (sv_conns s ! c)) (session_conns s)"
    by (simp add: session_conns_def eff comp_def filter_map alive_def [abs_def])
  have closes: "Close c \<in> set (sv_posted ?h) \<longleftrightarrow> Close c \<in> set (sv_posted s)
      \<or> c \<in> set (session_conns s) \<and> c \<notin> set (session_conns ?h)" for c
    using inv unfolding conns by (auto simp: eff beat_task_def session_conns_def alive_def split: if_splits)
  have old: "sv_nextSessionId s = session_of (length (sv_conns s))" "distinct (session_conns s)"
      "\<And>c. c \<in> set (session_conns s) \<Longrightarrow> c < length (sv_conns s) \<and> tc_open (sv_conns s ! c)"
      "\<And>c. Close c \<in> set (sv_posted s) \<Longrightarrow> c \<notin> set (session_conns s) \<and> c < length (sv_conns s)"
      "\<And>c. c < length (sv_conns s) \<Longrightarrow> c \<notin> set (session_conns s) \<Longrightarrow>
          \<not> tc_open (sv_conns s ! c) \<or> Close c \<in> set (sv_posted s)"
    and ids: "\<forall>p \<in> set (sv_sessions s). fst p = session_of (ss_connection (snd p))"
    using inv unfolding server_inv_def by blast+
  have sub: "set (session_conns ?h) \<subseteq> set (session_conns s)" unfolding conns by auto
  show ?thesis unfolding server_inv_def closes
  proof (intro conjI)
    show "\<forall>p \<in> set (sv_sessions ?h). fst p = session_of (ss_connection (snd p))" using ids by (auto simp: eff)
    show "distinct (session_conns ?h)" unfolding conns using old(2) by simp
    show "\<forall>c \<in> set (session_conns ?h). c < length (sv_conns ?h) \<and> tc_open (sv_conns ?h ! c)"
      using sub old(3) by (auto simp: eff)
    show "\<forall>c. Close c \<in> set (sv_posted s) \<or> c \<in> set (session_conns s) \<and> c \<notin> set (session_conns ?h) \<longrightarrow>
        c \<notin> set (session_conns ?h) \<and> c < length (sv_conns ?h)"
      using sub old(3,4) by (auto simp: eff)
    show "\<forall>c < length (sv_conns ?h). c \<notin> set (session_conns ?h) \<longrightarrow> \<not> tc_open (sv_conns ?h ! c)
        \<or> Close c \<in> set (sv_posted s) \<or> c \<in> set (session_conns s) \<and> c \<notin> set (session_conns ?h)"
      using old(5) by (auto simp: eff)
  qed (simp_all add: eff old(1))
qed

lemma server_inv_cong:
  assumes "sv_sessions s' = sv_sessions s" "sv_sink s' = sv_sink s" "sv_nextSessionId s' = sv_nextSessionId s"
    and "length (sv_conns s') = length (sv_conns s)" "\<And>c. tc_open (sv_conns s' ! c) = tc_open (sv_conns s ! c)"
    and "\<And>c. Close c \<in> set (sv_posted s') \<longleftrightarrow> Close c \<in> set (sv_posted s)"
  shows "server_inv s' = server_inv s"
  by (simp add: server_inv_def session_conns_def assms)

lemma sendPacket_effect [simp]:
  "tc_open (sendPacket m conn) = tc_open conn" "tc_disconnects (sendPacket m conn) = tc_disconnects conn"
  by (auto simp: sendPacket_def tcp_do_write_def Let_def split: prod.splits)

lemma server_inv_posted:
  assumes inv: "server_inv s" shows "server_inv (run_posted now s)"
proof (cases "sv_posted s")
  case Nil
  then show ?thesis using inv by (simp add: run_posted_def)
next
  case (Cons p ps)
  show ?thesis
  proof (cases p)
    case (Close c)
    have c: "c \<notin> set (session_conns s)" "c < length (sv_conns s)"
      using inv by (auto simp: server_inv_def Cons Close)
    let ?s = "s\<lparr>sv_posted := ps, sv_conns := (sv_conns s)[c := tcp_stop (sv_conns s ! c)]\<rparr>"
    have opened: "tc_open (sv_conns ?s ! d) \<longleftrightarrow> d \<noteq> c \<and> tc_open (sv_conns s ! d)" for d
      using c(2) by (auto simp: nth_list_update tcp_stop_def)
    have same: "session_conns ?s = session_conns s" "length (sv_conns ?s) = length (sv_conns s)"
      by (simp_all add: session_conns_def)
    have posted: "Close d \<in> set (sv_posted s) \<longleftrightarrow> d = c \<or> Close d \<in> set ps" for d
      by (auto simp: Cons Close)
    have "server_inv ?s" unfolding server_inv_def opened same
    proof (intro conjI)
      show "\<forall>d \<in> set (session_conns s). d < length (sv_conns s) \<and> d \<noteq> c \<and> tc_open (sv_conns s ! d)"
        using inv c(1) unfolding server_inv_def by metis
      show "\<forall>d. Close d \<in> set (sv_posted ?s) \<longrightarrow> d \<notin> set (session_conns s) \<and> d < length (sv_conns s)"
        using inv unfolding server_inv_def posted by simp
      show "\<forall>d < length (sv_conns s). d \<notin> set (session_conns s) \<longrightarrow>
          \<not> (d \<noteq> c \<and> tc_open (sv_conns s ! d)) \<or> Close d \<in> set (sv_posted ?s)"
        using inv unfolding server_inv_def posted by auto
    qed (use inv in \<open>simp_all add: server_inv_def\<close>)
    then show ?thesis by (simp add: run_posted_def Cons Close Let_def)
  next
    case (Send c key payload)
    have "tc_open ((sv_conns s)[c := sendPacket (key, payload) (sv_conns s ! c)] ! d) = tc_open (sv_conns s ! d)" for d
      by (cases "c < length (sv_conns s)"; cases "d = c") (simp_all add: list_update_beyond)
    then have "server_inv (s\<lparr>sv_posted := ps, sv_conns := (sv_conns s)[c := sendPacket (key, payload) (sv_conns s ! c)]\<rparr>)
        = server_inv s"
      by (intro server_inv_cong) (simp_all add: Cons Send)
    then show ?thesis using inv by (simp add: run_posted_def Cons Send Let_def)
  next
    case (Heartbeat maxIdle)
    have "server_inv (s\<lparr>sv_posted := ps\<rparr>)" using inv by (auto simp: server_inv_def session_conns_def Cons Heartbeat)
    then show ?thesis by (simp add: run_posted_def Cons Heartbeat Let_def server_inv_heartbeat)
  qed
qed

lemma server_inv_step: "server_step s s' \<Longrightarrow> server_inv s \<Longrightarrow> server_inv s'"
proof (induction rule: server_step.induct)
  case (Write c s ec)
  then show ?case by (intro server_inv_conn_event) (simp_all add: proper_write_handler)
next
  case (Publish s key packet)
  then show ?case by (subst server_inv_cong) (auto simp: sink_handle_def)
next
  case (Timer s maxIdle)
  then show ?case by (subst server_inv_cong) (auto simp: heartbeatAndCleanup_def)
qed (simp_all add: server_inv_accept server_inv_conn_event server_inv_posted proper_read_chunk proper_read_handler)

lemma server_reachable_inv: "server_reachable s \<Longrightarrow> server_inv s"
  by (induction rule: server_reachable.induct) (auto simp: server_inv_init server_inv_step)

text \<open>
  C39: sessions, sink and sockets agree. However accepts, reads, writes, errors, events for the sink and
  heartbeats interleave, the sink sends to exactly the connections of the sessions, each once, and all
  of them are open; a connection that has lost its session is closed, or its closing has been posted, so
  no socket is leaked and a lost client is not sent to.
\<close>

theorem sessions_consistent:
  assumes "server_reachable s"
  shows "sv_sink s = map (ss_connection \<circ> snd) (sv_sessions s) \<and> distinct (sv_sink s)
    \<and> (\<forall>c \<in> set (sv_sink s). c < length (sv_conns s) \<and> tc_open (sv_conns s ! c))
    \<and> (\<forall>c < length (sv_conns s). c \<notin> set (sv_sink s) \<longrightarrow>
         \<not> tc_open (sv_conns s ! c) \<or> Close c \<in> set (sv_posted s))"
  using server_reachable_inv [OF assms] by (simp add: server_inv_def session_conns_def)

text \<open>Two clients; the first sends an invalid header and is dropped.\<close>

definition sample_server :: server where
  "sample_server = conn_event 0 (\<lambda>conn. read_chunk 7 conn (replicate 12 0))
     (accept_handler False 6 (accept_handler False 5 server_init))"

lemma sample_server_reachable: "server_reachable sample_server"
proof -
  have "server_reachable (accept_handler False 6 (accept_handler False 5 server_init))"
    by (rule server_reachable.Step [OF server_reachable.Step [OF Init Accept] Accept])
  then show ?thesis unfolding sample_server_def
    by (rule server_reachable.Step [OF _ Read])
      (simp add: accept_handler_def addConnection_def server_init_def Let_def)
qed

theorem sessions_consistent_witness: "sv_sink sample_server = [1] \<and> tc_open (sv_conns sample_server ! 1)"
proof -
  have "parse_all 7 (consumeIncomingBytes (replicate 12 0) (tcp_init 5))
      = (closeWithError Fault (consumeIncomingBytes (replicate 12 0) (tcp_init 5)), [])"
    by (subst parse_all.simps, simp add: tryParsePacket_def consumeIncomingBytes_def tcp_init_def kHeaderSize_def
        kMagic_def readU32_def Let_def)
  then have "sv_sink sample_server = [1]"
    by (simp add: sample_server_def conn_event_def read_chunk_def tcp_read_handler_def accept_handler_def
        addConnection_def server_init_def removeSession_def removeConnection_def session_of_def Let_def
        closeWithError_def consumeIncomingBytes_def tcp_init_def)
  then show ?thesis using sessions_consistent [OF sample_server_reachable] by auto
qed

text \<open>
  a round of heartbeats drops exactly the silent clients. When the posted round runs, the sessions
  whose connection is open and has received something within \<open>maxIdle\<close> stay, with one heartbeat counted,
  and exactly one ping is posted for each; every other session is gone, its connection is out of the
  sink and its closing is posted.
\<close>

theorem heartbeat_round:
  assumes "server_reachable s" and "sv_posted s = Heartbeat maxIdle # ps"
  shows "sv_sessions (run_posted now s) = map (beat now) (filter (alive maxIdle now s) (sv_sessions s))
    \<and> sv_posted (run_posted now s) = ps @ map (beat_task maxIdle now s) (sv_sessions s)
    \<and> sv_sink (run_posted now s) = map (ss_connection \<circ> snd) (filter (alive maxIdle now s) (sv_sessions s))"
proof -
  have "server_inv s" by (rule server_reachable_inv [OF assms(1)])
  then have inv: "server_inv (s\<lparr>sv_posted := ps\<rparr>)" using assms(2)
    by (auto simp: server_inv_def session_conns_def)
  have "run_posted now s = heartbeat maxIdle now (s\<lparr>sv_posted := ps\<rparr>)" by (simp add: run_posted_def assms(2) Let_def)
  moreover have "alive maxIdle now (s\<lparr>sv_posted := ps\<rparr>) = alive maxIdle now s"
      "beat_task maxIdle now (s\<lparr>sv_posted := ps\<rparr>) = beat_task maxIdle now s"
    by (rule alive_cong; simp)+
  ultimately show ?thesis using heartbeat_effect [OF inv, of maxIdle now] by (simp add: session_conns_def comp_def)
qed

theorem heartbeat_round_witness:
  "sv_sessions (run_posted 100 (heartbeatAndCleanup 30 (accept_handler False 5 server_init))) = []
   \<and> sv_posted (run_posted 100 (heartbeatAndCleanup 30 (accept_handler False 5 server_init))) = [Close 0]"
proof -
  let ?s = "heartbeatAndCleanup 30 (accept_handler False 5 server_init)"
  have "server_reachable ?s"
    by (rule server_reachable.Step [OF server_reachable.Step [OF Init Accept] Timer])
  moreover have "sv_posted ?s = Heartbeat 30 # []"
    by (simp add: heartbeatAndCleanup_def accept_handler_def addConnection_def server_init_def Let_def)
  ultimately show ?thesis using heartbeat_round [of ?s 30 "[]" 100]
    by (simp add: heartbeatAndCleanup_def accept_handler_def addConnection_def server_init_def Let_def
        alive_def beat_task_def stale_def tcp_init_def)
qed

end
