(* ===== verification/Rate_Buffer.thy ===== *)
theory Rate_Buffer
  imports Ieee_Double "HOL-Library.Signed_Division" Prelude
begin

text \<open>
  Event rates (daemon/src/utility): \<open>EventRateBuffer\<close> with its edge filter, dead-time filter, sliding
  rate estimator and history (gpio_ratebuffer.h and .cpp), and \<open>CounterRateBuffer\<close>, which turns the
  values of a wrapping hardware counter into a rate (ublox_ratebuffer.h and .cpp). Times are the
  nanoseconds of \<open>std::chrono::steady_clock\<close>, as integers: the differences formed here stay far from
  the limits of 64 bits. The current time is an argument.
\<close>

type_synonym event_time = int

definition invalid_time :: event_time where
  "invalid_time = - (2 ^ 63)"

datatype edge = Rising | Falling

record gpio_event =
  ge_signal :: u8
  ge_pin :: u32
  ge_timestamp :: event_time
  ge_edge :: edge

record interval_event =
  ie_sig :: u8
  ie_interval :: int

section \<open>Filters\<close>

definition edge_accept :: "edge option \<Rightarrow> gpio_event \<Rightarrow> bool" where
  "edge_accept filter_edge event = (case filter_edge of Some e \<Rightarrow> ge_edge event = e | None \<Rightarrow> True)"

record deadtime_filter =
  df_lastAccepted :: event_time
  df_deadtime :: int

definition deadtime_accept :: "event_time \<Rightarrow> deadtime_filter \<Rightarrow> deadtime_filter \<times> bool" where
  "deadtime_accept ts s =
     (if df_lastAccepted s = invalid_time then (s\<lparr>df_lastAccepted := ts\<rparr>, True)
      else (let dt = ts - df_lastAccepted s
            in if dt < df_deadtime s then (s, False) else (s\<lparr>df_lastAccepted := ts\<rparr>, True)))"

definition deadtime_reset :: "deadtime_filter \<Rightarrow> deadtime_filter" where
  "deadtime_reset s = s\<lparr>df_lastAccepted := invalid_time\<rparr>"

section \<open>The sliding rate\<close>

record rate_estimator =
  re_events :: "event_time list"
  re_window :: int

definition drop_old :: "int \<Rightarrow> event_time \<Rightarrow> event_time list \<Rightarrow> event_time list" where
  "drop_old window now = dropWhile (\<lambda>t. now - t > window)"

definition estimator_add :: "event_time \<Rightarrow> rate_estimator \<Rightarrow> rate_estimator" where
  "estimator_add ts s = s\<lparr>re_events := drop_old (re_window s) ts (re_events s @ [ts])\<rparr>"

definition estimator_cleanup :: "event_time \<Rightarrow> rate_estimator \<Rightarrow> rate_estimator" where
  "estimator_cleanup now s = s\<lparr>re_events := drop_old (re_window s) now (re_events s)\<rparr>"

text \<open>The number of events in the window and the time they span, when there is a rate at all.\<close>

definition rate_basis :: "event_time \<Rightarrow> rate_estimator \<Rightarrow> (int \<times> int) option" where
  "rate_basis now s =
     (if length (re_events s) < 2 then None
      else (let valid = drop_old (re_window s) now (re_events s)
            in if length valid < 2 then None
               else Some (int (length valid), last (re_events s) - hd valid)))"

definition currentRateHz :: "event_time \<Rightarrow> rate_estimator \<Rightarrow> rat" where
  "currentRateHz now s =
     (case rate_basis now s of None \<Rightarrow> 0
      | Some (valid_count, dt) \<Rightarrow>
          (let sec = double (double (of_int dt) / 1000000000)
           in if sec \<le> 0 then 0 else double (double (of_int valid_count) / sec)))"

definition estimator_clear :: "rate_estimator \<Rightarrow> rate_estimator" where
  "estimator_clear s = s\<lparr>re_events := []\<rparr>"

section \<open>The history\<close>

type_synonym rate_sample = "event_time \<times> rat"

text \<open>\<open>std::chrono::hours m_historyLength{2}\<close>\<close>

definition historyLength :: int where
  "historyLength = 2 * 3600 * 1000000000"

definition addSample :: "event_time \<Rightarrow> rat \<Rightarrow> rate_sample list \<Rightarrow> rate_sample list" where
  "addSample ts rate samples =
     dropWhile (\<lambda>(t, _). ts - t > historyLength) (samples @ [(ts, rate)])"

section \<open>The event rate buffer\<close>

record rate_buffer =
  rb_coincSig :: "u8 option"
  rb_lastCoincidenceEvent :: event_time
  rb_is_veto :: bool
  rb_filter_edge :: "edge option"
  rb_estimator :: rate_estimator
  rb_deadtime :: deadtime_filter
  rb_history :: "rate_sample list"
  rb_lastAcceptedEvent :: event_time
  rb_lastInterval :: int
  rb_rejectedDeadtime :: u64
  rb_rejectedCoincidence :: u64
  rb_startTime :: event_time
  rb_latestSampleTime :: event_time

definition rate_buffer_init :: "edge option \<Rightarrow> int \<Rightarrow> int \<Rightarrow> event_time \<Rightarrow> rate_buffer" where
  "rate_buffer_init filterEdge slidingWindow deadtime now =
     \<lparr>rb_coincSig = None, rb_lastCoincidenceEvent = invalid_time, rb_is_veto = False,
      rb_filter_edge = filterEdge,
      rb_estimator = \<lparr>re_events = [], re_window = slidingWindow\<rparr>,
      rb_deadtime = \<lparr>df_lastAccepted = invalid_time, df_deadtime = deadtime\<rparr>,
      rb_history = [], rb_lastAcceptedEvent = invalid_time, rb_lastInterval = 0,
      rb_rejectedDeadtime = 0, rb_rejectedCoincidence = 0,
      rb_startTime = now, rb_latestSampleTime = 0\<rparr>"

definition coincident :: "gpio_event \<Rightarrow> rate_buffer \<Rightarrow> bool" where
  "coincident event s \<longleftrightarrow> rb_lastCoincidenceEvent s \<noteq> invalid_time \<and>
     \<bar>(ge_timestamp event - rb_lastCoincidenceEvent s) sdiv 1000\<bar> \<le> 50"

text \<open>From the dead-time filter on.\<close>

definition accept_event :: "gpio_event \<Rightarrow> rate_buffer \<Rightarrow> rate_buffer \<times> bool \<times> interval_event option" where
  "accept_event event s =
     (case deadtime_accept (ge_timestamp event) (rb_deadtime s) of
        (d, False) \<Rightarrow>
          (s\<lparr>rb_deadtime := d, rb_rejectedDeadtime := rb_rejectedDeadtime s + 1\<rparr>, False, None)
      | (d, True) \<Rightarrow>
          (let s = s\<lparr>rb_deadtime := d\<rparr>;
               s = (if rb_lastAcceptedEvent s \<noteq> invalid_time
                    then s\<lparr>rb_lastInterval := ge_timestamp event - rb_lastAcceptedEvent s\<rparr> else s);
               s = s\<lparr>rb_lastAcceptedEvent := ge_timestamp event,
                     rb_estimator := estimator_add (ge_timestamp event) (rb_estimator s)\<rparr>
           in (s, True, if rb_lastInterval s \<noteq> 0
                        then Some \<lparr>ie_sig = ge_signal event, ie_interval = rb_lastInterval s\<rparr>
                        else None)))"

definition handle_event :: "gpio_event \<Rightarrow> rate_buffer \<Rightarrow> rate_buffer \<times> bool \<times> interval_event option" where
  "handle_event event s =
     (if \<not> edge_accept (rb_filter_edge s) event then (s, False, None)
      else
        (case rb_coincSig s of
           None \<Rightarrow> accept_event event s
         | Some sig \<Rightarrow>
             if ge_signal event = sig
             then (s\<lparr>rb_lastCoincidenceEvent := ge_timestamp event\<rparr>, False, None)
             else if rb_is_veto s = coincident event s
             then (s\<lparr>rb_rejectedCoincidence := rb_rejectedCoincidence s + 1\<rparr>, False, None)
             else accept_event event s))"

text \<open>The samples from the newest back to the first one before \<open>m_latestSampleTime\<close>, in order.\<close>

definition sampleAndRetrieve :: "event_time \<Rightarrow> rate_buffer \<Rightarrow> rate_buffer \<times> (rat \<times> rat) list" where
  "sampleAndRetrieve now s =
     (let rate = currentRateHz now (rb_estimator s);
          samples = addSample now rate (rb_history s);
          recent = takeWhile (\<lambda>(t, _). \<not> t < rb_latestSampleTime s) (rev samples);
          out = map (\<lambda>(t, r). (float (double (double (of_int (t - rb_startTime s)) / 1000000000)), float r))
                  recent
      in (s\<lparr>rb_history := samples, rb_latestSampleTime := now\<rparr>, rev out))"

definition clear_buffer :: "event_time \<Rightarrow> rate_buffer \<Rightarrow> rate_buffer" where
  "clear_buffer now s =
     s\<lparr>rb_estimator := estimator_clear (rb_estimator s), rb_history := [],
       rb_deadtime := deadtime_reset (rb_deadtime s), rb_lastAcceptedEvent := invalid_time,
       rb_lastCoincidenceEvent := invalid_time, rb_startTime := now, rb_latestSampleTime := now\<rparr>"

fun handle_events :: "gpio_event list \<Rightarrow> rate_buffer \<Rightarrow> rate_buffer \<times> (gpio_event \<times> interval_event option) list" where
  "handle_events [] s = (s, [])"
| "handle_events (e # es) s =
     (case handle_event e s of (s1, accepted, iv) \<Rightarrow>
        (case handle_events es s1 of (s2, out) \<Rightarrow> (s2, if accepted then (e, iv) # out else out)))"

section \<open>The counter rate buffer\<close>

record counter_buffer =
  cb_counter_mask :: u32
  cb_buffer_time :: int
  cb_countbuffer :: "(event_time \<times> u16) list"
  cb_instance_start :: event_time

definition counter_init :: "event_time \<Rightarrow> counter_buffer" where
  "counter_init now = \<lparr>cb_counter_mask = 0xffff, cb_buffer_time = 30 * 1000000000,
     cb_countbuffer = [], cb_instance_start = now\<rparr>"

text \<open>\<open>while (size() > 2 && event_time - front().first > m_buffer_time) pop_front()\<close>\<close>

fun pop_old :: "int \<Rightarrow> event_time \<Rightarrow> (event_time \<times> u16) list \<Rightarrow> (event_time \<times> u16) list" where
  "pop_old buffer_time now (a # b # c # rest) =
     (if now - fst a > buffer_time then pop_old buffer_time now (b # c # rest) else a # b # c # rest)"
| "pop_old buffer_time now xs = xs"

definition onCounterValue :: "event_time \<Rightarrow> u16 \<Rightarrow> counter_buffer \<Rightarrow> counter_buffer" where
  "onCounterValue event_time value s =
     (let s = s\<lparr>cb_countbuffer := cb_countbuffer s @ [(event_time, value)]\<rparr>
      in if length (cb_countbuffer s) = 1 then s
         else s\<lparr>cb_countbuffer := pop_old (cb_buffer_time s) event_time (cb_countbuffer s)\<rparr>)"

text \<open>
  \<open>int diff_count = next - current; if (diff_count < 0) diff_count += m_counter_mask + 1;\<close> The addition
  is unsigned and its result is converted back to \<open>int\<close>.
\<close>

definition diff_count :: "u32 \<Rightarrow> u16 \<Rightarrow> u16 \<Rightarrow> int" where
  "diff_count m a b =
     (let d = uint b - uint a
      in if d < 0 then sint (word_of_int d + (m + 1) :: u32) else d)"

fun count_loop :: "u32 \<Rightarrow> (event_time \<times> u16) list \<Rightarrow> event_time \<Rightarrow> u32 \<Rightarrow> event_time \<times> u32" where
  "count_loop m (a # b # rest) tstart tot =
     (if fst a < tstart then count_loop m (b # rest) (fst b) tot
      else count_loop m (b # rest) tstart (tot + word_of_int (diff_count m (snd a) (snd b))))"
| "count_loop m xs tstart tot = (tstart, tot)"

text \<open>\<open>None\<close> stands for the infinity or the NaN of a division by a zero span.\<close>

definition avgRate :: "event_time \<Rightarrow> counter_buffer \<Rightarrow> rat option" where
  "avgRate tend s =
     (if length (cb_countbuffer s) < 2 then Some 0
      else
        (let tstart = max (tend - cb_buffer_time s) (cb_instance_start s);
             (tstart', total) = count_loop (cb_counter_mask s) (cb_countbuffer s) tstart 0;
             span = double (double (1 / 1000000) * double (of_int ((tend - tstart') sdiv 1000)))
         in if span = 0 then None else Some (double (double (of_int (uint total)) / span))))"

section \<open>Dead time and intervals\<close>

text \<open>
  The dead-time filter and the interval bookkeeping agree on the last accepted event; \<open>previous\<close> is
  that event, if there is one.
\<close>

definition plain :: "rate_buffer \<Rightarrow> bool" where
  "plain s \<longleftrightarrow> rb_coincSig s = None \<and> df_lastAccepted (rb_deadtime s) = rb_lastAcceptedEvent s"

definition previous :: "rate_buffer \<Rightarrow> event_time list" where
  "previous s = (if rb_lastAcceptedEvent s = invalid_time then [] else [rb_lastAcceptedEvent s])"

lemma plain_init: "plain (rate_buffer_init f w d t)" "previous (rate_buffer_init f w d t) = []"
  by (simp_all add: plain_def previous_def rate_buffer_init_def)

lemma re_window_add [simp]: "re_window (estimator_add ts est) = re_window est"
  by (simp add: estimator_add_def)

lemma handle_event_cases:
  assumes "plain s" and "handle_event e s = (s', acc, iv)" and "ge_timestamp e \<noteq> invalid_time"
  shows "plain s' \<and> rb_filter_edge s' = rb_filter_edge s
    \<and> df_deadtime (rb_deadtime s') = df_deadtime (rb_deadtime s)
    \<and> re_window (rb_estimator s') = re_window (rb_estimator s)
    \<and> (if acc then edge_accept (rb_filter_edge s) e
          \<and> (\<forall>t \<in> set (previous s). df_deadtime (rb_deadtime s) \<le> ge_timestamp e - t)
          \<and> previous s' = [ge_timestamp e] \<and> rb_estimator s' = estimator_add (ge_timestamp e) (rb_estimator s)
          \<and> rb_lastInterval s' = (if previous s = [] then rb_lastInterval s else ge_timestamp e - hd (previous s))
          \<and> iv = (if rb_lastInterval s' = 0 then None
                  else Some \<lparr>ie_sig = ge_signal e, ie_interval = rb_lastInterval s'\<rparr>)
       else iv = None \<and> previous s' = previous s \<and> rb_estimator s' = rb_estimator s
          \<and> rb_lastInterval s' = rb_lastInterval s)"
  using assms
  by (auto simp: handle_event_def accept_event_def deadtime_accept_def plain_def previous_def Let_def
      split: if_splits prod.splits bool.splits)

lemma accepted_spaced:
  "plain s \<Longrightarrow> handle_events es s = (s', out) \<Longrightarrow> \<forall>e \<in> set es. ge_timestamp e \<noteq> invalid_time \<Longrightarrow>
    successively (\<lambda>a b. df_deadtime (rb_deadtime s) \<le> b - a) (previous s @ map (ge_timestamp \<circ> fst) out)
    \<and> (\<forall>(e, iv) \<in> set out. e \<in> set es \<and> edge_accept (rb_filter_edge s) e) \<and> plain s'"
proof (induction es arbitrary: s out)
  case Nil
  then show ?case by (auto simp: previous_def)
next
  case (Cons e es)
  obtain s1 acc iv where h: "handle_event e s = (s1, acc, iv)" by (metis prod_cases3)
  obtain out1 where r: "handle_events es s1 = (s', out1)"
    and o: "out = (if acc then (e, iv) # out1 else out1)"
    using Cons.prems(2) h by (auto split: prod.splits)
  note c = handle_event_cases [OF Cons.prems(1) h]
  have p1: "plain s1" using c Cons.prems(3) by simp
  note ih = Cons.IH [OF p1 r]
  show ?case
  proof (cases acc)
    case True
    then show ?thesis using c ih o Cons.prems(3)
      by (cases "previous s") (auto simp: previous_def successively_Cons split: if_splits)
  next
    case False
    then show ?thesis using c ih o Cons.prems(3) by auto
  qed
qed

text \<open>
  dead time and edge filter hold for every event that is counted: of the events handled by a
  buffer, those accepted have the edge asked for, and each comes at least the dead time after the
  accepted one before it.
\<close>

theorem accepted_events_spaced:
  assumes "\<forall>e \<in> set es. ge_timestamp e \<noteq> invalid_time"
    and "handle_events es (rate_buffer_init filterEdge window deadtime now) = (s, out)"
  shows "successively (\<lambda>a b. deadtime \<le> b - a) (map (ge_timestamp \<circ> fst) out)
    \<and> (\<forall>(e, iv) \<in> set out. e \<in> set es \<and> edge_accept filterEdge e)"
  using accepted_spaced [OF plain_init(1) assms(2,1)] plain_init(2) by (simp add: rate_buffer_init_def)

definition falling_at :: "event_time \<Rightarrow> gpio_event" where
  "falling_at t = \<lparr>ge_signal = 3, ge_pin = 0, ge_timestamp = t, ge_edge = Falling\<rparr>"

theorem accepted_events_spaced_witness:
  "map (ge_timestamp \<circ> fst) (snd (handle_events (map falling_at [100, 150, 1200])
      (rate_buffer_init (Some Falling) 5000000000 1000 0))) = [100, 1200]
   \<and> successively (\<lambda>a b. 1000 \<le> b - a) (map (ge_timestamp \<circ> fst)
       (snd (handle_events (map falling_at [100, 150, 1200]) (rate_buffer_init (Some Falling) 5000000000 1000 0))))"
proof -
  have e: "map (ge_timestamp \<circ> fst) (snd (handle_events (map falling_at [100, 150, 1200])
      (rate_buffer_init (Some Falling) 5000000000 1000 0))) = [100, 1200]"
    by code_simp
  obtain s out where h: "handle_events (map falling_at [100, 150, 1200])
      (rate_buffer_init (Some Falling) 5000000000 1000 0) = (s, out)"
    by fastforce
  have "\<forall>e \<in> set (map falling_at [100, 150, 1200]). ge_timestamp e \<noteq> invalid_time"
    by (simp add: falling_at_def invalid_time_def)
  from accepted_events_spaced [OF this h] e h show ?thesis by simp
qed

text \<open>What the accepted events should report: nothing for the first, then the time since the last.\<close>

fun expected_intervals :: "event_time list \<Rightarrow> gpio_event list \<Rightarrow> interval_event option list" where
  "expected_intervals prev [] = []"
| "expected_intervals prev (e # es) =
     (case prev of [] \<Rightarrow> None
      | t # _ \<Rightarrow> if ge_timestamp e = t then None
                 else Some \<lparr>ie_sig = ge_signal e, ie_interval = ge_timestamp e - t\<rparr>)
     # expected_intervals [ge_timestamp e] es"

lemma accepted_intervals:
  "plain s \<Longrightarrow> previous s = [] \<longrightarrow> rb_lastInterval s = 0 \<Longrightarrow> handle_events es s = (s', out) \<Longrightarrow>
    \<forall>e \<in> set es. ge_timestamp e \<noteq> invalid_time \<Longrightarrow>
    map snd out = expected_intervals (previous s) (map fst out)"
proof (induction es arbitrary: s out)
  case (Cons e es)
  obtain s1 acc iv where h: "handle_event e s = (s1, acc, iv)" by (metis prod_cases3)
  obtain out1 where r: "handle_events es s1 = (s', out1)"
    and o: "out = (if acc then (e, iv) # out1 else out1)"
    using Cons.prems(3) h by (auto split: prod.splits)
  have ts: "ge_timestamp e \<noteq> invalid_time" using Cons.prems(4) by simp
  note c = handle_event_cases [OF Cons.prems(1) h ts]
  have p1: "plain s1" using c by simp
  have l1: "previous s1 = [] \<longrightarrow> rb_lastInterval s1 = 0" using c Cons.prems(2) by (auto split: if_splits)
  have ih: "map snd out1 = expected_intervals (previous s1) (map fst out1)"
    using Cons.IH [OF p1 l1 r] Cons.prems(4) by simp
  show ?case
  proof (cases acc)
    case True
    then show ?thesis using c ih o Cons.prems(2) by (cases "previous s") auto
  next
    case False
    then show ?thesis using c ih o by simp
  qed
qed simp

text \<open>
  the reported intervals are the true ones: a fresh buffer reports for every accepted event but
  the first the time since the event accepted before it (and nothing when the two times are equal).
\<close>

theorem intervals_exact:
  assumes "\<forall>e \<in> set es. ge_timestamp e \<noteq> invalid_time"
    and "handle_events es (rate_buffer_init filterEdge window deadtime now) = (s, out)"
  shows "map snd out = expected_intervals [] (map fst out)"
  using accepted_intervals [OF plain_init(1) _ assms(2,1)] plain_init(2)
  by (simp add: rate_buffer_init_def)

theorem intervals_exact_witness:
  "map snd (snd (handle_events (map falling_at [100, 150, 1200])
      (rate_buffer_init None 5000000000 1000 0))) = [None, Some \<lparr>ie_sig = 3, ie_interval = 1100\<rparr>]"
proof -
  obtain s out where h: "handle_events (map falling_at [100, 150, 1200])
      (rate_buffer_init None 5000000000 1000 0) = (s, out)" by fastforce
  have "map fst (snd (handle_events (map falling_at [100, 150, 1200])
      (rate_buffer_init None 5000000000 1000 0))) = [falling_at 100, falling_at 1200]"
    by code_simp
  with h have f: "map fst out = [falling_at 100, falling_at 1200]" by simp
  have "\<forall>e \<in> set (map falling_at [100, 150, 1200]). ge_timestamp e \<noteq> invalid_time"
    by (simp add: falling_at_def invalid_time_def)
  from intervals_exact [OF this h] f h show ?thesis by (simp add: falling_at_def)
qed

text \<open>
  clearing a buffer leaves a stale interval behind: \<open>clear()\<close> forgets the last accepted event but
  not the last interval, so the first event after it is reported with the interval measured before.
\<close>

theorem clear_reports_stale_interval:
  assumes "rb_coincSig s = None" and "rb_lastInterval s \<noteq> 0" and "edge_accept (rb_filter_edge s) e"
  shows "snd (handle_event e (clear_buffer now s)) =
    (True, Some \<lparr>ie_sig = ge_signal e, ie_interval = rb_lastInterval s\<rparr>)"
  using assms
  by (simp add: handle_event_def clear_buffer_def accept_event_def deadtime_accept_def
      deadtime_reset_def Let_def)

theorem clear_reports_stale_interval_witness:
  "snd (handle_event (falling_at 900000000000)
      (clear_buffer 800000000000 (fst (handle_events (map falling_at [100, 1200])
         (rate_buffer_init None 5000000000 1000 0))))) =
    (True, Some \<lparr>ie_sig = 3, ie_interval = 1100\<rparr>)"
proof -
  let ?s = "fst (handle_events (map falling_at [100, 1200]) (rate_buffer_init None 5000000000 1000 0))"
  have s: "rb_coincSig ?s = None" "rb_lastInterval ?s = 1100" "rb_filter_edge ?s = None"
    by code_simp+
  have "edge_accept (rb_filter_edge ?s) (falling_at 900000000000)"
    by (simp only: s(3) edge_accept_def option.case)
  from clear_reports_stale_interval [OF s(1) _ this, of 800000000000] s(2)
  show ?thesis by (simp add: falling_at_def)
qed

section \<open>The rate\<close>

definition estimator_ok :: "rate_buffer \<Rightarrow> bool" where
  "estimator_ok s \<longleftrightarrow>
     sorted_wrt (\<lambda>a b. df_deadtime (rb_deadtime s) \<le> b - a) (re_events (rb_estimator s))
     \<and> (\<forall>t \<in> set (re_events (rb_estimator s)). \<exists>l. previous s = [l] \<and> t \<le> l
          \<and> l - t \<le> re_window (rb_estimator s))
     \<and> (re_events (rb_estimator s) \<noteq> [] \<longrightarrow> previous s = [last (re_events (rb_estimator s))])"

lemma sorted_wrt_dropWhile: "sorted_wrt P xs \<Longrightarrow> sorted_wrt P (dropWhile Q xs)"
  by (simp add: dropWhile_eq_drop sorted_wrt_drop)

lemma drop_old_within:
  assumes "sorted_wrt (\<lambda>a b. d \<le> b - a) xs" and "0 \<le> d"
  shows "\<forall>t \<in> set (drop_old window now xs). now - t \<le> window"
  using assms(1)
proof (induction xs)
  case (Cons x xs)
  show ?case
  proof (cases "now - x > window")
    case True
    then show ?thesis using Cons by (simp add: drop_old_def)
  next
    case False
    have "\<forall>y \<in> set xs. x \<le> y" using Cons.prems assms(2) by fastforce
    with False show ?thesis by (fastforce simp: drop_old_def)
  qed
qed (simp add: drop_old_def)

lemma drop_old_last: "0 \<le> window \<Longrightarrow> drop_old window ts (xs @ [ts]) \<noteq> [] \<and>
    last (drop_old window ts (xs @ [ts])) = ts"
  by (induction xs) (auto simp: drop_old_def)

lemma estimator_ok_step:
  assumes "estimator_ok s" and "plain s" and "handle_event e s = (s', acc, iv)"
    and "ge_timestamp e \<noteq> invalid_time" and "0 \<le> df_deadtime (rb_deadtime s)"
    and "0 \<le> re_window (rb_estimator s)"
  shows "estimator_ok s'"
proof (cases acc)
  case False
  then show ?thesis using handle_event_cases [OF assms(2-4)] assms(1) by (simp add: estimator_ok_def)
next
  case True
  let ?d = "df_deadtime (rb_deadtime s)" and ?xs = "re_events (rb_estimator s)"
    and ?w = "re_window (rb_estimator s)" and ?t = "ge_timestamp e"
  note c = handle_event_cases [OF assms(2-4)]
  have sp: "\<forall>t \<in> set (previous s). ?d \<le> ?t - t" using c True by simp
  have sorted: "sorted_wrt (\<lambda>a b. ?d \<le> b - a) (?xs @ [?t])"
    using assms(1) sp unfolding estimator_ok_def sorted_wrt_append by fastforce
  have ev: "re_events (rb_estimator s') = drop_old ?w ?t (?xs @ [?t])"
    using c True by (simp add: estimator_add_def)
  have sub: "set (drop_old ?w ?t (?xs @ [?t])) \<subseteq> set (?xs @ [?t])"
    unfolding drop_old_def by (auto dest: set_dropWhileD)
  have le: "\<forall>t \<in> set (?xs @ [?t]). t \<le> ?t"
    using assms(1,5) sp unfolding estimator_ok_def by fastforce
  have 1: "sorted_wrt (\<lambda>a b. ?d \<le> b - a) (re_events (rb_estimator s'))"
    unfolding ev drop_old_def by (rule sorted_wrt_dropWhile [OF sorted])
  have 2: "\<forall>t \<in> set (re_events (rb_estimator s')). t \<le> ?t \<and> ?t - t \<le> ?w"
    unfolding ev using drop_old_within [OF sorted assms(5), of ?w ?t] sub le by blast
  have 3: "last (re_events (rb_estimator s')) = ?t"
    unfolding ev using drop_old_last [OF assms(6)] by simp
  show ?thesis using 1 2 3 c True by (simp add: estimator_ok_def)
qed

lemma estimator_ok_events:
  "handle_events es s = (s', out) \<Longrightarrow> estimator_ok s \<Longrightarrow> plain s \<Longrightarrow>
    \<forall>e \<in> set es. ge_timestamp e \<noteq> invalid_time \<Longrightarrow> 0 \<le> df_deadtime (rb_deadtime s) \<Longrightarrow>
    0 \<le> re_window (rb_estimator s) \<Longrightarrow>
    estimator_ok s' \<and> df_deadtime (rb_deadtime s') = df_deadtime (rb_deadtime s)
    \<and> re_window (rb_estimator s') = re_window (rb_estimator s)"
proof (induction es arbitrary: s out)
  case (Cons e es)
  obtain s1 acc iv where h: "handle_event e s = (s1, acc, iv)" by (metis prod_cases3)
  obtain out1 where r: "handle_events es s1 = (s', out1)"
    using Cons.prems(1) h by (auto split: prod.splits)
  have ts: "ge_timestamp e \<noteq> invalid_time" using Cons.prems(4) by simp
  note c = handle_event_cases [OF Cons.prems(3) h ts]
  have "estimator_ok s1" using estimator_ok_step [OF Cons.prems(2,3) h ts Cons.prems(5,6)] .
  from Cons.IH [OF r this] c Cons.prems(4-6) show ?case by simp
qed simp

lemma spaced_span:
  "sorted_wrt (\<lambda>a b. d \<le> b - a) (x # xs) \<Longrightarrow> int (length xs) * d \<le> last (x # xs) - x"
proof (induction xs arbitrary: x)
  case (Cons y xs)
  then have "int (length xs) * d \<le> last (y # xs) - y" "d \<le> y - x" by auto
  then show ?case by (simp add: algebra_simps)
qed simp

text \<open>
  the basis of the rate is sound and bounded: whenever \<open>currentRateHz\<close> computes a rate, from
  \<open>n\<close> events spanning \<open>dt\<close>, these events lie in the window and respect the dead time, so
  \<open>(n - 1) * deadtime <= dt <= window\<close>: dead time bounds the number of events and the rate.
\<close>

theorem rate_bounded:
  assumes "\<forall>e \<in> set es. ge_timestamp e \<noteq> invalid_time" and "0 \<le> deadtime" and "0 \<le> window"
    and "handle_events es (rate_buffer_init filterEdge window deadtime t0) = (s, out)"
    and "rate_basis now (rb_estimator s) = Some (n, dt)"
  shows "2 \<le> n \<and> (n - 1) * deadtime \<le> dt \<and> dt \<le> window"
proof -
  let ?i = "rate_buffer_init filterEdge window deadtime t0"
  have i: "estimator_ok ?i" "df_deadtime (rb_deadtime ?i) = deadtime" "re_window (rb_estimator ?i) = window"
    by (simp_all add: estimator_ok_def rate_buffer_init_def)
  from estimator_ok_events [OF assms(4) i(1) plain_init(1) assms(1)] i assms(2,3)
  have ok: "estimator_ok s" "df_deadtime (rb_deadtime s) = deadtime" "re_window (rb_estimator s) = window"
    by auto
  let ?ev = "re_events (rb_estimator s)"
  define valid where "valid = drop_old window now ?ev"
  from assms(5) have v: "2 \<le> length valid" "n = int (length valid)" "dt = last ?ev - hd valid"
    unfolding rate_basis_def Let_def ok(3) valid_def by (auto split: if_splits)
  then obtain x xs where x: "valid = x # xs" "1 \<le> length xs" by (cases valid) auto
  have l: "last valid = last ?ev"
    using x unfolding valid_def drop_old_def by (metis dropWhile_eq_drop last_drop list.discI drop_eq_Nil not_le)
  have "sorted_wrt (\<lambda>a b. deadtime \<le> b - a) valid"
    unfolding valid_def drop_old_def using ok(1,2) by (intro sorted_wrt_dropWhile) (simp add: estimator_ok_def)
  then have "int (length xs) * deadtime \<le> last valid - x" using spaced_span [of deadtime x xs] x(1) by simp
  moreover have "x \<in> set ?ev" using x(1) unfolding valid_def drop_old_def by (metis list.set_intros(1) set_dropWhileD)
  then have "last ?ev - x \<le> window" using ok(1,3) unfolding estimator_ok_def by force
  ultimately show ?thesis using v x l by simp
qed

theorem rate_bounded_witness:
  "rate_basis 3000 (rb_estimator (fst (handle_events (map falling_at [100, 1200])
      (rate_buffer_init None 5000000000 1000 0)))) = Some (2, 1100) \<and> (2 - 1) * 1000 \<le> (1100 :: int)"
proof -
  obtain s out where h: "handle_events (map falling_at [100, 1200])
      (rate_buffer_init None 5000000000 1000 0) = (s, out)" by fastforce
  have b: "rate_basis 3000 (rb_estimator (fst (handle_events (map falling_at [100, 1200])
      (rate_buffer_init None 5000000000 1000 0)))) = Some (2, 1100)"
    by code_simp
  then have "rate_basis 3000 (rb_estimator s) = Some (2, 1100)" using h by simp
  moreover have "\<forall>e \<in> set (map falling_at [100, 1200]). ge_timestamp e \<noteq> invalid_time"
    by (simp add: falling_at_def invalid_time_def)
  ultimately show ?thesis using rate_bounded [OF _ _ _ h, of 3000 2 1100] b by simp
qed

section \<open>Retrieving samples\<close>

definition sample_time :: "rate_buffer \<Rightarrow> event_time \<Rightarrow> rat" where
  "sample_time s t = float (double (double (of_int (t - rb_startTime s)) / 1000000000))"

text \<open>
  every rate sample is handed out twice. Of two consecutive calls of \<open>sampleAndRetrieve\<close>, the
  second returns, before its own sample, the sample of the first once more: the comparison with
  \<open>m_latestSampleTime\<close> lets the sample taken at exactly that time pass.
\<close>

theorem samples_delivered_twice:
  assumes "\<forall>(t, r) \<in> set (rb_history s). t < t1" and "t1 < t2" and "t2 - t1 \<le> historyLength"
    and "rb_latestSampleTime s \<le> t1"
  shows "\<exists>s1 s2 o1 sample2. sampleAndRetrieve t1 s = (s1, o1) \<and> o1 \<noteq> []
    \<and> fst (last o1) = sample_time s t1 \<and> fst sample2 = sample_time s t2
    \<and> sampleAndRetrieve t2 s1 = (s2, [last o1, sample2])"
proof -
  let ?r1 = "currentRateHz t1 (rb_estimator s)" and ?r2 = "currentRateHz t2 (rb_estimator s)"
  define h1 where "h1 = addSample t1 ?r1 (rb_history s)"
  have split: "\<exists>ys. dropWhile P (xs @ [z]) = ys @ [z] \<and> set ys \<subseteq> set xs" if "\<not> P z" for P xs and z :: rate_sample
    using that by (induction xs) auto
  obtain ys where h1: "h1 = ys @ [(t1, ?r1)]" "set ys \<subseteq> set (rb_history s)"
    using split [of "\<lambda>(t, _). t1 - t > historyLength" "(t1, ?r1)" "rb_history s"]
    by (auto simp: h1_def addSample_def historyLength_def)
  define h2 where "h2 = addSample t2 ?r2 h1"
  have d: "dropWhile P (xs @ y # zs) = dropWhile P xs @ y # zs" if "\<not> P y" for P xs and y :: rate_sample and zs
    using that by (induction xs) auto
  have h2: "\<exists>ys'. h2 = ys' @ [(t1, ?r1), (t2, ?r2)] \<and> set ys' \<subseteq> set ys"
    using d [of "\<lambda>(t, _). t2 - t > historyLength" "(t1, ?r1)" ys "[(t2, ?r2)]"] assms(3)
    by (auto simp: h2_def addSample_def h1(1) dest: set_dropWhileD)
  then obtain ys' where h2: "h2 = ys' @ [(t1, ?r1), (t2, ?r2)]" "set ys' \<subseteq> set ys" by blast
  have old: "\<forall>(t, r) \<in> set ys'. t < t1" using assms(1) h1(2) h2(2) by blast
  then have tw: "takeWhile (\<lambda>(t, _). \<not> t < t1) (rev ys') = []"
    by (cases "rev ys'") (auto simp: rev_swap)
  let ?c = "\<lambda>(t, r). (sample_time s t, float r)"
  let ?s1 = "s\<lparr>rb_history := h1, rb_latestSampleTime := t1\<rparr>"
  obtain o1 where r1: "sampleAndRetrieve t1 s = (?s1, o1)" "o1 \<noteq> []" "last o1 = ?c (t1, ?r1)"
    using assms(4) by (simp add: sampleAndRetrieve_def h1_def [symmetric] h1(1) sample_time_def)
  have "snd (sampleAndRetrieve t2 ?s1) = [?c (t1, ?r1), ?c (t2, ?r2)]"
    using assms(2) tw by (simp add: sampleAndRetrieve_def h2_def [symmetric] h2(1) sample_time_def)
  then obtain s2 where "sampleAndRetrieve t2 ?s1 = (s2, [?c (t1, ?r1), ?c (t2, ?r2)])"
    by (metis prod.collapse)
  with r1 show ?thesis by force
qed

theorem samples_delivered_twice_witness:
  "\<exists>s1 s2 o1 sample2. sampleAndRetrieve 1000000000 (rate_buffer_init None 5000000000 0 0) = (s1, o1)
    \<and> sampleAndRetrieve 2000000000 s1 = (s2, [last o1, sample2])"
proof -
  let ?i = "rate_buffer_init None 5000000000 0 0"
  have "\<forall>(t, r) \<in> set (rb_history ?i). t < 1000000000" "rb_latestSampleTime ?i \<le> 1000000000"
    by (simp_all add: rate_buffer_init_def)
  from samples_delivered_twice [OF this(1) _ _ this(2), of 2000000000]
  show ?thesis by (simp add: historyLength_def) blast
qed

section \<open>Counting through wrap-around\<close>

lemma diff_count_step:
  assumes "a \<le> b" and "b - a \<le> 0xffff"
  shows "diff_count 0xffff (word_of_nat a) (word_of_nat b) = int (b - a)"
proof -
  let ?d = "int (b mod 65536) - int (a mod 65536)"
  have u: "uint (word_of_nat n :: u16) = int (n mod 65536)" for n
    by (simp add: unsigned_of_nat take_bit_eq_mod)
  have mod: "?d = (int b - int a) - 65536 * (int b div 65536 - int a div 65536)"
    by (simp add: zmod_int zdiv_int minus_div_mult_eq_mod [symmetric])
  have div: "int b div 65536 - int a div 65536 \<in> {0, 1}" using assms by auto
  show ?thesis
  proof (cases "?d < 0")
    case True
    then have "?d + 65536 = int b - int a" using mod div assms by auto
    moreover have "word_of_int ?d + (0xffff + 1 :: u32) = word_of_int (?d + 65536)" by simp
    moreover have "sint (word_of_int e :: u32) = e" if "0 \<le> e" "e \<le> 65535" for e
      using that by (simp add: signed_of_int signed_take_bit_int_eq_self)
    from this [of "int b - int a"] have "sint (word_of_int (int b - int a) :: u32) = int b - int a"
      using assms by linarith
    ultimately show ?thesis using True assms by (simp add: diff_count_def u Let_def)
  next
    case False
    then have "?d = int b - int a" using mod div assms by auto
    with False assms show ?thesis by (simp add: diff_count_def u Let_def)
  qed
qed

text \<open>The readings of a counter whose true values are \<open>cs\<close>.\<close>

definition readings :: "event_time list \<Rightarrow> nat list \<Rightarrow> (event_time \<times> u16) list" where
  "readings ts cs = zip ts (map word_of_nat cs)"

lemma count_loop_in_window:
  "sorted_wrt (\<le>) ts \<Longrightarrow> length ts = length cs \<Longrightarrow> ts \<noteq> [] \<Longrightarrow> tstart \<le> hd ts \<Longrightarrow>
    successively (\<lambda>a b. a \<le> b \<and> b - a \<le> 0xffff) cs \<Longrightarrow>
    hd cs \<le> last cs \<and>
    count_loop 0xffff (readings ts cs) tstart tot = (tstart, tot + word_of_nat (last cs - hd cs))"
proof (induction ts arbitrary: cs tot)
  case (Cons t ts)
  obtain c cs' where cs: "cs = c # cs'" "length ts = length cs'" using Cons.prems(2) by (cases cs) auto
  show ?case
  proof (cases ts)
    case Nil
    then show ?thesis using cs by (simp add: readings_def)
  next
    case (Cons t' ts')
    then obtain c' cs'' where cs': "cs' = c' # cs''" using cs(2) by (cases cs') auto
    have st: "c \<le> c'" "c' - c \<le> 0xffff" using Cons.prems(5) cs cs' by simp_all
    let ?d = "word_of_int (diff_count 0xffff (word_of_nat c) (word_of_nat c')) :: u32"
    have d: "?d = word_of_nat (c' - c)" by (simp add: diff_count_step [OF st])
    have ih: "hd cs' \<le> last cs' \<and> count_loop 0xffff (readings ts cs') tstart (tot + ?d) =
        (tstart, tot + ?d + word_of_nat (last cs' - hd cs'))"
      using Cons.IH [of cs' "tot + ?d"] Cons.prems cs cs' Cons by auto
    have "(word_of_nat (c' - c) :: u32) + word_of_nat (last cs' - c') = word_of_nat (last cs' - c)"
      using ih st cs' by (simp flip: of_nat_add)
    moreover have "\<not> t < tstart" using Cons.prems(4) by simp
    ultimately show ?thesis using ih cs cs' Cons st d
      by (simp add: readings_def add.assoc)
  qed
qed simp

text \<open>
  C34: counting survives the wrap-around of the 16-bit counter. If the true count rises by at most
  65535 between two readings, the counts summed up by \<open>avgRate\<close> are exactly the increase of the true
  count (modulo 2^32) over the readings from the start of the averaging time on; a first reading
  before it is skipped, and the averaging time then starts at the second one.
\<close>

theorem counter_counts_exactly:
  assumes "sorted_wrt (\<le>) ts" and "length ts = length cs" and "2 \<le> length ts"
    and "successively (\<lambda>a b. a \<le> b \<and> b - a \<le> 0xffff) cs"
  shows "count_loop 0xffff (readings ts cs) tstart 0 =
    (if tstart \<le> hd ts then (tstart, word_of_nat (last cs - hd cs))
     else (hd (tl ts), word_of_nat (last cs - hd (tl cs))))"
proof (cases "tstart \<le> hd ts")
  case True
  moreover have "ts \<noteq> []" using assms(3) by auto
  ultimately show ?thesis using count_loop_in_window [OF assms(1,2) _ True assms(4), of 0] by simp
next
  case False
  obtain t t' ts' where ts: "ts = t # t' # ts'" using assms(3) by (cases ts; cases "tl ts") auto
  obtain c c' cs' where cs: "cs = c # c' # cs'" using assms(2,3) by (cases cs; cases "tl cs") auto
  have "count_loop 0xffff (readings (t' # ts') (c' # cs')) t' 0 = (t', 0 + word_of_nat (last (c' # cs') - c'))"
    using count_loop_in_window [of "t' # ts'" "c' # cs'" t' 0] assms ts cs by simp
  then show ?thesis using False ts cs by (simp add: readings_def)
qed

theorem counter_counts_exactly_witness:
  "count_loop 0xffff (readings [10, 20, 30] [65000, 65530, 70000]) 5 0 = (5, 5000)"
  using counter_counts_exactly [of "[10, 20, 30]" "[65000, 65530, 70000]" 5] by simp

end
