(* ===== verification/Geohash.thy ===== *)
theory Geohash
  imports Prelude Ieee_Double
begin

text \<open>
  \<open>GeoHash::hashFromCoordinates\<close> (\<open>daemon/src/utility/geohash.cpp\<close>): the cell of a longitude and
  latitude, by alternating bisection, five bisections to a character. The coordinates are finite
  doubles, that is rationals; midpoints are computed in \<open>double\<close>.
\<close>

definition base32 :: string where
  "base32 = ''0123456789bcdefghjkmnpqrstuvwxyz''"

record geo_cell =
  cell_lonMin :: rat
  cell_lonMax :: rat
  cell_latMin :: rat
  cell_latMax :: rat

record geo_state =
  gs_cell :: geo_cell
  gs_idx :: u8
  gs_bit :: u8
  gs_evenBit :: bool
  gs_geohash :: string

definition geo_init :: geo_state where
  "geo_init = \<lparr>gs_cell = \<lparr>cell_lonMin = -180, cell_lonMax = 180, cell_latMin = -90, cell_latMax = 90\<rparr>,
     gs_idx = 0, gs_bit = 0, gs_evenBit = True, gs_geohash = []\<rparr>"

text \<open>The bisection at the head of the loop body.\<close>

definition geo_bisect :: "rat \<Rightarrow> rat \<Rightarrow> geo_state \<Rightarrow> geo_state" where
  "geo_bisect lon lat s =
     (let c = gs_cell s
      in if gs_evenBit s then
           (let lonMid = double (double (cell_lonMin c + cell_lonMax c) / 2)
            in if lon \<ge> lonMid
               then s\<lparr>gs_idx := gs_idx s * 2 + 1, gs_cell := c\<lparr>cell_lonMin := lonMid\<rparr>\<rparr>
               else s\<lparr>gs_idx := gs_idx s * 2, gs_cell := c\<lparr>cell_lonMax := lonMid\<rparr>\<rparr>)
         else
           (let latMid = double (double (cell_latMin c + cell_latMax c) / 2)
            in if lat \<ge> latMid
               then s\<lparr>gs_idx := gs_idx s * 2 + 1, gs_cell := c\<lparr>cell_latMin := latMid\<rparr>\<rparr>
               else s\<lparr>gs_idx := gs_idx s * 2, gs_cell := c\<lparr>cell_latMax := latMid\<rparr>\<rparr>))"

text \<open>\<open>base32.at(idx)\<close> throws when the index is out of range: None.\<close>

definition geo_step :: "rat \<Rightarrow> rat \<Rightarrow> geo_state \<Rightarrow> geo_state option" where
  "geo_step lon lat s =
     (let s = geo_bisect lon lat s;
          s = s\<lparr>gs_evenBit := \<not> gs_evenBit s, gs_bit := gs_bit s + 1\<rparr>
      in if gs_bit s = 5 then
           (if unat (gs_idx s) < length base32
            then Some (s\<lparr>gs_geohash := gs_geohash s @ [base32 ! unat (gs_idx s)], gs_bit := 0, gs_idx := 0\<rparr>)
            else None)
         else Some s)"

lemma geo_step_progress:
  assumes "geo_step lon lat s = Some s'" and "length (gs_geohash s) < p"
  shows "(p - length (gs_geohash s')) * 256 + unat (4 - gs_bit s')
       < (p - length (gs_geohash s)) * 256 + unat (4 - gs_bit s)"
proof -
  have kept: "gs_geohash (geo_bisect lon lat s) = gs_geohash s" "gs_bit (geo_bisect lon lat s) = gs_bit s"
    by (simp_all add: geo_bisect_def Let_def)
  show ?thesis
  proof (cases "gs_bit s + 1 = 5")
    case True
    then have "gs_geohash s' = gs_geohash s @ [base32 ! unat (gs_idx (geo_bisect lon lat s))]" "gs_bit s' = 0"
      using assms(1) by (auto simp: geo_step_def Let_def kept split: if_splits)
    then show ?thesis using assms(2) by simp
  next
    case False
    then have "gs_geohash s' = gs_geohash s" "gs_bit s' = gs_bit s + 1"
      using assms(1) by (auto simp: geo_step_def Let_def kept split: if_splits)
    moreover have "4 - gs_bit s \<noteq> 0" using False by auto
    then have "unat (4 - gs_bit s - 1) < unat (4 - gs_bit s)"
      by (rule measure_unat)
    then have "unat (4 - (gs_bit s + 1)) < unat (4 - gs_bit s)" by (simp only: diff_diff_add)
    ultimately show ?thesis by (simp del: diff_add_eq_diff_diff_swap)
  qed
qed

function geo_loop :: "rat \<Rightarrow> rat \<Rightarrow> nat \<Rightarrow> geo_state \<Rightarrow> geo_state option" where
  "geo_loop lon lat precision s =
     (if length (gs_geohash s) < precision
      then (case geo_step lon lat s of None \<Rightarrow> None | Some s' \<Rightarrow> geo_loop lon lat precision s')
      else Some s)"
  by pat_completeness auto
termination
  by (relation "measure (\<lambda>(lon, lat, p, s). (p - length (gs_geohash s)) * 256 + unat (4 - gs_bit s))")
    (use geo_step_progress in auto)

declare geo_loop.simps [simp del]

definition hashFromCoordinates :: "rat \<Rightarrow> rat \<Rightarrow> int \<Rightarrow> string option" where
  "hashFromCoordinates lon lat precision =
     (let precision = (if precision < 0 \<or> precision > 12 then 12 else precision)
      in if lon < -180 \<or> lon > 180 then Some []
         else if lat < -90 \<or> lat > 90 then Some []
         else map_option gs_geohash (geo_loop lon lat (nat precision) geo_init))"

section \<open>What a hash stands for\<close>

text \<open>The bits of a hash, most significant first, and the cell they select by exact bisection.\<close>

definition char_bits :: "char \<Rightarrow> bool list" where
  "char_bits c = (let n = length (takeWhile (\<lambda>x. x \<noteq> c) base32) in map (\<lambda>k. odd (n div 2 ^ k)) [4, 3, 2, 1, 0])"

fun cell_of_bits :: "bool \<Rightarrow> bool list \<Rightarrow> geo_cell \<Rightarrow> geo_cell" where
  "cell_of_bits lonTurn [] c = c"
| "cell_of_bits lonTurn (b # bs) c = cell_of_bits (\<not> lonTurn) bs
     (if lonTurn then (let mid = (cell_lonMin c + cell_lonMax c) / 2
                       in if b then c\<lparr>cell_lonMin := mid\<rparr> else c\<lparr>cell_lonMax := mid\<rparr>)
      else (let mid = (cell_latMin c + cell_latMax c) / 2
            in if b then c\<lparr>cell_latMin := mid\<rparr> else c\<lparr>cell_latMax := mid\<rparr>))"

definition cell_of_hash :: "string \<Rightarrow> geo_cell" where
  "cell_of_hash h = cell_of_bits True (concat (map char_bits h)) (gs_cell geo_init)"

definition in_cell :: "rat \<Rightarrow> rat \<Rightarrow> geo_cell \<Rightarrow> bool" where
  "in_cell lon lat c \<longleftrightarrow> cell_lonMin c \<le> lon \<and> lon \<le> cell_lonMax c \<and> cell_latMin c \<le> lat \<and> lat \<le> cell_latMax c"

lemma cell_of_bits_append:
  "cell_of_bits t (xs @ ys) c = cell_of_bits (t = even (length xs)) ys (cell_of_bits t xs c)"
  by (induction t xs c rule: cell_of_bits.induct) simp_all

text \<open>After \<open>n\<close> bisections an interval of width \<open>w\<close> is one of \<open>2 ^ n\<close> equal parts.\<close>

definition on_grid :: "rat \<Rightarrow> rat \<Rightarrow> nat \<Rightarrow> rat \<Rightarrow> rat \<Rightarrow> bool" where
  "on_grid z w n lo hi \<longleftrightarrow>
     (\<exists>i. lo = z + of_int i * (w / 2 ^ n)) \<and> hi = lo + w / 2 ^ n \<and> z \<le> lo \<and> hi \<le> z + w"

lemma on_grid_halves:
  assumes "on_grid z w n lo hi" and "0 < w"
  shows "on_grid z w (Suc n) lo ((lo + hi) / 2)" and "on_grid z w (Suc n) ((lo + hi) / 2) hi"
proof -
  obtain i where i: "lo = z + of_int i * (w / 2 ^ n)" "hi = lo + w / 2 ^ n" "z \<le> lo" "hi \<le> z + w"
    using assms(1) by (auto simp: on_grid_def)
  have "0 < w / 2 ^ n" using assms(2) by simp
  then have le: "lo \<le> hi" by (simp add: i(2))
  have "lo = z + of_int (2 * i) * (w / 2 ^ Suc n)" by (simp add: i(1))
  moreover have "(lo + hi) / 2 = lo + w / 2 ^ Suc n" by (simp add: i(2) field_simps)
  moreover have "(lo + hi) / 2 \<le> z + w" using le i(4) by simp
  ultimately show "on_grid z w (Suc n) lo ((lo + hi) / 2)" using i(3) unfolding on_grid_def by blast
  have "(lo + hi) / 2 = z + of_int (2 * i + 1) * (w / 2 ^ Suc n)" by (simp add: i(1,2) field_simps)
  moreover have "hi = (lo + hi) / 2 + w / 2 ^ Suc n" by (simp add: i(2) field_simps)
  moreover have "z \<le> (lo + hi) / 2" using le i(3) by simp
  ultimately show "on_grid z w (Suc n) ((lo + hi) / 2) hi" using i(4) unfolding on_grid_def by blast
qed

definition cell_grid :: "nat \<Rightarrow> geo_cell \<Rightarrow> bool" where
  "cell_grid n c \<longleftrightarrow> on_grid (-180) 360 ((n + 1) div 2) (cell_lonMin c) (cell_lonMax c)
     \<and> on_grid (-90) 180 (n div 2) (cell_latMin c) (cell_latMax c)"

lemma cell_grid_bits: "cell_grid (length bs) (cell_of_bits True bs (gs_cell geo_init))"
proof (induction bs rule: rev_induct)
  case Nil
  then show ?case by (auto simp: cell_grid_def on_grid_def geo_init_def intro: exI [of _ 0])
next
  case (snoc b bs)
  define c where "c = cell_of_bits True bs (gs_cell geo_init)"
  have lon: "on_grid (-180) 360 ((length bs + 1) div 2) (cell_lonMin c) (cell_lonMax c)" and
    lat: "on_grid (-90) 180 (length bs div 2) (cell_latMin c) (cell_latMax c)"
    using snoc by (auto simp: cell_grid_def c_def)
  have snoc_cell: "cell_of_bits True (bs @ [b]) (gs_cell geo_init) = cell_of_bits (even (length bs)) [b] c"
    by (simp add: cell_of_bits_append c_def)
  show ?case
  proof (cases "even (length bs)")
    case True
    then have d: "(length (bs @ [b]) + 1) div 2 = Suc ((length bs + 1) div 2)"
        "length (bs @ [b]) div 2 = length bs div 2" by auto
    show ?thesis unfolding snoc_cell cell_grid_def d
      using True on_grid_halves [OF lon] lat by (simp add: Let_def)
  next
    case False
    then have d: "(length (bs @ [b]) + 1) div 2 = (length bs + 1) div 2"
        "length (bs @ [b]) div 2 = Suc (length bs div 2)" by auto
    show ?thesis unfolding snoc_cell cell_grid_def d
      using False on_grid_halves [OF lat] lon by (simp add: Let_def)
  qed
qed

text \<open>Midpoints of such intervals are doubles: the code's bisection is exact.\<close>

lemma double_dyadic:
  assumes "x = of_int m * pow2 e" and "\<bar>x\<bar> < 1024" and "-43 \<le> e"
  shows "double x = x"
proof -
  have "(1024 :: rat) = pow2 10" by (simp add: pow2_def)
  also have "\<dots> \<le> pow2 (e + int 53)" using assms(3) by (intro pow2_mono) simp
  finally show ?thesis using assms(1,2) unfolding double_def by (intro rnd_exact) auto
qed

lemma midpoint_exact:
  assumes "on_grid z w n lo hi" and "z = - of_int (45 * 2 ^ k)" and "w = of_int (2 * 45 * 2 ^ k)"
    and "k \<le> 2" and "n \<le> 40"
  shows "double (double (lo + hi) / 2) = (lo + hi) / 2"
proof -
  obtain i where i: "lo = z + of_int i * (w / 2 ^ n)" "hi = lo + w / 2 ^ n" "z \<le> lo" "hi \<le> z + w"
    using assms(1) by (auto simp: on_grid_def)
  define m where "m = 45 * 2 ^ k * (2 * (2 * i + 1) - 2 * 2 ^ n)"
  have p: "pow2 (- int n) = 1 / 2 ^ n" by (simp add: pow2_def)
  have sum: "lo + hi = of_int m * pow2 (- int n)"
    by (simp add: i(1,2) assms(2,3) m_def p field_simps)
  have half: "(lo + hi) / 2 = of_int m * pow2 (- int n - 1)"
    by (simp add: sum pow2_diff) (simp add: pow2_def)
  have "k = 0 \<or> k = 1 \<or> k = 2" using assms(4) by auto
  then have w: "0 < w" "w \<le> 360" "z = - (w / 2)" by (auto simp: assms(2,3))
  have "0 < w / 2 ^ n" using w(1) by simp
  then have "lo \<le> hi" unfolding i(2) by simp
  then have "-180 \<le> lo" "lo \<le> 180" "-180 \<le> hi" "hi \<le> 180" using i(3,4) w by auto
  then have "\<bar>lo + hi\<bar> < 1024" "\<bar>(lo + hi) / 2\<bar> < 1024" by (auto simp: abs_less_iff)
  then show ?thesis
    using double_dyadic [OF sum] double_dyadic [OF half] assms(5) by simp
qed

section \<open>The loop\<close>

definition number_of_bits :: "bool list \<Rightarrow> nat" where
  "number_of_bits bs = foldl (\<lambda>n b. 2 * n + of_bool b) 0 bs"

lemma number_of_bits_snoc [simp]: "number_of_bits (bs @ [b]) = 2 * number_of_bits bs + of_bool b"
  by (simp add: number_of_bits_def)

lemma number_of_bits_less: "number_of_bits bs < 2 ^ length bs"
  by (induction bs rule: rev_induct) (auto simp: number_of_bits_def of_bool_def)

lemma char_bits_table:
  "list_all (\<lambda>n. char_bits (base32 ! n) = map (\<lambda>k. odd (n div 2 ^ k)) [4, 3, 2, 1, 0]) [0..<32]"
  by code_simp

lemma char_bits_of_number:
  assumes "length bs = 5"
  shows "char_bits (base32 ! number_of_bits bs) = bs"
proof -
  obtain a b c d e where bs: "bs = [a, b, c, d, e]"
    using assms by (auto simp: length_Suc_conv numeral_eq_Suc)
  have "char_bits (base32 ! number_of_bits bs) = map (\<lambda>k. odd (number_of_bits bs div 2 ^ k)) [4, 3, 2, 1, 0]"
    using char_bits_table number_of_bits_less [of bs] assms by (simp add: list_all_iff)
  also have "\<dots> = bs"
    by (cases a; cases b; cases c; cases d; cases e) (simp_all add: bs number_of_bits_def)
  finally show ?thesis .
qed

text \<open>The state after the bits \<open>bs\<close>.\<close>

definition geo_inv :: "rat \<Rightarrow> rat \<Rightarrow> geo_state \<Rightarrow> bool list \<Rightarrow> bool" where
  "geo_inv lon lat s bs \<longleftrightarrow>
     (let done = 5 * length (gs_geohash s)
      in length bs = done + unat (gs_bit s) \<and> unat (gs_bit s) < 5
         \<and> concat (map char_bits (gs_geohash s)) = take done bs
         \<and> unat (gs_idx s) = number_of_bits (drop done bs)
         \<and> gs_evenBit s = even (length bs)
         \<and> gs_cell s = cell_of_bits True bs (gs_cell geo_init)
         \<and> in_cell lon lat (gs_cell s))"

lemma geo_inv_init:
  "-180 \<le> lon \<Longrightarrow> lon \<le> 180 \<Longrightarrow> -90 \<le> lat \<Longrightarrow> lat \<le> 90 \<Longrightarrow> geo_inv lon lat geo_init []"
  by (simp add: geo_inv_def in_cell_def geo_init_def number_of_bits_def)

text \<open>One bisection appends one bit to the index, and keeps the point in the cell.\<close>

lemma geo_bisect_bit:
  assumes "cell_grid (length bs) (gs_cell s)" and "length bs \<le> 79" and "gs_evenBit s = even (length bs)"
    and "gs_cell s = cell_of_bits True bs (gs_cell geo_init)" and "in_cell lon lat (gs_cell s)"
  shows "\<exists>b. geo_bisect lon lat s = s\<lparr>gs_idx := gs_idx s * 2 + of_bool b,
      gs_cell := cell_of_bits True (bs @ [b]) (gs_cell geo_init)\<rparr>
    \<and> in_cell lon lat (cell_of_bits True (bs @ [b]) (gs_cell geo_init))"
proof (cases "even (length bs)")
  case True
  have "double (double (cell_lonMin (gs_cell s) + cell_lonMax (gs_cell s)) / 2)
      = (cell_lonMin (gs_cell s) + cell_lonMax (gs_cell s)) / 2"
    using assms(1,2) by (intro midpoint_exact [where k = 2]) (auto simp: cell_grid_def)
  then show ?thesis using True assms(3,5)
    by (intro exI [of _ "lon \<ge> (cell_lonMin (gs_cell s) + cell_lonMax (gs_cell s)) / 2"])
      (auto simp: geo_bisect_def cell_of_bits_append assms(4) [symmetric] in_cell_def Let_def)
next
  case False
  have "double (double (cell_latMin (gs_cell s) + cell_latMax (gs_cell s)) / 2)
      = (cell_latMin (gs_cell s) + cell_latMax (gs_cell s)) / 2"
    using assms(1,2) by (intro midpoint_exact [where k = 1]) (auto simp: cell_grid_def)
  then show ?thesis using False assms(3,5)
    by (intro exI [of _ "lat \<ge> (cell_latMin (gs_cell s) + cell_latMax (gs_cell s)) / 2"])
      (auto simp: geo_bisect_def cell_of_bits_append assms(4) [symmetric] in_cell_def Let_def)
qed

lemma geo_step_inv:
  assumes inv: "geo_inv lon lat s bs" and "length bs < 60"
  shows "\<exists>s' b. geo_step lon lat s = Some s' \<and> geo_inv lon lat s' (bs @ [b])"
proof -
  define dn where "dn = 5 * length (gs_geohash s)"
  have len: "length bs = dn + unat (gs_bit s)" and b5: "unat (gs_bit s) < 5"
    and hash: "concat (map char_bits (gs_geohash s)) = take dn bs"
    and idx: "unat (gs_idx s) = number_of_bits (drop dn bs)" and turn: "gs_evenBit s = even (length bs)"
    and cell: "gs_cell s = cell_of_bits True bs (gs_cell geo_init)" and point: "in_cell lon lat (gs_cell s)"
    using inv by (auto simp: geo_inv_def dn_def Let_def)
  obtain b where b: "geo_bisect lon lat s = s\<lparr>gs_idx := gs_idx s * 2 + of_bool b,
      gs_cell := cell_of_bits True (bs @ [b]) (gs_cell geo_init)\<rparr>"
    and point': "in_cell lon lat (cell_of_bits True (bs @ [b]) (gs_cell geo_init))"
    using geo_bisect_bit [of bs s lon lat] cell_grid_bits [of bs] assms(2) turn cell point by auto
  have drop: "drop dn (bs @ [b]) = drop dn bs @ [b]" and take: "take dn (bs @ [b]) = take dn bs"
    using len by simp_all
  have "number_of_bits (drop dn bs) < 2 ^ unat (gs_bit s)"
    using number_of_bits_less [of "drop dn bs"] len by simp
  also have "\<dots> \<le> 2 ^ 4" using b5 by (intro power_increasing) auto
  finally have "unat (gs_idx s) < 16" by (simp add: idx)
  then have idx': "unat (gs_idx s * 2 + of_bool b) = number_of_bits (drop dn (bs @ [b]))"
    unfolding drop number_of_bits_snoc idx [symmetric] by (cases b) (simp_all add: unat_word_ariths)
  have bit1: "unat (gs_bit s + 1) = unat (gs_bit s) + 1" using b5 by (simp add: unat_word_ariths)
  show ?thesis
  proof (cases "gs_bit s + 1 = 5")
    case True
    then have "unat (gs_bit s) = 4" using bit1 by simp
    then have l5: "length (drop dn (bs @ [b])) = 5" using len by simp
    then have small: "number_of_bits (drop dn (bs @ [b])) < length base32"
      using number_of_bits_less [of "drop dn (bs @ [b])"] unfolding l5 by (simp add: base32_def)
    have "concat (map char_bits (gs_geohash s @ [base32 ! number_of_bits (drop dn (bs @ [b]))])) = bs @ [b]"
      using char_bits_of_number [OF l5] drop by (simp add: hash)
    moreover have "length (bs @ [b]) = 5 * Suc (length (gs_geohash s))"
      using len \<open>unat (gs_bit s) = 4\<close> by (simp add: dn_def)
    ultimately show ?thesis using True small turn point'
      by (intro exI conjI, simp add: geo_step_def b idx' Let_def)
        (simp add: geo_inv_def Let_def number_of_bits_def)
  next
    case False
    have "unat (gs_bit s) \<noteq> 4"
    proof
      assume "unat (gs_bit s) = 4"
      then have "unat (gs_bit s + 1) = unat (5 :: u8)" using bit1 by simp
      then show False using False by (simp only: word_unat_eq_iff)
    qed
    then show ?thesis using False b5 bit1 turn point' hash take idx' len
      by (intro exI conjI, simp add: geo_step_def b Let_def)
        (simp add: geo_inv_def dn_def [symmetric] Let_def)
  qed
qed

lemma geo_loop_inv:
  assumes "geo_inv lon lat s bs" and "length bs \<le> 5 * p" and "p \<le> 12"
  shows "\<exists>s' bs'. geo_loop lon lat p s = Some s' \<and> geo_inv lon lat s' bs' \<and> length (gs_geohash s') = p
    \<and> length bs' = 5 * p"
  using assms
proof (induction lon lat p s arbitrary: bs rule: geo_loop.induct)
  case (1 lon lat p s)
  show ?case
  proof (cases "length (gs_geohash s) < p")
    case True
    then have "length bs < 5 * p" using "1.prems"(1) by (auto simp: geo_inv_def Let_def)
    moreover from this obtain s1 b where s1: "geo_step lon lat s = Some s1" "geo_inv lon lat s1 (bs @ [b])"
      using geo_step_inv "1.prems"(1,3) by fastforce
    ultimately show ?thesis
      using "1.IH" [OF True s1] "1.prems"(3) True s1(1) by (simp add: geo_loop.simps [of _ _ _ s])
  next
    case False
    then show ?thesis using "1.prems"
      by (intro exI [of _ s] exI [of _ bs]) (auto simp: geo_loop.simps geo_inv_def Let_def)
  qed
qed

section \<open>The hash\<close>

text \<open>
  C35: a geohash of a position on Earth has the precision asked for (twelve characters when it is out
  of range), and the cell it stands for, by bisecting exactly along the bits of its characters,
  contains the position and has the width and height of that precision: the rounding of the
  midpoints to \<open>double\<close> never moves a boundary.
\<close>

theorem geohash_cell:
  assumes "-180 \<le> lon" and "lon \<le> 180" and "-90 \<le> lat" and "lat \<le> 90"
    and "p = (if precision < 0 \<or> 12 < precision then 12 else nat precision)"
  shows "\<exists>h. hashFromCoordinates lon lat precision = Some h \<and> length h = p
    \<and> in_cell lon lat (cell_of_hash h)
    \<and> cell_lonMax (cell_of_hash h) - cell_lonMin (cell_of_hash h) = 360 / 2 ^ ((5 * p + 1) div 2)
    \<and> cell_latMax (cell_of_hash h) - cell_latMin (cell_of_hash h) = 180 / 2 ^ (5 * p div 2)"
proof -
  have p: "p \<le> 12" using assms(5) by auto
  obtain s bs where s: "geo_loop lon lat p geo_init = Some s" "geo_inv lon lat s bs" "length (gs_geohash s) = p"
      and bs: "length bs = 5 * p"
    using geo_loop_inv [OF geo_inv_init [OF assms(1-4)], of p] p by auto
  have hash: "hashFromCoordinates lon lat precision = Some (gs_geohash s)"
    using s(1) assms by (auto simp: hashFromCoordinates_def Let_def)
  have cell: "cell_of_hash (gs_geohash s) = cell_of_bits True bs (gs_cell geo_init)"
    using s(2,3) bs by (simp add: geo_inv_def cell_of_hash_def Let_def)
  moreover have "in_cell lon lat (cell_of_hash (gs_geohash s))"
    using s(2) by (auto simp: geo_inv_def cell Let_def)
  moreover have "cell_grid (5 * p) (cell_of_hash (gs_geohash s))"
    using cell_grid_bits [of bs] by (simp add: cell bs)
  ultimately show ?thesis using hash s(3) by (auto simp: cell_grid_def on_grid_def)
qed

theorem geohash_cell_witness:
  "\<exists>h. hashFromCoordinates (17 / 2) 50 5 = Some h \<and> length h = 5 \<and> in_cell (17 / 2) 50 (cell_of_hash h)
    \<and> cell_lonMax (cell_of_hash h) - cell_lonMin (cell_of_hash h) = 360 / 2 ^ ((5 * 5 + 1) div 2)
    \<and> cell_latMax (cell_of_hash h) - cell_latMin (cell_of_hash h) = 180 / 2 ^ (5 * 5 div 2)"
  by (rule geohash_cell) simp_all

end
