(* ===== verification/Event_Bus.thy ===== *)
theory Event_Bus
  imports Prelude "HOL-Library.Sublist"
begin

text \<open>
  The event bus and the thread pool that runs its deliveries (\<open>daemon/src/core/event_bus.h\<close>,
  \<open>thread_pool.cpp\<close>). A handler is named by a number and an event by its type and value; what a
  handler does beyond publishing and subscribing does not concern the bus. Every critical section
  under a mutex is one step, and the steps of all threads interleave: \<open>publish\<close> takes its snapshot in
  one step and enqueues the task in a later one.
\<close>

type_synonym handler_id = nat

record 'v event =
  ev_type :: nat
  ev_value :: 'v

text \<open>
  What \<open>publish\<close> captures in the task it enqueues: the snapshot of the handlers and the copy of the
  event. \<open>wk_task\<close> is the number of the task in the order of their acceptance.
\<close>

record 'v delivery =
  dl_handlers :: "handler_id list"
  dl_event :: "'v event"

datatype worker = Waiting | Working (wk_task: nat) (wk_handlers: "handler_id list") | Returned

text \<open>
  \<open>eb_publishing\<close> are the calls of \<open>publish\<close> between their two steps, by their numbers in
  \<open>eb_published\<close>, the snapshots ever taken. \<open>eb_accepted\<close> (all tasks ever enqueued), \<open>eb_started\<close> (how many a worker has taken), \<open>eb_calls\<close> (the
  calls of handlers, with the number of their task) and \<open>eb_thrown\<close> (the tasks an exception has left)
  record the history.
\<close>

record 'v bus =
  eb_subscribers :: "nat \<Rightarrow> handler_id list"
  eb_published :: "'v delivery list"
  eb_publishing :: "nat list"
  eb_running :: bool
  eb_tasks :: "'v delivery list"
  eb_workers :: "worker list"
  eb_accepted :: "'v delivery list"
  eb_started :: nat
  eb_calls :: "(nat \<times> handler_id) list"
  eb_thrown :: "nat list"

definition bus_init :: "nat \<Rightarrow> 'v bus" where
  "bus_init numThreads =
     \<lparr>eb_subscribers = (\<lambda>_. []), eb_published = [], eb_publishing = [], eb_running = True, eb_tasks = [], eb_workers = replicate numThreads Waiting,
      eb_accepted = [], eb_started = 0, eb_calls = [], eb_thrown = []\<rparr>"

definition enqueue :: "'v delivery \<Rightarrow> 'v bus \<Rightarrow> 'v bus" where
  "enqueue task s =
     (if \<not> eb_running s then s
      else s\<lparr>eb_tasks := eb_tasks s @ [task], eb_accepted := eb_accepted s @ [task]\<rparr>)"

text \<open>
  The snapshot of \<open>publish\<close>, which returns when there is no entry for the type of the event, and the
  call of \<open>enqueue\<close> that ends it.
\<close>

definition bus_publish :: "'v event \<Rightarrow> 'v bus \<Rightarrow> 'v bus" where
  "bus_publish event s =
     (let handlers = eb_subscribers s (ev_type event)
      in if handlers = [] then s
         else s\<lparr>eb_publishing := eb_publishing s @ [length (eb_published s)],
                eb_published := eb_published s @ [\<lparr>dl_handlers = handlers, dl_event = event\<rparr>]\<rparr>)"

definition publish_enqueue :: "nat \<Rightarrow> 'v bus \<Rightarrow> 'v bus" where
  "publish_enqueue k s = enqueue (eb_published s ! k) (s\<lparr>eb_publishing := remove1 k (eb_publishing s)\<rparr>)"

definition subscribe :: "nat \<Rightarrow> handler_id \<Rightarrow> 'v bus \<Rightarrow> 'v bus" where
  "subscribe t handler s = s\<lparr>eb_subscribers := (eb_subscribers s)(t := eb_subscribers s t @ [handler])\<rparr>"

text \<open>\<open>ThreadPool::stop\<close> up to the join.\<close>

definition pool_stop :: "'v bus \<Rightarrow> 'v bus" where
  "pool_stop s = s\<lparr>eb_running := False, eb_tasks := []\<rparr>"

text \<open>
  The iterations of \<open>worker_loop\<close>: a waiting worker takes the first task, returns when the pool has
  stopped, or goes on waiting; a working one calls the next handler, ends its task, or leaves it by
  an exception, which is logged.
\<close>

definition worker_wake :: "nat \<Rightarrow> 'v bus \<Rightarrow> 'v bus" where
  "worker_wake i s =
     (if eb_tasks s = [] \<and> eb_running s then s
      else if \<not> eb_running s \<and> eb_tasks s = [] then s\<lparr>eb_workers := (eb_workers s)[i := Returned]\<rparr>
      else s\<lparr>eb_tasks := tl (eb_tasks s), eb_started := eb_started s + 1,
             eb_workers := (eb_workers s)[i := Working (eb_started s) (dl_handlers (hd (eb_tasks s)))]\<rparr>)"

definition worker_run :: "bool \<Rightarrow> nat \<Rightarrow> 'v bus \<Rightarrow> 'v bus" where
  "worker_run throws i s =
     (case eb_workers s ! i of
        Working n [] \<Rightarrow> s\<lparr>eb_workers := (eb_workers s)[i := Waiting]\<rparr>
      | Working n (h # hs) \<Rightarrow>
          (let s = s\<lparr>eb_calls := eb_calls s @ [(n, h)]\<rparr>
           in if throws then s\<lparr>eb_workers := (eb_workers s)[i := Waiting], eb_thrown := eb_thrown s @ [n]\<rparr>
              else s\<lparr>eb_workers := (eb_workers s)[i := Working n hs]\<rparr>)
      | _ \<Rightarrow> s)"

inductive bus_step :: "'v bus \<Rightarrow> 'v bus \<Rightarrow> bool" where
  Publish: "bus_step s (bus_publish event s)"
| Enqueue: "k \<in> set (eb_publishing s) \<Longrightarrow> bus_step s (publish_enqueue k s)"
| Subscribe: "bus_step s (subscribe t h s)"
| Stop: "bus_step s (pool_stop s)"
| Wake: "i < length (eb_workers s) \<Longrightarrow> eb_workers s ! i = Waiting \<Longrightarrow> bus_step s (worker_wake i s)"
| Run: "i < length (eb_workers s) \<Longrightarrow> eb_workers s ! i = Working n hs \<Longrightarrow> bus_step s (worker_run throws i s)"

inductive bus_reachable :: "'v bus \<Rightarrow> bool" where
  Start: "bus_reachable (bus_init numThreads)"
| Step: "bus_reachable s \<Longrightarrow> bus_step s s' \<Longrightarrow> bus_reachable s'"

section \<open>What the workers have done\<close>

text \<open>The handlers called for task \<open>n\<close>, in order.\<close>

definition calls_of :: "nat \<Rightarrow> 'v bus \<Rightarrow> handler_id list" where
  "calls_of n s = map snd (filter (\<lambda>c. fst c = n) (eb_calls s))"

lemma calls_of_append [simp]:
  "calls_of n (s\<lparr>eb_calls := eb_calls s @ [(m, h)]\<rparr>) = calls_of n s @ (if m = n then [h] else [])"
  by (simp add: calls_of_def)

lemma calls_of_cong: "eb_calls s' = eb_calls s \<Longrightarrow> calls_of n s' = calls_of n s"
  by (simp add: calls_of_def)

text \<open>What task \<open>n\<close> has still to do: a worker that has taken it and not ended it holds the rest.\<close>

definition worked_on :: "nat \<Rightarrow> 'v bus \<Rightarrow> bool" where
  "worked_on n s \<longleftrightarrow> (\<exists>hs. Working n hs \<in> set (eb_workers s))"

definition handlers_of :: "nat \<Rightarrow> 'v bus \<Rightarrow> handler_id list" where
  "handlers_of n s = dl_handlers (eb_accepted s ! n)"

definition queue_inv :: "'v bus \<Rightarrow> bool" where
  "queue_inv s \<longleftrightarrow> eb_started s \<le> length (eb_accepted s)
     \<and> eb_tasks s = (if eb_running s then drop (eb_started s) (eb_accepted s) else [])"

definition worker_ok :: "'v bus \<Rightarrow> worker \<Rightarrow> bool" where
  "worker_ok s w \<longleftrightarrow> (case w of Working n hs \<Rightarrow>
       n < eb_started s \<and> n \<notin> set (eb_thrown s) \<and> calls_of n s @ hs = handlers_of n s
     | _ \<Rightarrow> True)"

definition one_worker :: "worker list \<Rightarrow> bool" where
  "one_worker ws \<longleftrightarrow> (\<forall>i j n hs hs'. i < length ws \<longrightarrow> j < length ws \<longrightarrow>
     ws ! i = Working n hs \<longrightarrow> ws ! j = Working n hs' \<longrightarrow> i = j)"

definition worker_inv :: "'v bus \<Rightarrow> bool" where
  "worker_inv s \<longleftrightarrow> list_all (worker_ok s) (eb_workers s) \<and> one_worker (eb_workers s)"

definition task_inv :: "'v bus \<Rightarrow> bool" where
  "task_inv s \<longleftrightarrow>
     (\<forall>n. (eb_started s \<le> n \<longrightarrow> calls_of n s = [] \<and> n \<notin> set (eb_thrown s))
        \<and> prefix (calls_of n s) (if n < eb_started s then handlers_of n s else [])
        \<and> (n < eb_started s \<longrightarrow> \<not> worked_on n s \<longrightarrow> n \<notin> set (eb_thrown s) \<longrightarrow> calls_of n s = handlers_of n s))"

definition bus_inv :: "'v bus \<Rightarrow> bool" where
  "bus_inv s \<longleftrightarrow> queue_inv s \<and> worker_inv s \<and> task_inv s"

lemma bus_inv_init: "bus_inv (bus_init k)"
  by (auto simp: bus_inv_def queue_inv_def worker_inv_def task_inv_def bus_init_def calls_of_def
      list_all_iff worker_ok_def one_worker_def)

lemma handlers_of_accept:
  "n < length (eb_accepted s) \<Longrightarrow> eb_accepted s' = eb_accepted s @ [d] \<Longrightarrow> handlers_of n s' = handlers_of n s"
  by (simp add: handlers_of_def nth_append)

lemma bus_inv_enqueue: "bus_inv s \<Longrightarrow> bus_inv (enqueue d s)"
proof (cases "eb_running s")
  case True
  assume inv: "bus_inv s"
  let ?s = "enqueue d s"
  have same: "eb_started ?s = eb_started s" "eb_workers ?s = eb_workers s" "eb_thrown ?s = eb_thrown s"
      "eb_accepted ?s = eb_accepted s @ [d]" "\<And>n. calls_of n ?s = calls_of n s" "eb_running ?s"
      "eb_tasks ?s = eb_tasks s @ [d]"
    using True by (simp_all add: enqueue_def calls_of_def)
  have h: "handlers_of n ?s = handlers_of n s" if "n < eb_started s" for n
    using inv that same(4) by (intro handlers_of_accept) (auto simp: bus_inv_def queue_inv_def)
  have "worked_on n ?s = worked_on n s" for n by (simp add: worked_on_def same)
  then have "worker_inv ?s = worker_inv s" "task_inv ?s = task_inv s" "queue_inv s \<Longrightarrow> queue_inv ?s"
    using True
    by (simp_all add: worker_inv_def worker_ok_def [abs_def] task_inv_def queue_inv_def same h
        cong: conj_cong if_cong worker.case_cong)
  then show ?thesis using inv by (simp add: bus_inv_def)
qed (simp add: enqueue_def)

lemma bus_inv_cong:
  assumes "eb_started s' = eb_started s" "eb_accepted s' = eb_accepted s" "eb_running s' = eb_running s"
    "eb_tasks s' = eb_tasks s" "eb_workers s' = eb_workers s" "eb_thrown s' = eb_thrown s" "eb_calls s' = eb_calls s"
  shows "bus_inv s' = bus_inv s"
  by (simp add: bus_inv_def queue_inv_def worker_inv_def worker_ok_def [abs_def]
      task_inv_def worked_on_def calls_of_def handlers_of_def assms)

lemma bus_inv_publish: "bus_inv (bus_publish e s) = bus_inv s"
  by (rule bus_inv_cong) (simp_all add: bus_publish_def Let_def)

lemma bus_inv_publish_enqueue: "bus_inv s \<Longrightarrow> bus_inv (publish_enqueue k s)"
  unfolding publish_enqueue_def by (rule bus_inv_enqueue, subst bus_inv_cong [of _ s]) simp_all

lemma bus_inv_subscribe: "bus_inv (subscribe t h s) = bus_inv s"
  by (rule bus_inv_cong) (simp_all add: subscribe_def)

lemma bus_inv_stop:
  assumes "bus_inv s" shows "bus_inv (pool_stop s)"
proof -
  have "worker_inv (pool_stop s) = worker_inv s" "task_inv (pool_stop s) = task_inv s"
    by (simp_all add: pool_stop_def worker_inv_def worker_ok_def [abs_def] task_inv_def
        worked_on_def calls_of_def handlers_of_def)
  moreover have "queue_inv s \<Longrightarrow> queue_inv (pool_stop s)" by (simp add: pool_stop_def queue_inv_def)
  ultimately show ?thesis using assms by (simp add: bus_inv_def)
qed

lemma worked_on_update:
  assumes "i < length (eb_workers s)" and "eb_workers s' = (eb_workers s)[i := w]"
    and "\<And>hs. eb_workers s ! i \<noteq> Working n hs"
  shows "worked_on n s' \<longleftrightarrow> (\<exists>hs. w = Working n hs) \<or> worked_on n s"
proof -
  have "Working n hs \<in> set (eb_workers s')" if "Working n hs \<in> set (eb_workers s)" for hs
    using that assms by (metis in_set_conv_nth length_list_update nth_list_update_neq)
  moreover have "w \<in> set (eb_workers s')" using assms(1,2) by (simp add: set_update_memI)
  moreover have "set (eb_workers s') \<subseteq> insert w (set (eb_workers s))"
    unfolding assms(2) by (rule set_update_subset_insert)
  ultimately show ?thesis unfolding worked_on_def by blast
qed

lemma one_worker_update:
  assumes ws: "one_worker ws" and i: "i < length ws"
    and new: "\<And>n hs. w = Working n hs \<Longrightarrow> (\<forall>hs. Working n hs \<notin> set ws) \<or> (\<exists>hs. ws ! i = Working n hs)"
  shows "one_worker (ws[i := w])"
  unfolding one_worker_def length_list_update
proof (intro allI impI)
  fix j k n hs hs'
  assume jk: "j < length ws" "k < length ws" and w: "ws[i := w] ! j = Working n hs" "ws[i := w] ! k = Working n hs'"
  have other: "l = i" if "l < length ws" "ws ! l = Working n hs1" "w = Working n hs2" for l hs1 hs2
    using new [OF that(3)] that(1,2) i ws nth_mem [OF that(1)] unfolding one_worker_def by metis
  show "j = k"
  proof (cases "j = i \<or> k = i")
    case True
    then show ?thesis using jk w other i by (metis nth_list_update_eq nth_list_update_neq)
  next
    case False
    then show ?thesis using jk w ws unfolding one_worker_def by (metis nth_list_update_neq)
  qed
qed

lemma worker_inv_update:
  assumes "list_all (worker_ok s') (eb_workers s)" and "worker_ok s' w" and "i < length (eb_workers s)"
    and "one_worker (eb_workers s)" and "eb_workers s' = (eb_workers s)[i := w]"
    and "\<And>n hs. w = Working n hs \<Longrightarrow> \<not> worked_on n s \<or> (\<exists>hs. eb_workers s ! i = Working n hs)"
  shows "worker_inv s'"
  using assms set_update_subset_insert [of "eb_workers s" i w]
  by (auto simp: worker_inv_def list_all_iff worked_on_def intro!: one_worker_update)

lemma bus_inv_idle_worker:
  assumes "bus_inv s" and "i < length (eb_workers s)" and "eb_workers s ! i = Waiting" and "w \<in> {Waiting, Returned}"
  shows "bus_inv (s\<lparr>eb_workers := (eb_workers s)[i := w]\<rparr>)"
proof -
  let ?s = "s\<lparr>eb_workers := (eb_workers s)[i := w]\<rparr>"
  have same: "eb_started ?s = eb_started s" "eb_thrown ?s = eb_thrown s" "eb_accepted ?s = eb_accepted s"
      "\<And>n. calls_of n ?s = calls_of n s" "\<And>n. handlers_of n ?s = handlers_of n s"
    by (simp_all add: calls_of_def handlers_of_def)
  have "worked_on n ?s = worked_on n s" for n using assms(2-4) by (subst worked_on_update) auto
  then have "task_inv ?s = task_inv s" by (simp add: task_inv_def same)
  moreover have "worker_ok ?s = worker_ok s" by (simp add: worker_ok_def [abs_def] same)
  then have "worker_inv ?s" using assms
    by (intro worker_inv_update [where s = s and i = i and w = w])
      (auto simp: bus_inv_def worker_inv_def worker_ok_def)
  ultimately show ?thesis using assms(1) by (simp add: bus_inv_def queue_inv_def)
qed

lemma bus_inv_wake:
  assumes inv: "bus_inv s" and i: "i < length (eb_workers s)" "eb_workers s ! i = Waiting"
  shows "bus_inv (worker_wake i s)"
proof (cases "eb_tasks s = []")
  case True
  then show ?thesis using bus_inv_idle_worker [OF inv i] inv by (simp add: worker_wake_def)
next
  case False
  define k where "k = eb_started s"
  have q: "eb_running s" "eb_tasks s = drop k (eb_accepted s)" "k < length (eb_accepted s)"
    using inv False by (auto simp: bus_inv_def queue_inv_def k_def split: if_splits)
  then have hd: "dl_handlers (hd (drop k (eb_accepted s))) = handlers_of k s"
    by (simp add: handlers_of_def hd_drop_conv_nth)
  define s' where "s' = worker_wake i s"
  have s': "eb_workers s' = (eb_workers s)[i := Working k (handlers_of k s)]" "eb_started s' = Suc k"
      "eb_thrown s' = eb_thrown s" "\<And>n. calls_of n s' = calls_of n s" "\<And>n. handlers_of n s' = handlers_of n s"
      "eb_accepted s' = eb_accepted s" "eb_tasks s' = drop (Suc k) (eb_accepted s)" "eb_running s'"
    using q
    by (simp_all add: s'_def worker_wake_def k_def [symmetric] hd calls_of_def handlers_of_def drop_Suc tl_drop)
  have w: "worked_on n s' \<longleftrightarrow> n = k \<or> worked_on n s" for n
    using worked_on_update [OF i(1) s'(1)] i(2) by auto
  have new: "calls_of k s = []" "k \<notin> set (eb_thrown s)" and old: "worker_inv s" and t: "task_inv s"
    using inv by (auto simp: bus_inv_def task_inv_def k_def)
  have "\<not> worked_on k s" using old by (auto simp: worked_on_def worker_inv_def list_all_iff worker_ok_def k_def)
  moreover have "list_all (worker_ok s') (eb_workers s)" using old
    by (auto simp: worker_inv_def worker_ok_def s' k_def elim!: list.pred_mono_strong split: worker.splits)
  ultimately have "worker_inv s'" using old new i
    by (intro worker_inv_update [OF _ _ i(1) _ s'(1)]) (auto simp: worker_inv_def worker_ok_def s')
  moreover have "task_inv s'" unfolding task_inv_def
  proof
    fix n
    show "(eb_started s' \<le> n \<longrightarrow> calls_of n s' = [] \<and> n \<notin> set (eb_thrown s'))
      \<and> prefix (calls_of n s') (if n < eb_started s' then handlers_of n s' else [])
      \<and> (n < eb_started s' \<longrightarrow> \<not> worked_on n s' \<longrightarrow> n \<notin> set (eb_thrown s') \<longrightarrow> calls_of n s' = handlers_of n s')"
      using spec [OF t [unfolded task_inv_def], of n] new
      by (cases "n = k") (auto simp: s' w k_def [symmetric] less_Suc_eq)
  qed
  moreover have "queue_inv s'" using q by (simp add: queue_inv_def s')
  ultimately show ?thesis by (simp add: bus_inv_def s'_def)
qed

text \<open>A worker on task \<open>n\<close> goes on (with \<open>rest\<close>) or ends, having called the handlers \<open>now\<close>.\<close>

lemma bus_inv_progress:
  assumes inv: "bus_inv s" and i: "i < length (eb_workers s)" "eb_workers s ! i = Working n (now @ rest)"
    and same: "eb_started s' = eb_started s" "eb_accepted s' = eb_accepted s" "eb_running s' = eb_running s"
      "eb_tasks s' = eb_tasks s" "\<And>m. calls_of m s' = calls_of m s @ (if m = n then now else [])"
    and w: "eb_workers s' = (eb_workers s)[i := w]" "eb_thrown s' = eb_thrown s @ thrown"
      "w = Waiting \<and> (thrown = [n] \<or> thrown = [] \<and> rest = []) \<or> w = Working n rest \<and> thrown = []"
  shows "bus_inv s'"
proof -
  have ok: "n < eb_started s" "n \<notin> set (eb_thrown s)" "calls_of n s @ now @ rest = handlers_of n s"
    and one: "one_worker (eb_workers s)" and all: "list_all (worker_ok s) (eb_workers s)"
    using inv i nth_mem [OF i(1)] by (auto simp: bus_inv_def worker_inv_def list_all_iff worker_ok_def)
  have h: "handlers_of m s' = handlers_of m s" for m by (simp add: handlers_of_def same)
  have others: "worker_ok s' (eb_workers s ! j)" if j: "j < length (eb_workers s)" "j \<noteq> i" for j
  proof (cases "eb_workers s ! j")
    case (Working m hs)
    then have "m \<noteq> n" using one i j unfolding one_worker_def by metis
    moreover have "worker_ok s (eb_workers s ! j)" using all j(1) by (simp add: list_all_length)
    ultimately show ?thesis using w(2,3) by (auto simp: Working worker_ok_def same h)
  qed (simp_all add: worker_ok_def)
  have "worker_ok s' w" using ok w(2,3) by (auto simp: worker_ok_def same h)
  then have "list_all (worker_ok s') (eb_workers s')"
    using others i(1) by (auto simp: list_all_length w(1) nth_list_update)
  moreover have "one_worker (eb_workers s')" unfolding w(1)
    using one i w(3) by (intro one_worker_update) auto
  ultimately have "worker_inv s'" by (simp add: worker_inv_def)
  moreover have on: "worked_on m s' \<longleftrightarrow> worked_on m s" if "m \<noteq> n" for m
    using worked_on_update [OF i(1) w(1)] i(2) w(3) that by auto
  have "task_inv s'" unfolding task_inv_def
  proof
    fix m
    have "worked_on n s'" if "w = Working n rest"
      using that i(1) by (auto simp: worked_on_def w(1) intro!: exI [of _ rest] set_update_memI)
    moreover have "prefix (calls_of n s @ now) (handlers_of n s)" using ok(3) by (metis append.assoc prefixI)
    ultimately show "(eb_started s' \<le> m \<longrightarrow> calls_of m s' = [] \<and> m \<notin> set (eb_thrown s'))
      \<and> prefix (calls_of m s') (if m < eb_started s' then handlers_of m s' else [])
      \<and> (m < eb_started s' \<longrightarrow> \<not> worked_on m s' \<longrightarrow> m \<notin> set (eb_thrown s') \<longrightarrow> calls_of m s' = handlers_of m s')"
      using inv ok w(2,3) on [of m]
      by (cases "m = n") (auto simp: bus_inv_def task_inv_def same h)
  qed
  moreover have "queue_inv s'" using inv by (simp add: bus_inv_def queue_inv_def same)
  ultimately show ?thesis by (simp add: bus_inv_def)
qed

lemma bus_inv_run:
  assumes inv: "bus_inv s" and i: "i < length (eb_workers s)" "eb_workers s ! i = Working n hs"
  shows "bus_inv (worker_run throws i s)"
proof (cases hs)
  case Nil
  show ?thesis
    by (rule bus_inv_progress [OF inv i(1), of n "[]" "[]" _ Waiting "[]"])
      (use i Nil in \<open>simp_all add: worker_run_def calls_of_def\<close>)
next
  case (Cons h rest)
  show ?thesis
    by (rule bus_inv_progress [OF inv i(1), of n "[h]" rest _ "if throws then Waiting else Working n rest"
          "if throws then [n] else []"])
      (use i Cons in \<open>simp_all add: worker_run_def calls_of_def Let_def\<close>)
qed

lemma bus_inv_step: "bus_step s s' \<Longrightarrow> bus_inv s \<Longrightarrow> bus_inv s'"
  by (induction rule: bus_step.induct)
    (auto simp: bus_inv_publish bus_inv_publish_enqueue bus_inv_subscribe bus_inv_stop bus_inv_wake bus_inv_run)

lemma bus_reachable_inv: "bus_reachable s \<Longrightarrow> bus_inv s"
  by (induction rule: bus_reachable.induct) (auto simp: bus_inv_init bus_inv_step)

section \<open>Later states\<close>

inductive bus_run :: "'v bus \<Rightarrow> 'v bus \<Rightarrow> bool" where
  Here: "bus_run s s"
| Later: "bus_run s s' \<Longrightarrow> bus_step s' s'' \<Longrightarrow> bus_run s s''"

lemma bus_step_grows:
  "bus_step s s' \<Longrightarrow> prefix (eb_accepted s) (eb_accepted s') \<and> prefix (eb_published s) (eb_published s')"
  by (induction rule: bus_step.induct)
    (auto simp: bus_publish_def publish_enqueue_def enqueue_def subscribe_def pool_stop_def worker_wake_def
      worker_run_def Let_def split: worker.splits list.splits)

lemma bus_run_grows:
  "bus_run s s' \<Longrightarrow> prefix (eb_accepted s) (eb_accepted s') \<and> prefix (eb_published s) (eb_published s')"
  by (induction rule: bus_run.induct) (auto intro: prefix_order.trans dest: bus_step_grows)

lemma bus_run_reachable: "bus_run s s' \<Longrightarrow> bus_reachable s \<Longrightarrow> bus_reachable s'"
  by (induction rule: bus_run.induct) (auto intro: bus_reachable.Step)

text \<open>
  C36: Who is handed an event whose task is enqueued while the pool is running. The task belongs to the handlers that were
  subscribed to its type when \<open>publish\<close> took its snapshot, whatever other threads publish or subscribe before it is
  enqueued. Whatever threads and workers do afterwards (handlers may publish and subscribe, the pool may be stopped, handlers may
  throw), the task has called a prefix of these handlers, each once and in the order of their subscription, and no others; once
  a worker has taken it and no worker is at it any more, it has called all of them, unless one of them left by an
  exception, which skips the later ones. While the pool is running the tasks that wait are those not yet taken, in the order in
  which they were enqueued; stopping it discards them, and their handlers are never called. No two workers are at the same task.
\<close>

theorem event_delivered:
  assumes "bus_reachable s" and "eb_subscribers s (ev_type e) \<noteq> []" and "k = length (eb_published s)"
    and "bus_run (bus_publish e s) s1" and "k \<in> set (eb_publishing s1)" and "eb_running s1"
    and "bus_run (publish_enqueue k s1) s'" and "n = length (eb_accepted s1)"
  shows "prefix (calls_of n s') (eb_subscribers s (ev_type e))
    \<and> (n < eb_started s' \<and> \<not> worked_on n s' \<and> n \<notin> set (eb_thrown s')
         \<longrightarrow> calls_of n s' = eb_subscribers s (ev_type e))
    \<and> (n < eb_started s' \<or> calls_of n s' = [])
    \<and> eb_tasks s' = (if eb_running s' then drop (eb_started s') (eb_accepted s') else [])
    \<and> one_worker (eb_workers s')"
proof -
  have "bus_reachable (bus_publish e s)" using assms(1) bus_step.Publish by (rule bus_reachable.Step)
  then have "bus_reachable s1" by (rule bus_run_reachable [OF assms(4)])
  then have "bus_reachable (publish_enqueue k s1)" by (rule bus_reachable.Step) (rule bus_step.Enqueue [OF assms(5)])
  then have inv: "bus_inv s'" by (rule bus_reachable_inv [OF bus_run_reachable [OF assms(7)]])
  have "eb_published (bus_publish e s) = eb_published s @ [\<lparr>dl_handlers = eb_subscribers s (ev_type e), dl_event = e\<rparr>]"
    using assms(2) by (simp add: bus_publish_def Let_def)
  then have "eb_published s1 ! k = \<lparr>dl_handlers = eb_subscribers s (ev_type e), dl_event = e\<rparr>"
    using bus_run_grows [OF assms(4)] assms(3) by (auto simp: prefix_def nth_append)
  then have "eb_accepted (publish_enqueue k s1) =
      eb_accepted s1 @ [\<lparr>dl_handlers = eb_subscribers s (ev_type e), dl_event = e\<rparr>]"
    using assms(6) by (simp add: publish_enqueue_def enqueue_def)
  then have h: "handlers_of n s' = eb_subscribers s (ev_type e)"
    using bus_run_grows [OF assms(7)] assms(8) by (auto simp: handlers_of_def prefix_def nth_append)
  have t: "prefix (calls_of n s') (if n < eb_started s' then handlers_of n s' else [])"
      "n < eb_started s' \<and> \<not> worked_on n s' \<and> n \<notin> set (eb_thrown s') \<longrightarrow> calls_of n s' = handlers_of n s'"
    using inv unfolding bus_inv_def task_inv_def by blast+
  have "prefix (calls_of n s') (handlers_of n s')"
    using t(1) by (cases "n < eb_started s'") auto
  moreover have "n < eb_started s' \<or> calls_of n s' = []" using t(1) by (cases "n < eb_started s'") auto
  moreover have "eb_tasks s' = (if eb_running s' then drop (eb_started s') (eb_accepted s') else [])"
    using inv unfolding bus_inv_def queue_inv_def by blast
  moreover have "one_worker (eb_workers s')" using inv unfolding bus_inv_def worker_inv_def by blast
  ultimately show ?thesis using t(2) unfolding h by blast
qed

text \<open>A pool of one thread, one event, a handler that subscribes too late: the run that delivers the event.\<close>

definition sample_bus :: "nat bus" where
  "sample_bus = subscribe 0 7 (bus_init 1)"

definition sample_published :: "nat bus" where
  "sample_published = subscribe 0 8 (bus_publish \<lparr>ev_type = 0, ev_value = 5\<rparr> sample_bus)"

definition sample_delivered :: "nat bus" where
  "sample_delivered = worker_run False 0 (worker_run False 0 (worker_wake 0 (publish_enqueue 0 sample_published)))"

lemmas sample_bus_defs = sample_bus_def sample_published_def sample_delivered_def bus_init_def subscribe_def
  bus_publish_def publish_enqueue_def enqueue_def worker_wake_def worker_run_def Let_def

lemma sample_bus_run:
  "bus_reachable sample_bus"
  "bus_run (bus_publish \<lparr>ev_type = 0, ev_value = 5\<rparr> sample_bus) sample_published"
  "bus_run (publish_enqueue 0 sample_published) sample_delivered"
proof -
  show "bus_reachable sample_bus" unfolding sample_bus_def
    by (rule bus_reachable.Step [OF bus_reachable.Start bus_step.Subscribe])
  show "bus_run (bus_publish \<lparr>ev_type = 0, ev_value = 5\<rparr> sample_bus) sample_published"
    unfolding sample_published_def by (rule Later [OF Here bus_step.Subscribe])
  let ?s0 = "publish_enqueue 0 sample_published"
  let ?s1 = "worker_wake 0 ?s0" and ?s2 = "worker_run False 0 (worker_wake 0 ?s0)"
  have w: "eb_workers ?s0 = [Waiting]" "eb_workers ?s1 = [Working 0 [7]]" "eb_workers ?s2 = [Working 0 []]"
    by (simp_all add: sample_bus_defs)
  have "bus_run ?s0 ?s1"
    by (rule Later [OF Here bus_step.Wake]) (simp_all add: w)
  then have "bus_run ?s0 ?s2"
    by (rule Later [OF _ bus_step.Run]) (simp_all add: w)
  then show "bus_run ?s0 sample_delivered" unfolding sample_delivered_def
    by (rule Later [OF _ bus_step.Run]) (simp_all add: w)
qed

theorem event_delivered_witness: "calls_of 0 sample_delivered = [7]"
proof -
  have "eb_started sample_delivered = 1 \<and> eb_workers sample_delivered = [Waiting] \<and> eb_thrown sample_delivered = []
      \<and> eb_subscribers sample_bus 0 = [7] \<and> eb_published sample_bus = [] \<and> eb_publishing sample_published = [0]
      \<and> eb_running sample_published \<and> eb_accepted sample_published = []"
    by (simp add: sample_bus_defs)
  then show ?thesis
    using event_delivered [OF sample_bus_run(1) _ _ sample_bus_run(2) _ _ sample_bus_run(3), of 0]
    by (simp add: worked_on_def)
qed

end
