(* ===== verification/Scheduler.thy ===== *)
theory Scheduler
  imports Prelude "HOL-Library.Multiset"
begin

text \<open>
  The task scheduler (\<open>daemon/src/core/scheduler.cpp\<close>, \<open>task.h\<close>). Times are nanoseconds of the
  monotonic clock, intervals milliseconds. The threads that schedule, cancel and stop interleave with
  the scheduler's own thread, whose loop is cut where it takes or leaves the mutex and where it reads
  the clock. The function of a task is named by the task's number; what it returns is an input.
\<close>

record task =
  tk_id :: nat
  tk_time :: int
  tk_interval :: int

text \<open>
  Where the thread is: at the head of the loop with the mutex, outside it with a task it has taken
  (\<open>Ready\<close>) or run (\<open>Ran\<close>, with what the function returned), about to put it back, or not running.
\<close>

datatype phase = Idle | Looping | Ready task | Ran task bool | Requeue task

text \<open>
  \<open>sc_scheduled\<close> (what \<open>schedule\<close> has been given) and \<open>sc_runs\<close> (the number of each task run and when)
  record the history.
\<close>

record scheduler =
  sc_queue :: "task list"
  sc_running :: bool
  sc_cancelled :: "nat list"
  sc_next_id :: nat
  sc_phase :: phase
  sc_now :: int
  sc_scheduled :: "task list"
  sc_runs :: "(nat \<times> int) list"

definition sched_init :: "int \<Rightarrow> scheduler" where
  "sched_init now = \<lparr>sc_queue = [], sc_running = False, sc_cancelled = [], sc_next_id = 1, sc_phase = Idle,
     sc_now = now, sc_scheduled = [], sc_runs = []\<rparr>"

definition ns_per_ms :: int where
  "ns_per_ms = 1000000"

definition schedule :: "int \<Rightarrow> int \<Rightarrow> scheduler \<Rightarrow> scheduler" where
  "schedule time interval s =
     (let task = \<lparr>tk_id = sc_next_id s, tk_time = time, tk_interval = interval\<rparr>
      in s\<lparr>sc_next_id := sc_next_id s + 1, sc_queue := sc_queue s @ [task],
           sc_scheduled := sc_scheduled s @ [task]\<rparr>)"

definition every :: "int \<Rightarrow> scheduler \<Rightarrow> scheduler" where
  "every interval s = schedule (sc_now s) interval s"

definition once_at :: "int \<Rightarrow> scheduler \<Rightarrow> scheduler" where
  "once_at time s = schedule time 0 s"

text \<open>The product is computed in \<open>size_t\<close> and converted to the signed count of the clock.\<close>

definition once_in :: "u64 \<Rightarrow> scheduler \<Rightarrow> scheduler" where
  "once_in milliseconds s = schedule (sc_now s + sint (milliseconds * 1000000)) 0 s"

definition cancel :: "nat \<Rightarrow> scheduler \<Rightarrow> scheduler" where
  "cancel i s = s\<lparr>sc_cancelled := sc_cancelled s @ [i]\<rparr>"

definition sched_start :: "scheduler \<Rightarrow> scheduler" where
  "sched_start s = s\<lparr>sc_running := True, sc_phase := Looping\<rparr>"

text \<open>\<open>stop\<close> up to the join.\<close>

definition sched_stop :: "scheduler \<Rightarrow> scheduler" where
  "sched_stop s = s\<lparr>sc_running := False, sc_queue := []\<rparr>"

text \<open>
  A task that \<open>queue.top()\<close> may be: the order of equal times is the heap's.
\<close>

definition is_top :: "task \<Rightarrow> task list \<Rightarrow> bool" where
  "is_top t q \<longleftrightarrow> t \<in> set q \<and> (\<forall>u \<in> set q. tk_time t \<le> tk_time u)"

text \<open>An iteration with \<open>next = t\<close>, up to the unlocking, and the end of the loop.\<close>

definition loop_head :: "task \<Rightarrow> scheduler \<Rightarrow> scheduler" where
  "loop_head t s =
     (if tk_time t > sc_now s then s
      else (let s = s\<lparr>sc_queue := remove1 t (sc_queue s)\<rparr>
            in if tk_id t \<in> set (sc_cancelled s) then s else s\<lparr>sc_phase := Ready t\<rparr>))"

definition loop_end :: "scheduler \<Rightarrow> scheduler" where
  "loop_end s = s\<lparr>sc_queue := [], sc_phase := Idle\<rparr>"

definition run_func :: "task \<Rightarrow> bool \<Rightarrow> scheduler \<Rightarrow> scheduler" where
  "run_func t result s =
     (if sc_running s then s\<lparr>sc_runs := sc_runs s @ [(tk_id t, sc_now s)], sc_phase := Ran t result\<rparr>
      else s\<lparr>sc_phase := Ran t True\<rparr>)"

definition check_again :: "task \<Rightarrow> bool \<Rightarrow> scheduler \<Rightarrow> scheduler" where
  "check_again t keep_running s =
     (if sc_running s \<and> keep_running \<and> tk_interval t > 0 \<and> tk_id t \<notin> set (sc_cancelled s)
      then s\<lparr>sc_phase := Requeue (t\<lparr>tk_time := sc_now s + tk_interval t * ns_per_ms\<rparr>)\<rparr>
      else s\<lparr>sc_phase := Looping\<rparr>)"

definition push_again :: "task \<Rightarrow> scheduler \<Rightarrow> scheduler" where
  "push_again t s = s\<lparr>sc_queue := sc_queue s @ [t], sc_phase := Looping\<rparr>"

definition tick :: "nat \<Rightarrow> scheduler \<Rightarrow> scheduler" where
  "tick d s = s\<lparr>sc_now := sc_now s + int d\<rparr>"

inductive sched_step :: "scheduler \<Rightarrow> scheduler \<Rightarrow> bool" where
  Every: "sched_step s (every interval s)"
| Once_at: "sched_step s (once_at time s)"
| Once_in: "sched_step s (once_in milliseconds s)"
| Cancel: "sched_step s (cancel i s)"
| Start: "sc_phase s = Idle \<Longrightarrow> sched_step s (sched_start s)"
| Stop: "sched_step s (sched_stop s)"
| Tick: "sched_step s (tick d s)"
| Head: "sc_phase s = Looping \<Longrightarrow> sc_running s \<Longrightarrow> is_top t (sc_queue s) \<Longrightarrow> sched_step s (loop_head t s)"
| End: "sc_phase s = Looping \<Longrightarrow> \<not> sc_running s \<Longrightarrow> sched_step s (loop_end s)"
| Run: "sc_phase s = Ready t \<Longrightarrow> sched_step s (run_func t result s)"
| Check: "sc_phase s = Ran t keep \<Longrightarrow> sched_step s (check_again t keep s)"
| Push: "sc_phase s = Requeue t \<Longrightarrow> sched_step s (push_again t s)"

inductive sched_reachable :: "scheduler \<Rightarrow> bool" where
  Init: "sched_reachable (sched_init now)"
| Step: "sched_reachable s \<Longrightarrow> sched_step s s' \<Longrightarrow> sched_reachable s'"

section \<open>Where a task can be\<close>

text \<open>The times at which task \<open>i\<close> was run, and its occurrences in the queue and in the thread's hands.\<close>

definition runs_of :: "nat \<Rightarrow> scheduler \<Rightarrow> int list" where
  "runs_of i s = map snd (filter (\<lambda>r. fst r = i) (sc_runs s))"

definition in_hand :: "scheduler \<Rightarrow> task list" where
  "in_hand s = (case sc_phase s of Ready t \<Rightarrow> [t] | Ran t _ \<Rightarrow> [t] | Requeue t \<Rightarrow> [t] | _ \<Rightarrow> [])"

definition places :: "scheduler \<Rightarrow> task list" where
  "places s = sc_queue s @ in_hand s"

text \<open>\<open>may_run t s u\<close>: the occurrence \<open>u\<close> of the task scheduled as \<open>t\<close> may be run again from its time on.\<close>

definition may_run :: "task \<Rightarrow> scheduler \<Rightarrow> task \<Rightarrow> bool" where
  "may_run t s u \<longleftrightarrow> tk_time t \<le> tk_time u
     \<and> (\<forall>r \<in> set (runs_of (tk_id t) s). r + tk_interval t * ns_per_ms \<le> tk_time u)
     \<and> (runs_of (tk_id t) s = [] \<or> 0 < tk_interval t)"

definition runs_spaced :: "task \<Rightarrow> int list \<Rightarrow> bool" where
  "runs_spaced t rs \<longleftrightarrow> (\<forall>r \<in> set rs. tk_time t \<le> r)
     \<and> successively (\<lambda>a b. a + tk_interval t * ns_per_ms \<le> b) rs
     \<and> (tk_interval t \<le> 0 \<longrightarrow> length rs \<le> 1)"

definition occurs_ok :: "scheduler \<Rightarrow> task \<Rightarrow> bool" where
  "occurs_ok s u \<longleftrightarrow> (\<exists>t \<in> set (sc_scheduled s).
     tk_id t = tk_id u \<and> tk_interval t = tk_interval u \<and> may_run t s u)"

definition phase_ok :: "scheduler \<Rightarrow> bool" where
  "phase_ok s \<longleftrightarrow> (case sc_phase s of
       Ready u \<Rightarrow> occurs_ok s u \<and> tk_time u \<le> sc_now s
     | Ran u _ \<Rightarrow> (\<exists>t \<in> set (sc_scheduled s). tk_id t = tk_id u \<and> tk_interval t = tk_interval u \<and> tk_time t \<le> sc_now s)
     | Requeue u \<Rightarrow> occurs_ok s u
     | _ \<Rightarrow> True)"

definition history_ok :: "scheduler \<Rightarrow> bool" where
  "history_ok s \<longleftrightarrow> (\<forall>t \<in> set (sc_scheduled s). tk_id t < sc_next_id s \<and> runs_spaced t (runs_of (tk_id t) s))
     \<and> distinct (map tk_id (sc_scheduled s))
     \<and> (\<forall>r \<in> set (sc_runs s). fst r < sc_next_id s \<and> snd r \<le> sc_now s)"

definition sched_inv :: "scheduler \<Rightarrow> bool" where
  "sched_inv s \<longleftrightarrow> list_all (occurs_ok s) (sc_queue s) \<and> phase_ok s \<and> history_ok s
     \<and> distinct (map tk_id (places s))"

lemmas sched_inv_defs = sched_inv_def phase_ok_def history_ok_def places_def in_hand_def

lemma sched_inv_init: "sched_inv (sched_init now)"
  by (simp add: sched_inv_defs sched_init_def)

text \<open>Steps that keep the history and the schedule keep what is said of an occurrence.\<close>

lemma occurs_ok_cong:
  "sc_scheduled s' = sc_scheduled s \<Longrightarrow> sc_runs s' = sc_runs s \<Longrightarrow> occurs_ok s' = occurs_ok s"
  by (simp add: occurs_ok_def [abs_def] may_run_def runs_of_def)

lemma history_ok_cong:
  "sc_scheduled s' = sc_scheduled s \<Longrightarrow> sc_runs s' = sc_runs s \<Longrightarrow> sc_next_id s' = sc_next_id s \<Longrightarrow>
    sc_now s \<le> sc_now s' \<Longrightarrow> history_ok s \<Longrightarrow> history_ok s'"
  by (fastforce simp: history_ok_def runs_of_def)

lemma occurs_ok_id: "history_ok s \<Longrightarrow> occurs_ok s u \<Longrightarrow> tk_id u < sc_next_id s"
  by (auto simp: occurs_ok_def history_ok_def)

lemma places_id:
  assumes "sched_inv s" and "u \<in> set (places s)" shows "tk_id u < sc_next_id s"
  using assms occurs_ok_id [of s]
  by (auto simp: sched_inv_defs list_all_iff split: phase.splits)

lemma sched_inv_schedule:
  assumes "sched_inv s" shows "sched_inv (schedule time interval s)"
proof -
  define t where "t = \<lparr>tk_id = sc_next_id s, tk_time = time, tk_interval = interval\<rparr>"
  let ?s = "schedule time interval s"
  have s': "sc_queue ?s = sc_queue s @ [t]" "sc_scheduled ?s = sc_scheduled s @ [t]" "sc_runs ?s = sc_runs s"
      "sc_next_id ?s = Suc (sc_next_id s)" "sc_phase ?s = sc_phase s" "sc_now ?s = sc_now s"
    by (simp_all add: schedule_def t_def Let_def)
  have fresh: "runs_of (sc_next_id s) s = []" using assms by (auto simp: sched_inv_def history_ok_def runs_of_def filter_empty_conv)
  have runs: "runs_of i ?s = runs_of i s" for i by (simp add: runs_of_def s')
  have old: "occurs_ok ?s u" if "occurs_ok s u" for u
    using that by (auto simp: occurs_ok_def s' may_run_def runs)
  have "occurs_ok ?s t" using fresh by (auto simp: occurs_ok_def s' may_run_def runs t_def)
  then have "list_all (occurs_ok ?s) (sc_queue ?s)"
    using assms old by (auto simp: sched_inv_def list_all_iff s')
  moreover have "phase_ok ?s" using assms old
    by (auto simp: sched_inv_def phase_ok_def s' split: phase.splits)
  moreover have "history_ok ?s" using assms fresh
    by (fastforce simp: sched_inv_def history_ok_def s' runs t_def runs_spaced_def)
  moreover have "sc_next_id s \<notin> tk_id ` set (places s)" using places_id [OF assms] by fastforce
  then have "distinct (map tk_id (places ?s))" using assms
    by (auto simp: sched_inv_def places_def in_hand_def s' t_def)
  ultimately show ?thesis by (simp add: sched_inv_def)
qed

text \<open>A step that only moves occurrences about.\<close>

lemma distinct_fewer:
  assumes "distinct xs" and "mset ys \<subseteq># mset xs" shows "distinct ys"
proof -
  obtain M where "mset xs = mset ys + M" using assms(2) by (auto simp: mset_subset_eq_exists_conv)
  moreover obtain zs where "M = mset zs" using ex_mset by metis
  ultimately have "mset xs = mset (ys @ zs)" by simp
  then show ?thesis using assms(1) mset_eq_imp_distinct_iff by fastforce
qed

lemma sched_inv_move:
  assumes inv: "sched_inv s"
    and same: "sc_scheduled s' = sc_scheduled s" "sc_runs s' = sc_runs s" "sc_next_id s' = sc_next_id s" "sc_now s \<le> sc_now s'"
    and queue: "list_all (occurs_ok s) (sc_queue s')" and phase: "phase_ok s'"
    and places: "image_mset tk_id (mset (places s')) \<subseteq># image_mset tk_id (mset (places s))"
  shows "sched_inv s'"
proof -
  have "distinct (map tk_id (places s'))"
    using inv places by - (rule distinct_fewer [of "map tk_id (places s)"], simp_all add: sched_inv_def)
  moreover have "history_ok s" using inv unfolding sched_inv_def by blast
  then have "history_ok s'" by (rule history_ok_cong [OF same])
  ultimately show ?thesis using queue phase unfolding sched_inv_def occurs_ok_cong [OF same(1,2)] by blast
qed

lemma sched_inv_cancel: "sched_inv s \<Longrightarrow> sched_inv (cancel i s)"
proof (rule sched_inv_move [of s])
  assume inv: "sched_inv s"
  have "occurs_ok (cancel i s) = occurs_ok s" by (rule occurs_ok_cong) (simp_all add: cancel_def)
  then show "phase_ok (cancel i s)" using inv
    by (auto simp: sched_inv_def phase_ok_def cancel_def split: phase.splits)
qed (auto simp: cancel_def places_def in_hand_def sched_inv_def)

lemma sched_inv_start: "sched_inv s \<Longrightarrow> sc_phase s = Idle \<Longrightarrow> sched_inv (sched_start s)"
  by (rule sched_inv_move [of s]) (auto simp: sched_start_def sched_inv_def phase_ok_def places_def in_hand_def)

lemma sched_inv_stop: "sched_inv s \<Longrightarrow> sched_inv (sched_stop s)"
proof (rule sched_inv_move [of s])
  assume inv: "sched_inv s"
  have "occurs_ok (sched_stop s) = occurs_ok s" by (rule occurs_ok_cong) (simp_all add: sched_stop_def)
  then show "phase_ok (sched_stop s)" using inv
    by (auto simp: sched_inv_def phase_ok_def sched_stop_def split: phase.splits)
qed (simp_all add: sched_stop_def places_def in_hand_def)

lemma sched_inv_tick: "sched_inv s \<Longrightarrow> sched_inv (tick d s)"
proof (rule sched_inv_move [of s])
  assume inv: "sched_inv s"
  have "occurs_ok (tick d s) = occurs_ok s" by (rule occurs_ok_cong) (simp_all add: tick_def)
  then show "phase_ok (tick d s)" using inv
    by (auto simp: sched_inv_def phase_ok_def tick_def split: phase.splits)
qed (auto simp: tick_def places_def in_hand_def sched_inv_def)

lemma sched_inv_end: "sched_inv s \<Longrightarrow> sched_inv (loop_end s)"
  by (rule sched_inv_move [of s]) (simp_all add: loop_end_def phase_ok_def places_def in_hand_def)

lemma sched_inv_head:
  assumes inv: "sched_inv s" and at: "sc_phase s = Looping" "is_top t (sc_queue s)"
  shows "sched_inv (loop_head t s)"
proof (cases "tk_time t > sc_now s")
  case True
  then show ?thesis using inv by (simp add: loop_head_def)
next
  case False
  have t: "t \<in> set (sc_queue s)" using at(2) by (simp add: is_top_def)
  have q: "list_all (occurs_ok s) (sc_queue s)" using inv by (simp add: sched_inv_def)
  then have "occurs_ok s t" "list_all (occurs_ok s) (remove1 t (sc_queue s))"
    using t set_remove1_subset [of t "sc_queue s"] by (auto simp: list_all_iff)
  moreover have "occurs_ok (loop_head t s) = occurs_ok s"
    by (rule occurs_ok_cong) (simp_all add: loop_head_def Let_def)
  ultimately show ?thesis using inv at t False
    by (intro sched_inv_move [OF inv])
      (auto simp: loop_head_def Let_def phase_ok_def places_def in_hand_def insert_DiffM image_mset_Diff
        subset_eq_diff_conv)
qed

lemma sched_inv_push:
  assumes inv: "sched_inv s" and at: "sc_phase s = Requeue t"
  shows "sched_inv (push_again t s)"
proof (rule sched_inv_move [OF inv])
  have "occurs_ok s t" using inv at by (simp add: sched_inv_def phase_ok_def)
  then show "list_all (occurs_ok s) (sc_queue (push_again t s))"
    using inv by (simp add: push_again_def sched_inv_def)
qed (simp_all add: push_again_def phase_ok_def places_def in_hand_def at)

lemma runs_before_now: "sched_inv s \<Longrightarrow> r \<in> set (runs_of i s) \<Longrightarrow> r \<le> sc_now s"
  by (auto simp: sched_inv_def history_ok_def runs_of_def)

lemma sched_inv_check:
  assumes inv: "sched_inv s" and at: "sc_phase s = Ran u keep"
  shows "sched_inv (check_again u keep s)"
proof (rule sched_inv_move [OF inv])
  obtain t where t: "t \<in> set (sc_scheduled s)" "tk_id t = tk_id u" "tk_interval t = tk_interval u"
      "tk_time t \<le> sc_now s"
    using inv at by (auto simp: sched_inv_def phase_ok_def)
  have "occurs_ok s (u\<lparr>tk_time := sc_now s + tk_interval u * ns_per_ms\<rparr>)" if "0 < tk_interval u"
    using t that runs_before_now [OF inv]
    by (auto simp: occurs_ok_def may_run_def ns_per_ms_def intro!: bexI [OF _ t(1)])
  moreover have "occurs_ok (check_again u keep s) = occurs_ok s"
    by (rule occurs_ok_cong) (simp_all add: check_again_def)
  ultimately show "phase_ok (check_again u keep s)"
    by (auto simp: phase_ok_def check_again_def)
qed (use inv at in \<open>auto simp: check_again_def places_def in_hand_def sched_inv_def\<close>)

lemma runs_spaced_snoc:
  assumes "runs_spaced t rs" and "tk_time t \<le> r" and "\<forall>x \<in> set rs. x + tk_interval t * ns_per_ms \<le> r"
    and "rs = [] \<or> 0 < tk_interval t"
  shows "runs_spaced t (rs @ [r])"
proof (cases "rs = []")
  case False
  then have "last rs + tk_interval t * ns_per_ms \<le> r" using assms(3) by simp
  then show ?thesis using assms by (auto simp: runs_spaced_def successively_append_iff)
qed (use assms in \<open>simp add: runs_spaced_def\<close>)

lemma sched_inv_run:
  assumes inv: "sched_inv s" and at: "sc_phase s = Ready u"
  shows "sched_inv (run_func u result s)"
proof (cases "sc_running s")
  case False
  have "occurs_ok s u" "tk_time u \<le> sc_now s" using inv at by (auto simp: sched_inv_def phase_ok_def)
  then have "\<exists>t \<in> set (sc_scheduled s). tk_id t = tk_id u \<and> tk_interval t = tk_interval u \<and> tk_time t \<le> sc_now s"
    by (force simp: occurs_ok_def may_run_def)
  then show ?thesis using False inv at
    by (intro sched_inv_move [OF inv]) (auto simp: run_func_def phase_ok_def places_def in_hand_def sched_inv_def)
next
  case True
  let ?s = "run_func u result s"
  have s': "sc_queue ?s = sc_queue s" "sc_scheduled ?s = sc_scheduled s" "sc_now ?s = sc_now s"
      "sc_next_id ?s = sc_next_id s" "sc_phase ?s = Ran u result" "sc_runs ?s = sc_runs s @ [(tk_id u, sc_now s)]"
    using True by (simp_all add: run_func_def)
  have runs: "runs_of i ?s = runs_of i s @ (if i = tk_id u then [sc_now s] else [])" for i
    by (simp add: runs_of_def s')
  have due: "occurs_ok s u" "tk_time u \<le> sc_now s" using inv at by (auto simp: sched_inv_def phase_ok_def)
  then obtain t where t: "t \<in> set (sc_scheduled s)" "tk_id t = tk_id u" "tk_interval t = tk_interval u" "may_run t s u"
    by (auto simp: occurs_ok_def)
  have unique: "t' = t" if "t' \<in> set (sc_scheduled s)" "tk_id t' = tk_id u" for t'
    using that t inv by (auto simp: sched_inv_def history_ok_def distinct_map intro: inj_onD)
  have other: "tk_id v \<noteq> tk_id u" if "v \<in> set (sc_queue s)" for v
  proof -
    have "tk_id u \<notin> tk_id ` set (sc_queue s)" using inv at by (simp add: sched_inv_def places_def in_hand_def)
    then show ?thesis using that by (metis imageI)
  qed
  have "list_all (occurs_ok ?s) (sc_queue ?s)"
    using inv other by (auto simp: sched_inv_def list_all_iff s' occurs_ok_def may_run_def runs) metis
  moreover have "tk_time t \<le> sc_now s" using t(4) due(2) by (auto simp: may_run_def)
  then have "phase_ok ?s" using t by (auto simp: phase_ok_def s' intro!: bexI [OF _ t(1)])
  moreover have "runs_spaced t (runs_of (tk_id u) s @ [sc_now s])"
  proof (rule runs_spaced_snoc)
    show "runs_spaced t (runs_of (tk_id u) s)" using inv t by (auto simp: sched_inv_def history_ok_def)
  qed (use t due(2) \<open>tk_time t \<le> sc_now s\<close> in \<open>fastforce simp: may_run_def\<close>)+
  then have "runs_spaced t' (runs_of (tk_id t') ?s)" if "t' \<in> set (sc_scheduled s)" for t'
    using that inv unique [OF that] by (cases "tk_id t' = tk_id u") (auto simp: sched_inv_def history_ok_def runs)
  then have "history_ok ?s" using inv t(1,2)
    by (auto simp: sched_inv_def history_ok_def s')
  moreover have "distinct (map tk_id (places ?s))" using inv at
    by (simp add: sched_inv_def places_def in_hand_def s')
  ultimately show ?thesis by (simp add: sched_inv_def)
qed

lemma sched_inv_step: "sched_step s s' \<Longrightarrow> sched_inv s \<Longrightarrow> sched_inv s'"
  by (induction rule: sched_step.induct)
    (auto simp: every_def once_at_def once_in_def sched_inv_schedule sched_inv_cancel sched_inv_start sched_inv_stop
      sched_inv_tick sched_inv_head sched_inv_end sched_inv_run sched_inv_check sched_inv_push)

lemma sched_reachable_inv: "sched_reachable s \<Longrightarrow> sched_inv s"
  by (induction rule: sched_reachable.induct) (auto simp: sched_inv_init sched_inv_step)

section \<open>Cancelling\<close>

inductive sched_run :: "scheduler \<Rightarrow> scheduler \<Rightarrow> bool" where
  Here: "sched_run s s"
| Later: "sched_run s s' \<Longrightarrow> sched_step s' s'' \<Longrightarrow> sched_run s s''"

definition off :: "nat \<Rightarrow> scheduler \<Rightarrow> bool" where
  "off i s \<longleftrightarrow> i \<in> set (sc_cancelled s) \<and> (\<forall>t. sc_phase s = Ready t \<longrightarrow> tk_id t \<noteq> i)"

lemma off_step: "sched_step s s' \<Longrightarrow> off i s \<Longrightarrow> off i s' \<and> runs_of i s' = runs_of i s"
  by (induction rule: sched_step.induct)
    (auto simp: off_def every_def once_at_def once_in_def schedule_def cancel_def sched_start_def sched_stop_def
      tick_def loop_head_def loop_end_def run_func_def check_again_def push_again_def runs_of_def Let_def)

section \<open>The scheduler's promises\<close>

text \<open>
  C37: a scheduled task is never run before its time, two runs of it are at least its interval apart, and
  a task without an interval is run at most once, whatever is scheduled, cancelled, started and stopped
  meanwhile, whatever its function takes and returns, and in whatever order equal times leave the heap.
\<close>

theorem scheduled_runs:
  assumes "sched_reachable s" and "t \<in> set (sc_scheduled s)"
  shows "(\<forall>r \<in> set (runs_of (tk_id t) s). tk_time t \<le> r)
    \<and> successively (\<lambda>a b. a + tk_interval t * ns_per_ms \<le> b) (runs_of (tk_id t) s)
    \<and> (tk_interval t \<le> 0 \<longrightarrow> length (runs_of (tk_id t) s) \<le> 1)"
  using sched_reachable_inv [OF assms(1)] assms(2) by (simp add: sched_inv_def history_ok_def runs_spaced_def)

definition sample_sched :: scheduler where
  "sample_sched = tick 3000000 (push_again \<lparr>tk_id = 1, tk_time = 2000000, tk_interval = 2\<rparr>
     (check_again \<lparr>tk_id = 1, tk_time = 0, tk_interval = 2\<rparr> True
       (run_func \<lparr>tk_id = 1, tk_time = 0, tk_interval = 2\<rparr> True
         (loop_head \<lparr>tk_id = 1, tk_time = 0, tk_interval = 2\<rparr> (sched_start (every 2 (sched_init 0)))))))"

lemma sample_sched_reachable: "sched_reachable sample_sched"
proof -
  let ?t = "\<lparr>tk_id = 1, tk_time = 0, tk_interval = 2\<rparr>"
  let ?s0 = "sched_start (every 2 (sched_init 0))"
  let ?s1 = "loop_head ?t ?s0" let ?s2 = "run_func ?t True ?s1" let ?s3 = "check_again ?t True ?s2"
  note defs = every_def schedule_def sched_init_def sched_start_def loop_head_def run_func_def check_again_def
    is_top_def Let_def ns_per_ms_def
  have "sched_reachable (every 2 (sched_init 0))"
    by (rule sched_reachable.Step [OF sched_reachable.Init sched_step.Every])
  then have "sched_reachable ?s0"
    by (rule sched_reachable.Step [OF _ sched_step.Start]) (simp add: defs)
  then have "sched_reachable ?s1"
    by (rule sched_reachable.Step [OF _ sched_step.Head]) (simp_all add: defs)
  then have "sched_reachable ?s2"
    by (rule sched_reachable.Step [OF _ sched_step.Run]) (simp add: defs)
  then have "sched_reachable ?s3"
    by (rule sched_reachable.Step [OF _ sched_step.Check]) (simp add: defs)
  then have "sched_reachable (push_again \<lparr>tk_id = 1, tk_time = 2000000, tk_interval = 2\<rparr> ?s3)"
    by (rule sched_reachable.Step [OF _ sched_step.Push]) (simp add: defs)
  then show ?thesis unfolding sample_sched_def by (rule sched_reachable.Step [OF _ sched_step.Tick])
qed

lemmas sample_sched_defs = sample_sched_def every_def schedule_def sched_init_def sched_start_def loop_head_def
  run_func_def check_again_def push_again_def tick_def is_top_def Let_def ns_per_ms_def

theorem scheduled_runs_witness: "runs_of 1 sample_sched = [0] \<and> 0 \<le> hd (runs_of 1 sample_sched)"
  using scheduled_runs [OF sample_sched_reachable, of "\<lparr>tk_id = 1, tk_time = 0, tk_interval = 2\<rparr>"]
  by (simp add: sample_sched_defs runs_of_def)

text \<open>
  a cancelled task is not run again. Once \<open>cancel\<close> has returned, unless the scheduler's thread has
  taken the task out of its queue just before, the task is never run in any later state, even if it is
  waiting in the queue or about to be put back, and even over a stop and a new start.
\<close>

theorem cancelled_stays_off:
  assumes "\<forall>t. sc_phase s = Ready t \<longrightarrow> tk_id t \<noteq> i" and "sched_run (cancel i s) s'"
  shows "runs_of i s' = runs_of i s"
proof -
  have "off i (cancel i s)" "runs_of i (cancel i s) = runs_of i s"
    using assms(1) by (simp_all add: off_def cancel_def runs_of_def)
  moreover have "off i (cancel i s) \<Longrightarrow> off i s' \<and> runs_of i s' = runs_of i (cancel i s)"
    using assms(2) by (induction "cancel i s" s' rule: sched_run.induct) (auto dest: off_step)
  ultimately show ?thesis by simp
qed

theorem cancelled_stays_off_witness:
  "runs_of 1 (loop_head \<lparr>tk_id = 1, tk_time = 2000000, tk_interval = 2\<rparr> (cancel 1 sample_sched)) = runs_of 1 sample_sched"
proof (rule cancelled_stays_off)
  show "sched_run (cancel 1 sample_sched)
      (loop_head \<lparr>tk_id = 1, tk_time = 2000000, tk_interval = 2\<rparr> (cancel 1 sample_sched))"
    by (rule Later [OF Here sched_step.Head]) (simp_all add: sample_sched_defs cancel_def)
qed (simp add: sample_sched_defs)

end
