(* ===== verification/Capnp.thy ===== *)
theory Capnp
  imports Prelude Ieee_Double
begin

text \<open>
  Cap'n Proto as the codec (\<open>library/src/capnp/capnp_codec.cpp\<close>) uses it. The generated classes are the
  schemas of \<open>protocol.yaml\<close> and the \<open>.capnp\<close> files beside it: a message is a tree of fields in the order of
  its schema, a setter writes a field of the schema's type, a getter reads it and gives the default where
  there is none. \<open>float\<close> and \<open>double\<close> fields are the rationals they denote. Packing a message into octets
  and reading it back is the library's: a parameter of what uses it.
\<close>

datatype (plugins only:) cp_type =
    TBool | TUInt8 | TUInt16 | TUInt32 | TUInt64 | TInt8 | TInt16 | TInt32 | TInt64
  | TFloat32 | TFloat64 | TText | TEnum | TList cp_type | TStruct "cp_type list"

datatype (plugins only:) cp =
    CBool bool | CUInt8 u8 | CUInt16 u16 | CUInt32 u32 | CUInt64 u64
  | CInt8 i8 | CInt16 i16 | CInt32 i32 | CInt64 i64
  | CFloat32 rat | CFloat64 rat | CText "byte list" | CEnum u16 | CList "cp list" | CStruct "cp list"

text \<open>A list or a text has fewer than \<open>2^29\<close> elements (the library throws where there are more).\<close>

definition cp_limit :: nat where
  "cp_limit = 2 ^ 29"

primrec conforms :: "cp_type \<Rightarrow> cp \<Rightarrow> bool" where
  "conforms TBool v = (case v of CBool _ \<Rightarrow> True | _ \<Rightarrow> False)"
| "conforms TUInt8 v = (case v of CUInt8 _ \<Rightarrow> True | _ \<Rightarrow> False)"
| "conforms TUInt16 v = (case v of CUInt16 _ \<Rightarrow> True | _ \<Rightarrow> False)"
| "conforms TUInt32 v = (case v of CUInt32 _ \<Rightarrow> True | _ \<Rightarrow> False)"
| "conforms TUInt64 v = (case v of CUInt64 _ \<Rightarrow> True | _ \<Rightarrow> False)"
| "conforms TInt8 v = (case v of CInt8 _ \<Rightarrow> True | _ \<Rightarrow> False)"
| "conforms TInt16 v = (case v of CInt16 _ \<Rightarrow> True | _ \<Rightarrow> False)"
| "conforms TInt32 v = (case v of CInt32 _ \<Rightarrow> True | _ \<Rightarrow> False)"
| "conforms TInt64 v = (case v of CInt64 _ \<Rightarrow> True | _ \<Rightarrow> False)"
| "conforms TFloat32 v = (case v of CFloat32 _ \<Rightarrow> True | _ \<Rightarrow> False)"
| "conforms TFloat64 v = (case v of CFloat64 _ \<Rightarrow> True | _ \<Rightarrow> False)"
| "conforms TEnum v = (case v of CEnum _ \<Rightarrow> True | _ \<Rightarrow> False)"
| "conforms TText v = (case v of CText t \<Rightarrow> length t < cp_limit | _ \<Rightarrow> False)"
| "conforms (TList t) v =
     (case v of CList xs \<Rightarrow> length xs < cp_limit \<and> list_all (conforms t) xs | _ \<Rightarrow> False)"
| "conforms (TStruct ts) v =
     (case v of CStruct xs \<Rightarrow> list_all2 (\<lambda>p. p) (map conforms ts) xs | _ \<Rightarrow> False)"

section \<open>Getters\<close>

text \<open>The field number \<open>n\<close> of a struct.\<close>

definition fld :: "nat \<Rightarrow> cp \<Rightarrow> cp option" where
  "fld n r = (case r of CStruct fs \<Rightarrow> if n < length fs then Some (fs ! n) else None | _ \<Rightarrow> None)"

definition getBool :: "nat \<Rightarrow> cp \<Rightarrow> bool" where
  "getBool n r = (case fld n r of Some (CBool b) \<Rightarrow> b | _ \<Rightarrow> False)"

definition getUInt8 :: "nat \<Rightarrow> cp \<Rightarrow> u8" where
  "getUInt8 n r = (case fld n r of Some (CUInt8 w) \<Rightarrow> w | _ \<Rightarrow> 0)"

definition getUInt16 :: "nat \<Rightarrow> cp \<Rightarrow> u16" where
  "getUInt16 n r = (case fld n r of Some (CUInt16 w) \<Rightarrow> w | _ \<Rightarrow> 0)"

definition getUInt32 :: "nat \<Rightarrow> cp \<Rightarrow> u32" where
  "getUInt32 n r = (case fld n r of Some (CUInt32 w) \<Rightarrow> w | _ \<Rightarrow> 0)"

definition getUInt64 :: "nat \<Rightarrow> cp \<Rightarrow> u64" where
  "getUInt64 n r = (case fld n r of Some (CUInt64 w) \<Rightarrow> w | _ \<Rightarrow> 0)"

definition getInt8 :: "nat \<Rightarrow> cp \<Rightarrow> i8" where
  "getInt8 n r = (case fld n r of Some (CInt8 w) \<Rightarrow> w | _ \<Rightarrow> 0)"

definition getInt16 :: "nat \<Rightarrow> cp \<Rightarrow> i16" where
  "getInt16 n r = (case fld n r of Some (CInt16 w) \<Rightarrow> w | _ \<Rightarrow> 0)"

definition getInt32 :: "nat \<Rightarrow> cp \<Rightarrow> i32" where
  "getInt32 n r = (case fld n r of Some (CInt32 w) \<Rightarrow> w | _ \<Rightarrow> 0)"

definition getInt64 :: "nat \<Rightarrow> cp \<Rightarrow> i64" where
  "getInt64 n r = (case fld n r of Some (CInt64 w) \<Rightarrow> w | _ \<Rightarrow> 0)"

definition getFloat32 :: "nat \<Rightarrow> cp \<Rightarrow> rat" where
  "getFloat32 n r = (case fld n r of Some (CFloat32 x) \<Rightarrow> x | _ \<Rightarrow> 0)"

definition getFloat64 :: "nat \<Rightarrow> cp \<Rightarrow> rat" where
  "getFloat64 n r = (case fld n r of Some (CFloat64 x) \<Rightarrow> x | _ \<Rightarrow> 0)"

definition getText :: "nat \<Rightarrow> cp \<Rightarrow> byte list" where
  "getText n r = (case fld n r of Some (CText t) \<Rightarrow> t | _ \<Rightarrow> [])"

definition getEnum :: "nat \<Rightarrow> cp \<Rightarrow> u16" where
  "getEnum n r = (case fld n r of Some (CEnum w) \<Rightarrow> w | _ \<Rightarrow> 0)"

definition getList :: "nat \<Rightarrow> cp \<Rightarrow> cp list" where
  "getList n r = (case fld n r of Some (CList xs) \<Rightarrow> xs | _ \<Rightarrow> [])"

definition getStruct :: "nat \<Rightarrow> cp \<Rightarrow> cp" where
  "getStruct n r = (case fld n r of Some (CStruct xs) \<Rightarrow> CStruct xs | _ \<Rightarrow> CStruct [])"

text \<open>The elements of lists of numbers.\<close>

definition as_uint8 :: "cp \<Rightarrow> u8" where
  "as_uint8 v = (case v of CUInt8 w \<Rightarrow> w | _ \<Rightarrow> 0)"

definition as_uint16 :: "cp \<Rightarrow> u16" where
  "as_uint16 v = (case v of CUInt16 w \<Rightarrow> w | _ \<Rightarrow> 0)"

definition as_float32 :: "cp \<Rightarrow> rat" where
  "as_float32 v = (case v of CFloat32 x \<Rightarrow> x | _ \<Rightarrow> 0)"

text \<open>\<open>Text::Reader::cStr\<close> assigned to a string: the text up to its first NUL.\<close>

definition cStr :: "byte list \<Rightarrow> byte list" where
  "cStr t = takeWhile (\<lambda>c. c \<noteq> 0) t"

lemmas getters = fld_def as_uint8_def as_uint16_def as_float32_def getBool_def getUInt8_def getUInt16_def getUInt32_def getUInt64_def getInt8_def getInt16_def
  getInt32_def getInt64_def getFloat32_def getFloat64_def getText_def getEnum_def getList_def getStruct_def

section \<open>Codecs\<close>

text \<open>
  A specialisation of \<open>CapnpCodec<T>\<close>: the schema named in \<open>initRoot\<close> and \<open>getRoot\<close>, \<open>encode\<close> up to
  \<open>messageToFlatArray\<close>, \<open>decode\<close> from \<open>getRoot\<close> on, and \<open>messageKey\<close>.
\<close>

record 'a codec =
  cd_root :: cp_type
  cd_encode :: "'a \<Rightarrow> cp"
  cd_decode :: "cp \<Rightarrow> 'a"
  cd_key :: u16

text \<open>
  The packing \<open>flat\<close> (\<open>messageToFlatArray\<close>) and \<open>read\<close> (\<open>FlatArrayMessageReader\<close>, \<open>getRoot\<close>, None where it
  throws) of the library: a message that conforms to a schema is read back under it.
\<close>

definition capnp_wire :: "(cp \<Rightarrow> 'w) \<Rightarrow> (cp_type \<Rightarrow> 'w \<Rightarrow> cp option) \<Rightarrow> bool" where
  "capnp_wire flat read \<longleftrightarrow> (\<forall>t v. conforms t v \<longrightarrow> read t (flat v) = Some v)"

definition encode_with :: "(cp \<Rightarrow> 'w) \<Rightarrow> 'a codec \<Rightarrow> 'a \<Rightarrow> u16 \<times> 'w" where
  "encode_with flat c x = (cd_key c, flat (cd_encode c x))"

definition decode_with :: "(cp_type \<Rightarrow> 'w \<Rightarrow> cp option) \<Rightarrow> 'a codec \<Rightarrow> 'w \<Rightarrow> 'a option" where
  "decode_with read c data = map_option (cd_decode c) (read (cd_root c) data)"

text \<open>A codec is sound on \<open>ok\<close> if it encodes to its schema and decodes \<open>x\<close> as \<open>seen x\<close>.\<close>

definition codec_sound :: "'a codec \<Rightarrow> ('a \<Rightarrow> bool) \<Rightarrow> ('a \<Rightarrow> 'a) \<Rightarrow> bool" where
  "codec_sound c ok seen \<longleftrightarrow>
     (\<forall>x. ok x \<longrightarrow> conforms (cd_root c) (cd_encode c x) \<and> cd_decode c (cd_encode c x) = seen x)"

named_theorems codec_rules \<open>the codecs are sound\<close>

lemma codec_soundI:
  "(\<And>x. ok x \<Longrightarrow> conforms (cd_root c) (cd_encode c x)) \<Longrightarrow>
   (\<And>x. ok x \<Longrightarrow> cd_decode c (cd_encode c x) = seen x) \<Longrightarrow> codec_sound c ok seen"
  by (simp add: codec_sound_def)

lemma decode_with_sound:
  "codec_sound c ok seen \<Longrightarrow> capnp_wire flat read \<Longrightarrow> ok x \<Longrightarrow>
     decode_with read c (flat (cd_encode c x)) = Some (seen x)"
  by (simp add: codec_sound_def capnp_wire_def decode_with_def)

lemma list_all_conforms [simp]:
  "list_all (conforms t) (map f xs) \<longleftrightarrow> (\<forall>x \<in> set xs. conforms t (f x))"
  by (simp add: list_all_iff)

lemma map_id_cong: "(\<And>x. x \<in> set xs \<Longrightarrow> f x = x) \<Longrightarrow> map f xs = xs"
  by (rule map_idI)

end
