(* ===== verification/Sds011.thy ===== *)
theory Sds011
  imports Text
begin

text \<open>
  The SDS011 particle sensor (daemon/src/hardware/sds011): \<open>Sds011Parser\<close>, which finds the ten-octet
  messages of the sensor in the serial octet stream, and \<open>Sds011\<close>, which sets the sensor's mode and
  queries it through a transmit queue.
\<close>

section \<open>Events\<close>

record Sds011Event =
  sev_id :: u16
  sev_pm2dot5 :: u16
  sev_pm10dot0 :: u16

record Sds011StatusEvent =
  sst_ackType :: "u8 option"
  sst_sleep :: "bool option"
  sst_queryOnlyMode :: "bool option"
  sst_modeByte :: "u8 option"
  sst_id :: "u16 option"
  sst_firmwareDate :: "byte list option"

datatype Sds011Msg = SdsData Sds011Event | SdsStatus Sds011StatusEvent

section \<open>The parser\<close>

datatype sds_state = SSYNC1 | SSYNC2 | DAT0 | DAT1 | DAT2 | DAT3 | DAT4 | DAT5 | CHKSM | TAIL

datatype sds_type = DATA | ACKN

record sds_parser =
  sp_state :: sds_state
  sp_msgType :: sds_type
  sp_ck_calc :: u8
  sp_data :: "u8 list"

definition sds_init :: sds_parser where
  "sds_init = \<lparr>sp_state = SSYNC1, sp_msgType = DATA, sp_ck_calc = 0, sp_data = replicate 6 0\<rparr>"

definition sds_reset :: "sds_parser \<Rightarrow> sds_parser" where
  "sds_reset s = s\<lparr>sp_state := SSYNC1, sp_ck_calc := 0\<rparr>"

definition sds_ck_update :: "u8 \<Rightarrow> sds_parser \<Rightarrow> sds_parser" where
  "sds_ck_update b s = s\<lparr>sp_ck_calc := sp_ck_calc s + b\<rparr>"

definition le16 :: "u8 \<Rightarrow> u8 \<Rightarrow> u16" where
  "le16 lo hi = ucast lo OR push_bit 8 (ucast hi)"

definition build_data_msg :: "u8 list \<Rightarrow> Sds011Event" where
  "build_data_msg data = \<lparr>sev_id = le16 (data ! 4) (data ! 5), sev_pm2dot5 = le16 (data ! 0) (data ! 1),
     sev_pm10dot0 = le16 (data ! 2) (data ! 3)\<rparr>"

text \<open>\<open>std::setw(2) << std::setfill('0') << std::to_string(n)\<close>\<close>

definition setw2 :: "u8 \<Rightarrow> byte list" where
  "setw2 n = (let t = to_string (unat n) in replicate (2 - length t) 48 @ t)"

definition parseFirmware :: "u8 list \<Rightarrow> byte list" where
  "parseFirmware data =
     [50, 48] @ setw2 (data ! 1) @ [45] @ setw2 (data ! 2) @ [45] @ setw2 (data ! 3)"

definition build_ack_msg :: "u8 list \<Rightarrow> Sds011StatusEvent" where
  "build_ack_msg data =
     (let msg = \<lparr>sst_ackType = Some (data ! 0), sst_sleep = None, sst_queryOnlyMode = None,
                 sst_modeByte = None, sst_id = None, sst_firmwareDate = None\<rparr>
      in if data ! 0 = 2 then msg\<lparr>sst_queryOnlyMode := Some (data ! 2 = 1)\<rparr>
         else if data ! 0 = 5 then msg\<lparr>sst_id := Some (le16 (data ! 4) (data ! 5))\<rparr>
         else if data ! 0 = 6 then msg\<lparr>sst_sleep := Some (data ! 2 = 0)\<rparr>
         else if data ! 0 = 7 then msg\<lparr>sst_firmwareDate := Some (parseFirmware data)\<rparr>
         else if data ! 0 = 8 then msg\<lparr>sst_modeByte := Some (data ! 2)\<rparr>
         else msg)"

definition build_msg :: "sds_type \<Rightarrow> u8 list \<Rightarrow> Sds011Msg" where
  "build_msg t data = (case t of DATA \<Rightarrow> SdsData (build_data_msg data) | ACKN \<Rightarrow> SdsStatus (build_ack_msg data))"

text \<open>A store to \<open>data_[i]\<close> of an array of six octets.\<close>

definition store :: "nat \<Rightarrow> u8 \<Rightarrow> sds_state \<Rightarrow> sds_parser \<Rightarrow> (sds_parser \<times> Sds011Msg list) option" where
  "store i b next s =
     (if i < length (sp_data s)
      then Some ((sds_ck_update b (s\<lparr>sp_data := (sp_data s)[i := b]\<rparr>))\<lparr>sp_state := next\<rparr>, [])
      else None)"

definition sds_step :: "sds_parser \<Rightarrow> byte \<Rightarrow> (sds_parser \<times> Sds011Msg list) option" where
  "sds_step s b =
     (case sp_state s of
        SSYNC1 \<Rightarrow> Some (if b = 0xAA then s\<lparr>sp_state := SSYNC2\<rparr> else s, [])
      | SSYNC2 \<Rightarrow>
          Some (if b = 0xC0 then s\<lparr>sp_state := DAT0, sp_msgType := DATA\<rparr>
                else if b = 0xC5 then s\<lparr>sp_state := DAT0, sp_msgType := ACKN\<rparr>
                else if b = 0xAA then s\<lparr>sp_state := SSYNC2\<rparr>
                else s\<lparr>sp_state := SSYNC1\<rparr>, [])
      | DAT0 \<Rightarrow> store 0 b DAT1 (s\<lparr>sp_ck_calc := 0\<rparr>)
      | DAT1 \<Rightarrow> store 1 b DAT2 s
      | DAT2 \<Rightarrow> store 2 b DAT3 s
      | DAT3 \<Rightarrow> store 3 b DAT4 s
      | DAT4 \<Rightarrow> store 4 b DAT5 s
      | DAT5 \<Rightarrow> store 5 b CHKSM s
      | CHKSM \<Rightarrow> Some (if sp_ck_calc s = b then s\<lparr>sp_state := TAIL\<rparr> else sds_reset s, [])
      | TAIL \<Rightarrow> Some (sds_reset s, if b = 0xAB then [build_msg (sp_msgType s) (sp_data s)] else []))"

definition sds_feed :: "sds_parser \<Rightarrow> byte list \<Rightarrow> (sds_parser \<times> Sds011Msg list) option" where
  "sds_feed = feed_with sds_step"

definition sds_inv :: "sds_parser \<Rightarrow> bool" where
  "sds_inv s \<longleftrightarrow> length (sp_data s) = 6"

interpretation sds: byte_parser sds_step sds_inv "\<lambda>m. True"
  by unfold_locales
    (auto simp: sds_step_def store_def sds_inv_def sds_reset_def sds_ck_update_def
      split: sds_state.splits)

section \<open>Frames\<close>

definition sds_idle :: "sds_parser \<Rightarrow> bool" where
  "sds_idle s \<longleftrightarrow> sp_state s = SSYNC1 \<and> sds_inv s"

text \<open>The message of the sensor that carries six octets.\<close>

definition sds_frame :: "sds_type \<times> u8 list \<Rightarrow> byte list" where
  "sds_frame = (\<lambda>(t, data). [0xAA, case t of DATA \<Rightarrow> 0xC0 | ACKN \<Rightarrow> 0xC5] @ data @ [sum_list data, 0xAB])"

lemma six: "length xs = 6 \<longleftrightarrow> (\<exists>a b c d e f. xs = [a, b, c, d, e, f])"
  by (auto simp: length_Suc_conv eval_nat_numeral)

lemmas sds_steps = sds_step_def store_def sds_reset_def sds_ck_update_def build_msg_def

lemma sds_frame_step:
  assumes "sds_idle s" and "length (snd x) = 6"
  shows "\<exists>s'. feed_with sds_step s (sds_frame x) = Some (s', [build_msg (fst x) (snd x)]) \<and> sds_idle s'"
proof -
  obtain t data where x: "x = (t, data)" by fastforce
  obtain a b c d e f where data: "data = [a, b, c, d, e, f]" using assms(2) by (auto simp: x six)
  obtain a' b' c' d' e' f' where old: "sp_data s = [a', b', c', d', e', f']" "sp_state s = SSYNC1"
    using assms(1) by (auto simp: sds_idle_def sds_inv_def six)
  show ?thesis
    by (cases t) (simp_all add: x data old sds_frame_def sds_steps sds_idle_def sds_inv_def add.assoc)
qed

lemma sds_init_idle: "sds_idle sds_init" "sds_inv sds_init"
  by (simp_all add: sds_idle_def sds_inv_def sds_init_def)

text \<open>A message with one altered octet among its data, its checksum or its tail is dropped.\<close>

lemma altered_dropped:
  assumes "sds_idle s" and "length data = 6" and "2 \<le> k" and "k < 10" and "x \<noteq> sds_frame (t, data) ! k"
  shows "\<exists>s'. feed_with sds_step s ((sds_frame (t, data))[k := x]) = Some (s', []) \<and> sds_idle s'"
proof -
  obtain a b c d e f where data: "data = [a, b, c, d, e, f]" using assms(2) by (auto simp: six)
  obtain a' b' c' d' e' f' where old: "sp_data s = [a', b', c', d', e', f']" "sp_state s = SSYNC1"
    using assms(1) by (auto simp: sds_idle_def sds_inv_def six)
  have "k \<in> {2, 3, 4, 5, 6, 7, 8, 9}" using assms(3,4) by auto
  then show ?thesis using assms(5)
    by (cases t; elim insertE)
      (simp_all add: data old sds_frame_def sds_steps sds_idle_def sds_inv_def add.assoc)
qed

section \<open>What the sensor sends\<close>

text \<open>
  The messages of the sensor by their content, as its data sheet lays them out: a measurement, or the answer to a command,
  which says first which command it answers and whether that set a value, and ends with the number of the device.
\<close>

datatype sds_answer =
    Measured Sds011Event
  | Reporting_Answer bool bool u16
  | Id_Answer u16
  | Sleep_Answer bool bool u16
  | Firmware_Answer u8 u8 u8 u16
  | Period_Answer bool u8 u16

definition le_octets :: "u16 \<Rightarrow> u8 list" where
  "le_octets w = [ucast w, ucast (drop_bit 8 w)]"

definition flag :: "bool \<Rightarrow> u8" where
  "flag b = (if b then 1 else 0)"

fun sensor_frame :: "sds_answer \<Rightarrow> sds_type \<times> u8 list" where
  "sensor_frame (Measured e) = (DATA, le_octets (sev_pm2dot5 e) @ le_octets (sev_pm10dot0 e) @ le_octets (sev_id e))"
| "sensor_frame (Reporting_Answer was_set query dev) = (ACKN, [2, flag was_set, flag query, 0] @ le_octets dev)"
| "sensor_frame (Id_Answer dev) = (ACKN, [5, 0, 0, 0] @ le_octets dev)"
| "sensor_frame (Sleep_Answer was_set sleep dev) = (ACKN, [6, flag was_set, flag (\<not> sleep), 0] @ le_octets dev)"
| "sensor_frame (Firmware_Answer year month day dev) = (ACKN, [7, year, month, day] @ le_octets dev)"
| "sensor_frame (Period_Answer was_set minutes dev) = (ACKN, [8, flag was_set, minutes, 0] @ le_octets dev)"

text \<open>What is to be published of each: only the answer with the number of the device carries it on.\<close>

definition two_digits :: "u8 \<Rightarrow> byte list" where
  "two_digits n = [0x30 + n div 10, 0x30 + n mod 10]"

definition answers :: "u8 \<Rightarrow> Sds011StatusEvent" where
  "answers c = \<lparr>sst_ackType = Some c, sst_sleep = None, sst_queryOnlyMode = None, sst_modeByte = None, sst_id = None, sst_firmwareDate = None\<rparr>"

fun sensor_message :: "sds_answer \<Rightarrow> Sds011Msg" where
  "sensor_message (Measured e) = SdsData e"
| "sensor_message (Reporting_Answer was_set query dev) = SdsStatus ((answers 2)\<lparr>sst_queryOnlyMode := Some query\<rparr>)"
| "sensor_message (Id_Answer dev) = SdsStatus ((answers 5)\<lparr>sst_id := Some dev\<rparr>)"
| "sensor_message (Sleep_Answer was_set sleep dev) = SdsStatus ((answers 6)\<lparr>sst_sleep := Some sleep\<rparr>)"
| "sensor_message (Firmware_Answer year month day dev) = SdsStatus ((answers 7)\<lparr>sst_firmwareDate :=
     Some ([0x32, 0x30] @ two_digits year @ [0x2d] @ two_digits month @ [0x2d] @ two_digits day)\<rparr>)"
| "sensor_message (Period_Answer was_set minutes dev) = SdsStatus ((answers 8)\<lparr>sst_modeByte := Some minutes\<rparr>)"

fun sensor_date :: "sds_answer \<Rightarrow> bool" where
  "sensor_date (Firmware_Answer year month day dev) \<longleftrightarrow> year < 100 \<and> month < 100 \<and> day < 100"
| "sensor_date _ \<longleftrightarrow> True"

text \<open>On the line: a message, or one in which an octet behind the first two was altered.\<close>

datatype sensor_item = Whole sds_answer | Altered sds_answer nat u8

fun item_octets :: "sensor_item \<Rightarrow> byte list" where
  "item_octets (Whole a) = sds_frame (sensor_frame a)"
| "item_octets (Altered a k x) = (sds_frame (sensor_frame a))[k := x]"

fun item_messages :: "sensor_item \<Rightarrow> Sds011Msg list" where
  "item_messages (Whole a) = [sensor_message a]"
| "item_messages (Altered a k x) = []"

fun good_item :: "sensor_item \<Rightarrow> bool" where
  "good_item (Whole a) \<longleftrightarrow> sensor_date a"
| "good_item (Altered a k x) \<longleftrightarrow> 2 \<le> k \<and> k < 10 \<and> x \<noteq> sds_frame (sensor_frame a) ! k"

lemma le16_octets: "le16 (ucast w) (ucast (drop_bit 8 w)) = w"
proof -
  have "bit (le16 (ucast w) (ucast (drop_bit 8 w))) n = bit w n" if "n < 16" for n
    using that by (cases "n < 8") (auto simp: le16_def bit_simps)
  then show ?thesis by (intro bit_word_eqI) simp
qed

lemma setw2_two_digits: assumes "n < 100" shows "setw2 n = two_digits n"
proof -
  have "unat n < 100" using assms by (simp add: word_less_nat_alt)
  moreover from this have "unat n div 10 < 10" by simp
  moreover have "n div 10 = word_of_nat (unat n div 10)" "n mod 10 = word_of_nat (unat n mod 10)"
    using calculation by (simp_all add: word_unat_eq_iff unat_div unat_mod unat_of_nat)
  ultimately show ?thesis
    by (cases "unat n < 10") (simp_all add: setw2_def two_digits_def Let_def to_string.simps [of "unat n"] to_string.simps [of "unat n div 10"]
        digit_char_def)
qed

lemma build_sensor: "sensor_date a \<Longrightarrow> build_msg (fst (sensor_frame a)) (snd (sensor_frame a)) = sensor_message a"
  by (cases a) (simp_all add: build_msg_def build_data_msg_def build_ack_msg_def le_octets_def le16_octets answers_def flag_def
      parseFirmware_def setw2_two_digits)

lemma sensor_frame_length: "length (snd (sensor_frame a)) = 6"
  by (cases a) (simp_all add: le_octets_def)

lemma item_step:
  assumes "sds_idle s" and "good_item i"
  shows "\<exists>s'. feed_with sds_step s (item_octets i) = Some (s', item_messages i) \<and> sds_idle s'"
proof (cases i)
  case (Whole a)
  then show ?thesis using sds_frame_step [OF assms(1) sensor_frame_length, of a] assms(2) by (simp add: build_sensor)
next
  case (Altered a k x)
  obtain t data where f: "sensor_frame a = (t, data)" by fastforce
  then show ?thesis using altered_dropped [OF assms(1), of data k x t] sensor_frame_length [of a] assms(2) by (simp add: Altered)
qed

interpretation sds_items: framed_parser sds_step sds_inv "\<lambda>m. True" sds_idle item_octets good_item item_messages
  by unfold_locales (rule item_step)

text \<open>
  C8: What the particle sensor sends is published. Whatever measurements and answers the sensor sends, however the serial
  reads cut the stream, and if some of the messages arrive with one octet of their data, checksum or tail altered:
  \<open>Sds011Parser::feed\<close> delivers exactly the messages that are whole, in order, each with the values the sensor put in,
  and the parser is ready for the next one.
\<close>

theorem sds_messages_delivered:
  assumes "sds_idle s" and "list_all good_item items" and "concat chunks = concat (map item_octets items)"
  shows "\<exists>s'. feed_chunks sds_step s chunks = Some (s', concat (map item_messages items)) \<and> sds_idle s'"
  using sds_items.feed_chunked_frames [OF assms(1) _ assms(3)] assms(2) by (simp add: list_all_iff)

theorem sds_messages_delivered_witness:
  "\<exists>s'. feed_chunks sds_step sds_init [[0xAA], [0xC0, 0x10, 0, 0x20, 0, 1, 2], [0x33, 0xAB, 0xAA, 0xC5, 6, 1, 0, 0, 1, 2, 9, 0xAB, 0xAA],
        [0xC5, 7, 18, 11, 16, 1, 2, 55, 0xAB]]
    = Some (s', [SdsData \<lparr>sev_id = 0x0201, sev_pm2dot5 = 0x10, sev_pm10dot0 = 0x20\<rparr>,
        SdsStatus ((answers 7)\<lparr>sst_firmwareDate := Some ([0x32, 0x30, 0x31, 0x38, 0x2d, 0x31, 0x31, 0x2d, 0x31, 0x36])\<rparr>)]) \<and> sds_idle s'"
proof -
  let ?m = "Whole (Measured \<lparr>sev_id = 0x0201, sev_pm2dot5 = 0x10, sev_pm10dot0 = 0x20\<rparr>)"
  let ?a = "Altered (Sleep_Answer True True 0x0201) 8 9"
  let ?f = "Whole (Firmware_Answer 18 11 16 0x0201)"
  show ?thesis
    using sds_messages_delivered [OF sds_init_idle(1), of "[?m, ?a, ?f]"
      "[[0xAA], [0xC0, 0x10, 0, 0x20, 0, 1, 2], [0x33, 0xAB, 0xAA, 0xC5, 6, 1, 0, 0, 1, 2, 9, 0xAB, 0xAA],
        [0xC5, 7, 18, 11, 16, 1, 2, 55, 0xAB]]"]
    by (simp add: sds_frame_def le_octets_def flag_def two_digits_def)
qed

section \<open>The driver\<close>

datatype sds_mode = Continuous | Sleep | Interval

datatype sds_command = ReportingMode | QueryData | DeviceID | SleepAndWork | FirmwareVersion | WorkingPeriod

definition command_value :: "sds_command \<Rightarrow> u8" where
  "command_value c = (case c of ReportingMode \<Rightarrow> 2 | QueryData \<Rightarrow> 4 | DeviceID \<Rightarrow> 5 | SleepAndWork \<Rightarrow> 6
     | FirmwareVersion \<Rightarrow> 7 | WorkingPeriod \<Rightarrow> 8)"

record sds =
  sd_tx_tasks :: "byte list list"
  sd_tx_queue :: "byte list list"
  sd_writing :: "byte list list"
  sd_wire :: "byte list list"
  sd_reading :: bool
  sd_parser :: sds_parser
  sd_published :: "Sds011Msg list"
  sd_subscribed :: bool

definition sds_constructed :: sds where
  "sds_constructed = \<lparr>sd_tx_tasks = [], sd_tx_queue = [], sd_writing = [], sd_wire = [],
     sd_reading = False, sd_parser = sds_init, sd_published = [], sd_subscribed = False\<rparr>"

definition enqueue_sds :: "byte list \<Rightarrow> sds \<Rightarrow> sds" where
  "enqueue_sds msg s = s\<lparr>sd_tx_tasks := sd_tx_tasks s @ [msg]\<rparr>"

definition sds_do_write :: "sds \<Rightarrow> sds" where
  "sds_do_write s = s\<lparr>sd_writing := sd_writing s @ [hd (sd_tx_queue s)]\<rparr>"

definition sds_tx_post :: "byte list \<Rightarrow> sds \<Rightarrow> sds" where
  "sds_tx_post msg s =
     (let write_in_progress = sd_tx_queue s \<noteq> [];
          s = s\<lparr>sd_tx_queue := sd_tx_queue s @ [msg]\<rparr>
      in if \<not> write_in_progress then sds_do_write s else s)"

definition sds_write_handler :: "bool \<Rightarrow> sds \<Rightarrow> sds" where
  "sds_write_handler ec s =
     (let frame = hd (sd_writing s); s = s\<lparr>sd_writing := tl (sd_writing s)\<rparr>
      in if ec then s
         else (let s = s\<lparr>sd_wire := sd_wire s @ [frame], sd_tx_queue := tl (sd_tx_queue s)\<rparr>
               in if sd_tx_queue s \<noteq> [] then sds_do_write s else s))"

interpretation sds_tx: write_queue sds_tx_post "sds_write_handler False" sd_tx_queue sd_writing sd_wire
  by unfold_locales (auto simp: sds_tx_post_def sds_write_handler_def sds_do_write_def Let_def take_Suc)

text \<open>
  \<open>setMode\<close>: the case \<open>Interval\<close> has no \<open>break\<close> and runs into the default case, which returns.
\<close>

definition period_message :: "u8 \<Rightarrow> byte list" where
  "period_message modeByte =
     (let checksum = 0x08 + 0x01 + modeByte + 0xff + 0xff
      in [0xAA, 0xB4, 0x08, 0x01, modeByte] @ replicate 10 0 @ [0xFF, 0xFF, checksum, 0xAB])"

definition sleep_message :: "bool \<Rightarrow> byte list" where
  "sleep_message sleep =
     (let sleepByte = (if sleep then 0x00 else 0x01);
          checksum = 0x06 + 0x01 + sleepByte + 0xff + 0xff
      in [0xAA, 0xB4, 0x06, 0x01, sleepByte] @ replicate 10 0 @ [0xFF, 0xFF, checksum, 0xAB])"

definition setMode :: "sds_mode \<Rightarrow> u8 \<Rightarrow> sds \<Rightarrow> sds" where
  "setMode mode n_sleep s =
     (case mode of
        Continuous \<Rightarrow> enqueue_sds (sleep_message False) (enqueue_sds (period_message 0x00) s)
      | Sleep \<Rightarrow> enqueue_sds (sleep_message True) s
      | Interval \<Rightarrow> s)"

definition query :: "sds_command \<Rightarrow> sds \<Rightarrow> sds" where
  "query c s =
     (let checksum = command_value c + 0xff + 0xff
      in enqueue_sds ([0xAA, 0xB4, command_value c] @ replicate 12 0 @ [0xFF, 0xFF, checksum, 0xAB]) s)"

text \<open>\<open>opened\<close> is what the operating system reports when the port is opened.\<close>

definition sds_makeConnection :: "bool \<Rightarrow> sds \<Rightarrow> sds option" where
  "sds_makeConnection opened s = (if opened then Some (s\<lparr>sd_reading := True\<rparr>) else None)"

definition sds_construct :: "bool \<Rightarrow> u8 \<Rightarrow> sds" where
  "sds_construct opened n_sleep =
     (case sds_makeConnection opened sds_constructed of
        None \<Rightarrow> sds_constructed
      | Some s \<Rightarrow>
          (let s = s\<lparr>sd_subscribed := True\<rparr>
           in if n_sleep = 0 then setMode Continuous 1 s else setMode Interval n_sleep s))"

definition sds_read_handler :: "bool \<Rightarrow> byte list \<Rightarrow> sds \<Rightarrow> sds option" where
  "sds_read_handler ec bs s =
     (if ec then Some (s\<lparr>sd_reading := False\<rparr>)
      else (case sds_feed (sd_parser s) bs of None \<Rightarrow> None
            | Some (p, msgs) \<Rightarrow>
                Some (s\<lparr>sd_parser := p, sd_published := sd_published s @ msgs\<rparr>)))"

section \<open>Commands\<close>

text \<open>A command message: 19 octets between the markers, checksum over octets 2 to 16.\<close>

definition valid_command :: "byte list \<Rightarrow> bool" where
  "valid_command m \<longleftrightarrow> length m = 19 \<and> m ! 0 = 0xAA \<and> m ! 1 = 0xB4 \<and> m ! 15 = 0xFF \<and> m ! 16 = 0xFF
     \<and> m ! 17 = sum_list (take 15 (drop 2 m)) \<and> m ! 18 = 0xAB"

lemma valid_commands:
  "valid_command (period_message b)" "valid_command (sleep_message sl)"
  "valid_command ([0xAA, 0xB4, v] @ replicate 12 0 @ [0xFF, 0xFF, v + 0xff + 0xff, 0xAB])"
  by (simp_all add: valid_command_def period_message_def sleep_message_def Let_def eval_nat_numeral add.assoc)

text \<open>Runs of the driver.\<close>

inductive sds_step_driver :: "sds \<Rightarrow> sds \<Rightarrow> bool" where
  set_mode: "sds_step_driver s (setMode mode n s)"
| ask: "sds_step_driver s (query c s)"
| tx_run: "sd_tx_tasks s = m # ms \<Longrightarrow> sds_step_driver s (sds_tx_post m (s\<lparr>sd_tx_tasks := ms\<rparr>))"
| written: "sd_writing s \<noteq> [] \<Longrightarrow> sds_step_driver s (sds_write_handler ec s)"
| read: "sd_reading s \<Longrightarrow> sds_read_handler ec bs s = Some s' \<Longrightarrow> sds_step_driver s s'"

inductive sds_reachable :: "sds \<Rightarrow> bool" where
  start: "sds_reachable (sds_construct opened n_sleep)"
| step: "sds_reachable s \<Longrightarrow> sds_step_driver s s' \<Longrightarrow> sds_reachable s'"

definition sds_outgoing :: "sds \<Rightarrow> byte list list" where
  "sds_outgoing s = sd_wire s @ sd_tx_queue s @ sd_tx_tasks s"

definition sds_ok :: "sds \<Rightarrow> bool" where
  "sds_ok s \<longleftrightarrow> (sd_writing s = [] \<or> sd_tx_queue s \<noteq> [] \<and> sd_writing s = [hd (sd_tx_queue s)]) \<and> (\<forall>m \<in> set (sds_outgoing s). valid_command m)
     \<and> sds_inv (sd_parser s)"

lemma enqueue_ok: "sds_ok s \<Longrightarrow> valid_command m \<Longrightarrow> sds_ok (enqueue_sds m s)"
  by (auto simp: sds_ok_def sds_outgoing_def enqueue_sds_def)

lemma setMode_ok: "sds_ok s \<Longrightarrow> sds_ok (setMode mode n s)"
  by (auto simp: setMode_def intro!: enqueue_ok valid_commands split: sds_mode.splits)

lemma query_ok: "sds_ok s \<Longrightarrow> sds_ok (query c s)"
  unfolding query_def Let_def by (rule enqueue_ok, assumption, rule valid_commands(3))

lemma read_ok: "sds_read_handler ec bs s = Some s' \<Longrightarrow> sds_ok s \<Longrightarrow> sds_ok s'"
  by (auto simp: sds_read_handler_def sds_feed_def sds_ok_def sds_outgoing_def
      dest: sds.feed_inv split: if_splits option.splits)

lemma driver_step_ok: "sds_step_driver s s' \<Longrightarrow> sds_ok s \<Longrightarrow> sds_ok s'"
proof (induction rule: sds_step_driver.induct)
  case (tx_run s m ms)
  then show ?case by (auto simp: sds_ok_def sds_outgoing_def sds_tx_post_def sds_do_write_def Let_def)
next
  case (written s ec)
  then show ?case
    by (auto simp: sds_ok_def sds_outgoing_def sds_write_handler_def sds_do_write_def Let_def neq_Nil_conv)
qed (auto intro: setMode_ok query_ok read_ok)

lemma sds_reachable_ok: "sds_reachable s \<Longrightarrow> sds_ok s"
proof (induction rule: sds_reachable.induct)
  case (start opened n_sleep)
  have "sds_ok sds_constructed" "sds_ok (sds_constructed\<lparr>sd_reading := True, sd_subscribed := True\<rparr>)"
    by (simp_all add: sds_ok_def sds_outgoing_def sds_constructed_def sds_init_idle)
  then show ?case
    by (auto simp: sds_construct_def sds_makeConnection_def Let_def intro!: setMode_ok split: option.splits)
qed (rule driver_step_ok)

text \<open>
  every message the driver ever sends is a well-formed command with a valid checksum:
  whatever modes are set and whatever is queried, all frames on the wire, in the queue and posted to
  the strand are.
\<close>

theorem sds_commands_valid:
  assumes "sds_reachable s" and "m \<in> set (sd_wire s @ sd_tx_queue s @ sd_tx_tasks s)"
  shows "valid_command m"
  using sds_reachable_ok [OF assms(1)] assms(2) unfolding sds_ok_def sds_outgoing_def by blast

theorem sds_commands_valid_witness:
  "\<exists>m. sd_tx_tasks (sds_construct True 0) = [period_message 0, m] \<and> valid_command m"
proof -
  obtain m where m: "sd_tx_tasks (sds_construct True 0) = [period_message 0, m]"
    by (simp add: sds_construct_def sds_makeConnection_def sds_constructed_def setMode_def enqueue_sds_def)
  with sds_commands_valid [OF sds_reachable.start [of True 0], of m] show ?thesis by simp
qed

text \<open>
  the sensor cannot be put into interval mode. \<open>setMode(Mode::Interval, n)\<close> sends nothing at all,
  since the case has no break, so a driver constructed with a sleep time, which is meant to set the
  working period, leaves the sensor as it is; continuous mode sends its two commands.
\<close>

theorem interval_mode_sends_nothing:
  "sd_tx_tasks (setMode Interval n s) = sd_tx_tasks s
   \<and> sd_tx_tasks (sds_construct True n) =
        (if n = 0 then [period_message 0, sleep_message False] else [])"
  by (simp add: setMode_def sds_construct_def sds_makeConnection_def sds_constructed_def enqueue_sds_def)

end
