(* ===== verification/Histogram.thy ===== *)
theory Histogram
  imports Prelude Ieee_Double
begin

text \<open>
  The class \<open>Histogram\<close> (\<open>library/src/data/histogram.cpp\<close>). A \<open>double\<close> is the rational it denotes and
  every operation rounds; \<open>int\<close> members stand for themselves. The target is 64-bit ARM Linux, where
  \<open>std::lround\<close> saturates at the bounds of a 64-bit \<open>long\<close>, which the cast to \<open>int\<close> then cuts.
\<close>

record Histogram =
  h_name :: "byte list"
  h_unit :: "byte list"
  h_nrBins :: int
  h_min :: rat
  h_max :: rat
  h_overflow :: rat
  h_underflow :: rat
  h_map :: "(int \<times> rat) list"
  h_autoscale :: bool

text \<open>The \<open>std::map\<close> is kept as its entries in the order of their keys.\<close>

fun map_put :: "int \<Rightarrow> rat \<Rightarrow> (int \<times> rat) list \<Rightarrow> (int \<times> rat) list" where
  "map_put k v [] = [(k, v)]"
| "map_put k v ((j, w) # m) =
     (if k < j then (k, v) # (j, w) # m else if k = j then (k, v) # m else (j, w) # map_put k v m)"

definition map_at :: "int \<Rightarrow> (int \<times> rat) list \<Rightarrow> rat" where
  "map_at k m = (case map_of m k of None \<Rightarrow> 0 | Some v \<Rightarrow> v)"

definition map_add_at :: "int \<Rightarrow> rat \<Rightarrow> (int \<times> rat) list \<Rightarrow> (int \<times> rat) list" where
  "map_add_at k v m = map_put k (double (map_at k m + v)) m"

definition histogram :: "byte list \<Rightarrow> int \<Rightarrow> rat \<Rightarrow> rat \<Rightarrow> bool \<Rightarrow> byte list \<Rightarrow> Histogram" where
  "histogram name nrBins lo hi autoscale unit =
     \<lparr>h_name = name, h_unit = unit, h_nrBins = nrBins, h_min = lo, h_max = hi, h_overflow = 0,
      h_underflow = 0, h_map = [], h_autoscale = autoscale\<rparr>"

definition hist_clear :: "Histogram \<Rightarrow> Histogram" where
  "hist_clear h = h\<lparr>h_map := [], h_underflow := 0, h_overflow := 0\<rparr>"

definition setNrBins :: "int \<Rightarrow> Histogram \<Rightarrow> Histogram" where
  "setNrBins bins h = hist_clear (h\<lparr>h_nrBins := bins\<rparr>)"

definition setName :: "byte list \<Rightarrow> Histogram \<Rightarrow> Histogram" where
  "setName name h = h\<lparr>h_name := name\<rparr>"

definition setUnit :: "byte list \<Rightarrow> Histogram \<Rightarrow> Histogram" where
  "setUnit unit h = h\<lparr>h_unit := unit\<rparr>"

definition setMin :: "rat \<Rightarrow> Histogram \<Rightarrow> Histogram" where
  "setMin val h = h\<lparr>h_min := val\<rparr>"

definition setMax :: "rat \<Rightarrow> Histogram \<Rightarrow> Histogram" where
  "setMax val h = h\<lparr>h_max := val\<rparr>"

definition setAutoscale :: "bool \<Rightarrow> Histogram \<Rightarrow> Histogram" where
  "setAutoscale autoscale h = h\<lparr>h_autoscale := autoscale\<rparr>"

definition getRange :: "Histogram \<Rightarrow> rat" where
  "getRange h = double (h_max h - h_min h)"

definition getCenter :: "Histogram \<Rightarrow> rat" where
  "getCenter h = double (double (1 / 2 * getRange h) + h_min h)"

text \<open>The cast to \<open>int\<close>.\<close>

definition to_int :: "int \<Rightarrow> int" where
  "to_int n = sint (word_of_int n :: i32)"

definition value2Bin :: "Histogram \<Rightarrow> rat \<Rightarrow> int" where
  "value2Bin h value =
     (if getRange h \<le> 0 then -1
      else to_int (lround (double (double (double (value - h_min h) / getRange h) * of_int (h_nrBins h - 1)))))"

definition bin2Value :: "Histogram \<Rightarrow> int \<Rightarrow> rat" where
  "bin2Value h bin =
     (if getRange h \<le> 0 then -1
      else double (double (double (getRange h * of_int bin) / of_int (h_nrBins h - 1)) + h_min h))"

definition epsilon :: rat where
  "epsilon = pow2 (- 52)"

definition occupied :: "int \<times> rat \<Rightarrow> bool" where
  "occupied e \<longleftrightarrow> \<bar>snd e\<bar> > epsilon"

definition getLowestOccupiedBin :: "Histogram \<Rightarrow> int" where
  "getLowestOccupiedBin h = (case filter occupied (h_map h) of [] \<Rightarrow> -1 | e # _ \<Rightarrow> fst e)"

definition getHighestOccupiedBin :: "Histogram \<Rightarrow> int" where
  "getHighestOccupiedBin h = (case filter occupied (rev (h_map h)) of [] \<Rightarrow> -1 | e # _ \<Rightarrow> fst e)"

definition getEntries :: "Histogram \<Rightarrow> rat" where
  "getEntries h = fold (\<lambda>e acc. double (acc + snd e)) (h_map h) (double (h_underflow h + h_overflow h))"

definition setBinContent :: "int \<Rightarrow> rat \<Rightarrow> Histogram \<Rightarrow> Histogram" where
  "setBinContent bin v h =
     (if 0 \<le> bin \<and> bin < h_nrBins h then h\<lparr>h_map := map_put bin v (h_map h)\<rparr> else h)"

definition getBinContent :: "Histogram \<Rightarrow> int \<Rightarrow> rat" where
  "getBinContent h bin = (if 0 \<le> bin \<and> bin < h_nrBins h then map_at bin (h_map h) else 0)"

definition getMean :: "Histogram \<Rightarrow> rat" where
  "getMean h =
     (case fold (\<lambda>(bin, content) (entries, acc).
             (double (entries + content), double (acc + double (bin2Value h bin * content)))) (h_map h) (0, 0) of
        (entries, acc) \<Rightarrow> if entries > 0 then double (acc / entries) else 0)"

definition getRMS :: "Histogram \<Rightarrow> rat" where
  "getRMS h =
     (let mean = getMean h
      in case fold (\<lambda>(bin, content) (entries, acc).
             (let dx = double (bin2Value h bin - mean)
              in (double (entries + content), double (acc + double (double (dx * dx) * content))))) (h_map h) (0, 0) of
        (entries, acc) \<Rightarrow> if 1 < entries then double_sqrt (double (acc / double (entries - 1))) else 0)"

fun median_loop :: "Histogram \<Rightarrow> rat \<Rightarrow> rat \<Rightarrow> (int \<times> rat) list \<Rightarrow> rat" where
  "median_loop h half_entries binsum [] = 0"
| "median_loop h half_entries binsum ((bin, content) # m) =
     (if double (binsum + content) > half_entries then bin2Value h bin
      else median_loop h half_entries (double (binsum + content)) m)"

definition getMedian :: "Histogram \<Rightarrow> rat" where
  "getMedian h = median_loop h (double (getEntries h / 2)) 0 (h_map h)"

definition getMpv :: "Histogram \<Rightarrow> rat" where
  "getMpv h =
     bin2Value h (fst (fold (\<lambda>(bin, content) (highest_bin, highest).
       if content > highest then (bin, content) else (highest_bin, highest)) (h_map h) (0, double (1 / 10 ^ 12))))"

section \<open>Filling and rescaling\<close>

text \<open>Where an entry of the given bin goes: underflow, overflow or its bin.\<close>

definition count_at :: "int \<Rightarrow> rat \<Rightarrow> Histogram \<Rightarrow> Histogram" where
  "count_at bin mult h =
     (if bin < 0 then h\<lparr>h_underflow := double (h_underflow h + mult)\<rparr>
      else if bin \<ge> h_nrBins h then h\<lparr>h_overflow := double (h_overflow h + mult)\<rparr>
      else h\<lparr>h_map := map_add_at bin mult (h_map h)\<rparr>)"

text \<open>The content of a bin of the old histogram, put where its value lies in the new one.\<close>

definition move_entry :: "Histogram \<Rightarrow> int \<times> rat \<Rightarrow> Histogram \<Rightarrow> Histogram" where
  "move_entry old = (\<lambda>(oldBin, content) h.
     if \<bar>content\<bar> \<le> epsilon then h
     else (let value = double (double (double (getRange old * of_int oldBin) / of_int (h_nrBins old - 1)) + h_min old)
           in count_at (value2Bin h value) content h))"

definition rescale_to :: "rat \<Rightarrow> rat \<Rightarrow> Histogram \<Rightarrow> Histogram" where
  "rescale_to center width h =
     (if width \<le> 0 then h
      else (let h' = hist_clear (h\<lparr>h_min := double (center - double (width / 2)),
                                   h_max := double (center + double (width / 2))\<rparr>)
            in if getRange h \<le> 0 \<or> h_nrBins h \<le> 1 then h'
               else fold (move_entry h) (h_map h) h'))"

definition rescale_center :: "rat \<Rightarrow> Histogram \<Rightarrow> Histogram" where
  "rescale_center center h = rescale_to center (getRange h) h"

definition rescale_auto :: "Histogram \<Rightarrow> Histogram" where
  "rescale_auto h =
     (if \<not> h_autoscale h then h
      else
        (let entries = getEntries h
         in if entries < 3 then h
            else
              (let ufl = h_underflow h;
                   ofl = h_overflow h;
                   entries = double (entries - double (ufl + ofl));
                   range = getRange h;
                   lowest = getLowestOccupiedBin h;
                   highest = getHighestOccupiedBin h;
                   lowestEntry = bin2Value h lowest;
                   highestEntry = bin2Value h highest
               in if ufl > 0 \<and> ofl > 0 \<and> double (ufl + ofl) > double (double (1 / 100) * entries) then
                    rescale_to (double (double (1 / 2 * range) + h_min h)) (double (double (11 / 10) * range)) h
                  else if ufl > double (double (5 / 1000) * entries) then
                    (let newMin = double (h_max h - double (range * double (12 / 10)))
                     in rescale_to (double (1 / 2 * double (newMin + h_max h))) (double (h_max h - newMin)) h)
                  else if ofl > double (double (5 / 1000) * entries) then
                    (let newMax = double (h_min h + double (range * double (12 / 10)))
                     in rescale_to (double (1 / 2 * double (h_min h + newMax))) (double (newMax - h_min h)) h)
                  else if ufl < double (1 / 1000) \<and> ofl < double (1 / 1000)
                      \<and> entries > 100 \<and> double (of_int (highest - lowest) / of_int (h_nrBins h)) < double (5 / 100) then
                    rescale_to (double (double (1 / 2 * double (highestEntry - lowestEntry)) + lowestEntry))
                      (double (double (8 / 10) * range)) h
                  else h)))"

text \<open>The initial fill of an autoscaling histogram rescales it to a value that lies outside.\<close>

definition must_rescale :: "rat \<Rightarrow> Histogram \<Rightarrow> bool" where
  "must_rescale x h \<longleftrightarrow> h_autoscale h \<and> getEntries h < double (1 / 10 ^ 6)
     \<and> (value2Bin h x < 0 \<or> value2Bin h x \<ge> h_nrBins h)"

text \<open>\<open>fill\<close> calls itself after rescaling; None is a call that never returns.\<close>

partial_function (option) fill :: "rat \<Rightarrow> rat \<Rightarrow> Histogram \<Rightarrow> Histogram option" where
  "fill x mult h =
     (if must_rescale x h then fill x mult (rescale_center x h) else Some (count_at (value2Bin h x) mult h))"

section \<open>Filling ends\<close>

lemma sint_small: "- (2 ^ 31) \<le> n \<Longrightarrow> n < 2 ^ 31 \<Longrightarrow> to_int n = n"
  by (simp add: to_int_def signed_of_int signed_take_bit_int_eq_self)

text \<open>A value between the bounds of the histogram lies in one of its bins.\<close>

lemma value2Bin_inside:
  assumes "0 < getRange h" and "h_min h \<le> x" and "x \<le> h_max h" and "1 \<le> h_nrBins h" and "h_nrBins h < 2 ^ 31"
  shows "0 \<le> value2Bin h x \<and> value2Bin h x < h_nrBins h"
proof -
  define r where "r = getRange h"
  define q where "q = double (double (x - h_min h) / r)"
  have "double (x - h_min h) \<le> r" unfolding r_def getRange_def using assms(3) by (intro double_mono) simp
  then have "double (x - h_min h) / r \<le> 1" using assms(1) by (simp add: r_def)
  then have q1: "q \<le> 1" unfolding q_def using double_mono [of _ 1] double_of_int [of 1] by simp
  have "0 \<le> double (x - h_min h)" using assms(2) double_mono [of 0] by (simp add: double_def)
  then have "0 \<le> double (x - h_min h) / r" using assms(1) by (simp add: r_def)
  then have q0: "0 \<le> q" unfolding q_def using double_mono [of 0] by (simp add: double_def)
  have n: "(0 :: rat) \<le> of_int (h_nrBins h - 1)" using assms(4) by simp
  then have "q * of_int (h_nrBins h - 1) \<le> of_int (h_nrBins h - 1)"
    using q0 q1 by (intro mult_left_le_one_le) simp_all
  then have "double (q * of_int (h_nrBins h - 1)) \<le> of_int (h_nrBins h - 1)"
    using double_mono double_of_int [of "h_nrBins h - 1"] assms(4,5) by fastforce
  moreover have "0 \<le> double (q * of_int (h_nrBins h - 1))"
    using q0 n double_mono [of 0] by (simp add: double_def)
  ultimately have "0 \<le> lround (double (q * of_int (h_nrBins h - 1)))
      \<and> lround (double (q * of_int (h_nrBins h - 1))) \<le> h_nrBins h - 1"
    using assms(5) by (intro lround_bounds) auto
  then show ?thesis using assms(1,4,5) by (simp add: value2Bin_def q_def r_def sint_small)
qed

lemma count_at_fields [simp]:
  "h_min (count_at b m h) = h_min h" "h_max (count_at b m h) = h_max h" "h_nrBins (count_at b m h) = h_nrBins h"
  "h_autoscale (count_at b m h) = h_autoscale h"
  by (simp_all add: count_at_def)

lemma move_entry_fields [simp]:
  "h_min (move_entry o' e h) = h_min h" "h_max (move_entry o' e h) = h_max h"
  "h_nrBins (move_entry o' e h) = h_nrBins h" "h_autoscale (move_entry o' e h) = h_autoscale h"
  by (simp_all add: move_entry_def Let_def split: prod.split)

lemma fold_move_fields [simp]:
  "h_min (fold (move_entry o') m h) = h_min h" "h_max (fold (move_entry o') m h) = h_max h"
  "h_nrBins (fold (move_entry o') m h) = h_nrBins h" "h_autoscale (fold (move_entry o') m h) = h_autoscale h"
  by (induction m arbitrary: h) simp_all

lemma rescale_to_fields [simp]:
  "h_nrBins (rescale_to c w h) = h_nrBins h" "h_autoscale (rescale_to c w h) = h_autoscale h"
  "h_min (rescale_to c w h) = (if w \<le> 0 then h_min h else double (c - double (w / 2)))"
  "h_max (rescale_to c w h) = (if w \<le> 0 then h_max h else double (c + double (w / 2)))"
  by (simp_all add: rescale_to_def hist_clear_def Let_def)

text \<open>After rescaling around a value the value lies between the bounds, whatever rounding did to them.\<close>

lemma rescale_center_around:
  assumes "double x = x" and "0 < getRange h"
  shows "h_min (rescale_center x h) \<le> x \<and> x \<le> h_max (rescale_center x h)"
proof -
  have "0 \<le> double (getRange h / 2)" using assms(2) double_mono [of 0] by (simp add: double_def)
  then have "double (x - double (getRange h / 2)) \<le> double x" "double x \<le> double (x + double (getRange h / 2))"
    by (intro double_mono; simp)+
  then show ?thesis using assms by (simp add: rescale_center_def)
qed

lemma must_rescale_twice:
  assumes x: "double x = x" and n: "h_nrBins h < 2 ^ 31" and must: "must_rescale x (rescale_center x h)"
  shows "h_nrBins h \<le> 0 \<or> getRange (rescale_center x h) \<le> 0"
proof (rule ccontr)
  let ?h = "rescale_center x h"
  assume "\<not> (h_nrBins h \<le> 0 \<or> getRange ?h \<le> 0)"
  then have 1: "1 \<le> h_nrBins ?h" "0 < getRange ?h" by (auto simp: rescale_center_def)
  have "0 < getRange h"
    using 1(2) by (cases "getRange h \<le> 0") (auto simp: rescale_center_def rescale_to_def)
  then have "0 \<le> value2Bin ?h x \<and> value2Bin ?h x < h_nrBins ?h"
    using value2Bin_inside [OF 1(2) _ _ 1(1)] rescale_center_around [OF x] n by (simp add: rescale_center_def)
  then show False using must by (simp add: must_rescale_def)
qed

text \<open>The histograms on which the recursion of \<open>fill\<close> goes on for ever.\<close>

definition stuck :: "rat \<Rightarrow> Histogram \<Rightarrow> bool" where
  "stuck x h \<longleftrightarrow> must_rescale x h \<and> (getRange h \<le> 0 \<or> h_nrBins h \<le> 0)"

lemma rescale_no_range: "getRange h \<le> 0 \<Longrightarrow> rescale_center x h = h"
  by (simp add: rescale_center_def rescale_to_def)

lemma stuck_rescale: "stuck x h \<Longrightarrow> stuck x (rescale_center x h)"
proof (cases "getRange h \<le> 0")
  case False
  assume s: "stuck x h"
  let ?h = "rescale_center x h"
  have n: "h_nrBins h \<le> 0" and a: "h_autoscale h" using s False by (auto simp: stuck_def must_rescale_def)
  then have "getEntries ?h = 0" using False by (simp add: rescale_center_def rescale_to_def hist_clear_def getEntries_def double_def)
  moreover have "0 < double (1 / 10 ^ 6)" using double_sign [of "1 / 10 ^ 6"] by simp
  moreover have "value2Bin ?h x < 0 \<or> value2Bin ?h x \<ge> h_nrBins ?h" using n by (auto simp: rescale_center_def)
  ultimately show ?thesis using n a by (simp add: stuck_def must_rescale_def) (simp add: rescale_center_def)
qed (simp add: rescale_no_range)

lemma fill_returns_not_stuck:
  assumes "fill x mult h = Some h'" shows "\<not> stuck x h"
proof (rule fill.raw_induct [where P = "\<lambda>x mult h h'. \<not> stuck x h" and xa = "((x, mult), h)" and y = h',
      simplified prod.case, OF _ assms])
  fix f x mult h h'
  assume IH: "\<And>x mult h h'. f x mult h = Some h' \<Longrightarrow> \<not> stuck x h"
    and eq: "(if must_rescale x h then f x mult (rescale_center x h)
      else Some (count_at (value2Bin h x) mult h)) = Some h'"
  show "\<not> stuck x h"
  proof
    assume s: "stuck x h"
    then have "f x mult (rescale_center x h) = Some h'" using eq by (simp add: stuck_def)
    then show False using IH stuck_rescale [OF s] by blast
  qed
qed

lemma fill_stuck: "stuck x h \<Longrightarrow> fill x mult h = None"
  using fill_returns_not_stuck by (cases "fill x mult h") auto

lemma fill_outcome:
  assumes "double x = x" and "h_nrBins h < 2 ^ 31"
  shows "fill x mult h =
    (if \<not> must_rescale x h then Some (count_at (value2Bin h x) mult h)
     else if \<not> must_rescale x (rescale_center x h)
       then Some (count_at (value2Bin (rescale_center x h) x) mult (rescale_center x h))
     else None)"
proof (cases "must_rescale x (rescale_center x h)")
  case True
  then have "stuck x (rescale_center x h)"
    using must_rescale_twice [OF assms True] by (auto simp: stuck_def rescale_center_def)
  then show ?thesis using True by (simp add: fill.simps [of x mult h] fill_stuck)
next
  case False
  then show ?thesis by (simp add: fill.simps [of x mult h] fill.simps [of x mult "rescale_center x h"])
qed

section \<open>Counts are kept\<close>

text \<open>A histogram of counts: as long as there are fewer than \<open>2^53\<close> of them, no sum is rounded.\<close>

definition bin_total :: "Histogram \<Rightarrow> rat" where
  "bin_total h = sum_list (map snd (h_map h))"

definition counts :: "Histogram \<Rightarrow> bool" where
  "counts h \<longleftrightarrow> sorted_wrt (<) (map fst (h_map h)) \<and> snd ` set (h_map h) \<subseteq> \<nat>
     \<and> h_underflow h \<in> \<nat> \<and> h_overflow h \<in> \<nat>"

definition all_counts :: "Histogram \<Rightarrow> rat" where
  "all_counts h = h_underflow h + h_overflow h + bin_total h"

lemma Nats_nonneg: "v \<in> \<nat> \<Longrightarrow> 0 \<le> (v :: rat)"
  by (auto elim!: Nats_cases)

lemma double_Nats: "v \<in> \<nat> \<Longrightarrow> v < 2 ^ 53 \<Longrightarrow> double v = v"
proof (erule Nats_cases)
  fix n assume v: "v = of_nat n" and "v < 2 ^ 53"
  then have "(of_int (int n) :: rat) < of_int (2 ^ 53)" by simp
  then have "int n < 2 ^ 53" by (simp only: of_int_less_iff)
  then show "double v = v" using double_of_int [of "int n"] by (simp add: v)
qed

lemma sum_Nats: "set xs \<subseteq> \<nat> \<Longrightarrow> sum_list xs \<in> (\<nat> :: rat set)"
  by (induction xs) simp_all

lemma fold_entries:
  assumes "snd ` set m \<subseteq> \<nat>" and "acc \<in> \<nat>" and "acc + sum_list (map snd m) < 2 ^ 53"
  shows "fold (\<lambda>e acc. double (acc + snd e)) m acc = acc + sum_list (map snd m)"
  using assms
proof (induction m arbitrary: acc)
  case (Cons e m)
  then have "0 \<le> sum_list (map snd m)" by (intro Nats_nonneg sum_Nats) auto
  then have "double (acc + snd e) = acc + snd e" using Cons.prems by (intro double_Nats) auto
  then show ?case using Cons.IH [of "acc + snd e"] Cons.prems by (simp add: add.assoc)
qed simp

lemma bin_total_Nats: "counts h \<Longrightarrow> bin_total h \<in> \<nat>"
  unfolding bin_total_def by (rule sum_Nats) (auto simp: counts_def)

lemma getEntries_counts: "counts h \<Longrightarrow> all_counts h < 2 ^ 53 \<Longrightarrow> getEntries h = all_counts h"
proof -
  assume c: "counts h" and l: "all_counts h < 2 ^ 53"
  then have "0 \<le> bin_total h" by (intro Nats_nonneg bin_total_Nats)
  then have "double (h_underflow h + h_overflow h) = h_underflow h + h_overflow h"
    using c l by (intro double_Nats) (auto simp: counts_def all_counts_def)
  then show ?thesis using c l fold_entries [of "h_map h" "h_underflow h + h_overflow h"]
    by (simp add: getEntries_def counts_def all_counts_def bin_total_def)
qed

lemma map_put_keys: "set (map fst (map_put k v m)) = insert k (set (map fst m))"
  by (induction k v m rule: map_put.induct) auto

lemma map_put_sorted:
  "sorted_wrt (<) (map fst m) \<Longrightarrow> sorted_wrt (<) (map fst (map_put k v m))"
proof (induction k v m rule: map_put.induct)
  case (2 k v j w m)
  then show ?case using map_put_keys [of k v m] by (auto simp del: map_put_keys)
qed simp

lemma map_at_skip: "sorted_wrt (<) (j # map fst m) \<Longrightarrow> k < j \<Longrightarrow> map_at k m = 0"
proof -
  assume "sorted_wrt (<) (j # map fst m)" and "k < j"
  then have "k \<notin> fst ` set m" by fastforce
  then show ?thesis by (simp add: map_at_def map_of_eq_None_iff [THEN iffD2])
qed

lemma map_put_total:
  "sorted_wrt (<) (map fst m) \<Longrightarrow>
     sum_list (map snd (map_put k v m)) = sum_list (map snd m) - map_at k m + v"
proof (induction k v m rule: map_put.induct)
  case (2 k v j w m)
  show ?case
  proof (cases k j rule: linorder_cases)
    case less
    then have "map_at k ((j, w) # m) = 0"
      using "2.prems" map_at_skip [of j m k] by (simp add: map_at_def)
    then show ?thesis using less by simp
  next
    case equal
    then show ?thesis by (simp add: map_at_def)
  next
    case greater
    then have "map_at k ((j, w) # m) = map_at k m" by (simp add: map_at_def)
    then show ?thesis using "2.IH" "2.prems" greater by simp
  qed
qed (simp add: map_at_def)

lemma map_put_values: "snd ` set (map_put k v m) \<subseteq> insert v (snd ` set m)"
  by (induction k v m rule: map_put.induct) auto

lemma map_at_value: "snd ` set m \<subseteq> \<nat> \<Longrightarrow> map_at k m \<in> \<nat> \<and> map_at k m \<le> sum_list (map snd m)"
proof (induction m)
  case (Cons e m)
  have "0 \<le> snd e" "0 \<le> sum_list (map snd m)"
    using Cons.prems by (auto intro!: Nats_nonneg sum_Nats)
  then show ?case using Cons by (cases e) (auto simp: map_at_def)
qed (simp add: map_at_def)

lemma count_at_counts:
  assumes c: "counts h" and n: "v \<in> \<nat>" and l: "all_counts h + v < 2 ^ 53"
  shows "counts (count_at b v h) \<and> all_counts (count_at b v h) = all_counts h + v"
proof -
  have nn: "0 \<le> h_underflow h" "0 \<le> h_overflow h" "0 \<le> bin_total h" "0 \<le> v"
    using c n bin_total_Nats [OF c] by (auto simp: counts_def Nats_nonneg)
  consider "b < 0" | "0 \<le> b" "h_nrBins h \<le> b" | "0 \<le> b" "b < h_nrBins h" by linarith
  then show ?thesis
  proof cases
    case 1
    then have "double (h_underflow h + v) = h_underflow h + v"
      using c n l nn by (intro double_Nats) (auto simp: counts_def all_counts_def)
    then show ?thesis using 1 c n by (simp add: count_at_def counts_def all_counts_def bin_total_def)
  next
    case 2
    then have "double (h_overflow h + v) = h_overflow h + v"
      using c n l nn by (intro double_Nats) (auto simp: counts_def all_counts_def)
    then show ?thesis using 2 c n by (simp add: count_at_def counts_def all_counts_def bin_total_def)
  next
    case 3
    have at: "map_at b (h_map h) \<in> \<nat>" "map_at b (h_map h) \<le> bin_total h"
      using c map_at_value [of "h_map h" b] by (auto simp: counts_def bin_total_def)
    have d: "double (map_at b (h_map h) + v) = map_at b (h_map h) + v"
      using at n l nn by (intro double_Nats) (auto simp: all_counts_def)
    have s: "sorted_wrt (<) (map fst (h_map h))" using c by (simp add: counts_def)
    have "snd ` set (map_put b (map_at b (h_map h) + v) (h_map h)) \<subseteq> \<nat>"
      by (rule subset_trans [OF map_put_values]) (use at(1) n c in \<open>simp add: counts_def\<close>)
    then show ?thesis using 3 c d map_put_total [OF s, of b] map_put_sorted [OF s, of b]
      by (auto simp: count_at_def counts_def all_counts_def bin_total_def map_add_at_def)
  qed
qed

lemma move_entry_counts:
  assumes c: "counts h" and n: "v \<in> \<nat>" and l: "all_counts h + v < 2 ^ 53"
  shows "counts (move_entry old (b, v) h) \<and> all_counts (move_entry old (b, v) h) = all_counts h + v"
proof (cases "v = 0")
  case True
  then show ?thesis using c pow2_pos [of "- 52"] by (simp add: move_entry_def epsilon_def less_imp_le)
next
  case False
  then have "1 \<le> v" using n by (auto elim!: Nats_cases)
  moreover have "epsilon < 1" by (simp add: epsilon_def pow2_def)
  ultimately have "\<not> \<bar>v\<bar> \<le> epsilon" by linarith
  then show ?thesis using count_at_counts [OF assms] by (simp add: move_entry_def Let_def)
qed

lemma fold_move_counts:
  assumes "counts h" and "snd ` set m \<subseteq> \<nat>" and "all_counts h + sum_list (map snd m) < 2 ^ 53"
  shows "counts (fold (move_entry old) m h)
    \<and> all_counts (fold (move_entry old) m h) = all_counts h + sum_list (map snd m)"
  using assms
proof (induction m arbitrary: h)
  case (Cons e m)
  obtain b v where e: "e = (b, v)" by fastforce
  have "0 \<le> sum_list (map snd m)" using Cons.prems by (intro Nats_nonneg sum_Nats) auto
  then have step: "counts (move_entry old e h) \<and> all_counts (move_entry old e h) = all_counts h + v"
    unfolding e using Cons.prems by (intro move_entry_counts) (auto simp: e)
  then show ?case using Cons.IH [of "move_entry old e h"] Cons.prems by (simp add: e add.assoc)
qed simp

lemma rescale_to_counts:
  assumes c: "counts h" and l: "all_counts h < 2 ^ 53" and w: "0 < w" and r: "0 < getRange h" "1 < h_nrBins h"
  shows "counts (rescale_to x w h) \<and> all_counts (rescale_to x w h) = bin_total h"
proof -
  define h' where "h' = hist_clear (h\<lparr>h_min := double (x - double (w / 2)), h_max := double (x + double (w / 2))\<rparr>)"
  have "counts h'" "all_counts h' = 0"
    by (simp_all add: h'_def hist_clear_def counts_def all_counts_def bin_total_def)
  moreover have "0 \<le> h_underflow h" "0 \<le> h_overflow h" using c by (auto simp: counts_def Nats_nonneg)
  then have "all_counts h' + sum_list (map snd (h_map h)) < 2 ^ 53"
    using l \<open>all_counts h' = 0\<close> by (simp add: all_counts_def bin_total_def)
  ultimately have "counts (fold (move_entry h) (h_map h) h')
      \<and> all_counts (fold (move_entry h) (h_map h) h') = bin_total h"
    using fold_move_counts [of h' "h_map h" h] c by (simp add: counts_def bin_total_def)
  then show ?thesis using w r by (simp add: rescale_to_def h'_def [symmetric] Let_def)
qed

text \<open>A new width is positive only where the old range was, so automatic rescaling never discards bins.\<close>

lemma widths_positive:
  "0 < double (double c * getRange h) \<Longrightarrow> 0 < c \<Longrightarrow> 0 < getRange h"
  "0 < double (h_max h - double (h_max h - double (getRange h * double c))) \<Longrightarrow> 0 < c \<Longrightarrow>
    double (h_max h) = h_max h \<Longrightarrow> 0 < getRange h"
  "0 < double (double (h_min h + double (getRange h * double c)) - h_min h) \<Longrightarrow> 0 < c \<Longrightarrow>
    double (h_min h) = h_min h \<Longrightarrow> 0 < getRange h"
proof -
  have c: "0 < double c" if "0 < c" for c using that double_sign [of c] by simp
  show "0 < getRange h" if "0 < double (double c * getRange h)" "0 < c"
    using that less_imp_le [OF c [of c]] double_sign by (simp add: not_le [symmetric] mult_le_0_iff)
  have le: "double (getRange h * double c) \<le> 0" if "getRange h \<le> 0" "0 < c"
    using that c [of c] double_sign by (simp add: mult_le_0_iff)
  show "0 < getRange h"
    if "0 < double (h_max h - double (h_max h - double (getRange h * double c)))" "0 < c" "double (h_max h) = h_max h"
  proof (rule ccontr)
    assume "\<not> 0 < getRange h"
    then have "double (h_max h) \<le> double (h_max h - double (getRange h * double c))"
      using le [OF _ that(2)] by (intro double_mono) simp
    then show False using that(1,3) double_sign by (simp add: not_le [symmetric])
  qed
  show "0 < getRange h"
    if "0 < double (double (h_min h + double (getRange h * double c)) - h_min h)" "0 < c" "double (h_min h) = h_min h"
  proof (rule ccontr)
    assume "\<not> 0 < getRange h"
    then have "double (h_min h + double (getRange h * double c)) \<le> double (h_min h)"
      using le [OF _ that(2)] by (intro double_mono) simp
    then show False using that(1,3) double_sign by (simp add: not_le [symmetric])
  qed
qed

definition double_bounds :: "Histogram \<Rightarrow> bool" where
  "double_bounds h \<longleftrightarrow> double (h_min h) = h_min h \<and> double (h_max h) = h_max h"

lemma rescale_auto_form:
  assumes "double_bounds h"
  shows "rescale_auto h = h \<or> (\<exists>c w. rescale_auto h = rescale_to c w h \<and> (0 < w \<longrightarrow> 0 < getRange h))"
proof -
  note pos = widths_positive(1) [of "11 / 10" h] widths_positive(1) [of "8 / 10" h]
    widths_positive(2,3) [of h "12 / 10"]
  show ?thesis using assms pos unfolding rescale_auto_def Let_def double_bounds_def
    by (simp only: if_split) (auto simp del: double_of_int)
qed

lemma rescale_auto_counts:
  assumes "counts h" and "all_counts h < 2 ^ 53" and "1 < h_nrBins h" and "double_bounds h"
  shows "counts (rescale_auto h) \<and> (rescale_auto h = h \<or> all_counts (rescale_auto h) = bin_total h)"
  using rescale_auto_form [OF assms(4)]
proof (elim disjE exE conjE)
  fix c w assume r: "rescale_auto h = rescale_to c w h" "0 < w \<longrightarrow> 0 < getRange h"
  then show ?thesis
    using rescale_to_counts [OF assms(1,2), of w c] assms(1,3) by (cases "0 < w") (auto simp: rescale_to_def)
qed (use assms in simp)

lemma counts_small: "counts h \<Longrightarrow> all_counts h < 1 \<Longrightarrow> all_counts h = 0 \<and> bin_total h = 0"
proof -
  assume c: "counts h" and l: "all_counts h < 1"
  have "0 \<le> h_underflow h" "0 \<le> h_overflow h" "0 \<le> bin_total h"
    using c bin_total_Nats [OF c] by (auto simp: counts_def Nats_nonneg)
  moreover have "all_counts h \<in> \<nat>" using c bin_total_Nats [OF c] by (simp add: all_counts_def counts_def)
  then have "all_counts h = 0" using l by (auto elim!: Nats_cases)
  ultimately show ?thesis by (simp add: all_counts_def)
qed

lemma fill_counts:
  assumes "counts h" and "m \<in> \<nat>" and "all_counts h + m < 2 ^ 53" and "1 < h_nrBins h" and "h_nrBins h < 2 ^ 31"
    and "double x = x" and "fill x m h = Some h'"
  shows "counts h' \<and> all_counts h' = all_counts h + m"
proof (cases "must_rescale x h")
  case False
  then have "h' = count_at (value2Bin h x) m h" using fill_outcome [OF assms(6,5)] assms(7) by simp
  then show ?thesis using count_at_counts [OF assms(1-3)] by simp
next
  case True
  have l: "all_counts h < 2 ^ 53" using assms(2,3) Nats_nonneg [of m] by linarith
  have "double (1 / 10 ^ 6) < 1" using double_mono [of "1 / 10 ^ 6" "1 / 2"] by (simp add: double_def rnd_exact [of "1 / 2" 1 "-1"] pow2_def)
  then have zero: "all_counts h = 0" "bin_total h = 0"
    using True getEntries_counts [OF assms(1) l] counts_small [OF assms(1)] by (auto simp: must_rescale_def)
  have "h' = count_at (value2Bin (rescale_center x h) x) m (rescale_center x h)"
    using True fill_outcome [OF assms(6,5), of m] assms(7) by (auto split: if_splits)
  moreover have "counts (rescale_center x h) \<and> all_counts (rescale_center x h) = 0"
    using rescale_to_counts [OF assms(1) l, of "getRange h" x] assms(1,4) zero
    by (cases "0 < getRange h") (auto simp: rescale_center_def rescale_to_def)
  ultimately show ?thesis using count_at_counts [of "rescale_center x h" m] assms(2,3) zero by simp
qed

section \<open>What the histogram promises\<close>

text \<open>
  C31: a call of \<open>fill\<close> ends after at most one rescaling, or never. It counts the value where it lies, or,
  on the first fill of an autoscaling histogram with the value outside, rescales once around the value
  and counts it in a bin. It never returns exactly when the value is still outside then, which happens
  when the histogram has no range or no bins, or when rounding has swallowed the range beside a large
  value; with a bin and a range left it always returns.
\<close>

theorem fill_terminates:
  assumes "double x = x" and "h_nrBins h < 2 ^ 31"
  shows "(fill x mult h = None \<longleftrightarrow> must_rescale x h \<and> must_rescale x (rescale_center x h))
    \<and> (1 \<le> h_nrBins h \<and> 0 < getRange (rescale_center x h) \<longrightarrow>
         (\<exists>h'. fill x mult h = Some h') \<and> \<not> must_rescale x (rescale_center x h))
    \<and> (must_rescale x h \<and> (getRange h \<le> 0 \<or> h_nrBins h \<le> 0) \<longrightarrow> fill x mult h = None)"
  using fill_outcome [OF assms, of mult] must_rescale_twice [OF assms] fill_stuck [of x h mult]
  by (auto simp: stuck_def)

definition sample_hist :: "int \<Rightarrow> Histogram" where
  "sample_hist n = histogram [] n 0 2 True []"

lemma sample_hist_values:
  "double 10 = 10" "0 < getRange (rescale_center 10 (sample_hist 4))"
  "must_rescale 10 (sample_hist 0)" "h_nrBins (sample_hist n) = n" "double_bounds (sample_hist 4)"
  by code_simp+

theorem fill_terminates_witness:
  "(\<exists>h'. fill 10 1 (sample_hist 4) = Some h') \<and> fill 10 1 (sample_hist 0) = None"
  using fill_terminates [of 10 "sample_hist 4" 1] fill_terminates [of 10 "sample_hist 0" 1] sample_hist_values
  by simp

text \<open>
  C33: no count is lost or doubled. In a histogram of more than one bin and fewer than \<open>2^53\<close> counts, a fill of a whole number
  that returns adds exactly its multiplicity to the entries, whether it rescales or not, and rescaling keeps the content of
  all bins: the entries are afterwards those of the bins, only underflow and overflow are forgotten.
\<close>

theorem counts_kept:
  assumes "counts h" and "1 < h_nrBins h" and "h_nrBins h < 2 ^ 31" and "double_bounds h"
    and "double x = x" and "m \<in> \<nat>" and "all_counts h + m < 2 ^ 53"
  shows "(\<forall>h'. fill x m h = Some h' \<longrightarrow> counts h' \<and> getEntries h' = getEntries h + m)
    \<and> counts (rescale_auto h)
    \<and> (rescale_auto h = h \<or> getEntries (rescale_auto h) = bin_total h)"
proof -
  have l: "all_counts h < 2 ^ 53" using assms(6,7) Nats_nonneg [of m] by linarith
  have e: "getEntries h = all_counts h" by (rule getEntries_counts [OF assms(1) l])
  have "bin_total h < 2 ^ 53"
    using assms(1) l by (auto simp: counts_def all_counts_def dest!: Nats_nonneg)
  then show ?thesis
    using fill_counts [OF assms(1,6,7,2,3,5)] rescale_auto_counts [OF assms(1) l assms(2,4)]
      getEntries_counts assms(7) e by metis
qed

theorem counts_kept_witness:
  "counts (sample_hist 4) \<and> (\<exists>h'. fill 10 1 (sample_hist 4) = Some h' \<and> getEntries h' = getEntries (sample_hist 4) + 1)"
proof -
  have c: "counts (sample_hist 4)" "all_counts (sample_hist 4) = 0"
    by (simp_all add: sample_hist_def histogram_def counts_def all_counts_def bin_total_def)
  obtain h' where "fill 10 1 (sample_hist 4) = Some h'"
    using fill_outcome [of 10 "sample_hist 4" 1] must_rescale_twice [of 10 "sample_hist 4"] sample_hist_values
    by (auto split: if_splits)
  then show ?thesis
    using counts_kept [of "sample_hist 4" 10 1] c sample_hist_values by auto
qed

end
