(* ===== verification/Messages.thy ===== *)
theory Messages
  imports Ubx_Events Sds011 Rate_Buffer Histogram
begin

text \<open>
  The structs that daemon and client exchange beside those of the receiver: the events of
  \<open>library/src/data/events\<close> and the structs of \<open>library/src/data/muondetector_structs.h\<close>. Enumerations are
  their underlying integers, strings lists of octets, \<open>float\<close> and \<open>double\<close> rationals. A struct with one
  member is that member, where it is used.
\<close>

text \<open>\<open>convTime\<close> may be left uninitialised: None.\<close>

record ADS1115Event =
  ads_deviceId :: u32
  ads_channel :: u8
  ads_rawValue :: u16
  ads_voltage :: rat
  ads_timestamp :: u64
  ads_convTime :: "rat option"

record CalibStruct =
  cal_name :: "byte list"
  cal_type :: "byte list"
  cal_address :: u16
  cal_value :: "byte list"

record CalibEvent =
  cev_valid :: bool
  cev_eepromValid :: bool
  cev_id :: u64
  cev_calibList :: "CalibStruct list"

record GpioRateEvent =
  gre_whichRate :: u8
  gre_rate :: "(rat \<times> rat) list"

record I2cDeviceEntry =
  ide_address :: u8
  ide_name :: "byte list"
  ide_status :: u8
  ide_nrBytesWritten :: u32
  ide_nrBytesRead :: u32
  ide_nrIoErrors :: u32
  ide_lastTransactionTime :: u32

record I2CStatsEvent =
  ise_nrDevices :: u8
  ise_bytesRead :: u32
  ise_bytesWritten :: u32
  ise_deviceList :: "I2cDeviceEntry list"

text \<open>An \<open>unordered_map\<close> is the list of its entries in the order of iteration, one for each key.\<close>

record MCP4728Event =
  dac_dacValues :: "(u8 \<times> u16) list"
  dac_eepromValues :: "(u8 \<times> u16) list option"
  dac_voltages :: "(u8 \<times> rat) list"

record GeoPosition =
  geo_longitude :: rat
  geo_latitude :: rat
  geo_altitude :: rat
  geo_hor_error :: rat
  geo_vert_error :: rat

record PositionModeConfig =
  pmc_mode :: i32
  pmc_static_position :: GeoPosition
  pmc_lock_in_max_dop :: rat
  pmc_lock_in_min_error_meters :: rat
  pmc_filter_config :: i32

record Version =
  ver_major :: i32
  ver_minor :: i32
  ver_patch :: i32
  ver_additional :: "byte list"
  ver_hash :: "byte list"

record VersionEvent =
  vev_hw_ver :: Version
  vev_sw_ver :: Version

record PolaritySwitchEvent =
  pse_pol1 :: bool
  pse_pol2 :: bool

record PreampSwitchEvent =
  pre_channel :: u8
  pre_state :: bool

record TemperatureEvent =
  tev_source :: "byte list"
  tev_temperature :: rat

record MqttStatusEvent =
  mqs_status :: i32
  mqs_text :: "byte list"

record ThresholdSettingEvent =
  tse_channel :: u8
  tse_voltage :: rat

text \<open>Durations are seconds, in 64 bits.\<close>

record LogInfoStruct =
  log_logFileName :: "byte list"
  log_dataFileName :: "byte list"
  log_status :: u8
  log_logFileSize :: u32
  log_dataFileSize :: u32
  log_logAge :: int
  log_logRotationDuration :: int
  log_logEnabled :: bool

record UbxMsgRateCmd =
  mrc_id :: u16
  mrc_port :: u8
  mrc_rate :: u8

text \<open>The events with a codec.\<close>

datatype (plugins only:) event =
    Ev_AdcMode u8
  | Ev_AdcTrace "rat list"
  | Ev_ADS1115 ADS1115Event
  | Ev_BiasSwitch bool
  | Ev_BiasVoltage rat
  | Ev_Calib CalibEvent
  | Ev_GainSwitch bool
  | Ev_GpioRate GpioRateEvent
  | Ev_GpioInhibit bool
  | Ev_I2CStats I2CStatsEvent
  | Ev_Temperature TemperatureEvent
  | Ev_MCP4728 MCP4728Event
  | Ev_MqttStatus MqttStatusEvent
  | Ev_PcaSwitch u8
  | Ev_PolaritySwitch PolaritySwitchEvent
  | Ev_PreampSwitch PreampSwitchEvent
  | Ev_SPIStats bool
  | Ev_Gpio gpio_event
  | Ev_ThresholdSetting ThresholdSettingEvent
  | Ev_NavSat NavSat
  | Ev_CfgMsg CfgMsg
  | Ev_CfgGNSS CfgGNSS
  | Ev_GnssPos GnssPosStruct
  | Ev_TimeMark UbxTimeMarkStruct
  | Ev_MonTx MonTx
  | Ev_MonRx MonRx
  | Ev_MonHw GnssMonHwStruct
  | Ev_MonHw2 GnssMonHw2Struct
  | Ev_GpsVersion GpsVersion
  | Ev_NavStatus NavStatus
  | Ev_NavClock NavClock
  | Ev_TimePulse UbxTimePulseStruct
  | Ev_Histogram Histogram
  | Ev_LogInfo LogInfoStruct
  | Ev_PositionMode PositionModeConfig
  | Ev_Version VersionEvent
  | Ev_EventTrigger u8
  | Ev_MqttInhibit bool
  | Ev_Sds011 Sds011Event

text \<open>
  What a client can send: the commands with a codec, each with the members of its struct, and three
  events (\<open>AdcModeEvent\<close>, \<open>GpioInhibitEvent\<close>, \<open>CalibEvent\<close>).
\<close>

datatype (plugins only:) command =
    GainSwitchCmd bool
  | ThresholdSettingCmd u8 rat
  | PcaSwitchCmd u8
  | UbxMsgPollCmd u16
  | UbxMsgRate UbxMsgRateCmd
  | UbxGnssConfigCmd "GnssConfigStruct list"
  | UbxRateCmd u16 u16
  | UbxResetCmd u32
  | UbxSaveCmd u32
  | UbxSetAopCmd bool u16
  | MqttInhibitCmd bool
  | PolaritySwitchCmd bool bool
  | BiasVoltageCmd rat
  | BiasSwitchCmd bool
  | PreampSwitchCmd u8 bool
  | AdcSampleTriggerCmd u8
  | HistogramClearCmd "byte list"
  | GpioRateRequestCmd u8
  | EventTriggerCmd u8
  | StartBurstSampling u64 u64
  | UbxTp5Cmd UbxTimePulseStruct
  | PositionModeCmd PositionModeConfig
  | Cmd_AdcMode u8
  | Cmd_GpioInhibit bool
  | Cmd_Calib CalibEvent
  | PreampSwitchRequestCmd
  | GpioRateResetCmd
  | UbxConfigDefaultCmd
  | I2CStatsRequestCmd
  | I2CScanBusCmd
  | SPIStatsRequestCmd
  | CalibRequestCmd
  | CalibSaveCmd
  | GainSwitchRequestCmd
  | DacSettingRequestCmd
  | ThresholdSettingRequestCmd
  | PcaSwitchRequestCmd
  | AdcModeRequestCmd
  | PolaritySwitchRequestCmd
  | BiasVoltageRequestCmd
  | BiasSwitchRequestCmd
  | TemperatureRequestCmd
  | DacEepromSetCmd
  | EventTriggerRequestCmd
  | HistogramRequestCmd
  | UbxMsgRateRequestCmd

end
