(* ===== verification/Codec_Events.thy ===== *)
theory Codec_Events
  imports Capnp Messages Message_Keys "HOL-Library.AList"
begin

text \<open>
  The codecs of the events (\<open>library/src/capnp/capnp_codec.cpp\<close>), with the keys of
  \<open>library/src/network/tcpmessage_keys.h\<close>. The fields of a struct are numbered as in its schema.
\<close>

section \<open>Events of the sensors\<close>

definition codec_Sds011Event :: "Sds011Event codec" where
  "codec_Sds011Event =
     \<lparr>cd_root = TStruct [TUInt16, TUInt16, TUInt16],
      cd_encode = (\<lambda>event. CStruct [CUInt16 (sev_id event), CUInt16 (sev_pm2dot5 event), CUInt16 (sev_pm10dot0 event)]),
      cd_decode = (\<lambda>r. \<lparr>sev_id = getUInt16 0 r, sev_pm2dot5 = getUInt16 1 r, sev_pm10dot0 = getUInt16 2 r\<rparr>),
      cd_key = MSG_SDS011_SAMPLE\<rparr>"

definition codec_ADS1115Event :: "ADS1115Event codec" where
  "codec_ADS1115Event =
     \<lparr>cd_root = TStruct [TUInt32, TUInt8, TUInt16, TFloat32, TUInt64],
      cd_encode = (\<lambda>event. CStruct [CUInt32 (ads_deviceId event), CUInt8 (ads_channel event),
        CUInt16 (ads_rawValue event), CFloat32 (ads_voltage event), CUInt64 (ads_timestamp event)]),
      cd_decode = (\<lambda>r. \<lparr>ads_deviceId = getUInt32 0 r, ads_channel = getUInt8 1 r, ads_rawValue = getUInt16 2 r,
        ads_voltage = getFloat32 3 r, ads_timestamp = getUInt64 4 r, ads_convTime = None\<rparr>),
      cd_key = MSG_ADC_SAMPLE\<rparr>"

definition enc_satellite :: "GnssSatellite \<Rightarrow> cp" where
  "enc_satellite s = CStruct [CUInt8 (sat_GnssId s), CUInt8 (sat_SatId s), CUInt8 (sat_Cnr s), CInt8 (sat_Elev s),
     CInt16 (sat_Azim s), CFloat32 (sat_PrRes s), CUInt8 (sat_Quality s), CUInt8 (sat_Health s),
     CUInt8 (sat_OrbitSource s), CBool (sat_Used s), CBool (sat_DiffCorr s), CBool (sat_Smoothed s)]"

definition dec_satellite :: "cp \<Rightarrow> GnssSatellite" where
  "dec_satellite item = \<lparr>sat_GnssId = getUInt8 0 item, sat_SatId = getUInt8 1 item, sat_Cnr = getUInt8 2 item,
     sat_Elev = getInt8 3 item, sat_Azim = getInt16 4 item, sat_PrRes = getFloat32 5 item,
     sat_Quality = getUInt8 6 item, sat_Health = getUInt8 7 item, sat_OrbitSource = getUInt8 8 item,
     sat_Used = getBool 9 item, sat_DiffCorr = getBool 10 item, sat_Smoothed = getBool 11 item\<rparr>"

definition GnssSatelliteCapnp :: cp_type where
  "GnssSatelliteCapnp = TStruct [TUInt8, TUInt8, TUInt8, TInt8, TInt16, TFloat32, TUInt8, TUInt8, TUInt8,
     TBool, TBool, TBool]"

text \<open>Unset fields have their default.\<close>

definition codec_NavSat :: "NavSat codec" where
  "codec_NavSat =
     \<lparr>cd_root = TStruct [TUInt32, TUInt8, TBool, TUInt8, TBool, TUInt8, TUInt64, TList GnssSatelliteCapnp],
      cd_encode = (\<lambda>event. CStruct [CUInt32 (nsa_iTOW event),
        CUInt8 (case nsa_version event of Some v \<Rightarrow> v | None \<Rightarrow> 0), CBool (nsa_version event \<noteq> None),
        CUInt8 (case nsa_globFlags event of Some v \<Rightarrow> v | None \<Rightarrow> 0), CBool (nsa_globFlags event \<noteq> None),
        CUInt8 (nsa_numSvs event), CUInt64 (of_nat (nsa_goodSats event)),
        CList (map enc_satellite (nsa_satellites event))]),
      cd_decode = (\<lambda>r. \<lparr>nsa_iTOW = getUInt32 0 r,
        nsa_version = (if getBool 2 r then Some (getUInt8 1 r) else None),
        nsa_globFlags = (if getBool 4 r then Some (getUInt8 3 r) else None),
        nsa_numSvs = getUInt8 5 r, nsa_goodSats = unat (getUInt64 6 r),
        nsa_satellites = map dec_satellite (getList 7 r)\<rparr>),
      cd_key = MSG_GNSS_SATS\<rparr>"

text \<open>An octet above 1, which no encoder writes, is an edge without a name; the code treats it as falling.\<close>

definition edge_octet :: "edge \<Rightarrow> u8" where
  "edge_octet e = (case e of Rising \<Rightarrow> 0 | Falling \<Rightarrow> 1)"

definition octet_edge :: "u8 \<Rightarrow> edge" where
  "octet_edge b = (if b = 0 then Rising else Falling)"

definition codec_GpioEvent :: "gpio_event codec" where
  "codec_GpioEvent =
     \<lparr>cd_root = TStruct [TUInt8, TUInt8, TUInt64, TUInt8],
      cd_encode = (\<lambda>event. CStruct [CUInt8 (ge_signal event), CUInt8 (ucast (ge_pin event)),
        CUInt64 (word_of_int (ge_timestamp event)), CUInt8 (edge_octet (ge_edge event))]),
      cd_decode = (\<lambda>r. \<lparr>ge_signal = getUInt8 0 r, ge_pin = ucast (getUInt8 1 r),
        ge_timestamp = sint (getUInt64 2 r), ge_edge = octet_edge (getUInt8 3 r)\<rparr>),
      cd_key = MSG_GPIO_EVENT\<rparr>"

definition codec_AdcTraceEvent :: "rat list codec" where
  "codec_AdcTraceEvent =
     \<lparr>cd_root = TStruct [TList TFloat32],
      cd_encode = (\<lambda>adcSampleBuffer. CStruct [CList (map CFloat32 adcSampleBuffer)]),
      cd_decode = (\<lambda>r. map as_float32 (getList 0 r)),
      cd_key = MSG_ADC_TRACE\<rparr>"

definition codec_CalibEvent :: "CalibEvent codec" where
  "codec_CalibEvent =
     \<lparr>cd_root = TStruct [TBool, TBool, TUInt64, TList (TStruct [TText, TText, TUInt16, TText])],
      cd_encode = (\<lambda>event. CStruct [CBool (cev_valid event), CBool (cev_eepromValid event), CUInt64 (cev_id event),
        CList (map (\<lambda>c. CStruct [CText (cal_name c), CText (cal_type c), CUInt16 (cal_address c), CText (cal_value c)])
          (cev_calibList event))]),
      cd_decode = (\<lambda>r. \<lparr>cev_valid = getBool 0 r, cev_eepromValid = getBool 1 r, cev_id = getUInt64 2 r,
        cev_calibList = map (\<lambda>item. \<lparr>cal_name = cStr (getText 0 item), cal_type = cStr (getText 1 item),
          cal_address = getUInt16 2 item, cal_value = cStr (getText 3 item)\<rparr>) (getList 3 r)\<rparr>),
      cd_key = MSG_CALIB_SET\<rparr>"

definition enc_gnss_config :: "GnssConfigStruct \<Rightarrow> cp" where
  "enc_gnss_config cfg =
     CStruct [CUInt8 (gc_gnssId cfg), CUInt8 (gc_resTrkCh cfg), CUInt8 (gc_maxTrkCh cfg), CUInt32 (gc_flags cfg)]"

definition dec_gnss_config :: "cp \<Rightarrow> GnssConfigStruct" where
  "dec_gnss_config cfg = \<lparr>gc_gnssId = getUInt8 0 cfg, gc_resTrkCh = getUInt8 1 cfg, gc_maxTrkCh = getUInt8 2 cfg,
     gc_flags = getUInt32 3 cfg\<rparr>"

definition GnssConfigStructCapnp :: cp_type where
  "GnssConfigStructCapnp = TStruct [TUInt8, TUInt8, TUInt8, TUInt32]"

definition codec_CfgGNSS :: "CfgGNSS codec" where
  "codec_CfgGNSS =
     \<lparr>cd_root = TStruct [TUInt8, TUInt8, TUInt8, TUInt8, TList GnssConfigStructCapnp],
      cd_encode = (\<lambda>event. CStruct [CUInt8 (cgn_version event), CUInt8 (cgn_numTrkChHw event),
        CUInt8 (cgn_numTrkChUse event), CUInt8 (cgn_numConfigBlocks event),
        CList (map enc_gnss_config (cgn_configs event))]),
      cd_decode = (\<lambda>r. \<lparr>cgn_version = getUInt8 0 r, cgn_numTrkChHw = getUInt8 1 r, cgn_numTrkChUse = getUInt8 2 r,
        cgn_numConfigBlocks = getUInt8 3 r, cgn_configs = map dec_gnss_config (getList 4 r)\<rparr>),
      cd_key = MSG_UBX_GNSS_CONFIG\<rparr>"

definition codec_GpioRateEvent :: "GpioRateEvent codec" where
  "codec_GpioRateEvent =
     \<lparr>cd_root = TStruct [TUInt8, TList (TStruct [TFloat32, TFloat32])],
      cd_encode = (\<lambda>event. CStruct [CUInt8 (gre_whichRate event),
        CList (map (\<lambda>(x, y). CStruct [CFloat32 x, CFloat32 y]) (gre_rate event))]),
      cd_decode = (\<lambda>r. \<lparr>gre_whichRate = getUInt8 0 r,
        gre_rate = map (\<lambda>p. (getFloat32 0 p, getFloat32 1 p)) (getList 1 r)\<rparr>),
      cd_key = MSG_GPIO_RATE\<rparr>"

definition codec_I2CStatsEvent :: "I2CStatsEvent codec" where
  "codec_I2CStatsEvent =
     \<lparr>cd_root = TStruct [TUInt8, TUInt32, TUInt32,
        TList (TStruct [TUInt8, TText, TUInt8, TUInt32, TUInt32, TUInt32, TUInt32])],
      cd_encode = (\<lambda>event. CStruct [CUInt8 (ise_nrDevices event), CUInt32 (ise_bytesRead event),
        CUInt32 (ise_bytesWritten event),
        CList (map (\<lambda>d. CStruct [CUInt8 (ide_address d), CText (ide_name d), CUInt8 (ide_status d),
          CUInt32 (ide_nrBytesWritten d), CUInt32 (ide_nrBytesRead d), CUInt32 (ide_nrIoErrors d),
          CUInt32 (ide_lastTransactionTime d)]) (ise_deviceList event))]),
      cd_decode = (\<lambda>r. \<lparr>ise_nrDevices = getUInt8 0 r, ise_bytesRead = getUInt32 1 r, ise_bytesWritten = getUInt32 2 r,
        ise_deviceList = map (\<lambda>d. \<lparr>ide_address = getUInt8 0 d, ide_name = cStr (getText 1 d),
          ide_status = getUInt8 2 d, ide_nrBytesWritten = getUInt32 3 d, ide_nrBytesRead = getUInt32 4 d,
          ide_nrIoErrors = getUInt32 5 d, ide_lastTransactionTime = getUInt32 6 d\<rparr>) (getList 3 r)\<rparr>),
      cd_key = MSG_I2C_STATS\<rparr>"

text \<open>\<open>map[key] = value\<close> for each entry read.\<close>

definition collect :: "('k \<times> 'v) list \<Rightarrow> ('k \<times> 'v) list" where
  "collect entries = fold (\<lambda>(k, v). AList.update k v) entries []"

definition codec_MCP4728Event :: "MCP4728Event codec" where
  "codec_MCP4728Event =
     \<lparr>cd_root = TStruct [TList (TStruct [TUInt8, TUInt16]), TList (TStruct [TUInt8, TUInt16]),
        TList (TStruct [TUInt8, TFloat32]), TBool],
      cd_encode = (\<lambda>event. CStruct [
        CList (map (\<lambda>(channel, v). CStruct [CUInt8 channel, CUInt16 v]) (dac_dacValues event)),
        CList (case dac_eepromValues event of None \<Rightarrow> []
          | Some m \<Rightarrow> map (\<lambda>(channel, v). CStruct [CUInt8 channel, CUInt16 v]) m),
        CList (map (\<lambda>(channel, v). CStruct [CUInt8 channel, CFloat32 v]) (dac_voltages event)),
        CBool (dac_eepromValues event \<noteq> None)]),
      cd_decode = (\<lambda>r.
        \<lparr>dac_dacValues = collect (map (\<lambda>e. (getUInt8 0 e, getUInt16 1 e)) (getList 0 r)),
         dac_eepromValues = (if getBool 3 r then Some (collect (map (\<lambda>e. (getUInt8 0 e, getUInt16 1 e)) (getList 1 r)))
           else None),
         dac_voltages = collect (map (\<lambda>e. (getUInt8 0 e, getFloat32 1 e)) (getList 2 r))\<rparr>),
      cd_key = MSG_DAC_READBACK\<rparr>"

text \<open>
  The arrays of \<open>MonRx\<close> and \<open>MonTx\<close> have \<open>s_nr_targets\<close> elements; what is not read stays zero.
\<close>

definition encodeMonBuffer :: "u16 list \<Rightarrow> u8 list \<Rightarrow> u8 list \<Rightarrow> u8 \<Rightarrow> u8 \<Rightarrow> cp" where
  "encodeMonBuffer pending usage peakUsage tUsage tPeakUsage =
     CStruct [CList (map CUInt16 pending), CList (map CUInt8 usage), CList (map CUInt8 peakUsage),
       CUInt8 tUsage, CUInt8 tPeakUsage]"

definition read_array :: "(cp \<Rightarrow> 'a) \<Rightarrow> 'a \<Rightarrow> cp list \<Rightarrow> 'a list" where
  "read_array f zero xs = map (\<lambda>i. if i < length xs then f (xs ! i) else zero) [0..<s_nr_targets]"

definition MonCapnp :: cp_type where
  "MonCapnp = TStruct [TList TUInt16, TList TUInt8, TList TUInt8, TUInt8, TUInt8]"

definition codec_MonRx :: "MonRx codec" where
  "codec_MonRx =
     \<lparr>cd_root = MonCapnp,
      cd_encode = (\<lambda>event. encodeMonBuffer (mrx_pending event) (mrx_usage event) (mrx_peakUsage event)
        (mrx_tUsage event) (mrx_tPeakUsage event)),
      cd_decode = (\<lambda>r. \<lparr>mrx_pending = read_array as_uint16 0 (getList 0 r),
        mrx_usage = read_array as_uint8 0 (getList 1 r), mrx_peakUsage = read_array as_uint8 0 (getList 2 r),
        mrx_tUsage = getUInt8 3 r, mrx_tPeakUsage = getUInt8 4 r\<rparr>),
      cd_key = MSG_UBX_RXBUF\<rparr>"

definition codec_MonTx :: "MonTx codec" where
  "codec_MonTx =
     \<lparr>cd_root = MonCapnp,
      cd_encode = (\<lambda>event. encodeMonBuffer (mtx_pending event) (mtx_usage event) (mtx_peakUsage event)
        (mtx_tUsage event) (mtx_tPeakUsage event)),
      cd_decode = (\<lambda>r. \<lparr>mtx_pending = read_array as_uint16 0 (getList 0 r),
        mtx_usage = read_array as_uint8 0 (getList 1 r), mtx_peakUsage = read_array as_uint8 0 (getList 2 r),
        mtx_tUsage = getUInt8 3 r, mtx_tPeakUsage = getUInt8 4 r\<rparr>),
      cd_key = MSG_UBX_TXBUF\<rparr>"

definition codec_PositionModeConfig :: "PositionModeConfig codec" where
  "codec_PositionModeConfig =
     \<lparr>cd_root = TStruct [TEnum, TStruct [TFloat64, TFloat64, TFloat64, TFloat64, TFloat64], TFloat64, TFloat64, TEnum],
      cd_encode = (\<lambda>event. let p = pmc_static_position event in CStruct [CEnum (ucast (pmc_mode event)),
        CStruct [CFloat64 (geo_longitude p), CFloat64 (geo_latitude p), CFloat64 (geo_altitude p),
          CFloat64 (geo_hor_error p), CFloat64 (geo_vert_error p)],
        CFloat64 (pmc_lock_in_max_dop event), CFloat64 (pmc_lock_in_min_error_meters event),
        CEnum (ucast (pmc_filter_config event))]),
      cd_decode = (\<lambda>r. let p = getStruct 1 r in \<lparr>pmc_mode = ucast (getEnum 0 r),
        pmc_static_position = \<lparr>geo_longitude = getFloat64 0 p, geo_latitude = getFloat64 1 p,
          geo_altitude = getFloat64 2 p, geo_hor_error = getFloat64 3 p, geo_vert_error = getFloat64 4 p\<rparr>,
        pmc_lock_in_max_dop = getFloat64 2 r, pmc_lock_in_min_error_meters = getFloat64 3 r,
        pmc_filter_config = ucast (getEnum 4 r)\<rparr>),
      cd_key = MSG_POSITION_MODEL\<rparr>"

definition codec_CfgMsg :: "CfgMsg codec" where
  "codec_CfgMsg =
     \<lparr>cd_root = TStruct [TUInt16, TInt32],
      cd_encode = (\<lambda>event. CStruct [CUInt16 (cm_msgID event), CInt32 (word_of_int (cm_rate event))]),
      cd_decode = (\<lambda>r. \<lparr>cm_msgID = getUInt16 0 r, cm_rate = sint (getInt32 1 r)\<rparr>),
      cd_key = MSG_UBX_MSG_RATE\<rparr>"

definition codec_UbxTimeMarkStruct :: "UbxTimeMarkStruct codec" where
  "codec_UbxTimeMarkStruct =
     \<lparr>cd_root = TStruct [TStruct [TInt64, TInt32], TStruct [TInt64, TInt32], TBool, TBool, TUInt32, TBool, TUInt8,
        TBool, TUInt8, TUInt16],
      cd_encode = (\<lambda>event. CStruct [
        CStruct [CInt64 (word_of_int (tv_sec (tmk_rising event))), CInt32 (word_of_int (tv_nsec (tmk_rising event)))],
        CStruct [CInt64 (word_of_int (tv_sec (tmk_falling event))), CInt32 (word_of_int (tv_nsec (tmk_falling event)))],
        CBool (tmk_risingValid event), CBool (tmk_fallingValid event), CUInt32 (tmk_accuracy_ns event),
        CBool (tmk_valid event), CUInt8 (tmk_timeBase event), CBool (tmk_utcAvailable event),
        CUInt8 (tmk_flags event), CUInt16 (tmk_evtCounter event)]),
      cd_decode = (\<lambda>r. let rising = getStruct 0 r; falling = getStruct 1 r in
        \<lparr>tmk_rising = \<lparr>tv_sec = sint (getInt64 0 rising), tv_nsec = sint (getInt32 1 rising)\<rparr>,
         tmk_falling = \<lparr>tv_sec = sint (getInt64 0 falling), tv_nsec = sint (getInt32 1 falling)\<rparr>,
         tmk_risingValid = getBool 2 r, tmk_fallingValid = getBool 3 r, tmk_accuracy_ns = getUInt32 4 r,
         tmk_valid = getBool 5 r, tmk_timeBase = getUInt8 6 r, tmk_utcAvailable = getBool 7 r,
         tmk_flags = getUInt8 8 r, tmk_evtCounter = getUInt16 9 r\<rparr>),
      cd_key = MSG_UBX_TIMEMARK\<rparr>"

definition enc_version :: "Version \<Rightarrow> cp" where
  "enc_version v = CStruct [CInt32 (ver_major v), CInt32 (ver_minor v), CInt32 (ver_patch v),
     CText (ver_additional v), CText (ver_hash v)]"

definition dec_version :: "cp \<Rightarrow> Version" where
  "dec_version v = \<lparr>ver_major = getInt32 0 v, ver_minor = getInt32 1 v, ver_patch = getInt32 2 v,
     ver_additional = cStr (getText 3 v), ver_hash = cStr (getText 4 v)\<rparr>"

definition VersionCapnp :: cp_type where
  "VersionCapnp = TStruct [TInt32, TInt32, TInt32, TText, TText]"

definition codec_VersionEvent :: "VersionEvent codec" where
  "codec_VersionEvent =
     \<lparr>cd_root = TStruct [VersionCapnp, VersionCapnp],
      cd_encode = (\<lambda>event. CStruct [enc_version (vev_hw_ver event), enc_version (vev_sw_ver event)]),
      cd_decode = (\<lambda>r. \<lparr>vev_hw_ver = dec_version (getStruct 0 r), vev_sw_ver = dec_version (getStruct 1 r)\<rparr>),
      cd_key = MSG_VERSION\<rparr>"

section \<open>Settings\<close>

definition codec_AdcModeEvent :: "u8 codec" where
  "codec_AdcModeEvent =
     \<lparr>cd_root = TStruct [TUInt8], cd_encode = (\<lambda>mode. CStruct [CUInt8 mode]), cd_decode = getUInt8 0, cd_key = MSG_ADC_MODE\<rparr>"

definition codec_BiasSwitchEvent :: "bool codec" where
  "codec_BiasSwitchEvent =
     \<lparr>cd_root = TStruct [TBool], cd_encode = (\<lambda>biasOn. CStruct [CBool biasOn]), cd_decode = getBool 0, cd_key = MSG_BIAS_SWITCH\<rparr>"

definition codec_BiasVoltageEvent :: "rat codec" where
  "codec_BiasVoltageEvent =
     \<lparr>cd_root = TStruct [TFloat32], cd_encode = (\<lambda>voltage. CStruct [CFloat32 voltage]), cd_decode = getFloat32 0,
      cd_key = MSG_BIAS_VOLTAGE\<rparr>"

definition codec_GainSwitchEvent :: "bool codec" where
  "codec_GainSwitchEvent =
     \<lparr>cd_root = TStruct [TBool], cd_encode = (\<lambda>state. CStruct [CBool state]), cd_decode = getBool 0, cd_key = MSG_GAIN_SWITCH\<rparr>"

definition codec_PcaSwitchEvent :: "u8 codec" where
  "codec_PcaSwitchEvent =
     \<lparr>cd_root = TStruct [TUInt8], cd_encode = (\<lambda>mask. CStruct [CUInt8 mask]), cd_decode = getUInt8 0, cd_key = MSG_PCA_SWITCH\<rparr>"

definition codec_PolaritySwitchEvent :: "PolaritySwitchEvent codec" where
  "codec_PolaritySwitchEvent =
     \<lparr>cd_root = TStruct [TBool, TBool],
      cd_encode = (\<lambda>event. CStruct [CBool (pse_pol1 event), CBool (pse_pol2 event)]),
      cd_decode = (\<lambda>r. \<lparr>pse_pol1 = getBool 0 r, pse_pol2 = getBool 1 r\<rparr>),
      cd_key = MSG_POLARITY_SWITCH\<rparr>"

definition codec_PreampSwitchEvent :: "PreampSwitchEvent codec" where
  "codec_PreampSwitchEvent =
     \<lparr>cd_root = TStruct [TUInt8, TBool],
      cd_encode = (\<lambda>event. CStruct [CUInt8 (pre_channel event), CBool (pre_state event)]),
      cd_decode = (\<lambda>r. \<lparr>pre_channel = getUInt8 0 r, pre_state = getBool 1 r\<rparr>),
      cd_key = MSG_PREAMP_SWITCH\<rparr>"

definition codec_GpioInhibitEvent :: "bool codec" where
  "codec_GpioInhibitEvent =
     \<lparr>cd_root = TStruct [TBool], cd_encode = (\<lambda>inhibit. CStruct [CBool inhibit]), cd_decode = getBool 0, cd_key = MSG_GPIO_INHIBIT\<rparr>"

definition codec_MqttInhibitEvent :: "bool codec" where
  "codec_MqttInhibitEvent =
     \<lparr>cd_root = TStruct [TBool], cd_encode = (\<lambda>inhibit. CStruct [CBool inhibit]), cd_decode = getBool 0, cd_key = MSG_MQTT_INHIBIT\<rparr>"

text \<open>The source is not sent; a new event has the source \<open>unknown\<close>.\<close>

definition unknown_source :: "byte list" where
  "unknown_source = [0x75, 0x6e, 0x6b, 0x6e, 0x6f, 0x77, 0x6e]"

definition codec_TemperatureEvent :: "TemperatureEvent codec" where
  "codec_TemperatureEvent =
     \<lparr>cd_root = TStruct [TFloat32],
      cd_encode = (\<lambda>event. CStruct [CFloat32 (tev_temperature event)]),
      cd_decode = (\<lambda>r. \<lparr>tev_source = unknown_source, tev_temperature = getFloat32 0 r\<rparr>),
      cd_key = MSG_TEMPERATURE\<rparr>"

definition codec_MqttStatusEvent :: "MqttStatusEvent codec" where
  "codec_MqttStatusEvent =
     \<lparr>cd_root = TStruct [TUInt8, TText],
      cd_encode = (\<lambda>event. CStruct [CUInt8 (ucast (mqs_status event)), CText (mqs_text event)]),
      cd_decode = (\<lambda>r. \<lparr>mqs_status = ucast (getUInt8 0 r), mqs_text = getText 1 r\<rparr>),
      cd_key = MSG_MQTT_STATUS\<rparr>"

definition codec_SPIStatsEvent :: "bool codec" where
  "codec_SPIStatsEvent =
     \<lparr>cd_root = TStruct [TBool], cd_encode = (\<lambda>spiPresent. CStruct [CBool spiPresent]), cd_decode = getBool 0,
      cd_key = MSG_SPI_STATS\<rparr>"

text \<open>The schema's field \<open>success\<close> is never set.\<close>

definition codec_ThresholdSettingEvent :: "ThresholdSettingEvent codec" where
  "codec_ThresholdSettingEvent =
     \<lparr>cd_root = TStruct [TUInt8, TFloat64, TBool],
      cd_encode = (\<lambda>event. CStruct [CUInt8 (tse_channel event), CFloat64 (tse_voltage event), CBool False]),
      cd_decode = (\<lambda>r. \<lparr>tse_channel = getUInt8 0 r, tse_voltage = getFloat64 1 r\<rparr>),
      cd_key = MSG_THRESHOLD\<rparr>"

definition codec_EventTriggerEvent :: "u8 codec" where
  "codec_EventTriggerEvent =
     \<lparr>cd_root = TStruct [TUInt8], cd_encode = (\<lambda>signal. CStruct [CUInt8 signal]), cd_decode = getUInt8 0, cd_key = MSG_EVENTTRIGGER\<rparr>"

section \<open>Events of the receiver\<close>

definition codec_GnssPosStruct :: "GnssPosStruct codec" where
  "codec_GnssPosStruct =
     \<lparr>cd_root = TStruct [TUInt32, TInt32, TInt32, TInt32, TInt32, TUInt32, TUInt32],
      cd_encode = (\<lambda>event. CStruct [CUInt32 (pos_iTOW event), CInt32 (pos_lon event), CInt32 (pos_lat event),
        CInt32 (pos_height event), CInt32 (pos_hMSL event), CUInt32 (pos_hAcc event), CUInt32 (pos_vAcc event)]),
      cd_decode = (\<lambda>r. \<lparr>pos_iTOW = getUInt32 0 r, pos_lon = getInt32 1 r, pos_lat = getInt32 2 r,
        pos_height = getInt32 3 r, pos_hMSL = getInt32 4 r, pos_hAcc = getUInt32 5 r, pos_vAcc = getUInt32 6 r\<rparr>),
      cd_key = MSG_GEO_POS\<rparr>"

definition codec_GnssMonHwStruct :: "GnssMonHwStruct codec" where
  "codec_GnssMonHwStruct =
     \<lparr>cd_root = TStruct [TUInt16, TUInt16, TUInt8, TUInt8, TUInt8, TUInt8],
      cd_encode = (\<lambda>event. CStruct [CUInt16 (mhw_noisePerMS event), CUInt16 (mhw_agcCnt event),
        CUInt8 (mhw_antStatus event), CUInt8 (mhw_antPower event), CUInt8 (mhw_flags event), CUInt8 (mhw_jamInd event)]),
      cd_decode = (\<lambda>r. \<lparr>mhw_noisePerMS = getUInt16 0 r, mhw_agcCnt = getUInt16 1 r, mhw_antStatus = getUInt8 2 r,
        mhw_antPower = getUInt8 3 r, mhw_flags = getUInt8 4 r, mhw_jamInd = getUInt8 5 r\<rparr>),
      cd_key = MSG_UBX_MONHW\<rparr>"

definition codec_GnssMonHw2Struct :: "GnssMonHw2Struct codec" where
  "codec_GnssMonHw2Struct =
     \<lparr>cd_root = TStruct [TInt8, TUInt8, TInt8, TUInt8, TUInt8, TUInt32],
      cd_encode = (\<lambda>event. CStruct [CInt8 (mh2_ofsI event), CUInt8 (mh2_magI event), CInt8 (mh2_ofsQ event),
        CUInt8 (mh2_magQ event), CUInt8 (mh2_cfgSrc event), CUInt32 (mh2_postStatus event)]),
      cd_decode = (\<lambda>r. \<lparr>mh2_ofsI = getInt8 0 r, mh2_magI = getUInt8 1 r, mh2_ofsQ = getInt8 2 r,
        mh2_magQ = getUInt8 3 r, mh2_cfgSrc = getUInt8 4 r, mh2_postStatus = getUInt32 5 r\<rparr>),
      cd_key = MSG_UBX_MONHW2\<rparr>"

definition codec_GpsVersion :: "GpsVersion codec" where
  "codec_GpsVersion =
     \<lparr>cd_root = TStruct [TText, TText, TText],
      cd_encode = (\<lambda>event. CStruct [CText (gv_hwString event), CText (gv_swString event), CText (gv_prot event)]),
      cd_decode = (\<lambda>r. \<lparr>gv_hwString = cStr (getText 0 r), gv_swString = cStr (getText 1 r),
        gv_prot = cStr (getText 2 r)\<rparr>),
      cd_key = MSG_UBX_VERSION\<rparr>"

definition codec_NavClock :: "NavClock codec" where
  "codec_NavClock =
     \<lparr>cd_root = TStruct [TUInt32, TInt32, TInt32, TUInt32, TUInt32],
      cd_encode = (\<lambda>event. CStruct [CUInt32 (ncl_iTOW event), CInt32 (ncl_clkB event), CInt32 (ncl_clkD event),
        CUInt32 (ncl_tAcc event), CUInt32 (ncl_fAcc event)]),
      cd_decode = (\<lambda>r. \<lparr>ncl_iTOW = getUInt32 0 r, ncl_clkB = getInt32 1 r, ncl_clkD = getInt32 2 r,
        ncl_tAcc = getUInt32 3 r, ncl_fAcc = getUInt32 4 r\<rparr>),
      cd_key = MSG_UBX_NAVCLOCK\<rparr>"

text \<open>The schema has the seven 16-bit fields of a dilution of precision; three values are cut to them.\<close>

definition codec_NavStatus :: "NavStatus codec" where
  "codec_NavStatus =
     \<lparr>cd_root = TStruct [TUInt16, TUInt16, TUInt16, TUInt16, TUInt16, TUInt16, TUInt16],
      cd_encode = (\<lambda>event. CStruct [CUInt16 (ucast (nst_iTOW event)), CUInt16 (ucast (nst_gpsFix event)),
        CUInt16 (ucast (nst_flags event)), CUInt16 (ucast (nst_flags2 event)), CUInt16 (ucast (nst_ttff event)),
        CUInt16 (ucast (nst_msss event)), CUInt16 0]),
      cd_decode = (\<lambda>r. \<lparr>nst_iTOW = ucast (getUInt16 0 r), nst_gpsFix = ucast (getUInt16 1 r),
        nst_flags = ucast (getUInt16 2 r), nst_flags2 = ucast (getUInt16 3 r), nst_ttff = ucast (getUInt16 4 r),
        nst_msss = ucast (getUInt16 5 r)\<rparr>),
      cd_key = MSG_UBX_NAVSTATUS\<rparr>"

definition codec_UbxTimePulseStruct :: "UbxTimePulseStruct codec" where
  "codec_UbxTimePulseStruct =
     \<lparr>cd_root = TStruct [TUInt8, TUInt8, TInt16, TInt16, TUInt32, TUInt32, TUInt32, TUInt32, TInt32, TUInt32],
      cd_encode = (\<lambda>event. CStruct [CUInt8 (tp_tpIndex event), CUInt8 (tp_version event),
        CInt16 (tp_antCableDelay event), CInt16 (tp_rfGroupDelay event), CUInt32 (tp_freqPeriod event),
        CUInt32 (tp_freqPeriodLock event), CUInt32 (tp_pulseLenRatio event), CUInt32 (tp_pulseLenRatioLock event),
        CInt32 (tp_userConfigDelay event), CUInt32 (tp_flags event)]),
      cd_decode = (\<lambda>r. \<lparr>tp_tpIndex = getUInt8 0 r, tp_version = getUInt8 1 r, tp_antCableDelay = getInt16 2 r,
        tp_rfGroupDelay = getInt16 3 r, tp_freqPeriod = getUInt32 4 r, tp_freqPeriodLock = getUInt32 5 r,
        tp_pulseLenRatio = getUInt32 6 r, tp_pulseLenRatioLock = getUInt32 7 r,
        tp_userConfigDelay = getInt32 8 r, tp_flags = getUInt32 9 r\<rparr>),
      cd_key = MSG_UBX_CFG_TP5\<rparr>"

section \<open>Log files and histograms\<close>

text \<open>\<open>logEnabled\<close> is not sent; a new struct has it set.\<close>

definition codec_LogInfoStruct :: "LogInfoStruct codec" where
  "codec_LogInfoStruct =
     \<lparr>cd_root = TStruct [TText, TText, TUInt8, TUInt32, TUInt32, TUInt64, TUInt64],
      cd_encode = (\<lambda>event. CStruct [CText (log_logFileName event), CText (log_dataFileName event),
        CUInt8 (log_status event), CUInt32 (log_logFileSize event), CUInt32 (log_dataFileSize event),
        CUInt64 (word_of_int (log_logAge event)), CUInt64 (word_of_int (log_logRotationDuration event))]),
      cd_decode = (\<lambda>r. \<lparr>log_logFileName = cStr (getText 0 r), log_dataFileName = cStr (getText 1 r),
        log_status = getUInt8 2 r, log_logFileSize = getUInt32 3 r, log_dataFileSize = getUInt32 4 r,
        log_logAge = sint (getUInt64 5 r), log_logRotationDuration = sint (getUInt64 6 r), log_logEnabled = True\<rparr>),
      cd_key = MSG_LOG_INFO\<rparr>"

text \<open>The histogram that \<open>Histogram h;\<close> declares: what is not set below stays as it is here.\<close>

definition default_histogram :: Histogram where
  "default_histogram = histogram [0x64, 0x65, 0x66, 0x61, 0x75, 0x6c, 0x74, 0x48, 0x69, 0x73, 0x74, 0x6f] 100 0 1 False
     [0x41, 0x2e, 0x55, 0x2e]"

definition codec_Histogram :: "Histogram codec" where
  "codec_Histogram =
     \<lparr>cd_root = TStruct [TText, TText, TInt32, TFloat64, TFloat64, TFloat64, TFloat64, TBool,
        TList (TStruct [TInt32, TFloat64])],
      cd_encode = (\<lambda>h. CStruct [CText (h_name h), CText (h_unit h), CInt32 (word_of_int (h_nrBins h)),
        CFloat64 (h_min h), CFloat64 (h_max h), CFloat64 (h_overflow h), CFloat64 (h_underflow h),
        CBool (h_autoscale h),
        CList (map (\<lambda>(bin, content). CStruct [CInt32 (word_of_int bin), CFloat64 content]) (h_map h))]),
      cd_decode = (\<lambda>r.
        let h = setName (cStr (getText 0 r)) default_histogram;
            h = setUnit (cStr (getText 1 r)) h;
            h = setNrBins (sint (getInt32 2 r)) h;
            h = setMin (getFloat64 3 r) h;
            h = setMax (getFloat64 4 r) h;
            h = setAutoscale (getBool 7 r) h
        in fold (\<lambda>entry. setBinContent (sint (getInt32 0 entry)) (getFloat64 1 entry)) (getList 8 r) h),
      cd_key = MSG_HISTOGRAM\<rparr>"

end
