(* ===== verification/Codec_Commands.thy ===== *)
theory Codec_Commands
  imports Codec_Events
begin

text \<open>
  The codecs of the commands (\<open>library/src/capnp/capnp_codec.cpp\<close>), over the members of their structs.
\<close>

definition codec_StartBurstSampling :: "(u64 \<times> u64) codec" where
  "codec_StartBurstSampling =
     \<lparr>cd_root = TStruct [TUInt32, TUInt32],
      cd_encode = (\<lambda>(frequencyHz, samples). CStruct [CUInt32 (ucast frequencyHz), CUInt32 (ucast samples)]),
      cd_decode = (\<lambda>r. (ucast (getUInt32 0 r), ucast (getUInt32 1 r))),
      cd_key = MSG_RATE_SCAN\<rparr>"

definition codec_GainSwitchCmd :: "bool codec" where
  "codec_GainSwitchCmd =
     \<lparr>cd_root = TStruct [TBool], cd_encode = (\<lambda>state. CStruct [CBool state]), cd_decode = getBool 0,
      cd_key = MSG_GAIN_SWITCH\<rparr>"

definition codec_ThresholdSettingCmd :: "(u8 \<times> rat) codec" where
  "codec_ThresholdSettingCmd =
     \<lparr>cd_root = TStruct [TUInt8, TFloat32],
      cd_encode = (\<lambda>(channel, v). CStruct [CUInt8 channel, CFloat32 v]),
      cd_decode = (\<lambda>r. (getUInt8 0 r, getFloat32 1 r)),
      cd_key = MSG_THRESHOLD\<rparr>"

definition codec_PcaSwitchCmd :: "u8 codec" where
  "codec_PcaSwitchCmd =
     \<lparr>cd_root = TStruct [TUInt8], cd_encode = (\<lambda>mask. CStruct [CUInt8 mask]), cd_decode = getUInt8 0,
      cd_key = MSG_PCA_SWITCH\<rparr>"

definition codec_UbxMsgPollCmd :: "u16 codec" where
  "codec_UbxMsgPollCmd =
     \<lparr>cd_root = TStruct [TUInt16], cd_encode = (\<lambda>i. CStruct [CUInt16 i]), cd_decode = getUInt16 0,
      cd_key = MSG_UBX_MSG_POLL\<rparr>"

definition codec_UbxMsgRateCmd :: "UbxMsgRateCmd codec" where
  "codec_UbxMsgRateCmd =
     \<lparr>cd_root = TStruct [TUInt16, TUInt8, TUInt8],
      cd_encode = (\<lambda>cmd. CStruct [CUInt16 (mrc_id cmd), CUInt8 (mrc_port cmd), CUInt8 (mrc_rate cmd)]),
      cd_decode = (\<lambda>r. \<lparr>mrc_id = getUInt16 0 r, mrc_port = getUInt8 1 r, mrc_rate = getUInt8 2 r\<rparr>),
      cd_key = MSG_UBX_MSG_RATE\<rparr>"

definition codec_UbxGnssConfigCmd :: "GnssConfigStruct list codec" where
  "codec_UbxGnssConfigCmd =
     \<lparr>cd_root = TStruct [TList GnssConfigStructCapnp],
      cd_encode = (\<lambda>gnssConfigs. CStruct [CList (map enc_gnss_config gnssConfigs)]),
      cd_decode = (\<lambda>r. map dec_gnss_config (getList 0 r)),
      cd_key = MSG_UBX_GNSS_CONFIG\<rparr>"

text \<open>The next and \<open>UbxSetAopCmd\<close> have no key of their own: 0.\<close>

definition codec_UbxRateCmd :: "(u16 \<times> u16) codec" where
  "codec_UbxRateCmd =
     \<lparr>cd_root = TStruct [TUInt16, TUInt16],
      cd_encode = (\<lambda>(measRate, navRate). CStruct [CUInt16 measRate, CUInt16 navRate]),
      cd_decode = (\<lambda>r. (getUInt16 0 r, getUInt16 1 r)),
      cd_key = 0\<rparr>"

definition codec_UbxResetCmd :: "u32 codec" where
  "codec_UbxResetCmd =
     \<lparr>cd_root = TStruct [TUInt32], cd_encode = (\<lambda>resetFlags. CStruct [CUInt32 resetFlags]), cd_decode = getUInt32 0,
      cd_key = MSG_UBX_RESET\<rparr>"

definition codec_UbxSaveCmd :: "u32 codec" where
  "codec_UbxSaveCmd =
     \<lparr>cd_root = TStruct [TUInt32], cd_encode = (\<lambda>devMask. CStruct [CUInt32 devMask]), cd_decode = getUInt32 0,
      cd_key = MSG_UBX_CFG_SAVE\<rparr>"

definition codec_UbxSetAopCmd :: "(bool \<times> u16) codec" where
  "codec_UbxSetAopCmd =
     \<lparr>cd_root = TStruct [TBool, TUInt16],
      cd_encode = (\<lambda>(enable, maxOrbErr). CStruct [CBool enable, CUInt16 maxOrbErr]),
      cd_decode = (\<lambda>r. (getBool 0 r, getUInt16 1 r)),
      cd_key = 0\<rparr>"

definition codec_MqttInhibitCmd :: "bool codec" where
  "codec_MqttInhibitCmd =
     \<lparr>cd_root = TStruct [TBool], cd_encode = (\<lambda>inhibit. CStruct [CBool inhibit]), cd_decode = getBool 0,
      cd_key = MSG_MQTT_INHIBIT\<rparr>"

definition codec_PolaritySwitchCmd :: "(bool \<times> bool) codec" where
  "codec_PolaritySwitchCmd =
     \<lparr>cd_root = TStruct [TBool, TBool],
      cd_encode = (\<lambda>(pol1, pol2). CStruct [CBool pol1, CBool pol2]),
      cd_decode = (\<lambda>r. (getBool 0 r, getBool 1 r)),
      cd_key = MSG_POLARITY_SWITCH\<rparr>"

text \<open>The schema's channel is neither set nor read.\<close>

definition codec_BiasVoltageCmd :: "rat codec" where
  "codec_BiasVoltageCmd =
     \<lparr>cd_root = TStruct [TUInt8, TFloat32],
      cd_encode = (\<lambda>voltage. CStruct [CUInt8 0, CFloat32 voltage]),
      cd_decode = getFloat32 1,
      cd_key = MSG_BIAS_VOLTAGE\<rparr>"

definition codec_BiasSwitchCmd :: "bool codec" where
  "codec_BiasSwitchCmd =
     \<lparr>cd_root = TStruct [TBool], cd_encode = (\<lambda>state. CStruct [CBool state]), cd_decode = getBool 0,
      cd_key = MSG_BIAS_SWITCH\<rparr>"

text \<open>The state of the switch is not sent; a new command has it off.\<close>

definition codec_PreampSwitchCmd :: "(u8 \<times> bool) codec" where
  "codec_PreampSwitchCmd =
     \<lparr>cd_root = TStruct [TUInt8],
      cd_encode = (\<lambda>(channel, state). CStruct [CUInt8 channel]),
      cd_decode = (\<lambda>r. (getUInt8 0 r, False)),
      cd_key = MSG_PREAMP_SWITCH\<rparr>"

definition codec_AdcSampleTriggerCmd :: "u8 codec" where
  "codec_AdcSampleTriggerCmd =
     \<lparr>cd_root = TStruct [TUInt8], cd_encode = (\<lambda>channel. CStruct [CUInt8 channel]), cd_decode = getUInt8 0,
      cd_key = MSG_ADC_SAMPLE_REQUEST\<rparr>"

definition codec_HistogramClearCmd :: "byte list codec" where
  "codec_HistogramClearCmd =
     \<lparr>cd_root = TStruct [TText], cd_encode = (\<lambda>histogramName. CStruct [CText histogramName]),
      cd_decode = (\<lambda>r. cStr (getText 0 r)),
      cd_key = MSG_HISTOGRAM_CLEAR\<rparr>"

definition codec_GpioRateRequestCmd :: "u8 codec" where
  "codec_GpioRateRequestCmd =
     \<lparr>cd_root = TStruct [TUInt8], cd_encode = (\<lambda>n_points. CStruct [CUInt8 n_points]), cd_decode = getUInt8 0,
      cd_key = MSG_GPIO_RATE_REQUEST\<rparr>"

definition codec_EventTriggerCmd :: "u8 codec" where
  "codec_EventTriggerCmd =
     \<lparr>cd_root = TStruct [TUInt8], cd_encode = (\<lambda>signal. CStruct [CUInt8 signal]), cd_decode = getUInt8 0,
      cd_key = MSG_EVENTTRIGGER\<rparr>"

text \<open>A command without members: an empty struct.\<close>

definition EMPTY_CMD_CODEC :: "u16 \<Rightarrow> unit codec" where
  "EMPTY_CMD_CODEC key =
     \<lparr>cd_root = TStruct [], cd_encode = (\<lambda>_. CStruct []), cd_decode = (\<lambda>_. ()), cd_key = key\<rparr>"

definition codec_PreampSwitchRequestCmd :: "unit codec" where
  "codec_PreampSwitchRequestCmd = EMPTY_CMD_CODEC MSG_PREAMP_SWITCH_REQUEST"

definition codec_GpioRateResetCmd :: "unit codec" where
  "codec_GpioRateResetCmd = EMPTY_CMD_CODEC MSG_GPIO_RATE_RESET"

definition codec_UbxConfigDefaultCmd :: "unit codec" where
  "codec_UbxConfigDefaultCmd = EMPTY_CMD_CODEC MSG_UBX_CONFIG_DEFAULT"

definition codec_I2CStatsRequestCmd :: "unit codec" where
  "codec_I2CStatsRequestCmd = EMPTY_CMD_CODEC MSG_I2C_STATS_REQUEST"

definition codec_I2CScanBusCmd :: "unit codec" where
  "codec_I2CScanBusCmd = EMPTY_CMD_CODEC MSG_I2C_SCAN_BUS"

definition codec_SPIStatsRequestCmd :: "unit codec" where
  "codec_SPIStatsRequestCmd = EMPTY_CMD_CODEC MSG_SPI_STATS_REQUEST"

definition codec_CalibRequestCmd :: "unit codec" where
  "codec_CalibRequestCmd = EMPTY_CMD_CODEC MSG_CALIB_REQUEST"

definition codec_CalibSaveCmd :: "unit codec" where
  "codec_CalibSaveCmd = EMPTY_CMD_CODEC MSG_CALIB_SAVE"

definition codec_GainSwitchRequestCmd :: "unit codec" where
  "codec_GainSwitchRequestCmd = EMPTY_CMD_CODEC MSG_GAIN_SWITCH_REQUEST"

definition codec_DacSettingRequestCmd :: "unit codec" where
  "codec_DacSettingRequestCmd = EMPTY_CMD_CODEC MSG_THRESHOLD_REQUEST"

definition codec_ThresholdSettingRequestCmd :: "unit codec" where
  "codec_ThresholdSettingRequestCmd = EMPTY_CMD_CODEC MSG_THRESHOLD_REQUEST"

definition codec_PcaSwitchRequestCmd :: "unit codec" where
  "codec_PcaSwitchRequestCmd = EMPTY_CMD_CODEC MSG_PCA_SWITCH_REQUEST"

definition codec_AdcModeRequestCmd :: "unit codec" where
  "codec_AdcModeRequestCmd = EMPTY_CMD_CODEC MSG_ADC_MODE_REQUEST"

definition codec_PolaritySwitchRequestCmd :: "unit codec" where
  "codec_PolaritySwitchRequestCmd = EMPTY_CMD_CODEC MSG_POLARITY_SWITCH_REQUEST"

definition codec_BiasVoltageRequestCmd :: "unit codec" where
  "codec_BiasVoltageRequestCmd = EMPTY_CMD_CODEC MSG_BIAS_VOLTAGE_REQUEST"

definition codec_BiasSwitchRequestCmd :: "unit codec" where
  "codec_BiasSwitchRequestCmd = EMPTY_CMD_CODEC MSG_BIAS_SWITCH_REQUEST"

definition codec_TemperatureRequestCmd :: "unit codec" where
  "codec_TemperatureRequestCmd = EMPTY_CMD_CODEC MSG_TEMPERATURE_REQUEST"

definition codec_DacEepromSetCmd :: "unit codec" where
  "codec_DacEepromSetCmd = EMPTY_CMD_CODEC MSG_DAC_EEPROM_SET"

definition codec_EventTriggerRequestCmd :: "unit codec" where
  "codec_EventTriggerRequestCmd = EMPTY_CMD_CODEC MSG_EVENTTRIGGER_REQUEST"

definition codec_HistogramRequestCmd :: "unit codec" where
  "codec_HistogramRequestCmd = EMPTY_CMD_CODEC MSG_HISTOGRAM_REQUEST"

definition codec_UbxMsgRateRequestCmd :: "unit codec" where
  "codec_UbxMsgRateRequestCmd = EMPTY_CMD_CODEC MSG_UBX_MSG_RATE_REQUEST"

end
