(* ===== verification/Codec_Sound.thy ===== *)
theory Codec_Sound
  imports Codec_Commands
begin

text \<open>
  Every codec encodes to its schema and decodes what it has encoded. Where a codec cuts or leaves out
  members, or a text at its first NUL, \<open>seen\<close> says what arrives; \<open>fits\<close> holds of what can be sent: lists and
  texts below the limit of the library, and what the C++ types demand of the members.
\<close>

definition fits_text :: "byte list \<Rightarrow> bool" where
  "fits_text t \<longleftrightarrow> length t < cp_limit"

section \<open>Members that are lists\<close>

lemma map_put_append: "\<forall>k' \<in> fst ` set xs. k' < k \<Longrightarrow> map_put k v xs = xs @ [(k, v)]"
  by (induction k v xs rule: map_put.induct) auto

lemma fold_map_put:
  "sorted_wrt (<) (map fst (xs @ ys)) \<Longrightarrow> fold (\<lambda>(k, v). map_put k v) ys xs = xs @ ys"
proof (induction ys arbitrary: xs)
  case (Cons y ys)
  then have "map_put (fst y) (snd y) xs = xs @ [y]"
    by (subst map_put_append) (auto simp: sorted_wrt_append)
  then show ?case using Cons by (simp add: case_prod_beta)
qed simp

lemma update_new: "k \<notin> fst ` set xs \<Longrightarrow> AList.update k v xs = xs @ [(k, v)]"
  by (induction xs) auto

lemma fold_update:
  "distinct (map fst (xs @ ys)) \<Longrightarrow> fold (\<lambda>(k, v). AList.update k v) ys xs = xs @ ys"
proof (induction ys arbitrary: xs)
  case (Cons y ys)
  then have "AList.update (fst y) (snd y) xs = xs @ [y]"
    by (subst update_new) auto
  then show ?case using Cons by (simp add: case_prod_beta)
qed simp

lemma collect_distinct [simp]: "distinct (map fst xs) \<Longrightarrow> collect xs = xs"
  by (simp add: collect_def fold_update)

lemma read_array_map [simp]:
  "length xs = s_nr_targets \<Longrightarrow> (\<And>x. f (g x) = x) \<Longrightarrow> read_array f z (map g xs) = xs"
  by (rule nth_equalityI) (simp_all add: read_array_def)

lemma sint_of_int [simp]:
  "- (2 ^ 31) \<le> n \<Longrightarrow> n < 2 ^ 31 \<Longrightarrow> sint (word_of_int n :: i32) = n"
  "- (2 ^ 63) \<le> n \<Longrightarrow> n < 2 ^ 63 \<Longrightarrow> sint (word_of_int n :: i64) = n"
  by (simp_all add: signed_of_int signed_take_bit_int_eq_self)

section \<open>Events\<close>

lemma Sds011Event_sound [codec_rules]: "codec_sound codec_Sds011Event (\<lambda>_. True) (\<lambda>x. x)"
  by (rule codec_soundI) (simp_all add: codec_Sds011Event_def getters)

lemma AdcModeEvent_sound [codec_rules]: "codec_sound codec_AdcModeEvent (\<lambda>_. True) (\<lambda>x. x)"
  by (rule codec_soundI) (simp_all add: codec_AdcModeEvent_def getters)

lemma BiasSwitchEvent_sound [codec_rules]: "codec_sound codec_BiasSwitchEvent (\<lambda>_. True) (\<lambda>x. x)"
  by (rule codec_soundI) (simp_all add: codec_BiasSwitchEvent_def getters)

lemma BiasVoltageEvent_sound [codec_rules]: "codec_sound codec_BiasVoltageEvent (\<lambda>_. True) (\<lambda>x. x)"
  by (rule codec_soundI) (simp_all add: codec_BiasVoltageEvent_def getters)

lemma GainSwitchEvent_sound [codec_rules]: "codec_sound codec_GainSwitchEvent (\<lambda>_. True) (\<lambda>x. x)"
  by (rule codec_soundI) (simp_all add: codec_GainSwitchEvent_def getters)

lemma PcaSwitchEvent_sound [codec_rules]: "codec_sound codec_PcaSwitchEvent (\<lambda>_. True) (\<lambda>x. x)"
  by (rule codec_soundI) (simp_all add: codec_PcaSwitchEvent_def getters)

lemma PolaritySwitchEvent_sound [codec_rules]: "codec_sound codec_PolaritySwitchEvent (\<lambda>_. True) (\<lambda>x. x)"
  by (rule codec_soundI) (simp_all add: codec_PolaritySwitchEvent_def getters)

lemma PreampSwitchEvent_sound [codec_rules]: "codec_sound codec_PreampSwitchEvent (\<lambda>_. True) (\<lambda>x. x)"
  by (rule codec_soundI) (simp_all add: codec_PreampSwitchEvent_def getters)

lemma GpioInhibitEvent_sound [codec_rules]: "codec_sound codec_GpioInhibitEvent (\<lambda>_. True) (\<lambda>x. x)"
  by (rule codec_soundI) (simp_all add: codec_GpioInhibitEvent_def getters)

lemma MqttInhibitEvent_sound [codec_rules]: "codec_sound codec_MqttInhibitEvent (\<lambda>_. True) (\<lambda>x. x)"
  by (rule codec_soundI) (simp_all add: codec_MqttInhibitEvent_def getters)

lemma SPIStatsEvent_sound [codec_rules]: "codec_sound codec_SPIStatsEvent (\<lambda>_. True) (\<lambda>x. x)"
  by (rule codec_soundI) (simp_all add: codec_SPIStatsEvent_def getters)

lemma ThresholdSettingEvent_sound [codec_rules]: "codec_sound codec_ThresholdSettingEvent (\<lambda>_. True) (\<lambda>x. x)"
  by (rule codec_soundI) (simp_all add: codec_ThresholdSettingEvent_def getters)

lemma EventTriggerEvent_sound [codec_rules]: "codec_sound codec_EventTriggerEvent (\<lambda>_. True) (\<lambda>x. x)"
  by (rule codec_soundI) (simp_all add: codec_EventTriggerEvent_def getters)

lemma GnssPosStruct_sound [codec_rules]: "codec_sound codec_GnssPosStruct (\<lambda>_. True) (\<lambda>x. x)"
  by (rule codec_soundI) (simp_all add: codec_GnssPosStruct_def getters)

lemma GnssMonHwStruct_sound [codec_rules]: "codec_sound codec_GnssMonHwStruct (\<lambda>_. True) (\<lambda>x. x)"
  by (rule codec_soundI) (simp_all add: codec_GnssMonHwStruct_def getters)

lemma GnssMonHw2Struct_sound [codec_rules]: "codec_sound codec_GnssMonHw2Struct (\<lambda>_. True) (\<lambda>x. x)"
  by (rule codec_soundI) (simp_all add: codec_GnssMonHw2Struct_def getters)

lemma NavClock_sound [codec_rules]: "codec_sound codec_NavClock (\<lambda>_. True) (\<lambda>x. x)"
  by (rule codec_soundI) (simp_all add: codec_NavClock_def getters)

lemma UbxTimePulseStruct_sound [codec_rules]: "codec_sound codec_UbxTimePulseStruct (\<lambda>_. True) (\<lambda>x. x)"
  by (rule codec_soundI) (simp_all add: codec_UbxTimePulseStruct_def getters)

text \<open>Members left out or cut.\<close>

definition seen_ADS1115 :: "ADS1115Event \<Rightarrow> ADS1115Event" where
  "seen_ADS1115 e = e\<lparr>ads_convTime := None\<rparr>"

lemma ADS1115Event_sound [codec_rules]: "codec_sound codec_ADS1115Event (\<lambda>_. True) seen_ADS1115"
  by (rule codec_soundI) (simp_all add: codec_ADS1115Event_def getters seen_ADS1115_def)

definition seen_Temperature :: "TemperatureEvent \<Rightarrow> TemperatureEvent" where
  "seen_Temperature e = e\<lparr>tev_source := unknown_source\<rparr>"

lemma TemperatureEvent_sound [codec_rules]: "codec_sound codec_TemperatureEvent (\<lambda>_. True) seen_Temperature"
  by (rule codec_soundI) (simp_all add: codec_TemperatureEvent_def getters seen_Temperature_def)

definition seen_NavStatus :: "NavStatus \<Rightarrow> NavStatus" where
  "seen_NavStatus e = e\<lparr>nst_iTOW := take_bit 16 (nst_iTOW e), nst_ttff := take_bit 16 (nst_ttff e),
     nst_msss := take_bit 16 (nst_msss e)\<rparr>"

lemma ucast_ucast_take_bit:
  fixes w :: u32 and v :: u64
  shows "ucast (ucast w :: u16) = take_bit 16 w" "ucast (ucast w :: u8) = take_bit 8 w"
    "ucast (ucast v :: u32) = take_bit 32 v"
  by (rule bit_word_eqI; auto simp: bit_simps dest: bit_imp_le_length)+

lemma ucast_up_down: "ucast (ucast (b :: u8) :: u16) = b" "ucast (ucast (b :: u8) :: u32) = b"
  by (rule bit_word_eqI; auto simp: bit_simps dest: bit_imp_le_length)+

lemma NavStatus_sound [codec_rules]: "codec_sound codec_NavStatus (\<lambda>_. True) seen_NavStatus"
  by (rule codec_soundI)
    (simp_all add: codec_NavStatus_def getters seen_NavStatus_def ucast_ucast_take_bit ucast_up_down)

definition fits_Gpio :: "gpio_event \<Rightarrow> bool" where
  "fits_Gpio e \<longleftrightarrow> - (2 ^ 63) \<le> ge_timestamp e \<and> ge_timestamp e < 2 ^ 63"

definition seen_Gpio :: "gpio_event \<Rightarrow> gpio_event" where
  "seen_Gpio e = e\<lparr>ge_pin := take_bit 8 (ge_pin e)\<rparr>"

lemma octet_edge_octet [simp]: "octet_edge (edge_octet e) = e"
  by (cases e) (simp_all add: edge_octet_def octet_edge_def)

lemma GpioEvent_sound [codec_rules]: "codec_sound codec_GpioEvent fits_Gpio seen_Gpio"
  by (rule codec_soundI)
    (simp_all add: codec_GpioEvent_def getters fits_Gpio_def seen_Gpio_def ucast_ucast_take_bit)

definition fits_CfgMsg :: "CfgMsg \<Rightarrow> bool" where
  "fits_CfgMsg e \<longleftrightarrow> - (2 ^ 31) \<le> cm_rate e \<and> cm_rate e < 2 ^ 31"

lemma CfgMsg_sound [codec_rules]: "codec_sound codec_CfgMsg fits_CfgMsg (\<lambda>x. x)"
  by (rule codec_soundI) (simp_all add: codec_CfgMsg_def getters fits_CfgMsg_def)

definition fits_timespec :: "timespec \<Rightarrow> bool" where
  "fits_timespec t \<longleftrightarrow> - (2 ^ 63) \<le> tv_sec t \<and> tv_sec t < 2 ^ 63 \<and> 0 \<le> tv_nsec t \<and> tv_nsec t < 10 ^ 9"

definition fits_TimeMark :: "UbxTimeMarkStruct \<Rightarrow> bool" where
  "fits_TimeMark e \<longleftrightarrow> fits_timespec (tmk_rising e) \<and> fits_timespec (tmk_falling e)"

lemma UbxTimeMarkStruct_sound [codec_rules]: "codec_sound codec_UbxTimeMarkStruct fits_TimeMark (\<lambda>x. x)"
  by (rule codec_soundI)
    (simp_all add: codec_UbxTimeMarkStruct_def getters fits_TimeMark_def fits_timespec_def Let_def)

definition fits_NavSat :: "NavSat \<Rightarrow> bool" where
  "fits_NavSat e \<longleftrightarrow> nsa_goodSats e < 2 ^ 64 \<and> length (nsa_satellites e) < cp_limit"

lemma satellite_sound [simp]: "dec_satellite (enc_satellite s) = s" "conforms GnssSatelliteCapnp (enc_satellite s)"
  by (simp_all add: dec_satellite_def enc_satellite_def GnssSatelliteCapnp_def getters)

lemma NavSat_sound [codec_rules]: "codec_sound codec_NavSat fits_NavSat (\<lambda>x. x)"
  by (rule codec_soundI)
    (auto simp: codec_NavSat_def getters fits_NavSat_def comp_def unat_of_nat split: option.split)

lemma gnss_config_sound [simp]:
  "dec_gnss_config (enc_gnss_config c) = c" "conforms GnssConfigStructCapnp (enc_gnss_config c)"
  by (simp_all add: dec_gnss_config_def enc_gnss_config_def GnssConfigStructCapnp_def getters)

definition fits_CfgGNSS :: "CfgGNSS \<Rightarrow> bool" where
  "fits_CfgGNSS e \<longleftrightarrow> length (cgn_configs e) < cp_limit"

lemma CfgGNSS_sound [codec_rules]: "codec_sound codec_CfgGNSS fits_CfgGNSS (\<lambda>x. x)"
  by (rule codec_soundI) (simp_all add: codec_CfgGNSS_def getters fits_CfgGNSS_def comp_def)

definition fits_AdcTrace :: "rat list \<Rightarrow> bool" where
  "fits_AdcTrace xs \<longleftrightarrow> length xs < cp_limit"

lemma AdcTraceEvent_sound [codec_rules]: "codec_sound codec_AdcTraceEvent fits_AdcTrace (\<lambda>x. x)"
  by (rule codec_soundI) (simp_all add: codec_AdcTraceEvent_def getters fits_AdcTrace_def comp_def)

definition fits_GpioRate :: "GpioRateEvent \<Rightarrow> bool" where
  "fits_GpioRate e \<longleftrightarrow> length (gre_rate e) < cp_limit"

lemma GpioRateEvent_sound [codec_rules]: "codec_sound codec_GpioRateEvent fits_GpioRate (\<lambda>x. x)"
  by (rule codec_soundI)
    (simp_all add: codec_GpioRateEvent_def getters fits_GpioRate_def comp_def case_prod_beta)

text \<open>Texts.\<close>

definition seen_CalibStruct :: "CalibStruct \<Rightarrow> CalibStruct" where
  "seen_CalibStruct c = c\<lparr>cal_name := cStr (cal_name c), cal_type := cStr (cal_type c), cal_value := cStr (cal_value c)\<rparr>"

definition fits_Calib :: "CalibEvent \<Rightarrow> bool" where
  "fits_Calib e \<longleftrightarrow> length (cev_calibList e) < cp_limit
     \<and> (\<forall>c \<in> set (cev_calibList e). fits_text (cal_name c) \<and> fits_text (cal_type c) \<and> fits_text (cal_value c))"

definition seen_Calib :: "CalibEvent \<Rightarrow> CalibEvent" where
  "seen_Calib e = e\<lparr>cev_calibList := map seen_CalibStruct (cev_calibList e)\<rparr>"

lemma CalibEvent_sound [codec_rules]: "codec_sound codec_CalibEvent fits_Calib seen_Calib"
  by (rule codec_soundI)
    (simp_all add: codec_CalibEvent_def getters fits_Calib_def fits_text_def seen_Calib_def seen_CalibStruct_def comp_def)

definition fits_I2CStats :: "I2CStatsEvent \<Rightarrow> bool" where
  "fits_I2CStats e \<longleftrightarrow> length (ise_deviceList e) < cp_limit \<and> (\<forall>d \<in> set (ise_deviceList e). fits_text (ide_name d))"

definition seen_I2CStats :: "I2CStatsEvent \<Rightarrow> I2CStatsEvent" where
  "seen_I2CStats e = e\<lparr>ise_deviceList := map (\<lambda>d. d\<lparr>ide_name := cStr (ide_name d)\<rparr>) (ise_deviceList e)\<rparr>"

lemma I2CStatsEvent_sound [codec_rules]: "codec_sound codec_I2CStatsEvent fits_I2CStats seen_I2CStats"
  by (rule codec_soundI)
    (simp_all add: codec_I2CStatsEvent_def getters fits_I2CStats_def fits_text_def seen_I2CStats_def comp_def)

definition fits_MqttStatus :: "MqttStatusEvent \<Rightarrow> bool" where
  "fits_MqttStatus e \<longleftrightarrow> fits_text (mqs_text e)"

definition seen_MqttStatus :: "MqttStatusEvent \<Rightarrow> MqttStatusEvent" where
  "seen_MqttStatus e = e\<lparr>mqs_status := take_bit 8 (mqs_status e)\<rparr>"

lemma MqttStatusEvent_sound [codec_rules]: "codec_sound codec_MqttStatusEvent fits_MqttStatus seen_MqttStatus"
  by (rule codec_soundI)
    (simp_all add: codec_MqttStatusEvent_def getters fits_MqttStatus_def fits_text_def seen_MqttStatus_def
      ucast_ucast_take_bit)

definition fits_GpsVersion :: "GpsVersion \<Rightarrow> bool" where
  "fits_GpsVersion e \<longleftrightarrow> fits_text (gv_hwString e) \<and> fits_text (gv_swString e) \<and> fits_text (gv_prot e)"

definition seen_GpsVersion :: "GpsVersion \<Rightarrow> GpsVersion" where
  "seen_GpsVersion e = \<lparr>gv_hwString = cStr (gv_hwString e), gv_swString = cStr (gv_swString e),
     gv_prot = cStr (gv_prot e)\<rparr>"

lemma GpsVersion_sound [codec_rules]: "codec_sound codec_GpsVersion fits_GpsVersion seen_GpsVersion"
  by (rule codec_soundI)
    (simp_all add: codec_GpsVersion_def getters fits_GpsVersion_def fits_text_def seen_GpsVersion_def)

definition fits_Version :: "Version \<Rightarrow> bool" where
  "fits_Version v \<longleftrightarrow> fits_text (ver_additional v) \<and> fits_text (ver_hash v)"

definition seen_Version :: "Version \<Rightarrow> Version" where
  "seen_Version v = v\<lparr>ver_additional := cStr (ver_additional v), ver_hash := cStr (ver_hash v)\<rparr>"

lemma version_sound [simp]:
  "dec_version (enc_version v) = seen_Version v" "fits_Version v \<Longrightarrow> conforms VersionCapnp (enc_version v)"
  by (simp_all add: dec_version_def enc_version_def VersionCapnp_def seen_Version_def fits_Version_def fits_text_def getters)

definition fits_VersionEvent :: "VersionEvent \<Rightarrow> bool" where
  "fits_VersionEvent e \<longleftrightarrow> fits_Version (vev_hw_ver e) \<and> fits_Version (vev_sw_ver e)"

definition seen_VersionEvent :: "VersionEvent \<Rightarrow> VersionEvent" where
  "seen_VersionEvent e = \<lparr>vev_hw_ver = seen_Version (vev_hw_ver e), vev_sw_ver = seen_Version (vev_sw_ver e)\<rparr>"

lemma getStruct_version [simp]:
  "getStruct 0 (CStruct [enc_version v, c]) = enc_version v" "getStruct 1 (CStruct [c, enc_version v]) = enc_version v"
  "getStruct (Suc 0) (CStruct [c, enc_version v]) = enc_version v"
  by (simp_all add: getters enc_version_def)

lemma VersionEvent_sound [codec_rules]: "codec_sound codec_VersionEvent fits_VersionEvent seen_VersionEvent"
  by (rule codec_soundI)
    (simp_all add: codec_VersionEvent_def fits_VersionEvent_def seen_VersionEvent_def)

definition fits_LogInfo :: "LogInfoStruct \<Rightarrow> bool" where
  "fits_LogInfo e \<longleftrightarrow> fits_text (log_logFileName e) \<and> fits_text (log_dataFileName e)
     \<and> - (2 ^ 63) \<le> log_logAge e \<and> log_logAge e < 2 ^ 63
     \<and> - (2 ^ 63) \<le> log_logRotationDuration e \<and> log_logRotationDuration e < 2 ^ 63"

definition seen_LogInfo :: "LogInfoStruct \<Rightarrow> LogInfoStruct" where
  "seen_LogInfo e = e\<lparr>log_logFileName := cStr (log_logFileName e), log_dataFileName := cStr (log_dataFileName e),
     log_logEnabled := True\<rparr>"

lemma LogInfoStruct_sound [codec_rules]: "codec_sound codec_LogInfoStruct fits_LogInfo seen_LogInfo"
  by (rule codec_soundI)
    (simp_all add: codec_LogInfoStruct_def getters fits_LogInfo_def fits_text_def seen_LogInfo_def)

text \<open>Maps and arrays.\<close>

definition fits_map :: "('k \<times> 'v) list \<Rightarrow> bool" where
  "fits_map m \<longleftrightarrow> distinct (map fst m) \<and> length m < cp_limit"

definition fits_MCP4728 :: "MCP4728Event \<Rightarrow> bool" where
  "fits_MCP4728 e \<longleftrightarrow> fits_map (dac_dacValues e) \<and> fits_map (dac_voltages e)
     \<and> (case dac_eepromValues e of None \<Rightarrow> True | Some m \<Rightarrow> fits_map m)"

lemma MCP4728Event_sound [codec_rules]: "codec_sound codec_MCP4728Event fits_MCP4728 (\<lambda>x. x)"
  by (rule codec_soundI)
    (auto simp: codec_MCP4728Event_def getters fits_MCP4728_def fits_map_def comp_def case_prod_beta cp_limit_def
      split: option.split option.splits)

definition fits_mon :: "u16 list \<Rightarrow> u8 list \<Rightarrow> u8 list \<Rightarrow> bool" where
  "fits_mon pending usage peakUsage \<longleftrightarrow>
     length pending = s_nr_targets \<and> length usage = s_nr_targets \<and> length peakUsage = s_nr_targets"

lemma mon_sound [simp]:
  "fits_mon p u k \<Longrightarrow> conforms MonCapnp (encodeMonBuffer p u k a b)"
  by (simp add: encodeMonBuffer_def MonCapnp_def fits_mon_def cp_limit_def s_nr_targets_def)

lemma MonRx_sound [codec_rules]:
  "codec_sound codec_MonRx (\<lambda>e. fits_mon (mrx_pending e) (mrx_usage e) (mrx_peakUsage e)) (\<lambda>x. x)"
  by (rule codec_soundI) (simp add: codec_MonRx_def, simp add: codec_MonRx_def encodeMonBuffer_def fits_mon_def getters)

lemma MonTx_sound [codec_rules]:
  "codec_sound codec_MonTx (\<lambda>e. fits_mon (mtx_pending e) (mtx_usage e) (mtx_peakUsage e)) (\<lambda>x. x)"
  by (rule codec_soundI) (simp add: codec_MonTx_def, simp add: codec_MonTx_def encodeMonBuffer_def fits_mon_def getters)

text \<open>Position mode: the enumerations have few values.\<close>

definition seen_PositionMode :: "PositionModeConfig \<Rightarrow> PositionModeConfig" where
  "seen_PositionMode e = e\<lparr>pmc_mode := take_bit 16 (pmc_mode e), pmc_filter_config := take_bit 16 (pmc_filter_config e)\<rparr>"

lemma PositionModeConfig_sound [codec_rules]: "codec_sound codec_PositionModeConfig (\<lambda>_. True) seen_PositionMode"
  by (rule codec_soundI)
    (simp_all add: codec_PositionModeConfig_def getters Let_def seen_PositionMode_def ucast_ucast_take_bit)

section \<open>Histograms\<close>

definition fits_Histogram :: "Histogram \<Rightarrow> bool" where
  "fits_Histogram h \<longleftrightarrow> fits_text (h_name h) \<and> fits_text (h_unit h) \<and> length (h_map h) < cp_limit
     \<and> - (2 ^ 31) \<le> h_nrBins h \<and> h_nrBins h < 2 ^ 31
     \<and> sorted_wrt (<) (map fst (h_map h)) \<and> (\<forall>e \<in> set (h_map h). 0 \<le> fst e \<and> fst e < h_nrBins h)"

definition seen_Histogram :: "Histogram \<Rightarrow> Histogram" where
  "seen_Histogram h = h\<lparr>h_name := cStr (h_name h), h_unit := cStr (h_unit h), h_overflow := 0, h_underflow := 0\<rparr>"

lemma fold_setBinContent:
  assumes "\<forall>e \<in> set m. 0 \<le> fst e \<and> fst e < h_nrBins h"
  shows "fold (\<lambda>e. setBinContent (fst e) (snd e)) m h = h\<lparr>h_map := fold (\<lambda>(k, v). map_put k v) m (h_map h)\<rparr>"
  using assms
proof (induction m arbitrary: h)
  case (Cons e m)
  then show ?case using Cons.IH [of "setBinContent (fst e) (snd e) h"]
    by (simp add: setBinContent_def case_prod_beta)
qed simp

lemma Histogram_decode:
  assumes "fits_Histogram h"
  shows "cd_decode codec_Histogram (cd_encode codec_Histogram h) = seen_Histogram h"
proof -
  define h0 where "h0 = seen_Histogram h\<lparr>h_map := []\<rparr>"
  have "fold (\<lambda>entry. setBinContent (sint (getInt32 0 entry)) (getFloat64 1 entry))
      (map (\<lambda>(bin, content). CStruct [CInt32 (word_of_int bin), CFloat64 content]) (h_map h)) h0
    = fold (\<lambda>e. setBinContent (fst e) (snd e)) (h_map h) h0"
    using assms by (auto simp: fold_map comp_def case_prod_beta getters fits_Histogram_def intro!: List.fold_cong)
  also have "\<dots> = h0\<lparr>h_map := h_map h\<rparr>"
    using assms fold_map_put [of "[]" "h_map h"]
    by (subst fold_setBinContent) (auto simp: h0_def seen_Histogram_def fits_Histogram_def)
  finally have bins: "fold (\<lambda>entry. setBinContent (sint (getInt32 0 entry)) (getFloat64 1 entry))
      (map (\<lambda>(bin, content). CStruct [CInt32 (word_of_int bin), CFloat64 content]) (h_map h)) h0 = seen_Histogram h"
    by (simp add: h0_def seen_Histogram_def)
  let ?r = "cd_encode codec_Histogram h"
  have r: "getText 0 ?r = h_name h" "getText 1 ?r = h_unit h" "sint (getInt32 2 ?r) = h_nrBins h"
      "getFloat64 3 ?r = h_min h" "getFloat64 4 ?r = h_max h" "getBool 7 ?r = h_autoscale h"
      "getList 8 ?r = map (\<lambda>(bin, content). CStruct [CInt32 (word_of_int bin), CFloat64 content]) (h_map h)"
    using assms by (simp_all add: codec_Histogram_def getters fits_Histogram_def)
  have "cd_decode codec_Histogram r = fold (\<lambda>entry. setBinContent (sint (getInt32 0 entry)) (getFloat64 1 entry))
      (getList 8 r) (setAutoscale (getBool 7 r) (setMax (getFloat64 4 r) (setMin (getFloat64 3 r)
        (setNrBins (sint (getInt32 2 r)) (setUnit (cStr (getText 1 r)) (setName (cStr (getText 0 r)) default_histogram))))))"
    for r by (simp add: codec_Histogram_def Let_def)
  moreover have "setAutoscale (h_autoscale h) (setMax (h_max h) (setMin (h_min h) (setNrBins (h_nrBins h)
      (setUnit (cStr (h_unit h)) (setName (cStr (h_name h)) default_histogram))))) = h0"
    by (simp add: h0_def seen_Histogram_def default_histogram_def histogram_def
        setName_def setUnit_def setNrBins_def hist_clear_def setMin_def setMax_def setAutoscale_def)
  ultimately show ?thesis by (simp only: r bins)
qed

lemma Histogram_sound [codec_rules]: "codec_sound codec_Histogram fits_Histogram seen_Histogram"
  by (rule codec_soundI)
    (simp add: codec_Histogram_def fits_Histogram_def fits_text_def case_prod_beta, rule Histogram_decode)

section \<open>Commands\<close>

lemma GainSwitchCmd_sound [codec_rules]: "codec_sound codec_GainSwitchCmd (\<lambda>_. True) (\<lambda>x. x)"
  by (rule codec_soundI) (simp_all add: codec_GainSwitchCmd_def getters)

lemma ThresholdSettingCmd_sound [codec_rules]: "codec_sound codec_ThresholdSettingCmd (\<lambda>_. True) (\<lambda>x. x)"
  by (rule codec_soundI) (simp_all add: codec_ThresholdSettingCmd_def getters split: prod.split)

lemma PcaSwitchCmd_sound [codec_rules]: "codec_sound codec_PcaSwitchCmd (\<lambda>_. True) (\<lambda>x. x)"
  by (rule codec_soundI) (simp_all add: codec_PcaSwitchCmd_def getters)

lemma UbxMsgPollCmd_sound [codec_rules]: "codec_sound codec_UbxMsgPollCmd (\<lambda>_. True) (\<lambda>x. x)"
  by (rule codec_soundI) (simp_all add: codec_UbxMsgPollCmd_def getters)

lemma UbxMsgRateCmd_sound [codec_rules]: "codec_sound codec_UbxMsgRateCmd (\<lambda>_. True) (\<lambda>x. x)"
  by (rule codec_soundI) (simp_all add: codec_UbxMsgRateCmd_def getters)

lemma UbxRateCmd_sound [codec_rules]: "codec_sound codec_UbxRateCmd (\<lambda>_. True) (\<lambda>x. x)"
  by (rule codec_soundI) (simp_all add: codec_UbxRateCmd_def getters split: prod.split)

lemma UbxResetCmd_sound [codec_rules]: "codec_sound codec_UbxResetCmd (\<lambda>_. True) (\<lambda>x. x)"
  by (rule codec_soundI) (simp_all add: codec_UbxResetCmd_def getters)

lemma UbxSaveCmd_sound [codec_rules]: "codec_sound codec_UbxSaveCmd (\<lambda>_. True) (\<lambda>x. x)"
  by (rule codec_soundI) (simp_all add: codec_UbxSaveCmd_def getters)

lemma UbxSetAopCmd_sound [codec_rules]: "codec_sound codec_UbxSetAopCmd (\<lambda>_. True) (\<lambda>x. x)"
  by (rule codec_soundI) (simp_all add: codec_UbxSetAopCmd_def getters split: prod.split)

lemma MqttInhibitCmd_sound [codec_rules]: "codec_sound codec_MqttInhibitCmd (\<lambda>_. True) (\<lambda>x. x)"
  by (rule codec_soundI) (simp_all add: codec_MqttInhibitCmd_def getters)

lemma PolaritySwitchCmd_sound [codec_rules]: "codec_sound codec_PolaritySwitchCmd (\<lambda>_. True) (\<lambda>x. x)"
  by (rule codec_soundI) (simp_all add: codec_PolaritySwitchCmd_def getters split: prod.split)

lemma BiasVoltageCmd_sound [codec_rules]: "codec_sound codec_BiasVoltageCmd (\<lambda>_. True) (\<lambda>x. x)"
  by (rule codec_soundI) (simp_all add: codec_BiasVoltageCmd_def getters)

lemma BiasSwitchCmd_sound [codec_rules]: "codec_sound codec_BiasSwitchCmd (\<lambda>_. True) (\<lambda>x. x)"
  by (rule codec_soundI) (simp_all add: codec_BiasSwitchCmd_def getters)

lemma AdcSampleTriggerCmd_sound [codec_rules]: "codec_sound codec_AdcSampleTriggerCmd (\<lambda>_. True) (\<lambda>x. x)"
  by (rule codec_soundI) (simp_all add: codec_AdcSampleTriggerCmd_def getters)

lemma GpioRateRequestCmd_sound [codec_rules]: "codec_sound codec_GpioRateRequestCmd (\<lambda>_. True) (\<lambda>x. x)"
  by (rule codec_soundI) (simp_all add: codec_GpioRateRequestCmd_def getters)

lemma EventTriggerCmd_sound [codec_rules]: "codec_sound codec_EventTriggerCmd (\<lambda>_. True) (\<lambda>x. x)"
  by (rule codec_soundI) (simp_all add: codec_EventTriggerCmd_def getters)

lemma PreampSwitchRequestCmd_sound [codec_rules]: "codec_sound codec_PreampSwitchRequestCmd (\<lambda>_. True) (\<lambda>x. x)"
  by (rule codec_soundI) (simp_all add: codec_PreampSwitchRequestCmd_def EMPTY_CMD_CODEC_def)

lemma GpioRateResetCmd_sound [codec_rules]: "codec_sound codec_GpioRateResetCmd (\<lambda>_. True) (\<lambda>x. x)"
  by (rule codec_soundI) (simp_all add: codec_GpioRateResetCmd_def EMPTY_CMD_CODEC_def)

lemma UbxConfigDefaultCmd_sound [codec_rules]: "codec_sound codec_UbxConfigDefaultCmd (\<lambda>_. True) (\<lambda>x. x)"
  by (rule codec_soundI) (simp_all add: codec_UbxConfigDefaultCmd_def EMPTY_CMD_CODEC_def)

lemma I2CStatsRequestCmd_sound [codec_rules]: "codec_sound codec_I2CStatsRequestCmd (\<lambda>_. True) (\<lambda>x. x)"
  by (rule codec_soundI) (simp_all add: codec_I2CStatsRequestCmd_def EMPTY_CMD_CODEC_def)

lemma I2CScanBusCmd_sound [codec_rules]: "codec_sound codec_I2CScanBusCmd (\<lambda>_. True) (\<lambda>x. x)"
  by (rule codec_soundI) (simp_all add: codec_I2CScanBusCmd_def EMPTY_CMD_CODEC_def)

lemma SPIStatsRequestCmd_sound [codec_rules]: "codec_sound codec_SPIStatsRequestCmd (\<lambda>_. True) (\<lambda>x. x)"
  by (rule codec_soundI) (simp_all add: codec_SPIStatsRequestCmd_def EMPTY_CMD_CODEC_def)

lemma CalibRequestCmd_sound [codec_rules]: "codec_sound codec_CalibRequestCmd (\<lambda>_. True) (\<lambda>x. x)"
  by (rule codec_soundI) (simp_all add: codec_CalibRequestCmd_def EMPTY_CMD_CODEC_def)

lemma CalibSaveCmd_sound [codec_rules]: "codec_sound codec_CalibSaveCmd (\<lambda>_. True) (\<lambda>x. x)"
  by (rule codec_soundI) (simp_all add: codec_CalibSaveCmd_def EMPTY_CMD_CODEC_def)

lemma GainSwitchRequestCmd_sound [codec_rules]: "codec_sound codec_GainSwitchRequestCmd (\<lambda>_. True) (\<lambda>x. x)"
  by (rule codec_soundI) (simp_all add: codec_GainSwitchRequestCmd_def EMPTY_CMD_CODEC_def)

lemma DacSettingRequestCmd_sound [codec_rules]: "codec_sound codec_DacSettingRequestCmd (\<lambda>_. True) (\<lambda>x. x)"
  by (rule codec_soundI) (simp_all add: codec_DacSettingRequestCmd_def EMPTY_CMD_CODEC_def)

lemma ThresholdSettingRequestCmd_sound [codec_rules]: "codec_sound codec_ThresholdSettingRequestCmd (\<lambda>_. True) (\<lambda>x. x)"
  by (rule codec_soundI) (simp_all add: codec_ThresholdSettingRequestCmd_def EMPTY_CMD_CODEC_def)

lemma PcaSwitchRequestCmd_sound [codec_rules]: "codec_sound codec_PcaSwitchRequestCmd (\<lambda>_. True) (\<lambda>x. x)"
  by (rule codec_soundI) (simp_all add: codec_PcaSwitchRequestCmd_def EMPTY_CMD_CODEC_def)

lemma AdcModeRequestCmd_sound [codec_rules]: "codec_sound codec_AdcModeRequestCmd (\<lambda>_. True) (\<lambda>x. x)"
  by (rule codec_soundI) (simp_all add: codec_AdcModeRequestCmd_def EMPTY_CMD_CODEC_def)

lemma PolaritySwitchRequestCmd_sound [codec_rules]: "codec_sound codec_PolaritySwitchRequestCmd (\<lambda>_. True) (\<lambda>x. x)"
  by (rule codec_soundI) (simp_all add: codec_PolaritySwitchRequestCmd_def EMPTY_CMD_CODEC_def)

lemma BiasVoltageRequestCmd_sound [codec_rules]: "codec_sound codec_BiasVoltageRequestCmd (\<lambda>_. True) (\<lambda>x. x)"
  by (rule codec_soundI) (simp_all add: codec_BiasVoltageRequestCmd_def EMPTY_CMD_CODEC_def)

lemma BiasSwitchRequestCmd_sound [codec_rules]: "codec_sound codec_BiasSwitchRequestCmd (\<lambda>_. True) (\<lambda>x. x)"
  by (rule codec_soundI) (simp_all add: codec_BiasSwitchRequestCmd_def EMPTY_CMD_CODEC_def)

lemma TemperatureRequestCmd_sound [codec_rules]: "codec_sound codec_TemperatureRequestCmd (\<lambda>_. True) (\<lambda>x. x)"
  by (rule codec_soundI) (simp_all add: codec_TemperatureRequestCmd_def EMPTY_CMD_CODEC_def)

lemma DacEepromSetCmd_sound [codec_rules]: "codec_sound codec_DacEepromSetCmd (\<lambda>_. True) (\<lambda>x. x)"
  by (rule codec_soundI) (simp_all add: codec_DacEepromSetCmd_def EMPTY_CMD_CODEC_def)

lemma EventTriggerRequestCmd_sound [codec_rules]: "codec_sound codec_EventTriggerRequestCmd (\<lambda>_. True) (\<lambda>x. x)"
  by (rule codec_soundI) (simp_all add: codec_EventTriggerRequestCmd_def EMPTY_CMD_CODEC_def)

lemma HistogramRequestCmd_sound [codec_rules]: "codec_sound codec_HistogramRequestCmd (\<lambda>_. True) (\<lambda>x. x)"
  by (rule codec_soundI) (simp_all add: codec_HistogramRequestCmd_def EMPTY_CMD_CODEC_def)

lemma UbxMsgRateRequestCmd_sound [codec_rules]: "codec_sound codec_UbxMsgRateRequestCmd (\<lambda>_. True) (\<lambda>x. x)"
  by (rule codec_soundI) (simp_all add: codec_UbxMsgRateRequestCmd_def EMPTY_CMD_CODEC_def)

lemma UbxGnssConfigCmd_sound [codec_rules]: "codec_sound codec_UbxGnssConfigCmd (\<lambda>g. length g < cp_limit) (\<lambda>x. x)"
  by (rule codec_soundI) (simp_all add: codec_UbxGnssConfigCmd_def getters comp_def)

lemma StartBurstSampling_sound [codec_rules]:
  "codec_sound codec_StartBurstSampling (\<lambda>_. True) (\<lambda>(f, n). (take_bit 32 f, take_bit 32 n))"
  by (rule codec_soundI) (simp_all add: codec_StartBurstSampling_def getters ucast_ucast_take_bit split: prod.split)

lemma PreampSwitchCmd_sound [codec_rules]:
  "codec_sound codec_PreampSwitchCmd (\<lambda>_. True) (\<lambda>(c, state). (c, False))"
  by (rule codec_soundI) (simp_all add: codec_PreampSwitchCmd_def getters split: prod.split)

lemma HistogramClearCmd_sound [codec_rules]: "codec_sound codec_HistogramClearCmd fits_text cStr"
  by (rule codec_soundI) (simp_all add: codec_HistogramClearCmd_def getters fits_text_def)

end
