(* ===== verification/Protocol.thy ===== *)
theory Protocol
  imports Codec_Sound
begin

text \<open>
  Daemon and client over packets: which events the daemon sends (\<open>EventBindings::setupTcpSink\<close>,
  \<open>TcpSink::handle\<close>), how the client decodes them (\<open>MainWindow::buildDecoderMap\<close>), what the client sends
  (\<open>gui/src/mainwindow.cpp\<close>) and what the daemon makes of it (\<open>TcpCommandDecoder::handle\<close>). A packet is its
  key and its payload; \<open>flat\<close> and \<open>read\<close> are the packing of the Cap'n Proto library.
\<close>

section \<open>From the daemon to the client\<close>

primrec subscribed :: "event \<Rightarrow> bool" where
  "subscribed (Ev_AdcMode _) = True"
| "subscribed (Ev_AdcTrace _) = True"
| "subscribed (Ev_ADS1115 _) = True"
| "subscribed (Ev_BiasSwitch _) = True"
| "subscribed (Ev_BiasVoltage _) = True"
| "subscribed (Ev_Calib _) = True"
| "subscribed (Ev_GainSwitch _) = True"
| "subscribed (Ev_GpioRate _) = True"
| "subscribed (Ev_GpioInhibit _) = True"
| "subscribed (Ev_I2CStats _) = True"
| "subscribed (Ev_Temperature _) = True"
| "subscribed (Ev_MCP4728 _) = True"
| "subscribed (Ev_MqttStatus _) = True"
| "subscribed (Ev_PcaSwitch _) = True"
| "subscribed (Ev_PolaritySwitch _) = True"
| "subscribed (Ev_PreampSwitch _) = True"
| "subscribed (Ev_SPIStats _) = True"
| "subscribed (Ev_Gpio _) = True"
| "subscribed (Ev_ThresholdSetting _) = True"
| "subscribed (Ev_NavSat _) = True"
| "subscribed (Ev_CfgMsg _) = True"
| "subscribed (Ev_CfgGNSS _) = True"
| "subscribed (Ev_GnssPos _) = True"
| "subscribed (Ev_TimeMark _) = True"
| "subscribed (Ev_MonTx _) = True"
| "subscribed (Ev_MonRx _) = True"
| "subscribed (Ev_MonHw _) = True"
| "subscribed (Ev_MonHw2 _) = True"
| "subscribed (Ev_GpsVersion _) = True"
| "subscribed (Ev_NavStatus _) = True"
| "subscribed (Ev_NavClock _) = True"
| "subscribed (Ev_TimePulse _) = True"
| "subscribed (Ev_Histogram _) = True"
| "subscribed (Ev_LogInfo _) = True"
| "subscribed (Ev_PositionMode _) = True"
| "subscribed (Ev_Version _) = True"
| "subscribed (Ev_EventTrigger _) = False"
| "subscribed (Ev_MqttInhibit _) = False"
| "subscribed (Ev_Sds011 _) = False"

primrec event_packet :: "(cp \<Rightarrow> 'w) \<Rightarrow> event \<Rightarrow> u16 \<times> 'w" where
  "event_packet flat (Ev_AdcMode e) = encode_with flat codec_AdcModeEvent e"
| "event_packet flat (Ev_AdcTrace e) = encode_with flat codec_AdcTraceEvent e"
| "event_packet flat (Ev_ADS1115 e) = encode_with flat codec_ADS1115Event e"
| "event_packet flat (Ev_BiasSwitch e) = encode_with flat codec_BiasSwitchEvent e"
| "event_packet flat (Ev_BiasVoltage e) = encode_with flat codec_BiasVoltageEvent e"
| "event_packet flat (Ev_Calib e) = encode_with flat codec_CalibEvent e"
| "event_packet flat (Ev_GainSwitch e) = encode_with flat codec_GainSwitchEvent e"
| "event_packet flat (Ev_GpioRate e) = encode_with flat codec_GpioRateEvent e"
| "event_packet flat (Ev_GpioInhibit e) = encode_with flat codec_GpioInhibitEvent e"
| "event_packet flat (Ev_I2CStats e) = encode_with flat codec_I2CStatsEvent e"
| "event_packet flat (Ev_Temperature e) = encode_with flat codec_TemperatureEvent e"
| "event_packet flat (Ev_MCP4728 e) = encode_with flat codec_MCP4728Event e"
| "event_packet flat (Ev_MqttStatus e) = encode_with flat codec_MqttStatusEvent e"
| "event_packet flat (Ev_PcaSwitch e) = encode_with flat codec_PcaSwitchEvent e"
| "event_packet flat (Ev_PolaritySwitch e) = encode_with flat codec_PolaritySwitchEvent e"
| "event_packet flat (Ev_PreampSwitch e) = encode_with flat codec_PreampSwitchEvent e"
| "event_packet flat (Ev_SPIStats e) = encode_with flat codec_SPIStatsEvent e"
| "event_packet flat (Ev_Gpio e) = encode_with flat codec_GpioEvent e"
| "event_packet flat (Ev_ThresholdSetting e) = encode_with flat codec_ThresholdSettingEvent e"
| "event_packet flat (Ev_NavSat e) = encode_with flat codec_NavSat e"
| "event_packet flat (Ev_CfgMsg e) = encode_with flat codec_CfgMsg e"
| "event_packet flat (Ev_CfgGNSS e) = encode_with flat codec_CfgGNSS e"
| "event_packet flat (Ev_GnssPos e) = encode_with flat codec_GnssPosStruct e"
| "event_packet flat (Ev_TimeMark e) = encode_with flat codec_UbxTimeMarkStruct e"
| "event_packet flat (Ev_MonTx e) = encode_with flat codec_MonTx e"
| "event_packet flat (Ev_MonRx e) = encode_with flat codec_MonRx e"
| "event_packet flat (Ev_MonHw e) = encode_with flat codec_GnssMonHwStruct e"
| "event_packet flat (Ev_MonHw2 e) = encode_with flat codec_GnssMonHw2Struct e"
| "event_packet flat (Ev_GpsVersion e) = encode_with flat codec_GpsVersion e"
| "event_packet flat (Ev_NavStatus e) = encode_with flat codec_NavStatus e"
| "event_packet flat (Ev_NavClock e) = encode_with flat codec_NavClock e"
| "event_packet flat (Ev_TimePulse e) = encode_with flat codec_UbxTimePulseStruct e"
| "event_packet flat (Ev_Histogram e) = encode_with flat codec_Histogram e"
| "event_packet flat (Ev_LogInfo e) = encode_with flat codec_LogInfoStruct e"
| "event_packet flat (Ev_PositionMode e) = encode_with flat codec_PositionModeConfig e"
| "event_packet flat (Ev_Version e) = encode_with flat codec_VersionEvent e"
| "event_packet flat (Ev_EventTrigger e) = encode_with flat codec_EventTriggerEvent e"
| "event_packet flat (Ev_MqttInhibit e) = encode_with flat codec_MqttInhibitEvent e"
| "event_packet flat (Ev_Sds011 e) = encode_with flat codec_Sds011Event e"

text \<open>The schema the codec of an event names.\<close>

primrec event_schema :: "event \<Rightarrow> cp_type" where
  "event_schema (Ev_AdcMode _) = cd_root codec_AdcModeEvent"
| "event_schema (Ev_AdcTrace _) = cd_root codec_AdcTraceEvent"
| "event_schema (Ev_ADS1115 _) = cd_root codec_ADS1115Event"
| "event_schema (Ev_BiasSwitch _) = cd_root codec_BiasSwitchEvent"
| "event_schema (Ev_BiasVoltage _) = cd_root codec_BiasVoltageEvent"
| "event_schema (Ev_Calib _) = cd_root codec_CalibEvent"
| "event_schema (Ev_GainSwitch _) = cd_root codec_GainSwitchEvent"
| "event_schema (Ev_GpioRate _) = cd_root codec_GpioRateEvent"
| "event_schema (Ev_GpioInhibit _) = cd_root codec_GpioInhibitEvent"
| "event_schema (Ev_I2CStats _) = cd_root codec_I2CStatsEvent"
| "event_schema (Ev_Temperature _) = cd_root codec_TemperatureEvent"
| "event_schema (Ev_MCP4728 _) = cd_root codec_MCP4728Event"
| "event_schema (Ev_MqttStatus _) = cd_root codec_MqttStatusEvent"
| "event_schema (Ev_PcaSwitch _) = cd_root codec_PcaSwitchEvent"
| "event_schema (Ev_PolaritySwitch _) = cd_root codec_PolaritySwitchEvent"
| "event_schema (Ev_PreampSwitch _) = cd_root codec_PreampSwitchEvent"
| "event_schema (Ev_SPIStats _) = cd_root codec_SPIStatsEvent"
| "event_schema (Ev_Gpio _) = cd_root codec_GpioEvent"
| "event_schema (Ev_ThresholdSetting _) = cd_root codec_ThresholdSettingEvent"
| "event_schema (Ev_NavSat _) = cd_root codec_NavSat"
| "event_schema (Ev_CfgMsg _) = cd_root codec_CfgMsg"
| "event_schema (Ev_CfgGNSS _) = cd_root codec_CfgGNSS"
| "event_schema (Ev_GnssPos _) = cd_root codec_GnssPosStruct"
| "event_schema (Ev_TimeMark _) = cd_root codec_UbxTimeMarkStruct"
| "event_schema (Ev_MonTx _) = cd_root codec_MonTx"
| "event_schema (Ev_MonRx _) = cd_root codec_MonRx"
| "event_schema (Ev_MonHw _) = cd_root codec_GnssMonHwStruct"
| "event_schema (Ev_MonHw2 _) = cd_root codec_GnssMonHw2Struct"
| "event_schema (Ev_GpsVersion _) = cd_root codec_GpsVersion"
| "event_schema (Ev_NavStatus _) = cd_root codec_NavStatus"
| "event_schema (Ev_NavClock _) = cd_root codec_NavClock"
| "event_schema (Ev_TimePulse _) = cd_root codec_UbxTimePulseStruct"
| "event_schema (Ev_Histogram _) = cd_root codec_Histogram"
| "event_schema (Ev_LogInfo _) = cd_root codec_LogInfoStruct"
| "event_schema (Ev_PositionMode _) = cd_root codec_PositionModeConfig"
| "event_schema (Ev_Version _) = cd_root codec_VersionEvent"
| "event_schema (Ev_EventTrigger _) = cd_root codec_EventTriggerEvent"
| "event_schema (Ev_MqttInhibit _) = cd_root codec_MqttInhibitEvent"
| "event_schema (Ev_Sds011 _) = cd_root codec_Sds011Event"

text \<open>What a decoder of the client reads; an exception of the library is None.\<close>

definition decoderMap :: "(cp_type \<Rightarrow> 'w \<Rightarrow> cp option) \<Rightarrow> (u16 \<times> ('w \<Rightarrow> event option)) list" where
  "decoderMap read =
     [(MSG_GPIO_EVENT, \<lambda>d. map_option Ev_Gpio (decode_with read codec_GpioEvent d)),
      (MSG_UBX_MSG_RATE, \<lambda>d. map_option Ev_CfgMsg (decode_with read codec_CfgMsg d)),
      (MSG_THRESHOLD, \<lambda>d. map_option Ev_ThresholdSetting (decode_with read codec_ThresholdSettingEvent d)),
      (MSG_BIAS_VOLTAGE, \<lambda>d. map_option Ev_BiasVoltage (decode_with read codec_BiasVoltageEvent d)),
      (MSG_BIAS_SWITCH, \<lambda>d. map_option Ev_BiasSwitch (decode_with read codec_BiasSwitchEvent d)),
      (MSG_PREAMP_SWITCH, \<lambda>d. map_option Ev_PreampSwitch (decode_with read codec_PreampSwitchEvent d)),
      (MSG_GAIN_SWITCH, \<lambda>d. map_option Ev_GainSwitch (decode_with read codec_GainSwitchEvent d)),
      (MSG_PCA_SWITCH, \<lambda>d. map_option Ev_PcaSwitch (decode_with read codec_PcaSwitchEvent d)),
      (MSG_POLARITY_SWITCH, \<lambda>d. map_option Ev_PolaritySwitch (decode_with read codec_PolaritySwitchEvent d)),
      (MSG_EVENTTRIGGER, \<lambda>d. map_option Ev_EventTrigger (decode_with read codec_EventTriggerEvent d)),
      (MSG_GPIO_RATE, \<lambda>d. map_option Ev_GpioRate (decode_with read codec_GpioRateEvent d)),
      (MSG_GEO_POS, \<lambda>d. map_option Ev_GnssPos (decode_with read codec_GnssPosStruct d)),
      (MSG_ADC_SAMPLE, \<lambda>d. map_option Ev_ADS1115 (decode_with read codec_ADS1115Event d)),
      (MSG_ADC_TRACE, \<lambda>d. map_option Ev_AdcTrace (decode_with read codec_AdcTraceEvent d)),
      (MSG_DAC_READBACK, \<lambda>d. map_option Ev_MCP4728 (decode_with read codec_MCP4728Event d)),
      (MSG_TEMPERATURE, \<lambda>d. map_option Ev_Temperature (decode_with read codec_TemperatureEvent d)),
      (MSG_I2C_STATS, \<lambda>d. map_option Ev_I2CStats (decode_with read codec_I2CStatsEvent d)),
      (MSG_SPI_STATS, \<lambda>d. map_option Ev_SPIStats (decode_with read codec_SPIStatsEvent d)),
      (MSG_CALIB_SET, \<lambda>d. map_option Ev_Calib (decode_with read codec_CalibEvent d)),
      (MSG_GNSS_SATS, \<lambda>d. map_option Ev_NavSat (decode_with read codec_NavSat d)),
      (MSG_UBX_GNSS_CONFIG, \<lambda>d. map_option Ev_CfgGNSS (decode_with read codec_CfgGNSS d)),
      (MSG_UBX_TIMEMARK, \<lambda>d. map_option Ev_TimeMark (decode_with read codec_UbxTimeMarkStruct d)),
      (MSG_UBX_TXBUF, \<lambda>d. map_option Ev_MonTx (decode_with read codec_MonTx d)),
      (MSG_UBX_RXBUF, \<lambda>d. map_option Ev_MonRx (decode_with read codec_MonRx d)),
      (MSG_UBX_RXBUF_PEAK, \<lambda>d. map_option Ev_MonRx (decode_with read codec_MonRx d)),
      (MSG_UBX_MONHW, \<lambda>d. map_option Ev_MonHw (decode_with read codec_GnssMonHwStruct d)),
      (MSG_UBX_MONHW2, \<lambda>d. map_option Ev_MonHw2 (decode_with read codec_GnssMonHw2Struct d)),
      (MSG_UBX_VERSION, \<lambda>d. map_option Ev_GpsVersion (decode_with read codec_GpsVersion d)),
      (MSG_UBX_NAVCLOCK, \<lambda>d. map_option Ev_NavClock (decode_with read codec_NavClock d)),
      (MSG_UBX_NAVSTATUS, \<lambda>d. map_option Ev_NavStatus (decode_with read codec_NavStatus d)),
      (MSG_UBX_CFG_TP5, \<lambda>d. map_option Ev_TimePulse (decode_with read codec_UbxTimePulseStruct d)),
      (MSG_HISTOGRAM, \<lambda>d. map_option Ev_Histogram (decode_with read codec_Histogram d)),
      (MSG_ADC_MODE, \<lambda>d. map_option Ev_AdcMode (decode_with read codec_AdcModeEvent d)),
      (MSG_LOG_INFO, \<lambda>d. map_option Ev_LogInfo (decode_with read codec_LogInfoStruct d)),
      (MSG_MQTT_STATUS, \<lambda>d. map_option Ev_MqttStatus (decode_with read codec_MqttStatusEvent d)),
      (MSG_GPIO_INHIBIT, \<lambda>d. map_option Ev_GpioInhibit (decode_with read codec_GpioInhibitEvent d)),
      (MSG_MQTT_INHIBIT, \<lambda>d. map_option Ev_MqttInhibit (decode_with read codec_MqttInhibitEvent d)),
      (MSG_VERSION, \<lambda>d. map_option Ev_Version (decode_with read codec_VersionEvent d)),
      (MSG_POSITION_MODEL, \<lambda>d. map_option Ev_PositionMode (decode_with read codec_PositionModeConfig d))]"

datatype gui_result = Pong | Unknown_key | Decode_throws | Received event

text \<open>\<open>MainWindow::decode\<close>, and the packet handler of the client, which answers a heartbeat itself.\<close>

definition gui_decode :: "(cp_type \<Rightarrow> 'w \<Rightarrow> cp option) \<Rightarrow> u16 \<times> 'w \<Rightarrow> gui_result" where
  "gui_decode read = (\<lambda>(key, payload).
     (case map_of (decoderMap read) key of None \<Rightarrow> Unknown_key
      | Some f \<Rightarrow> (case f payload of None \<Rightarrow> Decode_throws | Some e \<Rightarrow> Received e)))"

definition gui_handle :: "(cp_type \<Rightarrow> 'w \<Rightarrow> cp option) \<Rightarrow> u16 \<times> 'w \<Rightarrow> gui_result" where
  "gui_handle read packet = (if fst packet = MSG_PING then Pong else gui_decode read packet)"

section \<open>From the client to the daemon\<close>

text \<open>\<open>sendCmdIfConnected\<close> on an open connection.\<close>

primrec client_packet :: "(cp \<Rightarrow> 'w) \<Rightarrow> command \<Rightarrow> u16 \<times> 'w" where
  "client_packet flat (GainSwitchCmd s) = encode_with flat codec_GainSwitchCmd s"
| "client_packet flat (ThresholdSettingCmd c v) = encode_with flat codec_ThresholdSettingCmd (c, v)"
| "client_packet flat (PcaSwitchCmd m) = encode_with flat codec_PcaSwitchCmd m"
| "client_packet flat (UbxMsgPollCmd i) = encode_with flat codec_UbxMsgPollCmd i"
| "client_packet flat (UbxMsgRate c) = encode_with flat codec_UbxMsgRateCmd c"
| "client_packet flat (UbxGnssConfigCmd g) = encode_with flat codec_UbxGnssConfigCmd g"
| "client_packet flat (UbxRateCmd m n) = encode_with flat codec_UbxRateCmd (m, n)"
| "client_packet flat (UbxResetCmd f) = encode_with flat codec_UbxResetCmd f"
| "client_packet flat (UbxSaveCmd d) = encode_with flat codec_UbxSaveCmd d"
| "client_packet flat (UbxSetAopCmd e m) = encode_with flat codec_UbxSetAopCmd (e, m)"
| "client_packet flat (MqttInhibitCmd i) = encode_with flat codec_MqttInhibitCmd i"
| "client_packet flat (PolaritySwitchCmd p q) = encode_with flat codec_PolaritySwitchCmd (p, q)"
| "client_packet flat (BiasVoltageCmd v) = encode_with flat codec_BiasVoltageCmd v"
| "client_packet flat (BiasSwitchCmd s) = encode_with flat codec_BiasSwitchCmd s"
| "client_packet flat (PreampSwitchCmd c s) = encode_with flat codec_PreampSwitchCmd (c, s)"
| "client_packet flat (AdcSampleTriggerCmd c) = encode_with flat codec_AdcSampleTriggerCmd c"
| "client_packet flat (HistogramClearCmd n) = encode_with flat codec_HistogramClearCmd n"
| "client_packet flat (GpioRateRequestCmd n) = encode_with flat codec_GpioRateRequestCmd n"
| "client_packet flat (EventTriggerCmd s) = encode_with flat codec_EventTriggerCmd s"
| "client_packet flat (StartBurstSampling f n) = encode_with flat codec_StartBurstSampling (f, n)"
| "client_packet flat (UbxTp5Cmd t) = encode_with flat codec_UbxTimePulseStruct t"
| "client_packet flat (PositionModeCmd p) = encode_with flat codec_PositionModeConfig p"
| "client_packet flat (Cmd_AdcMode m) = encode_with flat codec_AdcModeEvent m"
| "client_packet flat (Cmd_GpioInhibit i) = encode_with flat codec_GpioInhibitEvent i"
| "client_packet flat (Cmd_Calib e) = encode_with flat codec_CalibEvent e"
| "client_packet flat PreampSwitchRequestCmd = encode_with flat codec_PreampSwitchRequestCmd ()"
| "client_packet flat GpioRateResetCmd = encode_with flat codec_GpioRateResetCmd ()"
| "client_packet flat UbxConfigDefaultCmd = encode_with flat codec_UbxConfigDefaultCmd ()"
| "client_packet flat I2CStatsRequestCmd = encode_with flat codec_I2CStatsRequestCmd ()"
| "client_packet flat I2CScanBusCmd = encode_with flat codec_I2CScanBusCmd ()"
| "client_packet flat SPIStatsRequestCmd = encode_with flat codec_SPIStatsRequestCmd ()"
| "client_packet flat CalibRequestCmd = encode_with flat codec_CalibRequestCmd ()"
| "client_packet flat CalibSaveCmd = encode_with flat codec_CalibSaveCmd ()"
| "client_packet flat GainSwitchRequestCmd = encode_with flat codec_GainSwitchRequestCmd ()"
| "client_packet flat DacSettingRequestCmd = encode_with flat codec_DacSettingRequestCmd ()"
| "client_packet flat ThresholdSettingRequestCmd = encode_with flat codec_ThresholdSettingRequestCmd ()"
| "client_packet flat PcaSwitchRequestCmd = encode_with flat codec_PcaSwitchRequestCmd ()"
| "client_packet flat AdcModeRequestCmd = encode_with flat codec_AdcModeRequestCmd ()"
| "client_packet flat PolaritySwitchRequestCmd = encode_with flat codec_PolaritySwitchRequestCmd ()"
| "client_packet flat BiasVoltageRequestCmd = encode_with flat codec_BiasVoltageRequestCmd ()"
| "client_packet flat BiasSwitchRequestCmd = encode_with flat codec_BiasSwitchRequestCmd ()"
| "client_packet flat TemperatureRequestCmd = encode_with flat codec_TemperatureRequestCmd ()"
| "client_packet flat DacEepromSetCmd = encode_with flat codec_DacEepromSetCmd ()"
| "client_packet flat EventTriggerRequestCmd = encode_with flat codec_EventTriggerRequestCmd ()"
| "client_packet flat HistogramRequestCmd = encode_with flat codec_HistogramRequestCmd ()"
| "client_packet flat UbxMsgRateRequestCmd = encode_with flat codec_UbxMsgRateRequestCmd ()"

text \<open>The slots of the main window that name the key themselves.\<close>

definition sendSetBiasVoltage :: "(cp \<Rightarrow> 'w) \<Rightarrow> rat \<Rightarrow> u16 \<times> 'w" where
  "sendSetBiasVoltage flat voltage = (MSG_BIAS_VOLTAGE, flat (cd_encode codec_BiasVoltageCmd voltage))"

definition sendSetBiasStatus :: "(cp \<Rightarrow> 'w) \<Rightarrow> bool \<Rightarrow> u16 \<times> 'w" where
  "sendSetBiasStatus flat status = (MSG_BIAS_SWITCH, flat (cd_encode codec_BiasSwitchCmd status))"

definition sendGainSwitch :: "(cp \<Rightarrow> 'w) \<Rightarrow> bool \<Rightarrow> u16 \<times> 'w" where
  "sendGainSwitch flat status = (MSG_GAIN_SWITCH, flat (cd_encode codec_GainSwitchCmd status))"

definition sendPreamp1Switch :: "(cp \<Rightarrow> 'w) \<Rightarrow> bool \<Rightarrow> u16 \<times> 'w" where
  "sendPreamp1Switch flat status = (MSG_PREAMP_SWITCH, flat (cd_encode codec_PreampSwitchCmd (0, status)))"

definition sendPreamp2Switch :: "(cp \<Rightarrow> 'w) \<Rightarrow> bool \<Rightarrow> u16 \<times> 'w" where
  "sendPreamp2Switch flat status = (MSG_PREAMP_SWITCH, flat (cd_encode codec_PreampSwitchCmd (1, status)))"

definition sendSetThresh :: "(cp \<Rightarrow> 'w) \<Rightarrow> u8 \<Rightarrow> rat \<Rightarrow> u16 \<times> 'w" where
  "sendSetThresh flat channel v = (MSG_THRESHOLD, flat (cd_encode codec_ThresholdSettingCmd (channel, v)))"

definition sendSetCfgMsgRateChange :: "(cp \<Rightarrow> 'w) \<Rightarrow> u16 \<Rightarrow> int \<Rightarrow> u16 \<times> 'w" where
  "sendSetCfgMsgRateChange flat key rate =
     (MSG_UBX_MSG_RATE, flat (cd_encode codec_UbxMsgRateCmd
        \<lparr>mrc_id = key, mrc_port = 1, mrc_rate = word_of_int (max 0 (min 255 rate))\<rparr>))"

definition sendSetAdcMode :: "(cp \<Rightarrow> 'w) \<Rightarrow> u8 \<Rightarrow> u16 \<times> 'w" where
  "sendSetAdcMode flat mode = (MSG_ADC_MODE, flat (cd_encode codec_AdcModeEvent mode))"

definition onSetGnssConfigs :: "(cp \<Rightarrow> 'w) \<Rightarrow> GnssConfigStruct list \<Rightarrow> u16 \<times> 'w" where
  "onSetGnssConfigs flat configList = (MSG_UBX_GNSS_CONFIG, flat (cd_encode codec_UbxGnssConfigCmd configList))"

definition onSetTP5Config :: "(cp \<Rightarrow> 'w) \<Rightarrow> UbxTimePulseStruct \<Rightarrow> u16 \<times> 'w" where
  "onSetTP5Config flat tp = (MSG_UBX_CFG_TP5, flat (cd_encode codec_UbxTimePulseStruct tp))"

definition gpioInhibit :: "(cp \<Rightarrow> 'w) \<Rightarrow> bool \<Rightarrow> u16 \<times> 'w" where
  "gpioInhibit flat inhibit = (MSG_GPIO_INHIBIT, flat (cd_encode codec_GpioInhibitEvent inhibit))"

definition mqttInhibit :: "(cp \<Rightarrow> 'w) \<Rightarrow> bool \<Rightarrow> u16 \<times> 'w" where
  "mqttInhibit flat inhibit = (MSG_MQTT_INHIBIT, flat (cd_encode codec_MqttInhibitCmd inhibit))"

definition onPolarityChanged :: "(cp \<Rightarrow> 'w) \<Rightarrow> bool \<Rightarrow> bool \<Rightarrow> u16 \<times> 'w" where
  "onPolarityChanged flat pol1 pol2 =
     (MSG_POLARITY_SWITCH, flat (cd_encode codec_PolaritySwitchEvent \<lparr>pse_pol1 = pol1, pse_pol2 = pol2\<rparr>))"

definition onPosModeConfigChanged :: "(cp \<Rightarrow> 'w) \<Rightarrow> PositionModeConfig \<Rightarrow> u16 \<times> 'w" where
  "onPosModeConfigChanged flat posconfig = (MSG_POSITION_MODEL, flat (cd_encode codec_PositionModeConfig posconfig))"

text \<open>The undefined input selection (255) is not sent.\<close>

definition sendInputSwitch :: "(cp \<Rightarrow> 'w) \<Rightarrow> u8 \<Rightarrow> (u16 \<times> 'w) option" where
  "sendInputSwitch flat sel =
     (if sel = 255 then None else Some (MSG_PCA_SWITCH, flat (cd_encode codec_PcaSwitchCmd sel)))"

section \<open>The command decoder of the daemon\<close>

text \<open>The cases of the switch, each with what it publishes.\<close>

definition decoder_cases :: "(cp_type \<Rightarrow> 'w \<Rightarrow> cp option) \<Rightarrow> (u16 \<times> ('w \<Rightarrow> command option)) list" where
  "decoder_cases read =
     [(MSG_UBX_CFG_TP5, \<lambda>d. map_option UbxTp5Cmd (decode_with read codec_UbxTimePulseStruct d)),
      (MSG_UBX_GNSS_CONFIG, \<lambda>d. map_option UbxGnssConfigCmd (decode_with read codec_UbxGnssConfigCmd d)),
      (MSG_UBX_MSG_RATE, \<lambda>d. map_option UbxMsgRate (decode_with read codec_UbxMsgRateCmd d)),
      (MSG_UBX_MSG_POLL, \<lambda>d. map_option UbxMsgPollCmd (decode_with read codec_UbxMsgPollCmd d)),
      (MSG_UBX_MSG_RATE_REQUEST, \<lambda>d. map_option (\<lambda>_. UbxMsgRateRequestCmd) (decode_with read codec_UbxMsgRateRequestCmd d)),
      (MSG_UBX_RESET, \<lambda>d. map_option UbxResetCmd (decode_with read codec_UbxResetCmd d)),
      (MSG_UBX_CFG_SAVE, \<lambda>d. map_option UbxSaveCmd (decode_with read codec_UbxSaveCmd d)),
      (MSG_UBX_CONFIG_DEFAULT, \<lambda>d. map_option (\<lambda>_. UbxConfigDefaultCmd) (decode_with read codec_UbxConfigDefaultCmd d)),
      (MSG_RATE_SCAN, \<lambda>d. map_option (\<lambda>(f, n). StartBurstSampling f n) (decode_with read codec_StartBurstSampling d)),
      (MSG_MQTT_INHIBIT, \<lambda>d. map_option MqttInhibitCmd (decode_with read codec_MqttInhibitCmd d)),
      (MSG_GPIO_INHIBIT, \<lambda>d. map_option Cmd_GpioInhibit (decode_with read codec_GpioInhibitEvent d)),
      (MSG_GPIO_RATE_RESET, \<lambda>d. map_option (\<lambda>_. GpioRateResetCmd) (decode_with read codec_GpioRateResetCmd d)),
      (MSG_I2C_STATS_REQUEST, \<lambda>d. map_option (\<lambda>_. I2CStatsRequestCmd) (decode_with read codec_I2CStatsRequestCmd d)),
      (MSG_I2C_SCAN_BUS, \<lambda>d. map_option (\<lambda>_. I2CScanBusCmd) (decode_with read codec_I2CScanBusCmd d)),
      (MSG_CALIB_REQUEST, \<lambda>d. map_option (\<lambda>_. CalibRequestCmd) (decode_with read codec_CalibRequestCmd d)),
      (MSG_CALIB_SAVE, \<lambda>d. map_option (\<lambda>_. CalibSaveCmd) (decode_with read codec_CalibSaveCmd d)),
      (MSG_PREAMP_SWITCH, \<lambda>d. map_option (\<lambda>(c, s). PreampSwitchCmd c s) (decode_with read codec_PreampSwitchCmd d)),
      (MSG_PREAMP_SWITCH_REQUEST, \<lambda>d. map_option (\<lambda>_. PreampSwitchRequestCmd) (decode_with read codec_PreampSwitchRequestCmd d)),
      (MSG_GAIN_SWITCH, \<lambda>d. map_option GainSwitchCmd (decode_with read codec_GainSwitchCmd d)),
      (MSG_GAIN_SWITCH_REQUEST, \<lambda>d. map_option (\<lambda>_. GainSwitchRequestCmd) (decode_with read codec_GainSwitchRequestCmd d)),
      (MSG_THRESHOLD, \<lambda>d. map_option (\<lambda>(c, v). ThresholdSettingCmd c v) (decode_with read codec_ThresholdSettingCmd d)),
      (MSG_THRESHOLD_REQUEST, \<lambda>d. map_option (\<lambda>_. ThresholdSettingRequestCmd) (decode_with read codec_ThresholdSettingRequestCmd d)),
      (MSG_PCA_SWITCH, \<lambda>d. map_option PcaSwitchCmd (decode_with read codec_PcaSwitchCmd d)),
      (MSG_ADC_MODE_REQUEST, \<lambda>d. map_option (\<lambda>_. AdcModeRequestCmd) (decode_with read codec_AdcModeRequestCmd d)),
      (MSG_ADC_MODE, \<lambda>d. map_option Cmd_AdcMode (decode_with read codec_AdcModeEvent d)),
      (MSG_POLARITY_SWITCH, \<lambda>d. map_option (\<lambda>(p, q). PolaritySwitchCmd p q) (decode_with read codec_PolaritySwitchCmd d)),
      (MSG_POLARITY_SWITCH_REQUEST, \<lambda>d. map_option (\<lambda>_. PolaritySwitchRequestCmd) (decode_with read codec_PolaritySwitchRequestCmd d)),
      (MSG_BIAS_VOLTAGE, \<lambda>d. map_option BiasVoltageCmd (decode_with read codec_BiasVoltageCmd d)),
      (MSG_BIAS_VOLTAGE_REQUEST, \<lambda>d. map_option (\<lambda>_. BiasVoltageRequestCmd) (decode_with read codec_BiasVoltageRequestCmd d)),
      (MSG_BIAS_SWITCH, \<lambda>d. map_option BiasSwitchCmd (decode_with read codec_BiasSwitchCmd d)),
      (MSG_BIAS_SWITCH_REQUEST, \<lambda>d. map_option (\<lambda>_. BiasSwitchRequestCmd) (decode_with read codec_BiasSwitchRequestCmd d)),
      (MSG_DAC_REQUEST, \<lambda>d. map_option (\<lambda>_. DacSettingRequestCmd) (decode_with read codec_DacSettingRequestCmd d)),
      (MSG_DAC_EEPROM_SET, \<lambda>d. map_option (\<lambda>_. DacEepromSetCmd) (decode_with read codec_DacEepromSetCmd d)),
      (MSG_ADC_SAMPLE_REQUEST, \<lambda>d. map_option AdcSampleTriggerCmd (decode_with read codec_AdcSampleTriggerCmd d)),
      (MSG_TEMPERATURE_REQUEST, \<lambda>d. map_option (\<lambda>_. TemperatureRequestCmd) (decode_with read codec_TemperatureRequestCmd d)),
      (MSG_HISTOGRAM_CLEAR, \<lambda>d. map_option HistogramClearCmd (decode_with read codec_HistogramClearCmd d)),
      (MSG_HISTOGRAM_REQUEST, \<lambda>d. map_option (\<lambda>_. HistogramRequestCmd) (decode_with read codec_HistogramRequestCmd d)),
      (MSG_GPIO_RATE_REQUEST, \<lambda>d. map_option GpioRateRequestCmd (decode_with read codec_GpioRateRequestCmd d)),
      (MSG_POSITION_MODEL, \<lambda>d. map_option PositionModeCmd (decode_with read codec_PositionModeConfig d)),
      (MSG_EVENTTRIGGER_REQUEST, \<lambda>d. map_option (\<lambda>_. EventTriggerRequestCmd) (decode_with read codec_EventTriggerRequestCmd d)),
      (MSG_EVENTTRIGGER, \<lambda>d. map_option EventTriggerCmd (decode_with read codec_EventTriggerCmd d))]"

text \<open>\<open>TcpCommandDecoder::handle\<close>: what it publishes. An unknown key is ignored, an exception is logged.\<close>

definition decoder_handle :: "(cp_type \<Rightarrow> 'w \<Rightarrow> cp option) \<Rightarrow> u16 \<times> 'w \<Rightarrow> command list" where
  "decoder_handle read = (\<lambda>(key, payload).
     (case map_of (decoder_cases read) key of None \<Rightarrow> []
      | Some f \<Rightarrow> (case f payload of None \<Rightarrow> [] | Some c \<Rightarrow> [c])))"

section \<open>What arrives\<close>

lemma codec_keys:
  "cd_key codec_AdcModeEvent = MSG_ADC_MODE"
  "cd_key codec_AdcTraceEvent = MSG_ADC_TRACE"
  "cd_key codec_ADS1115Event = MSG_ADC_SAMPLE"
  "cd_key codec_BiasSwitchEvent = MSG_BIAS_SWITCH"
  "cd_key codec_BiasVoltageEvent = MSG_BIAS_VOLTAGE"
  "cd_key codec_CalibEvent = MSG_CALIB_SET"
  "cd_key codec_GainSwitchEvent = MSG_GAIN_SWITCH"
  "cd_key codec_GpioRateEvent = MSG_GPIO_RATE"
  "cd_key codec_GpioInhibitEvent = MSG_GPIO_INHIBIT"
  "cd_key codec_I2CStatsEvent = MSG_I2C_STATS"
  "cd_key codec_TemperatureEvent = MSG_TEMPERATURE"
  "cd_key codec_MCP4728Event = MSG_DAC_READBACK"
  "cd_key codec_MqttStatusEvent = MSG_MQTT_STATUS"
  "cd_key codec_PcaSwitchEvent = MSG_PCA_SWITCH"
  "cd_key codec_PolaritySwitchEvent = MSG_POLARITY_SWITCH"
  "cd_key codec_PreampSwitchEvent = MSG_PREAMP_SWITCH"
  "cd_key codec_SPIStatsEvent = MSG_SPI_STATS"
  "cd_key codec_GpioEvent = MSG_GPIO_EVENT"
  "cd_key codec_ThresholdSettingEvent = MSG_THRESHOLD"
  "cd_key codec_NavSat = MSG_GNSS_SATS"
  "cd_key codec_CfgMsg = MSG_UBX_MSG_RATE"
  "cd_key codec_CfgGNSS = MSG_UBX_GNSS_CONFIG"
  "cd_key codec_GnssPosStruct = MSG_GEO_POS"
  "cd_key codec_UbxTimeMarkStruct = MSG_UBX_TIMEMARK"
  "cd_key codec_MonTx = MSG_UBX_TXBUF"
  "cd_key codec_MonRx = MSG_UBX_RXBUF"
  "cd_key codec_GnssMonHwStruct = MSG_UBX_MONHW"
  "cd_key codec_GnssMonHw2Struct = MSG_UBX_MONHW2"
  "cd_key codec_GpsVersion = MSG_UBX_VERSION"
  "cd_key codec_NavStatus = MSG_UBX_NAVSTATUS"
  "cd_key codec_NavClock = MSG_UBX_NAVCLOCK"
  "cd_key codec_UbxTimePulseStruct = MSG_UBX_CFG_TP5"
  "cd_key codec_Histogram = MSG_HISTOGRAM"
  "cd_key codec_LogInfoStruct = MSG_LOG_INFO"
  "cd_key codec_PositionModeConfig = MSG_POSITION_MODEL"
  "cd_key codec_VersionEvent = MSG_VERSION"
  "cd_key codec_EventTriggerEvent = MSG_EVENTTRIGGER"
  "cd_key codec_MqttInhibitEvent = MSG_MQTT_INHIBIT"
  "cd_key codec_Sds011Event = MSG_SDS011_SAMPLE"
  "cd_key codec_GainSwitchCmd = MSG_GAIN_SWITCH"
  "cd_key codec_ThresholdSettingCmd = MSG_THRESHOLD"
  "cd_key codec_PcaSwitchCmd = MSG_PCA_SWITCH"
  "cd_key codec_UbxMsgPollCmd = MSG_UBX_MSG_POLL"
  "cd_key codec_UbxMsgRateCmd = MSG_UBX_MSG_RATE"
  "cd_key codec_UbxGnssConfigCmd = MSG_UBX_GNSS_CONFIG"
  "cd_key codec_UbxRateCmd = 0"
  "cd_key codec_UbxResetCmd = MSG_UBX_RESET"
  "cd_key codec_UbxSaveCmd = MSG_UBX_CFG_SAVE"
  "cd_key codec_UbxSetAopCmd = 0"
  "cd_key codec_MqttInhibitCmd = MSG_MQTT_INHIBIT"
  "cd_key codec_PolaritySwitchCmd = MSG_POLARITY_SWITCH"
  "cd_key codec_BiasVoltageCmd = MSG_BIAS_VOLTAGE"
  "cd_key codec_BiasSwitchCmd = MSG_BIAS_SWITCH"
  "cd_key codec_PreampSwitchCmd = MSG_PREAMP_SWITCH"
  "cd_key codec_AdcSampleTriggerCmd = MSG_ADC_SAMPLE_REQUEST"
  "cd_key codec_HistogramClearCmd = MSG_HISTOGRAM_CLEAR"
  "cd_key codec_GpioRateRequestCmd = MSG_GPIO_RATE_REQUEST"
  "cd_key codec_EventTriggerCmd = MSG_EVENTTRIGGER"
  "cd_key codec_StartBurstSampling = MSG_RATE_SCAN"
  "cd_key codec_PreampSwitchRequestCmd = MSG_PREAMP_SWITCH_REQUEST"
  "cd_key codec_GpioRateResetCmd = MSG_GPIO_RATE_RESET"
  "cd_key codec_UbxConfigDefaultCmd = MSG_UBX_CONFIG_DEFAULT"
  "cd_key codec_I2CStatsRequestCmd = MSG_I2C_STATS_REQUEST"
  "cd_key codec_I2CScanBusCmd = MSG_I2C_SCAN_BUS"
  "cd_key codec_SPIStatsRequestCmd = MSG_SPI_STATS_REQUEST"
  "cd_key codec_CalibRequestCmd = MSG_CALIB_REQUEST"
  "cd_key codec_CalibSaveCmd = MSG_CALIB_SAVE"
  "cd_key codec_GainSwitchRequestCmd = MSG_GAIN_SWITCH_REQUEST"
  "cd_key codec_DacSettingRequestCmd = MSG_THRESHOLD_REQUEST"
  "cd_key codec_ThresholdSettingRequestCmd = MSG_THRESHOLD_REQUEST"
  "cd_key codec_PcaSwitchRequestCmd = MSG_PCA_SWITCH_REQUEST"
  "cd_key codec_AdcModeRequestCmd = MSG_ADC_MODE_REQUEST"
  "cd_key codec_PolaritySwitchRequestCmd = MSG_POLARITY_SWITCH_REQUEST"
  "cd_key codec_BiasVoltageRequestCmd = MSG_BIAS_VOLTAGE_REQUEST"
  "cd_key codec_BiasSwitchRequestCmd = MSG_BIAS_SWITCH_REQUEST"
  "cd_key codec_TemperatureRequestCmd = MSG_TEMPERATURE_REQUEST"
  "cd_key codec_DacEepromSetCmd = MSG_DAC_EEPROM_SET"
  "cd_key codec_EventTriggerRequestCmd = MSG_EVENTTRIGGER_REQUEST"
  "cd_key codec_HistogramRequestCmd = MSG_HISTOGRAM_REQUEST"
  "cd_key codec_UbxMsgRateRequestCmd = MSG_UBX_MSG_RATE_REQUEST"
  by (simp_all add: codec_AdcModeEvent_def
      codec_AdcTraceEvent_def
      codec_ADS1115Event_def
      codec_BiasSwitchEvent_def
      codec_BiasVoltageEvent_def
      codec_CalibEvent_def
      codec_GainSwitchEvent_def
      codec_GpioRateEvent_def
      codec_GpioInhibitEvent_def
      codec_I2CStatsEvent_def
      codec_TemperatureEvent_def
      codec_MCP4728Event_def
      codec_MqttStatusEvent_def
      codec_PcaSwitchEvent_def
      codec_PolaritySwitchEvent_def
      codec_PreampSwitchEvent_def
      codec_SPIStatsEvent_def
      codec_GpioEvent_def
      codec_ThresholdSettingEvent_def
      codec_NavSat_def
      codec_CfgMsg_def
      codec_CfgGNSS_def
      codec_GnssPosStruct_def
      codec_UbxTimeMarkStruct_def
      codec_MonTx_def
      codec_MonRx_def
      codec_GnssMonHwStruct_def
      codec_GnssMonHw2Struct_def
      codec_GpsVersion_def
      codec_NavStatus_def
      codec_NavClock_def
      codec_UbxTimePulseStruct_def
      codec_Histogram_def
      codec_LogInfoStruct_def
      codec_PositionModeConfig_def
      codec_VersionEvent_def
      codec_EventTriggerEvent_def
      codec_MqttInhibitEvent_def
      codec_Sds011Event_def
      codec_GainSwitchCmd_def
      codec_ThresholdSettingCmd_def
      codec_PcaSwitchCmd_def
      codec_UbxMsgPollCmd_def
      codec_UbxMsgRateCmd_def
      codec_UbxGnssConfigCmd_def
      codec_UbxRateCmd_def
      codec_UbxResetCmd_def
      codec_UbxSaveCmd_def
      codec_UbxSetAopCmd_def
      codec_MqttInhibitCmd_def
      codec_PolaritySwitchCmd_def
      codec_BiasVoltageCmd_def
      codec_BiasSwitchCmd_def
      codec_PreampSwitchCmd_def
      codec_AdcSampleTriggerCmd_def
      codec_HistogramClearCmd_def
      codec_GpioRateRequestCmd_def
      codec_EventTriggerCmd_def
      codec_StartBurstSampling_def
      codec_PreampSwitchRequestCmd_def
      codec_GpioRateResetCmd_def
      codec_UbxConfigDefaultCmd_def
      codec_I2CStatsRequestCmd_def
      codec_I2CScanBusCmd_def
      codec_SPIStatsRequestCmd_def
      codec_CalibRequestCmd_def
      codec_CalibSaveCmd_def
      codec_GainSwitchRequestCmd_def
      codec_DacSettingRequestCmd_def
      codec_ThresholdSettingRequestCmd_def
      codec_PcaSwitchRequestCmd_def
      codec_AdcModeRequestCmd_def
      codec_PolaritySwitchRequestCmd_def
      codec_BiasVoltageRequestCmd_def
      codec_BiasSwitchRequestCmd_def
      codec_TemperatureRequestCmd_def
      codec_DacEepromSetCmd_def
      codec_EventTriggerRequestCmd_def
      codec_HistogramRequestCmd_def
      codec_UbxMsgRateRequestCmd_def
      EMPTY_CMD_CODEC_def)

primrec fits_event :: "event \<Rightarrow> bool" where
  "fits_event (Ev_AdcMode e) = True"
| "fits_event (Ev_AdcTrace e) = fits_AdcTrace e"
| "fits_event (Ev_ADS1115 e) = True"
| "fits_event (Ev_BiasSwitch e) = True"
| "fits_event (Ev_BiasVoltage e) = True"
| "fits_event (Ev_Calib e) = fits_Calib e"
| "fits_event (Ev_GainSwitch e) = True"
| "fits_event (Ev_GpioRate e) = fits_GpioRate e"
| "fits_event (Ev_GpioInhibit e) = True"
| "fits_event (Ev_I2CStats e) = fits_I2CStats e"
| "fits_event (Ev_Temperature e) = True"
| "fits_event (Ev_MCP4728 e) = fits_MCP4728 e"
| "fits_event (Ev_MqttStatus e) = fits_MqttStatus e"
| "fits_event (Ev_PcaSwitch e) = True"
| "fits_event (Ev_PolaritySwitch e) = True"
| "fits_event (Ev_PreampSwitch e) = True"
| "fits_event (Ev_SPIStats e) = True"
| "fits_event (Ev_Gpio e) = fits_Gpio e"
| "fits_event (Ev_ThresholdSetting e) = True"
| "fits_event (Ev_NavSat e) = fits_NavSat e"
| "fits_event (Ev_CfgMsg e) = fits_CfgMsg e"
| "fits_event (Ev_CfgGNSS e) = fits_CfgGNSS e"
| "fits_event (Ev_GnssPos e) = True"
| "fits_event (Ev_TimeMark e) = fits_TimeMark e"
| "fits_event (Ev_MonTx e) = (fits_mon (mtx_pending e) (mtx_usage e) (mtx_peakUsage e))"
| "fits_event (Ev_MonRx e) = (fits_mon (mrx_pending e) (mrx_usage e) (mrx_peakUsage e))"
| "fits_event (Ev_MonHw e) = True"
| "fits_event (Ev_MonHw2 e) = True"
| "fits_event (Ev_GpsVersion e) = fits_GpsVersion e"
| "fits_event (Ev_NavStatus e) = True"
| "fits_event (Ev_NavClock e) = True"
| "fits_event (Ev_TimePulse e) = True"
| "fits_event (Ev_Histogram e) = fits_Histogram e"
| "fits_event (Ev_LogInfo e) = fits_LogInfo e"
| "fits_event (Ev_PositionMode e) = True"
| "fits_event (Ev_Version e) = fits_VersionEvent e"
| "fits_event (Ev_EventTrigger e) = True"
| "fits_event (Ev_MqttInhibit e) = True"
| "fits_event (Ev_Sds011 e) = True"

primrec seen_event :: "event \<Rightarrow> event" where
  "seen_event (Ev_AdcMode e) = Ev_AdcMode e"
| "seen_event (Ev_AdcTrace e) = Ev_AdcTrace e"
| "seen_event (Ev_ADS1115 e) = Ev_ADS1115 (seen_ADS1115 e)"
| "seen_event (Ev_BiasSwitch e) = Ev_BiasSwitch e"
| "seen_event (Ev_BiasVoltage e) = Ev_BiasVoltage e"
| "seen_event (Ev_Calib e) = Ev_Calib (seen_Calib e)"
| "seen_event (Ev_GainSwitch e) = Ev_GainSwitch e"
| "seen_event (Ev_GpioRate e) = Ev_GpioRate e"
| "seen_event (Ev_GpioInhibit e) = Ev_GpioInhibit e"
| "seen_event (Ev_I2CStats e) = Ev_I2CStats (seen_I2CStats e)"
| "seen_event (Ev_Temperature e) = Ev_Temperature (seen_Temperature e)"
| "seen_event (Ev_MCP4728 e) = Ev_MCP4728 e"
| "seen_event (Ev_MqttStatus e) = Ev_MqttStatus (seen_MqttStatus e)"
| "seen_event (Ev_PcaSwitch e) = Ev_PcaSwitch e"
| "seen_event (Ev_PolaritySwitch e) = Ev_PolaritySwitch e"
| "seen_event (Ev_PreampSwitch e) = Ev_PreampSwitch e"
| "seen_event (Ev_SPIStats e) = Ev_SPIStats e"
| "seen_event (Ev_Gpio e) = Ev_Gpio (seen_Gpio e)"
| "seen_event (Ev_ThresholdSetting e) = Ev_ThresholdSetting e"
| "seen_event (Ev_NavSat e) = Ev_NavSat e"
| "seen_event (Ev_CfgMsg e) = Ev_CfgMsg e"
| "seen_event (Ev_CfgGNSS e) = Ev_CfgGNSS e"
| "seen_event (Ev_GnssPos e) = Ev_GnssPos e"
| "seen_event (Ev_TimeMark e) = Ev_TimeMark e"
| "seen_event (Ev_MonTx e) = Ev_MonTx e"
| "seen_event (Ev_MonRx e) = Ev_MonRx e"
| "seen_event (Ev_MonHw e) = Ev_MonHw e"
| "seen_event (Ev_MonHw2 e) = Ev_MonHw2 e"
| "seen_event (Ev_GpsVersion e) = Ev_GpsVersion (seen_GpsVersion e)"
| "seen_event (Ev_NavStatus e) = Ev_NavStatus (seen_NavStatus e)"
| "seen_event (Ev_NavClock e) = Ev_NavClock e"
| "seen_event (Ev_TimePulse e) = Ev_TimePulse e"
| "seen_event (Ev_Histogram e) = Ev_Histogram (seen_Histogram e)"
| "seen_event (Ev_LogInfo e) = Ev_LogInfo (seen_LogInfo e)"
| "seen_event (Ev_PositionMode e) = Ev_PositionMode (seen_PositionMode e)"
| "seen_event (Ev_Version e) = Ev_Version (seen_VersionEvent e)"
| "seen_event (Ev_EventTrigger e) = Ev_EventTrigger e"
| "seen_event (Ev_MqttInhibit e) = Ev_MqttInhibit e"
| "seen_event (Ev_Sds011 e) = Ev_Sds011 e"

definition fits_command :: "command \<Rightarrow> bool" where
  "fits_command c \<longleftrightarrow> (case c of UbxGnssConfigCmd g \<Rightarrow> length g < cp_limit | HistogramClearCmd n \<Rightarrow> fits_text n
     | Cmd_Calib e \<Rightarrow> fits_Calib e | _ \<Rightarrow> True)"

definition published :: "command \<Rightarrow> command list" where
  "published c = (case c of
       StartBurstSampling f n \<Rightarrow> [StartBurstSampling (take_bit 32 f) (take_bit 32 n)]
     | PreampSwitchCmd channel state \<Rightarrow> [PreampSwitchCmd channel False]
     | HistogramClearCmd n \<Rightarrow> [HistogramClearCmd (cStr n)]
     | PositionModeCmd p \<Rightarrow> [PositionModeCmd (seen_PositionMode p)]
     | DacSettingRequestCmd \<Rightarrow> [ThresholdSettingRequestCmd]
     | UbxRateCmd _ _ \<Rightarrow> [] | UbxSetAopCmd _ _ \<Rightarrow> [] | SPIStatsRequestCmd \<Rightarrow> [] | PcaSwitchRequestCmd \<Rightarrow> []
     | Cmd_Calib _ \<Rightarrow> []
     | _ \<Rightarrow> [c])"

lemmas arrives = codec_rules [THEN decode_with_sound]

lemma event_arrives:
  assumes "capnp_wire flat read" and "subscribed e" and "fits_event e"
  shows "gui_handle read (event_packet flat e) = Received (seen_event e)"
  using assms
  by (cases e)
    (simp_all add: gui_handle_def gui_decode_def decoderMap_def encode_with_def codec_keys msg_keys arrives)

lemma request_decodes:
  "capnp_wire flat read \<Longrightarrow> decode_with read codec_ThresholdSettingRequestCmd (flat (cd_encode codec_DacSettingRequestCmd ())) = Some ()"
  by (simp add: decode_with_def capnp_wire_def codec_ThresholdSettingRequestCmd_def codec_DacSettingRequestCmd_def
      EMPTY_CMD_CODEC_def)

lemma command_arrives:
  assumes "capnp_wire flat read" and "fits_command c"
  shows "decoder_handle read (client_packet flat c) = published c"
  using assms
  by (cases c)
    (simp_all add: decoder_handle_def decoder_cases_def encode_with_def codec_keys msg_keys arrives
      fits_command_def published_def request_decodes)

lemma slot_packets:
  "sendSetBiasVoltage flat v = client_packet flat (BiasVoltageCmd v)"
  "sendSetBiasStatus flat b = client_packet flat (BiasSwitchCmd b)"
  "sendGainSwitch flat b = client_packet flat (GainSwitchCmd b)"
  "sendPreamp1Switch flat b = client_packet flat (PreampSwitchCmd 0 b)"
  "sendPreamp2Switch flat b = client_packet flat (PreampSwitchCmd 1 b)"
  "sendSetThresh flat c v = client_packet flat (ThresholdSettingCmd c v)"
  "sendSetCfgMsgRateChange flat k n = client_packet flat (UbxMsgRate \<lparr>mrc_id = k, mrc_port = 1, mrc_rate = word_of_int (max 0 (min 255 n))\<rparr>)"
  "sendSetAdcMode flat m = client_packet flat (Cmd_AdcMode m)"
  "onSetGnssConfigs flat g = client_packet flat (UbxGnssConfigCmd g)"
  "onSetTP5Config flat tp = client_packet flat (UbxTp5Cmd tp)"
  "gpioInhibit flat b = client_packet flat (Cmd_GpioInhibit b)"
  "mqttInhibit flat b = client_packet flat (MqttInhibitCmd b)"
  "onPolarityChanged flat p q = client_packet flat (PolaritySwitchCmd p q)"
  "onPosModeConfigChanged flat pm = client_packet flat (PositionModeCmd pm)"
  "sendInputSwitch flat sel = (if sel = 255 then None else Some (client_packet flat (PcaSwitchCmd sel)))"
  by (simp_all add: encode_with_def codec_keys sendSetBiasVoltage_def sendSetBiasStatus_def sendGainSwitch_def sendPreamp1Switch_def sendPreamp2Switch_def sendSetThresh_def sendSetCfgMsgRateChange_def sendSetAdcMode_def onSetGnssConfigs_def onSetTP5Config_def gpioInhibit_def mqttInhibit_def onPolarityChanged_def onPosModeConfigChanged_def sendInputSwitch_def
      codec_PolaritySwitchEvent_def codec_PolaritySwitchCmd_def)

lemma codec_conforms: "codec_sound c ok seen \<Longrightarrow> ok x \<Longrightarrow> conforms (cd_root c) (cd_encode c x)"
  by (simp add: codec_sound_def)

lemmas encodings_conform = codec_rules [THEN codec_conforms]

text \<open>Every event within the limits is encoded to a message of the schema its codec names.\<close>

lemma event_encoding_conforms: "fits_event e \<Longrightarrow> conforms (event_schema e) (snd (event_packet (\<lambda>v. v) e))"
  by (cases e) (simp_all add: encode_with_def encodings_conform)

text \<open>
  C24: What the daemon sends arrives: for every event the TCP sink subscribes to, the client finds a
  decoder under the key of the packet, and receives the event with the members its codec carries
  (\<open>seen_event\<close>), whatever packing the library uses.
\<close>

theorem events_reach_client:
  assumes "capnp_wire flat read" and "subscribed e" and "fits_event e"
  shows "gui_handle read (event_packet flat e) = Received (seen_event e)"
  using assms by (rule event_arrives)

lemma plain_wire: "capnp_wire (\<lambda>v. v) (\<lambda>t v. if conforms t v then Some v else None)"
  by (simp add: capnp_wire_def)

theorem events_reach_client_witness:
  "gui_handle (\<lambda>t v. if conforms t v then Some v else None)
     (event_packet (\<lambda>v. v) (Ev_PreampSwitch \<lparr>pre_channel = 1, pre_state = True\<rparr>)) =
   Received (Ev_PreampSwitch \<lparr>pre_channel = 1, pre_state = True\<rparr>)"
  using events_reach_client [OF plain_wire, of "Ev_PreampSwitch \<lparr>pre_channel = 1, pre_state = True\<rparr>"] by simp

text \<open>
  C26: What the daemon makes of a command of the client: it is published on the bus as the client gave it,
  except that a preamplifier is always switched off (its codec leaves out the state), a request for the DAC
  setting becomes one for the thresholds (they share a key), burst parameters are cut to 32 bits, texts
  end at their first NUL, and the commands without a case in the decoder are dropped.
\<close>

theorem commands_reach_daemon:
  assumes "capnp_wire flat read" and "fits_command c"
  shows "decoder_handle read (client_packet flat c) = published c"
  using assms by (rule command_arrives)

theorem commands_reach_daemon_witness:
  "decoder_handle (\<lambda>t v. if conforms t v then Some v else None)
     (client_packet (\<lambda>v. v) (ThresholdSettingCmd 1 (3 / 4))) = [ThresholdSettingCmd 1 (3 / 4)]"
  using commands_reach_daemon [OF plain_wire, of "ThresholdSettingCmd 1 (3 / 4)"]
  by (simp add: fits_command_def published_def)

text \<open>
  C28: The slots of the main window do what they say, except for the preamplifiers: whatever state the
  user chooses, the daemon is told to switch channel 0 or 1 off. Rates outside an octet are clamped.
\<close>

theorem slots_reach_daemon:
  assumes "capnp_wire flat read"
  shows "decoder_handle read (sendPreamp1Switch flat on) = [PreampSwitchCmd 0 False] \<and>
    decoder_handle read (sendPreamp2Switch flat on) = [PreampSwitchCmd 1 False] \<and>
    decoder_handle read (sendGainSwitch flat on) = [GainSwitchCmd on] \<and>
    decoder_handle read (sendSetBiasStatus flat on) = [BiasSwitchCmd on] \<and>
    decoder_handle read (sendSetBiasVoltage flat v) = [BiasVoltageCmd v] \<and>
    decoder_handle read (sendSetThresh flat c v) = [ThresholdSettingCmd c v] \<and>
    decoder_handle read (onPolarityChanged flat p q) = [PolaritySwitchCmd p q] \<and>
    decoder_handle read (sendSetCfgMsgRateChange flat k n) =
      [UbxMsgRate \<lparr>mrc_id = k, mrc_port = 1, mrc_rate = word_of_int (max 0 (min 255 n))\<rparr>] \<and>
    map_option (decoder_handle read) (sendInputSwitch flat sel) = (if sel = 255 then None else Some [PcaSwitchCmd sel])"
  using assms by (simp add: slot_packets command_arrives fits_command_def published_def del: client_packet.simps)

theorem slots_reach_daemon_witness:
  "decoder_handle (\<lambda>t v. if conforms t v then Some v else None) (sendPreamp1Switch (\<lambda>v. v) True) = [PreampSwitchCmd 0 False]"
  using slots_reach_daemon [OF plain_wire, of True] by simp

end
