(* ===== verification/I2c_Device.thy ===== *)
theory I2c_Device
  imports Prelude
begin

text \<open>
  Register access over the I2C bus: class \<open>i2cDevice\<close> (\<open>daemon/src/hardware/i2c/i2cdevice.cpp\<close>), the base of all
  drivers of chips. The kernel and the chip behind it are a parameter, the record \<open>i2c_bus\<close> of the system
  calls the class makes, over a state \<open>'d\<close> of the bus. A driver is a record that extends \<open>i2cDevice\<close>, as its
  class derives from it.

  \<open>fMutex\<close> is not recursive: to lock it while the same thread holds it is undefined, None. The measurement
  of transaction times (\<open>startTimer\<close>, \<open>stopTimer\<close>) changes nothing else and is left out.
\<close>

text \<open>
  \<open>::read\<close>, \<open>::write\<close>, \<open>ioctl(I2C_RDWR)\<close> of a write and a read message (None where it fails) and
  \<open>ioctl(I2C_SLAVE)\<close>, with True \<open>ioctl(I2C_SLAVE_FORCE)\<close>. A read gives the octets it stored.
\<close>

record 'd i2c_bus =
  sys_read :: "u8 \<Rightarrow> nat \<Rightarrow> 'd \<Rightarrow> int \<times> byte list \<times> 'd"
  sys_write :: "u8 \<Rightarrow> byte list \<Rightarrow> 'd \<Rightarrow> int \<times> 'd"
  sys_rdwr :: "u8 \<Rightarrow> byte list \<Rightarrow> nat \<Rightarrow> 'd \<Rightarrow> byte list option \<times> 'd"
  sys_slave :: "bool \<Rightarrow> u8 \<Rightarrow> 'd \<Rightarrow> bool \<times> 'd"

text \<open>The object with the counters it shares with all others, the state of its mutex and the bus.\<close>

record 'd i2cDevice =
  iv_handle :: int
  iv_address :: u8
  iv_mode :: u8
  iv_nrBytesWritten :: u64
  iv_nrBytesRead :: u64
  iv_globalNrBytesWritten :: u64
  iv_globalNrBytesRead :: u64
  iv_nrDevices :: u32
  iv_ioErrors :: u32
  iv_locked :: bool
  iv_bus :: 'd

definition MODE_NONE :: u8 where "MODE_NONE = 0"
definition MODE_NORMAL :: u8 where "MODE_NORMAL = 1"
definition MODE_FORCE :: u8 where "MODE_FORCE = 2"
definition MODE_UNREACHABLE :: u8 where "MODE_UNREACHABLE = 4"
definition MODE_FAILED :: u8 where "MODE_FAILED = 8"
definition MODE_LOCKED :: u8 where "MODE_LOCKED = 16"

definition fNrRetries :: nat where "fNrRetries = 3"

section \<open>Construction\<close>

definition setAddress :: "'d i2c_bus \<Rightarrow> u8 \<Rightarrow> ('d, 'x) i2cDevice_scheme \<Rightarrow> ('d, 'x) i2cDevice_scheme" where
  "setAddress bus address s =
     (let s = s\<lparr>iv_address := address\<rparr>; (ok, d) = sys_slave bus False address (iv_bus s); s = s\<lparr>iv_bus := d\<rparr>
      in if ok then s\<lparr>iv_mode := MODE_NORMAL\<rparr>
         else (let (ok, d) = sys_slave bus True address (iv_bus s); s = s\<lparr>iv_bus := d\<rparr>
               in if ok then s\<lparr>iv_mode := MODE_FORCE\<rparr>
                  else s\<lparr>iv_mode := MODE_FAILED, iv_ioErrors := iv_ioErrors s + 1\<rparr>))"

text \<open>
  The constructors with an address; \<open>handle\<close> is what \<open>open\<close> returns, \<open>s\<close> the object before, of which the
  shared counters and the bus are kept.
\<close>

definition construct :: "'d i2c_bus \<Rightarrow> int \<Rightarrow> u8 \<Rightarrow> ('d, 'x) i2cDevice_scheme \<Rightarrow> ('d, 'x) i2cDevice_scheme" where
  "construct bus handle slaveAddress s =
     (let s = s\<lparr>iv_address := slaveAddress, iv_nrBytesRead := 0, iv_nrBytesWritten := 0, iv_ioErrors := 0,
                iv_mode := MODE_NONE, iv_locked := False, iv_handle := handle\<rparr>
      in if 0 < handle
         then (let s = setAddress bus slaveAddress s in s\<lparr>iv_nrDevices := iv_nrDevices s + 1\<rparr>)
         else s\<lparr>iv_mode := MODE_FAILED\<rparr>)"

definition destruct :: "('d, 'x) i2cDevice_scheme \<Rightarrow> ('d, 'x) i2cDevice_scheme" where
  "destruct s = (if 0 < iv_handle s then s\<lparr>iv_nrDevices := iv_nrDevices s - 1\<rparr> else s)"

definition lock :: "bool \<Rightarrow> ('d, 'x) i2cDevice_scheme \<Rightarrow> ('d, 'x) i2cDevice_scheme" where
  "lock locked s =
     (if locked then s\<lparr>iv_mode := iv_mode s OR MODE_LOCKED\<rparr> else s\<lparr>iv_mode := iv_mode s AND NOT MODE_LOCKED\<rparr>)"

section \<open>Plain reads and writes\<close>

definition i2c_read :: "'d i2c_bus \<Rightarrow> nat \<Rightarrow> ('d, 'x) i2cDevice_scheme \<Rightarrow> int \<times> byte list \<times> ('d, 'x) i2cDevice_scheme" where
  "i2c_read bus nBytes s =
     (if iv_handle s \<le> 0 \<or> iv_mode s AND MODE_LOCKED \<noteq> 0 then (0, [], s)
      else (let (nread, buf, d) = sys_read bus (iv_address s) nBytes (iv_bus s); s = s\<lparr>iv_bus := d\<rparr>
            in if 0 < nread
               then (nread, buf, s\<lparr>iv_nrBytesRead := iv_nrBytesRead s + of_int nread,
                       iv_globalNrBytesRead := iv_globalNrBytesRead s + of_int nread,
                       iv_mode := iv_mode s AND NOT MODE_UNREACHABLE\<rparr>)
               else (nread, buf, s\<lparr>iv_ioErrors := iv_ioErrors s + 1, iv_mode := iv_mode s OR MODE_UNREACHABLE\<rparr>)))"

definition i2c_write :: "'d i2c_bus \<Rightarrow> byte list \<Rightarrow> ('d, 'x) i2cDevice_scheme \<Rightarrow> int \<times> ('d, 'x) i2cDevice_scheme" where
  "i2c_write bus buf s =
     (if iv_handle s \<le> 0 \<or> iv_mode s AND MODE_LOCKED \<noteq> 0 then (0, s)
      else (let (nwritten, d) = sys_write bus (iv_address s) buf (iv_bus s); s = s\<lparr>iv_bus := d\<rparr>
            in if 0 < nwritten
               then (nwritten, s\<lparr>iv_nrBytesWritten := iv_nrBytesWritten s + of_int nwritten,
                       iv_globalNrBytesWritten := iv_globalNrBytesWritten s + of_int nwritten,
                       iv_mode := iv_mode s AND NOT MODE_UNREACHABLE\<rparr>)
               else (nwritten, s\<lparr>iv_ioErrors := iv_ioErrors s + 1, iv_mode := iv_mode s OR MODE_UNREACHABLE\<rparr>)))"

definition devicePresent :: "'d i2c_bus \<Rightarrow> ('d, 'x) i2cDevice_scheme \<Rightarrow> bool \<times> ('d, 'x) i2cDevice_scheme" where
  "devicePresent bus s = (let (n, _, s) = i2c_read bus 1 s in (n = 1, s))"

section \<open>Registers\<close>

definition writeReg :: "'d i2c_bus \<Rightarrow> u8 \<Rightarrow> byte list \<Rightarrow> ('d, 'x) i2cDevice_scheme \<Rightarrow> int \<times> ('d, 'x) i2cDevice_scheme" where
  "writeReg bus reg buf s = (let (n, s) = i2c_write bus (reg # buf) s in (n - 1, s))"

text \<open>\<open>std::lock_guard<std::mutex> lock(fMutex)\<close>.\<close>

definition lock_guard :: "('d, 'x) i2cDevice_scheme \<Rightarrow> ('d, 'x) i2cDevice_scheme option" where
  "lock_guard s = (if iv_locked s then None else Some (s\<lparr>iv_locked := True\<rparr>))"

definition unlock :: "('d, 'x) i2cDevice_scheme \<Rightarrow> ('d, 'x) i2cDevice_scheme" where
  "unlock s = s\<lparr>iv_locked := False\<rparr>"

definition readReg :: "'d i2c_bus \<Rightarrow> u8 \<Rightarrow> nat \<Rightarrow> ('d, 'x) i2cDevice_scheme
    \<Rightarrow> (int \<times> byte list \<times> ('d, 'x) i2cDevice_scheme) option" where
  "readReg bus reg nBytes s = do {
     s \<leftarrow> lock_guard s;
     let (r, d) = sys_rdwr bus (iv_address s) [reg] nBytes (iv_bus s);
     let s = s\<lparr>iv_bus := d\<rparr>;
     case r of None \<Rightarrow> Some (- 1, [], unlock s) | Some buf \<Rightarrow> Some (int nBytes, buf, unlock s)
   }"

text \<open>The conversion of an \<open>int\<close> to \<open>int16_t\<close>.\<close>

definition to_int16 :: "int \<Rightarrow> int" where
  "to_int16 n = sint (word_of_int n :: i16)"

fun readBytes_loop :: "nat \<Rightarrow> 'd i2c_bus \<Rightarrow> u8 \<Rightarrow> nat \<Rightarrow> ('d, 'x) i2cDevice_scheme
    \<Rightarrow> (int \<times> byte list \<times> ('d, 'x) i2cDevice_scheme) option" where
  "readBytes_loop retries bus regAddr len s = do {
     (nread, data, s) \<leftarrow> readReg bus regAddr len s;
     if nread \<noteq> int len \<and> 0 < retries then readBytes_loop (retries - 1) bus regAddr len s
     else Some (nread, data, s)
   }"

declare readBytes_loop.simps [simp del]

definition readBytes :: "'d i2c_bus \<Rightarrow> u8 \<Rightarrow> nat \<Rightarrow> ('d, 'x) i2cDevice_scheme
    \<Rightarrow> (int \<times> byte list \<times> ('d, 'x) i2cDevice_scheme) option" where
  "readBytes bus regAddr len s = do {
     (nread, data, s) \<leftarrow> readBytes_loop fNrRetries bus regAddr len s;
     Some (to_int16 nread, data, s)
   }"

definition readByte :: "'d i2c_bus \<Rightarrow> u8 \<Rightarrow> ('d, 'x) i2cDevice_scheme
    \<Rightarrow> (bool \<times> byte list \<times> ('d, 'x) i2cDevice_scheme) option" where
  "readByte bus regAddr s = do {
     (n, data, s) \<leftarrow> readBytes bus regAddr 1 s;
     Some (n = 1, data, s)
   }"

text \<open>
  \<open>readBit\<close> and \<open>readBits\<close> keep the result of \<open>readReg\<close> in an unsigned octet, where a failure is 255. What
  they store is None where it is computed from an octet that was never read.
\<close>

definition readBit :: "'d i2c_bus \<Rightarrow> u8 \<Rightarrow> nat \<Rightarrow> ('d, 'x) i2cDevice_scheme
    \<Rightarrow> (i8 \<times> byte option \<times> ('d, 'x) i2cDevice_scheme) option" where
  "readBit bus regAddr bitNum s = do {
     (n, b, s) \<leftarrow> readReg bus regAddr 1 s;
     Some (word_of_int n, case b of [] \<Rightarrow> None | b # _ \<Rightarrow> Some (b AND push_bit bitNum 1), s)
   }"

definition bit_mask :: "nat \<Rightarrow> nat \<Rightarrow> byte" where
  "bit_mask bitStart len = ucast (push_bit (bitStart - len + 1) (mask len :: i32))"

definition readBits :: "'d i2c_bus \<Rightarrow> u8 \<Rightarrow> nat \<Rightarrow> nat \<Rightarrow> ('d, 'x) i2cDevice_scheme
    \<Rightarrow> (i8 \<times> byte option \<times> ('d, 'x) i2cDevice_scheme) option" where
  "readBits bus regAddr bitStart len s = do {
     (n, b, s) \<leftarrow> readReg bus regAddr 1 s;
     Some (word_of_int n,
       case b of [] \<Rightarrow> None
       | b # _ \<Rightarrow> Some (drop_bit (bitStart - len + 1) (b AND bit_mask bitStart len)), s)
   }"

fun writeBytes_loop :: "nat \<Rightarrow> 'd i2c_bus \<Rightarrow> u8 \<Rightarrow> byte list \<Rightarrow> ('d, 'x) i2cDevice_scheme
    \<Rightarrow> int \<times> ('d, 'x) i2cDevice_scheme" where
  "writeBytes_loop retries bus regAddr data s =
     (let (nwritten, s) = writeReg bus regAddr data s
      in if nwritten \<noteq> int (length data) \<and> 0 < retries then writeBytes_loop (retries - 1) bus regAddr data s
         else (nwritten, s))"

declare writeBytes_loop.simps [simp del]

text \<open>The result is the number of octets written, converted to \<open>bool\<close>.\<close>

definition writeBytes :: "'d i2c_bus \<Rightarrow> u8 \<Rightarrow> byte list \<Rightarrow> ('d, 'x) i2cDevice_scheme
    \<Rightarrow> bool \<times> ('d, 'x) i2cDevice_scheme" where
  "writeBytes bus regAddr data s =
     (let (nwritten, s) = writeBytes_loop fNrRetries bus regAddr data s in (nwritten \<noteq> 0, s))"

definition writeByte :: "'d i2c_bus \<Rightarrow> u8 \<Rightarrow> byte \<Rightarrow> ('d, 'x) i2cDevice_scheme
    \<Rightarrow> bool \<times> ('d, 'x) i2cDevice_scheme" where
  "writeByte bus regAddr data s = writeBytes bus regAddr [data] s"

definition writeBit :: "'d i2c_bus \<Rightarrow> u8 \<Rightarrow> nat \<Rightarrow> byte \<Rightarrow> ('d, 'x) i2cDevice_scheme
    \<Rightarrow> (bool \<times> ('d, 'x) i2cDevice_scheme) option" where
  "writeBit bus regAddr bitNum data s = do {
     s \<leftarrow> lock_guard s;
     (n, b, s) \<leftarrow> readByte bus regAddr s;
     if \<not> n then Some (False, unlock s)
     else (let b = (if data \<noteq> 0 then hd b OR push_bit bitNum 1 else hd b AND NOT (push_bit bitNum 1));
               (ok, s) = writeByte bus regAddr b s
           in Some (ok, unlock s))
   }"

definition writeBits :: "'d i2c_bus \<Rightarrow> u8 \<Rightarrow> nat \<Rightarrow> nat \<Rightarrow> byte \<Rightarrow> ('d, 'x) i2cDevice_scheme
    \<Rightarrow> (bool \<times> ('d, 'x) i2cDevice_scheme) option" where
  "writeBits bus regAddr bitStart len data s = do {
     s \<leftarrow> lock_guard s;
     (n, b, s) \<leftarrow> readByte bus regAddr s;
     if n then
       (let m = bit_mask bitStart len;
            data = push_bit (bitStart - len + 1) data AND m;
            (ok, s) = writeByte bus regAddr (hd b AND NOT m OR data) s
        in Some (ok, unlock s))
     else Some (False, unlock s)
   }"

section \<open>Registers of 16 bits\<close>

text \<open>The words are sent with the high octet first, through a buffer of 512 octets.\<close>

definition words_octets :: "u16 list \<Rightarrow> byte list" where
  "words_octets ws = concat (map (\<lambda>w. [ucast (drop_bit 8 w), ucast w]) ws)"

fun octets_words :: "byte list \<Rightarrow> u16 list" where
  "octets_words (a # b # bs) = (push_bit 8 (ucast a) OR ucast b) # octets_words bs"
| "octets_words _ = []"

definition writeWords :: "'d i2c_bus \<Rightarrow> u8 \<Rightarrow> u16 list \<Rightarrow> ('d, 'x) i2cDevice_scheme
    \<Rightarrow> (bool \<times> ('d, 'x) i2cDevice_scheme) option" where
  "writeWords bus regAddr data s =
     (if 256 < length data then None
      else (let (nwritten, s) = writeBytes_loop fNrRetries bus regAddr (words_octets data) s
            in Some (nwritten = 2 * int (length data), s)))"

definition writeWord :: "'d i2c_bus \<Rightarrow> u8 \<Rightarrow> u16 \<Rightarrow> ('d, 'x) i2cDevice_scheme
    \<Rightarrow> (bool \<times> ('d, 'x) i2cDevice_scheme) option" where
  "writeWord bus regAddr data s = writeWords bus regAddr [data] s"

text \<open>The words are stored only where all of them were read.\<close>

definition words_result :: "nat \<Rightarrow> int \<Rightarrow> byte list \<Rightarrow> int \<times> u16 list" where
  "words_result len nread buf =
     (if nread < 0 then (- 1, [])
      else if nread \<noteq> 2 * int len then (to_int16 (nread div 2), [])
      else (to_int16 (nread div 2), octets_words buf))"

definition readWords :: "'d i2c_bus \<Rightarrow> u8 \<Rightarrow> nat \<Rightarrow> ('d, 'x) i2cDevice_scheme
    \<Rightarrow> (int \<times> u16 list \<times> ('d, 'x) i2cDevice_scheme) option" where
  "readWords bus regAddr len s =
     (if 256 < len then None
      else do {
        (nread, buf, s) \<leftarrow> readBytes_loop fNrRetries bus regAddr (2 * len) s;
        let (n, data) = words_result len nread buf;
        Some (n, data, s)
      })"

definition readWord :: "'d i2c_bus \<Rightarrow> u8 \<Rightarrow> ('d, 'x) i2cDevice_scheme
    \<Rightarrow> (bool \<times> u16 list \<times> ('d, 'x) i2cDevice_scheme) option" where
  "readWord bus regAddr s = do {
     (n, data, s) \<leftarrow> readWords bus regAddr 1 s;
     Some (n = 1, data, s)
   }"

text \<open>The overloads without a register read from where the chip's pointer stands.\<close>

fun read_loop :: "nat \<Rightarrow> 'd i2c_bus \<Rightarrow> nat \<Rightarrow> ('d, 'x) i2cDevice_scheme \<Rightarrow> int \<times> byte list \<times> ('d, 'x) i2cDevice_scheme" where
  "read_loop retries bus nBytes s =
     (let (nread, buf, s) = i2c_read bus nBytes s
      in if nread \<noteq> int nBytes \<and> 0 < retries then read_loop (retries - 1) bus nBytes s else (nread, buf, s))"

declare read_loop.simps [simp del]

definition readWords_here :: "'d i2c_bus \<Rightarrow> nat \<Rightarrow> ('d, 'x) i2cDevice_scheme
    \<Rightarrow> (int \<times> u16 list \<times> ('d, 'x) i2cDevice_scheme) option" where
  "readWords_here bus len s =
     (if 256 < len then None
      else (let (nread, buf, s) = read_loop fNrRetries bus (2 * len) s;
                (n, data) = words_result len nread buf
            in Some (n, data, s)))"

definition readWord_here :: "'d i2c_bus \<Rightarrow> ('d, 'x) i2cDevice_scheme
    \<Rightarrow> (bool \<times> u16 list \<times> ('d, 'x) i2cDevice_scheme) option" where
  "readWord_here bus s = do {
     (n, data, s) \<leftarrow> readWords_here bus 1 s;
     Some (n = 1, data, s)
   }"

section \<open>The mutex\<close>

lemma lock_guard_simps [simp]:
  "lock_guard s = Some t \<longleftrightarrow> \<not> iv_locked s \<and> t = s\<lparr>iv_locked := True\<rparr>"
  "lock_guard s = None \<longleftrightarrow> iv_locked s"
  by (auto simp: lock_guard_def)

lemma unlock_simps [simp]:
  "iv_locked (unlock s) = False" "iv_bus (unlock s) = iv_bus s" "iv_address (unlock s) = iv_address s"
  "iv_handle (unlock s) = iv_handle s" "iv_mode (unlock s) = iv_mode s"
  by (simp_all add: unlock_def)

lemma readReg_locked: "iv_locked s \<Longrightarrow> readReg bus reg n s = None"
  by (simp add: readReg_def lock_guard_def)

lemma readByte_locked: "iv_locked s \<Longrightarrow> readByte bus reg s = None"
  by (simp add: readByte_def readBytes_def readBytes_loop.simps readReg_locked)

lemma writeBit_undefined: "writeBit bus reg n data s = None"
  by (cases "iv_locked s") (simp_all add: writeBit_def lock_guard_def readByte_locked)

lemma writeBits_undefined: "writeBits bus reg a n data s = None"
  by (cases "iv_locked s") (simp_all add: writeBits_def lock_guard_def readByte_locked)

section \<open>An open device\<close>

text \<open>An object that may use the bus, with nobody holding its mutex.\<close>

definition ready :: "('d, 'x) i2cDevice_scheme \<Rightarrow> bool" where
  "ready s \<longleftrightarrow> 0 < iv_handle s \<and> iv_mode s AND MODE_LOCKED = 0 \<and> \<not> iv_locked s"

lemma mode_unlocked [simp]:
  "m AND MODE_LOCKED = 0 \<Longrightarrow> (m AND NOT MODE_UNREACHABLE) AND MODE_LOCKED = 0"
  "m AND MODE_LOCKED = 0 \<Longrightarrow> (m OR MODE_UNREACHABLE) AND MODE_LOCKED = 0"
  by (auto simp: MODE_LOCKED_def MODE_UNREACHABLE_def and.assoc and.left_commute [of m] bit.conj_disj_distrib2
      bit.conj_disj_distrib)

lemma ready_write:
  assumes "ready s" and "i2c_write bus buf s = (n, t)"
  shows "ready t" and "iv_address t = iv_address s" and "sys_write bus (iv_address s) buf (iv_bus s) = (n, iv_bus t)"
  using assms by (auto simp: i2c_write_def ready_def Let_def split: prod.splits if_splits)

lemma ready_writeReg:
  assumes "ready s" and "writeReg bus reg buf s = (n, t)"
  shows "ready t" and "iv_address t = iv_address s" and "sys_write bus (iv_address s) (reg # buf) (iv_bus s) = (n + 1, iv_bus t)"
  using ready_write [OF assms(1)] assms(2) by (auto simp: writeReg_def split: prod.splits)

lemma ready_read:
  assumes "ready s" and "i2c_read bus k s = (n, buf, t)"
  shows "ready t" and "iv_address t = iv_address s" and "sys_read bus (iv_address s) k (iv_bus s) = (n, buf, iv_bus t)"
  using assms by (auto simp: i2c_read_def ready_def Let_def split: prod.splits if_splits)

lemma ready_readReg:
  assumes "ready s" and "sys_rdwr bus (iv_address s) [reg] k (iv_bus s) = (r, d)"
  shows "readReg bus reg k s =
    Some (case r of None \<Rightarrow> - 1 | Some buf \<Rightarrow> int k, case r of None \<Rightarrow> [] | Some buf \<Rightarrow> buf, s\<lparr>iv_bus := d\<rparr>)"
  using assms by (auto simp: readReg_def ready_def lock_guard_def unlock_def split: option.split)

lemma ready_bus [simp]: "ready (s\<lparr>iv_bus := d\<rparr>) \<longleftrightarrow> ready s"
  by (simp add: ready_def)

text \<open>A read that succeeds at once needs no retry.\<close>

lemma readBytes_loop_ok:
  assumes "ready s" and "sys_rdwr bus (iv_address s) [reg] k (iv_bus s) = (Some buf, d)"
  shows "readBytes_loop n bus reg k s = Some (int k, buf, s\<lparr>iv_bus := d\<rparr>)"
  by (simp add: readBytes_loop.simps ready_readReg [OF assms])

lemma readBytes_ok:
  assumes "ready s" and "sys_rdwr bus (iv_address s) [reg] k (iv_bus s) = (Some buf, d)" and "k < 2 ^ 15"
  shows "readBytes bus reg k s = Some (int k, buf, s\<lparr>iv_bus := d\<rparr>)"
  using assms(3) by (simp add: readBytes_def readBytes_loop_ok [OF assms(1,2)] to_int16_def signed_of_int
      signed_take_bit_int_eq_self)

text \<open>An open device can always be read and written, whatever comes back.\<close>

lemma readBytes_loop_ready:
  "ready s \<Longrightarrow> \<exists>n data d. readBytes_loop r bus reg k s = Some (n, data, s\<lparr>iv_bus := d\<rparr>)"
proof (induction r arbitrary: s)
  case 0
  obtain b d where "sys_rdwr bus (iv_address s) [reg] k (iv_bus s) = (b, d)" by fastforce
  then show ?case by (simp add: readBytes_loop.simps [of 0] ready_readReg [OF 0]) blast
next
  case (Suc r)
  obtain b d where b: "sys_rdwr bus (iv_address s) [reg] k (iv_bus s) = (b, d)" by fastforce
  note q = ready_readReg [OF Suc.prems b]
  have "ready (s\<lparr>iv_bus := d\<rparr>)" using Suc.prems by simp
  from Suc.IH [OF this] show ?case by (auto simp: readBytes_loop.simps [of "Suc r"] q)
qed

lemma readWord_ready:
  assumes "ready s" obtains ok data d where "readWord bus reg s = Some (ok, data, s\<lparr>iv_bus := d\<rparr>)"
proof -
  obtain n data d where "readBytes_loop fNrRetries bus reg 2 s = Some (n, data, s\<lparr>iv_bus := d\<rparr>)"
    using readBytes_loop_ready [OF assms] by blast
  then show thesis
    by (intro that [of "fst (words_result 1 n data) = 1" "snd (words_result 1 n data)" d])
      (simp add: readWord_def readWords_def split: prod.split)
qed

lemma i2c_write_more: "i2c_write bus buf s = (n, t) \<Longrightarrow> i2cDevice.more t = i2cDevice.more s"
  by (auto simp: i2c_write_def Let_def split: prod.splits if_splits)

lemma writeBytes_loop_ready:
  "ready s \<Longrightarrow> writeBytes_loop r bus reg data s = (n, t) \<Longrightarrow> ready t \<and> i2cDevice.more t = i2cDevice.more s"
proof (induction r arbitrary: s)
  case 0
  then show ?case
    using ready_writeReg [OF 0(1)]
    by (auto simp: writeBytes_loop.simps [of 0] writeReg_def Let_def dest: i2c_write_more split: prod.splits)
next
  case (Suc r)
  obtain m u where u: "writeReg bus reg data s = (m, u)" by fastforce
  have "ready u" using ready_writeReg(1) [OF Suc.prems(1) u] .
  moreover have "i2cDevice.more u = i2cDevice.more s"
    using u by (auto simp: writeReg_def Let_def dest: i2c_write_more split: prod.splits)
  ultimately show ?case
    using Suc.prems(2) Suc.IH [of u] by (auto simp: writeBytes_loop.simps [of "Suc r"] u split: if_splits)
qed

lemma writeWord_ready:
  assumes "ready s" obtains ok t where "writeWord bus reg w s = Some (ok, t)" and "ready t" and "i2cDevice.more t = i2cDevice.more s"
proof -
  obtain n t where "writeBytes_loop fNrRetries bus reg (words_octets [w]) s = (n, t)" by fastforce
  then show thesis using writeBytes_loop_ready [OF assms]
    by (intro that [of "n = 2" t]) (auto simp: writeWord_def writeWords_def)
qed

lemma writeBytes_loop_ok:
  assumes "ready s" and "sys_write bus (iv_address s) (reg # buf) (iv_bus s) = (int (length buf) + 1, d)"
  obtains t where "writeBytes_loop n bus reg buf s = (int (length buf), t)" and "ready t"
    and "iv_address t = iv_address s" and "iv_bus t = d"
proof -
  obtain m t where w: "writeReg bus reg buf s = (m, t)" by (cases "writeReg bus reg buf s")
  note r = ready_writeReg [OF assms(1) w]
  then have "m = int (length buf)" "iv_bus t = d" using assms(2) by auto
  then show thesis using r w that [of t] by (simp add: writeBytes_loop.simps)
qed

lemma words_octets_length [simp]: "length (words_octets ws) = 2 * length ws"
  by (induction ws) (simp_all add: words_octets_def)

lemma octets_words_octets [simp]: "octets_words (words_octets ws) = ws"
proof (induction ws)
  case (Cons w ws)
  have "push_bit 8 (ucast (ucast (drop_bit 8 w) :: byte)) OR ucast (ucast w :: byte) = w"
    by (subst or.commute) (rule join16_le)
  then show ?case using Cons by (simp add: words_octets_def)
qed (simp add: words_octets_def)

section \<open>Failures of the bus\<close>

text \<open>A bus on which every write fails, as it is when no chip answers.\<close>

definition no_answer :: "'d i2c_bus \<Rightarrow> bool" where
  "no_answer bus \<longleftrightarrow> (\<forall>address buf d. fst (sys_write bus address buf d) = - 1)"

lemma writeBytes_loop_fails:
  assumes "no_answer bus" and "ready s"
  shows "fst (writeBytes_loop n bus reg buf s) = - 2 \<and> ready (snd (writeBytes_loop n bus reg buf s))"
  using assms(2)
proof (induction n arbitrary: s)
  case 0
  obtain m t where w: "writeReg bus reg buf s = (m, t)" by (cases "writeReg bus reg buf s")
  have "m + 1 = - 1" using ready_writeReg(3) [OF 0 w] assms(1) unfolding no_answer_def by (metis fst_conv)
  then show ?case using ready_writeReg(1) [OF 0 w] by (simp add: writeBytes_loop.simps w)
next
  case (Suc n)
  obtain m t where w: "writeReg bus reg buf s = (m, t)" by (cases "writeReg bus reg buf s")
  have "m + 1 = - 1" using ready_writeReg(3) [OF Suc.prems w] assms(1) unfolding no_answer_def by (metis fst_conv)
  then show ?case using Suc.IH [OF ready_writeReg(1) [OF Suc.prems w]]
    by (subst (1 2) writeBytes_loop.simps) (simp add: w)
qed

text \<open>
  How the base class reports failed writes. On a bus where nothing answers, \<open>writeBytes\<close> and \<open>writeByte\<close>
  report success, since the count -2 that \<open>writeReg\<close> computes from the error is converted to \<open>bool\<close>; \<open>writeWords\<close>
  compares counts and reports the failure. \<open>writeBit\<close> and \<open>writeBits\<close> never work, whatever the bus does: they
  lock the mutex that reading the register locks again.
\<close>

theorem failed_writes_reported:
  assumes "no_answer bus" and "ready s" and "length ws \<le> 256"
  shows "fst (writeBytes bus reg buf s) \<and> fst (writeByte bus reg b s)
    \<and> (\<exists>t. writeWords bus reg ws s = Some (False, t))
    \<and> writeBit bus reg n b s = None \<and> writeBits bus reg n m b s = None"
  using writeBytes_loop_fails [OF assms(1,2)] assms(3)
  by (auto simp: writeBytes_def writeByte_def writeWords_def writeBit_undefined writeBits_undefined case_prod_beta)

definition dead_bus :: "unit i2c_bus" where
  "dead_bus = \<lparr>sys_read = \<lambda>_ _ d. (- 1, [], d), sys_write = \<lambda>_ _ d. (- 1, d), sys_rdwr = \<lambda>_ _ _ d. (None, d),
     sys_slave = \<lambda>_ _ d. (True, d)\<rparr>"

definition opened :: "u8 \<Rightarrow> 'd \<Rightarrow> 'd i2cDevice" where
  "opened address d = \<lparr>iv_handle = 3, iv_address = address, iv_mode = MODE_NORMAL, iv_nrBytesWritten = 0,
     iv_nrBytesRead = 0, iv_globalNrBytesWritten = 0, iv_globalNrBytesRead = 0, iv_nrDevices = 1, iv_ioErrors = 0,
     iv_locked = False, iv_bus = d\<rparr>"

lemma ready_opened [simp]: "ready (opened address d)"
  by (simp add: ready_def opened_def MODE_NORMAL_def MODE_LOCKED_def)

lemma opened_simps [simp]:
  "iv_address (opened address d) = address" "iv_bus (opened address d) = d" "iv_mode (opened address d) = MODE_NORMAL"
  by (simp_all add: opened_def)

theorem failed_writes_reported_witness:
  "fst (writeByte dead_bus 1 7 (opened 0x41 ())) \<and> writeBit dead_bus 1 0 1 (opened 0x41 ()) = None"
  using failed_writes_reported [of dead_bus "opened 0x41 ()" "[]" 1 "[7]" 7 0 0]
    failed_writes_reported [of dead_bus "opened 0x41 ()" "[]" 1 "[7]" 1 0 0]
  by (simp add: no_answer_def dead_bus_def)

end
