(* ===== verification/Eeprom.thy ===== *)
theory Eeprom
  imports I2c_Device
begin

text \<open>
  The EEPROM with the calibration data: class \<open>EEPROM24AA02\<close> (\<open>daemon/src/hardware/i2c/eeprom24aa02.cpp\<close>), 256
  octets in pages of eight. Writing past the end of a page wraps around within it, so \<open>writeBytes\<close> cuts what it
  is given into pages.
\<close>

record 'd eeprom24aa02 = "'d i2cDevice" +
  ee_title :: string

section \<open>Single octets\<close>

definition eep_readByte :: "'d i2c_bus \<Rightarrow> u8 \<Rightarrow> ('d, 'x) i2cDevice_scheme
    \<Rightarrow> (byte \<times> ('d, 'x) i2cDevice_scheme) option" where
  "eep_readByte bus addr s = do {
     (n, val, s) \<leftarrow> readReg bus addr 1 s;
     Some (case val of [] \<Rightarrow> 0 | b # _ \<Rightarrow> b, s)
   }"

definition eep_readByte_ok :: "'d i2c_bus \<Rightarrow> u8 \<Rightarrow> ('d, 'x) i2cDevice_scheme
    \<Rightarrow> (bool \<times> byte list \<times> ('d, 'x) i2cDevice_scheme) option" where
  "eep_readByte_ok bus addr s = do {
     (n, val, s) \<leftarrow> readReg bus addr 1 s;
     Some (n = 1, val, s)
   }"

definition eep_writeByte :: "'d i2c_bus \<Rightarrow> u8 \<Rightarrow> byte \<Rightarrow> ('d, 'x) i2cDevice_scheme \<Rightarrow> ('d, 'x) i2cDevice_scheme" where
  "eep_writeByte bus addr data s = snd (i2c_write bus [addr, data] s)"

section \<open>Many octets\<close>

definition PAGESIZE :: u8 where
  "PAGESIZE = 8"

text \<open>The octets to write next, computed in an octet from the address and the length asked for.\<close>

definition pageRemainder :: "u8 \<Rightarrow> u16 \<Rightarrow> u8" where
  "pageRemainder currAddr len =
     (let r = PAGESIZE - currAddr mod PAGESIZE
      in if uint len \<le> uint currAddr + uint r then ucast len - currAddr else r)"

datatype access_error = Out_of_bounds

text \<open>
  The loop of \<open>writeBytes\<close> over \<open>data\<close>: None if it never ends, \<open>Inl\<close> if it reads past the end of \<open>data\<close>.
\<close>

partial_function (option) eep_loop :: "'d i2c_bus \<Rightarrow> u8 \<Rightarrow> u16 \<Rightarrow> byte list \<Rightarrow> u16 \<Rightarrow> bool \<Rightarrow> ('d, 'x) i2cDevice_scheme
    \<Rightarrow> (access_error + bool \<times> ('d, 'x) i2cDevice_scheme) option" where
  "eep_loop bus addr len data i success s =
     (if len \<le> i then Some (Inr (success, s))
      else if length data < unat i + unat (pageRemainder (addr + ucast i) len) then Some (Inl Out_of_bounds)
      else let r = pageRemainder (addr + ucast i) len;
               w = writeReg bus (addr + ucast i) (take (unat r) (drop (unat i) data)) s
           in eep_loop bus addr len data (i + ucast r) (success \<and> fst w = uint r) (snd w))"

definition eep_writeBytes :: "'d i2c_bus \<Rightarrow> u8 \<Rightarrow> u16 \<Rightarrow> byte list \<Rightarrow> ('d, 'x) i2cDevice_scheme
    \<Rightarrow> (access_error + bool \<times> ('d, 'x) i2cDevice_scheme) option" where
  "eep_writeBytes bus addr len data s = eep_loop bus addr len data 0 True s"

definition eep_readBytes :: "'d i2c_bus \<Rightarrow> u8 \<Rightarrow> nat \<Rightarrow> ('d, 'x) i2cDevice_scheme
    \<Rightarrow> (int \<times> byte list \<times> ('d, 'x) i2cDevice_scheme) option" where
  "eep_readBytes bus regAddr len s = readBytes bus regAddr len s"

definition eep_identify :: "'d i2c_bus \<Rightarrow> ('d, 'x) eeprom24aa02_scheme \<Rightarrow> (bool \<times> ('d, 'x) eeprom24aa02_scheme) option" where
  "eep_identify bus s =
     (if iv_mode s = MODE_FAILED then Some (False, s)
      else let (present, s) = devicePresent bus s in
        if \<not> present then Some (False, s)
        else do {
          (n, buf, s) \<leftarrow> eep_readBytes bus 0x00 256 s;
          if n \<noteq> 256 then Some (False, s) else do {
          (n, buf, s) \<leftarrow> eep_readBytes bus 0x01 256 s;
          if n \<noteq> 256 then Some (False, s) else do {
          (n, buf, s) \<leftarrow> eep_readBytes bus 0x00 257 s;
          if n \<noteq> 257 then Some (False, s) else do {
          (n, buf, s) \<leftarrow> eep_readBytes bus 0xfa 6 s;
          if n \<noteq> 6 then Some (False, s)
          else Some (True, if take 2 buf = [0x29, 0x41] then s\<lparr>ee_title := ''24AA02UID''\<rparr> else s)}}}})"

section \<open>The chip\<close>

text \<open>
  What the data sheet promises of the chip at \<open>address\<close>: a memory of 256 octets; a write of octets that lie on
  one page stores them, a read gives the octets from an address on, and both are acknowledged.
\<close>

definition overwrite :: "nat \<Rightarrow> 'a list \<Rightarrow> 'a list \<Rightarrow> 'a list" where
  "overwrite a bs m = take a m @ bs @ drop (a + length bs) m"

definition eeprom_chip :: "'d i2c_bus \<Rightarrow> u8 \<Rightarrow> ('d \<Rightarrow> byte list) \<Rightarrow> bool" where
  "eeprom_chip bus address memory \<longleftrightarrow>
     (\<forall>d. length (memory d) = 256) \<and>
     (\<forall>d a bs. bs \<noteq> [] \<longrightarrow> unat a mod 8 + length bs \<le> 8 \<longrightarrow>
        fst (sys_write bus address (a # bs) d) = int (length bs) + 1 \<and>
        memory (snd (sys_write bus address (a # bs) d)) = overwrite (unat a) bs (memory d)) \<and>
     (\<forall>d a n. unat a + n \<le> 256 \<longrightarrow>
        fst (sys_rdwr bus address [a] n d) = Some (take n (drop (unat a) (memory d))) \<and>
        memory (snd (sys_rdwr bus address [a] n d)) = memory d) \<and>
     (\<forall>d. fst (sys_read bus address 1 d) = 1 \<and> memory (snd (snd (sys_read bus address 1 d))) = memory d)"

lemma eeprom_chip_write:
  assumes "eeprom_chip bus address memory" and "bs \<noteq> []" and "unat a mod 8 + length bs \<le> 8"
    and "ready s" and "iv_address s = address" and "writeReg bus a bs s = (n, t)"
  shows "n = int (length bs)" and "memory (iv_bus t) = overwrite (unat a) bs (memory (iv_bus s))"
    and "ready t" and "iv_address t = address"
proof -
  have w: "fst (sys_write bus address (a # bs) d) = int (length bs) + 1"
    "memory (snd (sys_write bus address (a # bs) d)) = overwrite (unat a) bs (memory d)" for d
    using assms(1-3) unfolding eeprom_chip_def by blast+
  note r = ready_writeReg [OF assms(4,6), unfolded assms(5)]
  show "n = int (length bs)" using w(1) [of "iv_bus s"] r(3) by simp
  show "memory (iv_bus t) = overwrite (unat a) bs (memory (iv_bus s))" using w(2) [of "iv_bus s"] r(3) by simp
  show "ready t" "iv_address t = address" using r(1,2) assms(5) by simp_all
qed

lemma eeprom_chip_read:
  assumes "eeprom_chip bus address memory" and "unat a + k \<le> 256" and "ready s" and "iv_address s = address"
  obtains t where "eep_readBytes bus a k s = Some (int k, take k (drop (unat a) (memory (iv_bus s))), t)"
    and "ready t" and "iv_address t = address" and "memory (iv_bus t) = memory (iv_bus s)"
proof -
  obtain r d where rd: "sys_rdwr bus (iv_address s) [a] k (iv_bus s) = (r, d)" by fastforce
  then have r: "r = Some (take k (drop (unat a) (memory (iv_bus s))))" "memory d = memory (iv_bus s)"
    using assms(1,2,4) unfolding eeprom_chip_def by (metis fst_conv, metis snd_conv)
  show thesis
    using readBytes_ok [OF assms(3), of bus a k _ d] rd r assms(2-4)
    by (intro that [of "s\<lparr>iv_bus := d\<rparr>"]) (simp_all add: eep_readBytes_def)
qed

section \<open>Writing from the first octet on\<close>

lemma overwrite_step:
  "i + k \<le> length data \<Longrightarrow> length data \<le> length m \<Longrightarrow>
     overwrite i (take k (drop i data)) (take i data @ drop i m) = take (i + k) data @ drop (i + k) m"
  by (simp add: overwrite_def take_add add.commute)

lemma u16_of_nat [simp]: "n \<le> 256 \<Longrightarrow> unat (word_of_nat n :: u16) = n"
  by (simp add: unat_of_nat take_bit_nat_eq_self)

lemma u8_of_nat [simp]: "n < 256 \<Longrightarrow> unat (word_of_nat n :: u8) = n"
  by (simp add: unat_of_nat take_bit_nat_eq_self)

lemma octet_of_index [simp]: "(ucast (word_of_nat i :: u16) :: u8) = word_of_nat i"
  by (simp add: low_octet_of_nat)

lemma page_mod: "unat (a mod PAGESIZE) = unat a mod 8"
  by (simp add: PAGESIZE_def unat_mod)

lemma pageRemainder_value:
  assumes "unat a < unat len" and "unat len \<le> 256"
  shows "unat (pageRemainder a len) = min (8 - unat a mod 8) (unat len - unat a)"
proof -
  have r: "unat (PAGESIZE - a mod PAGESIZE) = 8 - unat a mod 8"
    by (subst unat_sub) (simp_all add: word_le_nat_alt page_mod, simp_all add: PAGESIZE_def)
  have small: "unat (ucast len - a :: u8) = unat len - unat a" if "unat len \<le> unat a + (8 - unat a mod 8)"
  proof -
    have "(ucast len - a :: u8) = word_of_nat (unat len) - word_of_nat (unat a)" by (simp only: of_nat_unat ucast_id)
    also have "\<dots> = word_of_nat (unat len - unat a)" using assms(1) by (simp add: of_nat_diff)
    finally show ?thesis using that by simp
  qed
  have c: "uint len \<le> uint a + uint (PAGESIZE - a mod PAGESIZE) \<longleftrightarrow> unat len \<le> unat a + (8 - unat a mod 8)"
    by (simp only: uint_nat r of_nat_add [symmetric] of_nat_le_iff)
  show ?thesis
  proof (cases "unat len \<le> unat a + (8 - unat a mod 8)")
    case True
    then have "pageRemainder a len = ucast len - a" by (simp only: pageRemainder_def Let_def c if_True)
    then show ?thesis using True small by simp
  next
    case False
    then have "pageRemainder a len = PAGESIZE - a mod PAGESIZE" by (simp only: pageRemainder_def Let_def c if_False)
    then show ?thesis using False r by simp
  qed
qed

lemma eep_loop_image:
  assumes "eeprom_chip bus address memory" and "length data = n" and "n \<le> 256" and "length m = 256"
    and "ready s" and "iv_address s = address" and "i \<le> n" and "i mod 8 = 0 \<or> i = n"
    and "memory (iv_bus s) = take i data @ drop i m"
  shows "\<exists>t. eep_loop bus 0 (word_of_nat n) data (word_of_nat i) True s = Some (Inr (True, t)) \<and> ready t
    \<and> iv_address t = address \<and> memory (iv_bus t) = data @ drop n m"
  using assms(5-)
proof (induction "n - i" arbitrary: i s rule: less_induct)
  case less
  show ?case
  proof (cases "i = n")
    case True
    then show ?thesis using less.prems assms(2) by (subst eep_loop.simps) simp
  next
    case False
    then have i: "i < n" "i mod 8 = 0" "i < 256" using less.prems assms(3) by auto
    let ?a = "word_of_nat i :: u8" and ?n = "word_of_nat n :: u16" and ?i = "word_of_nat i :: u16"
    let ?r = "min 8 (n - i)"
    have a: "0 + ucast ?i = ?a" by simp
    have r: "unat (pageRemainder ?a ?n) = ?r"
      using pageRemainder_value [of ?a ?n] i assms(3) by simp
    obtain k t where w: "writeReg bus ?a (take ?r (drop i data)) s = (k, t)" by fastforce
    have l: "length (take ?r (drop i data)) = ?r" using assms(2) by simp
    have ne: "take ?r (drop i data) \<noteq> []" using i assms(2) by simp
    have p: "unat ?a mod 8 + length (take ?r (drop i data)) \<le> 8" unfolding l using i by simp
    note e = eeprom_chip_write [OF assms(1) ne p less.prems(1,2) w, unfolded l less.prems(5)]
    have ui: "unat ?a = i" using i by simp
    have k: "k = int ?r" "memory (iv_bus t) = overwrite i (take ?r (drop i data)) (take i data @ drop i m)"
      and t: "ready t" "iv_address t = address"
      using e unfolding ui by auto
    have i': "i + ?r \<le> n" "(i + ?r) mod 8 = 0 \<or> i + ?r = n" "n - (i + ?r) < n - i"
      using i by (auto simp: min_def)
    have "eep_loop bus 0 ?n data ?i True s = eep_loop bus 0 ?n data (word_of_nat (i + ?r)) True t"
    proof -
      have u: "unat ?i = i" "unat ?n = n"
        by (rule u16_of_nat, use i assms(3) in linarith)+
      have c: "(?n \<le> ?i) = False" "(length data < i + ?r) = False"
        using i(1) i'(1) by (simp_all only: word_le_nat_alt u assms(2) not_le not_less eq_False)
      have "(ucast (pageRemainder ?a ?n) :: u16) = word_of_nat ?r"
        unfolding r [symmetric] by (rule of_nat_unat [symmetric])
      then show ?thesis
        by (simp only: eep_loop.simps [of bus 0 ?n data ?i True s] a r u c if_False Let_def w fst_conv snd_conv
            uint_nat k(1) of_nat_add simp_thms)
    qed
    moreover have "memory (iv_bus t) = take (i + ?r) data @ drop (i + ?r) m"
      using k(2) overwrite_step [of i ?r data m] i'(1) assms(2-4) by simp
    ultimately show ?thesis using less.hyps [OF i'(3) t i'(1,2)] by simp
  qed
qed

section \<open>Writing from a later octet on\<close>

text \<open>From here the loop never ends: the end of the data is behind the address where it stops advancing.\<close>

definition stuck_at :: "u8 \<Rightarrow> u16 \<Rightarrow> byte list \<Rightarrow> u16 \<Rightarrow> bool" where
  "stuck_at addr len data i \<longleftrightarrow> unat len < 256 \<and> 0 < unat addr \<and> unat addr + unat i \<le> unat len \<and> length data = unat len"

lemma pageRemainder_end: "unat a = unat len \<Longrightarrow> pageRemainder a len = 0"
proof -
  assume e: "unat a = unat len"
  have "(ucast len :: u8) = word_of_nat (unat len)" by (rule of_nat_unat [symmetric])
  then have "ucast len = a" by (simp only: e [symmetric] of_nat_unat ucast_id)
  moreover have "uint len \<le> uint a + uint (PAGESIZE - a mod PAGESIZE)" by (simp only: uint_nat e)
  ultimately show ?thesis by (simp add: pageRemainder_def Let_def)
qed

lemma stuck_step:
  fixes i :: u16
  assumes "stuck_at addr len data i"
  defines "r \<equiv> pageRemainder (addr + ucast i) len"
  shows "\<not> len \<le> i" and "unat i + unat r \<le> length data" and "stuck_at addr len data (i + ucast r)"
proof -
  have b: "unat addr + unat i \<le> unat len" "unat len < 256" "0 < unat addr" "length data = unat len"
    using assms(1) by (simp_all add: stuck_at_def)
  have c: "unat (ucast i :: u8) = unat i" using b by (simp add: unsigned_ucast_eq take_bit_nat_eq_self)
  have a: "unat (addr + ucast i) = unat addr + unat i"
    using b c by (subst unat_add_lem [THEN iffD1]) simp_all
  have r: "unat r \<le> unat len - (unat addr + unat i)"
  proof (cases "unat addr + unat i = unat len")
    case True
    then show ?thesis using pageRemainder_end [of "addr + ucast i" len] a by (simp add: r_def)
  next
    case False
    then show ?thesis using pageRemainder_value [of "addr + ucast i" len] a b by (simp add: r_def)
  qed
  have d: "unat (ucast r :: u16) = unat r" by (simp add: unsigned_ucast_eq take_bit_nat_eq_self less_trans [OF unsigned_less])
  have n: "unat (i + ucast r) = unat i + unat r"
    using b r d by (subst unat_add_lem [THEN iffD1]) simp_all
  show "\<not> len \<le> i" using b by (simp add: word_le_nat_alt)
  show "unat i + unat r \<le> length data" using b r by simp
  show "stuck_at addr len data (i + ucast r)" using b r n by (simp add: stuck_at_def)
qed

lemma eep_loop_returns_not_stuck:
  assumes "eep_loop bus addr len data i success s = Some y"
  shows "\<not> stuck_at addr len data i"
proof (rule eep_loop.raw_induct [where P = "\<lambda>bus addr len data i success s y. \<not> stuck_at addr len data i", OF _ assms])
  fix f :: "'a i2c_bus \<Rightarrow> u8 \<Rightarrow> u16 \<Rightarrow> byte list \<Rightarrow> u16 \<Rightarrow> bool \<Rightarrow> ('a, 'b) i2cDevice_scheme
    \<Rightarrow> (access_error + bool \<times> ('a, 'b) i2cDevice_scheme) option"
  fix bus addr len data i success s y
  assume IH: "\<And>bus addr len data i success s y. f bus addr len data i success s = Some y \<Longrightarrow> \<not> stuck_at addr len data i"
    and eq: "(if len \<le> i then Some (Inr (success, s))
      else if length data < unat i + unat (pageRemainder (addr + ucast i) len) then Some (Inl Out_of_bounds)
      else let r = pageRemainder (addr + ucast i) len;
               w = writeReg bus (addr + ucast i) (take (unat r) (drop (unat i) data)) s
           in f bus addr len data (i + ucast r) (success \<and> fst w = uint r) (snd w)) = Some y"
  show "\<not> stuck_at addr len data i"
  proof
    assume st: "stuck_at addr len data i"
    note n = stuck_step [OF st]
    then show False using eq IH by (simp add: Let_def)
  qed
qed

section \<open>A whole memory from a later octet on\<close>

lemma pageRemainder_256: "unat (pageRemainder a 256) = 8 - unat a mod 8"
proof -
  have a: "unat a < 256" by (rule less_le_trans [OF unsigned_less]) simp
  then have "unat a div 8 < 32" by (simp add: less_mult_imp_div_less)
  moreover have "unat a = unat a div 8 * 8 + unat a mod 8" by simp
  ultimately have "8 - unat a mod 8 \<le> 256 - unat a" by linarith
  then show ?thesis using pageRemainder_value [of a 256] a by simp
qed

lemma address_at: "i \<le> 256 \<Longrightarrow> unat (a + ucast (word_of_nat i :: u16) :: u8) = (unat a + i) mod 256"
proof -
  have "a + ucast (word_of_nat i :: u16) = word_of_nat (unat a + i)" by simp
  then show ?thesis by (simp only: unsigned_of_nat) (simp add: take_bit_eq_mod)
qed

lemma eep_loop_256:
  assumes "i < 256" and "length data = 256" and "i + r \<le> 256" and "r = 8 - (unat a + i) mod 8"
  shows "eep_loop bus a 256 data (word_of_nat i) ok s =
    (let w = writeReg bus (a + word_of_nat i) (take r (drop i data)) s
     in eep_loop bus a 256 data (word_of_nat (i + r)) (ok \<and> fst w = int r) (snd w))"
proof -
  let ?r = "pageRemainder (a + word_of_nat i) 256"
  let ?i = "word_of_nat i :: u16"
  have a: "a + ucast ?i = a + word_of_nat i" by simp
  have "unat (a + word_of_nat i) = (unat a + i) mod 256" using address_at [of i a] assms(1) by simp
  then have r: "unat ?r = r" using assms(4) by (simp add: pageRemainder_256 mod_mod_cancel)
  then have r': "(ucast ?r :: u16) = word_of_nat r" by (metis of_nat_unat)
  have u: "unat ?i = i" using assms(1) by simp
  have c: "((256 :: u16) \<le> ?i) = False" "(length data < i + r) = False"
    using assms(1-3) by (simp_all add: word_le_nat_alt)
  show ?thesis
    by (simp only: eep_loop.simps [of bus a 256 data ?i ok s] a r r' u c if_False Let_def uint_nat of_nat_add)
qed

text \<open>From the middle of a page the last page asks for octets behind the data.\<close>

lemma eep_loop_beyond:
  "length data = 256 \<Longrightarrow> i < 256 \<Longrightarrow> unat a mod 8 \<noteq> 0 \<Longrightarrow>
     eep_loop bus a 256 data (word_of_nat i) ok s = Some (Inl Out_of_bounds)"
proof (induction "256 - i" arbitrary: i ok s rule: less_induct)
  case less
  define r where "r = 8 - (unat a + i) mod 8"
  show ?case
  proof (cases "i + r \<le> 256")
    case True
    have "i + r \<noteq> 256"
    proof
      assume "i + r = 256"
      then have "(unat a + i + r) mod 8 = unat a mod 8" by presburger
      moreover have "(unat a + i + r) mod 8 = 0" unfolding r_def by presburger
      ultimately show False using less.prems(3) by simp
    qed
    moreover have "0 < r" by (simp add: r_def)
    ultimately have "256 - (i + r) < 256 - i" "i + r < 256" using True less.prems(2) by auto
    from less.hyps [OF this(1) less.prems(1) this(2) less.prems(3)] show ?thesis
      unfolding eep_loop_256 [OF less.prems(2,1) True r_def] by (simp add: Let_def)
  next
    case False
    have "unat (a + word_of_nat i) = (unat a + i) mod 256" using address_at [of i a] less.prems(2) by simp
    then have "unat (pageRemainder (a + word_of_nat i) 256) = r" by (simp add: pageRemainder_256 mod_mod_cancel r_def)
    moreover have "\<not> (256 :: u16) \<le> word_of_nat i" using less.prems(2) by (simp add: word_le_nat_alt)
    ultimately show ?thesis using False less.prems by (subst eep_loop.simps) simp
  qed
qed

text \<open>The memory after \<open>i\<close> octets from \<open>a\<close> on, wrapped around at its end.\<close>

definition wrapped :: "nat \<Rightarrow> nat \<Rightarrow> byte list \<Rightarrow> byte list \<Rightarrow> byte list" where
  "wrapped a i data m = map (\<lambda>j. if (j + 256 - a) mod 256 < i then data ! ((j + 256 - a) mod 256) else m ! j) [0..<256]"

lemma wrapped_0: "length m = 256 \<Longrightarrow> wrapped a 0 data m = m"
  by (rule nth_equalityI) (simp_all add: wrapped_def)

lemma wrapped_256: "length data = 256 \<Longrightarrow> a \<le> 256 \<Longrightarrow> wrapped a 256 data m = rotate (256 - a) data"
  by (rule nth_equalityI) (simp_all add: wrapped_def nth_rotate add.commute)

lemma nth_overwrite:
  "a + length bs \<le> length m \<Longrightarrow> j < length m \<Longrightarrow> overwrite a bs m ! j = (if a \<le> j \<and> j < a + length bs then bs ! (j - a) else m ! j)"
  by (auto simp: overwrite_def nth_append min_def)

lemma length_overwrite: "a + length bs \<le> length m \<Longrightarrow> length (overwrite a bs m) = length m"
  by (simp add: overwrite_def)

lemma length_wrapped [simp]: "length (wrapped a i data m) = 256"
  by (simp add: wrapped_def)

lemma nth_wrapped: "j < 256 \<Longrightarrow>
    wrapped a i data m ! j = (if (j + 256 - a) mod 256 < i then data ! ((j + 256 - a) mod 256) else m ! j)"
  by (simp add: wrapped_def)

lemma wrap_inside:
  fixes a i j :: nat
  assumes "a < 256" and "i + 8 \<le> 256" and "j < 256" and "(a + i) mod 256 \<le> j" and "j < (a + i) mod 256 + 8"
  shows "(j + 256 - a) mod 256 = i + (j - (a + i) mod 256)"
proof (cases "a + i < 256")
  case True
  then have b: "(a + i) mod 256 = a + i" by simp
  have e: "j + 256 - a = (j - a) + 256" "j - a < 256" "i + (j - (a + i)) = j - a" using assms unfolding b by auto
  show ?thesis unfolding b e(1,3) using e(2) by simp
next
  case False
  then have m: "(a + i) mod 256 = a + i - 256" using assms(1,2) by (simp add: mod_if)
  then have "j + 256 - a = i + (j - (a + i - 256))" "j + 256 - a < 256" using False assms by auto
  then show ?thesis by (simp add: m)
qed

lemma wrap_outside:
  fixes a i j :: nat
  assumes "a < 256" and "i + 8 \<le> 256" and "j < 256" and "\<not> ((a + i) mod 256 \<le> j \<and> j < (a + i) mod 256 + 8)"
    and "(a + i) mod 256 + 8 \<le> 256"
  shows "((j + 256 - a) mod 256 < i + 8) = ((j + 256 - a) mod 256 < i)"
proof -
  define x where "x = (j + 256 - a) mod 256"
  have False if "i \<le> x" "x < i + 8"
  proof (cases "a \<le> j")
    case True
    then have e: "j + 256 - a = (j - a) + 256" by simp
    have "j - a < 256" using assms(3) by linarith
    then have "x = j - a" unfolding x_def e mod_add_self2 by (rule mod_less)
    then have j: "j = a + x" using True by simp
    then have "a + i < 256" using that assms(3) by linarith
    then have b: "(a + i) mod 256 = a + i" by simp
    show False using assms(4) that unfolding b j by linarith
  next
    case False
    then have "j + 256 - a < 256" using assms(1) by linarith
    then have j: "x = j + 256 - a" unfolding x_def by simp
    show False
    proof (cases "a + i < 256")
      case True
      then have b: "(a + i) mod 256 = a + i" by simp
      show False using assms(5) that False unfolding b j by linarith
    next
      case outside: False
      then have b: "(a + i) mod 256 = a + i - 256" using assms(1,2) by (simp add: mod_if)
      show False using assms(1,4) that outside False unfolding b j by auto
    qed
  qed
  then show ?thesis unfolding x_def [symmetric] by fastforce
qed

lemma page_end: "(b :: nat) < 256 \<Longrightarrow> b mod 8 = 0 \<Longrightarrow> b + 8 \<le> 256"
  by presburger

lemma page_start: "(a :: nat) mod 8 = 0 \<Longrightarrow> i mod 8 = 0 \<Longrightarrow> (a + i) mod 256 mod 8 = 0"
  by (simp add: mod_mod_cancel mod_add_eq [of a 8 i, symmetric])

lemma wrapped_step:
  assumes "length data = 256" and "a < 256" and "i + 8 \<le> 256" and "a mod 8 = 0" and "i mod 8 = 0"
  shows "overwrite ((a + i) mod 256) (take 8 (drop i data)) (wrapped a i data m) = wrapped a (i + 8) data m"
proof (rule nth_equalityI)
  let ?b = "(a + i) mod 256"
  have b: "?b + 8 \<le> 256" by (rule page_end [OF _ page_start [OF assms(4,5)]]) simp
  have l: "length (take 8 (drop i data)) = 8" using assms(1,3) by simp
  have f: "?b + length (take 8 (drop i data)) \<le> length (wrapped a i data m)" using b by (simp only: l length_wrapped)
  show "length (overwrite ?b (take 8 (drop i data)) (wrapped a i data m)) = length (wrapped a (i + 8) data m)"
    by (simp only: length_overwrite [OF f] length_wrapped)
  fix j assume "j < length (overwrite ?b (take 8 (drop i data)) (wrapped a i data m))"
  then have j: "j < 256" by (simp only: length_overwrite [OF f] length_wrapped)
  have o: "overwrite ?b (take 8 (drop i data)) (wrapped a i data m) ! j
    = (if ?b \<le> j \<and> j < ?b + 8 then take 8 (drop i data) ! (j - ?b) else wrapped a i data m ! j)"
    by (subst nth_overwrite [OF f]) (use j in \<open>simp_all only: l length_wrapped\<close>)
  show "overwrite ?b (take 8 (drop i data)) (wrapped a i data m) ! j = wrapped a (i + 8) data m ! j"
  proof (cases "?b \<le> j \<and> j < ?b + 8")
    case True
    then have k: "(j + 256 - a) mod 256 = i + (j - ?b)" "j - ?b < 8"
      using wrap_inside [of a i j] assms(2,3) j by auto
    then have "take 8 (drop i data) ! (j - ?b) = data ! (i + (j - ?b))" using assms(1,3) by simp
    moreover have "i + (j - ?b) < i + 8" using k(2) by linarith
    ultimately show ?thesis unfolding o nth_wrapped [OF j] k(1) if_P [OF True] by (simp only: if_True)
  next
    case False
    then have k: "((j + 256 - a) mod 256 < i + 8) = ((j + 256 - a) mod 256 < i)"
      using wrap_outside [OF assms(2,3) j _ b] by blast
    show ?thesis unfolding o nth_wrapped [OF j] k if_not_P [OF False] by (rule refl)
  qed
qed

lemma eep_loop_wraps:
  assumes "eeprom_chip bus address memory" and "length data = 256" and "unat a mod 8 = 0" and "length m = 256"
  shows "ready s \<Longrightarrow> iv_address s = address \<Longrightarrow> i \<le> 256 \<Longrightarrow> i mod 8 = 0 \<Longrightarrow> memory (iv_bus s) = wrapped (unat a) i data m \<Longrightarrow>
    \<exists>t. eep_loop bus a 256 data (word_of_nat i) True s = Some (Inr (True, t)) \<and> ready t \<and> iv_address t = address
      \<and> memory (iv_bus t) = rotate (256 - unat a) data"
proof (induction "256 - i" arbitrary: i s rule: less_induct)
  case less
  have a: "unat a < 256" by (rule less_le_trans [OF unsigned_less]) simp
  show ?case
  proof (cases "i = 256")
    case True
    then show ?thesis using less.prems assms(2) wrapped_256 [of data "unat a" m] a by (subst eep_loop.simps) simp
  next
    case False
    then have i: "i < 256" "i + 8 \<le> 256" using less.prems(3,4) by presburger+
    have r: "8 = 8 - (unat a + i) mod 8" using assms(3) less.prems(4) by presburger
    obtain k t where w: "writeReg bus (a + word_of_nat i) (take 8 (drop i data)) s = (k, t)" by fastforce
    have l: "length (take 8 (drop i data)) = 8" using i assms(2) by simp
    have u: "unat (a + word_of_nat i) = (unat a + i) mod 256" using address_at [of i a] i by simp
    have p: "unat (a + word_of_nat i) mod 8 + length (take 8 (drop i data)) \<le> 8"
      unfolding l u using page_start [OF assms(3) less.prems(4)] by simp
    have ne: "take 8 (drop i data) \<noteq> []" using l by auto
    note e = eeprom_chip_write [OF assms(1) ne p less.prems(1,2) w]
    have "memory (iv_bus t) = wrapped (unat a) (i + 8) data m"
      using e(2) wrapped_step [OF assms(2) a i(2) assms(3) less.prems(4), of m] by (simp add: u less.prems(5))
    note less.hyps [OF _ e(3,4) i(2) _ this]
    then have "\<exists>v. eep_loop bus a 256 data (word_of_nat (i + 8)) True t = Some (Inr (True, v)) \<and> ready v
        \<and> iv_address v = address \<and> memory (iv_bus v) = rotate (256 - unat a) data"
      using i less.prems(4) by simp
    then show ?thesis
      unfolding eep_loop_256 [OF i(1) assms(2) i(2) r] using w e(1) l by (simp add: Let_def)
  qed
qed

text \<open>
  C16: Writing pages. \<open>writeBytes\<close> from address 0 on is an update of the whole memory: it returns, reports success
  and has stored exactly the octets given, for every length up to that of the chip. From a later address it does
  not work. With less than 256 octets it never returns where the address lies within the length, since the octets
  left are counted against the length instead of the end of the data, and where it lies behind the length it reads
  past the end of the data. With 256 octets it reads past their end from the middle of a page, and from the start of a
  page it reports success with the octets wrapped around at the end of the memory.
\<close>

theorem eeprom_pages:
  assumes "eeprom_chip bus address memory" and "ready s" and "iv_address s = address" and "length data = n" and "0 < n"
  shows "(n \<le> 256 \<longrightarrow> (\<exists>t. eep_writeBytes bus 0 (word_of_nat n) data s = Some (Inr (True, t)) \<and> ready t
      \<and> iv_address t = address \<and> memory (iv_bus t) = overwrite 0 data (memory (iv_bus s))))
    \<and> (n < 256 \<and> 0 < a \<and> unat a \<le> n \<longrightarrow> eep_writeBytes bus a (word_of_nat n) data s = None)
    \<and> (n < unat a \<longrightarrow> eep_writeBytes bus a (word_of_nat n) data s = Some (Inl Out_of_bounds))
    \<and> (n = 256 \<and> unat a mod 8 \<noteq> 0 \<longrightarrow> eep_writeBytes bus a 256 data s = Some (Inl Out_of_bounds))
    \<and> (n = 256 \<and> unat a mod 8 = 0 \<longrightarrow> (\<exists>t. eep_writeBytes bus a 256 data s = Some (Inr (True, t)) \<and> ready t
      \<and> iv_address t = address \<and> memory (iv_bus t) = rotate (256 - unat a) data))"
proof (intro conjI impI)
  assume n: "n \<le> 256"
  have "length (memory (iv_bus s)) = 256" using assms(1) by (simp add: eeprom_chip_def)
  from eep_loop_image [OF assms(1) assms(4) n this assms(2,3), of 0]
  show "\<exists>t. eep_writeBytes bus 0 (word_of_nat n) data s = Some (Inr (True, t)) \<and> ready t
      \<and> iv_address t = address \<and> memory (iv_bus t) = overwrite 0 data (memory (iv_bus s))"
    using assms(4) by (simp add: eep_writeBytes_def overwrite_def)
next
  assume n: "n < 256 \<and> 0 < a \<and> unat a \<le> n"
  then have "stuck_at a (word_of_nat n) data 0" using assms(4) by (simp add: stuck_at_def word_less_nat_alt)
  then show "eep_writeBytes bus a (word_of_nat n) data s = None"
    unfolding eep_writeBytes_def using eep_loop_returns_not_stuck by (metis not_Some_eq)
next
  assume n: "n < unat a"
  have l: "unat a < 256" by (rule less_le_trans [OF unsigned_less]) simp
  then have u: "unat (word_of_nat n :: u16) = n" using n by simp
  have "(word_of_nat n - a :: u8) = word_of_nat (n + 256 - unat a)"
  proof -
    have "word_of_nat (n + 256 - unat a) = (word_of_nat n + 256 - word_of_nat (unat a) :: u8)"
      using l by (simp add: of_nat_diff)
    then show ?thesis by simp
  qed
  moreover have "n + 256 - unat a < 256" using n by linarith
  ultimately have "unat (word_of_nat n - a :: u8) = n + 256 - unat a" by (simp only: u8_of_nat)
  moreover have "uint (word_of_nat n :: u16) \<le> uint a + uint (PAGESIZE - a mod PAGESIZE)"
    using n u by (simp only: uint_nat)
  ultimately have "unat (pageRemainder a (word_of_nat n)) = n + 256 - unat a"
    by (simp only: pageRemainder_def Let_def if_True octet_of_index)
  moreover have "\<not> (word_of_nat n :: u16) \<le> 0" using u assms(5) by (simp add: word_le_nat_alt)
  moreover have "n < n + 256 - unat a" using l n by linarith
  ultimately show "eep_writeBytes bus a (word_of_nat n) data s = Some (Inl Out_of_bounds)"
    using assms(4) by (simp add: eep_writeBytes_def eep_loop.simps [of _ _ _ _ 0])
next
  assume "n = 256 \<and> unat a mod 8 \<noteq> 0"
  then show "eep_writeBytes bus a 256 data s = Some (Inl Out_of_bounds)"
    using eep_loop_beyond [of data 0 a] assms(4) by (simp add: eep_writeBytes_def)
next
  assume n: "n = 256 \<and> unat a mod 8 = 0"
  have m: "length (memory (iv_bus s)) = 256" using assms(1) by (simp add: eeprom_chip_def)
  show "\<exists>t. eep_writeBytes bus a 256 data s = Some (Inr (True, t)) \<and> ready t
      \<and> iv_address t = address \<and> memory (iv_bus t) = rotate (256 - unat a) data"
    using eep_loop_wraps [OF assms(1) _ _ m assms(2,3), of data a 0] wrapped_0 [OF m, of "unat a" data] n assms(4)
    by (simp add: eep_writeBytes_def)
qed

text \<open>A chip: its state is its content, filled up to 256 octets, and a write on one page stores its octets.\<close>

definition chip_memory :: "byte list \<Rightarrow> byte list" where
  "chip_memory d = take 256 (d @ replicate 256 0xff)"

definition chip_bus :: "byte list i2c_bus" where
  "chip_bus = \<lparr>sys_read = \<lambda>_ n d. (int n, replicate n 0, d),
     sys_write = \<lambda>_ buf d. (case buf of [] \<Rightarrow> (0, d)
       | a # bs \<Rightarrow> (int (length bs) + 1,
           if unat a + length bs \<le> 256 then overwrite (unat a) bs (chip_memory d) else d)),
     sys_rdwr = \<lambda>_ buf n d. (Some (take n (drop (unat (hd buf)) (chip_memory d))), d),
     sys_slave = \<lambda>_ _ d. (True, d)\<rparr>"

lemma chip_memory_props [simp]:
  "length (chip_memory d) = 256"
  "length d = 256 \<Longrightarrow> chip_memory d = d"
  by (simp_all add: chip_memory_def)

lemma page_inside: "bs \<noteq> [] \<Longrightarrow> unat (a :: u8) mod 8 + length bs \<le> 8 \<Longrightarrow> unat a + length bs \<le> 256"
proof -
  assume "unat a mod 8 + length bs \<le> 8"
  moreover have "unat a < 256" by (rule less_le_trans [OF unsigned_less]) simp
  then have "unat a div 8 < 32" by (simp add: less_mult_imp_div_less)
  moreover have "unat a = unat a div 8 * 8 + unat a mod 8" by simp
  ultimately show ?thesis by linarith
qed

lemma chip_bus_chip: "eeprom_chip chip_bus address chip_memory"
proof -
  have w: "fst (sys_write chip_bus address (a # bs) d) = int (length bs) + 1 \<and>
      chip_memory (snd (sys_write chip_bus address (a # bs) d)) = overwrite (unat a) bs (chip_memory d)"
    if "bs \<noteq> []" "unat a mod 8 + length bs \<le> 8" for d a bs
    using page_inside [OF that] by (simp add: chip_bus_def overwrite_def)
  show ?thesis unfolding eeprom_chip_def by (intro conjI allI impI w) (simp_all add: chip_bus_def)
qed

theorem eeprom_pages_witness:
  "eep_writeBytes chip_bus 4 4 [1, 2, 3, 4] (opened 0x50 []) = None \<and>
   eep_writeBytes chip_bus 16 4 [1, 2, 3, 4] (opened 0x50 []) = Some (Inl Out_of_bounds)"
  using eeprom_pages [OF chip_bus_chip [where address = "0x50"], where s = "opened 0x50 []" and n = 4 and a = 4 and data = "[1, 2, 3, 4]"]
    eeprom_pages [OF chip_bus_chip [where address = "0x50"], where s = "opened 0x50 []" and n = 4 and a = 16 and data = "[1, 2, 3, 4]"]
  by simp

end
