(* ===== verification/Text_Io.thy ===== *)
theory Text_Io
  imports Text Ieee_Double
begin

text \<open>
  Formatted input and output of the C++ standard library in the C locale, as \<open>calibration.cpp\<close> uses it:
  \<open>std::toupper\<close>, \<open>>>\<close> of an \<open>istringstream\<close> into \<open>unsigned\<close>, \<open>int\<close> and \<open>float\<close>, \<open>std::to_string\<close>, and \<open><<\<close> of a
  \<open>float\<close> with \<open>setprecision(7)\<close> and \<open>scientific\<close>; and the bits of a \<open>float\<close>.
\<close>

text \<open>String constants of the source, as octets.\<close>

definition octets :: "string \<Rightarrow> byte list" where
  "octets s = map of_char s"

lemma octets_eq [simp]: "octets s = octets t \<longleftrightarrow> s = t"
proof
  assume "octets s = octets t"
  then have "map (\<lambda>b. char_of (unat b)) (octets s) = (map (\<lambda>b. char_of (unat b)) (octets t) :: char list)" by simp
  moreover have "char_of (unat (of_char c :: byte)) = c" for c
  proof -
    have "(of_char c :: byte) = word_of_nat (of_char c)" by (simp only: of_nat_of_char)
    then have "unat (of_char c :: byte) = of_char c"
      by (simp only: unsigned_of_nat) (simp add: take_bit_nat_eq_self)
    then show ?thesis by simp
  qed
  ultimately show "s = t" by (simp add: octets_def comp_def)
qed simp

definition toupper :: "byte \<Rightarrow> byte" where
  "toupper c = (if 97 \<le> c \<and> c \<le> 122 then c - 32 else c)"

section \<open>Integers\<close>

text \<open>
  After white space and an optional sign, the digits; no digits is a failure, which stores 0. Where there is
  nothing but white space nothing is stored, None: the variable keeps what it was.
\<close>

definition has_text :: "byte list \<Rightarrow> bool" where
  "has_text text \<longleftrightarrow> dropWhile isspace text \<noteq> []"

definition split_sign :: "byte list \<Rightarrow> bool \<times> byte list" where
  "split_sign t = (case t of [] \<Rightarrow> (False, [])
     | c # cs \<Rightarrow> if c = 0x2d then (True, cs) else if c = 0x2b then (False, cs) else (False, t))"

definition unsigned_of :: "byte list \<Rightarrow> u32" where
  "unsigned_of text =
     (let (neg, t) = split_sign (dropWhile isspace text); ds = takeWhile isdigit t; n = digits_value ds
      in if ds = [] then 0 else if 2 ^ 32 \<le> n then - 1 else if neg then - word_of_nat n else word_of_nat n)"

definition in_unsigned :: "byte list \<Rightarrow> u32 option" where
  "in_unsigned text = (if has_text text then Some (unsigned_of text) else None)"

definition int_of :: "byte list \<Rightarrow> i32" where
  "int_of text =
     (let (neg, t) = split_sign (dropWhile isspace text); ds = takeWhile isdigit t; n = digits_value ds
      in if ds = [] then 0
         else if neg then (if 2 ^ 31 < n then - (2 ^ 31) else - word_of_nat n)
         else if 2 ^ 31 \<le> n then 2 ^ 31 - 1 else word_of_nat n)"

definition in_int :: "byte list \<Rightarrow> i32 option" where
  "in_int text = (if has_text text then Some (int_of text) else None)"

definition to_string_int :: "int \<Rightarrow> byte list" where
  "to_string_int n = (if n < 0 then 0x2d # to_string (nat (- n)) else to_string (nat n))"

lemma unsigned_of_to_string:
  assumes "n < 2 ^ 32" shows "unsigned_of (to_string n) = word_of_nat n"
proof -
  obtain c cs where t: "to_string n = c # cs" using to_string_nonempty [of n] by (cases "to_string n") auto
  then have "isdigit c" using to_string_digits [of n] by simp
  then have "\<not> isspace c" "c \<noteq> 0x2d" "c \<noteq> 0x2b" by (auto simp: isdigit_not_isspace isdigit_def)
  then have "split_sign (dropWhile isspace (to_string n)) = (False, to_string n)"
    by (simp add: split_sign_def t)
  then show ?thesis
    using assms by (simp add: unsigned_of_def takeWhile_to_string to_string_nonempty digits_value_to_string)
qed

lemma has_text_to_string [simp]: "has_text (to_string n)"
proof -
  obtain c cs where t: "to_string n = c # cs" using to_string_nonempty [of n] by (cases "to_string n") auto
  then have "\<not> isspace c" using to_string_digits [of n] by (simp add: isdigit_not_isspace)
  then show ?thesis by (simp add: has_text_def t)
qed

section \<open>Floats\<close>

datatype float32 = Finite bool rat | Infinite bool | Nan bool

definition pow10 :: "int \<Rightarrow> rat" where
  "pow10 k = (if 0 \<le> k then 10 ^ nat k else 1 / 10 ^ nat (- k))"

text \<open>
  The digits before and after the point and an exponent; where no digits are found before or after an
  \<open>e\<close> the input fails and 0 is stored.
\<close>

definition in_real :: "(rat \<Rightarrow> rat) \<Rightarrow> byte list \<Rightarrow> bool \<times> rat" where
  "in_real rounded text =
     (let (neg, t) = split_sign (dropWhile isspace text);
          ip = takeWhile isdigit t; t = dropWhile isdigit t;
          (fp, t) = (case t of [] \<Rightarrow> ([], []) | c # cs \<Rightarrow> if c = 0x2e then (takeWhile isdigit cs, dropWhile isdigit cs) else ([], t));
          m = digits_value (ip @ fp);
          (ok, k) = (case t of [] \<Rightarrow> (True, 0)
             | c # cs \<Rightarrow> if c = 0x65 \<or> c = 0x45
                 then (let (eneg, es) = split_sign cs; ds = takeWhile isdigit es; e = int (digits_value ds)
                       in (ds \<noteq> [], if eneg then - e else e))
                 else (True, 0))
      in if ip @ fp = [] \<or> \<not> ok then (False, 0)
         else (neg, rounded (of_nat m * pow10 (k - int (length fp)))))"

text \<open>
  The magnitude of a \<open>float\<close> for a number: a multiple of the smallest one below the normal numbers, the greatest
  one, which is stored with a failure, beyond the range.
\<close>

definition nearest_float :: "rat \<Rightarrow> rat" where
  "nearest_float x =
     (if x < pow2 (- 126) then of_int (round_half_even (x / pow2 (- 149))) * pow2 (- 149)
      else if pow2 128 \<le> float x then pow2 128 - pow2 104 else float x)"

definition float_of :: "byte list \<Rightarrow> bool \<times> rat" where
  "float_of text = in_real nearest_float text"

definition in_float :: "byte list \<Rightarrow> (bool \<times> rat) option" where
  "in_float text = (if has_text text then Some (float_of text) else None)"

text \<open>Into a \<open>double\<close> that was 0; values beyond its normal range are outside the model.\<close>

definition in_double :: "byte list \<Rightarrow> rat" where
  "in_double text = (case in_real double text of (neg, x) \<Rightarrow> if neg then - x else x)"

text \<open>The exponent of ten of a positive number.\<close>

definition ilog10 :: "rat \<Rightarrow> int" where
  "ilog10 x = (let (p, q) = quotient_of x; k = int (floorlog 10 (nat p)) - int (floorlog 10 (nat q))
               in if pow10 k \<le> x then k else k - 1)"

definition out_exponent :: "int \<Rightarrow> byte list" where
  "out_exponent e = (if e < 0 then 0x2d else 0x2b) # (if \<bar>e\<bar> < 10 then [0x30] else []) @ to_string (nat \<bar>e\<bar>)"

definition out_scientific7 :: "rat \<Rightarrow> byte list" where
  "out_scientific7 x =
     (let e = if x = 0 then 0 else ilog10 x;
          m = nat (round_half_even (x / pow10 (e - 7)));
          (m, e) = (if m = 10 ^ 8 then (10 ^ 7, e + 1) else (m, e));
          ds = (if x = 0 then replicate 8 0x30 else to_string m)
      in hd ds # 0x2e # tl ds @ 0x65 # out_exponent e)"

definition out_float :: "float32 \<Rightarrow> byte list" where
  "out_float f = (case f of
       Finite s x \<Rightarrow> (if s then [0x2d] else []) @ out_scientific7 x
     | Infinite s \<Rightarrow> (if s then [0x2d] else []) @ octets ''inf''
     | Nan s \<Rightarrow> (if s then [0x2d] else []) @ octets ''nan'')"

text \<open>\<open>std::to_string\<close> of a \<open>double\<close>: six decimals.\<close>

definition to_string_double :: "rat \<Rightarrow> byte list" where
  "to_string_double x =
     (let n = nat (round_half_even (\<bar>x\<bar> * 1000000)); fraction = to_string (n mod 1000000)
      in (if x < 0 then [0x2d] else []) @ to_string (n div 1000000) @ 0x2e # replicate (6 - length fraction) 0x30 @ fraction)"

text \<open>The bits of a number of \<open>float\<close>, below \<open>2 ^ -126\<close> with the exponent 0.\<close>

definition float_bits :: "bool \<times> rat \<Rightarrow> u32" where
  "float_bits = (\<lambda>(s, x).
     let sign = (if s then 2 ^ 31 else 0 :: nat)
     in if x = 0 then word_of_nat sign
        else if x < pow2 (- 126) then word_of_nat (sign + nat \<lfloor>x / pow2 (- 149)\<rfloor>)
        else let e = ilog2 x; m = nat \<lfloor>x / pow2 (e - 23)\<rfloor>
             in word_of_nat (sign + nat (e + 127) * 2 ^ 23 + (m - 2 ^ 23)))"

definition bits_float :: "u32 \<Rightarrow> float32" where
  "bits_float w =
     (let n = unat w; s = (2 ^ 31 \<le> n); e = n div 2 ^ 23 mod 2 ^ 8; m = n mod 2 ^ 23
      in if e = 255 then (if m = 0 then Infinite s else Nan s)
         else if e = 0 then Finite s (of_nat m * pow2 (- 149))
         else Finite s (of_nat (2 ^ 23 + m) * pow2 (int e - 150)))"

text \<open>A normal \<open>float\<close> or zero is read back from its bits.\<close>

definition normal_float :: "rat \<Rightarrow> bool" where
  "normal_float x \<longleftrightarrow> x = 0 \<or> (0 < x \<and> float x = x \<and> - 126 \<le> ilog2 x \<and> ilog2 x \<le> 127)"

lemma float_significand:
  assumes "0 < x" and "float x = x"
  obtains k where "x = of_nat k * pow2 (ilog2 x - 23)" and "2 ^ 23 \<le> k" and "k < 2 ^ 24"
proof -
  let ?u = "pow2 (ilog2 x - 23)"
  obtain k where x: "x = of_int k * ?u"
  proof
    have "float x = of_int (round_half_even (x / ?u)) * ?u" using assms(1) by (simp add: float_def rnd_def Let_def)
    then show "x = of_int (round_half_even (x / ?u)) * ?u" using assms(2) by simp
  qed
  then have q: "x / ?u = of_int k" unfolding nonzero_divide_eq_eq [OF pow2_nonzero] .
  have u: "pow2 (ilog2 x) = 2 ^ 23 * ?u" "pow2 (ilog2 x + 1) = 2 ^ 24 * ?u"
    using pow2_nat [of 23] pow2_nat [of 1] by (simp_all add: pow2_diff pow2_add)
  have "(2 ^ 23 :: rat) \<le> x / ?u" "x / ?u < (2 ^ 24 :: rat)"
    using ilog2_bounds [OF assms(1)] unfolding u(1) [symmetric] u(2) [symmetric]
      pos_le_divide_eq [OF pow2_pos] pos_divide_less_eq [OF pow2_pos] .
  then have "2 ^ 23 \<le> k" "k < 2 ^ 24" unfolding q by simp_all
  then show thesis
    by (intro that [of "nat k"]) (use x in \<open>simp_all add: nat_less_iff le_nat_iff\<close>)
qed

lemma bits_float_bits:
  assumes "normal_float x" shows "bits_float (float_bits (s, x)) = Finite s x"
proof (cases "x = 0")
  case True
  then show ?thesis by (simp add: float_bits_def bits_float_def Let_def)
next
  case False
  then have x: "0 < x" "float x = x" and e: "- 126 \<le> ilog2 x" "ilog2 x \<le> 127"
    using assms by (simp_all add: normal_float_def)
  obtain k where k: "x = of_nat k * pow2 (ilog2 x - 23)" "2 ^ 23 \<le> k" "k < 2 ^ 24"
    using float_significand [OF x] .
  define E where "E = nat (ilog2 x + 127)"
  define S where "S = (if s then 1 else 0 :: nat)"
  have E: "0 < E" "E < 255" "int E = ilog2 x + 127" using e by (auto simp: E_def)
  define n where "n = S * 2 ^ 31 + E * 2 ^ 23 + (k - 2 ^ 23)"
  have q: "nat \<lfloor>x / pow2 (ilog2 x - 23)\<rfloor> = k" by (subst k(1)) simp
  have "\<not> x < pow2 (- 126)"
    using pow2_mono [OF e(1)] ilog2_bounds(1) [OF x(1)] by linarith
  then have b: "float_bits (s, x) = word_of_nat n"
    using False by (simp add: float_bits_def Let_def q n_def E_def S_def)
  have n: "n = (S * 256 + E) * 2 ^ 23 + (k - 2 ^ 23)" by (simp add: n_def algebra_simps)
  have r: "k - 2 ^ 23 < 2 ^ 23" using k by simp
  have d: "n div 2 ^ 23 = S * 256 + E" "n mod 2 ^ 23 = k - 2 ^ 23"
    unfolding n using r by (simp_all only: div_mult_self3 mod_mult_self3 div_less mod_less add_0_right)
  have "S * 256 + E < 512" using E by (simp add: S_def)
  then have "n < 2 ^ 32" using d r div_mult_mod_eq [of n "2 ^ 23"] by simp
  then have u: "unat (word_of_nat n :: u32) = n" by (simp add: unat_of_nat take_bit_nat_eq_self)
  have "2 ^ 31 \<le> n \<longleftrightarrow> s"
    using d(1) E r by (auto simp: n_def S_def)
  moreover have "n div 2 ^ 23 mod 2 ^ 8 = E" using E unfolding d(1) by simp
  moreover have "of_nat (2 ^ 23 + (k - 2 ^ 23)) * pow2 (int E - 150) = x"
    using k by (simp add: E(3) algebra_simps)
  ultimately show ?thesis
    using E d(2) by (simp only: b bits_float_def Let_def u) simp
qed

end
