(* ===== verification/Calibration.thy ===== *)
theory Calibration
  imports Eeprom Text_Io Messages Byte_Access
begin

text \<open>
  The calibration data: class \<open>ShowerDetectorCalib\<close> (\<open>daemon/src/utility/calibration.cpp\<close>), a list of named
  values as text, its image of 256 octets and the EEPROM that keeps the image; and the driver that owns it
  (\<open>daemon/src/drivers/eeprom24aa02_driver.cpp\<close>). The image is accessed by its address at the width of the
  item, as little-endian memory; an access past its end is None, and so is what \<open>Eeprom\<close> leaves undefined.
\<close>

definition CALIB_HEADER :: u16 where
  "CALIB_HEADER = 0x2019"

definition CALIBITEMS :: "(string \<times> string \<times> string) list" where
  "CALIBITEMS =
     [(''VERSION'', ''UINT8'', ''3''), (''FEATURE_FLAGS'', ''UINT8'', ''0''), (''CALIB_FLAGS'', ''UINT8'', ''0''),
      (''DATE'', ''UINT32'', ''0''), (''RSENSE'', ''UINT16'', ''100''), (''VDIV'', ''UINT16'', ''1100''),
      (''COEFF0'', ''FLOAT'', ''0.0''), (''COEFF1'', ''FLOAT'', ''1.0''), (''COEFF2'', ''FLOAT'', ''0.0''),
      (''COEFF3'', ''FLOAT'', ''1.0''), (''WRITE_CYCLES'', ''UINT32'', ''1'')]"

record 'd calibration =
  cb_list :: "CalibStruct list"
  cb_buffer :: "byte list"
  cb_eepromValid :: bool
  cb_valid :: bool
  cb_eeprom :: "'d eeprom24aa02"

definition InvalidCalibStruct :: CalibStruct where
  "InvalidCalibStruct = \<lparr>cal_name = [], cal_type = [], cal_address = 0, cal_value = []\<rparr>"

section \<open>The list\<close>

definition getTypeSize :: "byte list \<Rightarrow> u8" where
  "getTypeSize a_type =
     (let str = map toupper a_type
      in if str = octets ''UINT8'' then 1 else if str = octets ''UINT16'' then 2 else if str = octets ''UINT32'' then 4
         else if str = octets ''FLOAT'' then 4 else if str = octets ''INT8'' then 1 else if str = octets ''INT16'' then 2
         else if str = octets ''INT32'' then 4 else 0)"

fun build_items :: "u8 \<Rightarrow> (string \<times> string \<times> string) list \<Rightarrow> CalibStruct list" where
  "build_items addr [] = []"
| "build_items addr ((n, t, v) # items) =
     \<lparr>cal_name = octets n, cal_type = octets t, cal_address = ucast addr, cal_value = octets v\<rparr>
     # build_items (addr + getTypeSize (octets t)) items"

definition buildCalibList :: "CalibStruct list" where
  "buildCalibList = build_items 0x02 CALIBITEMS"

definition getCalibItem_at :: "nat \<Rightarrow> 'd calibration \<Rightarrow> CalibStruct" where
  "getCalibItem_at i s = (if i < length (cb_list s) then cb_list s ! i else InvalidCalibStruct)"

definition getCalibItem :: "byte list \<Rightarrow> 'd calibration \<Rightarrow> CalibStruct" where
  "getCalibItem name s =
     (case find (\<lambda>item. cal_name item = map toupper name) (cb_list s) of Some item \<Rightarrow> item | None \<Rightarrow> InvalidCalibStruct)"

fun replace_first :: "byte list \<Rightarrow> CalibStruct \<Rightarrow> CalibStruct list \<Rightarrow> CalibStruct list" where
  "replace_first str item [] = []"
| "replace_first str item (c # cs) = (if cal_name c = str then item # cs else c # replace_first str item cs)"

definition setCalibItem :: "byte list \<Rightarrow> CalibStruct \<Rightarrow> 'd calibration \<Rightarrow> 'd calibration" where
  "setCalibItem name item s = s\<lparr>cb_list := replace_first (map toupper name) item (cb_list s)\<rparr>"

text \<open>The template for a value: \<open>text\<close> is \<open>std::to_string\<close> of it, for \<open>float\<close> its scientific notation.\<close>

definition setCalibItem_text :: "byte list \<Rightarrow> byte list \<Rightarrow> 'd calibration \<Rightarrow> 'd calibration" where
  "setCalibItem_text name text s =
     (let item = getCalibItem name s
      in if cal_name item = name then setCalibItem name (item\<lparr>cal_value := text\<rparr>) s else s)"

definition setCalibItem_unsigned :: "byte list \<Rightarrow> u32 \<Rightarrow> 'd calibration \<Rightarrow> 'd calibration" where
  "setCalibItem_unsigned name v s = setCalibItem_text name (to_string (unat v)) s"

definition setCalibItem_int :: "byte list \<Rightarrow> i32 \<Rightarrow> 'd calibration \<Rightarrow> 'd calibration" where
  "setCalibItem_int name v s = setCalibItem_text name (to_string_int (sint v)) s"

definition setCalibItem_float :: "byte list \<Rightarrow> float32 \<Rightarrow> 'd calibration \<Rightarrow> 'd calibration" where
  "setCalibItem_float name v s = setCalibItem_text name (out_float v) s"

section \<open>The image\<close>

text \<open>The variable each text is read into has no value before; to use it then is undefined, None.\<close>

definition write_item :: "byte list \<Rightarrow> CalibStruct \<Rightarrow> byte list option" where
  "write_item buf it =
     (let a = unat (cal_address it); str = cal_type it; v = cal_value it
      in if str = octets ''UINT8'' then do { val \<leftarrow> in_unsigned v; put a (ucast val :: u8) buf }
         else if str = octets ''UINT16'' then do { val \<leftarrow> in_unsigned v; put a (ucast val :: u16) buf }
         else if str = octets ''UINT32'' then do { val \<leftarrow> in_unsigned v; put a val buf }
         else if str = octets ''FLOAT'' then do { val \<leftarrow> in_float v; put a (float_bits val) buf }
         else if str = octets ''INT8'' then do { val \<leftarrow> in_int v; put a (ucast val :: i8) buf }
         else if str = octets ''INT16'' then do { val \<leftarrow> in_int v; put a (ucast val :: i16) buf }
         else if str = octets ''INT32'' then do { val \<leftarrow> in_int v; put a val buf }
         else Some buf)"

fun write_items :: "byte list \<Rightarrow> CalibStruct list \<Rightarrow> byte list option" where
  "write_items buf [] = Some buf"
| "write_items buf (it # items) = do { buf \<leftarrow> write_item buf it; write_items buf items }"

definition updateBuffer :: "'d calibration \<Rightarrow> 'd calibration option" where
  "updateBuffer s = do {
     buf \<leftarrow> put 0 CALIB_HEADER (cb_buffer s);
     buf \<leftarrow> write_items buf (cb_list s);
     Some (s\<lparr>cb_buffer := buf\<rparr>)
   }"

definition read_item :: "byte list \<Rightarrow> CalibStruct \<Rightarrow> CalibStruct option" where
  "read_item buf it =
     (let a = unat (cal_address it); str = cal_type it; set_text = (\<lambda>t. it\<lparr>cal_value := t\<rparr>)
      in if str = octets ''UINT8'' then map_option (\<lambda>w :: u8. set_text (to_string (unat w))) (get buf a)
         else if str = octets ''UINT16'' then map_option (\<lambda>w :: u16. set_text (to_string (unat w))) (get buf a)
         else if str = octets ''UINT32'' then map_option (\<lambda>w :: u32. set_text (to_string (unat w))) (get buf a)
         else if str = octets ''FLOAT'' then map_option (\<lambda>w. set_text (out_float (bits_float w))) (get buf a)
         else if str = octets ''INT8'' then map_option (\<lambda>w :: i8. set_text (to_string_int (sint w))) (get buf a)
         else if str = octets ''INT16'' then map_option (\<lambda>w :: i16. set_text (to_string_int (sint w))) (get buf a)
         else if str = octets ''INT32'' then map_option (\<lambda>w :: i32. set_text (to_string_int (sint w))) (get buf a)
         else Some it)"

fun read_items :: "byte list \<Rightarrow> CalibStruct list \<Rightarrow> CalibStruct list option" where
  "read_items buf [] = Some []"
| "read_items buf (it # items) = do { it \<leftarrow> read_item buf it; items \<leftarrow> read_items buf items; Some (it # items) }"

text \<open>The last six octets, the unique number of the chip.\<close>

definition getSerialID :: "'d calibration \<Rightarrow> u64" where
  "getSerialID s = (let b = (\<lambda>i. ucast (cb_buffer s ! i) :: u64) in
     b 255 OR push_bit 8 (b 254) OR push_bit 16 (b 253) OR push_bit 24 (b 252) OR push_bit 32 (b 251)
     OR push_bit 40 (b 250))"

section \<open>The EEPROM\<close>

definition readFromEeprom :: "'d i2c_bus \<Rightarrow> 'd calibration \<Rightarrow> (bool \<times> 'd calibration) option" where
  "readFromEeprom bus s = do {
     (n, data, e) \<leftarrow> eep_readBytes bus 0 256 (cb_eeprom s);
     let s = s\<lparr>cb_eeprom := e, cb_buffer := replicate 256 0\<rparr>;
     if n \<noteq> 256 then Some (False, s\<lparr>cb_eepromValid := False\<rparr>)
     else do {
       let s = s\<lparr>cb_buffer := data\<rparr>;
       header \<leftarrow> get data 0;
       if header \<noteq> CALIB_HEADER then Some (True, s\<lparr>cb_valid := False\<rparr>)
       else do {
         items \<leftarrow> read_items data (cb_list s);
         Some (True, s\<lparr>cb_valid := True, cb_list := items\<rparr>)
       }
     }
   }"

definition count_write :: "'d calibration \<Rightarrow> 'd calibration option" where
  "count_write s = do {
     cycleCounter \<leftarrow> in_unsigned (cal_value (getCalibItem (octets ''WRITE_CYCLES'') s));
     Some (setCalibItem_unsigned (octets ''WRITE_CYCLES'') (cycleCounter + 1) s)
   }"

definition writeToEeprom :: "'d i2c_bus \<Rightarrow> 'd calibration \<Rightarrow> (bool \<times> 'd calibration) option" where
  "writeToEeprom bus s =
     (if \<not> cb_eepromValid s then Some (False, s)
      else do {
        s \<leftarrow> count_write s;
        s \<leftarrow> updateBuffer s;
        r \<leftarrow> eep_writeBytes bus 0 256 (cb_buffer s) (cb_eeprom s);
        case r of Inl _ \<Rightarrow> None | Inr (success, e) \<Rightarrow> Some (success, s\<lparr>cb_eeprom := e\<rparr>)
      })"

definition calib_init :: "'d i2c_bus \<Rightarrow> 'd eeprom24aa02 \<Rightarrow> 'd calibration option" where
  "calib_init bus eep =
     (let (present, eep) = devicePresent bus eep;
          s = \<lparr>cb_list = buildCalibList, cb_buffer = replicate 256 0, cb_eepromValid = False, cb_valid = False, cb_eeprom = eep\<rparr>
      in if present then do {
           (ok, s) \<leftarrow> readFromEeprom bus s;
           Some (s\<lparr>cb_eepromValid := ok\<rparr>)
         }
         else Some s)"

section \<open>The driver\<close>

text \<open>
  The constructor, for a device in the registry: the calibration, if the chip is present, and the hardware
  version it sets. \<open>update\<close> publishes the event.
\<close>

definition eeprom_driver :: "'d i2c_bus \<Rightarrow> 'd eeprom24aa02 \<Rightarrow> ('d calibration \<times> u32) option option" where
  "eeprom_driver bus eep =
     (let (present, eep) = devicePresent bus eep
      in if \<not> present then Some None
         else do {
           calib \<leftarrow> calib_init bus eep;
           (_, calib) \<leftarrow> readFromEeprom bus calib;
           Some (Some (calib, case in_unsigned (cal_value (getCalibItem (octets ''VERSION'') calib)) of None \<Rightarrow> 0 | Some version \<Rightarrow> version))
         })"

definition eeprom_driver_update :: "'d calibration option \<Rightarrow> CalibEvent list" where
  "eeprom_driver_update calib = (case calib of None \<Rightarrow> []
     | Some c \<Rightarrow> [\<lparr>cev_valid = cb_valid c, cev_eepromValid = cb_eepromValid c, cev_id = getSerialID c,
         cev_calibList = cb_list c\<rparr>])"

section \<open>Storing and reading back\<close>

text \<open>What an item is after a write and a read: its value as the image keeps it, in the notation of the reader.\<close>

definition stored_text :: "byte list \<Rightarrow> byte list \<Rightarrow> byte list" where
  "stored_text str v =
     (if str = octets ''UINT8'' then to_string (unat (unsigned_of v) mod 2 ^ 8)
      else if str = octets ''UINT16'' then to_string (unat (unsigned_of v) mod 2 ^ 16)
      else if str = octets ''UINT32'' then to_string (unat (unsigned_of v))
      else if str = octets ''FLOAT'' then out_float (bits_float (float_bits (float_of v)))
      else if str = octets ''INT8'' then to_string_int (sint (ucast (int_of v) :: i8))
      else if str = octets ''INT16'' then to_string_int (sint (ucast (int_of v) :: i16))
      else if str = octets ''INT32'' then to_string_int (sint (int_of v))
      else v)"

definition stored :: "CalibStruct \<Rightarrow> CalibStruct" where
  "stored it = it\<lparr>cal_value := stored_text (cal_type it) (cal_value it)\<rparr>"

definition item_size :: "CalibStruct \<Rightarrow> nat" where
  "item_size it = unat (getTypeSize (cal_type it))"

definition known_type :: "CalibStruct \<Rightarrow> bool" where
  "known_type it \<longleftrightarrow> cal_type it \<in> octets ` {''UINT8'', ''UINT16'', ''UINT32'', ''FLOAT'', ''INT8'', ''INT16'', ''INT32''}"

lemma getTypeSize_known [simp]:
  "getTypeSize (octets ''UINT8'') = 1" "getTypeSize (octets ''UINT16'') = 2" "getTypeSize (octets ''UINT32'') = 4"
  "getTypeSize (octets ''FLOAT'') = 4" "getTypeSize (octets ''INT8'') = 1" "getTypeSize (octets ''INT16'') = 2"
  "getTypeSize (octets ''INT32'') = 4"
  by code_simp+

lemma put_Some:
  fixes w :: "'a::len word"
  assumes "LENGTH('a) = 8 * n" and "pos + n \<le> length buf"
  obtains buf' where "put pos w buf = Some buf'" and "length buf' = length buf" and "take pos buf' = take pos buf"
    and "drop (pos + n) buf' = drop (pos + n) buf" and "get buf' pos = Some w"
proof -
  let ?b = "take pos buf @ put_loop w 0 n @ drop (pos + n) buf"
  have p: "put pos w buf = Some ?b" using assms by (simp add: put_def)
  show thesis
    by (rule that [OF p _ _ _ get_put_same [OF assms(1) p]]) (use assms(2) in simp_all)
qed

lemma get_window:
  assumes "length b = length b'" and "take n (drop pos b) = take n (drop pos b')" and "LENGTH('a::len) = 8 * n"
  shows "(get b pos :: 'a word option) = get b' pos"
  using assms by (simp add: get_def get_with_def Let_def)

lemma write_item_as:
  fixes w :: "'a::len word"
  assumes "unat (cal_address it) + item_size it \<le> length buf" and "LENGTH('a) = 8 * item_size it"
    and "\<And>b. write_item b it = put (unat (cal_address it)) w b"
    and "\<And>b. read_item b it = map_option f (get b (unat (cal_address it)) :: 'a word option)" and "stored it = f w"
  shows "\<exists>buf'. write_item buf it = Some buf' \<and> length buf' = length buf
    \<and> take (unat (cal_address it)) buf' = take (unat (cal_address it)) buf
    \<and> drop (unat (cal_address it) + item_size it) buf' = drop (unat (cal_address it) + item_size it) buf
    \<and> read_item buf' it = Some (stored it)"
  using put_Some [OF assms(2,1), of w] by (metis assms(3-5) option.map(2))

lemma write_item_known:
  assumes "known_type it" and "unat (cal_address it) + item_size it \<le> length buf" and "has_text (cal_value it)"
  shows "\<exists>buf'. write_item buf it = Some buf' \<and> length buf' = length buf
    \<and> take (unat (cal_address it)) buf' = take (unat (cal_address it)) buf
    \<and> drop (unat (cal_address it) + item_size it) buf' = drop (unat (cal_address it) + item_size it) buf
    \<and> read_item buf' it = Some (stored it)"
proof -
  note defs = item_size_def write_item_def read_item_def Let_def stored_def stored_text_def unsigned_ucast_eq
    take_bit_eq_mod in_unsigned_def in_int_def in_float_def assms(3)
  from assms(1) consider "cal_type it = octets ''UINT8''" | "cal_type it = octets ''UINT16''"
    | "cal_type it = octets ''UINT32''" | "cal_type it = octets ''FLOAT''" | "cal_type it = octets ''INT8''"
    | "cal_type it = octets ''INT16''" | "cal_type it = octets ''INT32''" by (auto simp: known_type_def)
  then show ?thesis
  proof cases
    case 1
    show ?thesis by (rule write_item_as [OF assms(2), where w = "ucast (unsigned_of (cal_value it)) :: u8"
          and f = "\<lambda>w. it\<lparr>cal_value := to_string (unat w)\<rparr>"]) (simp_all add: 1 defs)
  next
    case 2
    show ?thesis by (rule write_item_as [OF assms(2), where w = "ucast (unsigned_of (cal_value it)) :: u16"
          and f = "\<lambda>w. it\<lparr>cal_value := to_string (unat w)\<rparr>"]) (simp_all add: 2 defs)
  next
    case 3
    show ?thesis by (rule write_item_as [OF assms(2), where w = "unsigned_of (cal_value it)"
          and f = "\<lambda>w. it\<lparr>cal_value := to_string (unat w)\<rparr>"]) (simp_all add: 3 defs)
  next
    case 4
    show ?thesis by (rule write_item_as [OF assms(2), where w = "float_bits (float_of (cal_value it))"
          and f = "\<lambda>w. it\<lparr>cal_value := out_float (bits_float w)\<rparr>"]) (simp_all add: 4 defs)
  next
    case 5
    show ?thesis by (rule write_item_as [OF assms(2), where w = "ucast (int_of (cal_value it)) :: i8"
          and f = "\<lambda>w. it\<lparr>cal_value := to_string_int (sint w)\<rparr>"]) (simp_all add: 5 defs)
  next
    case 6
    show ?thesis by (rule write_item_as [OF assms(2), where w = "ucast (int_of (cal_value it)) :: i16"
          and f = "\<lambda>w. it\<lparr>cal_value := to_string_int (sint w)\<rparr>"]) (simp_all add: 6 defs)
  next
    case 7
    show ?thesis by (rule write_item_as [OF assms(2), where w = "int_of (cal_value it)"
          and f = "\<lambda>w. it\<lparr>cal_value := to_string_int (sint w)\<rparr>"]) (simp_all add: 7 defs)
  qed
qed

lemma read_item_window:
  assumes "known_type it" and "length b = length b'"
    and "take (item_size it) (drop (unat (cal_address it)) b) = take (item_size it) (drop (unat (cal_address it)) b')"
  shows "read_item b it = read_item b' it"
proof -
  let ?a = "unat (cal_address it)"
  have w: "item_size it = 1 \<Longrightarrow> (get b ?a :: u8 option) = get b' ?a"
    "item_size it = 2 \<Longrightarrow> (get b ?a :: u16 option) = get b' ?a"
    "item_size it = 4 \<Longrightarrow> (get b ?a :: u32 option) = get b' ?a"
    by (rule get_window [OF assms(2,3)], simp)+
  show ?thesis
    using assms(1) w by (auto simp: known_type_def read_item_def item_size_def Let_def)
qed

text \<open>The octets from \<open>a\<close> on hold the items one after the other.\<close>

fun laid_out :: "nat \<Rightarrow> CalibStruct list \<Rightarrow> bool" where
  "laid_out a [] = True"
| "laid_out a (it # items) =
     (a \<le> unat (cal_address it) \<and> known_type it \<and> unat (cal_address it) + item_size it \<le> 256
      \<and> laid_out (unat (cal_address it) + item_size it) items)"

fun end_of :: "nat \<Rightarrow> CalibStruct list \<Rightarrow> nat" where
  "end_of a [] = a"
| "end_of a (it # items) = end_of (unat (cal_address it) + item_size it) items"

lemma end_of_ge: "laid_out a items \<Longrightarrow> a \<le> end_of a items"
  by (induction a items rule: laid_out.induct) fastforce+

lemma take_eq_mono: "take m b = take m c \<Longrightarrow> n \<le> m \<Longrightarrow> take n b = take n c"
  by (metis min.absorb1 take_take)

lemma drop_eq_mono: "drop m b = drop m c \<Longrightarrow> m \<le> n \<Longrightarrow> drop n b = drop n c"
  by (metis drop_drop le_add_diff_inverse2)

lemma write_items_read:
  "laid_out a items \<Longrightarrow> length buf = 256 \<Longrightarrow> list_all (\<lambda>it. has_text (cal_value it)) items \<Longrightarrow>
     \<exists>buf'. write_items buf items = Some buf' \<and> length buf' = 256 \<and> take a buf' = take a buf
       \<and> drop (end_of a items) buf' = drop (end_of a items) buf \<and> read_items buf' items = Some (map stored items)"
proof (induction a items arbitrary: buf rule: laid_out.induct)
  case (2 a it items)
  let ?e = "unat (cal_address it) + item_size it"
  have l: "a \<le> unat (cal_address it)" "known_type it" "?e \<le> length buf" "laid_out ?e items"
    "has_text (cal_value it)" using "2.prems" by simp_all
  obtain b where b: "write_item buf it = Some b" "length b = 256"
    "take (unat (cal_address it)) b = take (unat (cal_address it)) buf" "drop ?e b = drop ?e buf"
    "read_item b it = Some (stored it)" using write_item_known [OF l(2,3,5)] "2.prems"(2) by auto
  obtain b' where b': "write_items b items = Some b'" "length b' = 256" "take ?e b' = take ?e b"
    "drop (end_of ?e items) b' = drop (end_of ?e items) b" "read_items b' items = Some (map stored items)"
    using "2.IH" [OF l(4) b(2)] "2.prems"(3) by auto
  have "read_item b' it = read_item b it"
    by (rule read_item_window [OF l(2)]) (use b b' in \<open>simp_all add: take_drop add.commute\<close>)
  moreover have "take a b' = take a buf"
    using take_eq_mono [OF b'(3), of a] take_eq_mono [OF b(3) l(1)] l(1) by simp
  moreover have "drop (end_of ?e items) b' = drop (end_of ?e items) buf"
    using b'(4) drop_eq_mono [OF b(4) end_of_ge [OF l(4)]] by simp
  ultimately show ?case using b b' by (intro exI [of _ b']) simp
qed simp

text \<open>The image depends on the values, where it lies and how it is read does not.\<close>

definition item_key :: "CalibStruct \<Rightarrow> byte list \<times> byte list \<times> u16" where
  "item_key c = (cal_name c, cal_type c, cal_address c)"

lemma laid_out_key: "map item_key l = map item_key l' \<Longrightarrow> laid_out a l = laid_out a l' \<and> end_of a l = end_of a l'"
proof (induction l arbitrary: l' a)
  case (Cons c l)
  then obtain c' k where "l' = c' # k" "item_key c = item_key c'" "map item_key l = map item_key k"
    by (cases l') auto
  moreover have "laid_out e l = laid_out e k \<and> end_of e l = end_of e k" for e
    by (rule Cons.IH) (use calculation in simp)
  ultimately show ?case by (simp add: item_key_def known_type_def item_size_def)
qed simp

lemma read_item_key:
  assumes "item_key c = item_key c'" and "known_type c" shows "read_item b c = read_item b c'"
proof -
  obtain v where "c' = c\<lparr>cal_value := v\<rparr>"
    by (rule that [of "cal_value c'"]) (use assms(1) in \<open>cases c; cases c'; simp add: item_key_def\<close>)
  then show ?thesis using assms(2) by (auto simp: known_type_def read_item_def Let_def)
qed

lemma read_items_key:
  "map item_key l = map item_key l' \<Longrightarrow> laid_out a l \<Longrightarrow> read_items b l = read_items b l'"
proof (induction l arbitrary: l' a)
  case (Cons c l)
  then obtain c' k where "l' = c' # k" "item_key c = item_key c'" "map item_key l = map item_key k"
    by (cases l') auto
  then show ?case using Cons.IH [of k] Cons.prems(2) read_item_key [of c c' b] by auto
qed simp

lemma find_key:
  "map item_key l = map item_key l' \<Longrightarrow>
     map_option item_key (find (\<lambda>c. cal_name c = n) l) = map_option item_key (find (\<lambda>c. cal_name c = n) l')"
proof (induction l arbitrary: l')
  case (Cons c l)
  then obtain c' k where l': "l' = c' # k" "item_key c = item_key c'" and k: "map item_key l = map item_key k"
    by (cases l') auto
  show ?case using Cons.IH [OF k] l' by (simp add: item_key_def)
qed simp

lemma replace_first_key:
  "find (\<lambda>c. cal_name c = n) l = Some c \<Longrightarrow> item_key c' = item_key c \<Longrightarrow>
     map item_key (replace_first n c' l) = map item_key l
     \<and> find (\<lambda>c. cal_name c = n) (replace_first n c' l) = Some c'"
  by (induction l) (auto simp: item_key_def split: if_splits)

text \<open>The item of a name that occurs once.\<close>

lemma replace_first_map:
  "distinct (map cal_name l) \<Longrightarrow> find (\<lambda>c. cal_name c = n) l = Some c \<Longrightarrow> cal_name c' = n \<Longrightarrow>
     replace_first n c' l = map (\<lambda>it. if cal_name it = n then c' else it) l"
proof (induction l)
  case (Cons d l)
  show ?case
  proof (cases "cal_name d = n")
    case True
    then have "\<forall>x\<in>set l. cal_name x \<noteq> n" using Cons.prems(1) unfolding True [symmetric] by (auto simp: image_iff)
    then show ?thesis using True by (auto simp: map_idI)
  next
    case False
    then show ?thesis using Cons by simp
  qed
qed simp

lemma find_unique: "distinct (map cal_name l) \<Longrightarrow> c \<in> set l \<Longrightarrow> find (\<lambda>d. cal_name d = cal_name c) l = Some c"
  by (induction l) (auto simp: image_iff)

text \<open>What counting the write makes of an item.\<close>

definition counted :: "CalibStruct \<Rightarrow> CalibStruct" where
  "counted it =
     (if cal_name it = octets ''WRITE_CYCLES'' then it\<lparr>cal_value := to_string (unat (unsigned_of (cal_value it) + 1))\<rparr> else it)"

lemma toupper_write_cycles [simp]: "map toupper (octets ''WRITE_CYCLES'') = octets ''WRITE_CYCLES''"
  by (simp add: octets_def toupper_def)

lemma write_cycles_unique: "distinct (map cal_name buildCalibList)" "octets ''WRITE_CYCLES'' \<in> set (map cal_name buildCalibList)"
  by code_simp+

lemma cal_name_key: "map item_key l = map item_key l' \<Longrightarrow> map cal_name l = map cal_name l'"
proof -
  have "map cal_name l = map fst (map item_key l)" for l by (simp add: item_key_def)
  then show "map item_key l = map item_key l' \<Longrightarrow> map cal_name l = map cal_name l'" by metis
qed

lemma write_cycles_item:
  assumes "map item_key (cb_list s) = map item_key buildCalibList"
  obtains c where "c \<in> set (cb_list s)" and "cal_name c = octets ''WRITE_CYCLES''" and "distinct (map cal_name (cb_list s))"
    and "getCalibItem (octets ''WRITE_CYCLES'') s = c"
proof -
  have n: "map cal_name (cb_list s) = map cal_name buildCalibList" by (rule cal_name_key [OF assms])
  then have d: "distinct (map cal_name (cb_list s))" "octets ''WRITE_CYCLES'' \<in> set (map cal_name (cb_list s))"
    using write_cycles_unique by simp_all
  then obtain c where c: "c \<in> set (cb_list s)" "cal_name c = octets ''WRITE_CYCLES''" by auto
  moreover have "getCalibItem (octets ''WRITE_CYCLES'') s = c"
    using find_unique [OF d(1) c(1)] by (simp add: getCalibItem_def c(2))
  ultimately show thesis using that d(1) by blast
qed

lemma count_write_items:
  assumes "map item_key (cb_list s) = map item_key buildCalibList"
    and "has_text (cal_value (getCalibItem (octets ''WRITE_CYCLES'') s))"
  shows "count_write s = Some (s\<lparr>cb_list := map counted (cb_list s)\<rparr>)"
proof -
  obtain c where c: "c \<in> set (cb_list s)" "cal_name c = octets ''WRITE_CYCLES''" "distinct (map cal_name (cb_list s))"
    "getCalibItem (octets ''WRITE_CYCLES'') s = c" by (rule write_cycles_item [OF assms(1)])
  let ?c = "c\<lparr>cal_value := to_string (unat (unsigned_of (cal_value c) + 1))\<rparr>"
  have f: "find (\<lambda>d. cal_name d = octets ''WRITE_CYCLES'') (cb_list s) = Some c"
    using find_unique [OF c(3,1)] by (simp add: c(2))
  have "replace_first (octets ''WRITE_CYCLES'') ?c (cb_list s) = map counted (cb_list s)"
    unfolding replace_first_map [OF c(3) f, of ?c, simplified, OF c(2)]
  proof (rule map_cong [OF refl])
    fix d assume "d \<in> set (cb_list s)"
    then have "cal_name d = octets ''WRITE_CYCLES'' \<Longrightarrow> d = c" using find_unique [OF c(3), of d] f by simp
    then show "(if cal_name d = octets ''WRITE_CYCLES'' then ?c else d) = counted d" by (auto simp: counted_def)
  qed
  moreover have "has_text (cal_value c)" using assms(2) c(4) by simp
  ultimately show ?thesis
    by (simp add: count_write_def in_unsigned_def setCalibItem_unsigned_def setCalibItem_text_def setCalibItem_def c)
qed

lemma counted_key: "map item_key (map counted l) = map item_key l"
  by (simp add: counted_def item_key_def)

lemma counted_has_text: "list_all (\<lambda>it. has_text (cal_value it)) l \<Longrightarrow> list_all (\<lambda>it. has_text (cal_value it)) (map counted l)"
  by (auto simp: list_all_iff counted_def)

text \<open>A text of white space: the write is undefined.\<close>

lemma write_items_blank:
  "it \<in> set items \<Longrightarrow> known_type it \<Longrightarrow> \<not> has_text (cal_value it) \<Longrightarrow> write_items buf items = None"
proof (induction items arbitrary: buf)
  case (Cons c items)
  have "write_item buf it = None" for buf
    using Cons.prems(2,3) by (auto simp: known_type_def write_item_def in_unsigned_def in_int_def in_float_def)
  then show ?case using Cons by (cases "it = c") (auto simp: bind_eq_None_conv)
qed simp

lemma laid_out_list: "laid_out 2 buildCalibList" and end_of_list: "end_of 2 buildCalibList = 33"
  by code_simp+

lemma laid_out_known: "laid_out a items \<Longrightarrow> list_all known_type items"
  by (induction a items rule: laid_out.induct) simp_all

lemma known_in_list: "map item_key l = map item_key buildCalibList \<Longrightarrow> list_all known_type l"
  using laid_out_key [of l buildCalibList 2] laid_out_list laid_out_known by blast

lemma write_blank:
  assumes "cb_eepromValid s" and "map item_key (cb_list s) = map item_key buildCalibList"
    and "\<not> list_all (\<lambda>it. has_text (cal_value it)) (cb_list s)"
  shows "writeToEeprom bus s = None"
proof (cases "has_text (cal_value (getCalibItem (octets ''WRITE_CYCLES'') s))")
  case False
  then show ?thesis using assms(1) by (simp add: writeToEeprom_def count_write_def in_unsigned_def)
next
  case True
  obtain c where c: "c \<in> set (cb_list s)" "cal_name c = octets ''WRITE_CYCLES''" "distinct (map cal_name (cb_list s))"
    "getCalibItem (octets ''WRITE_CYCLES'') s = c" by (rule write_cycles_item [OF assms(2)])
  obtain it where it: "it \<in> set (cb_list s)" "\<not> has_text (cal_value it)" using assms(3) by (auto simp: list_all_iff)
  have "it \<noteq> c" using True c(4) it(2) by auto
  then have "cal_name it \<noteq> octets ''WRITE_CYCLES''"
    using find_unique [OF c(3), of it] find_unique [OF c(3,1)] it(1) c(2) by auto
  then have "it \<in> set (map counted (cb_list s))" using it(1) by (force simp: counted_def)
  moreover have "known_type it" using known_in_list [OF assms(2)] it(1) by (simp add: list_all_iff)
  ultimately have "write_items b (map counted (cb_list s)) = None" for b using write_items_blank it(2) by blast
  then have "updateBuffer (s\<lparr>cb_list := map counted (cb_list s)\<rparr>) = None" by (simp add: updateBuffer_def bind_eq_None_conv)
  then show ?thesis using assms(1) count_write_items [OF assms(2) True] by (simp add: writeToEeprom_def)
qed

lemma header_stored:
  assumes "put 0 CALIB_HEADER buf = Some b" shows "length b = length buf" "drop 2 b = drop 2 buf" "get b 0 = Some CALIB_HEADER"
proof -
  have "get b 0 = Some CALIB_HEADER \<and> length b = length buf \<and> drop 2 b = drop 2 buf"
    using assms get_put_same [OF _ assms, of 2] by (auto simp: put_def numeral_2_eq_2 split: if_splits)
  then show "length b = length buf" "drop 2 b = drop 2 buf" "get b 0 = Some CALIB_HEADER" by simp_all
qed

lemma updateBuffer_image:
  assumes "length (cb_buffer s) = 256" and "map item_key (cb_list s) = map item_key buildCalibList"
    and "list_all (\<lambda>it. has_text (cal_value it)) (cb_list s)"
  shows "\<exists>b. updateBuffer s = Some (s\<lparr>cb_buffer := b\<rparr>) \<and> length b = 256 \<and> drop 33 b = drop 33 (cb_buffer s)
    \<and> get b 0 = Some CALIB_HEADER \<and> read_items b buildCalibList = Some (map stored (cb_list s))"
proof -
  have l: "laid_out 2 (cb_list s)" "end_of 2 (cb_list s) = 33"
    using laid_out_key [OF assms(2), of 2] laid_out_list end_of_list by simp_all
  obtain h where h: "put 0 CALIB_HEADER (cb_buffer s) = Some h"
    using assms(1) by (simp add: put_def)
  note h' = header_stored [OF h]
  have len: "length h = 256" using h'(1) assms(1) by simp
  obtain b where b: "write_items h (cb_list s) = Some b" "length b = 256" "take 2 b = take 2 h" "drop 33 b = drop 33 h"
    "read_items b (cb_list s) = Some (map stored (cb_list s))"
    using write_items_read [OF l(1) len assms(3)] l(2) by auto
  have "get b 0 = (get h 0 :: u16 option)" by (rule get_window [where n = 2]) (use b len in simp_all)
  moreover have "drop 33 b = drop 33 (cb_buffer s)" using b(4) drop_eq_mono [OF h'(2), of 33] by simp
  moreover have "read_items b buildCalibList = read_items b (cb_list s)"
    by (rule read_items_key [OF assms(2) [symmetric] laid_out_list])
  ultimately show ?thesis using b h h' by (intro exI [of _ b]) (simp add: updateBuffer_def)
qed

lemma getSerialID_tail:
  assumes "drop 33 (cb_buffer t) = drop 33 (cb_buffer s)" and "length (cb_buffer t) = 256" and "length (cb_buffer s) = 256"
  shows "getSerialID t = getSerialID s"
proof -
  have "cb_buffer t ! i = cb_buffer s ! i" if "33 \<le> i" "i < 256" for i
    using arg_cong [OF assms(1), of "\<lambda>l. l ! (i - 33)"] that assms(2,3) by simp
  then show ?thesis by (simp add: getSerialID_def)
qed

lemma chip_present:
  assumes "eeprom_chip bus address memory" and "ready e" and "iv_address e = address"
  obtains e' where "devicePresent bus e = (True, e')" and "ready e'" and "iv_address e' = address"
    and "memory (iv_bus e') = memory (iv_bus e)"
proof -
  obtain n buf d where r: "sys_read bus (iv_address e) 1 (iv_bus e) = (n, buf, d)" by (metis prod_cases3)
  have "\<forall>d. fst (sys_read bus address 1 d) = 1 \<and> memory (snd (snd (sys_read bus address 1 d))) = memory d"
    using assms(1) unfolding eeprom_chip_def by blast
  then have n: "n = 1" "memory d = memory (iv_bus e)" using r assms(3) by (metis fst_conv, metis snd_conv)
  obtain e' where e': "i2c_read bus 1 e = (n, buf, e')"
    using assms(2) r that by (simp add: i2c_read_def ready_def Let_def n)
  note k = ready_read [OF assms(2) e']
  show thesis
    by (rule that [of e']) (use k e' n r assms(3) in \<open>simp_all add: devicePresent_def\<close>)
qed

lemma stored_cb_list_key: "map item_key (map stored l) = map item_key l"
  by (simp add: stored_def item_key_def)

lemma write_cycles_text:
  assumes "map item_key (cb_list s) = map item_key buildCalibList" and "list_all (\<lambda>it. has_text (cal_value it)) (cb_list s)"
  shows "has_text (cal_value (getCalibItem (octets ''WRITE_CYCLES'') s))"
proof -
  obtain c where "c \<in> set (cb_list s)" "getCalibItem (octets ''WRITE_CYCLES'') s = c" by (rule write_cycles_item [OF assms(1)])
  then show ?thesis using assms(2) by (simp add: list_all_iff)
qed

lemma stored_counted:
  assumes "map item_key l = map item_key buildCalibList"
  shows "map stored (map counted l) = map (\<lambda>it. if cal_name it = octets ''WRITE_CYCLES''
    then it\<lparr>cal_value := to_string (unat (unsigned_of (cal_value it) + 1))\<rparr> else stored it) l"
proof -
  have "list_all (\<lambda>k. fst k = octets ''WRITE_CYCLES'' \<longrightarrow> fst (snd k) = octets ''UINT32'') (map item_key buildCalibList)"
    by code_simp
  then have "list_all (\<lambda>k. fst k = octets ''WRITE_CYCLES'' \<longrightarrow> fst (snd k) = octets ''UINT32'') (map item_key l)"
    by (simp only: assms)
  then have "\<forall>it\<in>set l. cal_name it = octets ''WRITE_CYCLES'' \<longrightarrow> cal_type it = octets ''UINT32''"
    by (auto simp: list_all_iff item_key_def)
  moreover have "unat (unsigned_of (to_string (unat w))) = unat w" for w :: u32
    using unsigned_of_to_string [of "unat w"] unsigned_less [of w, where ?'a = nat] by simp
  ultimately show ?thesis by (auto simp: counted_def stored_def stored_text_def)
qed

lemma image_written:
  assumes "eeprom_chip bus address memory" and "length b = 256" and "ready e" and "iv_address e = address"
  obtains t where "eep_writeBytes bus 0 256 b e = Some (Inr (True, t))" and "ready t" and "iv_address t = address"
    and "memory (iv_bus t) = b"
proof -
  have mem: "length (memory d) = 256" for d using assms(1) unfolding eeprom_chip_def by blast
  show thesis
    using eep_loop_image [OF assms(1,2) _ mem assms(3,4), of 0 "iv_bus e"] that mem by (auto simp: eep_writeBytes_def)
qed

lemma image_read_back:
  assumes "eeprom_chip bus address memory" and "ready e" and "iv_address e = address" and "memory (iv_bus e) = b"
    and "length b = 256" and "get b 0 = Some CALIB_HEADER" and "read_items b buildCalibList = Some items"
  obtains u where "calib_init bus e = Some u" and "cb_valid u" and "cb_eepromValid u" and "cb_list u = items"
proof -
  obtain e1 where e1: "devicePresent bus e = (True, e1)" "ready e1" "iv_address e1 = address"
    "memory (iv_bus e1) = memory (iv_bus e)" by (rule chip_present [OF assms(1-3)])
  obtain e2 where "eep_readBytes bus 0 256 e1 = Some (256, b, e2)"
    by (rule eeprom_chip_read [OF assms(1) _ e1(2,3), of 0 256]) (use assms(4,5) e1(4) in simp_all)
  then show thesis using e1(1) assms(6,7) that by (simp add: calib_init_def readFromEeprom_def)
qed

text \<open>
  C13: Storing the calibration. For an object with the list it was constructed with, whatever texts its items hold:
  if none of them is empty or blank, \<open>writeToEeprom\<close> raises the number of write cycles by one and stores the whole image,
  and a new object constructed on the chip afterwards is valid and has exactly these items, each value as the
  image keeps it in the width of its type; the octets behind the items, the chip's serial number among them,
  stay as they were. If one of them is, the write is undefined, since a variable without a value is stored.
\<close>

theorem calibration_roundtrip:
  assumes "eeprom_chip bus address memory" and "ready (cb_eeprom s)" and "iv_address (cb_eeprom s) = address"
    and "cb_eepromValid s" and "length (cb_buffer s) = 256" and "map item_key (cb_list s) = map item_key buildCalibList"
  shows "if list_all (\<lambda>it. has_text (cal_value it)) (cb_list s)
    then \<exists>t u. writeToEeprom bus s = Some (True, t) \<and> memory (iv_bus (cb_eeprom t)) = cb_buffer t
      \<and> drop 33 (cb_buffer t) = drop 33 (cb_buffer s) \<and> getSerialID t = getSerialID s
      \<and> calib_init bus (cb_eeprom t) = Some u \<and> cb_valid u \<and> cb_eepromValid u
      \<and> cb_list u = map (\<lambda>it. if cal_name it = octets ''WRITE_CYCLES''
            then it\<lparr>cal_value := to_string (unat (unsigned_of (cal_value it) + 1))\<rparr> else stored it) (cb_list s)
    else writeToEeprom bus s = None"
proof (cases "list_all (\<lambda>it. has_text (cal_value it)) (cb_list s)")
  case False
  then show ?thesis using write_blank [OF assms(4,6)] by simp
next
  case True
  let ?s = "s\<lparr>cb_list := map counted (cb_list s)\<rparr>"
  have c: "count_write s = Some ?s" by (rule count_write_items [OF assms(6) write_cycles_text [OF assms(6) True]])
  have key: "map item_key (cb_list ?s) = map item_key buildCalibList"
    using assms(6) counted_key [of "cb_list s"] by simp
  obtain b where b: "updateBuffer ?s = Some (?s\<lparr>cb_buffer := b\<rparr>)" "length b = 256"
    "drop 33 b = drop 33 (cb_buffer s)" "get b 0 = Some CALIB_HEADER"
    "read_items b buildCalibList = Some (map stored (map counted (cb_list s)))"
    using updateBuffer_image [OF _ key] assms(5) counted_has_text [OF True] by auto
  obtain e where e: "eep_writeBytes bus 0 256 b (cb_eeprom s) = Some (Inr (True, e))" "ready e" "iv_address e = address"
    "memory (iv_bus e) = b" by (rule image_written [OF assms(1) b(2) assms(2,3)])
  obtain u where u: "calib_init bus e = Some u" "cb_valid u" "cb_eepromValid u" "cb_list u = map stored (map counted (cb_list s))"
    by (rule image_read_back [OF assms(1) e(2,3) e(4) b(2,4,5)])
  define t where "t = ?s\<lparr>cb_buffer := b, cb_eeprom := e\<rparr>"
  have w: "writeToEeprom bus s = Some (True, t)" using assms(4) c b(1) e(1) by (simp add: writeToEeprom_def t_def)
  have "getSerialID t = getSerialID s"
    by (rule getSerialID_tail) (use b assms(5) in \<open>simp_all add: t_def\<close>)
  with w u b(3) e(4) show ?thesis
    unfolding if_P [OF True] stored_counted [OF assms(6), symmetric] by (auto simp: t_def)
qed

definition calib_example :: "byte list calibration" where
  "calib_example = \<lparr>cb_list = buildCalibList, cb_buffer = replicate 250 0 @ [1, 2, 3, 4, 5, 6], cb_eepromValid = True,
     cb_valid = False, cb_eeprom = i2cDevice.extend (opened 0x50 []) \<lparr>ee_title = ''24AA02''\<rparr>\<rparr>"

lemmas octet_text_simps = octets_def unsigned_of_def split_sign_def isspace_def isdigit_def digits_value_def
  digit_value_def digit_char_def to_string.simps

theorem calibration_roundtrip_witness:
  "(\<exists>t u. writeToEeprom chip_bus calib_example = Some (True, t) \<and> getSerialID t = 0x010203040506
    \<and> calib_init chip_bus (cb_eeprom t) = Some u \<and> cal_name (cb_list u ! 10) = octets ''WRITE_CYCLES''
    \<and> cal_value (cb_list u ! 10) = octets ''2'' \<and> cal_value (cb_list u ! 5) = octets ''1100'')
   \<and> writeToEeprom chip_bus (calib_example\<lparr>cb_list := buildCalibList[5 := (buildCalibList ! 5)\<lparr>cal_value := octets '' ''\<rparr>]\<rparr>) = None"
proof -
  let ?blank = "buildCalibList[5 := (buildCalibList ! 5)\<lparr>cal_value := octets '' ''\<rparr>]"
  note chip = chip_bus_chip [where address = "0x50"]
  have p: "ready (cb_eeprom calib_example)" "iv_address (cb_eeprom calib_example) = 0x50" "cb_eepromValid calib_example"
    "length (cb_buffer calib_example) = 256" "cb_list calib_example = buildCalibList" "getSerialID calib_example = 0x010203040506"
    by (simp_all add: calib_example_def opened_def i2cDevice.defs ready_def MODE_NORMAL_def MODE_LOCKED_def
        getSerialID_def nth_append)
  have "unsigned_of (octets ''1'') = 1" "unsigned_of (octets ''1100'') = 1100" "to_string 2 = octets ''2''"
    "to_string 1100 = octets ''1100''" by (simp_all add: octet_text_simps)
  then have v: "cal_value ((\<lambda>it. if cal_name it = octets ''WRITE_CYCLES''
        then it\<lparr>cal_value := to_string (unat (unsigned_of (cal_value it) + 1))\<rparr> else stored it) (buildCalibList ! 10)) = octets ''2''"
    "cal_name (buildCalibList ! 10) = octets ''WRITE_CYCLES''" "cal_value (stored (buildCalibList ! 5)) = octets ''1100''"
    "cal_name (buildCalibList ! 5) \<noteq> octets ''WRITE_CYCLES''" "length buildCalibList = 11"
    by (simp_all add: buildCalibList_def CALIBITEMS_def stored_def stored_text_def)
  have "list_all (\<lambda>it. has_text (cal_value it)) buildCalibList" by code_simp
  from calibration_roundtrip [OF chip, of calib_example] this p v
  have a: "\<exists>t u. writeToEeprom chip_bus calib_example = Some (True, t) \<and> getSerialID t = 0x010203040506
    \<and> calib_init chip_bus (cb_eeprom t) = Some u \<and> cal_name (cb_list u ! 10) = octets ''WRITE_CYCLES''
    \<and> cal_value (cb_list u ! 10) = octets ''2'' \<and> cal_value (cb_list u ! 5) = octets ''1100''"
    by auto
  have "\<not> list_all (\<lambda>it. has_text (cal_value it)) ?blank" "map item_key ?blank = map item_key buildCalibList" by code_simp+
  then have "writeToEeprom chip_bus (calib_example\<lparr>cb_list := ?blank\<rparr>) = None"
    using calibration_roundtrip [OF chip, of "calib_example\<lparr>cb_list := ?blank\<rparr>"] p by simp
  with a show ?thesis by blast
qed

end
