(* ===== verification/Mcp4728.thy ===== *)
theory Mcp4728
  imports I2c_Device Ieee_Double
begin

text \<open>
  The DAC of thresholds and bias voltage: class \<open>MCP4728\<close> (\<open>daemon/src/hardware/i2c/mcp4728.cpp\<close>), four channels of
  12 bits, each with an output register and one in an EEPROM. The object caches both for 100 ms. The steady
  clock is a parameter, \<open>clk\<close>, in nanoseconds.
\<close>

datatype CFG_GAIN = GAIN1 | GAIN2

datatype CFG_VREF = VREF_VDD | VREF_2V

record DacChannel =
  dc_pd :: u8
  dc_gain :: CFG_GAIN
  dc_vref :: CFG_VREF
  dc_eeprom :: bool
  dc_value :: u16

definition default_DacChannel :: DacChannel where
  "default_DacChannel = \<lparr>dc_pd = 0, dc_gain = GAIN1, dc_vref = VREF_2V, dc_eeprom = False, dc_value = 0\<rparr>"

record 'd mcp4728 = "'d i2cDevice" +
  mc_fChannelSetting :: "DacChannel list"
  mc_fChannelSettingEep :: "DacChannel list"
  mc_fLastRegisterUpdate :: int
  mc_fBusy :: bool

fun gain_bit :: "CFG_GAIN \<Rightarrow> u8" where
  "gain_bit GAIN1 = 0"
| "gain_bit GAIN2 = 1"

fun vref_bit :: "CFG_VREF \<Rightarrow> u8" where
  "vref_bit VREF_VDD = 0"
| "vref_bit VREF_2V = 1"

definition DAC_FAST_WRITE :: u8 where "DAC_FAST_WRITE = 0x00"
definition DAC_MULTI_WRITE :: u8 where "DAC_MULTI_WRITE = 0x08"
definition DAC_EEP_SEQ_WRITE :: u8 where "DAC_EEP_SEQ_WRITE = 0x0a"
definition DAC_EEP_SINGLE_WRITE :: u8 where "DAC_EEP_SINGLE_WRITE = 0x0b"
definition ADDR_BITS_WRITE :: u8 where "ADDR_BITS_WRITE = 0x0c"
definition VREF_WRITE :: u8 where "VREF_WRITE = 0x10"
definition GAIN_WRITE :: u8 where "GAIN_WRITE = 0x18"
definition PD_WRITE :: u8 where "PD_WRITE = 0x14"

definition DataValidityTimeout :: int where
  "DataValidityTimeout = 100 * 10 ^ 6"

definition fVddRefVoltage :: rat where
  "fVddRefVoltage = float (double (33 / 10))"

section \<open>Voltages\<close>

definition code2voltage :: "DacChannel \<Rightarrow> rat" where
  "code2voltage ch =
     (let vref = (if dc_vref ch = VREF_2V then float (double (2048 / 1000)) else fVddRefVoltage);
          voltage = float (double (float (vref * of_nat (unat (dc_value ch))) / 4096))
      in if dc_gain ch = GAIN2 \<and> dc_vref ch \<noteq> VREF_VDD then float (double (voltage * 2)) else voltage)"

text \<open>The code and the gain for a voltage; \<open>value\<close> has 16 bits.\<close>

definition voltage_code :: "CFG_VREF \<Rightarrow> rat \<Rightarrow> (u16 \<times> CFG_GAIN) option" where
  "voltage_code vref voltage =
     (let (val, gain) =
        (if vref = VREF_2V
         then (let val = word_of_int (lround (float (voltage * 2000))) :: u16
               in if 0xfff < val then (drop_bit 1 val, GAIN2) else (val, GAIN1))
         else (word_of_int (lround (float (float (voltage * 4096) / fVddRefVoltage))), GAIN1))
      in if 0xfff < val then None else Some (val, gain))"

section \<open>Registers\<close>

definition parse_channel :: "bool \<Rightarrow> byte \<times> byte \<Rightarrow> DacChannel" where
  "parse_channel eep = (\<lambda>(b1, b2).
     \<lparr>dc_pd = drop_bit 5 (b1 AND 0x60), dc_gain = (if b1 AND 0x10 \<noteq> 0 then GAIN2 else GAIN1),
      dc_vref = (if b1 AND 0x80 \<noteq> 0 then VREF_2V else VREF_VDD), dc_eeprom = eep,
      dc_value = push_bit 8 (ucast (b1 AND 0x0f)) OR ucast (b2 AND 0xff)\<rparr>)"

text \<open>The flag \<open>eeprom\<close> of the output settings is not written.\<close>

definition parseChannelData :: "byte list \<Rightarrow> ('d, 'x) mcp4728_scheme \<Rightarrow> ('d, 'x) mcp4728_scheme" where
  "parseChannelData buf s =
     s\<lparr>mc_fChannelSetting := map (\<lambda>i. parse_channel (dc_eeprom (mc_fChannelSetting s ! i)) (buf ! (i * 6 + 1), buf ! (i * 6 + 2))) [0..<4],
       mc_fChannelSettingEep := map (\<lambda>i. parse_channel True (buf ! (i * 6 + 4), buf ! (i * 6 + 5))) [0..<4],
       mc_fBusy := (buf ! 21 AND 0x80 = 0)\<rparr>"

definition readRegisters :: "'d i2c_bus \<Rightarrow> ('d \<Rightarrow> int \<times> 'd) \<Rightarrow> ('d, 'x) mcp4728_scheme
    \<Rightarrow> bool \<times> ('d, 'x) mcp4728_scheme" where
  "readRegisters bus clk s =
     (let (now, d) = clk (iv_bus s); s = s\<lparr>iv_bus := d\<rparr>
      in if now - mc_fLastRegisterUpdate s < DataValidityTimeout then (True, s)
         else (let (n, buf, s) = i2c_read bus 24 s
               in if n \<noteq> 24 then (False, s)
                  else (let s = parseChannelData buf s; (now, d) = clk (iv_bus s)
                        in (True, s\<lparr>iv_bus := d, mc_fLastRegisterUpdate := now\<rparr>))))"

text \<open>\<open>left\<close> is \<open>timeout_ctr\<close>; it is compared before it is decremented, so it ends at -1 where the time is up.\<close>

fun wait_loop :: "nat \<Rightarrow> 'd i2c_bus \<Rightarrow> ('d \<Rightarrow> int \<times> 'd) \<Rightarrow> ('d, 'x) mcp4728_scheme \<Rightarrow> bool \<times> ('d, 'x) mcp4728_scheme" where
  "wait_loop left bus clk s =
     (if \<not> mc_fBusy s then (0 < left, s)
      else case left of 0 \<Rightarrow> (False, s)
        | Suc left \<Rightarrow> (let (ok, s) = readRegisters bus clk (s\<lparr>mc_fLastRegisterUpdate := 0\<rparr>)
                       in if ok then wait_loop left bus clk s else (False, s)))"

declare wait_loop.simps [simp del]

definition waitEepReady :: "'d i2c_bus \<Rightarrow> ('d \<Rightarrow> int \<times> 'd) \<Rightarrow> ('d, 'x) mcp4728_scheme \<Rightarrow> bool \<times> ('d, 'x) mcp4728_scheme" where
  "waitEepReady bus clk s =
     (let (ok, s) = readRegisters bus clk s in if ok then wait_loop 100 bus clk s else (False, s))"

definition mcp_devicePresent :: "'d i2c_bus \<Rightarrow> ('d \<Rightarrow> int \<times> 'd) \<Rightarrow> ('d, 'x) mcp4728_scheme \<Rightarrow> bool \<times> ('d, 'x) mcp4728_scheme" where
  "mcp_devicePresent bus clk s = readRegisters bus clk s"

text \<open>The two octets of a channel.\<close>

definition channel_octets :: "DacChannel \<Rightarrow> byte \<times> byte" where
  "channel_octets ch =
     (push_bit 7 (vref_bit (dc_vref ch)) OR push_bit 5 (dc_pd ch AND 0x03)
        OR ucast (drop_bit 8 (dc_value ch AND 0xf00)) OR push_bit 4 (gain_bit (dc_gain ch) AND 0x01),
      ucast (dc_value ch AND 0xff))"

definition writeChannel :: "'d i2c_bus \<Rightarrow> ('d \<Rightarrow> int \<times> 'd) \<Rightarrow> u8 \<Rightarrow> DacChannel \<Rightarrow> ('d, 'x) mcp4728_scheme
    \<Rightarrow> bool \<times> ('d, 'x) mcp4728_scheme" where
  "writeChannel bus clk channel data s =
     (if 0xfff < dc_value data then (False, s)
      else (let (ok, s) = waitEepReady bus clk s
            in if \<not> ok then (False, s)
               else (let channel = channel AND 0x03;
                         cmd = push_bit 3 (if dc_eeprom data then DAC_EEP_SINGLE_WRITE else DAC_MULTI_WRITE) OR push_bit 1 channel;
                         (b1, b2) = channel_octets data;
                         (n, s) = i2c_write bus [cmd, b1, b2] s
                     in if n \<noteq> 3 then (False, s)
                        else if dc_eeprom data
                        then (True, s\<lparr>mc_fChannelSettingEep := (mc_fChannelSettingEep s)[unat channel := data],
                                 mc_fLastRegisterUpdate := 0\<rparr>)
                        else (True, s\<lparr>mc_fChannelSetting := (mc_fChannelSetting s)[unat channel := data],
                                 mc_fLastRegisterUpdate := 0\<rparr>))))"

definition setValue :: "'d i2c_bus \<Rightarrow> ('d \<Rightarrow> int \<times> 'd) \<Rightarrow> u8 \<Rightarrow> u16 \<Rightarrow> CFG_GAIN \<Rightarrow> bool \<Rightarrow> ('d, 'x) mcp4728_scheme
    \<Rightarrow> bool \<times> ('d, 'x) mcp4728_scheme" where
  "setValue bus clk channel val gain toEEPROM s =
     (if 0xfff < val then (False, s)
      else (let dacChannel = (if toEEPROM then (mc_fChannelSettingEep s ! unat channel)\<lparr>dc_eeprom := True\<rparr>
                              else mc_fChannelSetting s ! unat channel)
            in writeChannel bus clk channel (dacChannel\<lparr>dc_value := val, dc_gain := gain\<rparr>) s))"

definition setVoltage_to :: "'d i2c_bus \<Rightarrow> ('d \<Rightarrow> int \<times> 'd) \<Rightarrow> u8 \<Rightarrow> rat \<Rightarrow> bool \<Rightarrow> ('d, 'x) mcp4728_scheme
    \<Rightarrow> bool \<times> ('d, 'x) mcp4728_scheme" where
  "setVoltage_to bus clk channel voltage toEEPROM s =
     (if voltage < 0 \<or> 3 < channel then (False, s)
      else case voltage_code (dc_vref (mc_fChannelSetting s ! unat channel)) voltage of
          None \<Rightarrow> (False, s)
        | Some (val, gain) \<Rightarrow> setValue bus clk channel val gain toEEPROM s)"

definition setVoltage :: "'d i2c_bus \<Rightarrow> ('d \<Rightarrow> int \<times> 'd) \<Rightarrow> u32 \<Rightarrow> rat \<Rightarrow> ('d, 'x) mcp4728_scheme
    \<Rightarrow> bool \<times> ('d, 'x) mcp4728_scheme" where
  "setVoltage bus clk channel voltage s =
     (if voltage < 0 \<or> 3 < channel then (False, s) else setVoltage_to bus clk (ucast channel) voltage False s)"

definition storeSettings :: "'d i2c_bus \<Rightarrow> ('d \<Rightarrow> int \<times> 'd) \<Rightarrow> ('d, 'x) mcp4728_scheme \<Rightarrow> bool \<times> ('d, 'x) mcp4728_scheme" where
  "storeSettings bus clk s =
     (let (ok, s) = waitEepReady bus clk s
      in if \<not> ok then (False, s)
         else (let startchannel = 0 :: u8;
                   buf = (push_bit 3 DAC_EEP_SEQ_WRITE OR push_bit 1 startchannel)
                     # concat (map (\<lambda>ch. let (b1, b2) = channel_octets ch in [b1, b2]) (mc_fChannelSetting s));
                   (n, s) = i2c_write bus buf s
               in if n \<noteq> 9 then (False, s) else (True, s\<lparr>mc_fLastRegisterUpdate := 0\<rparr>)))"

definition readChannel :: "'d i2c_bus \<Rightarrow> ('d \<Rightarrow> int \<times> 'd) \<Rightarrow> u8 \<Rightarrow> DacChannel \<Rightarrow> ('d, 'x) mcp4728_scheme
    \<Rightarrow> bool \<times> DacChannel \<times> ('d, 'x) mcp4728_scheme" where
  "readChannel bus clk channel channelData s =
     (if 3 < channel then (False, channelData, s)
      else (let (ok, s) = readRegisters bus clk s
            in if \<not> ok then (False, channelData, s)
               else (True, (if dc_eeprom channelData then mc_fChannelSettingEep s else mc_fChannelSetting s) ! unat channel, s)))"

definition mcp_identify :: "'d i2c_bus \<Rightarrow> ('d \<Rightarrow> int \<times> 'd) \<Rightarrow> ('d, 'x) mcp4728_scheme \<Rightarrow> bool \<times> ('d, 'x) mcp4728_scheme" where
  "mcp_identify bus clk s =
     (if iv_mode s = MODE_FAILED then (False, s)
      else (let (present, s) = mcp_devicePresent bus clk s
            in if \<not> present then (False, s)
               else (let (n, buf, s) = i2c_read bus 24 s
                     in if n \<noteq> 24 then (False, s)
                        else (buf ! 0 AND 0xf0 = 0xc0 \<and> buf ! 6 AND 0xf0 = 0xd0 \<and> buf ! 12 AND 0xf0 = 0xe0
                              \<and> buf ! 18 AND 0xf0 = 0xf0, s))))"

section \<open>References\<close>

text \<open>The octet \<open>setVRef\<close> sends: one bit for each channel, shifted in from the right.\<close>

fun vref_octet :: "u8 \<Rightarrow> CFG_VREF list \<Rightarrow> u8" where
  "vref_octet databyte [] = databyte"
| "vref_octet databyte (v # vs) = vref_octet (push_bit 1 (databyte OR vref_bit v)) vs"

definition set_vrefs :: "'d i2c_bus \<Rightarrow> ('d \<Rightarrow> int \<times> 'd) \<Rightarrow> (CFG_VREF list \<Rightarrow> CFG_VREF list) \<Rightarrow> ('d, 'x) mcp4728_scheme
    \<Rightarrow> bool \<times> ('d, 'x) mcp4728_scheme" where
  "set_vrefs bus clk new s =
     (let (ok, s) = waitEepReady bus clk s
      in if \<not> ok then (False, s)
         else (let vrefs = new (map dc_vref (mc_fChannelSetting s));
                   (n, s) = i2c_write bus [vref_octet (drop_bit 1 VREF_WRITE) vrefs] s
               in if n \<noteq> 1 then (False, s)
                  else (True, s\<lparr>mc_fChannelSetting := map2 (\<lambda>ch v. ch\<lparr>dc_vref := v\<rparr>) (mc_fChannelSetting s) vrefs\<rparr>)))"

definition setVRef :: "'d i2c_bus \<Rightarrow> ('d \<Rightarrow> int \<times> 'd) \<Rightarrow> u32 \<Rightarrow> CFG_VREF \<Rightarrow> ('d, 'x) mcp4728_scheme
    \<Rightarrow> bool \<times> ('d, 'x) mcp4728_scheme" where
  "setVRef bus clk channel v s = set_vrefs bus clk (\<lambda>vs. vs[unat (channel AND 0x03) := v]) s"

definition setVRef_all :: "'d i2c_bus \<Rightarrow> ('d \<Rightarrow> int \<times> 'd) \<Rightarrow> CFG_VREF \<Rightarrow> ('d, 'x) mcp4728_scheme
    \<Rightarrow> bool \<times> ('d, 'x) mcp4728_scheme" where
  "setVRef_all bus clk v s = set_vrefs bus clk (\<lambda>vs. replicate 4 v) s"

section \<open>Octets and channels\<close>

lemma and_bit: "(b :: byte) AND 2 ^ n \<noteq> 0 \<longleftrightarrow> bit b n"
  by (simp add: and_exp_eq_0_iff_not_bit)

lemma octet_bits:
  fixes v w :: byte
  assumes "\<And>n. n < 8 \<Longrightarrow> bit v n = bit w n" shows "v = w"
  by (rule bit_word_eqI) (use assms in simp)

lemma octet_index: "n < (8 :: nat) \<Longrightarrow> n = 0 \<or> n = 1 \<or> n = 2 \<or> n = 3 \<or> n = 4 \<or> n = 5 \<or> n = 6 \<or> n = 7"
  by arith

lemma channel_octets_parse: "channel_octets (parse_channel e (b1, b2)) = (b1, b2)"
proof -
  have g: "b1 AND 0x10 \<noteq> 0 \<longleftrightarrow> bit b1 4" and v: "b1 AND 0x80 \<noteq> 0 \<longleftrightarrow> bit b1 7"
    using and_bit [of b1 4] and_bit [of b1 7] by simp_all
  have "fst (channel_octets (parse_channel e (b1, b2))) = b1"
  proof (rule octet_bits)
    fix n :: nat assume "n < 8"
    from octet_index [OF this] show "bit (fst (channel_octets (parse_channel e (b1, b2)))) n = bit b1 n"
      unfolding channel_octets_def parse_channel_def prod.case DacChannel.simps g v
      by (elim disjE) (simp_all add: bit_simps)
  qed
  moreover have "snd (channel_octets (parse_channel e (b1, b2))) = b2"
  proof (rule octet_bits)
    fix n :: nat assume "n < 8"
    from octet_index [OF this] show "bit (snd (channel_octets (parse_channel e (b1, b2)))) n = bit b2 n"
      unfolding channel_octets_def parse_channel_def prod.case DacChannel.simps
      by (elim disjE) (simp_all add: bit_simps)
  qed
  ultimately show ?thesis by (metis prod.collapse)
qed

lemma small_bits: "unat (w :: 'a::len word) < 2 ^ k \<Longrightarrow> k \<le> n \<Longrightarrow> \<not> bit w n"
proof -
  assume w: "unat w < 2 ^ k" and k: "k \<le> n"
  then have "take_bit k (unat w) = unat w" by (simp add: take_bit_nat_eq_self)
  then have "\<not> bit (unat w) n" using k by (metis bit_take_bit_iff not_less)
  then show ?thesis by (simp add: bit_unsigned_iff bit_imp_le_length)
qed

lemma parse_channel_octets:
  assumes "unat (dc_pd ch) < 2 ^ 2" and "unat (dc_value ch) < 2 ^ 12"
  shows "parse_channel e (channel_octets ch) = ch\<lparr>dc_eeprom := e\<rparr>"
proof -
  have g: "gain_bit x AND 1 = gain_bit x" for x by (cases x) simp_all
  have p: "\<not> bit (dc_pd ch) n" if "2 \<le> n" for n using small_bits [OF assms(1) that] .
  have v: "\<not> bit (dc_value ch) n" if "12 \<le> n" for n using small_bits [OF assms(2) that] .
  let ?b = "fst (channel_octets ch)"
  have b: "bit ?b 7 = (dc_vref ch = VREF_2V)" "bit ?b 4 = (dc_gain ch = GAIN2)"
    by (cases "dc_vref ch"; cases "dc_gain ch"; simp add: channel_octets_def bit_simps)+
  have pd: "drop_bit 5 (?b AND 0x60) = dc_pd ch"
  proof (rule octet_bits)
    fix n :: nat assume "n < 8"
    from octet_index [OF this] show "bit (drop_bit 5 (?b AND 0x60)) n = bit (dc_pd ch) n"
      by (elim disjE) (cases "dc_vref ch"; cases "dc_gain ch"; simp add: channel_octets_def bit_simps p)+
  qed
  have low: "?b AND 0x0f = ucast (drop_bit 8 (dc_value ch))"
  proof (rule octet_bits)
    fix n :: nat assume "n < 8"
    from octet_index [OF this] show "bit (?b AND 0x0f) n = bit (ucast (drop_bit 8 (dc_value ch)) :: byte) n"
      by (elim disjE) (cases "dc_vref ch"; cases "dc_gain ch"; simp add: channel_octets_def bit_simps v p)+
  qed
  have val: "push_bit 8 (ucast (?b AND 0x0f)) OR ucast (snd (channel_octets ch) AND 0xff) = dc_value ch"
  proof -
    have c: "(ucast (w AND 0xff) :: byte) AND 0xff = ucast w" for w :: u16
    proof (rule octet_bits)
      fix n :: nat assume "n < 8"
      from octet_index [OF this] show "bit ((ucast (w AND 0xff) :: byte) AND 0xff) n = bit (ucast w :: byte) n"
        by (elim disjE) (simp_all add: bit_simps)
    qed
    have s: "snd (channel_octets ch) AND 0xff = ucast (dc_value ch)" by (simp only: channel_octets_def snd_conv c)
    show ?thesis
      unfolding low s
    proof (rule bit_word_eqI)
      fix n assume "n < LENGTH(16)"
      then show "bit (push_bit 8 (ucast (ucast (drop_bit 8 (dc_value ch)) :: byte)) OR ucast (ucast (dc_value ch) :: byte) :: u16) n
          = bit (dc_value ch) n"
        using v [of n] less_diff_conv2 [of 8 n 16] less_diff_conv2 [of 8 n 8]
        by (cases "n < 8"; cases "n < 12"; simp add: bit_simps)
    qed
  qed
  have n: "?b AND 0x10 \<noteq> 0 \<longleftrightarrow> dc_gain ch = GAIN2" "?b AND 0x80 \<noteq> 0 \<longleftrightarrow> dc_vref ch = VREF_2V"
    using and_bit [of ?b 4] and_bit [of ?b 7] b by simp_all
  have "parse_channel e (?b, snd (channel_octets ch)) = ch\<lparr>dc_eeprom := e\<rparr>"
  proof (rule DacChannel.equality)
    show "dc_gain (parse_channel e (?b, snd (channel_octets ch))) = dc_gain (ch\<lparr>dc_eeprom := e\<rparr>)"
      unfolding parse_channel_def prod.case DacChannel.simps n by (cases "dc_gain ch") simp_all
    show "dc_vref (parse_channel e (?b, snd (channel_octets ch))) = dc_vref (ch\<lparr>dc_eeprom := e\<rparr>)"
      unfolding parse_channel_def prod.case DacChannel.simps n by (cases "dc_vref ch") simp_all
  qed (unfold parse_channel_def prod.case DacChannel.simps pd val, simp_all)
  then show ?thesis by simp
qed

section \<open>The chip\<close>

text \<open>
  What the data sheet promises: the output registers \<open>outs\<close> and the stored ones \<open>eeps\<close> of four channels, two octets
  each. Where no write to the EEPROM is going on, a multi-write sets one output register and a sequential
  write from channel A sets and stores all; a read gives everything, with the RDY bit, and a write to the
  EEPROM that is over stays over.
\<close>

definition dac_chip :: "'d i2c_bus \<Rightarrow> u8 \<Rightarrow> ('d \<Rightarrow> (byte \<times> byte) list) \<Rightarrow> ('d \<Rightarrow> (byte \<times> byte) list) \<Rightarrow> ('d \<Rightarrow> bool) \<Rightarrow> bool" where
  "dac_chip bus address outs eeps busy \<longleftrightarrow>
     (\<forall>d. length (outs d) = 4 \<and> length (eeps d) = 4) \<and>
     (\<forall>d ch b1 b2. \<not> busy d \<longrightarrow> ch < 4 \<longrightarrow>
        (\<exists>d'. sys_write bus address [0x40 OR push_bit 1 (word_of_nat ch), b1, b2] d = (3, d')
          \<and> outs d' = (outs d)[ch := (b1, b2)] \<and> eeps d' = eeps d \<and> \<not> busy d')) \<and>
     (\<forall>d ps. \<not> busy d \<longrightarrow> length ps = 4 \<longrightarrow>
        (\<exists>d'. sys_write bus address (0x50 # concat (map (\<lambda>(b1, b2). [b1, b2]) ps)) d = (9, d')
          \<and> outs d' = ps \<and> eeps d' = ps)) \<and>
     (\<forall>d. \<exists>buf d'. sys_read bus address 24 d = (24, buf, d') \<and> outs d' = outs d \<and> eeps d' = eeps d
        \<and> (\<not> busy d \<longrightarrow> \<not> busy d' \<and> buf ! 21 AND 0x80 \<noteq> 0)
        \<and> (\<forall>i<4. (buf ! (i * 6 + 1), buf ! (i * 6 + 2)) = outs d ! i \<and> (buf ! (i * 6 + 4), buf ! (i * 6 + 5)) = eeps d ! i))"

text \<open>The steady clock of a system that is up for 100 ms; reading it does not touch the chip.\<close>

definition up_clock :: "('d \<Rightarrow> int \<times> 'd) \<Rightarrow> ('d \<Rightarrow> (byte \<times> byte) list) \<Rightarrow> ('d \<Rightarrow> (byte \<times> byte) list) \<Rightarrow> ('d \<Rightarrow> bool) \<Rightarrow> bool" where
  "up_clock clk outs eeps busy \<longleftrightarrow>
     (\<forall>d. DataValidityTimeout \<le> fst (clk d) \<and> outs (snd (clk d)) = outs d \<and> eeps (snd (clk d)) = eeps d
        \<and> (\<not> busy d \<longrightarrow> \<not> busy (snd (clk d))))"

text \<open>
  The object and the chip agree: always on the outputs, and on the stored settings unless the next access
  reads them again.
\<close>

definition in_sync :: "u8 \<Rightarrow> ('d \<Rightarrow> (byte \<times> byte) list) \<Rightarrow> ('d \<Rightarrow> (byte \<times> byte) list) \<Rightarrow> ('d \<Rightarrow> bool) \<Rightarrow> ('d, 'x) mcp4728_scheme \<Rightarrow> bool" where
  "in_sync address outs eeps busy s \<longleftrightarrow>
     ready s \<and> iv_address s = address \<and> \<not> busy (iv_bus s)
     \<and> mc_fChannelSetting s = map (parse_channel False) (outs (iv_bus s))
     \<and> (mc_fLastRegisterUpdate s = 0
        \<or> mc_fChannelSettingEep s = map (parse_channel True) (eeps (iv_bus s)) \<and> \<not> mc_fBusy s)"

definition cached :: "('d \<Rightarrow> (byte \<times> byte) list) \<Rightarrow> ('d, 'x) mcp4728_scheme \<Rightarrow> bool" where
  "cached eeps s \<longleftrightarrow> mc_fChannelSettingEep s = map (parse_channel True) (eeps (iv_bus s)) \<and> \<not> mc_fBusy s"

lemma ready_mcp [simp]:
  "ready (s\<lparr>mc_fChannelSetting := a\<rparr>) = ready s" "ready (s\<lparr>mc_fChannelSettingEep := a\<rparr>) = ready s"
  "ready (s\<lparr>mc_fLastRegisterUpdate := n\<rparr>) = ready s" "ready (s\<lparr>mc_fBusy := b\<rparr>) = ready s"
  by (simp_all add: ready_def)

lemma i2c_read_ok:
  fixes s :: "('d, 'x) mcp4728_scheme"
  assumes "ready s" and "sys_read bus (iv_address s) k (iv_bus s) = (n, buf, d)"
  obtains t where "i2c_read bus k s = (n, buf, t)" and "ready t" and "iv_address t = iv_address s" and "iv_bus t = d"
    and "mc_fChannelSetting t = mc_fChannelSetting s" and "mc_fChannelSettingEep t = mc_fChannelSettingEep s"
    and "mc_fLastRegisterUpdate t = mc_fLastRegisterUpdate s"
proof -
  obtain t where t: "i2c_read bus k s = (n, buf, t)" "mc_fChannelSetting t = mc_fChannelSetting s"
    "mc_fChannelSettingEep t = mc_fChannelSettingEep s" "mc_fLastRegisterUpdate t = mc_fLastRegisterUpdate s"
    using assms by (cases "0 < n") (simp_all add: i2c_read_def ready_def Let_def)
  show thesis using ready_read [OF assms(1) t(1)] t assms(2) by (intro that [of t]) simp_all
qed

lemma i2c_write_ok:
  fixes s :: "('d, 'x) mcp4728_scheme"
  assumes "ready s" and "sys_write bus (iv_address s) buf (iv_bus s) = (n, d)"
  obtains t where "i2c_write bus buf s = (n, t)" and "ready t" and "iv_address t = iv_address s" and "iv_bus t = d"
    and "mc_fChannelSetting t = mc_fChannelSetting s" and "mc_fChannelSettingEep t = mc_fChannelSettingEep s"
proof -
  obtain t where t: "i2c_write bus buf s = (n, t)" "mc_fChannelSetting t = mc_fChannelSetting s"
    "mc_fChannelSettingEep t = mc_fChannelSettingEep s"
    using assms by (cases "0 < n") (simp_all add: i2c_write_def ready_def Let_def)
  show thesis using ready_write [OF assms(1) t(1)] t assms(2) by (intro that [of t]) simp_all
qed

lemma readRegisters_cached:
  assumes "dac_chip bus address outs eeps busy" and "up_clock clk outs eeps busy" and "in_sync address outs eeps busy s"
  obtains t where "readRegisters bus clk s = (True, t)" and "in_sync address outs eeps busy t" and "cached eeps t"
    and "outs (iv_bus t) = outs (iv_bus s)" and "eeps (iv_bus t) = eeps (iv_bus s)"
proof -
  obtain now d where c: "clk (iv_bus s) = (now, d)" by fastforce
  have clk: "DataValidityTimeout \<le> fst (clk d) \<and> outs (snd (clk d)) = outs d \<and> eeps (snd (clk d)) = eeps d
      \<and> (\<not> busy d \<longrightarrow> \<not> busy (snd (clk d)))" for d
    using assms(2) unfolding up_clock_def by blast
  from clk [of "iv_bus s"] have d: "DataValidityTimeout \<le> now" "outs d = outs (iv_bus s)" "eeps d = eeps (iv_bus s)"
    "\<not> busy (iv_bus s) \<Longrightarrow> \<not> busy d" by (simp_all add: c)
  have s: "ready s" "iv_address s = address" "\<not> busy (iv_bus s)"
    "mc_fChannelSetting s = map (parse_channel False) (outs (iv_bus s))"
    "mc_fLastRegisterUpdate s = 0 \<or> cached eeps s"
    using assms(3) by (simp_all add: in_sync_def cached_def)
  show thesis
  proof (cases "now - mc_fLastRegisterUpdate s < DataValidityTimeout")
    case True
    then have "cached eeps s" using s(5) d(1) by auto
    then show thesis using True s d c
      by (intro that [of "s\<lparr>iv_bus := d\<rparr>"]) (simp_all add: readRegisters_def in_sync_def cached_def)
  next
    case False
    have "\<exists>buf d'. sys_read bus address 24 d = (24, buf, d') \<and> outs d' = outs d \<and> eeps d' = eeps d
        \<and> (\<not> busy d \<longrightarrow> \<not> busy d' \<and> buf ! 21 AND 0x80 \<noteq> 0)
        \<and> (\<forall>i<4. (buf ! (i * 6 + 1), buf ! (i * 6 + 2)) = outs d ! i \<and> (buf ! (i * 6 + 4), buf ! (i * 6 + 5)) = eeps d ! i)"
      and l: "length (outs d) = 4 \<and> length (eeps d) = 4" for d
      using assms(1) unfolding dac_chip_def by blast+
    then obtain buf d' where r: "sys_read bus address 24 d = (24, buf, d')" and d': "outs d' = outs d" "eeps d' = eeps d"
      and b: "\<not> busy d'" "buf ! 21 AND 0x80 \<noteq> 0"
      and p: "\<And>i. i < 4 \<Longrightarrow> (buf ! (i * 6 + 1), buf ! (i * 6 + 2)) = outs d ! i"
        "\<And>i. i < 4 \<Longrightarrow> (buf ! (i * 6 + 4), buf ! (i * 6 + 5)) = eeps d ! i"
      using d(4) [OF s(3)] by blast
    have "ready (s\<lparr>iv_bus := d\<rparr>)" "sys_read bus (iv_address (s\<lparr>iv_bus := d\<rparr>)) 24 (iv_bus (s\<lparr>iv_bus := d\<rparr>)) = (24, buf, d')"
      using s r by simp_all
    from i2c_read_ok [OF this] obtain t where t: "i2c_read bus 24 (s\<lparr>iv_bus := d\<rparr>) = (24, buf, t)" "ready t"
      "iv_address t = address" "iv_bus t = d'" "mc_fChannelSetting t = mc_fChannelSetting s" using s(2) by auto
    have f: "dc_eeprom (mc_fChannelSetting s ! i) = False" if "i < 4" for i
      using that l [of "iv_bus s"] by (simp add: s(4) parse_channel_def split: prod.split)
    have m: "map g [0..<4] = map (parse_channel e) xs"
      if "\<And>i. i < 4 \<Longrightarrow> g i = parse_channel e (xs ! i)" "length xs = 4" for g e xs
      using that by (intro nth_equalityI) simp_all
    let ?u = "parseChannelData buf t"
    have "map (\<lambda>i. parse_channel (dc_eeprom (mc_fChannelSetting s ! i)) (buf ! (i * 6 + 1), buf ! (i * 6 + 2))) [0..<4]
        = map (parse_channel False) (outs d)"
      by (rule m) (use f p(1) l in simp_all)
    moreover have "map (\<lambda>i. parse_channel True (buf ! (i * 6 + 4), buf ! (i * 6 + 5))) [0..<4] = map (parse_channel True) (eeps d)"
      by (rule m) (use p(2) l in simp_all)
    ultimately have u: "mc_fChannelSetting ?u = map (parse_channel False) (outs d)"
      "mc_fChannelSettingEep ?u = map (parse_channel True) (eeps d)" "\<not> mc_fBusy ?u" "iv_bus ?u = d'" "ready ?u"
      "iv_address ?u = address"
      using b(2) t(2-4) unfolding parseChannelData_def t(5) by (simp_all add: ready_def)
    obtain now' d2 where c': "clk d' = (now', d2)" by fastforce
    from clk [of d'] have d2: "outs d2 = outs d'" "eeps d2 = eeps d'" "\<not> busy d2" using b by (simp_all add: c')
    show thesis
      using False t u c c' d d' d2
      by (intro that [of "?u\<lparr>iv_bus := d2, mc_fLastRegisterUpdate := now'\<rparr>"])
        (simp_all add: readRegisters_def in_sync_def cached_def)
  qed
qed

lemma waitEepReady_ok:
  assumes "dac_chip bus address outs eeps busy" and "up_clock clk outs eeps busy" and "in_sync address outs eeps busy s"
  obtains t where "waitEepReady bus clk s = (True, t)" and "in_sync address outs eeps busy t" and "cached eeps t"
    and "outs (iv_bus t) = outs (iv_bus s)" and "eeps (iv_bus t) = eeps (iv_bus s)"
proof -
  obtain t where t: "readRegisters bus clk s = (True, t)" "in_sync address outs eeps busy t" "cached eeps t"
    "outs (iv_bus t) = outs (iv_bus s)" "eeps (iv_bus t) = eeps (iv_bus s)" by (rule readRegisters_cached [OF assms])
  then show thesis by (intro that [of t]) (simp_all add: waitEepReady_def wait_loop.simps cached_def)
qed

text \<open>A channel whose fields fit the register is what the chip has after it was written.\<close>

definition register_sized :: "DacChannel \<Rightarrow> bool" where
  "register_sized ch \<longleftrightarrow> unat (dc_pd ch) < 2 ^ 2 \<and> unat (dc_value ch) < 2 ^ 12"

lemma take_bit_self_less: "take_bit k w = w \<Longrightarrow> unat w < 2 ^ k"
  by (metis take_bit_nat_less_exp unsigned_take_bit_eq)

lemma parse_channel_sized: "register_sized (parse_channel e b)"
proof -
  obtain b1 b2 where b: "b = (b1, b2)" by fastforce
  have "drop_bit 5 (b1 AND 0x60) = take_bit 2 (drop_bit 5 b1)"
  proof (rule octet_bits)
    fix n :: nat assume "n < 8"
    from octet_index [OF this] show "bit (drop_bit 5 (b1 AND 0x60)) n = bit (take_bit 2 (drop_bit 5 b1)) n"
      by (elim disjE) (simp_all add: bit_simps)
  qed
  then have p: "unat (drop_bit 5 (b1 AND 0x60)) < 2 ^ 2" by (simp only: unsigned_take_bit_eq take_bit_nat_less_exp)
  have "unat (push_bit 8 (ucast (b1 AND 0x0f)) OR ucast (b2 AND 0xff) :: u16) < 2 ^ 12"
  proof -
    let ?w = "push_bit 8 (ucast (b1 AND 0x0f)) OR ucast (b2 AND 0xff) :: u16"
    have "?w = take_bit 12 ?w"
    proof (rule bit_word_eqI)
      fix n assume "n < LENGTH(16)"
      moreover have "\<not> bit (0x0f :: byte) (n - 8)" if "12 \<le> n"
        using bit_mask_iff [of 4 "n - 8", where ?'a = byte] less_diff_conv2 [of 8 n 4] that by (simp add: mask_eq_exp_minus_1)
      ultimately have "\<not> bit ?w n" if "12 \<le> n" using that by (simp add: bit_simps)
      then show "bit ?w n = bit (take_bit 12 ?w) n" unfolding bit_take_bit_iff by (cases "n < 12") simp_all
    qed
    then show ?thesis by (rule take_bit_self_less [OF sym])
  qed
  then show ?thesis using p by (simp add: register_sized_def b parse_channel_def)
qed

lemma writeChannel_output:
  assumes "dac_chip bus address outs eeps busy" and "up_clock clk outs eeps busy" and "in_sync address outs eeps busy s"
    and "unat ch < 4" and "register_sized c" and "\<not> dc_eeprom c"
  obtains t where "writeChannel bus clk ch c s = (True, t)" and "in_sync address outs eeps busy t"
    and "map (parse_channel False) (outs (iv_bus t)) = (map (parse_channel False) (outs (iv_bus s)))[unat ch := c]"
    and "eeps (iv_bus t) = eeps (iv_bus s)"
proof -
  obtain w where w: "waitEepReady bus clk s = (True, w)" "in_sync address outs eeps busy w"
    "outs (iv_bus w) = outs (iv_bus s)" "eeps (iv_bus w) = eeps (iv_bus s)" by (rule waitEepReady_ok [OF assms(1-3)])
  obtain b1 b2 where b: "channel_octets c = (b1, b2)" by fastforce
  have sync: "ready w" "iv_address w = address" "\<not> busy (iv_bus w)"
    "mc_fChannelSetting w = map (parse_channel False) (outs (iv_bus w))" using w(2) by (simp_all add: in_sync_def)
  have a: "ch AND 3 = ch"
  proof -
    have "take_bit 2 ch = ch" by (rule word_unat_eq_iff [THEN iffD2]) (use assms(4) in \<open>simp add: unsigned_take_bit_eq take_bit_nat_eq_self\<close>)
    then show ?thesis by (simp add: take_bit_eq_mask mask_eq_exp_minus_1)
  qed
  have len: "length (outs d) = 4" for d using assms(1) unfolding dac_chip_def by blast
  have "\<exists>d'. sys_write bus address [0x40 OR push_bit 1 (word_of_nat (unat ch)), b1, b2] (iv_bus w) = (3, d')
      \<and> outs d' = (outs (iv_bus w))[unat ch := (b1, b2)] \<and> eeps d' = eeps (iv_bus w) \<and> \<not> busy d'"
    using assms(1,4) sync(3) unfolding dac_chip_def by blast
  then obtain d' where d': "sys_write bus address [0x40 OR push_bit 1 ch, b1, b2] (iv_bus w) = (3, d')"
    "outs d' = (outs (iv_bus w))[unat ch := (b1, b2)]" "eeps d' = eeps (iv_bus w)" "\<not> busy d'" by auto
  obtain t where t: "i2c_write bus [0x40 OR push_bit 1 ch, b1, b2] w = (3, t)" "ready t" "iv_address t = iv_address w"
    "iv_bus t = d'" "mc_fChannelSetting t = mc_fChannelSetting w"
    using i2c_write_ok [of w bus "[0x40 OR push_bit 1 ch, b1, b2]" 3 d'] sync d'(1) by metis
  have v: "\<not> 0xfff < dc_value c" using assms(5) by (simp add: register_sized_def word_less_nat_alt)
  have pc: "parse_channel False (b1, b2) = c"
    using parse_channel_octets [of c False] assms(5,6) by (cases c) (simp add: register_sized_def flip: b)
  have m: "map (parse_channel False) (outs d') = (map (parse_channel False) (outs (iv_bus s)))[unat ch := c]"
    by (simp add: d'(2) map_update w(3) pc)
  have "writeChannel bus clk ch c s = (True, t\<lparr>mc_fChannelSetting := (mc_fChannelSetting t)[unat ch := c], mc_fLastRegisterUpdate := 0\<rparr>)"
    using v w(1) a t(1) assms(6) by (simp add: writeChannel_def b DAC_MULTI_WRITE_def)
  then show thesis
    by (rule that) (use t sync d' m w in \<open>simp_all add: in_sync_def\<close>)
qed

section \<open>What the operations do to the chip\<close>

definition dac_settings :: "('d \<Rightarrow> (byte \<times> byte) list) \<Rightarrow> bool \<Rightarrow> ('d, 'x) mcp4728_scheme \<Rightarrow> DacChannel list" where
  "dac_settings regs eep s = map (parse_channel eep) (regs (iv_bus s))"

lemma voltage_code_sized: "voltage_code r v = Some (c, g) \<Longrightarrow> \<not> 0xfff < c \<and> unat c < 2 ^ 12"
proof -
  assume "voltage_code r v = Some (c, g)"
  then have "\<not> 0xfff < c" by (auto simp: voltage_code_def Let_def split: if_splits)
  then show ?thesis by (simp add: word_less_nat_alt)
qed

lemma in_syncD:
  assumes "in_sync address outs eeps busy s"
  shows "ready s" "iv_address s = address" "\<not> busy (iv_bus s)" "mc_fChannelSetting s = dac_settings outs False s"
  using assms by (simp_all add: in_sync_def dac_settings_def)

lemma setVoltage_chip:
  assumes "dac_chip bus address outs eeps busy" and "up_clock clk outs eeps busy" and "in_sync address outs eeps busy s"
    and "0 \<le> v" and "ch \<le> 3" and "voltage_code (dc_vref (dac_settings outs False s ! unat ch)) v = Some (c, g)"
  obtains t where "setVoltage bus clk ch v s = (True, t)" and "in_sync address outs eeps busy t"
    and "dac_settings outs False t = (dac_settings outs False s)[unat ch := (dac_settings outs False s ! unat ch)\<lparr>dc_value := c, dc_gain := g\<rparr>]"
    and "dac_settings eeps True t = dac_settings eeps True s"
proof -
  let ?ch = "ucast ch :: u8"
  have n: "unat ch < 4" using assms(5) by (simp add: word_le_nat_alt)
  then have u: "unat ?ch = unat ch" by (simp add: unsigned_ucast_eq take_bit_nat_eq_self)
  have r: "\<not> 3 < ch" "\<not> 3 < ?ch" using n u assms(5) by (simp_all add: word_less_nat_alt)
  note sync = in_syncD [OF assms(3)]
  have len: "length (outs d) = 4" for d using assms(1) unfolding dac_chip_def by blast
  obtain b where b: "dac_settings outs False s ! unat ch = parse_channel False b"
    using n len by (simp add: dac_settings_def)
  let ?c = "(parse_channel False b)\<lparr>dc_value := c, dc_gain := g\<rparr>"
  note c = voltage_code_sized [OF assms(6)]
  have "register_sized ?c" "\<not> dc_eeprom ?c"
    using c parse_channel_sized [of False b] by (auto simp: register_sized_def parse_channel_def split: prod.split)
  then obtain t where t: "writeChannel bus clk ?ch ?c s = (True, t)" "in_sync address outs eeps busy t"
    "map (parse_channel False) (outs (iv_bus t)) = (map (parse_channel False) (outs (iv_bus s)))[unat ?ch := ?c]"
    "eeps (iv_bus t) = eeps (iv_bus s)" using writeChannel_output [OF assms(1-3), of ?ch ?c] n u by metis
  have "setVoltage bus clk ch v s = (True, t)"
    using assms(4,6) r c t(1)
    by (simp add: setVoltage_def setVoltage_to_def setValue_def sync(4) u b not_less)
  then show thesis using t by (intro that [of t]) (simp_all add: dac_settings_def u b [unfolded dac_settings_def])
qed

lemma storeSettings_chip:
  assumes "dac_chip bus address outs eeps busy" and "up_clock clk outs eeps busy" and "in_sync address outs eeps busy s"
  obtains t where "storeSettings bus clk s = (True, t)" and "dac_settings outs False t = dac_settings outs False s"
    and "eeps (iv_bus t) = outs (iv_bus s)" and "busy (iv_bus t) \<or> in_sync address outs eeps busy t"
proof -
  obtain w where w: "waitEepReady bus clk s = (True, w)" "in_sync address outs eeps busy w"
    "outs (iv_bus w) = outs (iv_bus s)" by (rule waitEepReady_ok [OF assms])
  note sync = in_syncD [OF w(2)]
  let ?buf = "0x50 # concat (map (\<lambda>(b1, b2). [b1, b2]) (outs (iv_bus w)))"
  have len: "length (outs d) = 4" for d using assms(1) unfolding dac_chip_def by blast
  have "(\<lambda>ch. let (b1, b2) = channel_octets ch in [b1, b2]) \<circ> parse_channel False = (\<lambda>(b1, b2). [b1, b2])"
    by (rule ext) (simp add: channel_octets_parse split: prod.split)
  then have buf: "concat (map (\<lambda>ch. let (b1, b2) = channel_octets ch in [b1, b2]) (mc_fChannelSetting w))
      = concat (map (\<lambda>(b1, b2). [b1, b2]) (outs (iv_bus w)))"
    by (simp only: sync(4) dac_settings_def map_map)
  have "\<exists>d'. sys_write bus address ?buf (iv_bus w) = (9, d') \<and> outs d' = outs (iv_bus w) \<and> eeps d' = outs (iv_bus w)"
    using assms(1) sync(3) len [of "iv_bus w"] unfolding dac_chip_def by blast
  then obtain d' where d': "sys_write bus address ?buf (iv_bus w) = (9, d')" "outs d' = outs (iv_bus w)"
    "eeps d' = outs (iv_bus w)" by blast
  obtain t where t: "i2c_write bus ?buf w = (9, t)" "ready t" "iv_address t = iv_address w" "iv_bus t = d'"
    "mc_fChannelSetting t = mc_fChannelSetting w"
    using i2c_write_ok [of w bus ?buf 9 d'] sync d'(1) by metis
  have "storeSettings bus clk s = (True, t\<lparr>mc_fLastRegisterUpdate := 0\<rparr>)"
    using w(1) t(1) buf by (simp add: storeSettings_def DAC_EEP_SEQ_WRITE_def)
  then show thesis
    by (rule that) (use t sync d' w(3) in \<open>simp_all add: in_sync_def dac_settings_def\<close>)
qed

text \<open>
  C30: The DAC. While the object and the chip agree, its operations are these on an abstract DAC of four settings
  and four stored ones, whatever the age of the cache: \<open>setVoltage\<close> changes exactly the code and the gain of its
  channel, to what \<open>voltage_code\<close> has for its reference, or fails and changes nothing where there is no code, the
  voltage is negative or there is no such channel; \<open>storeSettings\<close> stores all settings; and \<open>readChannel\<close> gives
  the setting. The operations start with a chip that is not busy with storing; all keep object and chip in
  agreement, where after \<open>storeSettings\<close> the chip may still be busy.
\<close>

theorem dac_refinement:
  assumes "dac_chip bus address outs eeps busy" and "up_clock clk outs eeps busy" and "in_sync address outs eeps busy s"
  shows "(case if v < 0 \<or> 3 < ch then None else voltage_code (dc_vref (dac_settings outs False s ! unat ch)) v of
        None \<Rightarrow> setVoltage bus clk ch v s = (False, s)
      | Some (c, g) \<Rightarrow> \<exists>t. setVoltage bus clk ch v s = (True, t) \<and> in_sync address outs eeps busy t
          \<and> dac_settings outs False t
            = (dac_settings outs False s)[unat ch := (dac_settings outs False s ! unat ch)\<lparr>dc_value := c, dc_gain := g\<rparr>]
          \<and> dac_settings eeps True t = dac_settings eeps True s)
    \<and> (\<exists>t. storeSettings bus clk s = (True, t) \<and> dac_settings outs False t = dac_settings outs False s
        \<and> dac_settings eeps True t = dac_settings outs True s \<and> (busy (iv_bus t) \<or> in_sync address outs eeps busy t))
    \<and> (k < 4 \<longrightarrow> (\<exists>t. readChannel bus clk k \<lparr>dc_pd = 0, dc_gain = GAIN1, dc_vref = VREF_2V, dc_eeprom = e, dc_value = 0\<rparr> s
          = (True, (if e then dac_settings eeps True s else dac_settings outs False s) ! unat k, t)
        \<and> in_sync address outs eeps busy t \<and> dac_settings outs False t = dac_settings outs False s
        \<and> dac_settings eeps True t = dac_settings eeps True s))"
proof (intro conjI impI)
  note sync = in_syncD [OF assms(3)]
  show "case if v < 0 \<or> 3 < ch then None else voltage_code (dc_vref (dac_settings outs False s ! unat ch)) v of
        None \<Rightarrow> setVoltage bus clk ch v s = (False, s)
      | Some (c, g) \<Rightarrow> \<exists>t. setVoltage bus clk ch v s = (True, t) \<and> in_sync address outs eeps busy t
          \<and> dac_settings outs False t
            = (dac_settings outs False s)[unat ch := (dac_settings outs False s ! unat ch)\<lparr>dc_value := c, dc_gain := g\<rparr>]
          \<and> dac_settings eeps True t = dac_settings eeps True s"
  proof (cases "v < 0 \<or> 3 < ch")
    case True
    then show ?thesis by (simp add: setVoltage_def)
  next
    case False
    then have u: "unat (ucast ch :: u8) = unat ch"
      by (simp add: unsigned_ucast_eq take_bit_nat_eq_self word_less_nat_alt)
    have r: "\<not> 3 < (ucast ch :: u8)" using False u by (simp add: word_less_nat_alt)
    show ?thesis
    proof (cases "voltage_code (dc_vref (dac_settings outs False s ! unat ch)) v")
      case None
      then show ?thesis using False r by (simp add: setVoltage_def setVoltage_to_def sync(4) u)
    next
      case (Some cg)
      obtain c g where cg: "cg = (c, g)" by fastforce
      have "0 \<le> v" "ch \<le> 3" "voltage_code (dc_vref (dac_settings outs False s ! unat ch)) v = Some (c, g)"
        using False Some cg by (simp_all add: not_less)
      then obtain t where t: "setVoltage bus clk ch v s = (True, t)" "in_sync address outs eeps busy t"
        "dac_settings outs False t
          = (dac_settings outs False s)[unat ch := (dac_settings outs False s ! unat ch)\<lparr>dc_value := c, dc_gain := g\<rparr>]"
        "dac_settings eeps True t = dac_settings eeps True s" by (rule setVoltage_chip [OF assms])
      show ?thesis unfolding if_not_P [OF False] Some cg option.case prod.case by (intro exI [of _ t] conjI t)
    qed
  qed
  show "\<exists>t. storeSettings bus clk s = (True, t) \<and> dac_settings outs False t = dac_settings outs False s
        \<and> dac_settings eeps True t = dac_settings outs True s \<and> (busy (iv_bus t) \<or> in_sync address outs eeps busy t)"
    by (rule storeSettings_chip [OF assms]) (auto simp: dac_settings_def)
  assume "k < 4"
  obtain t where t: "readRegisters bus clk s = (True, t)" "in_sync address outs eeps busy t" "cached eeps t"
    "outs (iv_bus t) = outs (iv_bus s)" "eeps (iv_bus t) = eeps (iv_bus s)" by (rule readRegisters_cached [OF assms])
  have "\<not> 3 < k" using \<open>k < 4\<close> by (simp add: word_less_nat_alt)
  then show "\<exists>t. readChannel bus clk k \<lparr>dc_pd = 0, dc_gain = GAIN1, dc_vref = VREF_2V, dc_eeprom = e, dc_value = 0\<rparr> s
          = (True, (if e then dac_settings eeps True s else dac_settings outs False s) ! unat k, t)
        \<and> in_sync address outs eeps busy t \<and> dac_settings outs False t = dac_settings outs False s
        \<and> dac_settings eeps True t = dac_settings eeps True s"
    using t in_syncD(4) [OF t(2)] by (intro exI [of _ t]) (simp add: readChannel_def dac_settings_def cached_def)
qed

text \<open>A chip: its state is the registers, filled up to four, and it is never busy.\<close>

definition four :: "(byte \<times> byte) list \<Rightarrow> (byte \<times> byte) list" where
  "four ps = take 4 (ps @ replicate 4 (0, 0))"

definition dac_bus :: "((byte \<times> byte) list \<times> (byte \<times> byte) list) i2c_bus" where
  "dac_bus = \<lparr>sys_read = \<lambda>_ n d. (int n, concat (map2 (\<lambda>(o1, o2) (e1, e2). [0xc0, o1, o2, 0x80, e1, e2]) (four (fst d)) (four (snd d))), d),
     sys_write = \<lambda>_ buf d.
       (case buf of
          [c, b1, b2] \<Rightarrow> (3, (four (fst d))[unat (drop_bit 1 (c AND 6)) := (b1, b2)], four (snd d))
        | [_, a1, a2, b1, b2, c1, c2, d1, d2] \<Rightarrow>
            (9, [(a1, a2), (b1, b2), (c1, c2), (d1, d2)], [(a1, a2), (b1, b2), (c1, c2), (d1, d2)])
        | _ \<Rightarrow> (int (length buf), d)),
     sys_rdwr = \<lambda>_ buf n d. (None, d), sys_slave = \<lambda>_ _ d. (True, d)\<rparr>"

lemma four_simps [simp]: "length (four ps) = 4" "length ps = 4 \<Longrightarrow> four ps = ps"
  by (simp_all add: four_def)

lemma list4: "length ps = 4 \<Longrightarrow> \<exists>a b c d. ps = [a, b, c, d]"
  by (auto simp: numeral_eq_Suc length_Suc_conv)

lemma dac_bus_chip: "dac_chip dac_bus address (\<lambda>d. four (fst d)) (\<lambda>d. four (snd d)) (\<lambda>_. False)"
proof -
  have w: "\<exists>d'. sys_write dac_bus address [0x40 OR push_bit 1 (word_of_nat ch), b1, b2] d = (3, d')
      \<and> four (fst d') = (four (fst d))[ch := (b1, b2)] \<and> four (snd d') = four (snd d) \<and> \<not> False" if "ch < 4" for d ch b1 b2
  proof -
    have "ch = 0 \<or> ch = 1 \<or> ch = 2 \<or> ch = 3" using that by arith
    then have "unat (drop_bit 1 ((0x40 OR push_bit 1 (word_of_nat ch)) AND 6) :: byte) = ch" by (elim disjE) simp_all
    then show ?thesis by (simp add: dac_bus_def)
  qed
  have q: "\<exists>d'. sys_write dac_bus address (0x50 # concat (map (\<lambda>(b1, b2). [b1, b2]) ps)) d = (9, d')
      \<and> four (fst d') = ps \<and> four (snd d') = ps" if "length ps = 4" for d ps
    using list4 [OF that] by (auto simp: dac_bus_def)
  have r: "\<exists>buf d'. sys_read dac_bus address 24 d = (24, buf, d') \<and> four (fst d') = four (fst d) \<and> four (snd d') = four (snd d)
      \<and> (\<not> False \<longrightarrow> \<not> False \<and> buf ! 21 AND 0x80 \<noteq> 0)
      \<and> (\<forall>i<4. (buf ! (i * 6 + 1), buf ! (i * 6 + 2)) = four (fst d) ! i \<and> (buf ! (i * 6 + 4), buf ! (i * 6 + 5)) = four (snd d) ! i)" for d
  proof -
    obtain o1 o2 o3 o4 e1 e2 e3 e4 where "four (fst d) = [o1, o2, o3, o4]" "four (snd d) = [e1, e2, e3, e4]"
      using list4 [of "four (fst d)"] list4 [of "four (snd d)"] by auto
    moreover have "(\<forall>i<4. P i) \<longleftrightarrow> P 0 \<and> P 1 \<and> P 2 \<and> P 3" for P :: "nat \<Rightarrow> bool"
      by (simp add: numeral_eq_Suc All_less_Suc) blast
    ultimately show ?thesis by (cases o1; cases o2; cases o3; cases o4; cases e1; cases e2; cases e3; cases e4)
        (simp add: dac_bus_def)
  qed
  show ?thesis unfolding dac_chip_def using w q r by (intro conjI allI impI) simp_all
qed

section \<open>How exact the voltages are\<close>

lemma float_error: "\<bar>x\<bar> < pow2 k \<Longrightarrow> \<bar>float x - x\<bar> \<le> pow2 (k - 24) / 2"
  using rnd_error [of x k 24] by (simp add: float_def)

lemma double_error: "\<bar>x\<bar> < pow2 k \<Longrightarrow> \<bar>double x - x\<bar> \<le> pow2 (k - 53) / 2"
  using rnd_error [of x k 53] by (simp add: double_def)

lemma pow2_values: "pow2 2 = 4" "pow2 3 = 8" "pow2 14 = 16384" "pow2 15 = 32768" "pow2 16 = 65536" "pow2 17 = 131072" "pow2 (- 7) = 1 / 128"
  "pow2 (- 22) = 1 / 4194304" "pow2 (- 21) = 1 / 2097152" "pow2 (- 10) = 1 / 1024" "pow2 (- 9) = 1 / 512" "pow2 (- 8) = 1 / 256"
  "pow2 (- 51) \<le> 1 / 4194304" "pow2 (- 50) \<le> 1 / 2097152"
  by (simp_all add: pow2_def)

text \<open>A small number that passes through \<open>double\<close> to \<open>float\<close>.\<close>

lemma float_double_error: "\<bar>x\<bar> \<le> 7 \<Longrightarrow> \<bar>float (double x) - x\<bar> \<le> 1 / 2000000"
proof -
  assume x: "\<bar>x\<bar> \<le> 7"
  have d: "\<bar>double x - x\<bar> \<le> 1 / 4194304"
    using double_error [of x 3] x pow2_values by simp
  then have "\<bar>double x\<bar> < pow2 3" using x unfolding pow2_values by linarith
  from float_error [OF this] have "\<bar>float (double x) - double x\<bar> \<le> 1 / 4194304" by (simp add: pow2_values)
  then show ?thesis using d by linarith
qed

lemma vref_bounds:
  "\<bar>float (double (2048 / 1000)) - 2048 / 1000\<bar> \<le> 1 / 2000000" "\<bar>fVddRefVoltage - 33 / 10\<bar> \<le> 1 / 2000000"
  unfolding fVddRefVoltage_def by (rule float_double_error; simp)+

lemma code_voltage_error:
  assumes "0 \<le> V" and "V \<le> 331 / 100" and "c \<le> (4095 :: nat)"
  shows "\<bar>float (double (float (V * of_nat c) / 4096)) - V * of_nat c / 4096\<bar> \<le> 1 / 1000000"
proof -
  have c: "(of_nat c :: rat) \<le> 4095" using assms(3) by (metis of_nat_le_iff of_nat_numeral)
  have "V * of_nat c \<le> 331 / 100 * 4095" by (rule mult_mono) (use assms c in simp_all)
  moreover have "0 \<le> V * of_nat c" using assms(1) by simp
  ultimately have b: "\<bar>V * of_nat c\<bar> < pow2 14" "V * of_nat c \<le> 13555" by (simp_all add: pow2_values)
  from float_error [OF b(1)] have f: "\<bar>float (V * of_nat c) - V * of_nat c\<bar> \<le> 1 / 2048" by (simp add: pow2_values)
  then have "\<bar>float (V * of_nat c) / 4096\<bar> \<le> 7" unfolding abs_divide using b(2) \<open>0 \<le> V * of_nat c\<close> by linarith
  from float_double_error [OF this] f show ?thesis by linarith
qed

lemma lround_float:
  assumes "0 \<le> x" and "x < 131072"
  shows "\<bar>of_int (lround (float x)) - x\<bar> \<le> 129 / 256" and "0 \<le> lround (float x)"
proof -
  have f: "\<bar>float x - x\<bar> \<le> 1 / 256" "0 \<le> float x"
    using float_error [of x 17] rnd_nonneg [of x 24] assms by (simp_all add: pow2_values float_def)
  have "float x < 140000" using f(1) assms(2) by linarith
  then have "float x < 2 ^ 62" by simp
  note l = lround_error [OF f(2) this]
  show "\<bar>of_int (lround (float x)) - x\<bar> \<le> 129 / 256" using l(1) f(1) by linarith
  show "0 \<le> lround (float x)" by (rule l(2))
qed

lemma u16_mod: "unat (word_of_nat n :: u16) = n mod 65536"
  by (simp add: unat_of_nat take_bit_eq_mod)

text \<open>The code for a voltage, with the wrap-around of the 16 bits \<open>value\<close> has.\<close>

lemma voltage_code_2V:
  assumes "0 \<le> v" and "v < 65"
  obtains n where "voltage_code VREF_2V v = (if n mod 65536 \<le> 4095 then Some (word_of_nat (n mod 65536), GAIN1)
      else if n mod 65536 \<le> 8191 then Some (word_of_nat (n mod 65536 div 2), GAIN2) else None)"
    and "\<bar>of_nat n - v * 2000\<bar> \<le> 129 / 256"
proof -
  define n where "n = nat (lround (float (v * 2000)))"
  have "0 \<le> v * 2000" "v * 2000 < 131072" using assms by simp_all
  note l = lround_float [OF this]
  have n: "(word_of_int (lround (float (v * 2000))) :: u16) = word_of_nat n" using l(2) by (simp add: n_def)
  have h: "unat (drop_bit 1 (word_of_nat n :: u16)) = n mod 65536 div 2"
    unfolding drop_bit_eq_div by (simp add: unat_div u16_mod)
  then have d: "drop_bit 1 (word_of_nat n :: u16) = word_of_nat (n mod 65536 div 2)" by (metis h of_nat_unat ucast_id)
  have m: "(word_of_nat n :: u16) = word_of_nat (n mod 65536)" by (metis u16_mod of_nat_unat ucast_id)
  have g: "(0xfff < (word_of_nat n :: u16)) = (\<not> n mod 65536 \<le> 4095)" by (simp add: word_less_nat_alt u16_mod not_le)
  have k: "(0xfff < drop_bit 1 (word_of_nat n :: u16)) = (\<not> n mod 65536 \<le> 8191)"
    unfolding word_less_nat_alt h by simp linarith
  have "voltage_code VREF_2V v = (if \<not> 0xfff < (word_of_nat n :: u16) then Some (word_of_nat n, GAIN1)
      else if \<not> 0xfff < drop_bit 1 (word_of_nat n :: u16) then Some (drop_bit 1 (word_of_nat n), GAIN2) else None)"
    by (simp add: voltage_code_def n Let_def)
  then have "voltage_code VREF_2V v = (if n mod 65536 \<le> 4095 then Some (word_of_nat (n mod 65536), GAIN1)
      else if n mod 65536 \<le> 8191 then Some (word_of_nat (n mod 65536 div 2), GAIN2) else None)"
    unfolding g k [unfolded d] d not_not m [symmetric] .
  moreover have "\<bar>of_nat n - v * 2000\<bar> \<le> 129 / 256" using l(1,2) by (simp add: n_def)
  ultimately show thesis by (rule that)
qed

lemma voltage_code_VDD:
  assumes "0 \<le> v" and "v < 16"
  obtains n where "voltage_code VREF_VDD v = (if n \<le> 4095 then Some (word_of_nat n, GAIN1) else None)"
    and "\<bar>of_nat n - v * 4096 / fVddRefVoltage\<bar> \<le> 130 / 256"
proof -
  note r = vref_bounds(2)
  have V: "329 / 100 \<le> fVddRefVoltage" "fVddRefVoltage \<le> 331 / 100" using r by linarith+
  have x: "\<bar>v * 4096\<bar> < pow2 16" using assms by (simp add: pow2_values)
  from float_error [OF x] have f: "\<bar>float (v * 4096) - v * 4096\<bar> \<le> 1 / 512" by (simp add: pow2_values)
  have f0: "0 \<le> float (v * 4096)" using assms(1) by (simp add: float_def rnd_nonneg)
  let ?q = "float (v * 4096) / fVddRefVoltage"
  have q0: "0 \<le> ?q" using f0 V(1) by simp
  have "float (v * 4096) < 65537" using f assms(2) by linarith
  then have "?q < 32768" using V(1) by (simp add: pos_divide_less_eq)
  then have "?q < 131072" by linarith
  note l = lround_float [OF q0 this]
  have e: "\<bar>?q - v * 4096 / fVddRefVoltage\<bar> \<le> 1 / 512"
  proof -
    have "\<bar>?q - v * 4096 / fVddRefVoltage\<bar> = \<bar>float (v * 4096) - v * 4096\<bar> / fVddRefVoltage"
      using V(1) by (simp add: abs_divide flip: diff_divide_distrib)
    also have "\<dots> \<le> (1 / 512) / 1" by (rule frac_le) (use f V in simp_all)
    finally show ?thesis by simp
  qed
  define n where "n = nat (lround (float ?q))"
  have n: "(word_of_int (lround (float ?q)) :: u16) = word_of_nat n" using l(2) by (simp add: n_def)
  have "of_int (lround (float ?q)) < (65536 :: rat)" using l(1) \<open>?q < 32768\<close> by linarith
  then have "n < 65536" by (simp add: n_def nat_less_iff)
  then have u: "unat (word_of_nat n :: u16) = n" by (simp add: u16_mod)
  have "(0xfff < (word_of_nat n :: u16)) = (\<not> n \<le> 4095)" by (simp add: word_less_nat_alt u not_le)
  then have "voltage_code VREF_VDD v = (if n \<le> 4095 then Some (word_of_nat n, GAIN1) else None)"
    by (simp add: voltage_code_def n Let_def)
  moreover have "\<bar>of_nat n - ?q\<bar> \<le> 129 / 256" using l(1,2) by (simp add: n_def)
  then have "\<bar>of_nat n - v * 4096 / fVddRefVoltage\<bar> \<le> 130 / 256" using e by linarith
  ultimately show thesis by (rule that)
qed

lemma small_value: "m \<le> 4095 \<Longrightarrow> unat (word_of_nat m :: u16) = m"
  by (simp add: u16_mod)

lemma code2voltage_2V:
  assumes "dc_vref ch = VREF_2V" and "m \<le> 4095"
  shows "\<bar>code2voltage (ch\<lparr>dc_value := word_of_nat m, dc_gain := g\<rparr>) - of_nat m / (if g = GAIN1 then 2000 else 1000)\<bar>
    \<le> 4 / 1000000"
proof -
  define V where "V = float (double (2048 / 1000))"
  note r = vref_bounds(1) [folded V_def]
  have V: "0 \<le> V" "V \<le> 331 / 100" using r by linarith+
  define y where "y = float (double (float (V * of_nat m) / 4096))"
  have m: "(of_nat m :: rat) \<le> 4095" using assms(2) by (metis of_nat_le_iff of_nat_numeral)
  have "V * of_nat m / 4096 - of_nat m / 2000 = (V - 2048 / 1000) * (of_nat m / 4096)"
    by (simp add: left_diff_distrib)
  then have "\<bar>V * of_nat m / 4096 - of_nat m / 2000\<bar> = \<bar>V - 2048 / 1000\<bar> * (of_nat m / 4096)"
    by (simp only: abs_mult abs_divide abs_of_nat abs_numeral)
  also have "\<dots> \<le> 1 / 2000000 * 1" using r m by (intro mult_mono) simp_all
  finally have y: "\<bar>y - of_nat m / 2000\<bar> \<le> 15 / 10000000"
    using code_voltage_error [OF V assms(2), folded y_def] by linarith
  have c: "code2voltage (ch\<lparr>dc_value := word_of_nat m, dc_gain := g\<rparr>) = (if g = GAIN2 then float (double (y * 2)) else y)"
    using assms by (simp add: code2voltage_def Let_def small_value y_def V_def)
  show ?thesis
  proof (cases g)
    case GAIN1
    then show ?thesis unfolding c using y by simp
  next
    case GAIN2
    have "\<bar>y * 2\<bar> \<le> 7" using y m by linarith
    from float_double_error [OF this] have "\<bar>float (double (y * 2)) - of_nat m / 1000\<bar> \<le> 4 / 1000000" using y by linarith
    then show ?thesis unfolding c using GAIN2 by simp
  qed
qed

lemma code2voltage_VDD:
  assumes "dc_vref ch = VREF_VDD" and "m \<le> 4095"
  shows "\<bar>code2voltage (ch\<lparr>dc_value := word_of_nat m, dc_gain := g\<rparr>) - fVddRefVoltage * of_nat m / 4096\<bar> \<le> 1 / 1000000"
proof -
  have V: "0 \<le> fVddRefVoltage" "fVddRefVoltage \<le> 331 / 100" using vref_bounds(2) by linarith+
  show ?thesis using code_voltage_error [OF V assms(2)] assms by (simp add: code2voltage_def Let_def small_value)
qed

lemma code_2V_accuracy:
  assumes "dc_vref ch = VREF_2V" and "\<bar>of_nat k - u * 2000\<bar> \<le> 129 / 256"
  shows "k \<le> 4095 \<Longrightarrow> \<bar>code2voltage (ch\<lparr>dc_value := word_of_nat k, dc_gain := GAIN1\<rparr>) - u\<bar> \<le> 26 / 100000"
    and "k \<le> 8191 \<Longrightarrow> \<bar>code2voltage (ch\<lparr>dc_value := word_of_nat (k div 2), dc_gain := GAIN2\<rparr>) - u\<bar> \<le> 76 / 100000"
proof -
  assume k: "k \<le> 4095"
  from code2voltage_2V [OF assms(1) k, of GAIN1] assms(2)
  show "\<bar>code2voltage (ch\<lparr>dc_value := word_of_nat k, dc_gain := GAIN1\<rparr>) - u\<bar> \<le> 26 / 100000"
    unfolding simp_thms if_True by linarith
next
  assume "k \<le> 8191"
  then have k: "k div 2 \<le> 4095" by linarith
  have "k = 2 * (k div 2) \<or> k = 2 * (k div 2) + 1" by linarith
  then have "of_nat k = 2 * (of_nat (k div 2) :: rat) \<or> of_nat k = 2 * (of_nat (k div 2) :: rat) + 1"
    by (metis of_nat_1 of_nat_add of_nat_mult of_nat_numeral)
  then show "\<bar>code2voltage (ch\<lparr>dc_value := word_of_nat (k div 2), dc_gain := GAIN2\<rparr>) - u\<bar> \<le> 76 / 100000"
    using code2voltage_2V [OF assms(1) k, of GAIN2] assms(2) by (simp only: CFG_GAIN.distinct if_False)
qed

text \<open>
  C27: How exact \<open>setVoltage\<close> is. For a voltage below 16 V the code it takes stands for a voltage at most 0.26 mV away
  (0.76 mV where the gain is doubled, 0.42 mV with the supply as reference), and there is no code exactly when the
  voltage is beyond the range, about 4.09575 V, or 3.2996 V with the supply. But with the internal reference the code is
  rounded into 16 bits before it is compared with the range: from 32.7685 V to 36.86 V it is taken modulo 32.768 V, so a
  voltage far out of range is set instead of refused.
\<close>

theorem dac_voltage:
  assumes "0 \<le> v" and "v < 16" and "327685 / 10000 \<le> w" and "w \<le> 3686 / 100"
  shows "(case voltage_code (dc_vref ch) v of
      Some (c, g) \<Rightarrow> \<bar>code2voltage (ch\<lparr>dc_value := c, dc_gain := g\<rparr>) - v\<bar>
          \<le> (if dc_vref ch = VREF_VDD then 42 else if g = GAIN1 then 26 else 76) / 100000
        \<and> v < (if dc_vref ch = VREF_VDD then 32997 else 40958) / 10000
    | None \<Rightarrow> (if dc_vref ch = VREF_VDD then 32995 else 40957) / 10000 < v)
    \<and> (\<exists>c g. voltage_code VREF_2V w = Some (c, g)
        \<and> \<bar>code2voltage (ch\<lparr>dc_vref := VREF_2V, dc_value := c, dc_gain := g\<rparr>) - (w - 32768 / 1000)\<bar> \<le> 76 / 100000)"
proof
  show "case voltage_code (dc_vref ch) v of
      Some (c, g) \<Rightarrow> \<bar>code2voltage (ch\<lparr>dc_value := c, dc_gain := g\<rparr>) - v\<bar>
          \<le> (if dc_vref ch = VREF_VDD then 42 else if g = GAIN1 then 26 else 76) / 100000
        \<and> v < (if dc_vref ch = VREF_VDD then 32997 else 40958) / 10000
    | None \<Rightarrow> (if dc_vref ch = VREF_VDD then 32995 else 40957) / 10000 < v"
  proof (cases "dc_vref ch")
    case VREF_2V
    obtain n where n: "voltage_code VREF_2V v = (if n mod 65536 \<le> 4095 then Some (word_of_nat (n mod 65536), GAIN1)
        else if n mod 65536 \<le> 8191 then Some (word_of_nat (n mod 65536 div 2), GAIN2) else None)"
      "\<bar>of_nat n - v * 2000\<bar> \<le> 129 / 256"
      by (rule voltage_code_2V [of v]) (use assms in simp_all)
    have "of_nat n < (65536 :: rat)" using n(2) assms(2) by linarith
    then have m: "n mod 65536 = n" by (metis mod_less of_nat_less_iff of_nat_numeral)
    show ?thesis
    proof (cases "n \<le> 8191")
      case True
      then have "of_nat n \<le> (8191 :: rat)" by simp
      then have "v < 40958 / 10000" using n(2) by linarith
      moreover have "voltage_code VREF_2V v
          = Some (if n \<le> 4095 then (word_of_nat n, GAIN1) else (word_of_nat (n div 2), GAIN2))"
        using n(1) True by (simp only: m) simp
      ultimately show ?thesis using True code_2V_accuracy [OF VREF_2V n(2)]
        by (cases "n \<le> 4095") (simp_all only: VREF_2V option.case prod.case if_True if_False CFG_VREF.distinct CFG_GAIN.distinct refl)
    next
      case False
      then have "8192 \<le> n" by linarith
      then have "(8192 :: rat) \<le> of_nat n" by simp
      then have "40957 / 10000 < v" using n(2) by linarith
      then show ?thesis using n(1) VREF_2V False by (simp add: m)
    qed
  next
    case VREF_VDD
    obtain n where n: "voltage_code VREF_VDD v = (if n \<le> 4095 then Some (word_of_nat n, GAIN1) else None)"
      "\<bar>of_nat n - v * 4096 / fVddRefVoltage\<bar> \<le> 130 / 256"
      by (rule voltage_code_VDD [OF assms(1,2)])
    define p where "p = fVddRefVoltage * of_nat n"
    have V: "0 < fVddRefVoltage" "fVddRefVoltage \<le> 33 / 10 + 1 / 2000000" "33 / 10 - 1 / 2000000 \<le> fVddRefVoltage"
      "fVddRefVoltage / 4096 \<le> (331 / 100) / 4096" using vref_bounds(2) by linarith+
    have "\<bar>p / 4096 - v\<bar> = \<bar>of_nat n - v * 4096 / fVddRefVoltage\<bar> * (fVddRefVoltage / 4096)"
    proof -
      have "p / 4096 - v = (of_nat n - v * 4096 / fVddRefVoltage) * (fVddRefVoltage / 4096)"
        using V(1) by (simp add: p_def field_simps)
      then show ?thesis using V(1) by (simp only: abs_mult abs_divide abs_of_pos abs_numeral)
    qed
    also have "\<dots> \<le> 130 / 256 * ((331 / 100) / 4096)"
      by (rule mult_mono [OF n(2) V(4)]) (use V(1) in simp_all)
    also have "\<dots> \<le> 411 / 1000000" by simp
    finally have e: "\<bar>p / 4096 - v\<bar> \<le> 411 / 1000000" .
    show ?thesis
    proof (cases "n \<le> 4095")
      case True
      then have "of_nat n \<le> (4095 :: rat)" by simp
      then have "p \<le> (33 / 10 + 1 / 2000000) * 4095"
        unfolding p_def by (intro mult_mono V(2)) simp_all
      also have "\<dots> \<le> 135136 / 10" by simp
      finally have "v < 32997 / 10000" using e by linarith
      moreover have "\<bar>code2voltage (ch\<lparr>dc_value := word_of_nat n, dc_gain := GAIN1\<rparr>) - v\<bar> \<le> 42 / 100000"
        using code2voltage_VDD [OF VREF_VDD True, of GAIN1, folded p_def] e by linarith
      ultimately show ?thesis using n(1) VREF_VDD True by simp
    next
      case False
      then have "4096 \<le> n" by linarith
      then have "(4096 :: rat) \<le> of_nat n" by simp
      then have "(33 / 10 - 1 / 2000000) * 4096 \<le> p"
        unfolding p_def by (intro mult_mono V(3)) (use V(1) in simp_all)
      then have "135167 / 10 \<le> p" by simp
      then have "32995 / 10000 < v" using e by linarith
      then show ?thesis using n(1) VREF_VDD False by simp
    qed
  qed
  obtain n where n: "voltage_code VREF_2V w = (if n mod 65536 \<le> 4095 then Some (word_of_nat (n mod 65536), GAIN1)
      else if n mod 65536 \<le> 8191 then Some (word_of_nat (n mod 65536 div 2), GAIN2) else None)"
    "\<bar>of_nat n - w * 2000\<bar> \<le> 129 / 256"
    by (rule voltage_code_2V [of w]) (use assms in simp_all)
  have "(65536 :: rat) \<le> of_nat n" "of_nat n \<le> (73727 :: rat)" using n(2) assms(3,4) by linarith+
  then have b: "65536 \<le> n" "n \<le> 73727" by simp_all
  define k where "k = n - 65536"
  have k: "n mod 65536 = k" "k \<le> 8191" using b by (simp_all add: k_def mod_if)
  have "(of_nat k :: rat) = of_nat n - 65536" using b(1) by (simp add: k_def of_nat_diff)
  then have "\<bar>of_nat k - (w - 32768 / 1000) * 2000\<bar> \<le> 129 / 256" using n(2) by simp
  then have "k \<le> 4095 \<Longrightarrow> \<bar>code2voltage (ch\<lparr>dc_vref := VREF_2V, dc_value := word_of_nat k, dc_gain := GAIN1\<rparr>) - (w - 32768 / 1000)\<bar> \<le> 26 / 100000"
    "\<bar>code2voltage (ch\<lparr>dc_vref := VREF_2V, dc_value := word_of_nat (k div 2), dc_gain := GAIN2\<rparr>) - (w - 32768 / 1000)\<bar> \<le> 76 / 100000"
    using code_2V_accuracy [of "ch\<lparr>dc_vref := VREF_2V\<rparr>" k "w - 32768 / 1000"] k(2) by simp_all
  then show "\<exists>c g. voltage_code VREF_2V w = Some (c, g)
        \<and> \<bar>code2voltage (ch\<lparr>dc_vref := VREF_2V, dc_value := c, dc_gain := g\<rparr>) - (w - 32768 / 1000)\<bar> \<le> 76 / 100000"
    using n(1) k(2) unfolding k(1) by (cases "k \<le> 4095") force+
qed

theorem dac_voltage_witness:
  "\<exists>c g. voltage_code VREF_2V 33 = Some (c, g)
    \<and> \<bar>code2voltage (default_DacChannel\<lparr>dc_vref := VREF_2V, dc_value := c, dc_gain := g\<rparr>) - (33 - 32768 / 1000)\<bar> \<le> 76 / 100000"
  by (rule conjunct2 [OF dac_voltage [where v = "1 / 2" and w = 33]]) simp_all

definition dac_start :: "((byte \<times> byte) list \<times> (byte \<times> byte) list) mcp4728" where
  "dac_start = i2cDevice.extend (opened 0x60 (replicate 4 (0x80, 0), replicate 4 (0x80, 0)))
     \<lparr>mc_fChannelSetting = map (parse_channel False) (replicate 4 (0x80, 0)), mc_fChannelSettingEep = [],
      mc_fLastRegisterUpdate = 0, mc_fBusy = False\<rparr>"

lemma dac_start_sync: "in_sync 0x60 (\<lambda>d. four (fst d)) (\<lambda>d. four (snd d)) (\<lambda>_. False) dac_start"
  by (simp add: in_sync_def dac_start_def opened_def i2cDevice.defs ready_def MODE_NORMAL_def MODE_LOCKED_def)

lemma dac_start_clock: "up_clock (\<lambda>d. (10 ^ 9, d)) (\<lambda>d. four (fst d)) (\<lambda>d. four (snd d)) (\<lambda>_. False)"
  by (simp add: up_clock_def DataValidityTimeout_def)

theorem dac_refinement_witness:
  "\<exists>t. setVoltage dac_bus (\<lambda>d. (10 ^ 9, d)) 1 (1 / 2) dac_start = (True, t)
    \<and> map dc_value (dac_settings (\<lambda>d. four (fst d)) False t) = [0, 1000, 0, 0]"
proof -
  let ?o = "\<lambda>d :: (byte \<times> byte) list \<times> (byte \<times> byte) list. four (fst d)"
  have set: "dac_settings ?o False dac_start = replicate 4 (parse_channel False (0x80, 0))"
    by (simp add: dac_settings_def dac_start_def opened_def i2cDevice.defs)
  have "float 1000 = 1000" using rnd_of_int [of 1000 24] by (simp add: float_def)
  moreover have "\<lfloor>2001 / 2 :: rat\<rfloor> = 1000" by (rule floor_unique) simp_all
  ultimately have code: "voltage_code VREF_2V (1 / 2) = Some (1000, GAIN1)" by (simp add: voltage_code_def lround_def)
  have vref: "dc_vref (parse_channel False (0x80, 0)) = VREF_2V" "dc_value (parse_channel False (0x80, 0)) = 0"
    by (simp_all add: parse_channel_def)
  have "(1 / 2 :: rat) < 0 \<or> 3 < (1 :: u32) \<longleftrightarrow> False" by simp
  then show ?thesis
    using conjunct1 [OF dac_refinement [OF dac_bus_chip dac_start_clock dac_start_sync, where v = "1 / 2" and ch = 1]] code vref
    by (auto simp: set numeral_eq_Suc)
qed

text \<open>What \<open>setVRef\<close> sends is shifted by one channel: the data sheet has the bits of the four channels at the end.\<close>

lemma vref_octet_shifted:
  "vref_octet (drop_bit 1 VREF_WRITE) [a, b, c, d]
     = 0x80 OR push_bit 4 (vref_bit a) OR push_bit 3 (vref_bit b) OR push_bit 2 (vref_bit c) OR push_bit 1 (vref_bit d)"
  by (cases a; cases b; cases c; cases d) (simp_all add: VREF_WRITE_def)

end
