(* ===== verification/Mcp4728_Driver.thy ===== *)
theory Mcp4728_Driver
  imports Mcp4728 Messages
begin

text \<open>
  The driver of the DAC: class \<open>MCP4728Driver\<close> (\<open>daemon/src/drivers/mcp4728_driver.cpp\<close>). Its device is None where the
  registry has none. What a function publishes is a list of the events it wraps in a \<open>DatastoreStoreEvent\<close>; the
  maps of an event are listed in the order in which the driver fills them, by channel.
\<close>

definition DAC_bias :: u8 where "DAC_bias = 2"
definition DAC_dac4 :: u8 where "DAC_dac4 = 3"
definition DAC_threshold :: "u8 list" where "DAC_threshold = [0, 1]"

definition Voltage_bias :: rat where "Voltage_bias = float (double (1 / 2))"
definition Voltage_threshold :: "rat list" where "Voltage_threshold = [float (double (1 / 10)), float (double 1)]"

text \<open>What the driver has of the configuration of the system.\<close>

record 'd mcp4728_driver =
  md_dev :: "'d mcp4728 option"
  md_thresholdVoltage :: "rat list"
  md_biasVoltage :: rat

section \<open>Reading\<close>

fun read_channels :: "'d i2c_bus \<Rightarrow> ('d \<Rightarrow> int \<times> 'd) \<Rightarrow> bool \<Rightarrow> u8 list \<Rightarrow> 'd mcp4728 \<Rightarrow> DacChannel list \<times> 'd mcp4728" where
  "read_channels bus clk eep [] dev = ([], dev)"
| "read_channels bus clk eep (channel # channels) dev =
     (let (_, ch, dev) = readChannel bus clk channel (default_DacChannel\<lparr>dc_eeprom := eep\<rparr>) dev;
          (chs, dev) = read_channels bus clk eep channels dev
      in (ch # chs, dev))"

definition readEeprom :: "'d i2c_bus \<Rightarrow> ('d \<Rightarrow> int \<times> 'd) \<Rightarrow> 'd mcp4728 \<Rightarrow> (u8 \<times> DacChannel) list \<times> 'd mcp4728" where
  "readEeprom bus clk dev =
     (let (chs, dev) = read_channels bus clk True [0, 1, 2, 3] dev in (zip [0, 1, 2, 3] chs, dev))"

definition readDac :: "'d i2c_bus \<Rightarrow> ('d \<Rightarrow> int \<times> 'd) \<Rightarrow> 'd mcp4728 \<Rightarrow> MCP4728Event \<times> 'd mcp4728" where
  "readDac bus clk dev =
     (let (chs, dev) = read_channels bus clk False [0, 1, 2, 3] dev
      in (\<lparr>dac_dacValues = zip [0, 1, 2, 3] (map dc_value chs), dac_eepromValues = None,
           dac_voltages = zip [0, 1, 2, 3] (map code2voltage chs)\<rparr>, dev))"

definition readAll :: "'d i2c_bus \<Rightarrow> ('d \<Rightarrow> int \<times> 'd) \<Rightarrow> 'd mcp4728 \<Rightarrow> MCP4728Event \<times> 'd mcp4728" where
  "readAll bus clk dev =
     (let (event, dev) = readDac bus clk dev; (eepromData, dev) = readEeprom bus clk dev
      in (event\<lparr>dac_eepromValues := Some (map (\<lambda>(key, ch). (key, dc_value ch)) eepromData)\<rparr>, dev))"

section \<open>Commands\<close>

definition setDacValue :: "'d i2c_bus \<Rightarrow> ('d \<Rightarrow> int \<times> 'd) \<Rightarrow> u8 \<Rightarrow> rat \<Rightarrow> 'd mcp4728_driver
    \<Rightarrow> 'd mcp4728_driver \<times> MCP4728Event list" where
  "setDacValue bus clk channel val s =
     (if 3 < channel then (s, [])
      else case md_dev s of None \<Rightarrow> (s, [])
        | Some device \<Rightarrow>
            if val < 0 then (s, [])
            else if channel = DAC_bias \<or> channel = DAC_dac4
            then (s\<lparr>md_dev := Some (snd (setVoltage bus clk (ucast channel) val device))\<rparr>, [])
            else (let val = (if double (4095 / 1000) < val then float (double (4095 / 1000)) else val);
                      (success, device) = setVoltage bus clk (ucast (DAC_threshold ! unat channel)) val device
                  in if success
                     then (let (event, device) = readDac bus clk device in (s\<lparr>md_dev := Some device\<rparr>, [event]))
                     else (s\<lparr>md_dev := Some device\<rparr>, [])))"

definition saveDacValuesToEeprom :: "'d i2c_bus \<Rightarrow> ('d \<Rightarrow> int \<times> 'd) \<Rightarrow> 'd mcp4728_driver \<Rightarrow> 'd mcp4728_driver" where
  "saveDacValuesToEeprom bus clk s =
     (case md_dev s of None \<Rightarrow> s | Some device \<Rightarrow> s\<lparr>md_dev := Some (snd (storeSettings bus clk device))\<rparr>)"

definition setBiasVoltage :: "'d i2c_bus \<Rightarrow> ('d \<Rightarrow> int \<times> 'd) \<Rightarrow> rat \<Rightarrow> 'd mcp4728_driver
    \<Rightarrow> 'd mcp4728_driver \<times> MCP4728Event list" where
  "setBiasVoltage bus clk voltage s =
     (case md_dev s of None \<Rightarrow> (s, [])
      | Some device \<Rightarrow>
          (let (success, device) = setVoltage bus clk (ucast DAC_bias) voltage device;
               (event, device) = readDac bus clk device
           in (s\<lparr>md_dev := Some device\<rparr>, [event])))"

text \<open>The subscription to \<open>DacSettingRequestCmd\<close>.\<close>

definition dac_setting_request :: "'d i2c_bus \<Rightarrow> ('d \<Rightarrow> int \<times> 'd) \<Rightarrow> 'd mcp4728_driver
    \<Rightarrow> 'd mcp4728_driver \<times> MCP4728Event list" where
  "dac_setting_request bus clk s =
     (case md_dev s of None \<Rightarrow> (s, [])
      | Some device \<Rightarrow> (let (event, device) = readDac bus clk device in (s\<lparr>md_dev := Some device\<rparr>, [event])))"

section \<open>Construction\<close>

definition set_if :: "bool \<Rightarrow> 'd i2c_bus \<Rightarrow> ('d \<Rightarrow> int \<times> 'd) \<Rightarrow> u8 \<Rightarrow> rat \<Rightarrow> 'd mcp4728 \<Rightarrow> 'd mcp4728" where
  "set_if c bus clk channel voltage dev = (if c then snd (setVoltage bus clk (ucast channel) voltage dev) else dev)"

definition mcp4728_driver_init :: "'d i2c_bus \<Rightarrow> ('d \<Rightarrow> int \<times> 'd) \<Rightarrow> 'd mcp4728_driver
    \<Rightarrow> 'd mcp4728_driver \<times> MCP4728Event list" where
  "mcp4728_driver_init bus clk s =
     (case md_dev s of None \<Rightarrow> (s, [])
      | Some dev \<Rightarrow>
          (let (event, dev) = readAll bus clk dev;
               voltages = (\<lambda>event channel. snd (dac_voltages event ! unat (channel :: u8)));
               thresholds = map (\<lambda>ch. if md_thresholdVoltage s ! ch < 0 then voltages event (DAC_threshold ! ch)
                                      else md_thresholdVoltage s ! ch) [0, 1];
               eepromBias = snd (the (dac_eepromValues event) ! unat DAC_bias);
               dev = set_if (eepromBias = 0) bus clk DAC_bias Voltage_bias dev;
               dev = set_if (eepromBias = 0) bus clk (DAC_threshold ! 0) (Voltage_threshold ! 0) dev;
               dev = set_if (eepromBias = 0) bus clk (DAC_threshold ! 1) (Voltage_threshold ! 1) dev;
               (event, dev) = (if eepromBias = 0 then readAll bus clk dev else (event, dev));
               bias = (if md_biasVoltage s < 0 then voltages event DAC_bias else md_biasVoltage s);
               dev = set_if (0 < thresholds ! 0) bus clk (DAC_threshold ! 0) (thresholds ! 0) dev;
               dev = set_if (0 < thresholds ! 1) bus clk (DAC_threshold ! 1) (thresholds ! 1) dev;
               dev = set_if (0 < bias) bus clk DAC_bias bias dev
           in (\<lparr>md_dev = Some dev, md_thresholdVoltage = thresholds, md_biasVoltage = bias\<rparr>, [event])))"

section \<open>What is published\<close>

lemma read_channels_settings:
  assumes "dac_chip bus address outs eeps busy" and "up_clock clk outs eeps busy"
  shows "in_sync address outs eeps busy dev \<Longrightarrow> \<forall>k\<in>set ks. k < 4 \<Longrightarrow>
    \<exists>t. read_channels bus clk False ks dev = (map (\<lambda>k. dac_settings outs False dev ! unat k) ks, t)
      \<and> in_sync address outs eeps busy t \<and> dac_settings outs False t = dac_settings outs False dev
      \<and> dac_settings eeps True t = dac_settings eeps True dev"
proof (induction ks arbitrary: dev)
  case (Cons k ks)
  obtain u where u: "readRegisters bus clk dev = (True, u)" "in_sync address outs eeps busy u" "cached eeps u"
    "outs (iv_bus u) = outs (iv_bus dev)" "eeps (iv_bus u) = eeps (iv_bus dev)"
    by (rule readRegisters_cached [OF assms Cons.prems(1)])
  have s: "dac_settings outs False u = dac_settings outs False dev" "dac_settings eeps True u = dac_settings eeps True dev"
    using u(4,5) by (simp_all add: dac_settings_def)
  have "\<not> 3 < k" using Cons.prems(2) by (simp add: word_less_nat_alt)
  then have r: "readChannel bus clk k (default_DacChannel\<lparr>dc_eeprom := False\<rparr>) dev = (True, dac_settings outs False dev ! unat k, u)"
    using u(1) in_syncD(4) [OF u(2)] by (simp add: readChannel_def s default_DacChannel_def)
  obtain t where "read_channels bus clk False ks u = (map (\<lambda>k. dac_settings outs False u ! unat k) ks, t)"
    "in_sync address outs eeps busy t" "dac_settings outs False t = dac_settings outs False u"
    "dac_settings eeps True t = dac_settings eeps True u"
    using Cons.IH [OF u(2)] Cons.prems(2) by auto
  then show ?case using r s by simp
qed simp

lemma readDac_settings:
  assumes "dac_chip bus address outs eeps busy" and "up_clock clk outs eeps busy" and "in_sync address outs eeps busy dev"
  obtains t where "readDac bus clk dev = (\<lparr>dac_dacValues = zip [0, 1, 2, 3] (map dc_value (dac_settings outs False dev)),
      dac_eepromValues = None, dac_voltages = zip [0, 1, 2, 3] (map code2voltage (dac_settings outs False dev))\<rparr>, t)"
    and "in_sync address outs eeps busy t" and "dac_settings outs False t = dac_settings outs False dev"
    and "dac_settings eeps True t = dac_settings eeps True dev"
proof -
  have k: "\<forall>k\<in>set [0, 1, 2, 3 :: u8]. k < 4" by simp
  from read_channels_settings [OF assms k] obtain t where
    t: "read_channels bus clk False [0, 1, 2, 3] dev = (map (\<lambda>k. dac_settings outs False dev ! unat k) [0, 1, 2, 3 :: u8], t)"
      "in_sync address outs eeps busy t" "dac_settings outs False t = dac_settings outs False dev"
      "dac_settings eeps True t = dac_settings eeps True dev" by blast
  have "length (outs (iv_bus dev)) = 4" using assms(1) unfolding dac_chip_def by blast
  then have "\<exists>a b c d. dac_settings outs False dev = [a, b, c, d]" by (intro list4) (simp add: dac_settings_def)
  then have "map (\<lambda>k. dac_settings outs False dev ! unat k) [0, 1, 2, 3 :: u8] = dac_settings outs False dev" by auto
  then show thesis using t by (intro that [of t]) (simp_all add: readDac_def)
qed

text \<open>The value \<open>setDacValue\<close> asks for lies in the range of the DAC.\<close>

definition clamped :: "rat \<Rightarrow> rat" where
  "clamped v = (if double (4095 / 1000) < v then float (double (4095 / 1000)) else v)"

lemma clamped_bounds: "0 \<le> v \<Longrightarrow> 0 \<le> clamped v \<and> clamped v < 40957 / 10000"
proof -
  assume v: "0 \<le> v"
  have "\<bar>float (double (4095 / 1000)) - 4095 / 1000\<bar> \<le> 1 / 2000000" by (rule float_double_error) simp
  moreover have "\<bar>double (4095 / 1000) - 4095 / 1000\<bar> \<le> 1 / 2000000"
    using double_error [of "4095 / 1000" 3] pow2_values by simp
  ultimately have "0 \<le> float (double (4095 / 1000))" "float (double (4095 / 1000)) < 40957 / 10000"
    "double (4095 / 1000) < 40957 / 10000" by linarith+
  then show ?thesis using v unfolding clamped_def by (auto simp del: divide_numeral_1)
qed

text \<open>
  Setting a threshold. For a command with a voltage that is not negative and a channel whose reference is the
  internal one, the driver publishes one event: it has for this channel a voltage at most 0.76 mV from the
  one asked for, cut at 4.095 V, and for every other channel what was set before, and that is what the chip has
  then; the stored settings do not change.
\<close>

theorem threshold_published:
  assumes "dac_chip bus address outs eeps busy" and "up_clock clk outs eeps busy" and "in_sync address outs eeps busy dev"
    and "md_dev s = Some dev" and "channel < 2" and "dc_vref (dac_settings outs False dev ! unat channel) = VREF_2V" and "0 \<le> v"
  shows "\<exists>t event volts. setDacValue bus clk channel v s = (s\<lparr>md_dev := Some t\<rparr>, [event]) \<and> in_sync address outs eeps busy t
    \<and> dac_voltages event = zip [0, 1, 2, 3] volts \<and> volts = map code2voltage (dac_settings outs False t)
    \<and> \<bar>volts ! unat channel - clamped v\<bar> \<le> 76 / 100000
    \<and> (k < 4 \<and> k \<noteq> unat channel \<longrightarrow> volts ! k = code2voltage (dac_settings outs False dev ! k))
    \<and> dac_settings eeps True t = dac_settings eeps True dev"
proof -
  have n: "unat channel < 2" using assms(5) by (simp add: word_less_nat_alt)
  then have ch: "channel = 0 \<or> channel = 1"
    using less_2_cases [OF n] by (auto simp: word_unat_eq_iff)
  then have th: "DAC_threshold ! unat channel = channel" "\<not> 3 < channel" "channel \<noteq> DAC_bias" "channel \<noteq> DAC_dac4"
    by (auto simp: DAC_threshold_def DAC_bias_def DAC_dac4_def)
  have u: "unat (ucast channel :: u32) = unat channel" "(ucast channel :: u32) \<le> 3"
    using ch by auto
  have v: "0 \<le> clamped v" "clamped v < 40957 / 10000" using clamped_bounds [OF assms(7)] by simp_all
  then have "clamped v < 16" by linarith
  let ?ch = "dac_settings outs False dev ! unat channel"
  have "case voltage_code (dc_vref ?ch) (clamped v) of
      Some (c, g) \<Rightarrow> \<bar>code2voltage (?ch\<lparr>dc_value := c, dc_gain := g\<rparr>) - clamped v\<bar>
          \<le> (if dc_vref ?ch = VREF_VDD then 42 else if g = GAIN1 then 26 else 76) / 100000
        \<and> clamped v < (if dc_vref ?ch = VREF_VDD then 32997 else 40958) / 10000
    | None \<Rightarrow> (if dc_vref ?ch = VREF_VDD then 32995 else 40957) / 10000 < clamped v"
    by (rule conjunct1 [OF dac_voltage [OF v(1) \<open>clamped v < 16\<close>, of 33]]) simp_all
  then obtain c g where cg: "voltage_code (dc_vref ?ch) (clamped v) = Some (c, g)"
    and acc: "\<bar>code2voltage (?ch\<lparr>dc_value := c, dc_gain := g\<rparr>) - clamped v\<bar> \<le> (if g = GAIN1 then 26 else 76) / 100000"
    unfolding assms(6) using v(2)
    by (cases "voltage_code VREF_2V (clamped v)") (auto simp del: divide_numeral_1)
  let ?new = "?ch\<lparr>dc_value := c, dc_gain := g\<rparr>"
  obtain d where d: "setVoltage bus clk (ucast channel) (clamped v) dev = (True, d)" "in_sync address outs eeps busy d"
    "dac_settings outs False d = (dac_settings outs False dev)[unat channel := ?new]"
    "dac_settings eeps True d = dac_settings eeps True dev"
    using setVoltage_chip [OF assms(1-3) v(1) u(2)] cg unfolding u(1) by metis
  obtain t where t: "readDac bus clk d = (\<lparr>dac_dacValues = zip [0, 1, 2, 3] (map dc_value (dac_settings outs False d)),
      dac_eepromValues = None, dac_voltages = zip [0, 1, 2, 3] (map code2voltage (dac_settings outs False d))\<rparr>, t)"
    "in_sync address outs eeps busy t" "dac_settings outs False t = dac_settings outs False d"
    "dac_settings eeps True t = dac_settings eeps True d"
    by (rule readDac_settings [OF assms(1,2) d(2)])
  have l: "length (dac_settings outs False dev) = 4" using assms(1) by (simp add: dac_chip_def dac_settings_def)
  have acc76: "\<bar>code2voltage ?new - clamped v\<bar> \<le> 76 / 100000" using acc by (rule order_trans) simp
  let ?volts = "map code2voltage (dac_settings outs False d)"
  have "setDacValue bus clk channel v s = (s\<lparr>md_dev := Some t\<rparr>, [\<lparr>dac_dacValues = zip [0, 1, 2, 3] (map dc_value (dac_settings outs False d)),
      dac_eepromValues = None, dac_voltages = zip [0, 1, 2, 3] ?volts\<rparr>])"
    using th(2-4) assms(4,7) d(1) t(1) by (simp add: setDacValue_def th(1) clamped_def)
  moreover have "?volts ! unat channel = code2voltage ?new" using n l by (simp add: d(3))
  moreover have "k < 4 \<and> k \<noteq> unat channel \<longrightarrow> ?volts ! k = code2voltage (dac_settings outs False dev ! k)"
    using l by (simp add: d(3))
  ultimately show ?thesis using t d(4) acc76 by auto
qed

definition driver_start :: "((byte \<times> byte) list \<times> (byte \<times> byte) list) mcp4728_driver" where
  "driver_start = \<lparr>md_dev = Some dac_start, md_thresholdVoltage = [- 1, - 1], md_biasVoltage = - 1\<rparr>"

theorem threshold_published_witness:
  "\<exists>t event volts. setDacValue dac_bus (\<lambda>d. (10 ^ 9, d)) 1 (1 / 2) driver_start = (driver_start\<lparr>md_dev := Some t\<rparr>, [event])
    \<and> dac_voltages event = zip [0, 1, 2, 3] volts \<and> \<bar>volts ! 1 - clamped (1 / 2)\<bar> \<le> 76 / 100000"
proof -
  let ?s = "dac_settings (\<lambda>d. four (fst d)) False dac_start"
  have vref: "dc_vref (?s ! unat (1 :: u8)) = VREF_2V"
    by (simp add: dac_settings_def dac_start_def opened_def i2cDevice.defs parse_channel_def)
  have "md_dev driver_start = Some dac_start" "(1 :: u8) < 2" "(0 :: rat) \<le> 1 / 2" by (simp_all add: driver_start_def)
  note p = threshold_published [OF dac_bus_chip dac_start_clock dac_start_sync this(1,2) vref this(3)]
  from p [of 0] show ?thesis unfolding unsigned_1 by blast
qed

end
