(* ===== verification/Ads1115.thy ===== *)
theory Ads1115
  imports I2c_Device Ieee_Double
begin

text \<open>
  The ADC that samples the amplitude of the pulses: class \<open>ADS1115\<close> (\<open>daemon/src/hardware/i2c/ads1115.cpp\<close>). Besides
  the bus it uses the steady clock, the measured duration of the last conversion and sleeping, the record
  \<open>adc_env\<close>. \<open>fMutex\<close> of the class, another one than that of its base, makes \<open>getSample\<close> and \<open>conversionFinished\<close> atomic,
  so they are functions of the state. Access to a channel that does not exist is undefined, None.
\<close>

datatype CONV_MODE = UNKNOWN | SINGLE | CONTINUOUS

text \<open>\<open>CFG_PGA\<close> has the values 0 to 5 and is the octet of its number.\<close>

definition PGA6V :: u8 where "PGA6V = 0"
definition PGA4V :: u8 where "PGA4V = 1"
definition PGA256MV :: u8 where "PGA256MV = 5"

definition SPS860 :: u32 where "SPS860 = 7"

definition MAX_ADC_VALUE :: int where "MAX_ADC_VALUE = 32767"

definition HI_RANGE_LIMIT :: int where "HI_RANGE_LIMIT = \<lfloor>double (of_int MAX_ADC_VALUE * double (8 / 10))\<rfloor>"
definition LO_RANGE_LIMIT :: int where "LO_RANGE_LIMIT = \<lfloor>double (of_int MAX_ADC_VALUE * double (2 / 10))\<rfloor>"

definition REG_CONVERSION :: u8 where "REG_CONVERSION = 0"
definition REG_CONFIG :: u8 where "REG_CONFIG = 1"
definition REG_LO_THRESH :: u8 where "REG_LO_THRESH = 2"
definition REG_HI_THRESH :: u8 where "REG_HI_THRESH = 3"

definition READ_WAIT_DELAY_US_INIT :: u32 where "READ_WAIT_DELAY_US_INIT = 10"

definition PGAGAINS :: "rat list" where
  "PGAGAINS = map (\<lambda>x. float (double x)) [6144 / 1000, 4096 / 1000, 2048 / 1000, 1024 / 1000, 512 / 1000, 256 / 1000, 256 / 1000, 256 / 1000]"

record Sample =
  sa_timestamp :: int
  sa_value :: int
  sa_voltage :: rat
  sa_lsb_voltage :: rat
  sa_channel :: u32

text \<open>The time stamp of \<open>InvalidSample\<close> is the earliest the clock can show.\<close>

definition InvalidSample :: Sample where
  "InvalidSample = \<lparr>sa_timestamp = - (2 ^ 63), sa_value = 0, sa_voltage = 0, sa_lsb_voltage = 0, sa_channel = 0\<rparr>"

text \<open>\<open>operator==\<close> leaves \<open>lsb_voltage\<close> out.\<close>

definition sample_eq :: "Sample \<Rightarrow> Sample \<Rightarrow> bool" where
  "sample_eq a b \<longleftrightarrow> sa_value a = sa_value b \<and> sa_voltage a = sa_voltage b \<and> sa_channel a = sa_channel b
     \<and> sa_timestamp a = sa_timestamp b"

record 'd adc_env =
  env_now :: "'d \<Rightarrow> int \<times> 'd"
  env_interval :: "'d \<Rightarrow> rat"
  env_sleep :: "nat \<Rightarrow> 'd \<Rightarrow> 'd"

record 'd ads1115 = "'d i2cDevice" +
  ad_fPga :: "u8 list"
  ad_fRate :: u8
  ad_fCurrentChannel :: u8
  ad_fSelectedChannel :: u8
  ad_fReadWaitDelay :: u32
  ad_fAGC :: "bool list"
  ad_fDiffMode :: bool
  ad_fConvMode :: CONV_MODE
  ad_fLastSample :: "Sample list"
  ad_fLastConvTime :: rat

section \<open>Settings\<close>

definition lsb_voltage :: "u8 \<Rightarrow> rat" where
  "lsb_voltage pga = float (PGAGAINS ! unat pga / of_int MAX_ADC_VALUE)"

definition adcToVoltage :: "int \<Rightarrow> u8 \<Rightarrow> rat" where
  "adcToVoltage adc pga = float (of_int adc * lsb_voltage pga)"

text \<open>What the constructors start from.\<close>

definition ads_init :: "'d i2cDevice \<Rightarrow> 'd ads1115" where
  "ads_init dev = i2cDevice.extend dev
     \<lparr>ad_fPga = replicate 4 PGA4V, ad_fRate = 0, ad_fCurrentChannel = 0, ad_fSelectedChannel = 0,
      ad_fReadWaitDelay = READ_WAIT_DELAY_US_INIT, ad_fAGC = replicate 4 False, ad_fDiffMode = False,
      ad_fConvMode = UNKNOWN, ad_fLastSample = replicate 4 InvalidSample, ad_fLastConvTime = 0\<rparr>"

definition setPga :: "u8 \<Rightarrow> ('d, 'x) ads1115_scheme \<Rightarrow> ('d, 'x) ads1115_scheme" where
  "setPga pga s = s\<lparr>ad_fPga := replicate 4 pga\<rparr>"

definition setPga_channel :: "u8 \<Rightarrow> u8 \<Rightarrow> ('d, 'x) ads1115_scheme \<Rightarrow> ('d, 'x) ads1115_scheme" where
  "setPga_channel channel pga s = (if 3 < channel then s else s\<lparr>ad_fPga := (ad_fPga s)[unat channel := pga]\<rparr>)"

definition setActiveChannel :: "u8 \<Rightarrow> bool \<Rightarrow> ('d, 'x) ads1115_scheme \<Rightarrow> ('d, 'x) ads1115_scheme" where
  "setActiveChannel channel differential_mode s =
     s\<lparr>ad_fSelectedChannel := channel, ad_fDiffMode := differential_mode\<rparr>"

definition setAGC :: "bool \<Rightarrow> ('d, 'x) ads1115_scheme \<Rightarrow> ('d, 'x) ads1115_scheme" where
  "setAGC state s = s\<lparr>ad_fAGC := replicate 4 state\<rparr>"

definition setAGC_channel :: "u8 \<Rightarrow> bool \<Rightarrow> ('d, 'x) ads1115_scheme \<Rightarrow> ('d, 'x) ads1115_scheme" where
  "setAGC_channel channel state s = (if 3 < channel then s else s\<lparr>ad_fAGC := (ad_fAGC s)[unat channel := state]\<rparr>)"

definition getAGC :: "u8 \<Rightarrow> ('d, 'x) ads1115_scheme \<Rightarrow> bool" where
  "getAGC channel s = ad_fAGC s ! unat (channel AND 0x03)"

definition setRate :: "u32 \<Rightarrow> ('d, 'x) ads1115_scheme \<Rightarrow> ('d, 'x) ads1115_scheme" where
  "setRate rate s = s\<lparr>ad_fRate := ucast (rate AND 0x07)\<rparr>"

definition setDiffMode :: "bool \<Rightarrow> ('d, 'x) ads1115_scheme \<Rightarrow> ('d, 'x) ads1115_scheme" where
  "setDiffMode mode s = s\<lparr>ad_fDiffMode := mode\<rparr>"

section \<open>Conversion\<close>

definition config_word :: "bool \<Rightarrow> u8 \<Rightarrow> ('d, 'x) ads1115_scheme \<Rightarrow> u16" where
  "config_word start pga s =
     (if ad_fConvMode s = SINGLE \<and> start then 0x8000 else 0)
     OR (if ad_fDiffMode s then 0 else 0x4000)
     OR push_bit 12 (ucast (ad_fSelectedChannel s AND 0x03))
     OR (if ad_fConvMode s = SINGLE then 0x0100 else 0)
     OR push_bit 9 (ucast (pga AND 0x07))
     OR push_bit 5 (ucast (ad_fRate s AND 0x07))"

definition writeConfig :: "'d i2c_bus \<Rightarrow> bool \<Rightarrow> ('d, 'x) ads1115_scheme \<Rightarrow> (bool \<times> ('d, 'x) ads1115_scheme) option" where
  "writeConfig bus startNewConversion s = do {
     (ok, s) \<leftarrow> (if ad_fConvMode s = UNKNOWN
        then do {
          (ok, data, s) \<leftarrow> readWord bus REG_CONFIG s;
          if \<not> ok then Some (False, s)
          else Some (True, s\<lparr>ad_fConvMode := (if hd data AND 0x0100 = 0 then CONTINUOUS else SINGLE)\<rparr>)
        }
        else Some (True, s));
     if \<not> ok then Some (False, s)
     else if 3 < ad_fSelectedChannel s then None
     else do {
       (ok, s) \<leftarrow> writeWord bus REG_CONFIG (config_word startNewConversion (ad_fPga s ! unat (ad_fSelectedChannel s)) s) s;
       if \<not> ok then Some (False, s) else Some (True, s\<lparr>ad_fCurrentChannel := ad_fSelectedChannel s\<rparr>)
     }
   }"

definition setContinuousSampling :: "'d i2c_bus \<Rightarrow> bool \<Rightarrow> ('d, 'x) ads1115_scheme \<Rightarrow> (bool \<times> ('d, 'x) ads1115_scheme) option" where
  "setContinuousSampling bus cont s = writeConfig bus False (s\<lparr>ad_fConvMode := (if cont then CONTINUOUS else SINGLE)\<rparr>)"

text \<open>
  The loop of \<open>waitConversionFinished\<close>: \<open>conf_reg\<close> and \<open>nloops\<close>, whose product with the delay has 32 bits. It gives
  the number of loops, or no number where a read fails.
\<close>

partial_function (option) wait_conversion :: "'d i2c_bus \<Rightarrow> 'd adc_env \<Rightarrow> u16 \<Rightarrow> u32 \<Rightarrow> ('d, 'x) ads1115_scheme
    \<Rightarrow> (u32 option \<times> ('d, 'x) ads1115_scheme) option" where
  "wait_conversion bus env conf_reg nloops s =
     (if conf_reg AND 0x8000 = 0 \<and> nloops * ad_fReadWaitDelay s div 1000 < 1000
      then do {
        (ok, data, s) \<leftarrow> readWord bus REG_CONFIG (s\<lparr>iv_bus := env_sleep env (unat (ad_fReadWaitDelay s)) (iv_bus s)\<rparr>);
        if \<not> ok then Some (None, s) else wait_conversion bus env (hd data) (nloops + 1) s
      }
      else Some (Some nloops, s))"

definition waitConversionFinished :: "'d i2c_bus \<Rightarrow> 'd adc_env \<Rightarrow> ('d, 'x) ads1115_scheme
    \<Rightarrow> (bool \<times> ('d, 'x) ads1115_scheme) option" where
  "waitConversionFinished bus env s = do {
     (r, s) \<leftarrow> wait_conversion bus env 0 0 s;
     case r of None \<Rightarrow> Some (True, s)
     | Some nloops \<Rightarrow>
         if 1000 \<le> nloops * ad_fReadWaitDelay s div 1000 then Some (True, s)
         else if 1 < nloops
         then Some (False, s\<lparr>ad_fReadWaitDelay := ad_fReadWaitDelay s + (nloops - 1) * ad_fReadWaitDelay s div 10\<rparr>)
         else Some (False, s)
   }"

definition readConversionResult :: "'d i2c_bus \<Rightarrow> ('d, 'x) ads1115_scheme
    \<Rightarrow> (i16 option \<times> ('d, 'x) ads1115_scheme) option" where
  "readConversionResult bus s = do {
     (ok, data, s) \<leftarrow> readWord bus REG_CONVERSION s;
     Some (if ok then Some (hd data) else None, s)
   }"

definition agc_step :: "int \<Rightarrow> u8 \<Rightarrow> u8" where
  "agc_step conv_result pga =
     (let eadc = \<bar>conv_result\<bar>
      in if HI_RANGE_LIMIT < eadc \<and> PGA6V < pga then pga - 1
         else if eadc < LO_RANGE_LIMIT \<and> pga < PGA256MV then pga + 1 else pga)"

text \<open>
  The common end of \<open>getSample\<close> and \<open>conversionFinished\<close>, for the word read: the sample, and what is handed to the
  callback, if one is registered.
\<close>

definition take_sample :: "'d adc_env \<Rightarrow> bool \<Rightarrow> i16 \<Rightarrow> ('d, 'x) ads1115_scheme
    \<Rightarrow> (Sample \<times> Sample list \<times> ('d, 'x) ads1115_scheme) option" where
  "take_sample env callback w s =
     (if 3 < ad_fCurrentChannel s then None
      else let conv_result = sint w; c = unat (ad_fCurrentChannel s);
               s = s\<lparr>ad_fLastConvTime := env_interval env (iv_bus s)\<rparr>;
               (now, d) = env_now env (iv_bus s); s = s\<lparr>iv_bus := d\<rparr>;
               sample = \<lparr>sa_timestamp = now, sa_value = conv_result, sa_voltage = adcToVoltage conv_result (ad_fPga s ! c),
                         sa_lsb_voltage = lsb_voltage (ad_fPga s ! c), sa_channel = ucast (ad_fCurrentChannel s)\<rparr>;
               called = (if callback \<and> \<not> sample_eq sample InvalidSample then [sample] else []);
               s = (if ad_fAGC s ! c then s\<lparr>ad_fPga := (ad_fPga s)[c := agc_step conv_result (ad_fPga s ! c)]\<rparr> else s)
           in Some (sample, called, s\<lparr>ad_fLastSample := (ad_fLastSample s)[c := sample]\<rparr>))"

definition getSample :: "'d i2c_bus \<Rightarrow> 'd adc_env \<Rightarrow> bool \<Rightarrow> u32 \<Rightarrow> ('d, 'x) ads1115_scheme
    \<Rightarrow> (Sample \<times> Sample list \<times> ('d, 'x) ads1115_scheme) option" where
  "getSample bus env callback channel s = do {
     (ok, s) \<leftarrow> writeConfig bus True (s\<lparr>ad_fConvMode := SINGLE, ad_fSelectedChannel := ucast channel\<rparr>);
     if \<not> ok then Some (InvalidSample, [], s) else do {
     (err, s) \<leftarrow> waitConversionFinished bus env s;
     if err then Some (InvalidSample, [], s) else do {
     (r, s) \<leftarrow> readConversionResult bus s;
     case r of None \<Rightarrow> Some (InvalidSample, [], s) | Some w \<Rightarrow> take_sample env callback w s }}
   }"

definition conversionFinished :: "'d i2c_bus \<Rightarrow> 'd adc_env \<Rightarrow> bool \<Rightarrow> ('d, 'x) ads1115_scheme
    \<Rightarrow> (Sample \<times> Sample list \<times> ('d, 'x) ads1115_scheme) option" where
  "conversionFinished bus env callback s = do {
     (r, s) \<leftarrow> readConversionResult bus s;
     case r of None \<Rightarrow> Some (InvalidSample, [], s) | Some w \<Rightarrow> take_sample env callback w s
   }"

text \<open>\<open>triggerConversion\<close> says whether it started a thread, which runs \<open>getSample\<close>.\<close>

definition triggerConversion :: "('d, 'x) ads1115_scheme \<Rightarrow> bool" where
  "triggerConversion s \<longleftrightarrow> ad_fConvMode s = SINGLE"

definition readADC :: "'d i2c_bus \<Rightarrow> 'd adc_env \<Rightarrow> bool \<Rightarrow> u32 \<Rightarrow> ('d, 'x) ads1115_scheme
    \<Rightarrow> (int \<times> Sample list \<times> ('d, 'x) ads1115_scheme) option" where
  "readADC bus env callback channel s = do {
     (sample, called, s) \<leftarrow> getSample bus env callback channel s;
     Some (if sample_eq sample InvalidSample then - (2 ^ 15) else sa_value sample, called, s)
   }"

definition getVoltage :: "'d i2c_bus \<Rightarrow> 'd adc_env \<Rightarrow> bool \<Rightarrow> u32 \<Rightarrow> ('d, 'x) ads1115_scheme
    \<Rightarrow> (rat \<times> Sample list \<times> ('d, 'x) ads1115_scheme) option" where
  "getVoltage bus env callback channel s = do {
     (sample, called, s) \<leftarrow> getSample bus env callback channel s;
     Some (sa_voltage sample, called, s)
   }"

section \<open>Thresholds\<close>

text \<open>
  The low octet is or-ed into a local variable that was never set, the argument \<open>junk\<close>.
\<close>

definition setThreshold :: "'d i2c_bus \<Rightarrow> u8 \<Rightarrow> byte \<Rightarrow> i16 \<Rightarrow> ('d, 'x) ads1115_scheme \<Rightarrow> bool \<times> ('d, 'x) ads1115_scheme" where
  "setThreshold bus reg junk thr s =
     (let hi = ucast (drop_bit 8 thr) :: byte; lo = junk OR ucast thr;
          (n, s) = i2c_write bus [reg, hi, lo] s
      in if n \<noteq> 3 then (False, s)
         else (let (n, buf, s) = i2c_read bus 2 s
               in if n \<noteq> 2 then (False, s) else (buf ! 0 = hi \<and> buf ! 1 = lo, s)))"

definition setLowThreshold :: "'d i2c_bus \<Rightarrow> byte \<Rightarrow> i16 \<Rightarrow> ('d, 'x) ads1115_scheme \<Rightarrow> bool \<times> ('d, 'x) ads1115_scheme" where
  "setLowThreshold bus junk thr s = setThreshold bus REG_LO_THRESH junk thr s"

definition setHighThreshold :: "'d i2c_bus \<Rightarrow> byte \<Rightarrow> i16 \<Rightarrow> ('d, 'x) ads1115_scheme \<Rightarrow> bool \<times> ('d, 'x) ads1115_scheme" where
  "setHighThreshold bus junk thr s = setThreshold bus REG_HI_THRESH junk thr s"

definition setCompQueue :: "'d i2c_bus \<Rightarrow> u8 \<Rightarrow> ('d, 'x) ads1115_scheme \<Rightarrow> (bool \<times> ('d, 'x) ads1115_scheme) option" where
  "setCompQueue bus bitpattern s = do {
     (n, buf, s) \<leftarrow> readReg bus REG_CONFIG 2 s;
     if n \<noteq> 2 then Some (False, s)
     else (let (n, s) = writeReg bus REG_CONFIG [buf ! 0, (buf ! 1 AND 0xfc) OR (bitpattern AND 0x03)] s in Some (n = 2, s))
   }"

definition setDataReadyPinMode :: "'d i2c_bus \<Rightarrow> byte \<Rightarrow> byte \<Rightarrow> ('d, 'x) ads1115_scheme
    \<Rightarrow> (bool \<times> ('d, 'x) ads1115_scheme) option" where
  "setDataReadyPinMode bus junk1 junk2 s =
     (let (ok, s) = setLowThreshold bus junk1 0 s;
          (ok, s) = (if ok then setHighThreshold bus junk2 (- 1) s else (False, s))
      in if ok then setCompQueue bus 0 s else Some (False, s))"

definition ads_devicePresent :: "'d i2c_bus \<Rightarrow> ('d, 'x) ads1115_scheme \<Rightarrow> (bool \<times> ('d, 'x) ads1115_scheme) option" where
  "ads_devicePresent bus s = do { (ok, _, s) \<leftarrow> readWord_here bus s; Some (ok, s) }"

definition ads_identify :: "'d i2c_bus \<Rightarrow> ('d, 'x) ads1115_scheme \<Rightarrow> (bool \<times> ('d, 'x) ads1115_scheme) option" where
  "ads_identify bus s =
     (if iv_mode s = MODE_FAILED then Some (False, s)
      else do {
        (present, s) \<leftarrow> ads_devicePresent bus s;
        if \<not> present then Some (False, s) else do {
        (ok, data, s) \<leftarrow> readWord bus REG_CONFIG s;
        if \<not> ok \<or> hd data AND 0x8000 = 0 \<and> hd data AND 0x0100 \<noteq> 0 then Some (False, s) else do {
        (ok, data2, s) \<leftarrow> readWord bus (REG_CONFIG OR 0x04) s;
        Some (ok \<and> hd data = hd data2, s) }}
      })"

section \<open>Sampling ends\<close>

lemma more_fields:
  assumes "i2cDevice.more t = i2cDevice.more s"
  shows "ad_fPga t = ad_fPga s" "ad_fRate t = ad_fRate s" "ad_fCurrentChannel t = ad_fCurrentChannel s"
    "ad_fSelectedChannel t = ad_fSelectedChannel s" "ad_fReadWaitDelay t = ad_fReadWaitDelay s" "ad_fAGC t = ad_fAGC s"
    "ad_fDiffMode t = ad_fDiffMode s" "ad_fConvMode t = ad_fConvMode s" "ad_fLastSample t = ad_fLastSample s"
    "ad_fLastConvTime t = ad_fLastConvTime s"
  using assms by (cases s; cases t; simp)+

text \<open>The delay and the gains an object can have.\<close>

definition max_delay :: nat where
  "max_delay = 1100000"

definition adc_ok :: "('d, 'x) ads1115_scheme \<Rightarrow> bool" where
  "adc_ok s \<longleftrightarrow> ready s \<and> length (ad_fPga s) = 4 \<and> (\<forall>g\<in>set (ad_fPga s). g \<le> PGA256MV)
     \<and> 0 < ad_fReadWaitDelay s \<and> unat (ad_fReadWaitDelay s) \<le> max_delay"

lemma ready_ads [simp]:
  "ready (s\<lparr>ad_fPga := a\<rparr>) = ready s" "ready (s\<lparr>ad_fCurrentChannel := b\<rparr>) = ready s" "ready (s\<lparr>ad_fSelectedChannel := b\<rparr>) = ready s"
  "ready (s\<lparr>ad_fReadWaitDelay := c\<rparr>) = ready s" "ready (s\<lparr>ad_fConvMode := d\<rparr>) = ready s" "ready (s\<lparr>ad_fLastSample := e\<rparr>) = ready s"
  "ready (s\<lparr>ad_fLastConvTime := f\<rparr>) = ready s"
  by (simp_all add: ready_def)

lemma wait_value:
  fixes n delay :: u32
  assumes "unat n * unat delay < 2 ^ 32"
  shows "n * delay div 1000 < 1000 \<longleftrightarrow> unat n * unat delay < 1000000"
proof -
  have "unat (n * delay) = unat n * unat delay" using assms by (simp add: unat_mult_lem [THEN iffD1])
  then have "unat (n * delay div 1000) = unat n * unat delay div 1000" by (simp add: unat_div)
  moreover have "unat n * unat delay div 1000 < 1000 \<longleftrightarrow> unat n * unat delay < 1000000" by linarith
  ultimately show ?thesis by (simp add: word_less_nat_alt)
qed

lemma wait_conversion_returns:
  assumes "0 < ad_fReadWaitDelay s" and "unat (ad_fReadWaitDelay s) \<le> max_delay"
  defines "d \<equiv> unat (ad_fReadWaitDelay s)"
  shows "ready s \<Longrightarrow> unat n * d \<le> 1000000 + max_delay \<Longrightarrow>
    \<exists>r x. wait_conversion bus env conf n s = Some (r, s\<lparr>iv_bus := x\<rparr>)
      \<and> (case r of None \<Rightarrow> True | Some m \<Rightarrow> unat m * d \<le> 1000000 + max_delay)"
  using assms(1,2) unfolding d_def
proof (induction "1000000 + max_delay - unat n * unat (ad_fReadWaitDelay s)" arbitrary: n conf s rule: less_induct)
  case less
  let ?d = "unat (ad_fReadWaitDelay s)"
  have d: "0 < ?d" using less.prems(3) by (simp add: word_less_nat_alt)
  have small: "unat n * ?d < 2 ^ 32" using less.prems(2) by (simp add: max_delay_def)
  note w = wait_value [OF small]
  show ?case
  proof (cases "conf AND 0x8000 = 0 \<and> unat n * ?d < 1000000")
    case False
    then show ?thesis
      using less.prems by (subst wait_conversion.simps) (auto simp: w intro!: exI [of _ "iv_bus s"])
  next
    case True
    let ?s = "s\<lparr>iv_bus := env_sleep env ?d (iv_bus s)\<rparr>"
    have "ready ?s" using less.prems(1) by simp
    then obtain ok data y where r: "readWord bus REG_CONFIG ?s = Some (ok, data, ?s\<lparr>iv_bus := y\<rparr>)" by (rule readWord_ready)
    have step: "wait_conversion bus env conf n s
        = (if \<not> ok then Some (None, s\<lparr>iv_bus := y\<rparr>) else wait_conversion bus env (hd data) (n + 1) (s\<lparr>iv_bus := y\<rparr>))"
      using True r by (subst wait_conversion.simps) (simp add: w)
    show ?thesis
    proof (cases ok)
      case False
      then show ?thesis using step by auto
    next
      case ok: True
      have "unat n * 1 \<le> unat n * ?d" by (rule mult_le_mono2) (use d in simp)
      then have "unat n < 1000000" using conjunct2 [OF True] by linarith
      then have "unat n + 1 < 2 ^ 32" by simp
      then have n1: "unat (n + 1) = unat n + 1" using unat_add_lem [of n 1, THEN iffD1] by simp
      have b: "unat (n + 1) * ?d \<le> 1000000 + max_delay"
        using True less.prems(4) unfolding n1 by (simp add: distrib_right)
      have m: "1000000 + max_delay - unat (n + 1) * unat (ad_fReadWaitDelay (s\<lparr>iv_bus := y\<rparr>)) < 1000000 + max_delay - unat n * ?d"
      proof -
        have "(a :: nat) - (p + q) < a - p" if "p < a" "0 < q" for a p q using that by linarith
        from this [of "unat n * ?d" "1000000 + max_delay" ?d] show ?thesis
          using True d unfolding n1 by (simp add: distrib_right add.commute)
      qed
      have "\<exists>r x. wait_conversion bus env (hd data) (n + 1) (s\<lparr>iv_bus := y\<rparr>) = Some (r, s\<lparr>iv_bus := y\<rparr>\<lparr>iv_bus := x\<rparr>)
        \<and> (case r of None \<Rightarrow> True | Some m \<Rightarrow> unat m * unat (ad_fReadWaitDelay (s\<lparr>iv_bus := y\<rparr>)) \<le> 1000000 + max_delay)"
        by (rule less.hyps [OF m]) (use less.prems b in simp_all)
      then show ?thesis using step ok by (simp cong: option.case_cong)
    qed
  qed
qed

lemma waitConversionFinished_returns:
  assumes "ready s" and "0 < ad_fReadWaitDelay s" and "unat (ad_fReadWaitDelay s) \<le> max_delay"
  obtains err delay x where "waitConversionFinished bus env s = Some (err, s\<lparr>iv_bus := x, ad_fReadWaitDelay := delay\<rparr>)"
    and "ad_fReadWaitDelay s \<le> delay" and "unat delay \<le> max_delay"
proof -
  let ?d = "ad_fReadWaitDelay s"
  have "\<exists>r x. wait_conversion bus env 0 0 s = Some (r, s\<lparr>iv_bus := x\<rparr>)
      \<and> (case r of None \<Rightarrow> True | Some m \<Rightarrow> unat m * unat ?d \<le> 1000000 + max_delay)"
    by (rule wait_conversion_returns [OF assms(2,3,1)]) simp
  then obtain r x where r: "wait_conversion bus env 0 0 s = Some (r, s\<lparr>iv_bus := x\<rparr>)"
    "case r of None \<Rightarrow> True | Some m \<Rightarrow> unat m * unat ?d \<le> 1000000 + max_delay" by blast
  have same: "s\<lparr>iv_bus := x, ad_fReadWaitDelay := ?d\<rparr> = s\<lparr>iv_bus := x\<rparr>" by (cases s) simp
  show thesis
  proof (cases r)
    case None
    then show thesis using that [of True ?d x] r assms(3) same by (simp add: waitConversionFinished_def)
  next
    case (Some m)
    then have small: "unat m * unat ?d < 2 ^ 32" using r(2) by (simp add: max_delay_def)
    note w = wait_value [OF small]
    show thesis
    proof (cases "m * ?d div 1000 < 1000 \<and> 1 < m")
      case False
      have "waitConversionFinished bus env s = Some (\<not> m * ?d div 1000 < 1000, s\<lparr>iv_bus := x, ad_fReadWaitDelay := ?d\<rparr>)"
        unfolding same using r(1) Some False
        by (cases "m * ?d div 1000 < 1000") (simp_all add: waitConversionFinished_def flip: not_less)
      then show thesis by (rule that) (use assms(3) in simp_all)
    next
      case True
      let ?new = "?d + (m - 1) * ?d div 10"
      have m1: "unat (m - 1) = unat m - 1" using True by (subst unat_sub) (simp_all add: word_le_nat_alt word_less_nat_alt)
      have md: "unat m * unat ?d < 1000000" using True w by simp
      then have q: "(unat m - 1) * unat ?d < 1000000" by (meson diff_le_self le_less_trans mult_le_mono1)
      then have "unat ((m - 1) * ?d) = (unat m - 1) * unat ?d" using unat_mult_lem [of "m - 1" ?d, THEN iffD1] by (simp add: m1)
      then have u: "unat ((m - 1) * ?d div 10) = (unat m - 1) * unat ?d div 10" by (simp add: unat_div)
      have "2 * unat ?d \<le> unat m * unat ?d" using True by (intro mult_le_mono1) (simp add: word_less_nat_alt)
      then have b: "unat ?d + (unat m - 1) * unat ?d div 10 \<le> max_delay"
      proof -
        have "(unat m - 1) * unat ?d div 10 < 100000" by (rule less_mult_imp_div_less) (use q in simp)
        moreover have "unat ?d < 500000" using \<open>2 * unat ?d \<le> unat m * unat ?d\<close> md by linarith
        ultimately show ?thesis by (simp add: max_delay_def)
      qed
      then have n: "unat ?new = unat ?d + (unat m - 1) * unat ?d div 10"
        using unat_add_lem [of ?d "(m - 1) * ?d div 10", THEN iffD1] by (simp add: u max_delay_def)
      have "waitConversionFinished bus env s = Some (False, s\<lparr>iv_bus := x, ad_fReadWaitDelay := ?new\<rparr>)"
        using r(1) Some True by (simp add: waitConversionFinished_def flip: not_less)
      then show thesis by (rule that) (use b n in \<open>simp_all add: word_le_nat_alt\<close>)
    qed
  qed
qed

lemma agc_step_bound: "pga \<le> PGA256MV \<Longrightarrow> agc_step v pga \<le> PGA256MV"
proof -
  assume p: "pga \<le> PGA256MV"
  have "pga - 1 \<le> PGA256MV" if "PGA6V < pga"
    using that p by (simp add: PGA6V_def PGA256MV_def word_le_nat_alt word_less_nat_alt unat_sub)
  moreover have "pga + 1 \<le> PGA256MV" if "pga < PGA256MV"
  proof -
    have "unat pga + 1 \<le> 5" using that by (simp add: PGA256MV_def word_less_nat_alt)
    moreover from this have "unat (pga + 1) = unat pga + 1" using unat_add_lem [of pga 1, THEN iffD1] by simp
    ultimately show ?thesis by (simp add: PGA256MV_def word_le_nat_alt)
  qed
  ultimately show ?thesis using p by (simp add: agc_step_def Let_def)
qed

lemma take_sample_ok:
  assumes "adc_ok s" and "unat (ad_fCurrentChannel s) < 4"
  defines "pga \<equiv> ad_fPga s ! unat (ad_fCurrentChannel s)"
  obtains smp t where "take_sample env callback w s
      = Some (smp, if callback \<and> \<not> sample_eq smp InvalidSample then [smp] else [], t)"
    and "adc_ok t" and "sa_value smp = sint w" and "sa_voltage smp = adcToVoltage (sint w) pga"
    and "sa_channel smp = ucast (ad_fCurrentChannel s)"
proof -
  let ?c = "unat (ad_fCurrentChannel s)"
  obtain now d where n: "env_now env (iv_bus s) = (now, d)" by fastforce
  let ?smp = "\<lparr>sa_timestamp = now, sa_value = sint w, sa_voltage = adcToVoltage (sint w) pga,
      sa_lsb_voltage = lsb_voltage pga, sa_channel = ucast (ad_fCurrentChannel s)\<rparr>"
  let ?s = "s\<lparr>ad_fLastConvTime := env_interval env (iv_bus s), iv_bus := d\<rparr>"
  let ?t = "(if ad_fAGC s ! ?c then ?s\<lparr>ad_fPga := (ad_fPga s)[?c := agc_step (sint w) pga]\<rparr> else ?s)
      \<lparr>ad_fLastSample := (ad_fLastSample s)[?c := ?smp]\<rparr>"
  have t: "take_sample env callback w s
      = Some (?smp, if callback \<and> \<not> sample_eq ?smp InvalidSample then [?smp] else [], ?t)"
    using assms(2) n by (simp add: take_sample_def Let_def pga_def word_less_nat_alt)
  have "pga \<in> set (ad_fPga s)" using assms(1,2) by (simp add: pga_def adc_ok_def)
  then have "pga \<le> PGA256MV" using assms(1) by (simp add: adc_ok_def)
  then have g: "agc_step (sint w) pga \<le> PGA256MV" by (rule agc_step_bound)
  have "\<forall>x\<in>set ((ad_fPga s)[?c := agc_step (sint w) pga]). x \<le> PGA256MV"
    using assms(1) g set_update_subset_insert [of "ad_fPga s" ?c "agc_step (sint w) pga"] unfolding adc_ok_def by blast
  then have "adc_ok ?t" using assms(1) by (simp add: adc_ok_def)
  then show thesis by (rule that [OF t]) simp_all
qed

text \<open>
  C19: A sample is always taken. Whatever the bus answers and however long the conversion takes, \<open>getSample\<close> on an
  existing channel returns: with the invalid sample, which is not handed on, or with the value of the chip for
  this channel and the voltage of its gain, which the callback gets; the gains stay on the scale and the
  delay between two polls between 1 us and 1.1 s, so the next call returns too. On a channel that does not
  exist it is undefined, and no caller checks: a client's \<open>AdcSampleTriggerCmd\<close> carries its channel here.
\<close>

theorem sampling_ends:
  assumes "adc_ok s"
  shows "if unat (ucast channel :: u8) < 4
    then \<exists>smp t. getSample bus env callback channel s
        = Some (smp, if callback \<and> \<not> sample_eq smp InvalidSample then [smp] else [], t) \<and> adc_ok t
      \<and> (smp = InvalidSample \<or> sa_channel smp = ucast (ucast channel :: u8) \<and> \<bar>sa_value smp\<bar> \<le> 2 ^ 15
          \<and> sa_voltage smp = adcToVoltage (sa_value smp) (ad_fPga s ! unat (ucast channel :: u8)))
    else getSample bus env callback channel s = None"
proof (cases "unat (ucast channel :: u8) < 4")
  case False
  then show ?thesis by (simp add: getSample_def writeConfig_def word_less_nat_alt)
next
  case True
  let ?ch = "ucast channel :: u8"
  let ?s = "s\<lparr>ad_fConvMode := SINGLE, ad_fSelectedChannel := ?ch\<rparr>"
  have inv: "(if callback \<and> \<not> sample_eq InvalidSample InvalidSample then [InvalidSample] else []) = []"
    by (simp add: sample_eq_def)
  have s: "ready ?s" "\<not> 3 < ad_fSelectedChannel ?s" using assms True by (simp_all add: adc_ok_def word_less_nat_alt)
  obtain ok u where u: "writeWord bus REG_CONFIG (config_word True (ad_fPga s ! unat ?ch) ?s) ?s = Some (ok, u)" "ready u"
    "i2cDevice.more u = i2cDevice.more ?s" by (rule writeWord_ready [OF s(1)])
  note f = more_fields [OF u(3), simplified]
  have "getSample bus env callback channel s = Some (InvalidSample, [], u) \<and> adc_ok u" if "\<not> ok"
    using that u s assms by (simp add: getSample_def writeConfig_def adc_ok_def f)
  moreover have "\<exists>smp t. getSample bus env callback channel s
        = Some (smp, if callback \<and> \<not> sample_eq smp InvalidSample then [smp] else [], t) \<and> adc_ok t
      \<and> (smp = InvalidSample \<or> sa_channel smp = ucast ?ch \<and> \<bar>sa_value smp\<bar> \<le> 2 ^ 15
          \<and> sa_voltage smp = adcToVoltage (sa_value smp) (ad_fPga s ! unat ?ch))" if ok
  proof -
    let ?u = "u\<lparr>ad_fCurrentChannel := ?ch\<rparr>"
    have w: "writeConfig bus True ?s = Some (True, ?u)" using that u s by (simp add: writeConfig_def f)
    have "ready ?u" "0 < ad_fReadWaitDelay ?u" "unat (ad_fReadWaitDelay ?u) \<le> max_delay"
      using u(2) assms by (simp_all add: f adc_ok_def)
    then obtain err delay x where v: "waitConversionFinished bus env ?u = Some (err, ?u\<lparr>iv_bus := x, ad_fReadWaitDelay := delay\<rparr>)"
      "ad_fReadWaitDelay ?u \<le> delay" "unat delay \<le> max_delay" by (rule waitConversionFinished_returns)
    let ?v = "?u\<lparr>iv_bus := x, ad_fReadWaitDelay := delay\<rparr>"
    have "0 < delay" using v(2) \<open>0 < ad_fReadWaitDelay ?u\<close> by (rule less_le_trans [rotated])
    then have vok: "adc_ok ?v" using u(2) assms v(3) by (simp add: adc_ok_def f)
    then have "ready ?v" by (simp add: adc_ok_def)
    then obtain okr data y where r: "readWord bus REG_CONVERSION ?v = Some (okr, data, ?v\<lparr>iv_bus := y\<rparr>)" by (rule readWord_ready)
    let ?y = "?v\<lparr>iv_bus := y\<rparr>"
    have yok: "adc_ok ?y" using vok by (simp add: adc_ok_def)
    obtain smp t where t: "take_sample env callback (hd data) ?y
        = Some (smp, if callback \<and> \<not> sample_eq smp InvalidSample then [smp] else [], t)" "adc_ok t"
      "sa_value smp = sint (hd data)" "sa_voltage smp = adcToVoltage (sint (hd data)) (ad_fPga ?y ! unat (ad_fCurrentChannel ?y))"
      "sa_channel smp = ucast (ad_fCurrentChannel ?y)"
      by (rule take_sample_ok [OF yok, of env callback "hd data"]) (use True in simp_all)
    have b: "\<bar>sint w\<bar> \<le> 2 ^ 15" for w :: i16
      using sint_greater_eq [of w] sint_less [of w] by (simp add: abs_le_iff)
    show ?thesis
    proof (cases "err \<or> \<not> okr")
      case True
      then have "getSample bus env callback channel s = Some (InvalidSample, [], if err then ?v else ?y)"
        using w v(1) r by (auto simp: getSample_def readConversionResult_def)
      then show ?thesis using vok yok inv by auto
    next
      case False
      then have "getSample bus env callback channel s
          = Some (smp, if callback \<and> \<not> sample_eq smp InvalidSample then [smp] else [], t)"
        using w v(1) r t(1) by (simp add: getSample_def readConversionResult_def)
      then show ?thesis using t(2-) b [of "hd data"] by (intro exI [of _ smp] exI [of _ t]) (simp add: f)
    qed
  qed
  ultimately show ?thesis using True inv by (cases ok) auto
qed

definition idle_env :: "unit adc_env" where
  "idle_env = \<lparr>env_now = \<lambda>d. (0, d), env_interval = \<lambda>_. 0, env_sleep = \<lambda>_ d. d\<rparr>"

lemma ads_init_ok: "ready dev \<Longrightarrow> adc_ok (ads_init dev)"
  by (cases dev) (simp add: adc_ok_def ads_init_def i2cDevice.defs ready_def PGA4V_def PGA256MV_def
      READ_WAIT_DELAY_US_INIT_def max_delay_def)

theorem sampling_ends_witness:
  "(\<exists>smp called t. getSample dead_bus idle_env True 2 (ads_init (opened 0x48 ())) = Some (smp, called, t) \<and> adc_ok t)
    \<and> getSample dead_bus idle_env True 9 (ads_init (opened 0x48 ())) = None"
  using sampling_ends [OF ads_init_ok [OF ready_opened], of 2 dead_bus idle_env True "0x48" "()"]
    sampling_ends [OF ads_init_ok [OF ready_opened], of 9 dead_bus idle_env True "0x48" "()"] by auto

end
