(* ===== verification/Gpio_Signals.thy ===== *)
theory Gpio_Signals
  imports Prelude
begin

text \<open>
  The signals between the board and the GPIO lines, \<open>library/src/data/gpio_pin_definitions.h\<close>.
\<close>

definition UBIAS_EN :: u8 where "UBIAS_EN = 0"
definition PREAMP_1 :: u8 where "PREAMP_1 = 1"
definition PREAMP_2 :: u8 where "PREAMP_2 = 2"
definition EVT_AND :: u8 where "EVT_AND = 3"
definition EVT_XOR :: u8 where "EVT_XOR = 4"
definition GAIN_HL :: u8 where "GAIN_HL = 5"
definition ADC_READY :: u8 where "ADC_READY = 6"
definition TIMEPULSE :: u8 where "TIMEPULSE = 7"
definition TIME_MEAS_OUT :: u8 where "TIME_MEAS_OUT = 8"
definition STATUS1 :: u8 where "STATUS1 = 9"
definition STATUS2 :: u8 where "STATUS2 = 10"
definition STATUS3 :: u8 where "STATUS3 = 11"
definition PREAMP_FAULT :: u8 where "PREAMP_FAULT = 12"
definition EXT_TRIGGER :: u8 where "EXT_TRIGGER = 13"
definition TDC_INTB :: u8 where "TDC_INTB = 14"
definition TDC_STATUS :: u8 where "TDC_STATUS = 15"
definition IN_POL1 :: u8 where "IN_POL1 = 16"
definition IN_POL2 :: u8 where "IN_POL2 = 17"
definition UNDEFINED_SIGNAL :: u8 where "UNDEFINED_SIGNAL = 255"

lemmas signal_defs = UBIAS_EN_def PREAMP_1_def PREAMP_2_def EVT_AND_def EVT_XOR_def GAIN_HL_def ADC_READY_def
  TIMEPULSE_def TIME_MEAS_OUT_def STATUS1_def STATUS2_def STATUS3_def PREAMP_FAULT_def EXT_TRIGGER_def TDC_INTB_def
  TDC_STATUS_def IN_POL1_def IN_POL2_def UNDEFINED_SIGNAL_def

datatype SIGNAL_DIRECTION = DIR_UNDEFINED | DIR_IN | DIR_OUT | DIR_IO

text \<open>A \<open>std::map\<close> is the list of its entries, keys ascending. The names are for the log.\<close>

definition GPIO_SIGNAL_MAP :: "(u8 \<times> SIGNAL_DIRECTION) list" where
  "GPIO_SIGNAL_MAP =
     [(UBIAS_EN, DIR_OUT), (PREAMP_1, DIR_OUT), (PREAMP_2, DIR_OUT), (EVT_AND, DIR_IN), (EVT_XOR, DIR_IN),
      (GAIN_HL, DIR_OUT), (ADC_READY, DIR_IN), (TIMEPULSE, DIR_IN), (TIME_MEAS_OUT, DIR_IN), (STATUS1, DIR_OUT),
      (STATUS2, DIR_OUT), (STATUS3, DIR_OUT), (PREAMP_FAULT, DIR_IN), (EXT_TRIGGER, DIR_IN), (TDC_INTB, DIR_IN),
      (TDC_STATUS, DIR_OUT), (IN_POL1, DIR_OUT), (IN_POL2, DIR_OUT), (UNDEFINED_SIGNAL, DIR_UNDEFINED)]"

end
