(* ===== verification/Ads1115_Driver.thy ===== *)
theory Ads1115_Driver
  imports Ads1115 Messages Gpio_Signals
begin

text \<open>
  The driver of the ADC: class \<open>ADS1115Driver\<close> (\<open>daemon/src/drivers/ads1115_driver.cpp\<close>). Samples arrive in the
  callback it registers; those of the amplitude are kept in a buffer, from which a trace is cut 40 samples
  after a trigger. Its state is the record \<open>ads_driver\<close>; the device is None where the registry has none.

  A \<open>steady_timer\<close> is \<open>pending\<close>, one wait was started and has not expired, and a count of the handlers of
  expired waits that have not run yet; a wait that is cancelled has no effect. Each function is one step,
  what it publishes is the list it gives.
\<close>

datatype ADC_SAMPLING_MODE = DISABLED | PEAK | TRACE

fun mode_octet :: "ADC_SAMPLING_MODE \<Rightarrow> u8" where
  "mode_octet DISABLED = 0"
| "mode_octet PEAK = 1"
| "mode_octet TRACE = 2"

definition octet_mode :: "u8 \<Rightarrow> ADC_SAMPLING_MODE option" where
  "octet_mode m = (if m = 0 then Some DISABLED else if m = 1 then Some PEAK else if m = 2 then Some TRACE else None)"

record steady_timer =
  tm_pending :: bool
  tm_expired :: nat

definition tm_cancel :: "steady_timer \<Rightarrow> steady_timer" where
  "tm_cancel t = t\<lparr>tm_pending := False\<rparr>"

text \<open>\<open>expires_after\<close>, which cancels the wait there is, and \<open>async_wait\<close>.\<close>

definition tm_wait :: "steady_timer \<Rightarrow> steady_timer" where
  "tm_wait t = t\<lparr>tm_pending := True\<rparr>"

definition ADC_amplitude :: u8 where "ADC_amplitude = 0"
definition ADC_buffer_size :: nat where "ADC_buffer_size = 50"
definition ADC_pretrigger :: nat where "ADC_pretrigger = 10"

record 'd ads_driver =
  dr_dev :: "'d ads1115 option"
  dr_deviceId :: u32
  dr_timer :: steady_timer
  dr_traceTimer :: steady_timer
  dr_interval :: nat
  dr_remaining :: int
  dr_burstSamples :: "rat list"
  dr_adcSamplesBuffer :: "rat list"
  dr_adcSamplingMode :: ADC_SAMPLING_MODE
  dr_eventTrigger :: u8
  dr_currentAdcSampleIndex :: int

datatype (plugins only: size) ads_output =
    Out_Sample ADS1115Event
  | Out_Trace "rat list"
  | Out_Mode u8
  | Store_EventTrigger u8

section \<open>Samples\<close>

definition sample_event :: "Sample \<Rightarrow> ('d, 'x) ads_driver_scheme \<Rightarrow> ADS1115Event" where
  "sample_event sample s =
     \<lparr>ads_deviceId = dr_deviceId s, ads_channel = ucast (sa_channel sample), ads_rawValue = word_of_int (sa_value sample),
      ads_voltage = sa_voltage sample, ads_timestamp = word_of_int (sa_timestamp sample),
      ads_convTime = Some (case dr_dev s of None \<Rightarrow> 0 | Some adc \<Rightarrow> ad_fLastConvTime adc)\<rparr>"

definition onSampleReady :: "Sample \<Rightarrow> ('d, 'x) ads_driver_scheme \<Rightarrow> ('d, 'x) ads_driver_scheme \<times> ads_output list" where
  "onSampleReady sample s =
     (let event = sample_event sample s
      in if ucast (sa_channel sample) \<noteq> ADC_amplitude then (s, [Out_Sample event])
         else case dr_adcSamplingMode s of
           TRACE \<Rightarrow>
             (let buf = dr_adcSamplesBuffer s @ [sa_voltage sample];
                  buf = drop (length buf - ADC_buffer_size) buf;
                  publishSample = (dr_currentAdcSampleIndex s = 0);
                  index = (if 0 \<le> dr_currentAdcSampleIndex s then dr_currentAdcSampleIndex s + 1 else dr_currentAdcSampleIndex s);
                  complete = (0 \<le> dr_currentAdcSampleIndex s \<and> int (ADC_buffer_size - ADC_pretrigger) \<le> index)
              in (s\<lparr>dr_adcSamplesBuffer := buf, dr_currentAdcSampleIndex := (if complete then - 1 else index)\<rparr>,
                  (if publishSample then [Out_Sample event] else []) @ (if complete \<and> buf \<noteq> [] then [Out_Trace buf] else [])))
         | PEAK \<Rightarrow> (s\<lparr>dr_currentAdcSampleIndex := 0\<rparr>, [Out_Sample event])
         | DISABLED \<Rightarrow> (s, []))"

text \<open>A call of \<open>getSample\<close>, with the callback for what it hands on.\<close>

definition sample_channel :: "'d i2c_bus \<Rightarrow> 'd adc_env \<Rightarrow> u32 \<Rightarrow> 'd ads1115 \<Rightarrow> 'd ads_driver
    \<Rightarrow> (Sample \<times> 'd ads_driver \<times> ads_output list) option" where
  "sample_channel bus env channel adc s = do {
     (sample, called, adc) \<leftarrow> getSample bus env True channel adc;
     let s = s\<lparr>dr_dev := Some adc\<rparr>;
     let (s, out) = (case called of [] \<Rightarrow> (s, []) | smp # _ \<Rightarrow> onSampleReady smp s);
     Some (sample, s, out)
   }"

fun update_channels :: "'d i2c_bus \<Rightarrow> 'd adc_env \<Rightarrow> u32 list \<Rightarrow> 'd ads_driver \<Rightarrow> ('d ads_driver \<times> ads_output list) option" where
  "update_channels bus env [] s = Some (s, [])"
| "update_channels bus env (channel # channels) s =
     (case dr_dev s of None \<Rightarrow> Some (s, [])
      | Some adc \<Rightarrow> do {
          (_, s, out) \<leftarrow> sample_channel bus env channel adc s;
          (s, outs) \<leftarrow> update_channels bus env channels s;
          Some (s, out @ outs)
        })"

definition ads_update :: "'d i2c_bus \<Rightarrow> 'd adc_env \<Rightarrow> 'd ads_driver \<Rightarrow> ('d ads_driver \<times> ads_output list) option" where
  "ads_update bus env s = update_channels bus env [0, 1, 2, 3] s"

definition sampleAdcEvent :: "'d i2c_bus \<Rightarrow> 'd adc_env \<Rightarrow> u8 \<Rightarrow> 'd ads_driver \<Rightarrow> ('d ads_driver \<times> ads_output list) option" where
  "sampleAdcEvent bus env channel s =
     (if dr_adcSamplingMode s = DISABLED then Some (s, [])
      else case dr_dev s of None \<Rightarrow> Some (s, [])
        | Some adc \<Rightarrow> do { (_, s, out) \<leftarrow> sample_channel bus env (ucast channel) adc s; Some (s, out) })"

text \<open>The result is the voltage and \<open>ok\<close>.\<close>

definition ads_getVoltage :: "'d i2c_bus \<Rightarrow> 'd adc_env \<Rightarrow> u8 \<Rightarrow> 'd ads_driver
    \<Rightarrow> (rat \<times> bool \<times> 'd ads_driver \<times> ads_output list) option" where
  "ads_getVoltage bus env channel s =
     (case dr_dev s of None \<Rightarrow> Some (- 1, False, s, [])
      | Some adc \<Rightarrow> do { (sample, s, out) \<leftarrow> sample_channel bus env (ucast channel) adc s; Some (sa_voltage sample, True, s, out) })"

section \<open>Bursts\<close>

definition stopBurst :: "'d ads_driver \<Rightarrow> 'd ads_driver" where
  "stopBurst s = s\<lparr>dr_remaining := 0, dr_timer := tm_cancel (dr_timer s)\<rparr>"

definition scheduleBurst :: "'d ads_driver \<Rightarrow> 'd ads_driver" where
  "scheduleBurst s = (if dr_remaining s \<le> 0 then s else s\<lparr>dr_timer := tm_wait (dr_timer s)\<rparr>)"

text \<open>\<open>fits\<close>: whether \<open>reserve\<close> has the memory; otherwise it throws.\<close>

definition startBurst :: "(u64 \<Rightarrow> bool) \<Rightarrow> u64 \<Rightarrow> u64 \<Rightarrow> 'd ads_driver \<Rightarrow> 'd ads_driver" where
  "startBurst fits frequencyHz samples s =
     (if frequencyHz = 0 \<or> samples = 0 then stopBurst s
      else (let s = s\<lparr>dr_interval := max 1 (1000 div unat frequencyHz), dr_remaining := sint (ucast samples :: i32),
                     dr_burstSamples := []\<rparr>
            in if \<not> fits samples then s else scheduleBurst s))"

text \<open>The handler of a wait that has expired.\<close>

definition burst_handler :: "'d i2c_bus \<Rightarrow> 'd adc_env \<Rightarrow> 'd ads_driver \<Rightarrow> ('d ads_driver \<times> ads_output list) option" where
  "burst_handler bus env s =
     (case dr_dev s of None \<Rightarrow> Some (stopBurst s, [])
      | Some adc \<Rightarrow> do {
          (sample, s, out) \<leftarrow> sample_channel bus env (ucast ADC_amplitude) adc s;
          let s = (if \<not> sample_eq sample InvalidSample then s\<lparr>dr_burstSamples := dr_burstSamples s @ [sa_voltage sample]\<rparr> else s);
          let s = s\<lparr>dr_remaining := dr_remaining s - 1\<rparr>;
          if dr_remaining s \<le> 0
          then (if dr_burstSamples s \<noteq> [] then Some (s\<lparr>dr_burstSamples := []\<rparr>, out @ [Out_Trace (dr_burstSamples s)])
                else Some (s, out))
          else Some (scheduleBurst s, out)
        })"

section \<open>Modes and triggers\<close>

definition scheduleTraceSampling :: "'d ads_driver \<Rightarrow> 'd ads_driver" where
  "scheduleTraceSampling s = s\<lparr>dr_traceTimer := tm_wait (dr_traceTimer s)\<rparr>"

text \<open>A mode that is none of the three is ignored.\<close>

definition setAdcSamplingMode :: "u8 \<Rightarrow> 'd ads_driver \<Rightarrow> 'd ads_driver" where
  "setAdcSamplingMode m s =
     (case octet_mode m of None \<Rightarrow> s
      | Some mode \<Rightarrow>
          (let s = s\<lparr>dr_adcSamplingMode := mode, dr_currentAdcSampleIndex := - 1, dr_adcSamplesBuffer := []\<rparr>;
               s = s\<lparr>dr_traceTimer := tm_cancel (dr_traceTimer s)\<rparr>
           in if mode = TRACE then scheduleTraceSampling s else s))"

definition trace_handler :: "'d i2c_bus \<Rightarrow> 'd adc_env \<Rightarrow> 'd ads_driver \<Rightarrow> ('d ads_driver \<times> ads_output list) option" where
  "trace_handler bus env s =
     (if dr_adcSamplingMode s \<noteq> TRACE then Some (s, [])
      else do { (s, out) \<leftarrow> sampleAdcEvent bus env ADC_amplitude s; Some (scheduleTraceSampling s, out) })"

definition handle_mode_request :: "'d ads_driver \<Rightarrow> 'd ads_driver \<times> ads_output list" where
  "handle_mode_request s = (s, [Out_Mode (mode_octet (dr_adcSamplingMode s))])"

definition handle_event_trigger :: "u8 \<Rightarrow> 'd ads_driver \<Rightarrow> 'd ads_driver \<times> ads_output list" where
  "handle_event_trigger signal s = (s\<lparr>dr_eventTrigger := signal\<rparr>, [Store_EventTrigger signal])"

text \<open>The trigger of a GPIO event, and the sample it asks for.\<close>

definition trigger :: "u8 \<Rightarrow> ('d, 'x) ads_driver_scheme \<Rightarrow> bool \<times> ('d, 'x) ads_driver_scheme" where
  "trigger signal s = (if signal = dr_eventTrigger s then (True, s\<lparr>dr_currentAdcSampleIndex := 0\<rparr>) else (False, s))"

definition handle_gpio_event :: "'d i2c_bus \<Rightarrow> 'd adc_env \<Rightarrow> gpio_event \<Rightarrow> 'd ads_driver
    \<Rightarrow> ('d ads_driver \<times> ads_output list) option" where
  "handle_gpio_event bus env event s =
     (let (shouldSample, s) = trigger (ge_signal event) s
      in if shouldSample then sampleAdcEvent bus env ADC_amplitude s else Some (s, []))"

section \<open>Construction\<close>

text \<open>\<open>junk\<close> as in \<open>setThreshold\<close>; whether the pin mode could be set is only logged.\<close>

definition ads_driver_init :: "'d i2c_bus \<Rightarrow> byte \<Rightarrow> byte \<Rightarrow> u32 \<Rightarrow> 'd ads1115 option \<Rightarrow> 'd ads_driver option" where
  "ads_driver_init bus junk1 junk2 deviceId dev =
     (let idle = \<lparr>tm_pending = False, tm_expired = 0\<rparr>;
          s = \<lparr>dr_dev = dev, dr_deviceId = deviceId, dr_timer = idle, dr_traceTimer = idle, dr_interval = 0, dr_remaining = 0,
               dr_burstSamples = [], dr_adcSamplesBuffer = [], dr_adcSamplingMode = PEAK, dr_eventTrigger = EVT_XOR,
               dr_currentAdcSampleIndex = - 1\<rparr>
      in case dev of None \<Rightarrow> Some (setAdcSamplingMode (mode_octet DISABLED) s)
         | Some device \<Rightarrow> do {
             (_, device) \<leftarrow> setDataReadyPinMode bus junk1 junk2 (setAGC False (setRate SPS860 (setPga PGA4V device)));
             Some (s\<lparr>dr_dev := Some device\<rparr>)
           })"

section \<open>Traces\<close>

text \<open>
  What the bus and the sampling loop do to a driver in trace mode: a GPIO event, another choice of the trigger, or a
  sample of some channel. Each takes the mutex, so a history is a list of them.
\<close>

datatype trace_op = Gpio u8 | Choose u8 | Sampled Sample

fun trace_step :: "trace_op \<Rightarrow> 'd ads_driver \<Rightarrow> 'd ads_driver" where
  "trace_step (Gpio signal) s = snd (trigger signal s)"
| "trace_step (Choose signal) s = fst (handle_event_trigger signal s)"
| "trace_step (Sampled sample) s = fst (onSampleReady sample s)"

definition trace_run :: "trace_op list \<Rightarrow> 'd ads_driver \<Rightarrow> 'd ads_driver" where
  "trace_run ops s = fold trace_step ops s"

definition is_amplitude :: "Sample \<Rightarrow> bool" where
  "is_amplitude sample \<longleftrightarrow> (ucast (sa_channel sample) :: u8) = ADC_amplitude"

text \<open>The reference reads a history from its newest end.\<close>

fun chosen :: "u8 \<Rightarrow> trace_op list \<Rightarrow> u8" where
  "chosen e [] = e"
| "chosen e (Choose signal # h) = signal"
| "chosen e (_ # h) = chosen e h"

text \<open>The samples of the amplitude since the last trigger.\<close>

fun since :: "u8 \<Rightarrow> trace_op list \<Rightarrow> nat option" where
  "since e [] = None"
| "since e (Gpio signal # h) = (if signal = chosen e h then Some 0 else since e h)"
| "since e (Choose signal # h) = since e h"
| "since e (Sampled x # h) = (if is_amplitude x then map_option Suc (since e h) else since e h)"

fun amplitudes :: "trace_op list \<Rightarrow> rat list" where
  "amplitudes [] = []"
| "amplitudes (Sampled x # h) = (if is_amplitude x then [sa_voltage x] else []) @ amplitudes h"
| "amplitudes (_ # h) = amplitudes h"

definition newest_first :: "trace_op list \<Rightarrow> rat list" where
  "newest_first h = take ADC_buffer_size (amplitudes h)"

definition trace_inv :: "u8 \<Rightarrow> trace_op list \<Rightarrow> 'd ads_driver \<Rightarrow> bool" where
  "trace_inv e h s \<longleftrightarrow> dr_adcSamplingMode s = TRACE \<and> dr_eventTrigger s = chosen e h \<and>
     dr_adcSamplesBuffer s = rev (newest_first h) \<and>
     dr_currentAdcSampleIndex s = (case since e h of None \<Rightarrow> - 1 | Some n \<Rightarrow> if n < 40 then int n else - 1)"

lemma drop_oldest: "drop (length (rev (take n xs) @ [x]) - n) (rev (take n xs) @ [x]) = rev (take n (x # xs))"
proof -
  have "take n (x # xs) = take n (x # take n xs)"
    by (cases n) simp_all
  then show ?thesis
    by (simp add: rev_take [of n "x # take n xs"])
qed

lemma trace_inv_start: "trace_inv (dr_eventTrigger s) [] (setAdcSamplingMode 2 s)"
  by (simp add: trace_inv_def setAdcSamplingMode_def octet_mode_def scheduleTraceSampling_def newest_first_def)

lemma sampled_trace:
  assumes "trace_inv e h s" "is_amplitude x"
  shows "trace_inv e (Sampled x # h) (fst (onSampleReady x s))"
    "snd (onSampleReady x s) = (if since e h = Some 0 then [Out_Sample (sample_event x s)] else []) @
       (if since e h = Some 39 then [Out_Trace (rev (newest_first (Sampled x # h)))] else [])"
proof -
  let ?buf = "dr_adcSamplesBuffer s @ [sa_voltage x]" and ?next = "newest_first (Sampled x # h)"
  have "drop (length ?buf - ADC_buffer_size) ?buf = rev (take ADC_buffer_size (sa_voltage x # amplitudes h))"
    using assms drop_oldest [of ADC_buffer_size "amplitudes h" "sa_voltage x"] by (simp add: trace_inv_def newest_first_def)
  then have buf: "drop (length ?buf - ADC_buffer_size) ?buf = rev ?next"
    using assms by (simp add: newest_first_def)
  have full: "?next \<noteq> []"
    using assms by (simp add: newest_first_def ADC_buffer_size_def)
  have "int (ADC_buffer_size - ADC_pretrigger) = 40"
    by (simp add: ADC_buffer_size_def ADC_pretrigger_def)
  note ready = onSampleReady_def [of x s, unfolded Let_def buf this]
  show "trace_inv e (Sampled x # h) (fst (onSampleReady x s))"
    using assms by (auto simp: ready trace_inv_def is_amplitude_def split: option.splits)
  show "snd (onSampleReady x s) = (if since e h = Some 0 then [Out_Sample (sample_event x s)] else []) @
      (if since e h = Some 39 then [Out_Trace (rev ?next)] else [])"
    using assms full by (auto simp: ready trace_inv_def is_amplitude_def split: option.splits)
qed

lemma trace_inv_step: "trace_inv e h s \<Longrightarrow> trace_inv e (op # h) (trace_step op s)"
proof (cases op)
  case (Sampled x)
  assume inv: "trace_inv e h s"
  show ?thesis
  proof (cases "is_amplitude x")
    case True
    then show ?thesis using sampled_trace(1) [OF inv True] Sampled by simp
  next
    case False
    then show ?thesis using inv Sampled by (simp add: trace_inv_def onSampleReady_def is_amplitude_def Let_def newest_first_def)
  qed
qed (auto simp: trace_inv_def trigger_def handle_event_trigger_def newest_first_def)

lemma trace_inv_run: "trace_inv (dr_eventTrigger s) h (trace_run (rev h) (setAdcSamplingMode 2 s))"
  by (induction h) (simp_all add: trace_run_def trace_inv_start trace_inv_step)

text \<open>
  C22: In trace mode the driver does what the reference says of every history. A sample of the amplitude is published
  when, and only when, it is the first since the last event of the chosen signal; a trace is published when, and only
  when, the sample is the 40th since that event, and it is the newest 50 samples of the amplitude, oldest first, fewer
  when there are not yet 50. Samples of the other channels are always published and do not count.
\<close>

theorem traces_exact:
  "snd (onSampleReady x (trace_run (rev h) (setAdcSamplingMode 2 s))) =
     (let e = dr_eventTrigger s; sample = [Out_Sample (sample_event x (trace_run (rev h) (setAdcSamplingMode 2 s)))]
      in if \<not> is_amplitude x then sample
         else (if since e h = Some 0 then sample else []) @
              (if since e h = Some 39 then [Out_Trace (rev (take 50 (amplitudes (Sampled x # h))))] else []))"
proof (cases "is_amplitude x")
  case True
  then show ?thesis
    by (simp add: sampled_trace(2) [OF trace_inv_run] newest_first_def ADC_buffer_size_def Let_def)
next
  case False
  then show ?thesis
    by (simp add: onSampleReady_def is_amplitude_def Let_def)
qed

end
