(* ===== verification/Gpio_Driver.thy ===== *)
theory Gpio_Driver
  imports Messages Gpio_Signals "HOL-Library.AList"
begin

text \<open>
  The driver of the GPIO lines: class \<open>GpioDriver\<close> (\<open>daemon/src/drivers/gpio_driver.cpp\<close>), and the pins of \<open>daemon/src/utility/gpio_mapping.h\<close>. The library
  libgpiod is a parameter over a state of its own, \<open>'d\<close>. What the driver publishes is the list a
  function gives; an exception that leaves a function is the value None or the flag \<open>threw\<close>.
\<close>

section \<open>Pins\<close>

definition GPIO_PINMAP_VERSIONS :: "(u8 \<times> u32) list list" where
  "GPIO_PINMAP_VERSIONS =
     [[],
      [(UBIAS_EN, 4), (PREAMP_1, 20), (PREAMP_2, 21), (EVT_AND, 5), (EVT_XOR, 6), (GAIN_HL, 17), (ADC_READY, 23),
       (TIMEPULSE, 18), (STATUS1, 13), (STATUS2, 19), (STATUS3, 26), (EXT_TRIGGER, 16), (TDC_INTB, 24), (TDC_STATUS, 25)],
      [(UBIAS_EN, 26), (PREAMP_1, 4), (PREAMP_2, 17), (EVT_AND, 22), (EVT_XOR, 27), (GAIN_HL, 6), (ADC_READY, 12),
       (TIMEPULSE, 18), (TIME_MEAS_OUT, 5), (STATUS1, 13), (STATUS2, 19), (PREAMP_FAULT, 23), (EXT_TRIGGER, 16),
       (TDC_INTB, 20), (TDC_STATUS, 21)],
      [(UBIAS_EN, 26), (PREAMP_1, 4), (PREAMP_2, 17), (EVT_AND, 22), (EVT_XOR, 27), (GAIN_HL, 6), (ADC_READY, 12),
       (TIMEPULSE, 18), (TIME_MEAS_OUT, 5), (STATUS1, 13), (STATUS2, 19), (PREAMP_FAULT, 23), (EXT_TRIGGER, 16),
       (IN_POL1, 24), (IN_POL2, 25)]]"

section \<open>The library and the driver\<close>

text \<open>\<open>cfg_edge\<close>: whether both edges are detected; for an output it is not used.\<close>

record LineConfig =
  cfg_dir :: SIGNAL_DIRECTION
  cfg_initialValue :: bool
  cfg_both_edges :: bool

text \<open>
  \<open>gpiod_chip_request_lines\<close> gives a handle or none, \<open>gpiod_line_request_set_value\<close> whether it returned 0;
  \<open>release\<close> and \<open>close\<close> as named.
\<close>

record 'd gpiod =
  gd_request_lines :: "LineConfig \<Rightarrow> u32 list \<Rightarrow> 'd \<Rightarrow> nat option \<times> 'd"
  gd_set_value :: "nat \<Rightarrow> u32 \<Rightarrow> bool \<Rightarrow> 'd \<Rightarrow> bool \<times> 'd"
  gd_release :: "nat \<Rightarrow> 'd \<Rightarrow> 'd"
  gd_chip_close :: "'d \<Rightarrow> 'd"

record gpio_driver =
  gp_pinmap :: "(u8 \<times> u32) list"
  gp_r_pinmap :: "u32 \<rightharpoonup> u8"
  gp_inputRequests :: "nat list"
  gp_outputRequests :: "nat list"
  gp_gpioMap :: "u32 \<rightharpoonup> nat \<times> u32"
  gp_ratebuffers :: "(u8 \<times> rate_buffer) list"
  gp_running :: bool
  gp_biasInverted :: bool

definition gpio_init_state :: gpio_driver where
  "gpio_init_state = \<lparr>gp_pinmap = [], gp_r_pinmap = Map.empty, gp_inputRequests = [], gp_outputRequests = [],
     gp_gpioMap = Map.empty, gp_ratebuffers = [], gp_running = False, gp_biasInverted = False\<rparr>"

text \<open>What goes to the bus: events, commands, and events for the datastore to keep.\<close>

datatype (plugins only: size) gpio_output =
    Pub_Gpio gpio_event
  | Pub_Interval interval_event
  | Pub_SignalSet u8 bool
  | Store_Event event
  | Store_StatusLed u8 int bool

section \<open>Configuration\<close>

text \<open>A set of requests is the list of its elements.\<close>

definition configureLines :: "'d gpiod \<Rightarrow> u32 list \<Rightarrow> LineConfig \<Rightarrow> gpio_driver \<times> 'd \<Rightarrow> bool \<times> gpio_driver \<times> 'd" where
  "configureLines gd gpios cfg sd =
     (if gpios = [] then (True, sd)
      else (let (s, d) = sd
            in case gd_request_lines gd cfg gpios d of
                 (None, d) \<Rightarrow> (False, s, d)
               | (Some req, d) \<Rightarrow>
                   (let s = (if cfg_dir cfg = DIR_IN then s\<lparr>gp_inputRequests := List.insert req (gp_inputRequests s)\<rparr>
                             else s\<lparr>gp_outputRequests := List.insert req (gp_outputRequests s)\<rparr>)
                    in (True, s\<lparr>gp_gpioMap := fold (\<lambda>gpio m. m(gpio \<mapsto> (req, gpio))) gpios (gp_gpioMap s)\<rparr>, d))))"

text \<open>The pins of the signals of one direction, in the order of the signals.\<close>

definition pins_of :: "SIGNAL_DIRECTION \<Rightarrow> (u8 \<times> u32) list \<Rightarrow> u32 list" where
  "pins_of dir pinmap = concat (map (\<lambda>(sig, direction).
     if sig = UNDEFINED_SIGNAL then []
     else case map_of pinmap sig of None \<Rightarrow> [] | Some gpio \<Rightarrow> if direction = dir then [gpio] else []) GPIO_SIGNAL_MAP)"

text \<open>
  \<open>hardware\<close> is the number \<open>MuonPi::Version::hardware.major\<close> has here, \<open>version\<close> that of the argument, which
  indexes an array of four. The results of \<open>configureLines\<close> are not looked at.
\<close>

definition gpio_init :: "'d gpiod \<Rightarrow> event_time \<Rightarrow> int \<Rightarrow> nat \<Rightarrow> gpio_driver \<times> 'd \<Rightarrow> (gpio_driver \<times> 'd) option" where
  "gpio_init gd now hardware version sd =
     (if length GPIO_PINMAP_VERSIONS \<le> version then None
      else (let (s, d) = sd; pinmap = GPIO_PINMAP_VERSIONS ! version;
                s = s\<lparr>gp_biasInverted := (hardware \<noteq> 1), gp_pinmap := pinmap,
                      gp_r_pinmap := fold (\<lambda>(sig, gpio) m. m(gpio \<mapsto> sig)) pinmap (gp_r_pinmap s)\<rparr>;
                (_, s, d) = configureLines gd (pins_of DIR_IN pinmap)
                   \<lparr>cfg_dir = DIR_IN, cfg_initialValue = False, cfg_both_edges = True\<rparr> (s, d);
                (_, s, d) = configureLines gd (pins_of DIR_OUT pinmap)
                   \<lparr>cfg_dir = DIR_OUT, cfg_initialValue = False, cfg_both_edges = False\<rparr> (s, d);
                inputs = map fst (filter (\<lambda>(sig, dir). dir = DIR_IN \<and> map_of pinmap sig \<noteq> None) GPIO_SIGNAL_MAP);
                fresh = filter (\<lambda>sig. map_of (gp_ratebuffers s) sig = None) inputs;
                s = s\<lparr>gp_ratebuffers := gp_ratebuffers s @ map (\<lambda>sig. (sig, rate_buffer_init None (5 * 1000000000) 0 now)) fresh\<rparr>
            in Some (s\<lparr>gp_running := True\<rparr>, d)))"

section \<open>Outputs\<close>

definition writeGpio :: "'d gpiod \<Rightarrow> gpio_driver \<Rightarrow> u32 \<Rightarrow> bool \<Rightarrow> 'd \<Rightarrow> bool \<times> 'd" where
  "writeGpio gd s gpio val d =
     (case gp_gpioMap s gpio of None \<Rightarrow> (False, d) | Some (req, offset) \<Rightarrow> gd_set_value gd req offset val d)"

text \<open>The first value is None where \<open>pinmap_.at\<close> throws.\<close>

definition writeSignal :: "'d gpiod \<Rightarrow> event_time \<Rightarrow> gpio_driver \<Rightarrow> u8 \<Rightarrow> bool \<Rightarrow> 'd \<Rightarrow> bool option \<times> gpio_output list \<times> 'd" where
  "writeSignal gd now s sig val d =
     (case map_of (gp_pinmap s) sig of None \<Rightarrow> (None, [], d)
      | Some gpio \<Rightarrow>
          (let (ok, d) = writeGpio gd s gpio val d
           in (Some ok, if ok then [Pub_Gpio \<lparr>ge_signal = sig, ge_pin = gpio, ge_timestamp = now,
                                     ge_edge = (if val then Rising else Falling)\<rparr>] else [], d)))"

definition handle_polarity_switch :: "'d gpiod \<Rightarrow> event_time \<Rightarrow> gpio_driver \<Rightarrow> bool \<Rightarrow> bool \<Rightarrow> 'd \<Rightarrow> bool \<times> gpio_output list \<times> 'd" where
  "handle_polarity_switch gd now s pol1 pol2 d =
     (case writeSignal gd now s IN_POL1 pol1 d of
        (None, out, d) \<Rightarrow> (True, out, d)
      | (Some False, out, d) \<Rightarrow> (False, out, d)
      | (Some True, out, d) \<Rightarrow>
          (case writeSignal gd now s IN_POL2 pol2 d of
             (None, out2, d) \<Rightarrow> (True, out @ out2, d)
           | (Some False, out2, d) \<Rightarrow> (False, out @ out2, d)
           | (Some True, out2, d) \<Rightarrow>
               (False, out @ out2 @ [Store_Event (Ev_PolaritySwitch \<lparr>pse_pol1 = pol1, pse_pol2 = pol2\<rparr>)], d)))"

definition handle_bias_switch :: "gpio_driver \<Rightarrow> bool \<Rightarrow> gpio_output list" where
  "handle_bias_switch s state = [Pub_SignalSet UBIAS_EN (if gp_biasInverted s then \<not> state else state)]"

definition handle_preamp_switch :: "u8 \<Rightarrow> bool \<Rightarrow> gpio_output list" where
  "handle_preamp_switch channel state =
     (if channel = 0 then [Pub_SignalSet PREAMP_1 state]
      else if channel = 1 then [Pub_SignalSet PREAMP_2 state] else [])"

definition handle_gain_switch :: "bool \<Rightarrow> gpio_output list" where
  "handle_gain_switch state = [Pub_SignalSet GAIN_HL state]"

text \<open>What the datastore is told after a signal was set.\<close>

definition stored_switch :: "bool \<Rightarrow> u8 \<Rightarrow> bool \<Rightarrow> gpio_output list" where
  "stored_switch inverted sig on =
     (if sig = UBIAS_EN then [Store_Event (Ev_BiasSwitch (if inverted then \<not> on else on))]
      else if sig = PREAMP_1 then [Store_Event (Ev_PreampSwitch \<lparr>pre_channel = 0, pre_state = on\<rparr>)]
      else if sig = PREAMP_2 then [Store_Event (Ev_PreampSwitch \<lparr>pre_channel = 1, pre_state = on\<rparr>)]
      else if sig = IN_POL1 \<or> sig = IN_POL2 then []
      else if sig = GAIN_HL then [Store_Event (Ev_GainSwitch on)]
      else if sig = STATUS1 \<or> sig = STATUS2 \<or> sig = STATUS3 then [Store_StatusLed sig 20 on]
      else [])"

definition handle_signal_set :: "'d gpiod \<Rightarrow> event_time \<Rightarrow> gpio_driver \<Rightarrow> u8 \<Rightarrow> bool \<Rightarrow> 'd \<Rightarrow> bool \<times> gpio_output list \<times> 'd" where
  "handle_signal_set gd now s sig on d =
     (case writeSignal gd now s sig on d of
        (None, out, d) \<Rightarrow> (True, out, d)
      | (Some False, out, d) \<Rightarrow> (False, out, d)
      | (Some True, out, d) \<Rightarrow> (False, out @ stored_switch (gp_biasInverted s) sig on, d))"

text \<open>The status LEDs go out after a while: the task for the scheduler, the delay in milliseconds, if there is one.\<close>

definition handle_status_led :: "u8 \<Rightarrow> int \<Rightarrow> bool \<Rightarrow> (int \<times> u8 \<times> bool) option" where
  "handle_status_led sig durationMillisec on =
     (if on = False then None else if 0 \<le> durationMillisec then Some (durationMillisec, sig, \<not> on) else None)"

text \<open>The destructor, after it has stopped the thread.\<close>

definition reset_signal :: "'d gpiod \<Rightarrow> gpio_driver \<Rightarrow> u8 \<times> SIGNAL_DIRECTION \<Rightarrow> 'd \<Rightarrow> 'd" where
  "reset_signal gd s = (\<lambda>(sig, direction) d.
     if sig = UNDEFINED_SIGNAL then d
     else case map_of (gp_pinmap s) sig of None \<Rightarrow> d
       | Some gpio \<Rightarrow>
           if direction = DIR_OUT then snd (writeGpio gd s gpio (sig = UBIAS_EN \<and> gp_biasInverted s) d) else d)"

definition gpio_destroy :: "'d gpiod \<Rightarrow> gpio_driver \<Rightarrow> 'd \<Rightarrow> 'd" where
  "gpio_destroy gd s d =
     gd_chip_close gd (fold (gd_release gd) (gp_inputRequests s @ gp_outputRequests s)
       (fold (reset_signal gd s) GPIO_SIGNAL_MAP d))"

section \<open>Inputs\<close>

definition processEvent :: "gpio_event \<Rightarrow> gpio_driver \<Rightarrow> gpio_driver \<times> gpio_output list" where
  "processEvent event s =
     (case map_of (gp_ratebuffers s) (ge_signal event) of
        None \<Rightarrow> (s, [Pub_Gpio event])
      | Some buffer \<Rightarrow>
          (let (buffer, accepted, interval) = handle_event event buffer
           in (s\<lparr>gp_ratebuffers := AList.update (ge_signal event) buffer (gp_ratebuffers s)\<rparr>,
               (if accepted then [Pub_Gpio event] else []) @
               (case interval of None \<Rightarrow> [] | Some iv \<Rightarrow> [Pub_Interval iv]))))"

text \<open>
  An edge the library has read: its line, its timestamp in nanoseconds and whether it is a rising one. None where
  \<open>r_pinmap_.at\<close> throws, which ends the program, for no one catches it in this thread.
\<close>

type_synonym edge_event = "u32 \<times> u64 \<times> bool"

definition edge_to_event :: "gpio_driver \<Rightarrow> edge_event \<Rightarrow> gpio_event option" where
  "edge_to_event s = (\<lambda>(offset, ns, rising).
     case gp_r_pinmap s offset of None \<Rightarrow> None
     | Some sig \<Rightarrow> Some \<lparr>ge_signal = sig, ge_pin = offset, ge_timestamp = sint ns, ge_edge = (if rising then Rising else Falling)\<rparr>)"

fun handle_edges :: "edge_event list \<Rightarrow> gpio_driver \<Rightarrow> (gpio_driver \<times> gpio_output list) option" where
  "handle_edges [] s = Some (s, [])"
| "handle_edges (ev # evs) s =
     (case edge_to_event s ev of None \<Rightarrow> None
      | Some event \<Rightarrow>
          (let (s, out) = processEvent event s
           in case handle_edges evs s of None \<Rightarrow> None | Some (s, outs) \<Rightarrow> Some (s, out @ outs)))"

text \<open>
  One round of \<open>eventLoop\<close>: \<open>poll\<close> has returned with a positive number while the driver runs, and of each
  descriptor that is ready it is known what can be read, at most 128 edges from a request.
\<close>

datatype ready_fd = Ready_Control | Ready_Lines "edge_event list"

fun event_round :: "ready_fd list \<Rightarrow> gpio_driver \<Rightarrow> (gpio_driver \<times> gpio_output list) option" where
  "event_round [] s = Some (s, [])"
| "event_round (Ready_Control # fds) s = event_round fds s"
| "event_round (Ready_Lines evs # fds) s =
     (case handle_edges (take 128 evs) s of None \<Rightarrow> None
      | Some (s, out) \<Rightarrow> (case event_round fds s of None \<Rightarrow> None | Some (s, outs) \<Rightarrow> Some (s, out @ outs)))"

definition gpio_stop :: "gpio_driver \<Rightarrow> gpio_driver" where
  "gpio_stop s = s\<lparr>gp_running := False\<rparr>"

text \<open>The buffers in the order in which the map is iterated.\<close>

fun average_rates :: "event_time \<Rightarrow> (u8 \<times> rate_buffer) list \<Rightarrow> (u8 \<times> rate_buffer) list \<times> gpio_output list" where
  "average_rates now [] = ([], [])"
| "average_rates now ((sig, buffer) # buffers) =
     (let (rest, outs) = average_rates now buffers
      in if sig = EVT_AND \<or> sig = EVT_XOR
         then (let (buffer, rates) = sampleAndRetrieve now buffer
               in ((sig, buffer) # rest,
                   Store_Event (Ev_GpioRate \<lparr>gre_whichRate = (if sig = EVT_AND then 1 else 0), gre_rate = rates\<rparr>) # outs))
         else ((sig, buffer) # rest, outs))"

definition sendGpioRatesAverage :: "event_time \<Rightarrow> gpio_driver \<Rightarrow> gpio_driver \<times> gpio_output list" where
  "sendGpioRatesAverage now s =
     (let (buffers, outs) = average_rates now (gp_ratebuffers s) in (s\<lparr>gp_ratebuffers := buffers\<rparr>, outs))"
section \<open>The switches\<close>

text \<open>
  A command, and what follows from it: each command it publishes is handled in turn. The result is whether
  a handler threw, everything else that was published, and the library's state.
\<close>

datatype switch_cmd = Sw_Bias bool | Sw_Preamp u8 bool | Sw_Gain bool | Sw_Polarity bool bool | Sw_Set u8 bool

fun follow :: "'d gpiod \<Rightarrow> event_time \<Rightarrow> gpio_driver \<Rightarrow> gpio_output list \<Rightarrow> 'd \<Rightarrow> bool \<times> gpio_output list \<times> 'd" where
  "follow gd now s [] d = (False, [], d)"
| "follow gd now s (Pub_SignalSet sig on # outs) d =
     (let (t1, o1, d) = handle_signal_set gd now s sig on d; (t2, o2, d) = follow gd now s outs d in (t1 \<or> t2, o1 @ o2, d))"
| "follow gd now s (out # outs) d = (let (t2, o2, d) = follow gd now s outs d in (t2, out # o2, d))"

fun run_switch :: "'d gpiod \<Rightarrow> event_time \<Rightarrow> gpio_driver \<Rightarrow> switch_cmd \<Rightarrow> 'd \<Rightarrow> bool \<times> gpio_output list \<times> 'd" where
  "run_switch gd now s (Sw_Bias state) d = follow gd now s (handle_bias_switch s state) d"
| "run_switch gd now s (Sw_Preamp channel state) d = follow gd now s (handle_preamp_switch channel state) d"
| "run_switch gd now s (Sw_Gain state) d = follow gd now s (handle_gain_switch state) d"
| "run_switch gd now s (Sw_Polarity pol1 pol2) d = handle_polarity_switch gd now s pol1 pol2 d"
| "run_switch gd now s (Sw_Set sig on) d = handle_signal_set gd now s sig on d"

definition is_stored :: "gpio_output \<Rightarrow> bool" where
  "is_stored out \<longleftrightarrow> (case out of Store_Event _ \<Rightarrow> True | Store_StatusLed _ _ _ \<Rightarrow> True | _ \<Rightarrow> False)"

fun run_switches :: "'d gpiod \<Rightarrow> (event_time \<times> switch_cmd) list \<Rightarrow> gpio_driver \<Rightarrow> 'd \<Rightarrow> gpio_output list \<times> 'd" where
  "run_switches gd [] s d = ([], d)"
| "run_switches gd ((now, cmd) # cmds) s d =
     (let (_, out, d) = run_switch gd now s cmd d; (outs, d) = run_switches gd cmds s d in (filter is_stored out @ outs, d))"

text \<open>
  The abstract switchboard: a state for each signal, the bias counted as on or off whatever the level of its
  line, \<open>has\<close> the outputs there are.
\<close>

definition is_output :: "u8 \<Rightarrow> bool" where
  "is_output sig \<longleftrightarrow> map_of GPIO_SIGNAL_MAP sig = Some DIR_OUT"

definition has :: "nat \<Rightarrow> u8 \<Rightarrow> bool" where
  "has version sig \<longleftrightarrow> is_output sig \<and> map_of (GPIO_PINMAP_VERSIONS ! version) sig \<noteq> None"

definition active_low :: "bool \<Rightarrow> u8 \<Rightarrow> bool" where
  "active_low inverted sig \<longleftrightarrow> sig = UBIAS_EN \<and> inverted"

fun board_step :: "nat \<Rightarrow> bool \<Rightarrow> switch_cmd \<Rightarrow> (u8 \<Rightarrow> bool) \<Rightarrow> (u8 \<Rightarrow> bool) \<times> gpio_output list" where
  "board_step version inverted (Sw_Bias b) f =
     (if has version UBIAS_EN then (f(UBIAS_EN := b), [Store_Event (Ev_BiasSwitch b)]) else (f, []))"
| "board_step version inverted (Sw_Preamp channel b) f =
     (if channel < 2 \<and> has version (PREAMP_1 + channel)
      then (f(PREAMP_1 + channel := b), [Store_Event (Ev_PreampSwitch \<lparr>pre_channel = channel, pre_state = b\<rparr>)]) else (f, []))"
| "board_step version inverted (Sw_Gain b) f =
     (if has version GAIN_HL then (f(GAIN_HL := b), [Store_Event (Ev_GainSwitch b)]) else (f, []))"
| "board_step version inverted (Sw_Polarity p1 p2) f =
     (if has version IN_POL1
      then (f(IN_POL1 := p1, IN_POL2 := p2), [Store_Event (Ev_PolaritySwitch \<lparr>pse_pol1 = p1, pse_pol2 = p2\<rparr>)]) else (f, []))"
| "board_step version inverted (Sw_Set sig on) f =
     (if has version sig then (f(sig := (on \<noteq> active_low inverted sig)), stored_switch inverted sig on) else (f, []))"

fun board_run :: "nat \<Rightarrow> bool \<Rightarrow> (event_time \<times> switch_cmd) list \<Rightarrow> (u8 \<Rightarrow> bool) \<Rightarrow> (u8 \<Rightarrow> bool) \<times> gpio_output list" where
  "board_run version inverted [] f = (f, [])"
| "board_run version inverted ((_, cmd) # cmds) f =
     (let (f, out) = board_step version inverted cmd f; (f, outs) = board_run version inverted cmds f in (f, out @ outs))"

text \<open>
  What libgpiod documents: a request of lines that are free is granted, outputs get the initial value, a value
  can be set on the outputs of a request and on nothing else. \<open>level\<close> is the level of a line, \<open>outs\<close> the outputs a
  request holds.
\<close>

definition line_chip :: "'d gpiod \<Rightarrow> ('d \<Rightarrow> u32 \<Rightarrow> bool) \<Rightarrow> ('d \<Rightarrow> nat \<Rightarrow> u32 set) \<Rightarrow> bool" where
  "line_chip gd level outs \<longleftrightarrow>
     (\<forall>cfg gpios d. \<exists>req d'. gd_request_lines gd cfg gpios d = (Some req, d') \<and> outs d req = {} \<and>
        outs d' = (outs d)(req := (if cfg_dir cfg = DIR_IN then {} else set gpios)) \<and>
        level d' = (\<lambda>g. if cfg_dir cfg \<noteq> DIR_IN \<and> g \<in> set gpios then cfg_initialValue cfg else level d g)) \<and>
     (\<forall>req g v d. \<exists>d'. gd_set_value gd req g v d = (g \<in> outs d req, d') \<and> outs d' = outs d \<and>
        level d' = (if g \<in> outs d req then (level d)(g := v) else level d))"

definition wired :: "nat \<Rightarrow> bool \<Rightarrow> ('d \<Rightarrow> nat \<Rightarrow> u32 set) \<Rightarrow> gpio_driver \<Rightarrow> 'd \<Rightarrow> bool" where
  "wired version inverted outs s d \<longleftrightarrow> version < 4 \<and> gp_pinmap s = GPIO_PINMAP_VERSIONS ! version \<and> gp_biasInverted s = inverted \<and>
     (\<forall>sig gpio. map_of (gp_pinmap s) sig = Some gpio \<longrightarrow>
        (\<exists>req. gp_gpioMap s gpio = Some (req, gpio) \<and> (gpio \<in> outs d req \<longleftrightarrow> is_output sig)))"

definition shows_board :: "nat \<Rightarrow> bool \<Rightarrow> ('d \<Rightarrow> u32 \<Rightarrow> bool) \<Rightarrow> (u8 \<Rightarrow> bool) \<Rightarrow> 'd \<Rightarrow> bool" where
  "shows_board version inverted level f d \<longleftrightarrow>
     (\<forall>sig gpio. map_of (GPIO_PINMAP_VERSIONS ! version) sig = Some gpio \<and> is_output sig \<longrightarrow>
        level d gpio = (f sig \<noteq> active_low inverted sig))"

lemma versions_cases: "version < 4 \<Longrightarrow> version = 0 \<or> version = 1 \<or> version = 2 \<or> version = (3 :: nat)"
  by linarith

lemma pins_distinct:
  assumes "version < 4"
  shows "distinct (map snd (GPIO_PINMAP_VERSIONS ! version))"
  using versions_cases [OF assms] by (auto simp: GPIO_PINMAP_VERSIONS_def)

lemma pins_injective:
  assumes "version < 4" "map_of (GPIO_PINMAP_VERSIONS ! version) sig = Some gpio"
    "map_of (GPIO_PINMAP_VERSIONS ! version) sig' = Some gpio"
  shows "sig' = sig"
  using pins_distinct [OF assms(1)] map_of_SomeD [OF assms(2)] map_of_SomeD [OF assms(3)]
  by (metis distinct_map inj_onD prod.inject snd_conv)

lemma has_signals:
  assumes "version < 4"
  shows "has version UBIAS_EN \<longleftrightarrow> version \<noteq> 0" "has version IN_POL2 \<longleftrightarrow> has version IN_POL1"
  using versions_cases [OF assms] by (auto simp: has_def is_output_def GPIO_PINMAP_VERSIONS_def GPIO_SIGNAL_MAP_def signal_defs)

lemma wired_outs: "wired version inverted outs s d \<Longrightarrow> outs d' = outs d \<Longrightarrow> wired version inverted outs s d'"
  by (simp add: wired_def)

lemma writeSignal_wired:
  assumes "line_chip gd level outs" "wired version inverted outs s d" "shows_board version inverted level f d"
  obtains out d' where "writeSignal gd now s sig v d
      = (if map_of (gp_pinmap s) sig = None then None else Some (is_output sig), out, d')"
    and "wired version inverted outs s d'" and "filter is_stored out = []"
    and "shows_board version inverted level (if has version sig then f(sig := (v \<noteq> active_low inverted sig)) else f) d'"
proof (cases "map_of (gp_pinmap s) sig")
  case None
  then show thesis using that [of "[]" d] assms(2,3) by (simp add: writeSignal_def has_def wired_def)
next
  case (Some gpio)
  then obtain req where req: "gp_gpioMap s gpio = Some (req, gpio)" "gpio \<in> outs d req \<longleftrightarrow> is_output sig"
    using assms(2) unfolding wired_def by blast
  obtain d' where d': "gd_set_value gd req gpio v d = (gpio \<in> outs d req, d')" "outs d' = outs d"
    "level d' = (if gpio \<in> outs d req then (level d)(gpio := v) else level d)"
    using assms(1) unfolding line_chip_def by blast
  have pins: "version < 4" "gp_pinmap s = GPIO_PINMAP_VERSIONS ! version" using assms(2) by (simp_all add: wired_def)
  have other: "gpio' \<noteq> gpio" if "map_of (GPIO_PINMAP_VERSIONS ! version) sig' = Some gpio'" "sig' \<noteq> sig" for sig' gpio'
    using pins_injective [OF pins(1)] Some that pins(2) by metis
  have "shows_board version inverted level (if has version sig then f(sig := (v \<noteq> active_low inverted sig)) else f) d'"
    using assms(3) Some d'(3) req(2) other pins(2) by (auto simp: shows_board_def has_def)
  then show thesis
    using that d'(1) wired_outs [where outs = outs, OF assms(2) d'(2)] Some req
    by (simp add: writeSignal_def writeGpio_def is_stored_def)
qed

lemma stored_switch_stored: "filter is_stored (stored_switch inverted sig on) = stored_switch inverted sig on"
  by (simp add: stored_switch_def is_stored_def)

lemma signal_set_wired:
  assumes "line_chip gd level outs" "wired version inverted outs s d" "shows_board version inverted level f d"
  obtains threw out d' where "handle_signal_set gd now s sig on d = (threw, out, d')"
    and "wired version inverted outs s d'"
    and "filter is_stored out = snd (board_step version inverted (Sw_Set sig on) f)"
    and "shows_board version inverted level (fst (board_step version inverted (Sw_Set sig on) f)) d'"
proof -
  have "gp_pinmap s = GPIO_PINMAP_VERSIONS ! version" "gp_biasInverted s = inverted"
    using assms(2) by (simp_all add: wired_def)
  moreover obtain out d' where "writeSignal gd now s sig on d
      = (if map_of (gp_pinmap s) sig = None then None else Some (is_output sig), out, d')"
    "wired version inverted outs s d'" "filter is_stored out = []"
    "shows_board version inverted level (if has version sig then f(sig := (on \<noteq> active_low inverted sig)) else f) d'"
    by (rule writeSignal_wired [OF assms])
  ultimately show thesis
    using that by (cases "is_output sig") (auto simp: handle_signal_set_def has_def stored_switch_stored split: if_splits)
qed

lemma channel_cases: "c = 0 \<or> c = 1 \<or> c \<noteq> 0 \<and> c \<noteq> 1 \<and> \<not> c < 2" for c :: u8
  by (auto simp: word_unat_eq_iff word_less_nat_alt)

lemma follow_signal_set:
  "follow gd now s [Pub_SignalSet sig on] d = handle_signal_set gd now s sig on d"
  by (simp split: prod.split)

lemma run_switch_board:
  assumes "line_chip gd level outs" "wired version inverted outs s d" "shows_board version inverted level f d"
  obtains threw out d' where "run_switch gd now s cmd d = (threw, out, d')"
    and "wired version inverted outs s d'"
    and "filter is_stored out = snd (board_step version inverted cmd f)"
    and "shows_board version inverted level (fst (board_step version inverted cmd f)) d'"
proof -
  have s: "version < 4" "gp_pinmap s = GPIO_PINMAP_VERSIONS ! version" "gp_biasInverted s = inverted"
    using assms(2) by (simp_all add: wired_def)
  note result = that
  have set: thesis if "run_switch gd now s cmd d = handle_signal_set gd now s sig on d"
    "board_step version inverted cmd f = board_step version inverted (Sw_Set sig on) f" for sig on
    using signal_set_wired [OF assms, of now sig on] result that by metis
  show thesis
  proof (cases cmd)
    case (Sw_Bias b)
    then show thesis
      using s(3) by (intro set [of UBIAS_EN "b \<noteq> inverted"])
        (auto simp: handle_bias_switch_def follow_signal_set stored_switch_def active_low_def)
  next
    case (Sw_Preamp channel b)
    then consider "channel = 0" | "channel = 1" | "channel \<noteq> 0" "channel \<noteq> 1" "\<not> channel < 2"
      using channel_cases [of channel] by blast
    then show thesis
    proof cases
      case 1
      then show thesis using Sw_Preamp
        by (intro set [of PREAMP_1 b]) (auto simp: handle_preamp_switch_def follow_signal_set stored_switch_def active_low_def signal_defs)
    next
      case 2
      then show thesis using Sw_Preamp
        by (intro set [of PREAMP_2 b]) (auto simp: handle_preamp_switch_def follow_signal_set stored_switch_def active_low_def signal_defs)
    next
      case 3
      then show thesis using Sw_Preamp result [of False "[]" d] assms(2,3) by (auto simp: handle_preamp_switch_def)
    qed
  next
    case (Sw_Gain b)
    then show thesis
      by (intro set [of GAIN_HL b]) (auto simp: handle_gain_switch_def follow_signal_set stored_switch_def active_low_def signal_defs)
  next
    case (Sw_Polarity p1 p2)
    obtain out d' where w1: "writeSignal gd now s IN_POL1 p1 d
        = (if map_of (gp_pinmap s) IN_POL1 = None then None else Some (is_output IN_POL1), out, d')"
      and b1: "wired version inverted outs s d'" "filter is_stored out = []"
        "shows_board version inverted level (if has version IN_POL1 then f(IN_POL1 := (p1 \<noteq> active_low inverted IN_POL1)) else f) d'"
      by (rule writeSignal_wired [OF assms])
    obtain out2 d2 where w2: "writeSignal gd now s IN_POL2 p2 d'
        = (if map_of (gp_pinmap s) IN_POL2 = None then None else Some (is_output IN_POL2), out2, d2)"
      and b2: "wired version inverted outs s d2" "filter is_stored out2 = []"
        "shows_board version inverted level (if has version IN_POL2
           then (if has version IN_POL1 then f(IN_POL1 := (p1 \<noteq> active_low inverted IN_POL1)) else f)
             (IN_POL2 := (p2 \<noteq> active_low inverted IN_POL2)) else if has version IN_POL1 then f(IN_POL1 := (p1 \<noteq> active_low inverted IN_POL1)) else f) d2"
      by (rule writeSignal_wired [OF assms(1) b1(1,3)])
    have pol: "is_output IN_POL1" "is_output IN_POL2" "\<not> active_low inverted IN_POL1" "\<not> active_low inverted IN_POL2"
      by (simp_all add: is_output_def active_low_def GPIO_SIGNAL_MAP_def signal_defs)
    show thesis
    proof (cases "has version IN_POL1")
      case True
      then have has2: "has version IN_POL2" using has_signals(2) [OF s(1)] by simp
      have "writeSignal gd now s IN_POL1 p1 d = (Some True, out, d')" "writeSignal gd now s IN_POL2 p2 d' = (Some True, out2, d2)"
        using True has2 w1 w2 pol s(2) by (auto simp: has_def)
      then have "run_switch gd now s cmd d
          = (False, out @ out2 @ [Store_Event (Ev_PolaritySwitch \<lparr>pse_pol1 = p1, pse_pol2 = p2\<rparr>)], d2)"
        by (simp add: Sw_Polarity handle_polarity_switch_def)
      then show thesis
      proof (rule result)
        show "filter is_stored (out @ out2 @ [Store_Event (Ev_PolaritySwitch \<lparr>pse_pol1 = p1, pse_pol2 = p2\<rparr>)])
            = snd (board_step version inverted cmd f)"
          unfolding filter_append b1(2) b2(2) using True Sw_Polarity by (simp add: is_stored_def)
      qed (use True has2 b2 pol Sw_Polarity in simp_all)
    next
      case False
      then have "run_switch gd now s cmd d = (True, out, d')"
        using w1 pol s(2) by (auto simp: Sw_Polarity handle_polarity_switch_def has_def)
      then show thesis using False b1 Sw_Polarity by (intro result) simp_all
    qed
  next
    case (Sw_Set sig on)
    then show thesis by (intro set [of sig on]) simp_all
  qed
qed

lemma run_switches_board:
  assumes "line_chip gd level outs"
  shows "wired version inverted outs s d \<Longrightarrow> shows_board version inverted level f d \<Longrightarrow>
    case run_switches gd cmds s d of (stored, d') \<Rightarrow> case board_run version inverted cmds f of (f', ref) \<Rightarrow>
      stored = ref \<and> shows_board version inverted level f' d'"
proof (induction cmds arbitrary: d f)
  case (Cons c cmds)
  obtain now cmd where c: "c = (now, cmd)" by fastforce
  obtain threw out d' where step: "run_switch gd now s cmd d = (threw, out, d')" "wired version inverted outs s d'"
    "filter is_stored out = snd (board_step version inverted cmd f)"
    "shows_board version inverted level (fst (board_step version inverted cmd f)) d'"
    by (rule run_switch_board [OF assms Cons.prems])
  show ?case
    using Cons.IH [OF step(2,4)] by (auto simp: c step(1,3) split: prod.splits)
qed simp

lemma fold_gpioMap:
  "fold (\<lambda>gpio m. m(gpio \<mapsto> (req, gpio))) gpios m g = (if g \<in> set gpios then Some (req, g) else m g)"
  by (induction gpios arbitrary: m) auto

lemma in_pins_of:
  assumes "map_of pinmap sig = Some gpio" "map_of GPIO_SIGNAL_MAP sig = Some dir" "sig \<noteq> UNDEFINED_SIGNAL"
  shows "gpio \<in> set (pins_of dir pinmap)"
  using assms map_of_SomeD [OF assms(2)] by (force simp: pins_of_def)

lemma pins_ofD:
  assumes "gpio \<in> set (pins_of dir pinmap)"
  obtains sig where "map_of pinmap sig = Some gpio" "map_of GPIO_SIGNAL_MAP sig = Some dir"
proof -
  have "distinct (map fst GPIO_SIGNAL_MAP)" by (simp add: GPIO_SIGNAL_MAP_def signal_defs)
  then show thesis
    using assms that by (auto simp: pins_of_def split: if_splits option.splits)
qed

lemma pinned_signals:
  assumes "version < 4" "map_of (GPIO_PINMAP_VERSIONS ! version) sig = Some gpio"
  shows "sig \<noteq> UNDEFINED_SIGNAL \<and> (map_of GPIO_SIGNAL_MAP sig = Some DIR_IN \<or> map_of GPIO_SIGNAL_MAP sig = Some DIR_OUT)"
  using versions_cases [OF assms(1)] assms(2)
  by (auto simp: GPIO_PINMAP_VERSIONS_def GPIO_SIGNAL_MAP_def signal_defs split: if_splits)

lemma configureLines_chip:
  assumes "line_chip gd level outs"
  obtains req s' d' where "configureLines gd gpios cfg (s, d) = (True, s', d')"
    and "gp_pinmap s' = gp_pinmap s" and "gp_biasInverted s' = gp_biasInverted s" and "gp_ratebuffers s' = gp_ratebuffers s"
    and "gp_r_pinmap s' = gp_r_pinmap s"
    and "gp_gpioMap s' = (\<lambda>g. if g \<in> set gpios then Some (req, g) else gp_gpioMap s g)"
    and "gpios \<noteq> [] \<Longrightarrow> outs d req = {}"
    and "outs d' = (if gpios = [] then outs d else (outs d)(req := (if cfg_dir cfg = DIR_IN then {} else set gpios)))"
    and "level d' = (\<lambda>g. if cfg_dir cfg \<noteq> DIR_IN \<and> g \<in> set gpios then cfg_initialValue cfg else level d g)"
proof (cases "gpios = []")
  case True
  then show thesis using that [of s d 0] by (simp add: configureLines_def fun_eq_iff)
next
  case False
  obtain req d' where "gd_request_lines gd cfg gpios d = (Some req, d')" "outs d req = {}"
    "outs d' = (outs d)(req := (if cfg_dir cfg = DIR_IN then {} else set gpios))"
    "level d' = (\<lambda>g. if cfg_dir cfg \<noteq> DIR_IN \<and> g \<in> set gpios then cfg_initialValue cfg else level d g)"
    using assms unfolding line_chip_def by blast
  then show thesis using that [of _ d' req] False
    by (simp add: configureLines_def Let_def fold_gpioMap fun_eq_iff split: if_splits)
qed

lemma gpio_init_board:
  assumes "line_chip gd level outs" "version < 4"
  obtains s d' where "gpio_init gd now hardware version (gpio_init_state, d) = Some (s, d')"
    and "wired version (hardware \<noteq> 1) outs s d'"
    and "shows_board version (hardware \<noteq> 1) level (active_low (hardware \<noteq> 1)) d'"
proof -
  let ?pm = "GPIO_PINMAP_VERSIONS ! version"
  let ?ins = "pins_of DIR_IN ?pm" and ?outs = "pins_of DIR_OUT ?pm"
  let ?in = "\<lparr>cfg_dir = DIR_IN, cfg_initialValue = False, cfg_both_edges = True\<rparr>"
    and ?out = "\<lparr>cfg_dir = DIR_OUT, cfg_initialValue = False, cfg_both_edges = False\<rparr>"
  let ?s0 = "gpio_init_state\<lparr>gp_biasInverted := (hardware \<noteq> 1), gp_pinmap := ?pm,
    gp_r_pinmap := fold (\<lambda>(sig, gpio) m. m(gpio \<mapsto> sig)) ?pm (gp_r_pinmap gpio_init_state)\<rparr>"
  obtain r1 s1 d1 where c1: "configureLines gd ?ins ?in (?s0, d) = (True, s1, d1)"
    "gp_pinmap s1 = ?pm" "gp_biasInverted s1 = (hardware \<noteq> 1)"
    "gp_gpioMap s1 = (\<lambda>g. if g \<in> set ?ins then Some (r1, g) else None)"
    "outs d1 = (if ?ins = [] then outs d else (outs d)(r1 := {}))"
    by (rule configureLines_chip [OF assms(1), of ?ins ?in ?s0 d]) (simp_all add: gpio_init_state_def cong: if_cong)
  obtain r2 s2 d2 where c2: "configureLines gd ?outs ?out (s1, d1) = (True, s2, d2)"
    "gp_pinmap s2 = ?pm" "gp_biasInverted s2 = (hardware \<noteq> 1)"
    "gp_gpioMap s2 = (\<lambda>g. if g \<in> set ?outs then Some (r2, g) else gp_gpioMap s1 g)"
    "outs d2 = (if ?outs = [] then outs d1 else (outs d1)(r2 := set ?outs))"
    "level d2 = (\<lambda>g. if g \<in> set ?outs then False else level d1 g)"
    by (rule configureLines_chip [OF assms(1), of ?outs ?out s1 d1]) (simp_all add: c1 cong: if_cong)
  have pin: "if is_output sig then gpio \<in> set ?outs else gpio \<in> set ?ins \<and> gpio \<notin> set ?outs"
    if "map_of ?pm sig = Some gpio" for sig gpio
  proof (cases "is_output sig")
    case True
    then show ?thesis using that pinned_signals [OF assms(2) that] in_pins_of [OF that] by (simp add: is_output_def)
  next
    case False
    then have dir: "map_of GPIO_SIGNAL_MAP sig = Some DIR_IN" using pinned_signals [OF assms(2) that] by (simp add: is_output_def)
    have "gpio \<notin> set ?outs"
    proof
      assume "gpio \<in> set ?outs"
      then obtain sig' where "map_of ?pm sig' = Some gpio" "map_of GPIO_SIGNAL_MAP sig' = Some DIR_OUT" by (rule pins_ofD)
      then show False using pins_injective [OF assms(2) that] dir by fastforce
    qed
    then show ?thesis using False dir pinned_signals [OF assms(2) that] in_pins_of [OF that] by simp
  qed
  have wire: "\<exists>req. gp_gpioMap s2 gpio = Some (req, gpio) \<and> (gpio \<in> outs d2 req \<longleftrightarrow> is_output sig)"
    if "map_of ?pm sig = Some gpio" for sig gpio
  proof (cases "is_output sig")
    case True
    then have "gpio \<in> set ?outs" using pin [OF that] by simp
    then show ?thesis using True c2(4,5) by auto
  next
    case False
    then have g: "gpio \<in> set ?ins" "gpio \<notin> set ?outs" using pin [OF that] by simp_all
    then have "gpio \<notin> outs d2 r1" using c1(5) c2(5) by auto
    then show ?thesis using g False c1(4) c2(4) by simp
  qed
  let ?fresh = "filter (\<lambda>sig. map_of (gp_ratebuffers s2) sig = None)
      (map fst (filter (\<lambda>(sig, dir). dir = DIR_IN \<and> map_of ?pm sig \<noteq> None) GPIO_SIGNAL_MAP))"
  let ?bufs = "gp_ratebuffers s2 @ map (\<lambda>sig. (sig, rate_buffer_init None (5 * 1000000000) 0 now)) ?fresh"
  have init: "gpio_init gd now hardware version (gpio_init_state, d)
      = Some (s2\<lparr>gp_ratebuffers := ?bufs, gp_running := True\<rparr>, d2)"
    using assms(2) c1(1) c2(1) by (simp add: gpio_init_def Let_def GPIO_PINMAP_VERSIONS_def)
  show thesis
  proof (rule that [OF init])
    show "wired version (hardware \<noteq> 1) outs (s2\<lparr>gp_ratebuffers := ?bufs, gp_running := True\<rparr>) d2"
      using wire assms(2) c2(2,3) by (simp add: wired_def)
    show "shows_board version (hardware \<noteq> 1) level (active_low (hardware \<noteq> 1)) d2"
      using pin unfolding shows_board_def c2(6) by metis
  qed
qed

text \<open>
  C32: After initialisation, in which the chip grants every line, on every hardware version and whatever commands come, the outputs and the events
  kept in the datastore are those of the abstract switchboard, where a command sets its switch and reports it, or
  does nothing where the board has no such output: each line has the level of its switch, the line of the bias
  inverted on all versions but 1. It also says where the board starts: all switches off, but the bias on where it
  is inverted, since the line is low.
\<close>

theorem switchboard:
  assumes "line_chip gd level outs" and "version < 4"
  shows "\<exists>s d. gpio_init gd now hardware version (gpio_init_state, d0) = Some (s, d)
    \<and> (case run_switches gd cmds s d of (stored, d') \<Rightarrow>
        case board_run version (hardware \<noteq> 1) cmds (\<lambda>sig. sig = UBIAS_EN \<and> hardware \<noteq> 1) of (board, ref) \<Rightarrow>
          stored = ref \<and> (\<forall>sig gpio. map_of (GPIO_PINMAP_VERSIONS ! version) sig = Some gpio \<and> is_output sig \<longrightarrow>
            level d' gpio = (board sig \<noteq> (sig = UBIAS_EN \<and> hardware \<noteq> 1))))"
proof -
  obtain s d where init: "gpio_init gd now hardware version (gpio_init_state, d0) = Some (s, d)"
    and "wired version (hardware \<noteq> 1) outs s d"
    and "shows_board version (hardware \<noteq> 1) level (active_low (hardware \<noteq> 1)) d"
    by (rule gpio_init_board [OF assms])
  moreover have "active_low b = (\<lambda>sig. sig = UBIAS_EN \<and> b)" for b by (simp add: fun_eq_iff active_low_def)
  ultimately show ?thesis
    using run_switches_board [OF assms(1), of version "hardware \<noteq> 1" s d _ cmds] by (simp add: shows_board_def)
qed

text \<open>A chip that keeps the levels of its lines and the outputs of each request.\<close>

record line_memory =
  lm_level :: "u32 \<Rightarrow> bool"
  lm_requests :: "u32 set list"

definition line_memory_outs :: "line_memory \<Rightarrow> nat \<Rightarrow> u32 set" where
  "line_memory_outs d req = (if req < length (lm_requests d) then lm_requests d ! req else {})"

definition line_memory_gpiod :: "line_memory gpiod" where
  "line_memory_gpiod =
     \<lparr>gd_request_lines = (\<lambda>cfg gpios d. (Some (length (lm_requests d)),
        \<lparr>lm_level = (\<lambda>g. if cfg_dir cfg \<noteq> DIR_IN \<and> g \<in> set gpios then cfg_initialValue cfg else lm_level d g),
         lm_requests = lm_requests d @ [if cfg_dir cfg = DIR_IN then {} else set gpios]\<rparr>)),
      gd_set_value = (\<lambda>req g v d. if g \<in> line_memory_outs d req then (True, d\<lparr>lm_level := (lm_level d)(g := v)\<rparr>) else (False, d)),
      gd_release = (\<lambda>_ d. d), gd_chip_close = (\<lambda>d. d)\<rparr>"

lemma line_memory_chip: "line_chip line_memory_gpiod lm_level line_memory_outs"
proof -
  have "\<exists>req d'. gd_request_lines line_memory_gpiod cfg gpios d = (Some req, d') \<and> line_memory_outs d req = {} \<and>
      line_memory_outs d' = (line_memory_outs d)(req := (if cfg_dir cfg = DIR_IN then {} else set gpios)) \<and>
      lm_level d' = (\<lambda>g. if cfg_dir cfg \<noteq> DIR_IN \<and> g \<in> set gpios then cfg_initialValue cfg else lm_level d g)" for cfg gpios d
    by (auto simp: line_memory_gpiod_def line_memory_outs_def fun_eq_iff nth_append)
  moreover have "\<exists>d'. gd_set_value line_memory_gpiod req g v d = (g \<in> line_memory_outs d req, d') \<and>
      line_memory_outs d' = line_memory_outs d \<and>
      lm_level d' = (if g \<in> line_memory_outs d req then (lm_level d)(g := v) else lm_level d)" for req g v d
    by (auto simp: line_memory_gpiod_def line_memory_outs_def fun_eq_iff)
  ultimately show ?thesis unfolding line_chip_def by blast
qed

theorem switchboard_witness:
  "\<exists>s d. gpio_init line_memory_gpiod 0 3 3 (gpio_init_state, \<lparr>lm_level = \<lambda>_. True, lm_requests = []\<rparr>) = Some (s, d)
    \<and> (case run_switches line_memory_gpiod [(1, Sw_Bias False), (2, Sw_Preamp 1 True)] s d of (stored, d') \<Rightarrow>
        stored = [Store_Event (Ev_BiasSwitch False), Store_Event (Ev_PreampSwitch \<lparr>pre_channel = 1, pre_state = True\<rparr>)]
        \<and> lm_level d' 26 \<and> \<not> lm_level d' 4 \<and> lm_level d' 17)"
proof -
  have "has 3 UBIAS_EN" "has 3 PREAMP_2" "PREAMP_1 + 1 = PREAMP_2"
    by (simp_all add: has_def is_output_def GPIO_PINMAP_VERSIONS_def GPIO_SIGNAL_MAP_def signal_defs)
  then have ref: "board_run 3 True [(1, Sw_Bias False), (2, Sw_Preamp 1 True)] (\<lambda>sig. sig = UBIAS_EN)
      = ((\<lambda>sig. sig = UBIAS_EN)(UBIAS_EN := False, PREAMP_2 := True),
         [Store_Event (Ev_BiasSwitch False), Store_Event (Ev_PreampSwitch \<lparr>pre_channel = 1, pre_state = True\<rparr>)])"
    by simp
  have pins: "map_of (GPIO_PINMAP_VERSIONS ! 3) UBIAS_EN = Some 26" "map_of (GPIO_PINMAP_VERSIONS ! 3) PREAMP_1 = Some 4"
    "map_of (GPIO_PINMAP_VERSIONS ! 3) PREAMP_2 = Some 17" "is_output UBIAS_EN" "is_output PREAMP_1" "is_output PREAMP_2"
    "PREAMP_1 \<noteq> UBIAS_EN" "PREAMP_2 \<noteq> UBIAS_EN" "PREAMP_1 \<noteq> PREAMP_2"
    by (simp_all add: is_output_def GPIO_PINMAP_VERSIONS_def GPIO_SIGNAL_MAP_def signal_defs)
  obtain s d where run: "gpio_init line_memory_gpiod 0 3 3 (gpio_init_state, \<lparr>lm_level = \<lambda>_. True, lm_requests = []\<rparr>) = Some (s, d)"
    "case run_switches line_memory_gpiod [(1, Sw_Bias False), (2, Sw_Preamp 1 True)] s d of (stored, d') \<Rightarrow>
       stored = [Store_Event (Ev_BiasSwitch False), Store_Event (Ev_PreampSwitch \<lparr>pre_channel = 1, pre_state = True\<rparr>)] \<and>
       (\<forall>sig gpio. map_of (GPIO_PINMAP_VERSIONS ! 3) sig = Some gpio \<and> is_output sig \<longrightarrow>
         lm_level d' gpio = (((\<lambda>sig. sig = UBIAS_EN)(UBIAS_EN := False, PREAMP_2 := True)) sig \<noteq> (sig = UBIAS_EN)))"
    using switchboard [OF line_memory_chip, of 3 0 3 "\<lparr>lm_level = \<lambda>_. True, lm_requests = []\<rparr>"
        "[(1, Sw_Bias False), (2, Sw_Preamp 1 True)]"] ref by auto
  obtain stored d' where d': "run_switches line_memory_gpiod [(1, Sw_Bias False), (2, Sw_Preamp 1 True)] s d = (stored, d')"
    by fastforce
  have level: "lm_level d' gpio = (((\<lambda>sig. sig = UBIAS_EN)(UBIAS_EN := False, PREAMP_2 := True)) sig \<noteq> (sig = UBIAS_EN))"
    if "map_of (GPIO_PINMAP_VERSIONS ! 3) sig = Some gpio" "is_output sig" for sig gpio
    using run(2) that unfolding d' by simp
  show ?thesis
    using run d' level [OF pins(1,4)] level [OF pins(2,5)] level [OF pins(3,6)] pins(7-)
    by (intro exI [of _ s] exI [of _ d]) simp
qed

section \<open>The edges\<close>

text \<open>
  The reference: \<open>recent\<close> is the time of the latest event of each signal that was published. An event is left out
  when it is older; two events of a signal at different times make an interval.
\<close>

fun expected :: "(u8 \<rightharpoonup> int) \<Rightarrow> gpio_event list \<Rightarrow> gpio_output list" where
  "expected recent [] = []"
| "expected recent (e # es) =
     (case recent (ge_signal e) of
        None \<Rightarrow> Pub_Gpio e # expected (recent(ge_signal e \<mapsto> ge_timestamp e)) es
      | Some t \<Rightarrow>
          if ge_timestamp e < t then expected recent es
          else Pub_Gpio e # (if ge_timestamp e = t then [] else [Pub_Interval \<lparr>ie_sig = ge_signal e, ie_interval = ge_timestamp e - t\<rparr>])
            @ expected (recent(ge_signal e \<mapsto> ge_timestamp e)) es)"

definition is_input :: "nat \<Rightarrow> u8 \<Rightarrow> bool" where
  "is_input version sig \<longleftrightarrow> map_of GPIO_SIGNAL_MAP sig = Some DIR_IN \<and> map_of (GPIO_PINMAP_VERSIONS ! version) sig \<noteq> None"

definition pin_of :: "nat \<Rightarrow> u8 \<Rightarrow> u32" where
  "pin_of version sig = the (map_of (GPIO_PINMAP_VERSIONS ! version) sig)"

definition recent_in :: "int option \<Rightarrow> rate_buffer \<Rightarrow> bool" where
  "recent_in recent b \<longleftrightarrow> rb_coincSig b = None \<and> rb_filter_edge b = None \<and> df_deadtime (rb_deadtime b) = 0 \<and>
     df_lastAccepted (rb_deadtime b) = rb_lastAcceptedEvent b \<and>
     (case recent of None \<Rightarrow> rb_lastAcceptedEvent b = invalid_time \<and> rb_lastInterval b = 0
      | Some t \<Rightarrow> rb_lastAcceptedEvent b = t \<and> t \<noteq> invalid_time)"

definition buffered :: "nat \<Rightarrow> (u8 \<rightharpoonup> int) \<Rightarrow> gpio_driver \<Rightarrow> bool" where
  "buffered version recent s \<longleftrightarrow>
     (\<forall>sig. is_input version sig \<longrightarrow> gp_r_pinmap s (pin_of version sig) = Some sig \<and>
        (\<exists>b. map_of (gp_ratebuffers s) sig = Some b \<and> recent_in (recent sig) b))"

lemma handle_event_recent:
  assumes "recent_in recent b" "ge_timestamp e \<noteq> invalid_time"
  shows "case handle_event e b of (b', accepted, interval) \<Rightarrow>
    recent_in (if accepted then Some (ge_timestamp e) else recent) b' \<and>
    (case recent of None \<Rightarrow> accepted \<and> interval = None
     | Some t \<Rightarrow> (accepted \<longleftrightarrow> \<not> ge_timestamp e < t) \<and>
         interval = (if accepted \<and> ge_timestamp e \<noteq> t then Some \<lparr>ie_sig = ge_signal e, ie_interval = ge_timestamp e - t\<rparr> else None))"
  using assms
  by (cases recent) (auto simp: recent_in_def handle_event_def edge_accept_def accept_event_def deadtime_accept_def Let_def)

lemma processEvent_expected:
  assumes "buffered version recent s" "is_input version (ge_signal e)" "ge_timestamp e \<noteq> invalid_time"
  obtains s' recent' where "buffered version recent' s'"
    and "\<And>es. expected recent (e # es) = snd (processEvent e s) @ expected recent' es" and "fst (processEvent e s) = s'"
proof -
  obtain b where b: "map_of (gp_ratebuffers s) (ge_signal e) = Some b" "recent_in (recent (ge_signal e)) b"
    using assms(1,2) unfolding buffered_def by blast
  obtain b' accepted interval where h: "handle_event e b = (b', accepted, interval)" by (cases "handle_event e b") auto
  note he = handle_event_recent [OF b(2) assms(3), unfolded h prod.case]
  let ?recent = "if accepted then recent(ge_signal e \<mapsto> ge_timestamp e) else recent"
  show thesis
  proof (rule that)
    show "buffered version ?recent (fst (processEvent e s))"
      using assms(1) he b(1) by (auto simp: buffered_def processEvent_def h update_conv')
    show "expected recent (e # es) = snd (processEvent e s) @ expected ?recent es" for es
      using he b(1) by (auto simp: processEvent_def h split: option.splits)
  qed (rule refl)
qed

lemma edge_events:
  assumes "\<forall>(sig, ns, rising) \<in> set hits. is_input version sig \<and> ns < 0x8000000000000000"
  shows "buffered version recent s \<Longrightarrow>
    \<exists>s'. handle_edges (map (\<lambda>(sig, ns, rising). (pin_of version sig, ns, rising)) hits) s
      = Some (s', expected recent (map (\<lambda>(sig, ns, rising). \<lparr>ge_signal = sig, ge_pin = pin_of version sig,
          ge_timestamp = uint ns, ge_edge = (if rising then Rising else Falling)\<rparr>) hits))"
  using assms
proof (induction hits arbitrary: s recent)
  case (Cons hit hits)
  obtain sig ns rising where hit: "hit = (sig, ns, rising)" by (cases hit) auto
  let ?e = "\<lparr>ge_signal = sig, ge_pin = pin_of version sig, ge_timestamp = uint ns, ge_edge = (if rising then Rising else Falling)\<rparr>"
  have ns: "is_input version sig" "ns < 0x8000000000000000" using Cons.prems(2) by (auto simp: hit)
  have "uint ns < 0x8000000000000000" using ns(2) by (simp add: word_less_def)
  then have "sint ns = uint ns" using order_trans [OF _ uint_ge_0, of "- (2 ^ 63)" ns]
    by (simp add: sint_uint signed_take_bit_int_eq_self_iff del: uint_ge_0)
  moreover have "uint ns \<noteq> invalid_time"
    using uint_ge_0 [of ns] by (metis invalid_time_def neg_less_0_iff_less not_less zero_less_numeral zero_less_power)
  ultimately have time: "sint ns = uint ns" "uint ns \<noteq> invalid_time" .
  have pin: "edge_to_event s (pin_of version sig, ns, rising) = Some ?e"
    using Cons.prems(1) ns(1) time(1) by (simp add: edge_to_event_def buffered_def)
  obtain s' recent' where step: "buffered version recent' s'"
    "\<And>es. expected recent (?e # es) = snd (processEvent ?e s) @ expected recent' es" "fst (processEvent ?e s) = s'"
    by (rule processEvent_expected [OF Cons.prems(1), of ?e]) (use ns(1) time(2) in simp_all)
  show ?case
    using Cons.IH [OF step(1)] Cons.prems(2) pin step(2,3)
    by (auto simp: hit split: prod.split)
qed simp

lemma configureLines_keeps:
  "gp_ratebuffers (fst (snd (configureLines gd gpios cfg (s, d)))) = gp_ratebuffers s"
  "gp_r_pinmap (fst (snd (configureLines gd gpios cfg (s, d)))) = gp_r_pinmap s"
  by (auto simp: configureLines_def Let_def split: prod.split option.split)

lemma fold_r_pinmap:
  "distinct (map snd pm) \<Longrightarrow> (sig, gpio) \<in> set pm \<Longrightarrow> fold (\<lambda>(sig, gpio) m. m(gpio \<mapsto> sig)) pm m gpio = Some sig"
proof (induction pm arbitrary: m)
  case (Cons p pm)
  have keep: "gpio \<notin> snd ` set pm \<Longrightarrow> fold (\<lambda>(sig, gpio) m. m(gpio \<mapsto> sig)) pm m gpio = m gpio" for m
    by (induction pm arbitrary: m) auto
  show ?case using Cons keep by (auto simp del: fun_upd_apply simp: fun_upd_same split: prod.split)
qed simp

lemma map_of_same_value: "x \<in> set xs \<Longrightarrow> map_of (map (\<lambda>x. (x, v)) xs) x = Some v"
  by (induction xs) auto

lemma gpio_init_buffered:
  assumes "gpio_init gd now hardware version (gpio_init_state, d0) = Some (s, d)" and "version < 4"
  shows "buffered version Map.empty s"
proof -
  let ?pm = "GPIO_PINMAP_VERSIONS ! version"
  let ?inputs = "map fst (filter (\<lambda>(sig, dir). dir = DIR_IN \<and> map_of ?pm sig \<noteq> None) GPIO_SIGNAL_MAP)"
  have bufs: "gp_ratebuffers s = map (\<lambda>sig. (sig, rate_buffer_init None 5000000000 0 now)) ?inputs"
    and r: "gp_r_pinmap s = fold (\<lambda>(sig, gpio) m. m(gpio \<mapsto> sig)) ?pm Map.empty"
  proof -
    let ?s0 = "gpio_init_state\<lparr>gp_biasInverted := (hardware \<noteq> 1), gp_pinmap := ?pm,
      gp_r_pinmap := fold (\<lambda>(sig, gpio) m. m(gpio \<mapsto> sig)) ?pm (gp_r_pinmap gpio_init_state)\<rparr>"
    let ?cfg1 = "\<lparr>cfg_dir = DIR_IN, cfg_initialValue = False, cfg_both_edges = True\<rparr>"
    let ?cfg2 = "\<lparr>cfg_dir = DIR_OUT, cfg_initialValue = False, cfg_both_edges = False\<rparr>"
    obtain b1 s1 d1 where c1: "configureLines gd (pins_of DIR_IN ?pm) ?cfg1 (?s0, d0) = (b1, s1, d1)"
      by (metis prod_cases3)
    obtain b2 s2 d2 where c2: "configureLines gd (pins_of DIR_OUT ?pm) ?cfg2 (s1, d1) = (b2, s2, d2)"
      by (metis prod_cases3)
    note k1 = configureLines_keeps [of gd "pins_of DIR_IN ?pm" ?cfg1 ?s0 d0, unfolded c1 fst_conv snd_conv]
    note k2 = configureLines_keeps [of gd "pins_of DIR_OUT ?pm" ?cfg2 s1 d1, unfolded c2 fst_conv snd_conv]
    have "gp_ratebuffers s2 = []" "gp_r_pinmap s2 = fold (\<lambda>(sig, gpio) m. m(gpio \<mapsto> sig)) ?pm Map.empty"
      unfolding k2 k1 by (simp_all add: gpio_init_state_def)
    moreover have "gpio_init gd now hardware version (gpio_init_state, d0)
        = Some (s2\<lparr>gp_ratebuffers := gp_ratebuffers s2 @ map (\<lambda>sig. (sig, rate_buffer_init None (5 * 1000000000) 0 now))
            (filter (\<lambda>sig. map_of (gp_ratebuffers s2) sig = None) ?inputs), gp_running := True\<rparr>, d2)"
      using assms(2) c1 c2 by (simp add: gpio_init_def Let_def GPIO_PINMAP_VERSIONS_def)
    ultimately show "gp_ratebuffers s = map (\<lambda>sig. (sig, rate_buffer_init None 5000000000 0 now)) ?inputs"
      "gp_r_pinmap s = fold (\<lambda>(sig, gpio) m. m(gpio \<mapsto> sig)) ?pm Map.empty"
      using assms(1) by simp_all
  qed
  have "gp_r_pinmap s (pin_of version sig) = Some sig" if "is_input version sig" for sig
    using that pins_distinct [OF assms(2)] unfolding r
    by (intro fold_r_pinmap) (auto simp: is_input_def pin_of_def dest: map_of_SomeD)
  moreover have "map_of (gp_ratebuffers s) sig = Some (rate_buffer_init None 5000000000 0 now)" if "is_input version sig" for sig
  proof -
    have "sig \<in> set ?inputs" using that by (force simp: is_input_def dest: map_of_SomeD)
    then show ?thesis unfolding bufs by (rule map_of_same_value)
  qed
  ultimately show ?thesis
    by (simp add: buffered_def recent_in_def rate_buffer_init_def)
qed

text \<open>
  C9: No edge ends the event loop, and each reaches the bus: on a driver that was initialised, the edges the library
  reports on the inputs of the board are published as events of the right signal, pin and time, in order, each with
  the interval to the one before it of the same signal, as the reference says. Only an edge that is older than
  the last of its signal is left out, and the interval of two edges at the same time.
\<close>

theorem edges_published:
  assumes "gpio_init gd now hardware version (gpio_init_state, d0) = Some (s, d)" and "version < 4"
    and "\<forall>(sig, ns, rising) \<in> set hits. is_input version sig \<and> ns < 0x8000000000000000"
  shows "\<exists>s'. handle_edges (map (\<lambda>(sig, ns, rising). (pin_of version sig, ns, rising)) hits) s
    = Some (s', expected Map.empty (map (\<lambda>(sig, ns, rising). \<lparr>ge_signal = sig, ge_pin = pin_of version sig,
        ge_timestamp = uint ns, ge_edge = (if rising then Rising else Falling)\<rparr>) hits))"
  by (rule edge_events [OF assms(3) gpio_init_buffered [OF assms(1,2)]])

theorem edges_published_witness:
  "\<exists>s d s'. gpio_init line_memory_gpiod 0 3 3 (gpio_init_state, \<lparr>lm_level = \<lambda>_. True, lm_requests = []\<rparr>) = Some (s, d)
    \<and> handle_edges [(27, 1000, True), (22, 1500, True), (27, 1250, False)] s = Some (s',
      [Pub_Gpio \<lparr>ge_signal = EVT_XOR, ge_pin = 27, ge_timestamp = 1000, ge_edge = Rising\<rparr>,
       Pub_Gpio \<lparr>ge_signal = EVT_AND, ge_pin = 22, ge_timestamp = 1500, ge_edge = Rising\<rparr>,
       Pub_Gpio \<lparr>ge_signal = EVT_XOR, ge_pin = 27, ge_timestamp = 1250, ge_edge = Falling\<rparr>,
       Pub_Interval \<lparr>ie_sig = EVT_XOR, ie_interval = 250\<rparr>])"
proof -
  obtain s d where init: "gpio_init line_memory_gpiod 0 3 3 (gpio_init_state, \<lparr>lm_level = \<lambda>_. True, lm_requests = []\<rparr>) = Some (s, d)"
    by (rule gpio_init_board [OF line_memory_chip, of 3]) simp_all
  have inputs: "is_input 3 EVT_XOR" "is_input 3 EVT_AND" "pin_of 3 EVT_XOR = 27" "pin_of 3 EVT_AND = 22" "EVT_AND \<noteq> EVT_XOR"
    by (simp_all add: is_input_def pin_of_def GPIO_PINMAP_VERSIONS_def GPIO_SIGNAL_MAP_def signal_defs)
  show ?thesis
    using edges_published [OF init, of "[(EVT_XOR, 1000, True), (EVT_AND, 1500, True), (EVT_XOR, 1250, False)]"] init inputs
    by auto
qed

end
