(* ===== verification/Geo_Position.thy ===== *)
theory Geo_Position
  imports Messages
begin

text \<open>
  The position of the station: \<open>GeoPosition\<close> (\<open>library/src/data/muondetector_structs.h\<close>), the filter
  \<open>KalmanGnssFilter\<close> and \<open>GeoPosManager\<close> (\<open>daemon/src/utility\<close>). The three histograms belong to the datastore
  and are shared with it; here they are passed and given back. The manager calls one of its two callbacks with a
  position, as its last act; that position, if there is one, is part of a result. Times are nanoseconds of the
  steady clock. A conversion of a double to an integer that is out of range is undefined: None.
\<close>

section \<open>Positions\<close>

definition geo_valid :: "GeoPosition \<Rightarrow> bool" where
  "geo_valid p \<longleftrightarrow> \<not> (geo_longitude p = 0 \<and> geo_latitude p = 0 \<and> geo_altitude p = 0 \<and> geo_hor_error p = 0 \<and> geo_vert_error p = 0)"

definition pos_error :: "GeoPosition \<Rightarrow> rat" where
  "pos_error p = double_sqrt (double (double (geo_hor_error p * geo_hor_error p) + double (geo_vert_error p * geo_vert_error p)))"

definition to_int32 :: "rat \<Rightarrow> i32 option" where
  "to_int32 x = (let n = trunc_rat x in if - (2 ^ 31) \<le> n \<and> n < 2 ^ 31 then Some (word_of_int n) else None)"

definition to_uint32 :: "rat \<Rightarrow> u32 option" where
  "to_uint32 x = (let n = trunc_rat x in if 0 \<le> n \<and> n < 2 ^ 32 then Some (word_of_int n) else None)"

definition getPosStruct :: "GeoPosition \<Rightarrow> GnssPosStruct option" where
  "getPosStruct p = do {
     lon \<leftarrow> to_int32 (double (geo_longitude p * 10000000));
     lat \<leftarrow> to_int32 (double (geo_latitude p * 10000000));
     height \<leftarrow> to_int32 (double (geo_altitude p * 1000));
     hAcc \<leftarrow> to_uint32 (double (geo_hor_error p * 1000));
     vAcc \<leftarrow> to_uint32 (double (geo_vert_error p * 1000));
     Some \<lparr>pos_iTOW = 0, pos_lon = lon, pos_lat = lat, pos_height = height, pos_hMSL = height, pos_hAcc = hAcc, pos_vAcc = vAcc\<rparr>
   }"

definition no_position :: GeoPosition where
  "no_position = \<lparr>geo_longitude = 0, geo_latitude = 0, geo_altitude = 0, geo_hor_error = 0, geo_vert_error = 0\<rparr>"

section \<open>The Kalman filter\<close>

record kalman =
  kf_accuracy_decay :: rat
  kf_timestamp :: int
  kf_lat :: rat
  kf_lng :: rat
  kf_alt :: rat
  kf_variance :: rat

definition kalman_init :: "rat \<Rightarrow> kalman" where
  "kalman_init decay = \<lparr>kf_accuracy_decay = decay, kf_timestamp = 0, kf_lat = 0, kf_lng = 0, kf_alt = 0, kf_variance = - 1\<rparr>"

definition kalman_set_state :: "int \<Rightarrow> rat \<Rightarrow> rat \<Rightarrow> rat \<Rightarrow> rat \<Rightarrow> kalman \<Rightarrow> kalman" where
  "kalman_set_state now lat lng alt accuracy k =
     k\<lparr>kf_lat := lat, kf_lng := lng, kf_alt := alt, kf_variance := double (accuracy * accuracy), kf_timestamp := now\<rparr>"

definition kalman_reset :: "kalman \<Rightarrow> kalman" where
  "kalman_reset k = k\<lparr>kf_lat := 0, kf_lng := 0, kf_alt := 0, kf_variance := - 1\<rparr>"

definition kalman_process :: "int \<Rightarrow> rat \<Rightarrow> rat \<Rightarrow> rat \<Rightarrow> rat \<Rightarrow> kalman \<Rightarrow> kalman" where
  "kalman_process now lat lng alt accuracy k =
     (let local_accuracy = (if accuracy < 1 then 1 else accuracy)
      in if kf_variance k < 0 then kalman_set_state now lat lng alt local_accuracy k
         else (let ms = (word_of_int ((now - kf_timestamp k) div 1000000) :: u32);
                   k = (if 0 < ms
                        then k\<lparr>kf_variance := double (kf_variance k + double (double (double (of_nat (unat ms) * kf_accuracy_decay k)
                                * kf_accuracy_decay k) / 1000)), kf_timestamp := now\<rparr>
                        else k);
                   gain = double (kf_variance k / double (kf_variance k + double (local_accuracy * local_accuracy)));
                   step = (\<lambda>x m. double (x + double (gain * double (m - x))))
               in k\<lparr>kf_lat := step (kf_lat k) lat, kf_lng := step (kf_lng k) lng, kf_alt := step (kf_alt k) alt,
                    kf_variance := double (double (1 - gain) * kf_variance k)\<rparr>))"

definition get_accuracy :: "kalman \<Rightarrow> rat" where
  "get_accuracy k = double_sqrt (kf_variance k)"

section \<open>The manager\<close>

text \<open>\<open>Property\<close>, with its value, whether it was updated and when.\<close>

record 'v property =
  pr_value :: 'v
  pr_updated :: bool
  pr_update_time :: int

definition fresh_property :: "int \<Rightarrow> 'v \<Rightarrow> 'v property" where
  "fresh_property now v = \<lparr>pr_value = v, pr_updated = True, pr_update_time = now\<rparr>"

text \<open>The modes and filters of \<open>PositionModeConfig\<close>; other numbers are possible.\<close>

definition Mode_Static :: i32 where "Mode_Static = 0"
definition Mode_LockIn :: i32 where "Mode_LockIn = 1"
definition Mode_Auto :: i32 where "Mode_Auto = 2"

definition Filter_None :: i32 where "Filter_None = 0"
definition Filter_Kalman :: i32 where "Filter_Kalman = 1"
definition Filter_HistoMean :: i32 where "Filter_HistoMean = 2"
definition Filter_HistoMedian :: i32 where "Filter_HistoMedian = 3"
definition Filter_HistoMpv :: i32 where "Filter_HistoMpv = 4"

lemmas mode_defs = Mode_Static_def Mode_LockIn_def Mode_Auto_def
lemmas filter_defs = Filter_None_def Filter_Kalman_def Filter_HistoMean_def Filter_HistoMedian_def Filter_HistoMpv_def

definition Fix2d :: nat where "Fix2d = 2"

record geo_manager =
  gm_position :: GeoPosition
  gm_mode_config :: PositionModeConfig
  gm_kalman :: kalman
  gm_fix_status :: "nat property"
  gm_time_precision :: "int property"

text \<open>\<open>m_mode_config\<close> is zero where the struct has no default.\<close>

definition geo_manager_init :: geo_manager where
  "geo_manager_init =
     \<lparr>gm_position = no_position,
      gm_mode_config = \<lparr>pmc_mode = 0, pmc_static_position = no_position, pmc_lock_in_max_dop = 3,
        pmc_lock_in_min_error_meters = 15 / 2, pmc_filter_config = 0\<rparr>,
      gm_kalman = kalman_init (double (1 / 10)),
      gm_fix_status = \<lparr>pr_value = 0, pr_updated = False, pr_update_time = 0\<rparr>,
      gm_time_precision = \<lparr>pr_value = 0, pr_updated = False, pr_update_time = 0\<rparr>\<rparr>"

record geo_histos =
  gh_lon :: Histogram
  gh_lat :: Histogram
  gh_height :: Histogram

definition set_mode_config :: "PositionModeConfig \<Rightarrow> geo_manager \<Rightarrow> geo_manager" where
  "set_mode_config mode_config m =
     (let m = (if pmc_filter_config mode_config \<noteq> pmc_filter_config (gm_mode_config m) \<and> pmc_filter_config mode_config = Filter_Kalman
               then m\<lparr>gm_kalman := kalman_reset (gm_kalman m)\<rparr> else m);
          m = m\<lparr>gm_mode_config := mode_config\<rparr>
      in if pmc_mode mode_config = Mode_Static then m\<lparr>gm_position := pmc_static_position mode_config\<rparr> else m)"

definition set_fix_status :: "int \<Rightarrow> u8 \<Rightarrow> geo_manager \<Rightarrow> geo_manager" where
  "set_fix_status now gpsFix m = m\<lparr>gm_fix_status := fresh_property now (unat gpsFix)\<rparr>"

definition set_time_accuracy :: "int \<Rightarrow> u32 \<Rightarrow> geo_manager \<Rightarrow> geo_manager" where
  "set_time_accuracy now tAcc m = m\<lparr>gm_time_precision := fresh_property now (uint tAcc)\<rparr>"

definition set_static_position :: "GeoPosition \<Rightarrow> geo_manager \<Rightarrow> geo_manager" where
  "set_static_position pos m = m\<lparr>gm_mode_config := (gm_mode_config m)\<lparr>pmc_static_position := pos\<rparr>\<rparr>"

definition set_mode :: "i32 \<Rightarrow> geo_manager \<Rightarrow> geo_manager" where
  "set_mode mode m = m\<lparr>gm_mode_config := (gm_mode_config m)\<lparr>pmc_mode := mode\<rparr>\<rparr>"

definition set_filter :: "i32 \<Rightarrow> geo_manager \<Rightarrow> geo_manager" where
  "set_filter f m = m\<lparr>gm_mode_config := (gm_mode_config m)\<lparr>pmc_filter_config := f\<rparr>\<rparr>"

definition geo_pi :: rat where "geo_pi = double (314159265358979 / 100000000000000)"
definition geo_sqrt2 :: rat where "geo_sqrt2 = double (1414213562373095 / 1000000000000000)"
definition MIN_HISTO_ENTRIES :: rat where "MIN_HISTO_ENTRIES = 10"
definition lock_in_min_histogram_entries :: rat where "lock_in_min_histogram_entries = 1500"
definition lock_in_max_histogram_entries :: rat where "lock_in_max_histogram_entries = 8000"

definition degree_to_surface_meters :: rat where
  "degree_to_surface_meters = double (double (double (geo_pi * 2) * double (63674445 / 10)) / 360)"

definition few_entries :: "rat \<Rightarrow> geo_histos \<Rightarrow> bool" where
  "few_entries n h \<longleftrightarrow> getEntries (gh_height h) < n \<or> getEntries (gh_lon h) < n \<or> getEntries (gh_lat h) < n"

definition get_pos_from_histos :: "geo_histos \<Rightarrow> geo_manager \<Rightarrow> GeoPosition" where
  "get_pos_from_histos h m =
     (if few_entries MIN_HISTO_ENTRIES h then no_position
      else (let f = pmc_filter_config (gm_mode_config m);
                average = (if f = Filter_HistoMean then Some getMean else if f = Filter_HistoMedian then Some getMedian
                           else if f = Filter_HistoMpv then Some getMpv else None)
            in case average of None \<Rightarrow> no_position
              | Some g \<Rightarrow>
                  (let latitude = g (gh_lat h);
                       hor = double (getRMS (gh_lat h) * degree_to_surface_meters);
                       lon = double (double (double (double (getRMS (gh_lon h) * degree_to_surface_meters) / geo_pi) * latitude) / 180);
                       hor = double (double (hor * hor) + double (lon * lon))
                   in \<lparr>geo_longitude = g (gh_lon h), geo_latitude = latitude, geo_altitude = g (gh_height h),
                       geo_hor_error = double_sqrt hor, geo_vert_error = getRMS (gh_height h)\<rparr>)))"

definition check_for_lockin_reached :: "GeoPosition \<Rightarrow> geo_manager \<Rightarrow> geo_manager \<times> GeoPosition option" where
  "check_for_lockin_reached pos m =
     (let config = gm_mode_config m
      in if pmc_mode config \<noteq> Mode_LockIn then (m, None)
         else if geo_vert_error pos < pmc_lock_in_min_error_meters config \<and> geo_hor_error pos < pmc_lock_in_min_error_meters config
         then (m\<lparr>gm_mode_config := config\<lparr>pmc_mode := Mode_Static, pmc_static_position := pos\<rparr>\<rparr>, Some pos)
         else (m, None))"

definition clear_full :: "Histogram \<Rightarrow> Histogram" where
  "clear_full h = (if lock_in_max_histogram_entries < getEntries h then hist_clear h else h)"

text \<open>The filters: the position they give, whether it may end the lock-in, the manager and the histograms.\<close>

definition filter_position :: "int \<Rightarrow> GeoPosition \<Rightarrow> geo_histos \<Rightarrow> geo_manager \<Rightarrow> GeoPosition \<times> bool \<times> geo_histos \<times> geo_manager" where
  "filter_position now pos h m =
     (let f = pmc_filter_config (gm_mode_config m)
      in if f = Filter_None then (pos, True, h, m)
         else if f = Filter_Kalman
         then (let k = kalman_process now (geo_latitude pos) (geo_longitude pos) (geo_altitude pos) (pos_error pos) (gm_kalman m);
                   err = double (get_accuracy k / geo_sqrt2)
               in (\<lparr>geo_longitude = kf_lng k, geo_latitude = kf_lat k, geo_altitude = kf_alt k, geo_hor_error = err, geo_vert_error = err\<rparr>,
                   True, h, m\<lparr>gm_kalman := k\<rparr>))
         else if f = Filter_HistoMpv \<or> f = Filter_HistoMedian \<or> f = Filter_HistoMean
         then (let p = get_pos_from_histos h m
               in if pmc_mode (gm_mode_config m) = Mode_LockIn
                  then (p, \<not> few_entries lock_in_min_histogram_entries h,
                        \<lparr>gh_lon = clear_full (gh_lon h), gh_lat = clear_full (gh_lat h), gh_height = clear_full (gh_height h)\<rparr>, m)
                  else (p, True, h, m))
         else (no_position, True, h, m))"

definition new_position :: "int \<Rightarrow> GeoPosition \<Rightarrow> geo_histos \<Rightarrow> geo_manager \<Rightarrow> GeoPosition option \<times> geo_histos \<times> geo_manager" where
  "new_position now pos h m =
     (let (preliminary, candidate, h, m) = filter_position now pos h m
      in if \<not> geo_valid preliminary then (None, h, m)
         else if pmc_mode (gm_mode_config m) = Mode_Auto then (Some preliminary, h, m\<lparr>gm_position := preliminary\<rparr>)
         else if candidate then (let (m, called) = check_for_lockin_reached preliminary m in (called, h, m))
         else (None, h, m))"

text \<open>The accuracy in millimetres that follows from that of the time, 0.3 m for a nanosecond.\<close>

definition accuracy_of_time :: "int \<Rightarrow> u32 option" where
  "accuracy_of_time ns = to_uint32 (double (double (double (3 / 10) * of_int ns) * 1000))"

definition fill_from_gps :: "int \<Rightarrow> GnssPosStruct \<Rightarrow> geo_histos \<Rightarrow> geo_manager \<Rightarrow> (GeoPosition option \<times> geo_histos \<times> geo_manager) option" where
  "fill_from_gps now pos h m =
     (let fix_status = gm_fix_status m; m = m\<lparr>gm_fix_status := fix_status\<lparr>pr_updated := False\<rparr>\<rparr>;
          scaled = (\<lambda>hAcc vAcc. \<lparr>geo_longitude = double (of_int (sint (pos_lon pos)) * double (1 / 10000000)),
            geo_latitude = double (of_int (sint (pos_lat pos)) * double (1 / 10000000)),
            geo_altitude = double (double (1 / 1000) * of_int (sint (pos_hMSL pos))),
            geo_hor_error = double (double (1 / 1000) * of_nat (unat hAcc)),
            geo_vert_error = double (double (1 / 1000) * of_nat (unat vAcc))\<rparr>)
      in if pr_value fix_status < Fix2d \<and> (now - pr_update_time (gm_time_precision m)) div 1000 < 60000000
         then (let precision = gm_time_precision m; m = m\<lparr>gm_time_precision := precision\<lparr>pr_updated := False\<rparr>\<rparr>
               in case accuracy_of_time (pr_value precision) of None \<Rightarrow> None
                 | Some acc \<Rightarrow> Some (new_position now (scaled acc acc) h m))
         else Some (new_position now (scaled (pos_hAcc pos) (pos_vAcc pos)) h m))"

section \<open>Lock-in\<close>

text \<open>Positions of the receiver, one after the other, each with the time and the histograms there are then; all positions that are called back.\<close>

fun fixes_run :: "(int \<times> GnssPosStruct \<times> geo_histos) list \<Rightarrow> geo_manager \<Rightarrow> (GeoPosition list \<times> geo_manager) option" where
  "fixes_run [] m = Some ([], m)"
| "fixes_run ((now, pos, h) # fxs) m =
     (case fill_from_gps now pos h m of None \<Rightarrow> None
      | Some (called, _, m) \<Rightarrow>
          (case fixes_run fxs m of None \<Rightarrow> None
           | Some (ps, m) \<Rightarrow> Some ((case called of None \<Rightarrow> [] | Some p \<Rightarrow> [p]) @ ps, m)))"

lemma filter_position_keeps:
  "filter_position now pos h m = (p, candidate, h', m') \<Longrightarrow>
    gm_mode_config m' = gm_mode_config m \<and> gm_position m' = gm_position m \<and> pr_value (gm_time_precision m') = pr_value (gm_time_precision m)"
  by (auto simp: filter_position_def Let_def split: if_splits)

lemma new_position_modes:
  assumes "pmc_mode (gm_mode_config m) \<noteq> Mode_Auto" and "new_position now pos h m = (called, h', m')"
  shows "gm_position m' = gm_position m \<and> pr_value (gm_time_precision m') = pr_value (gm_time_precision m) \<and>
    (case called of None \<Rightarrow> gm_mode_config m' = gm_mode_config m
     | Some p \<Rightarrow> pmc_mode (gm_mode_config m) = Mode_LockIn \<and> geo_valid p
         \<and> geo_vert_error p < pmc_lock_in_min_error_meters (gm_mode_config m)
         \<and> geo_hor_error p < pmc_lock_in_min_error_meters (gm_mode_config m)
         \<and> gm_mode_config m' = (gm_mode_config m)\<lparr>pmc_mode := Mode_Static, pmc_static_position := p\<rparr>)"
proof -
  obtain p candidate h1 m1 where f: "filter_position now pos h m = (p, candidate, h1, m1)" by (metis prod_cases4)
  from assms filter_position_keeps [OF f] show ?thesis
    by (auto simp: new_position_def f check_for_lockin_reached_def Let_def split: if_splits)
qed

lemma fill_from_gps_modes:
  assumes "pmc_mode (gm_mode_config m) \<noteq> Mode_Auto" and "fill_from_gps now pos h m = Some (called, h', m')"
  shows "gm_position m' = gm_position m \<and> pr_value (gm_time_precision m') = pr_value (gm_time_precision m) \<and>
    (case called of None \<Rightarrow> gm_mode_config m' = gm_mode_config m
     | Some p \<Rightarrow> pmc_mode (gm_mode_config m) = Mode_LockIn \<and> geo_valid p
         \<and> geo_vert_error p < pmc_lock_in_min_error_meters (gm_mode_config m)
         \<and> geo_hor_error p < pmc_lock_in_min_error_meters (gm_mode_config m)
         \<and> gm_mode_config m' = (gm_mode_config m)\<lparr>pmc_mode := Mode_Static, pmc_static_position := p\<rparr>)"
proof -
  obtain m1 q where m1: "new_position now q h m1 = (called, h', m')" "gm_mode_config m1 = gm_mode_config m"
    "gm_position m1 = gm_position m" "pr_value (gm_time_precision m1) = pr_value (gm_time_precision m)"
    using assms(2) by (auto simp: fill_from_gps_def Let_def split: if_splits option.splits)
  have "pmc_mode (gm_mode_config m1) \<noteq> Mode_Auto" using assms(1) m1(2) by simp
  from new_position_modes [OF this m1(1)] show ?thesis unfolding m1(2-4) .
qed

lemma fill_from_gps_undefined: "fill_from_gps now pos h m = None \<Longrightarrow> accuracy_of_time (pr_value (gm_time_precision m)) = None"
  by (auto simp: fill_from_gps_def Let_def split: if_splits option.splits)

lemma static_silent:
  "pmc_mode (gm_mode_config m) = Mode_Static \<Longrightarrow>
    (case fixes_run fxs m of None \<Rightarrow> accuracy_of_time (pr_value (gm_time_precision m)) = None
     | Some (ps, m') \<Rightarrow> ps = [] \<and> gm_mode_config m' = gm_mode_config m \<and> gm_position m' = gm_position m)"
proof (induction fxs arbitrary: m)
  case (Cons fx fxs)
  obtain now pos h where fx: "fx = (now, pos, h)" by (cases fx)
  have mode: "pmc_mode (gm_mode_config m) \<noteq> Mode_Auto" "pmc_mode (gm_mode_config m) \<noteq> Mode_LockIn"
    using Cons.prems by (simp_all add: mode_defs)
  show ?case
  proof (cases "fill_from_gps now pos h m")
    case (Some r)
    obtain called h' m' where r: "r = (called, h', m')" by (cases r)
    have "called = None \<and> gm_mode_config m' = gm_mode_config m \<and> gm_position m' = gm_position m
        \<and> pr_value (gm_time_precision m') = pr_value (gm_time_precision m)"
      using fill_from_gps_modes [OF mode(1) Some [unfolded r]] mode(2) by (auto split: option.splits)
    then show ?thesis using Cons.IH [of m'] Cons.prems Some by (simp add: fx r split: option.splits prod.splits)
  qed (simp add: fx fill_from_gps_undefined)
qed simp

text \<open>
  C40: The lock-in happens at most once, and for a good position. While the mode is lock-in, whatever positions
  arrive and whatever the histograms hold, at most one position is called back; it is valid, both its errors are below the
  limit, and from then on the mode is static with exactly this position. A run is undefined only where the accuracy of
  the time, taken as a distance in millimetres, does not fit into 32 bits.
\<close>

theorem lock_in_once:
  assumes "pmc_mode (gm_mode_config m) = Mode_LockIn"
  shows "case fixes_run fxs m of None \<Rightarrow> accuracy_of_time (pr_value (gm_time_precision m)) = None
    | Some (ps, m') \<Rightarrow>
        if ps = [] then gm_mode_config m' = gm_mode_config m
        else (let p = hd ps; limit = pmc_lock_in_min_error_meters (gm_mode_config m)
          in ps = [p] \<and> geo_valid p \<and> geo_hor_error p < limit \<and> geo_vert_error p < limit
           \<and> gm_mode_config m' = (gm_mode_config m)\<lparr>pmc_mode := Mode_Static, pmc_static_position := p\<rparr>)"
  using assms
proof (induction fxs arbitrary: m)
  case (Cons fx fxs)
  obtain now pos h where fx: "fx = (now, pos, h)" by (cases fx)
  have mode: "pmc_mode (gm_mode_config m) \<noteq> Mode_Auto" using Cons.prems by (simp add: mode_defs)
  show ?case
  proof (cases "fill_from_gps now pos h m")
    case (Some r)
    obtain called h' m' where r: "r = (called, h', m')" by (cases r)
    note step = fill_from_gps_modes [OF mode Some [unfolded r]]
    show ?thesis
    proof (cases called)
      case None
      then show ?thesis using Cons.IH [of m'] Cons.prems Some step by (auto simp: fx r Let_def split: option.splits prod.splits if_splits)
    next
      case (Some p)
      then have "pmc_mode (gm_mode_config m') = Mode_Static" using step by simp
      from static_silent [OF this, of fxs] show ?thesis
        using \<open>fill_from_gps now pos h m = Some r\<close> step Some by (auto simp: fx r Let_def split: option.splits prod.splits)
    qed
  qed (simp add: fx fill_from_gps_undefined)
qed simp

lemma lock_in_example:
  "double (double (1 / 1000) * 3000) * 2 < 15" "double (double (1 / 1000) * 5000) * 2 < 15" "double (double (1 / 1000) * 5000) \<noteq> 0"
  "\<not> double (double (1 / 1000) * 9000) * 2 < 15" "double (double (1 / 1000) * 9000) \<noteq> 0"
  by code_simp+

theorem lock_in_once_witness:
  "let m = set_mode Mode_LockIn (set_fix_status 0 3 geo_manager_init);
       pos = \<lparr>pos_iTOW = 0, pos_lon = 82000000, pos_lat = 500000000, pos_height = 130000, pos_hMSL = 120000,
         pos_hAcc = 3000, pos_vAcc = 5000\<rparr>;
       h = histogram [] 10 0 1 True [];
       hs = \<lparr>gh_lon = h, gh_lat = h, gh_height = h\<rparr>
   in (case fixes_run [(1, pos\<lparr>pos_vAcc := 9000\<rparr>, hs), (2, pos, hs), (3, pos, hs)] m of None \<Rightarrow> False
       | Some (ps, m') \<Rightarrow> length ps = 1 \<and> map geo_hor_error ps = [double (double (1 / 1000) * 3000)]
          \<and> pmc_mode (gm_mode_config m') = Mode_Static)"
  using lock_in_once [of "set_mode Mode_LockIn (set_fix_status 0 3 geo_manager_init)"
    "(let pos = \<lparr>pos_iTOW = 0, pos_lon = 82000000, pos_lat = 500000000, pos_height = 130000, pos_hMSL = 120000,
         pos_hAcc = 3000, pos_vAcc = 5000\<rparr>;
       h = histogram [] 10 0 1 True [];
       hs = \<lparr>gh_lon = h, gh_lat = h, gh_height = h\<rparr>
      in [(1, pos\<lparr>pos_vAcc := 9000\<rparr>, hs), (2, pos, hs), (3, pos, hs)])"]
  by (simp add: Let_def fill_from_gps_def set_mode_def set_fix_status_def fresh_property_def Fix2d_def geo_manager_init_def
      new_position_def filter_position_def mode_defs filter_defs check_for_lockin_reached_def geo_valid_def lock_in_example)

end
