(* ===== verification/Data_Store.thy ===== *)
theory Data_Store
  imports Geo_Position Gpio_Signals Text_Io "HOL-Library.AList"
begin

text \<open>
  The datastore, \<open>daemon/src/core/registries/data_store.cpp\<close>, and what \<open>EventBindings\<close>
  (\<open>daemon/src/core/event_bindings.cpp\<close>) subscribes on its behalf: the events that are kept, the histograms they
  fill, the requests that are answered from it. A handler is a function of the store that gives what it publishes. None
  is undefined behaviour or a fill that never returns.
\<close>

section \<open>The store\<close>

text \<open>
  What is kept: events, by their type. A \<open>weak_ptr\<close> to the calibration stands for the items the object has while it
  lives; the message rates are a map from the message to its rate, in the order of iteration.
\<close>

datatype (plugins only:) datum =
    D event
  | D_Ant CfgAnt
  | D_NavX5 CfgNavX5
  | D_Nav5 CfgNav5
  | D_TimeGPS NavTimeGPS
  | D_TimeUTC NavTimeUTC
  | D_Dop UbxDopStruct
  | D_BiasCurrent rat
  | D_Interval interval_event
  | D_Calibration "CalibStruct list option"
  | D_Preamps PreampSwitchEvent PreampSwitchEvent
  | D_MsgRates "(u16 \<times> CfgMsg) list"
  | D_StatusLed u8 int bool
  | D_Other UbxEvent

text \<open>The name of the type, which stands for \<open>std::type_index\<close>.\<close>

fun event_type :: "event \<Rightarrow> string" where
  "event_type (Ev_AdcMode _) = ''AdcModeEvent''"
| "event_type (Ev_AdcTrace _) = ''AdcTraceEvent''"
| "event_type (Ev_ADS1115 _) = ''ADS1115Event''"
| "event_type (Ev_BiasSwitch _) = ''BiasSwitchEvent''"
| "event_type (Ev_BiasVoltage _) = ''BiasVoltageEvent''"
| "event_type (Ev_Calib _) = ''CalibEvent''"
| "event_type (Ev_GainSwitch _) = ''GainSwitchEvent''"
| "event_type (Ev_GpioRate _) = ''GpioRateEvent''"
| "event_type (Ev_GpioInhibit _) = ''GpioInhibitEvent''"
| "event_type (Ev_I2CStats _) = ''I2CStatsEvent''"
| "event_type (Ev_Temperature _) = ''TemperatureEvent''"
| "event_type (Ev_MCP4728 _) = ''MCP4728Event''"
| "event_type (Ev_MqttStatus _) = ''MqttStatusEvent''"
| "event_type (Ev_PcaSwitch _) = ''PcaSwitchEvent''"
| "event_type (Ev_PolaritySwitch _) = ''PolaritySwitchEvent''"
| "event_type (Ev_PreampSwitch _) = ''PreampSwitchEvent''"
| "event_type (Ev_SPIStats _) = ''SPIStatsEvent''"
| "event_type (Ev_Gpio _) = ''GpioEvent''"
| "event_type (Ev_ThresholdSetting _) = ''ThresholdSettingEvent''"
| "event_type (Ev_NavSat _) = ''NavSat''"
| "event_type (Ev_CfgMsg _) = ''CfgMsg''"
| "event_type (Ev_CfgGNSS _) = ''CfgGNSS''"
| "event_type (Ev_GnssPos _) = ''GnssPosStruct''"
| "event_type (Ev_TimeMark _) = ''UbxTimeMarkStruct''"
| "event_type (Ev_MonTx _) = ''MonTx''"
| "event_type (Ev_MonRx _) = ''MonRx''"
| "event_type (Ev_MonHw _) = ''GnssMonHwStruct''"
| "event_type (Ev_MonHw2 _) = ''GnssMonHw2Struct''"
| "event_type (Ev_GpsVersion _) = ''GpsVersion''"
| "event_type (Ev_NavStatus _) = ''NavStatus''"
| "event_type (Ev_NavClock _) = ''NavClock''"
| "event_type (Ev_TimePulse _) = ''UbxTimePulseStruct''"
| "event_type (Ev_Histogram _) = ''Histogram''"
| "event_type (Ev_LogInfo _) = ''LogInfoStruct''"
| "event_type (Ev_PositionMode _) = ''PositionModeConfig''"
| "event_type (Ev_Version _) = ''VersionEvent''"
| "event_type (Ev_EventTrigger _) = ''EventTriggerEvent''"
| "event_type (Ev_MqttInhibit _) = ''MqttInhibitEvent''"
| "event_type (Ev_Sds011 _) = ''Sds011Event''"

fun type_name :: "datum \<Rightarrow> string" where
  "type_name (D e) = event_type e"
| "type_name (D_Ant _) = ''CfgAnt''"
| "type_name (D_NavX5 _) = ''CfgNavX5''"
| "type_name (D_Nav5 _) = ''CfgNav5''"
| "type_name (D_TimeGPS _) = ''NavTimeGPS''"
| "type_name (D_TimeUTC _) = ''NavTimeUTC''"
| "type_name (D_Dop _) = ''UbxDopStruct''"
| "type_name (D_BiasCurrent _) = ''BiasCurrentEvent''"
| "type_name (D_Interval _) = ''IntervalEvent''"
| "type_name (D_Calibration _) = ''std::weak_ptr<ShowerDetectorCalib>''"
| "type_name (D_Preamps _ _) = ''std::array<PreampSwitchEvent, 2>''"
| "type_name (D_MsgRates _) = ''std::unordered_map<std::uint16_t, CfgMsg>''"
| "type_name (D_StatusLed _ _ _) = ''StatusLedEvent''"
| "type_name (D_Other _) = ''none''"

text \<open>The events of the receiver among them.\<close>

fun ubx_datum :: "UbxEvent \<Rightarrow> datum" where
  "ubx_datum (EvNavStatus e) = D (Ev_NavStatus e)"
| "ubx_datum (EvDop e) = D_Dop e"
| "ubx_datum (EvNavTimeGPS e) = D_TimeGPS e"
| "ubx_datum (EvNavTimeUTC e) = D_TimeUTC e"
| "ubx_datum (EvNavClock e) = D (Ev_NavClock e)"
| "ubx_datum (EvNavSat e) = D (Ev_NavSat e)"
| "ubx_datum (EvGnssPos e) = D (Ev_GnssPos e)"
| "ubx_datum (EvCfgAnt e) = D_Ant e"
| "ubx_datum (EvCfgNavX5 e) = D_NavX5 e"
| "ubx_datum (EvCfgNav5 e) = D_Nav5 e"
| "ubx_datum (EvTimePulse e) = D (Ev_TimePulse e)"
| "ubx_datum (EvCfgGNSS e) = D (Ev_CfgGNSS e)"
| "ubx_datum (EvCfgMsg e) = D (Ev_CfgMsg e)"
| "ubx_datum (EvMonRx e) = D (Ev_MonRx e)"
| "ubx_datum (EvMonTx e) = D (Ev_MonTx e)"
| "ubx_datum (EvMonHw e) = D (Ev_MonHw e)"
| "ubx_datum (EvMonHw2 e) = D (Ev_MonHw2 e)"
| "ubx_datum (EvGpsVersion e) = D (Ev_GpsVersion e)"
| "ubx_datum (EvTimeMark e) = D (Ev_TimeMark e)"
| "ubx_datum e = D_Other e"

text \<open>
  \<open>ds_lastTimeMark\<close> is the static variable of \<open>fillHisto\<close>. Of the entries of \<open>data_\<close> the time of the update is
  only looked at for being there, so it is left out.
\<close>

record data_store =
  ds_histos :: "(string \<times> Histogram) list"
  ds_geo :: geo_manager
  ds_ublox :: counter_buffer
  ds_last_timepulse :: "int option"
  ds_lastTimeMark :: UbxTimeMarkStruct
  ds_data :: "string \<rightharpoonup> datum"

text \<open>What a handler publishes; the last is the pointer \<open>clearHisto\<close> returns, which is published as it is.\<close>

datatype (plugins only:) ds_output =
    Pub datum
  | Pub_PreampRequest
  | Pub_Log string "byte list"
  | Pub_HistogramPtr "Histogram option"

definition no_timespec :: timespec where
  "no_timespec = \<lparr>tv_sec = 0, tv_nsec = 0\<rparr>"

definition no_time_mark :: UbxTimeMarkStruct where
  "no_time_mark = \<lparr>tmk_rising = no_timespec, tmk_falling = no_timespec, tmk_risingValid = False, tmk_fallingValid = False,
     tmk_accuracy_ns = 0, tmk_valid = False, tmk_timeBase = 0, tmk_utcAvailable = False, tmk_flags = 0, tmk_evtCounter = 0\<rparr>"

definition data_store_init :: "event_time \<Rightarrow> data_store" where
  "data_store_init now = \<lparr>ds_histos = [], ds_geo = geo_manager_init, ds_ublox = counter_init now, ds_last_timepulse = None,
     ds_lastTimeMark = no_time_mark, ds_data = Map.empty\<rparr>"

definition lookup :: "string \<Rightarrow> data_store \<Rightarrow> datum option" where
  "lookup type s = ds_data s type"

text \<open>\<open>get\<close> for the types that are looked into: a value of another type is none.\<close>

fun as_dop :: "datum \<Rightarrow> UbxDopStruct option" where
  "as_dop (D_Dop dop) = Some dop" | "as_dop _ = None"

fun as_event :: "datum \<Rightarrow> event option" where
  "as_event (D e) = Some e" | "as_event _ = None"

fun as_calibration :: "datum \<Rightarrow> CalibStruct list option" where
  "as_calibration (D_Calibration items) = items" | "as_calibration _ = None"

fun as_preamps :: "datum \<Rightarrow> (PreampSwitchEvent \<times> PreampSwitchEvent) option" where
  "as_preamps (D_Preamps a b) = Some (a, b)" | "as_preamps _ = None"

fun as_rates :: "datum \<Rightarrow> (u16 \<times> CfgMsg) list option" where
  "as_rates (D_MsgRates rates) = Some rates" | "as_rates _ = None"

fun as_trigger :: "event \<Rightarrow> u8 option" where
  "as_trigger (Ev_EventTrigger signal) = Some signal" | "as_trigger _ = None"

fun as_dac :: "event \<Rightarrow> MCP4728Event option" where
  "as_dac (Ev_MCP4728 e) = Some e" | "as_dac _ = None"

definition get_dop :: "data_store \<Rightarrow> UbxDopStruct option" where
  "get_dop s = Option.bind (lookup ''UbxDopStruct'' s) as_dop"

definition get_trigger :: "data_store \<Rightarrow> u8 option" where
  "get_trigger s = Option.bind (Option.bind (lookup ''EventTriggerEvent'' s) as_event) as_trigger"

definition get_dac :: "data_store \<Rightarrow> MCP4728Event option" where
  "get_dac s = Option.bind (Option.bind (lookup ''MCP4728Event'' s) as_event) as_dac"

definition get_preamps :: "data_store \<Rightarrow> (PreampSwitchEvent \<times> PreampSwitchEvent) option" where
  "get_preamps s = Option.bind (lookup ''std::array<PreampSwitchEvent, 2>'' s) as_preamps"

definition get_rates :: "data_store \<Rightarrow> (u16 \<times> CfgMsg) list option" where
  "get_rates s = Option.bind (lookup ''std::unordered_map<std::uint16_t, CfgMsg>'' s) as_rates"

section \<open>Histograms\<close>

text \<open>The map in the order in which its entries were put; the code iterates in an order of its own.\<close>

definition HISTOGRAMS :: "(string \<times> int \<times> rat \<times> rat \<times> bool \<times> string) list" where
  "HISTOGRAMS =
     [(''geoHeight'', 200, 0, 199, True, ''m''), (''geoLongitude'', 200, 0, double (3 / 1000), True, ''deg''),
      (''geoLatitude'', 200, 0, double (3 / 1000), True, ''deg''), (''weightedGeoHeight'', 200, 0, 199, True, ''m''),
      (''pulseHeight'', 500, 0, double (38 / 10), False, ''V''), (''adcSampleTime'', 500, 0, 10, True, ''ms''),
      (''UbxEventLength'', 100, 50, 149, True, ''ns''), (''gpioEventInterval'', 400, 0, 2000, True, ''ms''),
      (''gpioEventIntervalShort'', 50, 0, 49, False, ''us''), (''UbxEventInterval'', 200, 0, 2000, True, ''ms''),
      (''TPTimePhase'', 500, - 500000, 500000, False, ''us''), (''TPTimeJitter'', 400, - 50, 50, True, ''us''),
      (''Bias Voltage'', 200, 0, 80, True, ''V''), (''Bias Current'', 200, 0, 50, True, ''uA''),
      (''pDOP'', 200, 0, 10, True, ''''), (''tDOP'', 200, 0, 10, True, '''')]"

definition setupHistos :: "data_store \<Rightarrow> data_store" where
  "setupHistos s = s\<lparr>ds_histos := map (\<lambda>(name, bins, lo, hi, auto, unit). (name, histogram (octets name) bins lo hi auto (octets unit))) HISTOGRAMS\<rparr>"

definition histo :: "string \<Rightarrow> data_store \<Rightarrow> Histogram option" where
  "histo name s = map_of (ds_histos s) name"

definition set_histo :: "string \<Rightarrow> Histogram \<Rightarrow> data_store \<Rightarrow> data_store" where
  "set_histo name h s = s\<lparr>ds_histos := AList.update name h (ds_histos s)\<rparr>"

definition clearHisto :: "string \<Rightarrow> data_store \<Rightarrow> Histogram option \<times> data_store" where
  "clearHisto name s =
     (case histo name s of None \<Rightarrow> (None, s) | Some h \<Rightarrow> (Some (hist_clear h), set_histo name (hist_clear h) s))"

text \<open>\<open>m_histo_map[name]->fill(x)\<close>; where there is no such histogram, a null pointer is followed.\<close>

definition fill_histo :: "string \<Rightarrow> rat \<Rightarrow> rat \<Rightarrow> data_store \<Rightarrow> data_store option" where
  "fill_histo name x mult s =
     (case histo name s of None \<Rightarrow> None
      | Some h \<Rightarrow> (case fill x mult h of None \<Rightarrow> None | Some h \<Rightarrow> Some (set_histo name h s)))"

text \<open>The product with 1e-3 and the like.\<close>

definition scaled :: "rat \<Rightarrow> rat \<Rightarrow> rat" where
  "scaled factor x = double (double factor * x)"

definition fill_position :: "GnssPosStruct \<Rightarrow> data_store \<Rightarrow> data_store option" where
  "fill_position pos s =
     (case get_dop s of None \<Rightarrow> Some s
      | Some dop \<Rightarrow>
          (let config = gm_mode_config (ds_geo s); vDOP = (of_nat (unat (vDOP dop)) :: rat); hDOP = of_nat (unat (hDOP dop))
           in do {
             s \<leftarrow> (if scaled (1 / 1000) (of_nat (unat (pos_vAcc pos))) < 100 \<and>
                      (pmc_mode config \<noteq> Mode_LockIn \<or> double (vDOP / 100) < pmc_lock_in_max_dop config)
                   then do {
                     s \<leftarrow> fill_histo ''geoHeight'' (scaled (1 / 1000) (of_int (sint (pos_hMSL pos)))) 1 s;
                     if 0 < vDOP
                     then fill_histo ''weightedGeoHeight'' (scaled (1 / 1000) (of_int (sint (pos_hMSL pos)))) (double (100 / vDOP)) s
                     else Some s
                   } else Some s);
             if scaled (1 / 1000) (of_nat (unat (pos_hAcc pos))) < 100 \<and> double (hDOP / 100) < pmc_lock_in_max_dop config
             then do {
               s \<leftarrow> fill_histo ''geoLongitude'' (scaled (1 / 10000000) (of_int (sint (pos_lon pos)))) 1 s;
               fill_histo ''geoLatitude'' (scaled (1 / 10000000) (of_int (sint (pos_lat pos)))) 1 s
             } else Some s
           }))"

text \<open>\<open>long double\<close> has 113 bits on the target.\<close>

definition fill_time_mark :: "UbxTimeMarkStruct \<Rightarrow> data_store \<Rightarrow> data_store option" where
  "fill_time_mark tm s =
     (let diff = (\<lambda>a b. rnd 113 (rnd 113 (of_int (tv_sec a - tv_sec b) * 1000000000) + of_int (tv_nsec a - tv_nsec b)));
          dts = diff (tmk_falling tm) (tmk_rising tm);
          interval = diff (tmk_rising tm) (tmk_rising (ds_lastTimeMark s))
      in do {
        s \<leftarrow> (if 0 < dts \<and> tmk_fallingValid tm then fill_histo ''UbxEventLength'' (double dts) 1 s else Some s);
        s \<leftarrow> (if interval < 1000000000000
              then fill_histo ''UbxEventInterval'' (double (rnd 113 (rnd 113 (1 / 1000000) * interval))) 1 s else Some s);
        Some (s\<lparr>ds_lastTimeMark := tm\<rparr>)
      })"

definition fill_bias_current :: "rat \<Rightarrow> data_store \<Rightarrow> data_store option" where
  "fill_bias_current ibias s = fill_histo ''Bias Current'' ibias 1 s"

definition fill_interval :: "interval_event \<Rightarrow> data_store \<Rightarrow> data_store option" where
  "fill_interval event s =
     (case get_trigger s of None \<Rightarrow> Some s
      | Some signal \<Rightarrow>
          if ie_sig event = signal
          then do {
            s \<leftarrow> fill_histo ''gpioEventInterval'' (scaled (1 / 1000000) (double (of_int (ie_interval event)))) 1 s;
            fill_histo ''gpioEventIntervalShort'' (scaled (1 / 1000) (double (of_int (ie_interval event)))) 1 s
          } else Some s)"

definition fill_gpio :: "gpio_event \<Rightarrow> data_store \<Rightarrow> data_store option" where
  "fill_gpio event s =
     (if ge_signal event \<noteq> TIMEPULSE then Some s
      else let usecs = (ge_timestamp event sdiv 1000) smod 1000000; usecs = (if 500000 < usecs then usecs - 1000000 else usecs)
           in do {
             s \<leftarrow> fill_histo ''TPTimePhase'' (of_int usecs) 1 s;
             if ge_edge event \<noteq> Rising then Some s
             else do {
               s \<leftarrow> (case ds_last_timepulse s of None \<Rightarrow> Some s
                     | Some before \<Rightarrow>
                         (let intervalUs = double (double (of_int (ge_timestamp event - before)) / 1000);
                              jitterUs = double (intervalUs - 1000000)
                          in if \<bar>jitterUs\<bar> < 500000 then fill_histo ''TPTimeJitter'' jitterUs 1 s else Some s));
               Some (s\<lparr>ds_last_timepulse := Some (ge_timestamp event)\<rparr>)
             }
           })"

text \<open>
  The divider is the item VDIV of the calibration, if its object still lives. A conversion time that was never set is
  read as it is.
\<close>

definition vdiv_of :: "data_store \<Rightarrow> rat option" where
  "vdiv_of s =
     (case Option.bind (lookup ''std::weak_ptr<ShowerDetectorCalib>'' s) as_calibration of None \<Rightarrow> None
      | Some items \<Rightarrow> map_option (\<lambda>item. in_double (cal_value item)) (find (\<lambda>item. cal_name item = octets ''VDIV'') items))"

definition fill_adc :: "ADS1115Event \<Rightarrow> data_store \<Rightarrow> data_store option" where
  "fill_adc event s = do {
     s \<leftarrow> (if ads_channel event = 0 then fill_histo ''pulseHeight'' (ads_voltage event) 1 s else Some s);
     s \<leftarrow> (if ads_channel event = 3
           then (case vdiv_of s of None \<Rightarrow> Some s
                 | Some vdiv \<Rightarrow> fill_histo ''Bias Voltage'' (double (double (ads_voltage event * vdiv) * double (1 / 100))) 1 s)
           else Some s);
     case ads_convTime event of None \<Rightarrow> None | Some t \<Rightarrow> fill_histo ''adcSampleTime'' t 1 s
   }"

definition fill_dop :: "UbxDopStruct \<Rightarrow> data_store \<Rightarrow> data_store option" where
  "fill_dop dop s = do {
     s \<leftarrow> fill_histo ''pDOP'' (double (of_nat (unat (pDOP dop)) / 100)) 1 s;
     fill_histo ''tDOP'' (double (of_nat (unat (tDOP dop)) / 100)) 1 s
   }"
section \<open>The position\<close>

definition geo_histos_of :: "data_store \<Rightarrow> geo_histos option" where
  "geo_histos_of s =
     (case (histo ''geoLongitude'' s, histo ''geoLatitude'' s, histo ''geoHeight'' s) of
        (Some lon, Some lat, Some height) \<Rightarrow> Some \<lparr>gh_lon = lon, gh_lat = lat, gh_height = height\<rparr>
      | _ \<Rightarrow> None)"

definition put_geo_histos :: "geo_histos \<Rightarrow> data_store \<Rightarrow> data_store" where
  "put_geo_histos h s = set_histo ''geoHeight'' (gh_height h) (set_histo ''geoLatitude'' (gh_lat h) (set_histo ''geoLongitude'' (gh_lon h) s))"

definition processGeoPos :: "GeoPosition \<Rightarrow> data_store \<Rightarrow> (ds_output list \<times> data_store) option" where
  "processGeoPos pos s = do {
     p \<leftarrow> getPosStruct pos;
     s' \<leftarrow> fill_position p s;
     Some (Pub (D (Ev_GnssPos p)) #
       (case histo ''geoHeight'' s of None \<Rightarrow> []
        | Some h \<Rightarrow> [Pub_Log ''meanGeoHeightMSL'' (to_string_double (getMean h) @ octets '' m'')]), s')
   }"

definition store_position :: "int \<Rightarrow> GnssPosStruct \<Rightarrow> data_store \<Rightarrow> (ds_output list \<times> data_store) option" where
  "store_position now pos s = do {
     h \<leftarrow> geo_histos_of s;
     (called, h, m) \<leftarrow> fill_from_gps now pos h (ds_geo s);
     let s = put_geo_histos h (s\<lparr>ds_geo := m\<rparr>);
     case called of None \<Rightarrow> Some ([], s) | Some p \<Rightarrow> processGeoPos p s
   }"

section \<open>Storing\<close>

text \<open>\<open>DataStore::store\<close>: of the stored types two fill histograms.\<close>

fun fills_on_store :: "datum \<Rightarrow> data_store \<Rightarrow> data_store option" where
  "fills_on_store (D (Ev_TimeMark tm)) s = fill_time_mark tm s"
| "fills_on_store (D_Dop dop) s = fill_dop dop s"
| "fills_on_store _ s = Some s"

definition ds_store :: "datum \<Rightarrow> data_store \<Rightarrow> data_store option" where
  "ds_store d s = do {
     s \<leftarrow> fills_on_store d s;
     Some (s\<lparr>ds_data := (ds_data s)(type_name d \<mapsto> d)\<rparr>)
   }"

definition store_if_empty :: "datum \<Rightarrow> data_store \<Rightarrow> data_store option" where
  "store_if_empty d s = (if lookup (type_name d) s \<noteq> None then Some s else ds_store d s)"

text \<open>The types of \<open>subscribe_all\<close>.\<close>

definition STORED_TYPES :: "string list" where
  "STORED_TYPES = [''CfgGNSS'', ''CfgAnt'', ''CfgNavX5'', ''CfgNav5'', ''NavSat'', ''MonTx'', ''MonRx'', ''NavStatus'', ''NavClock'',
     ''UbxTimeMarkStruct'', ''UbxTimePulseStruct'', ''GnssMonHwStruct'', ''GnssMonHw2Struct'',
     ''NavTimeGPS'', ''NavTimeUTC'', ''MqttStatusEvent'', ''UbxDopStruct'', ''AdcTraceEvent'',
     ''BiasSwitchEvent'', ''GainSwitchEvent'', ''CalibEvent'', ''std::weak_ptr<ShowerDetectorCalib>'',
     ''GpioRateEvent'', ''GpioInhibitEvent'', ''TemperatureEvent'', ''MCP4728Event'', ''PcaSwitchEvent'',
     ''PolaritySwitchEvent'', ''GpsVersion'', ''EventTriggerEvent'', ''LogInfoStruct'',
     ''PositionModeConfig'', ''VersionEvent'']"

definition no_preamp :: PreampSwitchEvent where
  "no_preamp = \<lparr>pre_channel = 0, pre_state = False\<rparr>"

definition set_preamp :: "PreampSwitchEvent \<Rightarrow> PreampSwitchEvent \<times> PreampSwitchEvent \<Rightarrow> datum" where
  "set_preamp e = (\<lambda>(a, b). if pre_channel e = 0 then D_Preamps e b else D_Preamps a e)"

definition store_preamp :: "PreampSwitchEvent \<Rightarrow> data_store \<Rightarrow> (ds_output list \<times> data_store) option" where
  "store_preamp e s =
     (if 1 < pre_channel e then Some ([], s)
      else case get_preamps s of
        Some pair \<Rightarrow> do { s \<leftarrow> ds_store (set_preamp e pair) s; Some ([Pub_PreampRequest], s) }
      | None \<Rightarrow> do { s \<leftarrow> ds_store (set_preamp e (no_preamp, no_preamp)) s; Some ([], s) })"

definition store_rate :: "CfgMsg \<Rightarrow> data_store \<Rightarrow> (ds_output list \<times> data_store) option" where
  "store_rate m s =
     (case get_rates s of
        Some rates \<Rightarrow>
          (let changed = (case map_of rates (cm_msgID m) of None \<Rightarrow> True | Some old \<Rightarrow> cm_rate old \<noteq> cm_rate m)
           in do {
             s \<leftarrow> ds_store (D_MsgRates (AList.update (cm_msgID m) m rates)) s;
             Some (if changed then [Pub (D (Ev_CfgMsg m))] else [], s)
           })
      | None \<Rightarrow> do { s \<leftarrow> ds_store (D_MsgRates [(cm_msgID m, m)]) s; Some ([Pub (D (Ev_CfgMsg m))], s) })"

text \<open>The handlers of a \<open>DatastoreStoreEvent\<close>; for the other types there is none.\<close>

fun handle_special :: "int \<Rightarrow> datum \<Rightarrow> data_store \<Rightarrow> (ds_output list \<times> data_store) option" where
  "handle_special now (D (Ev_GnssPos pos)) s = store_position now pos s"
| "handle_special now (D (Ev_PreampSwitch e)) s = store_preamp e s"
| "handle_special now (D (Ev_CfgMsg m)) s = store_rate m s"
| "handle_special now _ s = Some ([], s)"

definition handle_store :: "int \<Rightarrow> datum \<Rightarrow> data_store \<Rightarrow> (ds_output list \<times> data_store) option" where
  "handle_store now d s =
     (if type_name d \<in> set STORED_TYPES then do { s \<leftarrow> ds_store d s; Some ([Pub d], s) }
      else handle_special now d s)"

section \<open>Other events and commands\<close>

definition handle_position_mode :: "PositionModeConfig \<Rightarrow> data_store \<Rightarrow> ds_output list \<times> data_store" where
  "handle_position_mode cmd s =
     (let m = set_mode_config cmd (ds_geo s) in ([Pub (D (Ev_PositionMode (gm_mode_config m)))], s\<lparr>ds_geo := m\<rparr>))"

text \<open>Values of the DAC by channel, up to the first one that \<open>at\<close> does not find; then the handler throws.\<close>

fun dac_events :: "(u8 \<times> rat) list \<Rightarrow> (u8 \<times> (rat \<Rightarrow> event)) list \<Rightarrow> ds_output list \<times> bool" where
  "dac_events voltages [] = ([], False)"
| "dac_events voltages ((channel, ev) # evs) =
     (case map_of voltages channel of None \<Rightarrow> ([], True)
      | Some v \<Rightarrow> (let (out, threw) = dac_events voltages evs in (Pub (D (ev v)) # out, threw)))"

definition threshold_event :: "u8 \<Rightarrow> rat \<Rightarrow> event" where
  "threshold_event channel v = Ev_ThresholdSetting \<lparr>tse_channel = channel, tse_voltage = v\<rparr>"

definition dac_thresholds :: "MCP4728Event \<Rightarrow> ds_output list \<times> bool" where
  "dac_thresholds e = dac_events (dac_voltages e) [(0, threshold_event 0), (1, threshold_event 1)]"

definition handle_dac_event :: "MCP4728Event \<Rightarrow> ds_output list \<times> bool" where
  "handle_dac_event e = dac_events (dac_voltages e) [(0, threshold_event 0), (1, threshold_event 1), (2, Ev_BiasVoltage)]"

text \<open>The subscriptions to events that were published: the histograms, the counter and the status of the receiver.\<close>

fun handle_event_published :: "int \<Rightarrow> datum \<Rightarrow> data_store \<Rightarrow> (ds_output list \<times> data_store) option" where
  "handle_event_published now (D (Ev_ADS1115 e)) s = map_option (Pair []) (fill_adc e s)"
| "handle_event_published now (D_BiasCurrent e) s = map_option (Pair []) (fill_bias_current e s)"
| "handle_event_published now (D (Ev_Gpio e)) s = map_option (Pair []) (fill_gpio e s)"
| "handle_event_published now (D_Interval e) s = map_option (Pair []) (fill_interval e s)"
| "handle_event_published now (D (Ev_MqttStatus e)) s = map_option (Pair []) (ds_store (D (Ev_MqttStatus e)) s)"
| "handle_event_published now (D (Ev_NavClock e)) s = Some ([], s\<lparr>ds_geo := set_time_accuracy now (ncl_tAcc e) (ds_geo s)\<rparr>)"
| "handle_event_published now (D (Ev_NavStatus e)) s = Some ([], s\<lparr>ds_geo := set_fix_status now (nst_gpsFix e) (ds_geo s)\<rparr>)"
| "handle_event_published now (D (Ev_MCP4728 e)) s = Some (fst (handle_dac_event e), s)"
| "handle_event_published now (D (Ev_TimeMark e)) s = Some ([], s\<lparr>ds_ublox := onCounterValue now (tmk_evtCounter e) (ds_ublox s)\<rparr>)"
| "handle_event_published now _ s = Some ([], s)"

text \<open>\<open>rescale\<close> and publish all histograms.\<close>

definition all_histos :: "data_store \<Rightarrow> ds_output list \<times> data_store" where
  "all_histos s =
     (let hs = map (\<lambda>(name, h). (name, rescale_auto h)) (ds_histos s)
      in (map (\<lambda>(_, h). Pub (D (Ev_Histogram h))) hs, s\<lparr>ds_histos := hs\<rparr>))"

section \<open>Requests\<close>

text \<open>The value that is stored, or nothing but a warning.\<close>

definition answer :: "string \<Rightarrow> data_store \<Rightarrow> ds_output list" where
  "answer type s = (case lookup type s of None \<Rightarrow> [] | Some d \<Rightarrow> [Pub d])"

definition preamp_answer :: "data_store \<Rightarrow> ds_output list" where
  "preamp_answer s =
     (case get_preamps s of Some (a, b) \<Rightarrow> [Pub (D (Ev_PreampSwitch a)), Pub (D (Ev_PreampSwitch b))] | None \<Rightarrow> [])"

definition rates_answer :: "data_store \<Rightarrow> ds_output list" where
  "rates_answer s =
     (case get_rates s of Some rates \<Rightarrow> map (\<lambda>(_, m). Pub (D (Ev_CfgMsg m))) rates | None \<Rightarrow> [])"

fun handle_request :: "command \<Rightarrow> data_store \<Rightarrow> ds_output list \<times> data_store" where
  "handle_request ThresholdSettingRequestCmd s =
     (case get_dac s of Some e \<Rightarrow> (fst (dac_thresholds e), s) | None \<Rightarrow> ([], s))"
| "handle_request BiasVoltageRequestCmd s =
     (case get_dac s of Some e \<Rightarrow> (fst (dac_events (dac_voltages e) [(2, Ev_BiasVoltage)]), s) | None \<Rightarrow> ([], s))"
| "handle_request PcaSwitchRequestCmd s = (answer ''PcaSwitchEvent'' s, s)"
| "handle_request BiasSwitchRequestCmd s = (answer ''BiasSwitchEvent'' s, s)"
| "handle_request PolaritySwitchRequestCmd s = (answer ''PolaritySwitchEvent'' s, s)"
| "handle_request GainSwitchRequestCmd s = (answer ''GainSwitchEvent'' s, s)"
| "handle_request (GpioRateRequestCmd _) s = (answer ''GpioRateEvent'' s, s)"
| "handle_request TemperatureRequestCmd s = (answer ''TemperatureEvent'' s, s)"
| "handle_request CalibRequestCmd s = (answer ''CalibEvent'' s, s)"
| "handle_request EventTriggerRequestCmd s = (answer ''EventTriggerEvent'' s, s)"
| "handle_request DacSettingRequestCmd s = (answer ''MCP4728Event'' s, s)"
| "handle_request PreampSwitchRequestCmd s = (preamp_answer s, s)"
| "handle_request UbxMsgRateRequestCmd s = (rates_answer s, s)"
| "handle_request (HistogramClearCmd name) s =
     (let (h, s) = clearHisto (map (\<lambda>b. char_of (unat b)) name) s in ([Pub_HistogramPtr h], s))"
| "handle_request HistogramRequestCmd s = all_histos s"
| "handle_request (PositionModeCmd config) s = handle_position_mode config s"
| "handle_request _ s = ([], s)"

text \<open>What a new client gets: the requests that are published, then the rest of the store, then the histograms.\<close>

definition POLLED_REQUESTS :: "command list" where
  "POLLED_REQUESTS = [BiasSwitchRequestCmd, DacSettingRequestCmd, PcaSwitchRequestCmd, EventTriggerRequestCmd, CalibRequestCmd,
     GainSwitchRequestCmd, GpioRateRequestCmd 0, TemperatureRequestCmd, PolaritySwitchRequestCmd, PreampSwitchRequestCmd]"

definition POLLED_TYPES :: "string list" where
  "POLLED_TYPES = [''GpsVersion'', ''CfgGNSS'', ''NavSat'', ''MonTx'', ''MonRx'', ''NavStatus'', ''NavClock'', ''UbxTimePulseStruct'',
     ''GnssMonHwStruct'', ''GnssMonHw2Struct'', ''MqttStatusEvent'', ''GpioInhibitEvent'', ''TemperatureEvent'', ''PositionModeConfig'',
     ''VersionEvent'', ''LogInfoStruct'']"

definition pollDatastore :: "data_store \<Rightarrow> command list \<times> ds_output list \<times> data_store" where
  "pollDatastore s =
     (let (histos, s') = all_histos s in (POLLED_REQUESTS, concat (map (\<lambda>type. answer type s) POLLED_TYPES) @ histos, s'))"

text \<open>\<open>setupDatastore\<close> also sets the time over which the counter averages.\<close>

definition setupDatastore :: "data_store \<Rightarrow> data_store" where
  "setupDatastore s = setupHistos (s\<lparr>ds_ublox := (ds_ublox s)\<lparr>cb_buffer_time := 10 * 1000000000\<rparr>\<rparr>)"

section \<open>Histories\<close>

text \<open>What reaches the store from the bus, in the order in which the handlers run.\<close>

datatype (plugins only:) ds_op = Op_Store int datum | Op_Event int datum | Op_Request command

fun ds_step :: "ds_op \<Rightarrow> data_store \<Rightarrow> (ds_output list \<times> data_store) option" where
  "ds_step (Op_Store now d) s = handle_store now d s"
| "ds_step (Op_Event now d) s = handle_event_published now d s"
| "ds_step (Op_Request cmd) s = Some (handle_request cmd s)"

fun ds_run :: "ds_op list \<Rightarrow> data_store \<Rightarrow> (ds_output list \<times> data_store) option" where
  "ds_run [] s = Some ([], s)"
| "ds_run (op # ops) s =
     (case ds_step op s of None \<Rightarrow> None
      | Some (out, s) \<Rightarrow> (case ds_run ops s of None \<Rightarrow> None | Some (outs, s) \<Rightarrow> Some (out @ outs, s)))"

text \<open>The data a history has stored, the newest first; the state of the MQTT sink is also kept when it is only published.\<close>

fun stored_by :: "ds_op \<Rightarrow> datum list" where
  "stored_by (Op_Store now d) = [d]"
| "stored_by (Op_Event now (D (Ev_MqttStatus e))) = [D (Ev_MqttStatus e)]"
| "stored_by _ = []"

definition stored_in :: "ds_op list \<Rightarrow> datum list" where
  "stored_in ops = rev (concat (map stored_by ops))"

text \<open>The reference looks the answers up in that list.\<close>

definition latest :: "string \<Rightarrow> datum list \<Rightarrow> datum option" where
  "latest type h = find (\<lambda>d. type_name d = type) h"

fun last_preamp :: "u8 \<Rightarrow> datum list \<Rightarrow> PreampSwitchEvent option" where
  "last_preamp channel [] = None"
| "last_preamp channel (D (Ev_PreampSwitch e) # h) = (if pre_channel e = channel then Some e else last_preamp channel h)"
| "last_preamp channel (_ # h) = last_preamp channel h"

definition ref_preamps :: "datum list \<Rightarrow> PreampSwitchEvent list" where
  "ref_preamps h =
     (if last_preamp 0 h = None \<and> last_preamp 1 h = None then []
      else map (\<lambda>channel. case last_preamp channel h of None \<Rightarrow> no_preamp | Some e \<Rightarrow> e) [0, 1])"

fun rate_ids :: "datum list \<Rightarrow> u16 list" where
  "rate_ids [] = []"
| "rate_ids (D (Ev_CfgMsg m) # h) = (if cm_msgID m \<in> set (rate_ids h) then rate_ids h else rate_ids h @ [cm_msgID m])"
| "rate_ids (_ # h) = rate_ids h"

fun last_rate :: "datum list \<Rightarrow> u16 \<Rightarrow> CfgMsg" where
  "last_rate (D (Ev_CfgMsg m) # h) msgID = (if cm_msgID m = msgID then m else last_rate h msgID)"
| "last_rate (_ # h) msgID = last_rate h msgID"
| "last_rate [] msgID = \<lparr>cm_msgID = msgID, cm_rate = 0\<rparr>"

text \<open>The requests that are answered with a stored value, and its type.\<close>

definition ANSWERED :: "(command \<times> string) list" where
  "ANSWERED = [(PcaSwitchRequestCmd, ''PcaSwitchEvent''), (BiasSwitchRequestCmd, ''BiasSwitchEvent''),
     (PolaritySwitchRequestCmd, ''PolaritySwitchEvent''), (GainSwitchRequestCmd, ''GainSwitchEvent''),
     (GpioRateRequestCmd 0, ''GpioRateEvent''), (TemperatureRequestCmd, ''TemperatureEvent''), (CalibRequestCmd, ''CalibEvent''),
     (EventTriggerRequestCmd, ''EventTriggerEvent''), (DacSettingRequestCmd, ''MCP4728Event'')]"

definition holds :: "datum list \<Rightarrow> data_store \<Rightarrow> bool" where
  "holds h s \<longleftrightarrow>
     (\<forall>type \<in> set STORED_TYPES. ds_data s type = latest type h) \<and>
     ds_data s ''std::array<PreampSwitchEvent, 2>'' =
       (case ref_preamps h of [a, b] \<Rightarrow> Some (D_Preamps a b) | _ \<Rightarrow> None) \<and>
     ds_data s ''std::unordered_map<std::uint16_t, CfgMsg>'' =
       (if rate_ids h = [] then None else Some (D_MsgRates (map (\<lambda>i. (i, last_rate h i)) (rate_ids h))))"

lemma update_map_same:
  "i \<in> set is \<Longrightarrow> distinct is \<Longrightarrow> AList.update i v (map (\<lambda>i. (i, f i)) is) = map (\<lambda>j. (j, if i = j then v else f j)) is"
  by (induction "is") (auto intro!: map_cong)

lemma update_map_new:
  "i \<notin> set is \<Longrightarrow> AList.update i v (map (\<lambda>i. (i, f i)) is) = map (\<lambda>j. (j, if i = j then v else f j)) (is @ [i])"
  by (induction "is") auto

lemma map_of_map_pair: "map_of (map (\<lambda>i. (i, f i)) is) i = (if i \<in> set is then Some (f i) else None)"
  by (induction "is") auto

lemma distinct_rate_ids: "distinct (rate_ids h)"
  by (induction h rule: rate_ids.induct) auto

section \<open>What is kept\<close>

text \<open>A step that only fills histograms, and only of the given names.\<close>

definition touches :: "string set \<Rightarrow> data_store \<Rightarrow> data_store \<Rightarrow> bool" where
  "touches N s s' \<longleftrightarrow> ds_data s' = ds_data s \<and> ds_geo s' = ds_geo s \<and> (\<forall>name. name \<notin> N \<longrightarrow> histo name s' = histo name s)"

definition fills :: "string set \<Rightarrow> data_store \<Rightarrow> data_store option \<Rightarrow> bool" where
  "fills N s r \<longleftrightarrow> (\<forall>s'. r = Some s' \<longrightarrow> touches N s s')"

lemma fills_D: "fills N s r \<Longrightarrow> r = Some s' \<Longrightarrow> touches N s s'"
  by (simp add: fills_def)

lemma fills_Some: "fills N s (Some s)"
  by (simp add: fills_def touches_def)

lemma fills_None: "fills N s None"
  by (simp add: fills_def)

lemma fills_histo: "name \<in> N \<Longrightarrow> fills N s (fill_histo name x m s)"
  by (auto simp: fills_def touches_def fill_histo_def set_histo_def histo_def update_conv' split: option.splits)

lemma fills_bind: "fills N s m \<Longrightarrow> (\<And>t. fills N t (f t)) \<Longrightarrow> fills N s (Option.bind m f)"
  by (cases m) (simp_all add: fills_def touches_def)

lemma fills_if: "fills N s a \<Longrightarrow> fills N s b \<Longrightarrow> fills N s (if c then a else b)"
  by simp

lemma fills_option: "fills N s a \<Longrightarrow> (\<And>x. fills N s (f x)) \<Longrightarrow> fills N s (case y of None \<Rightarrow> a | Some x \<Rightarrow> f x)"
  by (cases y) simp_all

lemma fills_times:
  "fills N s (Some (s\<lparr>ds_lastTimeMark := tm\<rparr>))" "fills N s (Some (s\<lparr>ds_last_timepulse := t\<rparr>))"
  by (simp_all add: fills_def touches_def histo_def)

lemmas fills_intros = fills_times fills_Some fills_None fills_histo fills_bind fills_if fills_option

definition GEO_HISTOS :: "string set" where
  "GEO_HISTOS = {''geoHeight'', ''geoLongitude'', ''geoLatitude''}"

lemma fill_steps:
  "fills UNIV s (fill_position pos s)"
  "fills (- GEO_HISTOS) s (fill_time_mark tm s)"
  "fills (- GEO_HISTOS) s (fill_bias_current x s)"
  "fills (- GEO_HISTOS) s (fill_interval iv s)"
  "fills (- GEO_HISTOS) s (fill_gpio g s)"
  "fills (- GEO_HISTOS) s (fill_adc a s)"
  "fills (- GEO_HISTOS) s (fill_dop dop s)"
  unfolding fill_position_def fill_time_mark_def fill_bias_current_def fill_interval_def fill_gpio_def fill_adc_def fill_dop_def Let_def
  by (intro fills_intros; simp add: GEO_HISTOS_def)+

lemma fills_on_store_fills: "fills (- GEO_HISTOS) s (fills_on_store d s)"
  by (induction d s rule: fills_on_store.induct) (simp_all add: fill_steps fills_Some)

lemma store_effect:
  assumes "ds_store d s = Some s'"
  shows "ds_data s' = (ds_data s)(type_name d \<mapsto> d)" and "ds_geo s' = ds_geo s" and "name \<in> GEO_HISTOS \<Longrightarrow> histo name s' = histo name s"
proof -
  obtain t where t: "fills_on_store d s = Some t" "s' = t\<lparr>ds_data := (ds_data t)(type_name d \<mapsto> d)\<rparr>"
    using assms by (cases "fills_on_store d s") (auto simp: ds_store_def)
  have "touches (- GEO_HISTOS) s t" using fills_on_store_fills t(1) by (rule fills_D)
  then show "ds_data s' = (ds_data s)(type_name d \<mapsto> d)" "ds_geo s' = ds_geo s" "name \<in> GEO_HISTOS \<Longrightarrow> histo name s' = histo name s"
    using t(2) by (simp_all add: touches_def histo_def)
qed

lemma last_preamp_other: "type_name d \<noteq> ''PreampSwitchEvent'' \<Longrightarrow> last_preamp c (d # h) = last_preamp c h"
  by (cases "(c, d # h)" rule: last_preamp.cases) auto

lemma rates_other:
  "type_name d \<noteq> ''CfgMsg'' \<Longrightarrow> rate_ids (d # h) = rate_ids h"
  "type_name d \<noteq> ''CfgMsg'' \<Longrightarrow> last_rate (d # h) i = last_rate h i"
  subgoal by (cases "d # h" rule: rate_ids.cases) auto
  subgoal by (cases "(d # h, i)" rule: last_rate.cases) auto
  done

lemma ref_preamps_other: "type_name d \<noteq> ''PreampSwitchEvent'' \<Longrightarrow> ref_preamps (d # h) = ref_preamps h"
  by (simp add: ref_preamps_def last_preamp_other)

lemma special_types:
  "''PreampSwitchEvent'' \<notin> set STORED_TYPES" "''CfgMsg'' \<notin> set STORED_TYPES" "''GnssPosStruct'' \<notin> set STORED_TYPES"
  "''std::array<PreampSwitchEvent, 2>'' \<notin> set STORED_TYPES" "''std::unordered_map<std::uint16_t, CfgMsg>'' \<notin> set STORED_TYPES"
  "''MqttStatusEvent'' \<in> set STORED_TYPES" "''EventTriggerEvent'' \<in> set STORED_TYPES" "''MCP4728Event'' \<in> set STORED_TYPES"
  by (simp_all add: STORED_TYPES_def)

lemma holds_stored:
  assumes "holds h s" "type_name d \<in> set STORED_TYPES" "ds_store d s = Some s'"
  shows "holds (d # h) s'"
proof -
  have "type_name d \<noteq> ''PreampSwitchEvent''" "type_name d \<noteq> ''CfgMsg''"
    "type_name d \<noteq> ''std::array<PreampSwitchEvent, 2>''" "type_name d \<noteq> ''std::unordered_map<std::uint16_t, CfgMsg>''"
    using assms(2) special_types by metis+
  then show ?thesis
    using assms(1) store_effect(1) [OF assms(3)]
    by (simp add: holds_def latest_def ref_preamps_other rates_other)
qed

lemma holds_other:
  assumes "holds h s" "ds_data s' = ds_data s" "type_name d \<notin> set STORED_TYPES"
    "type_name d \<noteq> ''PreampSwitchEvent''" "type_name d \<noteq> ''CfgMsg''"
  shows "holds (d # h) s'"
proof -
  have "latest type (d # h) = latest type h" if "type \<in> set STORED_TYPES" for type
    using that assms(3) by (auto simp: latest_def)
  then show ?thesis using assms by (simp add: holds_def ref_preamps_other rates_other)
qed

lemma store_position_data: "store_position now pos s = Some (out, s') \<Longrightarrow> ds_data s' = ds_data s"
proof -
  assume "store_position now pos s = Some (out, s')"
  then obtain h called h' m where *: "fill_from_gps now pos h (ds_geo s) = Some (called, h', m)"
    "(case called of None \<Rightarrow> Some ([], put_geo_histos h' (s\<lparr>ds_geo := m\<rparr>))
      | Some p \<Rightarrow> processGeoPos p (put_geo_histos h' (s\<lparr>ds_geo := m\<rparr>))) = Some (out, s')"
    by (auto simp: store_position_def bind_eq_Some_conv Let_def)
  have put: "ds_data (put_geo_histos h' (s\<lparr>ds_geo := m\<rparr>)) = ds_data s" by (simp add: put_geo_histos_def set_histo_def)
  show ?thesis
  proof (cases called)
    case (Some p)
    then obtain q where "fill_position q (put_geo_histos h' (s\<lparr>ds_geo := m\<rparr>)) = Some s'"
      using *(2) by (auto simp: processGeoPos_def bind_eq_Some_conv)
    then have "touches UNIV (put_geo_histos h' (s\<lparr>ds_geo := m\<rparr>)) s'" by (rule fills_D [OF fill_steps(1)])
    then show ?thesis using put by (simp add: touches_def)
  qed (use * put in simp)
qed

definition preamp_now :: "datum list \<Rightarrow> u8 \<Rightarrow> PreampSwitchEvent" where
  "preamp_now h channel = (case last_preamp channel h of None \<Rightarrow> no_preamp | Some e \<Rightarrow> e)"

lemma get_preamps_holds:
  assumes "holds h s"
  shows "get_preamps s = (if last_preamp 0 h = None \<and> last_preamp 1 h = None then None else Some (preamp_now h 0, preamp_now h 1))"
  using assms by (auto simp: holds_def get_preamps_def lookup_def ref_preamps_def preamp_now_def)

lemma octet_cases: "c = 0 \<or> c = 1 \<or> 1 < c" for c :: u8
  by (auto simp: word_less_nat_alt word_unat_eq_iff)

lemma holds_preamp:
  assumes "holds h s" "store_preamp e s = Some (out, s')"
  shows "holds (D (Ev_PreampSwitch e) # h) s'"
proof -
  let ?d = "D (Ev_PreampSwitch e)"
  have other: "latest type (?d # h) = latest type h" if "type \<in> set STORED_TYPES" for type
    using that special_types(1) by (auto simp: latest_def)
  consider "1 < pre_channel e" | "pre_channel e = 0 \<or> pre_channel e = 1" "\<not> 1 < pre_channel e"
    using octet_cases [of "pre_channel e"] by auto
  then show ?thesis
  proof cases
    case 1
    then have "s' = s" "pre_channel e \<noteq> 0" "pre_channel e \<noteq> 1" using assms(2) by (auto simp: store_preamp_def)
    then show ?thesis using assms(1) other by (simp add: holds_def ref_preamps_def)
  next
    case 2
    have "ds_store (set_preamp e (preamp_now h 0, preamp_now h 1)) s = Some s'"
      using assms(2) 2(2) get_preamps_holds [OF assms(1)]
      by (auto simp: store_preamp_def preamp_now_def bind_eq_Some_conv split: if_splits)
    note data = store_effect(1) [OF this]
    have set: "set_preamp e (preamp_now h 0, preamp_now h 1) = D_Preamps (preamp_now (?d # h) 0) (preamp_now (?d # h) 1)"
      using 2(1) by (auto simp: set_preamp_def preamp_now_def)
    have "ref_preamps (?d # h) = [preamp_now (?d # h) 0, preamp_now (?d # h) 1]"
      using 2(1) by (auto simp: ref_preamps_def preamp_now_def)
    then show ?thesis
      using assms(1) data special_types other by (auto simp: holds_def set rates_other)
  qed
qed

lemma holds_rate:
  assumes "holds h s" "store_rate m s = Some (out, s')"
  shows "holds (D (Ev_CfgMsg m) # h) s'"
proof -
  let ?d = "D (Ev_CfgMsg m)" and ?i = "cm_msgID m"
  let ?table = "\<lambda>h. map (\<lambda>i. (i, last_rate h i)) (rate_ids h)"
  have other: "latest type (?d # h) = latest type h" if "type \<in> set STORED_TYPES" for type
    using that special_types(2) by (auto simp: latest_def)
  have rates: "get_rates s = (if rate_ids h = [] then None else Some (?table h))"
    using assms(1) by (auto simp: holds_def get_rates_def lookup_def)
  have new: "AList.update ?i m (?table h) = ?table (?d # h)"
    using update_map_same [of ?i "rate_ids h" m "last_rate h"] update_map_new [of ?i "rate_ids h" m "last_rate h"] distinct_rate_ids
    by (cases "?i \<in> set (rate_ids h)") simp_all
  have "ds_store (D_MsgRates (AList.update ?i m (?table h))) s = Some s'"
    using assms(2) rates by (auto simp: store_rate_def bind_eq_Some_conv Let_def split: if_splits)
  note data = store_effect(1) [OF this, unfolded new]
  have "rate_ids (?d # h) \<noteq> []" by auto
  then show ?thesis
    using assms(1) data special_types other by (auto simp: holds_def ref_preamps_other simp del: rate_ids.simps last_rate.simps)
qed

lemma holds_data: "holds h s \<Longrightarrow> ds_data s' = ds_data s \<Longrightarrow> holds h s'"
  by (simp add: holds_def)

lemma handle_special_plain:
  assumes "type_name d \<notin> {''GnssPosStruct'', ''PreampSwitchEvent'', ''CfgMsg''}"
  shows "handle_special now d s = Some ([], s)"
  using assms by (cases "(now, d, s)" rule: handle_special.cases) auto

lemma typed_events:
  "type_name d = ''GnssPosStruct'' \<Longrightarrow> \<exists>pos. d = D (Ev_GnssPos pos)"
  "type_name d = ''PreampSwitchEvent'' \<Longrightarrow> \<exists>e. d = D (Ev_PreampSwitch e)"
  "type_name d = ''CfgMsg'' \<Longrightarrow> \<exists>m. d = D (Ev_CfgMsg m)"
  "type_name d = ''EventTriggerEvent'' \<Longrightarrow> \<exists>x. d = D (Ev_EventTrigger x)"
  "type_name d = ''MCP4728Event'' \<Longrightarrow> \<exists>e. d = D (Ev_MCP4728 e)"
  by (auto elim!: type_name.elims event_type.elims event_type.elims [OF sym])

lemma holds_handle_store:
  assumes "holds h s" "handle_store now d s = Some (out, s')"
  shows "holds (d # h) s'"
proof (cases "type_name d \<in> set STORED_TYPES")
  case True
  then show ?thesis using assms holds_stored [OF assms(1) True] by (auto simp: handle_store_def bind_eq_Some_conv)
next
  case False
  then have special: "handle_special now d s = Some (out, s')" using assms(2) by (simp add: handle_store_def)
  consider "type_name d = ''GnssPosStruct''" | "type_name d = ''PreampSwitchEvent''" | "type_name d = ''CfgMsg''"
    | "type_name d \<notin> {''GnssPosStruct'', ''PreampSwitchEvent'', ''CfgMsg''}" by auto
  then show ?thesis
  proof cases
    case 1
    then obtain pos where "d = D (Ev_GnssPos pos)" using typed_events(1) by blast
    then show ?thesis using holds_other [OF assms(1) store_position_data] False special by simp
  next
    case 2
    then obtain e where "d = D (Ev_PreampSwitch e)" using typed_events(2) by blast
    then show ?thesis using holds_preamp [OF assms(1)] special by simp
  next
    case 3
    then obtain m where "d = D (Ev_CfgMsg m)" using typed_events(3) by blast
    then show ?thesis using holds_rate [OF assms(1)] special by simp
  next
    case 4
    then show ?thesis using holds_other [OF assms(1) _ False] special handle_special_plain [OF 4] by simp
  qed
qed

lemma event_published_data:
  assumes "handle_event_published now d s = Some (out, s')"
  shows "ds_data s' = ds_data s \<and> stored_by (Op_Event now d) = [] \<or>
    (\<exists>e. d = D (Ev_MqttStatus e) \<and> ds_store d s = Some s' \<and> stored_by (Op_Event now d) = [d])"
  using assms
  by (cases "(now, d, s)" rule: handle_event_published.cases) (auto dest: fill_steps(3-6) [THEN fills_D] simp: touches_def)

lemma request_data: "ds_data (snd (handle_request cmd s)) = ds_data s"
  by (cases "(cmd, s)" rule: handle_request.cases)
    (auto simp: clearHisto_def set_histo_def all_histos_def handle_position_mode_def Let_def split: option.split)

lemma holds_step: "holds h s \<Longrightarrow> ds_step op s = Some (out, s') \<Longrightarrow> holds (stored_by op @ h) s'"
proof (cases op)
  case (Op_Store now d)
  assume "holds h s" "ds_step op s = Some (out, s')"
  then show ?thesis using holds_handle_store Op_Store by simp
next
  case (Op_Event now d)
  assume h: "holds h s" and step: "ds_step op s = Some (out, s')"
  then show ?thesis
    using event_published_data [of now d s out s'] holds_data [OF h] holds_stored [OF h] special_types(6) Op_Event by auto
next
  case (Op_Request cmd)
  assume h: "holds h s" and step: "ds_step op s = Some (out, s')"
  then have "s' = snd (handle_request cmd s)" using Op_Request by simp
  then show ?thesis using holds_data [OF h request_data] Op_Request by simp
qed

lemma holds_run:
  "holds h s \<Longrightarrow> ds_run ops s = Some (out, s') \<Longrightarrow> holds (rev (concat (map stored_by ops)) @ h) s'"
proof (induction ops arbitrary: h s out)
  case (Cons op ops)
  obtain o1 s1 o2 where step: "ds_step op s = Some (o1, s1)" "ds_run ops s1 = Some (o2, s')"
    using Cons.prems(2) by (auto split: option.splits)
  have "stored_by op = [] \<or> (\<exists>d. stored_by op = [d])" by (cases op rule: stored_by.cases) auto
  then have "rev (stored_by op) = stored_by op" by auto
  then show ?case using Cons.IH [OF holds_step [OF Cons.prems(1) step(1)] step(2)] by simp
qed simp

text \<open>Only what fills histograms may not return.\<close>

definition may_fill :: "ds_op \<Rightarrow> bool" where
  "may_fill op \<longleftrightarrow> (case op of
       Op_Store _ d \<Rightarrow> type_name d \<in> {''GnssPosStruct'', ''UbxDopStruct'', ''UbxTimeMarkStruct''}
     | Op_Event _ d \<Rightarrow> type_name d \<in> {''ADS1115Event'', ''BiasCurrentEvent'', ''GpioEvent'', ''IntervalEvent''}
     | Op_Request _ \<Rightarrow> False)"

lemma store_returns: "type_name d \<notin> {''UbxDopStruct'', ''UbxTimeMarkStruct''} \<Longrightarrow> \<exists>s'. ds_store d s = Some s'"
  by (cases "(d, s)" rule: fills_on_store.cases) (auto simp: ds_store_def)

lemma special_returns: "store_preamp e s \<noteq> None" "store_rate m s \<noteq> None"
  by (auto simp: store_preamp_def store_rate_def ds_store_def set_preamp_def Let_def split: option.split prod.split)

lemma step_returns: "\<not> may_fill op \<Longrightarrow> ds_step op s \<noteq> None"
proof (cases op)
  case (Op_Store now d)
  assume "\<not> may_fill op"
  then have ns: "type_name d \<notin> {''UbxDopStruct'', ''UbxTimeMarkStruct''}" "type_name d \<noteq> ''GnssPosStruct''"
    by (simp_all add: Op_Store may_fill_def)
  have "handle_special now d s \<noteq> None"
    using ns special_returns by (cases "(now, d, s)" rule: handle_special.cases) auto
  then show ?thesis using store_returns [OF ns(1), of s] by (auto simp: Op_Store handle_store_def)
next
  case (Op_Event now d)
  assume "\<not> may_fill op"
  then show ?thesis using store_returns [of d s]
    by (cases "(now, d, s)" rule: handle_event_published.cases) (auto simp: Op_Event may_fill_def)
qed simp

lemma run_returns: "ds_run ops s = None \<Longrightarrow> list_ex may_fill ops"
proof (induction ops arbitrary: s)
  case (Cons op ops)
  show ?case
  proof (cases "ds_step op s")
    case None
    then show ?thesis using step_returns [of op s] by auto
  next
    case (Some r)
    then have "ds_run ops (snd r) = None" using Cons.prems by (cases r) (auto split: option.splits)
    then show ?thesis using Cons.IH by simp
  qed
qed simp

lemma find_type: "find (\<lambda>d. type_name d = type) h = Some d \<Longrightarrow> type_name d = type"
  by (auto simp: find_Some_iff)

lemma holds_start: "holds [] (setupDatastore (data_store_init now))"
  by (simp add: holds_def setupDatastore_def setupHistos_def data_store_init_def latest_def ref_preamps_def)

lemma get_dac_holds:
  assumes "holds h s"
  shows "get_dac s = (case latest ''MCP4728Event'' h of Some (D (Ev_MCP4728 e)) \<Rightarrow> Some e | _ \<Rightarrow> None)"
proof (cases "latest ''MCP4728Event'' h")
  case None
  then show ?thesis using assms special_types(8) by (simp add: holds_def get_dac_def lookup_def)
next
  case (Some d)
  then obtain e where "d = D (Ev_MCP4728 e)" using find_type typed_events(5) unfolding latest_def by blast
  then show ?thesis using assms special_types(8) Some by (simp add: holds_def get_dac_def lookup_def)
qed

text \<open>
  C18: The store answers from what was stored last. After any events, commands and requests, every request with a
  stored answer is answered with the newest value of its type, or not at all where there is none; the preamplifiers with the
  newest state of each of the two channels, the message rates with the newest rate of each message, the thresholds with those of the newest
  state of the DAC; and a new client is sent the newest value of each polled type. Only a handler that fills histograms may
  not return.
\<close>

theorem requests_answered:
  "case ds_run ops (setupDatastore (data_store_init now)) of None \<Rightarrow> list_ex may_fill ops
   | Some (_, s) \<Rightarrow>
       (let h = stored_in ops; newest = (\<lambda>type. case latest type h of None \<Rightarrow> [] | Some d \<Rightarrow> [Pub d])
        in map (\<lambda>(cmd, _). fst (handle_request cmd s)) ANSWERED = map (\<lambda>(_, type). newest type) ANSWERED
         \<and> fst (handle_request PreampSwitchRequestCmd s) = map (\<lambda>e. Pub (D (Ev_PreampSwitch e))) (ref_preamps h)
         \<and> fst (handle_request UbxMsgRateRequestCmd s) = map (\<lambda>i. Pub (D (Ev_CfgMsg (last_rate h i)))) (rate_ids h)
         \<and> fst (handle_request ThresholdSettingRequestCmd s) = (case latest ''MCP4728Event'' h of
             Some (D (Ev_MCP4728 e)) \<Rightarrow> fst (dac_thresholds e) | _ \<Rightarrow> [])
         \<and> take (length (concat (map newest POLLED_TYPES))) (fst (snd (pollDatastore s))) = concat (map newest POLLED_TYPES))"
proof (cases "ds_run ops (setupDatastore (data_store_init now))")
  case None
  then show ?thesis using run_returns by simp
next
  case (Some r)
  obtain out s where r: "r = (out, s)" by fastforce
  let ?h = "stored_in ops"
  have h: "holds ?h s" using holds_run [OF holds_start] Some r by (auto simp: stored_in_def)
  have typed: "answer type s = (case latest type ?h of None \<Rightarrow> [] | Some d \<Rightarrow> [Pub d])" if "type \<in> set STORED_TYPES" for type
    using h that by (simp add: answer_def lookup_def holds_def)
  have "map (\<lambda>(cmd, _). fst (handle_request cmd s)) ANSWERED = map (\<lambda>(_, type). answer type s) ANSWERED"
    by (simp add: ANSWERED_def)
  also have "\<dots> = map (\<lambda>(_, type). case latest type ?h of None \<Rightarrow> [] | Some d \<Rightarrow> [Pub d]) ANSWERED"
    by (rule map_cong) (auto intro!: typed simp: ANSWERED_def STORED_TYPES_def)
  finally have table: "map (\<lambda>(cmd, _). fst (handle_request cmd s)) ANSWERED = \<dots>" .
  have polled: "map (\<lambda>type. answer type s) POLLED_TYPES
      = map (\<lambda>type. case latest type ?h of None \<Rightarrow> [] | Some d \<Rightarrow> [Pub d]) POLLED_TYPES"
    by (rule map_cong) (auto intro!: typed simp: POLLED_TYPES_def STORED_TYPES_def)
  have pre: "fst (handle_request PreampSwitchRequestCmd s) = map (\<lambda>e. Pub (D (Ev_PreampSwitch e))) (ref_preamps ?h)"
    by (auto simp: preamp_answer_def get_preamps_holds [OF h] ref_preamps_def preamp_now_def)
  have rates: "fst (handle_request UbxMsgRateRequestCmd s) = map (\<lambda>i. Pub (D (Ev_CfgMsg (last_rate ?h i)))) (rate_ids ?h)"
    using h by (simp add: rates_answer_def get_rates_def lookup_def holds_def)
  have dac: "fst (handle_request ThresholdSettingRequestCmd s) = (case latest ''MCP4728Event'' ?h of
      Some (D (Ev_MCP4728 e)) \<Rightarrow> fst (dac_thresholds e) | _ \<Rightarrow> [])"
    by (simp add: get_dac_holds [OF h] split: option.split datum.split event.split)
  let ?polled = "concat (map (\<lambda>type. case latest type ?h of None \<Rightarrow> [] | Some d \<Rightarrow> [Pub d]) POLLED_TYPES)"
  have "fst (snd (pollDatastore s)) = concat (map (\<lambda>type. answer type s) POLLED_TYPES) @ fst (all_histos s)"
    by (simp add: pollDatastore_def split: prod.split)
  then have poll: "take (length ?polled) (fst (snd (pollDatastore s))) = ?polled"
    unfolding polled by simp
  show ?thesis
    unfolding Some r option.case prod.case Let_def by (intro conjI table pre rates dac poll)
qed

section \<open>Filters over the histograms\<close>

definition blank :: "Histogram \<Rightarrow> bool" where
  "blank h \<longleftrightarrow> h_map h = [] \<and> h_underflow h = 0 \<and> h_overflow h = 0"

definition is_position :: "ds_output \<Rightarrow> bool" where
  "is_position out \<longleftrightarrow> (case out of Pub d \<Rightarrow> type_name d = ''GnssPosStruct'' | _ \<Rightarrow> False)"

definition sets_mode :: "ds_op \<Rightarrow> bool" where
  "sets_mode op \<longleftrightarrow> (case op of Op_Request cmd \<Rightarrow> (case cmd of PositionModeCmd _ \<Rightarrow> True | _ \<Rightarrow> False) | _ \<Rightarrow> False)"

definition from_histos :: "PositionModeConfig \<Rightarrow> bool" where
  "from_histos c \<longleftrightarrow> pmc_filter_config c \<in> {Filter_HistoMean, Filter_HistoMedian, Filter_HistoMpv}"

definition starving :: "PositionModeConfig \<Rightarrow> data_store \<Rightarrow> bool" where
  "starving c s \<longleftrightarrow> gm_mode_config (ds_geo s) = c \<and> (\<forall>name \<in> GEO_HISTOS. \<exists>h. histo name s = Some h \<and> blank h)"

lemma blank_entries: "blank h \<Longrightarrow> getEntries h = 0"
  by (simp add: blank_def getEntries_def double_def rnd_def)

lemma blank_rescale: "blank h \<Longrightarrow> rescale_auto h = h"
  by (simp add: rescale_auto_def blank_entries)

lemma blank_clear: "blank (hist_clear h)"
  by (simp add: blank_def hist_clear_def)

lemma new_position_blank:
  assumes "blank (gh_lon h)" "blank (gh_lat h)" "blank (gh_height h)" "from_histos (gm_mode_config m)"
  shows "new_position now pos h m = (None, h, m)"
proof -
  have few: "few_entries n h" if "0 < n" for n
    using assms(3) that by (simp add: few_entries_def blank_entries)
  have "get_pos_from_histos h m = no_position" by (simp add: get_pos_from_histos_def few MIN_HISTO_ENTRIES_def)
  moreover have "clear_full g = g" if "blank g" for g
    using that by (simp add: clear_full_def blank_entries lock_in_max_histogram_entries_def)
  ultimately show ?thesis
    using assms by (auto simp: new_position_def filter_position_def from_histos_def filter_defs Let_def geo_valid_def no_position_def)
qed

lemma fill_from_gps_blank:
  assumes "blank (gh_lon h)" "blank (gh_lat h)" "blank (gh_height h)" "from_histos (gm_mode_config m)"
    and "fill_from_gps now pos h m = Some (called, h', m')"
  shows "called = None \<and> h' = h \<and> gm_mode_config m' = gm_mode_config m"
proof -
  have "new_position now p h m1 = (None, h, m1)" if "gm_mode_config m1 = gm_mode_config m" for p m1
    using new_position_blank [OF assms(1-3), of m1] assms(4) that by simp
  then show ?thesis
    using assms(5) by (auto simp: fill_from_gps_def Let_def split: if_splits option.splits)
qed

lemma put_same_histos: "geo_histos_of s = Some h \<Longrightarrow> histo name (put_geo_histos h (s\<lparr>ds_geo := m\<rparr>)) = histo name s"
  by (auto simp: geo_histos_of_def put_geo_histos_def set_histo_def histo_def update_conv' split: option.splits)

lemma starving_touch: "starving c s \<Longrightarrow> touches (- GEO_HISTOS) s s' \<Longrightarrow> starving c s'"
  by (simp add: starving_def touches_def)

lemma starving_store: "starving c s \<Longrightarrow> ds_store d s = Some s' \<Longrightarrow> starving c s'"
  using store_effect(2,3) [of d s s'] by (simp add: starving_def)

lemma starving_position:
  assumes "starving c s" "from_histos c" "store_position now pos s = Some (out, s')"
  shows "out = [] \<and> starving c s'"
proof -
  obtain h called h' m where *: "geo_histos_of s = Some h" "fill_from_gps now pos h (ds_geo s) = Some (called, h', m)"
    "(case called of None \<Rightarrow> Some ([], put_geo_histos h' (s\<lparr>ds_geo := m\<rparr>))
      | Some p \<Rightarrow> processGeoPos p (put_geo_histos h' (s\<lparr>ds_geo := m\<rparr>))) = Some (out, s')"
    using assms(3) by (auto simp: store_position_def bind_eq_Some_conv Let_def)
  have b: "blank (gh_lon h)" "blank (gh_lat h)" "blank (gh_height h)"
    using assms(1) *(1) by (auto simp: starving_def GEO_HISTOS_def geo_histos_of_def split: option.splits)
  have c: "gm_mode_config (ds_geo s) = c" using assms(1) by (simp add: starving_def)
  then have "called = None \<and> h' = h \<and> gm_mode_config m = c"
    using fill_from_gps_blank [OF b _ *(2)] assms(2) by simp
  moreover from this have "s' = put_geo_histos h (s\<lparr>ds_geo := m\<rparr>)" "out = []" using *(3) by simp_all
  moreover have "ds_geo (put_geo_histos h (s\<lparr>ds_geo := m\<rparr>)) = m" by (simp add: put_geo_histos_def set_histo_def)
  ultimately show ?thesis using assms(1) put_same_histos [OF *(1)] by (simp add: starving_def)
qed

lemma stored_not_position: "type_name d \<in> set STORED_TYPES \<Longrightarrow> \<not> is_position (Pub d)"
  using special_types(3) by (auto simp: is_position_def)

lemma starving_handle_store:
  assumes "starving c s" "from_histos c" "handle_store now d s = Some (out, s')"
  shows "\<not> list_ex is_position out \<and> starving c s'"
proof (cases "type_name d \<in> set STORED_TYPES")
  case True
  then show ?thesis
    using assms starving_store stored_not_position by (auto simp: handle_store_def bind_eq_Some_conv)
next
  case False
  then have "handle_special now d s = Some (out, s')" using assms(3) by (simp add: handle_store_def)
  then show ?thesis
    using assms(1) starving_store [OF assms(1)]
    by (cases "(now, d, s)" rule: handle_special.cases)
      (auto dest!: starving_position [OF assms(1,2)] simp: store_preamp_def store_rate_def bind_eq_Some_conv is_position_def Let_def split: if_splits option.splits)
qed

lemma dac_events_not_positions:
  "list_all (\<lambda>(_, ev). \<forall>v. event_type (ev v) \<noteq> ''GnssPosStruct'') evs \<Longrightarrow> \<not> list_ex is_position (fst (dac_events vs evs))"
  by (induction vs evs rule: dac_events.induct) (auto simp: is_position_def split: option.split prod.split)

lemma dac_not_positions:
  "\<not> list_ex is_position (fst (handle_dac_event e))" "\<not> list_ex is_position (fst (dac_thresholds e))"
  "\<not> list_ex is_position (fst (dac_events vs [(2, Ev_BiasVoltage)]))"
  unfolding handle_dac_event_def dac_thresholds_def by (rule dac_events_not_positions; simp add: threshold_event_def)+

lemma starving_published:
  assumes "starving c s" "handle_event_published now d s = Some (out, s')"
  shows "\<not> list_ex is_position out \<and> starving c s'"
proof -
  have geo: "starving c (s\<lparr>ds_geo := m\<rparr>)" if "gm_mode_config m = gm_mode_config (ds_geo s)" for m
    using assms(1) that by (simp add: starving_def histo_def)
  have ublox: "starving c (s\<lparr>ds_ublox := u\<rparr>)" for u using assms(1) by (simp add: starving_def histo_def)
  show ?thesis
    using assms(2) dac_not_positions(1) assms(1) ublox geo starving_store [OF assms(1)]
    by (cases "(now, d, s)" rule: handle_event_published.cases)
      (auto dest!: fill_steps(3-6) [THEN fills_D] intro: starving_touch [OF assms(1)] simp: set_time_accuracy_def set_fix_status_def)
qed

lemma answers_not_positions:
  assumes "holds h s"
  shows "type \<in> set STORED_TYPES \<Longrightarrow> \<not> list_ex is_position (answer type s)"
    and "\<not> list_ex is_position (preamp_answer s)" and "\<not> list_ex is_position (rates_answer s)"
proof -
  show "\<not> list_ex is_position (answer type s)" if "type \<in> set STORED_TYPES"
    using that assms special_types(3) by (auto simp: answer_def lookup_def holds_def latest_def is_position_def dest: find_type split: option.split)
  show "\<not> list_ex is_position (preamp_answer s)" by (auto simp: preamp_answer_def is_position_def split: option.split)
  show "\<not> list_ex is_position (rates_answer s)"
    by (auto simp: rates_answer_def is_position_def list_ex_iff split: option.split)
qed

lemma starving_request:
  assumes "starving c s" "holds h s" "\<not> sets_mode (Op_Request cmd)"
  shows "\<not> list_ex is_position (fst (handle_request cmd s)) \<and> starving c (snd (handle_request cmd s))"
proof -
  have types: "set [''PcaSwitchEvent'', ''BiasSwitchEvent'', ''PolaritySwitchEvent'', ''GainSwitchEvent'', ''GpioRateEvent'',
      ''TemperatureEvent'', ''CalibEvent'', ''EventTriggerEvent'', ''MCP4728Event''] \<subseteq> set STORED_TYPES"
    by (simp add: STORED_TYPES_def)
  note no = answers_not_positions [OF assms(2)]
  have clear: "clearHisto name s = (g, s') \<Longrightarrow> starving c s'" for name g s'
    using assms(1) blank_clear by (auto simp: starving_def clearHisto_def set_histo_def histo_def update_conv' split: option.splits)
  have all: "\<not> list_ex is_position (fst (all_histos s)) \<and> starving c (snd (all_histos s))"
    using assms(1) by (auto simp: starving_def all_histos_def histo_def list_ex_iff is_position_def map_of_map blank_rescale Let_def)
  show ?thesis
    using assms(1,3) types no dac_not_positions(2,3) all
    by (cases "(cmd, s)" rule: handle_request.cases) (auto dest: clear simp: is_position_def sets_mode_def split: option.split prod.split)
qed

lemma starving_run:
  assumes "from_histos c"
  shows "holds h s \<Longrightarrow> starving c s \<Longrightarrow> \<not> list_ex sets_mode ops \<Longrightarrow> ds_run ops s = Some (out, s') \<Longrightarrow>
    \<not> list_ex is_position out \<and> starving c s'"
proof (induction ops arbitrary: h s out)
  case (Cons op ops)
  obtain o1 s1 o2 where step: "ds_step op s = Some (o1, s1)" "ds_run ops s1 = Some (o2, s')" "out = o1 @ o2"
    using Cons.prems(4) by (auto split: option.splits)
  have "\<not> list_ex is_position o1 \<and> starving c s1"
    using step(1) Cons.prems(1-3) starving_handle_store [OF Cons.prems(2) assms] starving_published [OF Cons.prems(2)]
      starving_request [OF Cons.prems(2,1)] by (cases op) (auto simp: prod_eq_iff)
  then show ?case using Cons.IH [OF holds_step [OF Cons.prems(1) step(1)] _ _ step(2)] Cons.prems(3) step(3) by simp
qed simp



end
