(* ===== verification/Reference_Run.thy ===== *)
theory Reference_Run
  imports Prelude
begin

text \<open>
  Machines that take one operation at a time, and the interface between such a machine and a reference that says from the
  history alone what an operation gives: a relation between histories and states that every admissible operation keeps and
  under which machine and reference agree. A run then agrees with the reference at each of its operations.
\<close>

fun run_ops :: "('op \<Rightarrow> 's \<Rightarrow> 'o \<times> 's) \<Rightarrow> 'op list \<Rightarrow> 's \<Rightarrow> 'o list \<times> 's" where
  "run_ops step [] s = ([], s)"
| "run_ops step (op # ops) s = (let (out, s) = step op s; (rest, s) = run_ops step ops s in (out # rest, s))"

locale reference_run =
  fixes step :: "'op \<Rightarrow> 's \<Rightarrow> 'o \<times> 's"
    and admissible :: "'op \<Rightarrow> bool"
    and tracks :: "'op list \<Rightarrow> 's \<Rightarrow> bool"
    and view :: "'o \<Rightarrow> 'v"
    and reference :: "'op list \<Rightarrow> 'op \<Rightarrow> 'v"
  assumes agrees: "tracks past s \<Longrightarrow> admissible op \<Longrightarrow> view (fst (step op s)) = reference past op"
    and follows: "tracks past s \<Longrightarrow> admissible op \<Longrightarrow> tracks (past @ [op]) (snd (step op s))"
begin

lemma run_state: "tracks past s \<Longrightarrow> list_all admissible ops \<Longrightarrow> tracks (past @ ops) (snd (run_ops step ops s))"
proof (induction ops arbitrary: past s)
  case (Cons op ops)
  then have "tracks ((past @ [op]) @ ops) (snd (run_ops step ops (snd (step op s))))" by (intro Cons.IH follows) simp_all
  then show ?case by (simp add: Let_def case_prod_beta)
qed simp

lemma run_from:
  "tracks past s \<Longrightarrow> list_all admissible ops \<Longrightarrow>
    map view (fst (run_ops step ops s)) = map (\<lambda>k. reference (past @ take k ops) (ops ! k)) [0..<length ops]"
proof (induction ops arbitrary: past s)
  case (Cons op ops)
  then have "map view (fst (run_ops step ops (snd (step op s)))) = map (\<lambda>k. reference ((past @ [op]) @ take k ops) (ops ! k)) [0..<length ops]"
    by (intro Cons.IH follows) simp_all
  then show ?case using agrees [OF Cons.prems(1)] Cons.prems(2) by (simp add: map_upt_Suc Let_def case_prod_beta del: upt_Suc)
qed simp

lemma run_agrees:
  "tracks [] s \<Longrightarrow> list_all admissible ops \<Longrightarrow>
    map view (fst (run_ops step ops s)) = map (\<lambda>k. reference (take k ops) (ops ! k)) [0..<length ops]"
  using run_from [of "[]"] by simp

end

end
