(* ===== verification/Log_Engine.thy ===== *)
theory Log_Engine
  imports Text_Io Reference_Run "HOL-Library.AList" "HOL-Library.Multiset"
begin

text \<open>
  The log, \<open>daemon/src/components/logengine.cpp\<close>: parameters are collected by name and written at each update, or
  at once, as their type says. Every line is published twice, for the MQTT sink and for the file sink; here it is one
  line. The text of the time of an update is an argument. \<open>std::unordered_map\<close> is a list in the order in which names were
  put, so a statement on all lines of an update must not depend on their order. Numbers are finite doubles in decimal.
\<close>

section \<open>Numbers in texts\<close>

text \<open>\<open>std::format\<close> with \<open>{:.kf}\<close>, as \<open>std::to_string\<close> is with six decimals.\<close>

definition fixed_text :: "nat \<Rightarrow> rat \<Rightarrow> byte list" where
  "fixed_text k x =
     (let n = nat (round_half_even (\<bar>x\<bar> * 10 ^ k)); fraction = to_string (n mod 10 ^ k)
      in (if x < 0 then [0x2d] else []) @ to_string (n div 10 ^ k) @ 0x2e # replicate (k - length fraction) 0x30 @ fraction)"

text \<open>\<open>std::stod\<close>: None where it throws. An exponent without digits is left, unlike with \<open>>>\<close>.\<close>

definition stod :: "byte list \<Rightarrow> rat option" where
  "stod text =
     (let (neg, t) = split_sign (dropWhile isspace text);
          ip = takeWhile isdigit t; t = dropWhile isdigit t;
          (fp, t) = (case t of [] \<Rightarrow> ([], []) | c # cs \<Rightarrow> if c = 0x2e then (takeWhile isdigit cs, dropWhile isdigit cs) else ([], t));
          k = (case t of [] \<Rightarrow> 0
             | c # cs \<Rightarrow> if c = 0x65 \<or> c = 0x45
                 then (let (eneg, es) = split_sign cs; e = int (digits_value (takeWhile isdigit es)) in if eneg then - e else e)
                 else 0);
          x = double (of_nat (digits_value (ip @ fp)) * pow10 (k - int (length fp)))
      in if ip @ fp = [] then None else Some (if neg then - x else x))"

definition first_token :: "byte list \<Rightarrow> byte list" where
  "first_token s = takeWhile (\<lambda>c. c \<noteq> 0x20) s"

definition last_token :: "byte list \<Rightarrow> byte list" where
  "last_token s = rev (takeWhile (\<lambda>c. c \<noteq> 0x20) (rev s))"

section \<open>The engine\<close>

datatype log_type = LOG_NEVER | LOG_ONCE | LOG_EVERY | LOG_LATEST | LOG_AVERAGE | LOG_ON_CHANGE

record LogParameter =
  lp_name :: "byte list"
  lp_value :: "byte list"
  lp_updated :: bool
  lp_type :: log_type

record log_engine =
  le_data :: "(byte list \<times> LogParameter list) list"
  le_once :: bool

definition log_init :: log_engine where
  "log_init = \<lparr>le_data = [], le_once = True\<rparr>"

definition log_line :: "byte list \<Rightarrow> byte list \<Rightarrow> byte list \<Rightarrow> byte list" where
  "log_line ts name value = ts @ 0x20 # name @ 0x20 # value"

definition entries :: "byte list \<Rightarrow> log_engine \<Rightarrow> LogParameter list" where
  "entries name s = (case map_of (le_data s) name of None \<Rightarrow> [] | Some ps \<Rightarrow> ps)"

definition put_entries :: "byte list \<Rightarrow> LogParameter list \<Rightarrow> log_engine \<Rightarrow> log_engine" where
  "put_entries name ps s = s\<lparr>le_data := AList.update name ps (le_data s)\<rparr>"

definition onLogParameterReceived :: "byte list \<Rightarrow> LogParameter \<Rightarrow> log_engine \<Rightarrow> byte list list \<times> log_engine" where
  "onLogParameterReceived ts p s =
     (let name = lp_name p
      in if lp_type p = LOG_NEVER then ([], s)
         else if lp_type p = LOG_EVERY
         then ([log_line ts name (lp_value p)],
               (case map_of (le_data s) name of None \<Rightarrow> s
                | Some ps \<Rightarrow>
                    (let t = lp_type (hd ps)
                     in put_entries name ((if t \<noteq> LOG_AVERAGE then [] else ps) @ [p\<lparr>lp_updated := False, lp_type := t\<rparr>]) s)))
         else ([], put_entries name (entries name s @ [p\<lparr>lp_updated := True\<rparr>]) s))"

text \<open>The sum that becomes the average, or None where a value is no number.\<close>

fun sum_values :: "rat \<Rightarrow> byte list list \<Rightarrow> rat option" where
  "sum_values acc [] = Some acc"
| "sum_values acc (v # vs) = (case stod (first_token v) of None \<Rightarrow> None | Some x \<Rightarrow> sum_values (double (acc + x)) vs)"

definition average_line :: "byte list \<Rightarrow> byte list \<Rightarrow> byte list list \<Rightarrow> byte list list" where
  "average_line ts name vs =
     (case sum_values 0 vs of None \<Rightarrow> []
      | Some x \<Rightarrow> [log_line ts name (fixed_text 7 (double (x / of_nat (length vs))) @ 0x20 # last_token (last vs))])"

definition not_updated :: "LogParameter list \<Rightarrow> LogParameter list" where
  "not_updated ps = (case ps of [] \<Rightarrow> [] | p # ps \<Rightarrow> p\<lparr>lp_updated := False\<rparr> # ps)"

text \<open>What an update does with one entry: the lines, and what is left of it, if anything.\<close>

definition update_entry :: "byte list \<Rightarrow> bool \<Rightarrow> byte list \<times> LogParameter list \<Rightarrow> byte list list \<times> LogParameter list option" where
  "update_entry ts once = (\<lambda>(name, ps).
     if ps = [] then ([], Some ps)
     else case lp_type (last ps) of
       LOG_LATEST \<Rightarrow> ([log_line ts name (lp_value (last ps))], None)
     | LOG_AVERAGE \<Rightarrow> (average_line ts name (map lp_value ps), None)
     | LOG_ONCE \<Rightarrow>
         (if once \<or> lp_updated (hd ps) then [log_line ts name (lp_value (last ps))] else [],
          Some (not_updated (drop (length ps - 2) ps)))
     | LOG_ON_CHANGE \<Rightarrow>
         (let changed = (if once \<or> lp_updated (hd ps) then None else find (\<lambda>p. lp_value p \<noteq> lp_value (hd ps)) (tl ps))
          in (if once \<or> lp_updated (hd ps) then [log_line ts name (lp_value (last ps))]
              else case changed of None \<Rightarrow> [] | Some p \<Rightarrow> [log_line ts name (lp_value p)],
              Some [(case changed of None \<Rightarrow> hd ps | Some p \<Rightarrow> p)\<lparr>lp_updated := False\<rparr>]))
     | _ \<Rightarrow> ([], Some ps))"

fun update_entries :: "byte list \<Rightarrow> bool \<Rightarrow> (byte list \<times> LogParameter list) list \<Rightarrow> byte list list \<times> (byte list \<times> LogParameter list) list" where
  "update_entries ts once [] = ([], [])"
| "update_entries ts once ((name, ps) # es) =
     (let (lines, left) = update_entry ts once (name, ps); (rest, es) = update_entries ts once es
      in (lines @ rest, (case left of None \<Rightarrow> es | Some ps \<Rightarrow> (name, ps) # es)))"

definition log_update :: "byte list \<Rightarrow> log_engine \<Rightarrow> byte list list \<times> log_engine" where
  "log_update ts s = (let (lines, es) = update_entries ts (le_once s) (le_data s) in (lines, \<lparr>le_data = es, le_once = False\<rparr>))"

definition onOnceLogTrigger :: "log_engine \<Rightarrow> log_engine" where
  "onOnceLogTrigger s = s\<lparr>le_once := True\<rparr>"

section \<open>Histories\<close>

datatype log_op = Log_Received "byte list" LogParameter | Log_Update "byte list" | Log_Once

fun log_step :: "log_op \<Rightarrow> log_engine \<Rightarrow> byte list list \<times> log_engine" where
  "log_step (Log_Received ts p) s = onLogParameterReceived ts p s"
| "log_step (Log_Update ts) s = log_update ts s"
| "log_step Log_Once s = ([], onOnceLogTrigger s)"

text \<open>What each step writes.\<close>

definition log_run :: "log_op list \<Rightarrow> log_engine \<Rightarrow> byte list list list \<times> log_engine" where
  "log_run = run_ops log_step"

section \<open>The reference\<close>

text \<open>The parameters of a name in a history, those since the last update, and whether a trigger is pending.\<close>

fun params_of :: "log_op \<Rightarrow> LogParameter list" where
  "params_of (Log_Received ts p) = [p]"
| "params_of _ = []"

definition received :: "byte list \<Rightarrow> log_op list \<Rightarrow> LogParameter list" where
  "received name ops = filter (\<lambda>p. lp_name p = name) (concat (map params_of ops))"

definition is_update :: "log_op \<Rightarrow> bool" where
  "is_update op \<longleftrightarrow> (case op of Log_Update _ \<Rightarrow> True | _ \<Rightarrow> False)"

definition since_update :: "log_op list \<Rightarrow> log_op list" where
  "since_update ops = rev (takeWhile (\<lambda>op. \<not> is_update op) (rev ops))"

definition once_pending :: "log_op list \<Rightarrow> bool" where
  "once_pending ops \<longleftrightarrow> \<not> list_ex is_update ops \<or> Log_Once \<in> set (since_update ops)"

text \<open>What an update has to write of a name, and what a step has to write, after a history.\<close>

definition ref_lines :: "(byte list \<Rightarrow> log_type) \<Rightarrow> log_op list \<Rightarrow> byte list \<Rightarrow> byte list \<Rightarrow> byte list list" where
  "ref_lines type ops ts name =
     (let recent = map lp_value (received name (since_update ops)); all = map lp_value (received name ops)
      in if type name = LOG_LATEST \<and> recent \<noteq> [] then [log_line ts name (last recent)]
         else if type name = LOG_AVERAGE \<and> recent \<noteq> [] then average_line ts name recent
         else if type name = LOG_ONCE \<and> all \<noteq> [] \<and> (once_pending ops \<or> length recent = length all) then [log_line ts name (last all)]
         else [])"

fun ref_step :: "(byte list \<Rightarrow> log_type) \<Rightarrow> log_op list \<Rightarrow> log_op \<Rightarrow> byte list list" where
  "ref_step type ops (Log_Received ts p) =
     (if type (lp_name p) = LOG_EVERY then [log_line ts (lp_name p) (lp_value p)] else [])"
| "ref_step type ops (Log_Update ts) = concat (map (ref_lines type ops ts) (remdups (map lp_name (concat (map params_of ops)))))"
| "ref_step type ops Log_Once = []"

definition typed_op :: "(byte list \<Rightarrow> log_type) \<Rightarrow> log_op \<Rightarrow> bool" where
  "typed_op type op \<longleftrightarrow> list_all (\<lambda>p. lp_type p = type (lp_name p) \<and> lp_type p \<noteq> LOG_ON_CHANGE) (params_of op)"

lemma received_snoc [simp]:
  "received name [] = []" "received name (ops @ [op]) = received name ops @ filter (\<lambda>p. lp_name p = name) (params_of op)"
  by (simp_all add: received_def)

lemma since_update_snoc [simp]:
  "since_update [] = []" "since_update (ops @ [op]) = (if is_update op then [] else since_update ops @ [op])"
  by (simp_all add: since_update_def)

lemma once_pending_snoc [simp]:
  "once_pending []" "once_pending (ops @ [op]) \<longleftrightarrow> (if is_update op then False else once_pending ops \<or> op = Log_Once)"
  by (auto simp: once_pending_def)

lemma is_update_simps [simp]: "\<not> is_update (Log_Received ts p)" "is_update (Log_Update ts)" "\<not> is_update Log_Once"
  by (simp_all add: is_update_def)

lemma received_suffix: "\<exists>old. received name ops = old @ received name (since_update ops)"
proof -
  have "ops = rev (dropWhile (\<lambda>op. \<not> is_update op) (rev ops)) @ since_update ops"
    by (metis rev_append rev_rev_ident since_update_def takeWhile_dropWhile_id)
  then show ?thesis unfolding received_def by (metis concat_append filter_append map_append)
qed

section \<open>The engine follows the reference\<close>

definition tracked :: "(byte list \<Rightarrow> log_type) \<Rightarrow> log_op list \<Rightarrow> byte list \<Rightarrow> LogParameter list option \<Rightarrow> bool" where
  "tracked type ops name e \<longleftrightarrow>
     (let recent = received name (since_update ops); all = received name ops
      in if type name \<in> {LOG_LATEST, LOG_AVERAGE} \<and> recent \<noteq> []
         then (\<exists>ps. e = Some ps \<and> map lp_value ps = map lp_value recent \<and> lp_type (last ps) = type name)
         else if type name = LOG_ONCE \<and> all \<noteq> []
         then (\<exists>ps. e = Some ps \<and> ps \<noteq> [] \<and> lp_value (last ps) = lp_value (last all) \<and> lp_type (last ps) = LOG_ONCE
                 \<and> (lp_updated (hd ps) \<longleftrightarrow> length recent = length all))
         else e = None)"

definition tracks :: "(byte list \<Rightarrow> log_type) \<Rightarrow> log_op list \<Rightarrow> log_engine \<Rightarrow> bool" where
  "tracks type ops s \<longleftrightarrow> le_once s = once_pending ops \<and> distinct (map fst (le_data s))
     \<and> (\<forall>name. tracked type ops name (map_of (le_data s) name))"

lemma tracks_init: "tracks type [] log_init"
  by (simp add: tracks_def tracked_def log_init_def)

lemma update_entries_lines: "fst (update_entries ts once es) = concat (map (\<lambda>e. fst (update_entry ts once e)) es)"
  by (induction es) (auto split: prod.splits)

lemma update_entries_names: "map_of es name = None \<Longrightarrow> map_of (snd (update_entries ts once es)) name = None"
  by (induction es) (auto split: prod.splits option.splits if_splits)

lemma update_entries_distinct: "distinct (map fst es) \<Longrightarrow> distinct (map fst (snd (update_entries ts once es)))"
proof (induction es)
  case (Cons e es)
  obtain n ps where e: "e = (n, ps)" by (cases e)
  have "map_of (snd (update_entries ts once es)) n = None"
    using Cons.prems by (intro update_entries_names) (simp add: e map_of_eq_None_iff)
  then show ?case using Cons by (auto simp: e map_of_eq_None_iff split: prod.splits option.splits)
qed simp

lemma update_entries_map:
  "distinct (map fst es) \<Longrightarrow> map_of (snd (update_entries ts once es)) name
    = Option.bind (map_of es name) (\<lambda>ps. snd (update_entry ts once (name, ps)))"
proof (induction es)
  case (Cons e es)
  obtain n ps where e: "e = (n, ps)" by (cases e)
  have none: "map_of es n = None" using Cons.prems by (simp add: e map_of_eq_None_iff)
  have "map_of (snd (update_entries ts once es)) n = None" by (rule update_entries_names [OF none])
  then show ?case using Cons none by (auto simp: e split: prod.splits option.splits)
qed simp

lemma tracked_other:
  "lp_name p \<noteq> name \<Longrightarrow> tracked type (ops @ [Log_Received ts p]) name e \<longleftrightarrow> tracked type ops name e"
  by (simp add: tracked_def)

lemma tracked_nothing:
  "type name \<notin> {LOG_LATEST, LOG_AVERAGE, LOG_ONCE} \<Longrightarrow> tracked type ops name e \<longleftrightarrow> e = None"
  by (auto simp: tracked_def)

lemma recent_all: "received name ops = [] \<Longrightarrow> received name (since_update ops) = []"
  using received_suffix [of name ops] by auto

text \<open>A parameter that is kept is put behind those that are there.\<close>

lemma tracked_received:
  assumes "tracked type ops (lp_name p) (map_of es (lp_name p))" "lp_type p = type (lp_name p)"
    "lp_type p \<in> {LOG_LATEST, LOG_AVERAGE, LOG_ONCE}"
  shows "tracked type (ops @ [Log_Received ts p]) (lp_name p)
    (Some ((case map_of es (lp_name p) of None \<Rightarrow> [] | Some ps \<Rightarrow> ps) @ [p\<lparr>lp_updated := True\<rparr>]))"
proof -
  let ?n = "lp_name p"
  let ?all = "received ?n ops" and ?recent = "received ?n (since_update ops)"
  show ?thesis
  proof (cases "lp_type p = LOG_ONCE")
    case True
    then have t: "type ?n = LOG_ONCE" using assms(2) by simp
    show ?thesis
    proof (cases "?all = []")
      case False
      then obtain ps where "map_of es ?n = Some ps" "ps \<noteq> []" "lp_updated (hd ps) \<longleftrightarrow> length ?recent = length ?all"
        using assms(1) t by (auto simp: tracked_def Let_def)
      then show ?thesis by (simp add: tracked_def t True)
    next
      case none: True
      then have "map_of es ?n = None" using assms(1) t by (simp add: tracked_def)
      then show ?thesis by (simp add: tracked_def t True none recent_all)
    qed
  next
    case False
    then have t: "type ?n \<in> {LOG_LATEST, LOG_AVERAGE}" "lp_type p = type ?n" using assms(2,3) by auto
    then show ?thesis using assms(1) by (cases "?recent = []") (auto simp: tracked_def split: option.split)
  qed
qed

lemma tracks_received:
  assumes "tracks type ops s" "lp_type p = type (lp_name p)" "lp_type p \<noteq> LOG_ON_CHANGE"
  shows "fst (onLogParameterReceived ts p s) = ref_step type ops (Log_Received ts p) \<and>
    tracks type (ops @ [Log_Received ts p]) (snd (onLogParameterReceived ts p s))"
proof -
  let ?n = "lp_name p"
  have s: "le_once s = once_pending ops" "distinct (map fst (le_data s))" "tracked type ops name (map_of (le_data s) name)" for name
    using assms(1) by (simp_all add: tracks_def)
  consider "lp_type p \<in> {LOG_NEVER, LOG_EVERY}" | "lp_type p \<in> {LOG_LATEST, LOG_AVERAGE, LOG_ONCE}"
    using assms(3) by (cases "lp_type p") auto
  then show ?thesis
  proof cases
    case 1
    then have none: "map_of (le_data s) ?n = None" "tracked type (ops @ [Log_Received ts p]) ?n None"
      using s(3) [of ?n] assms(2) by (auto simp: tracked_nothing)
    have "tracked type (ops @ [Log_Received ts p]) name (map_of (le_data s) name)" for name
      using s(3) [of name] none by (cases "name = ?n") (simp_all add: tracked_other)
    then have "tracks type (ops @ [Log_Received ts p]) s" using s by (simp add: tracks_def)
    then show ?thesis using 1 assms(2) none by (auto simp: onLogParameterReceived_def Let_def)
  next
    case 2
    let ?e = "(case map_of (le_data s) ?n of None \<Rightarrow> [] | Some ps \<Rightarrow> ps) @ [p\<lparr>lp_updated := True\<rparr>]"
    have r: "onLogParameterReceived ts p s = ([], s\<lparr>le_data := AList.update ?n ?e (le_data s)\<rparr>)"
      using 2 by (auto simp: onLogParameterReceived_def put_entries_def entries_def Let_def)
    have "tracked type (ops @ [Log_Received ts p]) name (map_of (AList.update ?n ?e (le_data s)) name)" for name
      using s(3) [of name] tracked_received [OF s(3) assms(2) 2]
      by (cases "name = ?n") (simp_all add: tracked_other update_conv')
    then show ?thesis using 2 assms(2) s by (auto simp: r tracks_def distinct_update)
  qed
qed

text \<open>An update of an entry.\<close>

lemma tracked_update:
  assumes "tracked type ops name e"
  shows "ref_lines type ops ts name = (case e of None \<Rightarrow> [] | Some ps \<Rightarrow> fst (update_entry ts (once_pending ops) (name, ps)))"
    and "tracked type (ops @ [Log_Update ts]) name (Option.bind e (\<lambda>ps. snd (update_entry ts (once_pending ops) (name, ps))))"
proof -
  let ?all = "received name ops" and ?recent = "received name (since_update ops)"
  let ?once = "once_pending ops"
  consider (recent) ps where "type name \<in> {LOG_LATEST, LOG_AVERAGE}" "?recent \<noteq> []" "e = Some ps"
      "map lp_value ps = map lp_value ?recent" "lp_type (last ps) = type name"
    | (once) ps where "type name = LOG_ONCE" "?all \<noteq> []" "e = Some ps" "ps \<noteq> []" "lp_value (last ps) = lp_value (last ?all)"
      "lp_type (last ps) = LOG_ONCE" "lp_updated (hd ps) \<longleftrightarrow> length ?recent = length ?all"
    | (none) "e = None" "type name \<in> {LOG_LATEST, LOG_AVERAGE} \<Longrightarrow> ?recent = []" "type name = LOG_ONCE \<Longrightarrow> ?all = []"
    using assms by (fastforce simp: tracked_def Let_def split: if_splits)
  then have "ref_lines type ops ts name = (case e of None \<Rightarrow> [] | Some ps \<Rightarrow> fst (update_entry ts ?once (name, ps))) \<and>
      tracked type (ops @ [Log_Update ts]) name (Option.bind e (\<lambda>ps. snd (update_entry ts ?once (name, ps))))"
  proof cases
    case recent
    then have ps: "ps \<noteq> []" by auto
    then have "last (map lp_value ?recent) = lp_value (last ps)" by (simp flip: recent(4) add: last_map)
    then show ?thesis using recent ps by (auto simp: ref_lines_def tracked_def update_entry_def Let_def)
  next
    case once
    define qs where "qs = drop (length ps - 2) ps"
    have "length ps - 2 < length ps" using once(4) by (cases ps) auto
    then have qs: "qs \<noteq> []" "last qs = last ps" by (simp_all add: qs_def last_drop)
    then obtain q r where qr: "qs = q # r" by (cases qs) auto
    have "last (map lp_value ?all) = lp_value (last ps)" using once by (simp add: last_map)
    moreover have "not_updated qs \<noteq> []" "lp_value (last (not_updated qs)) = lp_value (last qs)"
      "lp_type (last (not_updated qs)) = lp_type (last qs)" "\<not> lp_updated (hd (not_updated qs))"
      by (simp_all add: not_updated_def qr)
    ultimately show ?thesis
      using once qs by (auto simp: ref_lines_def tracked_def update_entry_def Let_def qs_def [symmetric])
  next
    case none
    then show ?thesis by (auto simp: ref_lines_def tracked_def Let_def)
  qed
  then show "ref_lines type ops ts name = (case e of None \<Rightarrow> [] | Some ps \<Rightarrow> fst (update_entry ts ?once (name, ps)))"
    and "tracked type (ops @ [Log_Update ts]) name (Option.bind e (\<lambda>ps. snd (update_entry ts ?once (name, ps))))" by blast+
qed

text \<open>A whole update: its lines are those of the entries, in some order.\<close>

lemma mset_concat_distinct: "distinct xs \<Longrightarrow> mset (concat (map f xs)) = (\<Sum>x\<in>set xs. mset (f x))"
  by (induction xs) simp_all

lemma tracked_name:
  assumes "tracked type ops name (Some ps)"
  shows "name \<in> lp_name ` set (concat (map params_of ops))"
proof -
  have "received name ops \<noteq> []" using assms recent_all by (auto simp: tracked_def Let_def split: if_splits)
  then show ?thesis by (fastforce simp: received_def filter_empty_conv)
qed

lemma tracks_update:
  assumes "tracks type ops s"
  shows "mset (fst (log_update ts s)) = mset (ref_step type ops (Log_Update ts)) \<and> tracks type (ops @ [Log_Update ts]) (snd (log_update ts s))"
proof -
  let ?es = "le_data s" and ?once = "once_pending ops" and ?ns = "remdups (map lp_name (concat (map params_of ops)))"
  have s: "le_once s = ?once" "distinct (map fst ?es)" "tracked type ops name (map_of ?es name)" for name
    using assms by (simp_all add: tracks_def)
  have u: "log_update ts s = (fst (update_entries ts ?once ?es), \<lparr>le_data = snd (update_entries ts ?once ?es), le_once = False\<rparr>)"
    by (simp add: log_update_def s(1) split: prod.split)
  have entry: "fst (update_entry ts ?once (name, ps)) = ref_lines type ops ts name" if "(name, ps) \<in> set ?es" for name ps
    using tracked_update(1) [OF s(3) [of name]] that s(2) by simp
  have "fst (update_entries ts ?once ?es) = concat (map (\<lambda>(name, _). ref_lines type ops ts name) ?es)"
    unfolding update_entries_lines by (rule arg_cong [where f = concat], rule map_cong [OF refl]) (auto simp: entry)
  also have "\<dots> = concat (map (ref_lines type ops ts) (map fst ?es))"
    by (rule arg_cong [where f = concat]) (simp add: case_prod_beta)
  finally have lines: "mset (fst (update_entries ts ?once ?es)) = (\<Sum>name \<in> set (map fst ?es). mset (ref_lines type ops ts name))"
    using mset_concat_distinct [OF s(2)] by simp
  have "mset (ref_step type ops (Log_Update ts)) = (\<Sum>name \<in> set ?ns. mset (ref_lines type ops ts name))"
    using mset_concat_distinct [of ?ns] by simp
  also have "\<dots> = (\<Sum>name \<in> set (map fst ?es). mset (ref_lines type ops ts name))"
  proof (rule sum.mono_neutral_right)
    show "set (map fst ?es) \<subseteq> set ?ns"
    proof
      fix name assume "name \<in> set (map fst ?es)"
      then obtain ps where "map_of ?es name = Some ps" using s(2) by auto
      then show "name \<in> set ?ns" using tracked_name [of type ops name] s(3) [of name] by simp
    qed
    show "\<forall>name \<in> set ?ns - set (map fst ?es). mset (ref_lines type ops ts name) = {#}"
    proof
      fix name assume "name \<in> set ?ns - set (map fst ?es)"
      then have "map_of ?es name = None" by (auto simp: map_of_eq_None_iff)
      then show "mset (ref_lines type ops ts name) = {#}" using tracked_update(1) [OF s(3) [of name]] by simp
    qed
  qed simp
  finally have "mset (fst (log_update ts s)) = mset (ref_step type ops (Log_Update ts))" using lines by (simp add: u)
  moreover have "tracks type (ops @ [Log_Update ts]) (snd (log_update ts s))"
    using tracked_update(2) [OF s(3)] s(2) by (simp add: u tracks_def update_entries_distinct update_entries_map)
  ultimately show ?thesis ..
qed

lemma tracks_step:
  assumes "tracks type ops s" "typed_op type op"
  shows "mset (fst (log_step op s)) = mset (ref_step type ops op) \<and> tracks type (ops @ [op]) (snd (log_step op s))"
proof (cases op)
  case (Log_Received ts p)
  then show ?thesis using tracks_received [OF assms(1), of p ts] assms(2) by (auto simp: typed_op_def)
next
  case (Log_Update ts)
  then show ?thesis using tracks_update [OF assms(1)] by simp
next
  case Log_Once
  have "tracked type (ops @ [Log_Once]) name e \<longleftrightarrow> tracked type ops name e" for name e
    by (simp add: tracked_def)
  then show ?thesis using assms(1) by (simp add: Log_Once onOnceLogTrigger_def tracks_def)
qed

interpretation log: reference_run log_step "typed_op type" "tracks type" mset "\<lambda>past op. mset (ref_step type past op)" for type
  by unfold_locales (use tracks_step in blast)+

text \<open>
  C25: The log is a function of the history. Nothing in the program calls \<open>onLogParameterReceived\<close>, so this is what the
  engine promises to whoever does: if every name always comes with the same type, and none with ON_CHANGE, then whatever is
  received, updated and triggered, a parameter of the type EVERY is written at once; and an update writes, each exactly once and
  nothing else: of every name of the type LATEST the newest value since the last update, of every name of the type AVERAGE
  the average of the values since the last update, or nothing where one of them does not start with a number, and of every
  name of the type ONCE the newest value, if it was never written or a trigger came since the last update.
\<close>

theorem log_exact:
  assumes "list_all (typed_op type) ops"
  shows "map mset (fst (log_run ops log_init)) = map (\<lambda>k. mset (ref_step type (take k ops) (ops ! k))) [0..<length ops]"
  unfolding log_run_def by (rule log.run_agrees [OF tracks_init assms])

text \<open>A rate that is averaged between two updates, a switch that is written at once, and a version that is written once.\<close>

definition demo_type :: "byte list \<Rightarrow> log_type" where
  "demo_type name = (if name = [0x72] then LOG_AVERAGE else if name = [0x73] then LOG_EVERY else LOG_ONCE)"

definition demo_param :: "byte \<Rightarrow> byte list \<Rightarrow> LogParameter" where
  "demo_param name value = \<lparr>lp_name = [name], lp_value = value, lp_updated = False, lp_type = demo_type [name]\<rparr>"

definition demo_ops :: "log_op list" where
  "demo_ops = [Log_Received [] (demo_param 0x72 [0x32]), Log_Received [] (demo_param 0x76 [0x37]), Log_Received [] (demo_param 0x72 [0x34]),
     Log_Received [0x74] (demo_param 0x73 [0x31]), Log_Update [0x74], Log_Update [0x74]]"

theorem log_exact_witness:
  "map mset (fst (log_run demo_ops log_init)) = map (\<lambda>k. mset (ref_step demo_type (take k demo_ops) (demo_ops ! k))) [0..<length demo_ops]
   \<and> ref_step demo_type (take 3 demo_ops) (demo_ops ! 3) = [log_line [0x74] [0x73] [0x31]]"
proof -
  have "list_all (typed_op demo_type) demo_ops" by (simp add: demo_ops_def demo_param_def typed_op_def demo_type_def)
  from log_exact [OF this] show ?thesis by (simp add: demo_ops_def demo_param_def demo_type_def)
qed

end
