(* ===== verification/Log_Parameters.thy ===== *)
theory Log_Parameters
  imports Data_Store Log_Engine Geohash
begin

text \<open>
  What is logged: \<open>LogParameterProcessor\<close> (\<open>daemon/src/components/log_parameter_processor.cpp\<close>), which turns the
  events on the bus into parameters and polls the system. The time of the system clock, what \<open>sysinfo\<close> says and the
  voltages of the ADC are arguments. None is undefined behaviour, or a number that is not finite.
\<close>

definition par :: "string \<Rightarrow> byte list \<Rightarrow> log_type \<Rightarrow> LogParameter" where
  "par name value type = \<lparr>lp_name = octets name, lp_value = value, lp_updated = False, lp_type = type\<rparr>"

definition in_unit :: "byte list \<Rightarrow> string \<Rightarrow> byte list" where
  "in_unit text unit = text @ 0x20 # octets unit"

definition hex_digit :: "nat \<Rightarrow> byte" where
  "hex_digit d = (if d < 10 then 0x30 + word_of_nat d else 0x41 + word_of_nat (d - 10))"

text \<open>\<open>to_hex\<close> of a value of \<open>n\<close> octets.\<close>

definition to_hex :: "nat \<Rightarrow> nat \<Rightarrow> byte list" where
  "to_hex n x = octets ''0x'' @ map (\<lambda>i. hex_digit (x div 16 ^ i mod 16)) (rev [0..<2 * n])"

definition FIX_NAMES :: "string list" where
  "FIX_NAMES = [''NoFix'', ''DeadReck'', ''2D'', ''3D'', ''GPS+DeadReck'', ''TimeFix'', ''N/A'']"

section \<open>Events\<close>

text \<open>The satellites in view, by descending signal, those without one dropped from the end.\<close>

definition visible_sats :: "GnssSatellite list \<Rightarrow> GnssSatellite list" where
  "visible_sats sats = rev (dropWhile (\<lambda>s. sat_Cnr s = 0) (sort_key (\<lambda>s. unat (sat_Cnr s)) sats))"

definition SWITCH_NAMES :: "(u8 \<times> string) list" where
  "SWITCH_NAMES = [(PREAMP_1, ''preampSwitch1''), (PREAMP_2, ''preampSwitch2''), (IN_POL1, ''polaritySwitch1''),
     (IN_POL2, ''polaritySwitch2''), (GAIN_HL, ''gainSwitch''), (STATUS1, ''status1''), (STATUS2, ''status2''), (STATUS3, ''status3'')]"

text \<open>Wherever the code publishes, in order.\<close>

definition time_mark_params :: "int \<Rightarrow> UbxTimeMarkStruct \<Rightarrow> LogParameter list" where
  "time_mark_params systime tm =
     (if \<not> tmk_risingValid tm \<and> \<not> tmk_fallingValid tm then []
      else (let difftime = systime - (tv_nsec (tmk_rising tm) + tv_sec (tmk_rising tm) * 1000000000)
            in [par ''gnssTimeOffset'' (in_unit (fixed_text 3 (double (double (of_int difftime) * double (1 / 1000000000)))) ''s'') LOG_LATEST,
                par ''ubloxCounter'' (to_string (unat (tmk_evtCounter tm)) @ octets '' '') LOG_LATEST]))"

definition rate_params :: "GpioRateEvent \<Rightarrow> LogParameter list" where
  "rate_params e =
     (case gre_rate e of [] \<Rightarrow> []
      | (_, r) # _ \<Rightarrow>
          if gre_whichRate e = 0 then [par ''rateXOR'' (in_unit (to_string_double r) ''Hz'') LOG_AVERAGE]
          else if gre_whichRate e = 1 then [par ''rateAND'' (in_unit (to_string_double r) ''Hz'') LOG_AVERAGE]
          else [])"

text \<open>The subscription to \<open>GeoPosition\<close>.\<close>

definition geo_params :: "GeoPosition \<Rightarrow> LogParameter list option" where
  "geo_params p = map_option (\<lambda>hash.
     [par ''geoLongitude'' (in_unit (to_string_double (geo_longitude p)) ''deg'') LOG_AVERAGE,
      par ''geoLongitude'' (in_unit (to_string_double (geo_longitude p)) ''deg'') LOG_AVERAGE,
      par ''geoLatitude'' (in_unit (to_string_double (geo_latitude p)) ''deg'') LOG_AVERAGE,
      par ''geoHash'' (octets hash @ octets '' '') LOG_LATEST,
      par ''geoHeightMSL'' (in_unit (to_string_double (geo_altitude p)) ''m'') LOG_AVERAGE,
      par ''geoHorAccuracy'' (in_unit (to_string_double (geo_hor_error p)) ''m'') LOG_AVERAGE,
      par ''geoVertAccuracy'' (in_unit (to_string_double (geo_vert_error p)) ''m'') LOG_AVERAGE])
    (hashFromCoordinates (geo_longitude p) (geo_latitude p) 10)"

definition hw_params :: "GnssMonHwStruct \<Rightarrow> LogParameter list" where
  "hw_params hw =
     [par ''preampNoise'' (in_unit (to_string_int (- int (unat (mhw_noisePerMS hw)))) ''dBHz'') LOG_AVERAGE,
      par ''preampAGC'' (to_string (unat (mhw_agcCnt hw))) LOG_AVERAGE,
      par ''antennaStatus'' (to_string (unat (mhw_antStatus hw))) LOG_LATEST,
      par ''antennaPower'' (to_string (unat (mhw_antPower hw))) LOG_AVERAGE,
      par ''jammingLevel'' (in_unit (to_string_double (double (of_nat (unat (mhw_jamInd hw)) / double (255 / 100)))) ''%'') LOG_AVERAGE]"

definition sat_params :: "NavSat \<Rightarrow> LogParameter list" where
  "sat_params e =
     (let sats = visible_sats (nsa_satellites e);
          usedSats = length (filter sat_Used sats);
          maxCnr = foldl (\<lambda>m s. max m (unat (sat_Cnr s))) 0 sats
      in [par ''sats'' (to_string (nsa_goodSats e)) LOG_AVERAGE,
          par ''usedSats'' (to_string usedSats) LOG_AVERAGE,
          par ''maxCNR'' (in_unit (to_string maxCnr) ''dB'') LOG_AVERAGE])"

definition tx_params :: "MonTx \<Rightarrow> LogParameter list" where
  "tx_params e =
     [par ''TXBufUsage'' (in_unit (to_string (unat (mtx_tUsage e))) ''%'') LOG_AVERAGE,
      par ''maxTXBufUsage'' (in_unit (to_string (unat (mtx_tPeakUsage e))) ''%'') LOG_LATEST]"

definition rx_params :: "MonRx \<Rightarrow> LogParameter list" where
  "rx_params e =
     [par ''RXBufUsage'' (in_unit (to_string (unat (mrx_tUsage e))) ''%'') LOG_AVERAGE,
      par ''maxRXBufUsage'' (in_unit (to_string (unat (mrx_tPeakUsage e))) ''%'') LOG_LATEST]"

definition clock_params :: "NavClock \<Rightarrow> LogParameter list" where
  "clock_params e =
     [par ''timeAccuracy'' (in_unit (to_string (unat (ncl_tAcc e))) ''ns'') LOG_LATEST,
      par ''freqAccuracy'' (in_unit (to_string (unat (ncl_fAcc e))) ''ps/s'') LOG_AVERAGE,
      par ''clockDrift'' (in_unit (to_string_int (sint (ncl_clkD e))) ''ns/s'') LOG_AVERAGE,
      par ''clockBias'' (in_unit (to_string_int (sint (ncl_clkB e))) ''ns'') LOG_AVERAGE]"

text \<open>\<open>FixType::name\<close> has seven entries and is read at whatever the receiver sent.\<close>

definition status_params :: "NavStatus \<Rightarrow> LogParameter list option" where
  "status_params e =
     (if unat (nst_gpsFix e) < length FIX_NAMES
      then Some [par ''fixStatus'' (to_string (unat (nst_gpsFix e))) LOG_LATEST,
                 par ''fixStatusString'' (octets (FIX_NAMES ! unat (nst_gpsFix e))) LOG_LATEST,
                 par ''ubloxUptime'' (in_unit (to_string (unat (nst_msss e) div 1000)) ''s'') LOG_LATEST]
      else None)"

definition version_params :: "GpsVersion \<Rightarrow> LogParameter list" where
  "version_params e =
     [par ''UBX_SW_Version'' (0x22 # gv_swString e @ [0x22]) LOG_ONCE,
      par ''UBX_HW_Version'' (0x22 # gv_hwString e @ [0x22]) LOG_ONCE]"

fun event_params :: "int \<Rightarrow> datum \<Rightarrow> LogParameter list option" where
  "event_params systime (D (Ev_TimeMark tm)) = Some (time_mark_params systime tm)"
| "event_params systime (D_Dop dops) = Some
     [par ''positionDOP'' (to_string_double (double (of_nat (unat (pDOP dops)) / 100))) LOG_AVERAGE,
      par ''timeDOP'' (to_string_double (double (of_nat (unat (tDOP dops)) / 100))) LOG_AVERAGE]"
| "event_params systime (D (Ev_GpioRate e)) = Some (rate_params e)"
| "event_params systime (D (Ev_ADS1115 e)) =
     map_option (\<lambda>t. [par ''adcSamplingTime'' (in_unit (to_string_double t) ''ms'') LOG_AVERAGE]) (ads_convTime e)"
| "event_params systime (D (Ev_Gpio e)) = Some
     (case map_of SWITCH_NAMES (ge_signal e) of None \<Rightarrow> []
      | Some name \<Rightarrow> [par name (to_string (if ge_edge e = Rising then 0 else 1)) LOG_EVERY])"
| "event_params systime (D (Ev_BiasVoltage v)) = Some [par ''biasDAC'' (in_unit (to_string_double v) ''V'') LOG_EVERY]"
| "event_params systime (D (Ev_BiasSwitch on)) = Some [par ''biasSwitch'' (to_string (if on then 1 else 0)) LOG_EVERY]"
| "event_params systime (D (Ev_ThresholdSetting e)) = Some
     [\<lparr>lp_name = octets ''thresh'' @ to_string (unat (tse_channel e) + 1), lp_value = in_unit (to_string_double (tse_voltage e)) ''V'',
       lp_updated = False, lp_type = LOG_EVERY\<rparr>]"
| "event_params systime (D (Ev_MonHw hw)) = Some (hw_params hw)"
| "event_params systime (D (Ev_NavSat e)) = Some (sat_params e)"
| "event_params systime (D (Ev_MonTx e)) = Some (tx_params e)"
| "event_params systime (D (Ev_MonRx e)) = Some (rx_params e)"
| "event_params systime (D (Ev_NavClock e)) = Some (clock_params e)"
| "event_params systime (D (Ev_NavStatus e)) = status_params e"
| "event_params systime (D (Ev_GpsVersion e)) = Some (version_params e)"
| "event_params systime (D (Ev_Temperature e)) = Some
     [\<lparr>lp_name = octets ''temperature_'' @ tev_source e, lp_value = in_unit (to_string_double (tev_temperature e)) ''degC'',
       lp_updated = False, lp_type = LOG_AVERAGE\<rparr>]"
| "event_params systime (D (Ev_PcaSwitch ports)) = Some [par ''ubxInputSwitch'' (octets ''0x'' @ to_hex 1 (unat ports)) LOG_EVERY]"
| "event_params systime _ = Some []"

text \<open>The subscription to \<open>UbxProtVersion\<close>, and the number of the EEPROM, which is logged once at the start.\<close>

definition prot_version_params :: "UbxProtVersion \<Rightarrow> LogParameter list" where
  "prot_version_params v =
     [par ''UBX_Prot_Version'' (to_string (unat (major v)) @ 0x2e # to_string (unat (minor v))) LOG_ONCE]"

definition unique_id_params :: "u64 option \<Rightarrow> LogParameter list" where
  "unique_id_params serial = (case serial of None \<Rightarrow> [] | Some n \<Rightarrow> [par ''uniqueId'' (to_hex 8 (unat n)) LOG_ONCE])"

section \<open>Polling\<close>

record sysinfo =
  si_cpus :: nat
  si_uptime :: int
  si_load :: u64
  si_freeram :: u64
  si_freeswap :: u64
  si_mem_unit :: u32

definition mega :: "u64 \<Rightarrow> sysinfo \<Rightarrow> rat" where
  "mega x info = double (double (double (1 / 1000000) * double (of_nat (unat x))) / of_nat (unat (si_mem_unit info)))"

definition system_params :: "sysinfo \<Rightarrow> LogParameter list option" where
  "system_params info =
     (if si_mem_unit info = 0 then None
      else Some
        [par ''systemNrCPUs'' (to_string (si_cpus info) @ octets '' '') LOG_ONCE,
         par ''systemUptime'' (in_unit (to_string_double (double (double (of_int (si_uptime info)) / 3600))) ''h'') LOG_LATEST,
         par ''systemFreeMem'' (in_unit (to_string_double (mega (si_freeram info) info)) ''Mb'') LOG_AVERAGE,
         par ''systemFreeSwap'' (in_unit (to_string_double (mega (si_freeswap info) info)) ''Mb'') LOG_AVERAGE,
         par ''systemLoadAvg'' (to_string_double (double (double (of_nat (unat (si_load info))) / 65536)) @ octets '' '') LOG_AVERAGE])"

text \<open>\<open>>>\<close> leaves a variable as it was where there is nothing but white space; here it has no value then.\<close>

definition number_of :: "string \<Rightarrow> CalibStruct list \<Rightarrow> rat option" where
  "number_of name items =
     (let text = (case find (\<lambda>item. cal_name item = octets name) items of None \<Rightarrow> [] | Some item \<Rightarrow> cal_value item)
      in if dropWhile isspace text = [] then None else Some (in_double text))"

definition CALIBFLAGS_CURRENT_COEFFS :: i32 where "CALIBFLAGS_CURRENT_COEFFS = 4"

definition bias_params :: "rat \<Rightarrow> rat \<Rightarrow> CalibStruct list \<Rightarrow> (LogParameter list \<times> rat) option" where
  "bias_params v1 v2 items = do {
     vdiv \<leftarrow> number_of ''VDIV'' items;
     let vdiv = double (vdiv / 100);
     rsense \<leftarrow> number_of ''RSENSE'' items;
     let rsense = double (rsense / 10000);
     let ubias = double (v2 * vdiv);
     let usense = double (double (v1 - v2) * vdiv);
     let calFlags = (case in_int (case find (\<lambda>item. cal_name item = octets ''CALIB_FLAGS'') items of None \<Rightarrow> [] | Some item \<Rightarrow> cal_value item) of
       None \<Rightarrow> 0 | Some flags \<Rightarrow> flags);
     (coeffs, icorr) \<leftarrow>
       (if calFlags AND CALIBFLAGS_CURRENT_COEFFS \<noteq> 0
        then do {
          ioffs \<leftarrow> number_of ''COEFF2'' items;
          islope \<leftarrow> number_of ''COEFF3'' items;
          Some ([par ''calib_coeff2'' (to_string_double ioffs) LOG_ONCE, par ''calib_coeff3'' (to_string_double islope) LOG_ONCE],
                double (double (ubias * islope) + ioffs))
        } else Some ([], 0));
     if rsense = 0 then None
     else let ibias = double (double (usense / rsense) - icorr)
          in Some ([par ''calib_vdiv'' (to_string_double vdiv) LOG_ONCE,
                    par ''calib_rsense'' (in_unit (to_string_double (double (rsense * 1000))) ''kOhm'') LOG_ONCE,
                    par ''vbias'' (in_unit (to_string_double ubias) ''V'') LOG_AVERAGE,
                    par ''vsense'' (in_unit (to_string_double usense) ''V'') LOG_AVERAGE] @ coeffs
                   @ [par ''ibias'' (in_unit (to_string_double ibias) ''uA'') LOG_AVERAGE], ibias)
   }"

text \<open>
  A poll: what is published, the event with the bias current before its parameter, and the store, whose histograms are
  rescaled. The calibration is that of the store, if there is one and its object lives. Without the voltages of the ADC
  or an item VDIV it ends early.
\<close>

fun calibration_ptr :: "datum \<Rightarrow> CalibStruct list option option" where
  "calibration_ptr (D_Calibration items) = Some items" | "calibration_ptr _ = None"

datatype (plugins only:) poll_output = Poll_Param LogParameter | Poll_BiasCurrent rat | Poll_Pub ds_output

definition poll_bias :: "rat \<Rightarrow> rat \<Rightarrow> CalibStruct list \<Rightarrow> poll_output list option" where
  "poll_bias v1 v2 items =
     map_option (\<lambda>(ps, ibias). map Poll_Param (butlast ps) @ [Poll_BiasCurrent ibias, Poll_Param (last ps)]) (bias_params v1 v2 items)"

definition poll_voltages :: "(rat \<times> rat) option \<Rightarrow> data_store \<Rightarrow> (poll_output list \<times> bool) option" where
  "poll_voltages adc s =
     (case (adc, Option.bind (lookup ''std::weak_ptr<ShowerDetectorCalib>'' s) calibration_ptr) of
        (Some (v1, v2), Some (Some items)) \<Rightarrow>
          if list_ex (\<lambda>item. cal_name item = octets ''VDIV'') items then map_option (\<lambda>out. (out, True)) (poll_bias v1 v2 items)
          else Some ([], False)
      | (Some (v1, v2), Some None) \<Rightarrow>
          Some ([Poll_Param (par ''vadc3'' (in_unit (to_string_double v1) ''V'') LOG_AVERAGE),
                 Poll_Param (par ''vadc4'' (in_unit (to_string_double v2) ''V'') LOG_AVERAGE)], True)
      | _ \<Rightarrow> Some ([], False))"

definition log_poll :: "sysinfo option \<Rightarrow> (rat \<times> rat) option \<Rightarrow> data_store \<Rightarrow> (poll_output list \<times> data_store) option" where
  "log_poll info adc s = do {
     system \<leftarrow> (case info of None \<Rightarrow> Some [] | Some info \<Rightarrow> system_params info);
     (out, complete) \<leftarrow> poll_voltages adc s;
     let (histos, s') = all_histos s;
     Some (map Poll_Param system @ out @ (if complete then map Poll_Pub histos else []), if complete then s' else s)
   }"

section \<open>Numbers that are written can be read\<close>

lemma digits_value_append: "digits_value (xs @ ys) = digits_value xs * 10 ^ length ys + digits_value ys"
proof -
  let ?f = "\<lambda>n b. 10 * n + digit_value b"
  have "foldl ?f a ys = a * 10 ^ length ys + foldl ?f 0 ys" for a
  proof (induction ys arbitrary: a)
    case (Cons y ys)
    have 1: "foldl ?f a (y # ys) = (10 * a + digit_value y) * 10 ^ length ys + foldl ?f 0 ys"
      using Cons.IH [of "10 * a + digit_value y"] by simp
    have 2: "foldl ?f 0 (y # ys) = digit_value y * 10 ^ length ys + foldl ?f 0 ys"
      using Cons.IH [of "digit_value y"] by simp
    show ?case unfolding 1 2 by (simp add: algebra_simps)
  qed simp
  from this [of "foldl ?f 0 xs"] show ?thesis unfolding digits_value_def foldl_append .
qed

lemma digits_value_zeros: "digits_value (replicate n 0x30) = 0"
  by (induction n) (simp_all add: digits_value_def digit_value_def)

lemma to_string_length: "0 < k \<Longrightarrow> n < 10 ^ k \<Longrightarrow> length (to_string n) \<le> k"
proof (induction k arbitrary: n)
  case (Suc k)
  show ?case
  proof (cases "n < 10")
    case False
    then have "n div 10 < 10 ^ k" "0 < k" using Suc.prems by (auto simp: less_mult_imp_div_less mult.commute intro: gr0I)
    then show ?thesis using Suc.IH [of "n div 10"] False by (simp add: to_string.simps [of n])
  qed (simp add: to_string.simps [of n])
qed simp

lemma skip_sign:
  assumes "t \<noteq> []" "list_all isdigit t"
  shows "split_sign (dropWhile isspace ((if neg then [0x2d] else []) @ t @ u)) = (neg, t @ u)"
proof -
  obtain c cs where t: "t = c # cs" "isdigit c" using assms by (cases t) auto
  have "\<not> isspace c" "c \<noteq> 0x2d" "c \<noteq> 0x2b" using t(2) by (auto simp: isdigit_not_isspace isdigit_def)
  moreover have "\<not> isspace 0x2d" by (simp add: isspace_def)
  ultimately show ?thesis by (cases neg) (simp_all add: t split_sign_def)
qed

text \<open>A text of digits with a point, after an optional minus.\<close>

lemma stod_decimal:
  assumes "ip \<noteq> []" "list_all isdigit ip" "list_all isdigit fp"
  shows "stod ((if neg then [0x2d] else []) @ ip @ 0x2e # fp)
    = Some ((if neg then uminus else id) (double (of_nat (digits_value (ip @ fp)) / 10 ^ length fp)))"
proof -
  let ?t = "ip @ 0x2e # fp"
  have "\<not> isdigit 0x2e" by (simp add: isdigit_def)
  then have whole: "takeWhile isdigit ?t = ip" "dropWhile isdigit ?t = 0x2e # fp"
    using assms(2) by (simp_all add: list_all_iff takeWhile_append2 dropWhile_append2)
  have part: "takeWhile isdigit fp = fp" "dropWhile isdigit fp = []"
    using assms(3) by (simp_all add: list_all_iff)
  have "pow10 (0 - int n) = 1 / 10 ^ n" for n by (cases "n = 0") (simp_all add: pow10_def)
  then have num: "double (of_nat m * pow10 (0 - int n)) = double (of_nat m / 10 ^ n)" for m n by simp
  show ?thesis
    using assms(1) unfolding stod_def skip_sign [OF assms(1,2)] Let_def prod.case whole part list.case
    by (simp add: num [simplified])
qed

lemma stod_digits:
  assumes "t \<noteq> []" "list_all isdigit t"
  shows "stod ((if neg then [0x2d] else []) @ t) = Some ((if neg then uminus else id) (double (of_nat (digits_value t))))"
proof -
  have whole: "takeWhile isdigit t = t" "dropWhile isdigit t = []" using assms(2) by (simp_all add: list_all_iff)
  show ?thesis
    using assms(1) unfolding stod_def skip_sign [OF assms, of neg "[]", unfolded append_Nil2] Let_def prod.case whole list.case
    by (simp add: pow10_def)
qed

lemma digits: "list_all isdigit (to_string n)" "list_all isdigit (replicate n 0x30)"
  using to_string_digits [of n] by (simp_all add: list_all_iff isdigit_def)

lemma to_string_double_fixed: "to_string_double x = fixed_text 6 x"
  by (simp add: to_string_double_def fixed_text_def)

text \<open>What is read back is the decimal number that was written, rounded to a \<open>double\<close>.\<close>

definition decimal :: "nat \<Rightarrow> rat \<Rightarrow> rat" where
  "decimal k x = (if x < 0 then uminus else id) (double (of_int (round_half_even (\<bar>x\<bar> * 10 ^ k)) / 10 ^ k))"

lemma stod_fixed_text:
  assumes "0 < k" shows "stod (fixed_text k x) = Some (decimal k x)"
proof -
  define n where "n = nat (round_half_even (\<bar>x\<bar> * 10 ^ k))"
  let ?fr = "to_string (n mod 10 ^ k)"
  let ?fp = "replicate (k - length ?fr) 0x30 @ ?fr"
  have nonneg: "0 \<le> round_half_even (\<bar>x\<bar> * 10 ^ k)" by (rule round_half_even_ge) simp
  have "length ?fr \<le> k" using assms by (intro to_string_length) simp_all
  then have len: "length ?fp = k" by simp
  have is_fp: "list_all isdigit ?fp" using digits by simp
  have written: "fixed_text k x = (if x < 0 then [0x2d] else []) @ to_string (n div 10 ^ k) @ 0x2e # ?fp"
    by (simp add: fixed_text_def n_def Let_def)
  have "digits_value (to_string (n div 10 ^ k) @ ?fp) = n"
    unfolding digits_value_append len by (simp add: digits_value_append digits_value_zeros digits_value_to_string div_mult_mod_eq)
  moreover have "(of_nat n :: rat) = of_int (round_half_even (\<bar>x\<bar> * 10 ^ k))" using nonneg by (simp add: n_def)
  ultimately show ?thesis
    unfolding written stod_decimal [OF to_string_nonempty digits(1) is_fp] len decimal_def by simp
qed

lemma stod_to_string: "stod (to_string n) = Some (double (of_nat n))"
  using stod_digits [where t = "to_string n" and neg = False] to_string_nonempty [of n] digits(1) [of n] by (simp add: digits_value_to_string)

lemma stod_to_string_int: "stod (to_string_int n) = Some (double (of_int n))"
  using stod_digits [where t = "to_string (nat \<bar>n\<bar>)" and neg = "n < 0"] to_string_nonempty [of "nat \<bar>n\<bar>"] digits(1) [of "nat \<bar>n\<bar>"]
  by (auto simp: to_string_int_def digits_value_to_string double_minus)

section \<open>One type for each name, and no average is lost\<close>

text \<open>The names and their types; those of the temperatures and thresholds end with a source or a channel.\<close>

definition LOG_TYPES :: "(string \<times> log_type) list" where
  "LOG_TYPES =
     map (\<lambda>name. (name, LOG_LATEST)) [''gnssTimeOffset'', ''ubloxCounter'', ''geoHash'', ''antennaStatus'', ''maxTXBufUsage'', ''maxRXBufUsage'',
       ''timeAccuracy'', ''fixStatus'', ''fixStatusString'', ''ubloxUptime'', ''systemUptime'', ''meanGeoHeightMSL'']
     @ map (\<lambda>name. (name, LOG_AVERAGE)) [''positionDOP'', ''timeDOP'', ''rateXOR'', ''rateAND'', ''adcSamplingTime'', ''geoLongitude'', ''geoLatitude'',
       ''geoHeightMSL'', ''geoHorAccuracy'', ''geoVertAccuracy'', ''preampNoise'', ''preampAGC'', ''antennaPower'', ''jammingLevel'', ''sats'',
       ''usedSats'', ''maxCNR'', ''TXBufUsage'', ''RXBufUsage'', ''freqAccuracy'', ''clockDrift'', ''clockBias'', ''systemFreeMem'',
       ''systemFreeSwap'', ''systemLoadAvg'', ''vbias'', ''vsense'', ''ibias'', ''vadc3'', ''vadc4'']
     @ map (\<lambda>name. (name, LOG_EVERY)) [''preampSwitch1'', ''preampSwitch2'', ''polaritySwitch1'', ''polaritySwitch2'', ''gainSwitch'', ''status1'',
       ''status2'', ''status3'', ''biasDAC'', ''biasSwitch'', ''ubxInputSwitch'']
     @ map (\<lambda>name. (name, LOG_ONCE)) [''UBX_SW_Version'', ''UBX_HW_Version'', ''UBX_Prot_Version'', ''uniqueId'', ''systemNrCPUs'', ''calib_vdiv'',
       ''calib_rsense'', ''calib_coeff2'', ''calib_coeff3'', ''maxGeohashLength'', ''softwareVersionString'', ''hardwareVersionString'']"

definition log_type_of :: "byte list \<Rightarrow> log_type" where
  "log_type_of name =
     (if take 12 name = octets ''temperature_'' then LOG_AVERAGE else if take 6 name = octets ''thresh'' then LOG_EVERY
      else case map_of (map (\<lambda>(n, t). (octets n, t)) LOG_TYPES) name of Some t \<Rightarrow> t | None \<Rightarrow> LOG_NEVER)"

definition good_param :: "LogParameter \<Rightarrow> bool" where
  "good_param p \<longleftrightarrow> lp_type p = log_type_of (lp_name p) \<and> lp_type p \<noteq> LOG_ON_CHANGE
     \<and> (lp_type p = LOG_AVERAGE \<longrightarrow> stod (first_token (lp_value p)) \<noteq> None)"

lemma log_type_of_octets:
  "log_type_of (octets n) =
     (if take 12 n = ''temperature_'' then LOG_AVERAGE else if take 6 n = ''thresh'' then LOG_EVERY
      else case map_of LOG_TYPES n of Some t \<Rightarrow> t | None \<Rightarrow> LOG_NEVER)"
proof -
  have "take k (octets n) = octets (take k n)" for k by (simp add: octets_def take_map)
  moreover have "map_of (map (\<lambda>(n, t). (octets n, t)) es) (octets n) = map_of es n" for es :: "(string \<times> log_type) list"
    by (induction es) (auto simp: octets_eq)
  ultimately show ?thesis by (simp add: log_type_of_def octets_eq)
qed

lemma log_types: "list_all (\<lambda>(n, t). log_type_of (octets n) = t \<and> t \<noteq> LOG_ON_CHANGE) LOG_TYPES"
  unfolding log_type_of_octets by code_simp

definition no_space :: "byte list \<Rightarrow> bool" where
  "no_space t \<longleftrightarrow> 0x20 \<notin> set t"

lemma first_token_unit: "no_space t \<Longrightarrow> first_token (in_unit t unit) = t" "no_space t \<Longrightarrow> first_token (t @ octets '' '') = t"
  "no_space t \<Longrightarrow> first_token t = t"
  by (auto simp: first_token_def in_unit_def octets_def no_space_def takeWhile_append takeWhile_eq_all_conv)

lemma no_space_digits: "list_all isdigit t \<Longrightarrow> no_space t"
  by (auto simp: no_space_def list_all_iff isdigit_def)

lemma no_space_texts: "no_space (to_string n)" "no_space (to_string_int i)" "no_space (to_string_double x)"
proof -
  have append: "no_space (xs @ ys) \<longleftrightarrow> no_space xs \<and> no_space ys" for xs ys by (auto simp: no_space_def)
  have cons: "no_space (c # t) \<longleftrightarrow> c \<noteq> 0x20 \<and> no_space t" "no_space []" for c t by (auto simp: no_space_def)
  show "no_space (to_string n)" for n by (rule no_space_digits [OF digits(1)])
  then show "no_space (to_string_int i)" by (simp add: to_string_int_def cons)
  show "no_space (to_string_double x)"
    using no_space_digits [OF digits(1)] no_space_digits [OF digits(2)] by (simp add: to_string_double_def Let_def append cons)
qed

definition numeric :: "byte list \<Rightarrow> bool" where
  "numeric v \<longleftrightarrow> stod (first_token v) \<noteq> None"

lemma numeric_texts:
  "numeric (to_string n)" "numeric (in_unit (to_string n) unit)" "numeric (in_unit (to_string_int i) unit)"
  "numeric (to_string_double x)" "numeric (in_unit (to_string_double x) unit)" "numeric (to_string_double x @ octets '' '')"
  by (simp_all add: numeric_def first_token_unit no_space_texts stod_to_string stod_to_string_int)
    (simp_all add: to_string_double_fixed stod_fixed_text)

lemma good_par: "(name, t) \<in> set LOG_TYPES \<Longrightarrow> (t = LOG_AVERAGE \<Longrightarrow> numeric v) \<Longrightarrow> good_param (par name v t)"
  using log_types by (auto simp: good_param_def par_def numeric_def list_all_iff)

text \<open>Every parameter that is published is of this kind.\<close>

lemma good_thresh: "good_param \<lparr>lp_name = octets ''thresh'' @ n, lp_value = v, lp_updated = False, lp_type = LOG_EVERY\<rparr>"
proof -
  have "take 12 (octets ''thresh'' @ n) \<noteq> octets ''temperature_''" by (cases n) (simp_all add: octets_def)
  then show ?thesis by (simp add: good_param_def log_type_of_def octets_def)
qed

lemma good_temperature:
  "numeric v \<Longrightarrow> good_param \<lparr>lp_name = octets ''temperature_'' @ n, lp_value = v, lp_updated = False, lp_type = LOG_AVERAGE\<rparr>"
  by (simp add: good_param_def log_type_of_def octets_def numeric_def)

lemmas params_defs = time_mark_params_def rate_params_def hw_params_def sat_params_def tx_params_def rx_params_def clock_params_def
  version_params_def

lemma event_params_good: "event_params systime d = Some ps \<Longrightarrow> list_all good_param ps"
proof (induction systime d rule: event_params.induct)
qed (auto simp: params_defs status_params_def Let_def SWITCH_NAMES_def LOG_TYPES_def numeric_texts good_thresh good_temperature
  intro!: good_par split: if_splits list.splits prod.splits option.splits)

fun undefined_event :: "datum \<Rightarrow> bool" where
  "undefined_event (D (Ev_NavStatus e)) \<longleftrightarrow> 6 < unat (nst_gpsFix e)"
| "undefined_event (D (Ev_ADS1115 e)) \<longleftrightarrow> ads_convTime e = None"
| "undefined_event _ \<longleftrightarrow> False"

lemma event_params_undefined: "event_params systime d = None \<longleftrightarrow> undefined_event d"
  by (induction systime d rule: event_params.induct) (auto simp: status_params_def FIX_NAMES_def)

lemma system_params_good: "system_params info = Some ps \<Longrightarrow> list_all good_param ps"
  by (auto simp: system_params_def LOG_TYPES_def numeric_texts intro!: good_par split: if_splits)

lemma bias_params_good: "bias_params v1 v2 items = Some (ps, i) \<Longrightarrow> list_all good_param ps"
  by (auto simp: bias_params_def Let_def LOG_TYPES_def numeric_texts intro!: good_par split: if_splits Option.bind_splits)

fun poll_params :: "poll_output list \<Rightarrow> LogParameter list" where
  "poll_params [] = []"
| "poll_params (Poll_Param p # out) = p # poll_params out"
| "poll_params (_ # out) = poll_params out"

lemma poll_params_append [simp]: "poll_params (xs @ ys) = poll_params xs @ poll_params ys"
  by (induction xs rule: poll_params.induct) simp_all

lemma poll_params_map [simp]: "poll_params (map Poll_Param ps) = ps" "poll_params (map Poll_Pub out) = []"
  by (induction ps, simp_all) (induction out, simp_all)

lemma poll_bias_good:
  assumes "poll_bias v1 v2 items = Some out" shows "list_all good_param (poll_params out)"
proof -
  obtain ps i where ps: "bias_params v1 v2 items = Some (ps, i)" "out = map Poll_Param (butlast ps) @ [Poll_BiasCurrent i, Poll_Param (last ps)]"
    using assms by (auto simp: poll_bias_def)
  then have "ps \<noteq> []" by (auto simp: bias_params_def Let_def split: if_splits Option.bind_splits)
  then have "poll_params out = ps" using ps(2) by simp
  then show ?thesis using bias_params_good [OF ps(1)] by simp
qed

lemma log_poll_good:
  assumes "log_poll info adc s = Some (out, s')" shows "list_all good_param (poll_params out)"
proof -
  obtain system bias complete where out: "(case info of None \<Rightarrow> Some [] | Some info \<Rightarrow> system_params info) = Some system"
      "poll_voltages adc s = Some (bias, complete)"
      "out = map Poll_Param system @ bias @ (if complete then map Poll_Pub (fst (all_histos s)) else [])"
    using assms by (auto simp: log_poll_def Let_def split: Option.bind_splits prod.splits)
  have "list_all good_param system" using out(1) system_params_good by (auto split: option.splits)
  moreover have "list_all good_param (poll_params bias)"
    using out(2) poll_bias_good by (auto simp: poll_voltages_def LOG_TYPES_def numeric_texts intro!: good_par split: option.splits if_splits)
  ultimately show ?thesis using out(3) by simp
qed

section \<open>What is published\<close>

text \<open>
  Everything that makes the processor publish parameters: its subscriptions, the setup, which logs the number of the EEPROM if
  there is a calibration, and a poll.
\<close>

datatype (plugins only:) log_input =
    In_Event int datum
  | In_GeoPosition GeoPosition
  | In_ProtVersion UbxProtVersion
  | In_Setup "u64 option"
  | In_Poll "sysinfo option" "(rat \<times> rat) option" data_store

fun published_params :: "log_input \<Rightarrow> LogParameter list option" where
  "published_params (In_Event systime d) = event_params systime d"
| "published_params (In_GeoPosition p) = geo_params p"
| "published_params (In_ProtVersion v) = Some (prot_version_params v)"
| "published_params (In_Setup serial) = Some (unique_id_params serial)"
| "published_params (In_Poll info adc s) = map_option (\<lambda>(out, _). poll_params out) (log_poll info adc s)"

fun undefined_input :: "log_input \<Rightarrow> bool" where
  "undefined_input (In_Event systime d) \<longleftrightarrow> undefined_event d"
| "undefined_input (In_Poll info adc s) \<longleftrightarrow> log_poll info adc s = None"
| "undefined_input _ \<longleftrightarrow> False"

lemma hash_defined: "hashFromCoordinates lon lat precision \<noteq> None"
proof (cases "-180 \<le> lon \<and> lon \<le> 180 \<and> -90 \<le> lat \<and> lat \<le> 90")
  case True
  have ex: "n \<le> 12 \<Longrightarrow> \<exists>s. geo_loop lon lat n geo_init = Some s" for n
    using geo_loop_inv [OF geo_inv_init, of lon lat n] True by auto
  have "nat (if precision < 0 \<or> precision > 12 then 12 else precision) \<le> 12" by (simp add: nat_le_iff)
  note ex [OF this]
  then show ?thesis by (auto simp: hashFromCoordinates_def Let_def)
qed (auto simp: hashFromCoordinates_def)

lemma geo_params_good: "geo_params p = Some ps \<Longrightarrow> list_all good_param ps"
  by (auto simp: geo_params_def LOG_TYPES_def numeric_texts intro!: good_par)

lemma version_params_good: "list_all good_param (prot_version_params v)" "list_all good_param (unique_id_params serial)"
  by (auto simp: prot_version_params_def unique_id_params_def LOG_TYPES_def intro!: good_par split: option.splits)

text \<open>
  Every name is published with one type only, and no type is ON_CHANGE, so that the parameters are what the log engine asks
  for; and every value that is to be averaged starts with a number. What is published is undefined only where an event says a
  fix that has no name or a conversion time that was never set, or where a poll is.
\<close>

lemma published_good:
  "case published_params i of None \<Rightarrow> undefined_input i | Some ps \<Rightarrow> list_all good_param ps"
proof (cases i)
  case (In_Event systime d)
  then show ?thesis using event_params_undefined event_params_good by (auto split: option.splits)
next
  case (In_GeoPosition p)
  then show ?thesis using geo_params_good [of p] hash_defined by (auto simp: geo_params_def split: option.splits)
next
  case (In_Poll info adc s)
  then show ?thesis using log_poll_good by (auto split: option.splits)
qed (simp_all add: version_params_good)

lemma published_typed:
  assumes "published_params i = Some ps" shows "list_all (typed_op log_type_of) (map (Log_Received ts) ps)"
  using published_good [of i] assms by (auto simp: list_all_iff typed_op_def good_param_def)

end
