(* ===== verification/Mqtt_Sink.thy ===== *)
theory Mqtt_Sink
  imports Messages Text_Io Reference_Run
begin

text \<open>
  The sink that sends to the MQTT broker, \<open>daemon/src/sinks/mqtt_sink.cpp\<close>. The client library is outside: its calls are
  outputs, and what they return are inputs of the operation that makes them, as are the results with which it calls back.
\<close>

section \<open>Texts\<close>

text \<open>\<open><<\<close> of a \<open>timespec\<close>, \<open>library/src/data/custom_io_operators.cpp\<close>, and the line of a time mark.\<close>

definition out_timespec :: "timespec \<Rightarrow> byte list" where
  "out_timespec ts =
     (let nsec = to_string_int (tv_nsec ts) in to_string_int (tv_sec ts) @ octets ''.'' @ replicate (9 - length nsec) 0x30 @ nsec @ octets '' '')"

definition out_bool :: "bool \<Rightarrow> byte list" where
  "out_bool b = to_string (if b then 1 else 0)"

definition time_mark_line :: "UbxTimeMarkStruct \<Rightarrow> byte list" where
  "time_mark_line tm =
     out_timespec (tmk_rising tm) @ out_timespec (tmk_falling tm) @ to_string (unat (tmk_accuracy_ns tm)) @ octets '' ''
       @ to_string (unat (tmk_evtCounter tm)) @ octets '' '' @ out_bool (tmk_valid tm) @ octets '' ''
       @ to_string (unat (tmk_timeBase tm)) @ octets '' '' @ out_bool (tmk_utcAvailable tm)"

section \<open>The sink\<close>

datatype mqtt_status = Invalid | Connected | Disconnected | Connecting | Disconnecting | Error | Inhibited

record mqtt_sink =
  mq_mqtt :: bool
  mq_status :: mqtt_status
  mq_tries :: nat
  mq_topics :: "byte list list"
  mq_station_id :: "byte list"
  mq_username :: "byte list"
  mq_password :: "byte list"
  mq_client_id :: "byte list"
  mq_errors :: nat

text \<open>\<open>MOSQ_ERR_SUCCESS\<close> is 0. A status is published with its text.\<close>

datatype mqtt_output =
    Status_Published mqtt_status "byte list"
  | Mosq_New "byte list"
  | Mosq_Username_Pw_Set "byte list" "byte list"
  | Mosq_Connect_Async
  | Mosq_Disconnect
  | Mosq_Destroy
  | Mosq_Subscribe "byte list"
  | Mosq_Unsubscribe "byte list"
  | Mosq_Publish "byte list" "byte list"

definition s_max_tries :: nat where "s_max_tries = 14"

definition data_topic :: "byte list" where "data_topic = octets ''muonpi/data/''"
definition log_topic :: "byte list" where "log_topic = octets ''muonpi/log/''"

definition mqtt_sink_init :: "byte list \<Rightarrow> mqtt_sink" where
  "mqtt_sink_init station_id = \<lparr>mq_mqtt = False, mq_status = Invalid, mq_tries = 0, mq_topics = [], mq_station_id = station_id,
     mq_username = [], mq_password = [], mq_client_id = [], mq_errors = 0\<rparr>"

definition mq_connected :: "mqtt_sink \<Rightarrow> bool" where
  "mq_connected s \<longleftrightarrow> mq_mqtt s \<and> mq_status s = Connected"

definition mqttDisconnect :: "int \<Rightarrow> mqtt_sink \<Rightarrow> mqtt_output list \<times> mqtt_sink" where
  "mqttDisconnect result s =
     (if mq_mqtt s \<and> mq_status s = Connected
      then (let status = (if result = 0 then Disconnected else Invalid)
            in ([Status_Published Disconnecting [], Mosq_Disconnect, Status_Published status []], s\<lparr>mq_status := status\<rparr>))
      else ([], s))"

definition mq_cleanup :: "int \<Rightarrow> mqtt_sink \<Rightarrow> mqtt_output list \<times> mqtt_sink" where
  "mq_cleanup result s =
     (let (out, s) = (if mq_connected s then mqttDisconnect result s else ([], s))
      in if mq_mqtt s then (out @ [Mosq_Destroy], s\<lparr>mq_mqtt := False\<rparr>) else (out, s))"

text \<open>
  The first argument is whether \<open>mosquitto_new\<close> returns a client. The code does not ask and goes on without one, too: it is
  assumed that the library returns from calls without a client.
\<close>

definition mq_initialise :: "bool \<Rightarrow> int \<Rightarrow> byte list \<Rightarrow> mqtt_sink \<Rightarrow> mqtt_output list \<times> mqtt_sink" where
  "mq_initialise created result client_id s =
     (let (out, s) = (if mq_mqtt s then mq_cleanup result s else ([], s))
      in (out @ [Mosq_New client_id], s\<lparr>mq_mqtt := created\<rparr>))"

text \<open>The results are those of making a client, of a disconnection, of setting the credentials and of connecting.\<close>

definition mqttConnect :: "bool \<Rightarrow> int \<Rightarrow> int \<Rightarrow> int \<Rightarrow> mqtt_sink \<Rightarrow> mqtt_output list \<times> mqtt_sink" where
  "mqttConnect created disc creds conn s =
     (if mq_connected s then ([], s)
      else (let (out, s) = (if \<not> mq_mqtt s then mq_initialise created disc (mq_client_id s) s else ([], s));
                s = s\<lparr>mq_status := Connecting\<rparr>;
                out = out @ [Status_Published Connecting [], Mosq_Username_Pw_Set (mq_username s) (mq_password s)]
            in if creds \<noteq> 0 then (out, s\<lparr>mq_status := Error\<rparr>)
               else (out @ [Mosq_Connect_Async], if conn \<noteq> 0 then s\<lparr>mq_status := Error\<rparr> else s)))"

definition mq_start :: "bool \<Rightarrow> bool \<Rightarrow> int \<Rightarrow> int \<Rightarrow> int \<Rightarrow> byte list \<Rightarrow> byte list \<Rightarrow> mqtt_sink \<Rightarrow> mqtt_output list \<times> mqtt_sink" where
  "mq_start created created' disc creds conn username password s =
     (let s = s\<lparr>mq_username := username, mq_password := password, mq_client_id := username @ octets ''_'' @ mq_station_id s\<rparr>;
          (out, s) = mq_initialise created disc (mq_client_id s) s;
          (out', s) = mqttConnect created' disc creds conn s
      in (out @ out', s))"

definition callback_connected :: "int \<Rightarrow> mqtt_sink \<Rightarrow> mqtt_output list \<times> mqtt_sink" where
  "callback_connected result s =
     (if result = 0 then ([Status_Published Connected (octets ''Connected to MQTT.'')], s\<lparr>mq_status := Connected, mq_tries := 0\<rparr>)
      else (let failed = (\<lambda>reason. [Status_Published Error (octets ''MQTT connection failed: '' @ octets reason)]);
                out = (if result = 1 then failed ''Wrong protocol version'' else if result = 2 then failed ''Credentials rejected''
                       else if result = 3 then failed ''Broker unavailable'' else if 3 < result then failed ''Other reason'' else []);
                out' = (if mq_tries s < s_max_tries then [] else [Status_Published Error (octets ''Too many retries.'')]);
                tries = (if mq_tries s < s_max_tries then mq_tries s + 1 else mq_tries s)
            in (out @ out' @ [Status_Published Connecting (octets ''Connecting to MQTT...'')], s\<lparr>mq_status := Connecting, mq_tries := tries\<rparr>)))"

definition callback_disconnected :: "int \<Rightarrow> mqtt_sink \<Rightarrow> mqtt_output list \<times> mqtt_sink" where
  "callback_disconnected result s =
     (if result \<noteq> 0
      then (if mq_connected s
            then ([Status_Published Error (octets ''MQTT disconnected unexpectedly: '' @ to_string_int result)], s\<lparr>mq_status := Error\<rparr>)
            else ([], s))
      else ([Status_Published Disconnected (octets ''MQTT disconnected.'')], s\<lparr>mq_status := Disconnected\<rparr>))"

definition mq_setInhibited :: "bool \<Rightarrow> mqtt_sink \<Rightarrow> mqtt_output list \<times> mqtt_sink" where
  "mq_setInhibited inhibited s =
     (if inhibited
      then (if mq_status s = Connected then ([Status_Published Inhibited []], s\<lparr>mq_status := Inhibited\<rparr>) else ([], s))
      else ([Status_Published Invalid []], s\<lparr>mq_status := Invalid\<rparr>))"

definition mq_subscribe :: "byte list \<Rightarrow> mqtt_sink \<Rightarrow> mqtt_output list \<times> mqtt_sink" where
  "mq_subscribe topic s =
     (if \<not> mq_connected s then ([], s) else ([Mosq_Subscribe topic], s\<lparr>mq_topics := mq_topics s @ [topic]\<rparr>))"

definition mq_unsubscribe :: "byte list \<Rightarrow> mqtt_sink \<Rightarrow> mqtt_output list \<times> mqtt_sink" where
  "mq_unsubscribe topic s =
     (if \<not> mq_connected s then ([], s) else ([Mosq_Unsubscribe topic], s\<lparr>mq_topics := remove1 topic (mq_topics s)\<rparr>))"

definition mq_publish :: "int \<Rightarrow> byte list \<Rightarrow> byte list \<Rightarrow> mqtt_sink \<Rightarrow> mqtt_output list \<times> mqtt_sink" where
  "mq_publish result topic content s =
     (if \<not> mq_connected s then ([], s)
      else ([Mosq_Publish (topic @ mq_username s @ octets ''/'' @ mq_station_id s) content],
            s\<lparr>mq_errors := if result = 0 then 0 else mq_errors s + 1\<rparr>))"

definition requestConnectionStatus :: "mqtt_sink \<Rightarrow> mqtt_output list" where
  "requestConnectionStatus s =
     (let number = (case mq_status s of Invalid \<Rightarrow> 0 | Connected \<Rightarrow> 1 | Disconnected \<Rightarrow> 2 | Connecting \<Rightarrow> 3 | Disconnecting \<Rightarrow> 4 | Error \<Rightarrow> 5 | Inhibited \<Rightarrow> 6)
      in [Status_Published (mq_status s) (octets ''connection status = '' @ to_string number)])"

section \<open>Histories\<close>

text \<open>What is called from outside: the start, the handlers of the bus, the callbacks of the library while there is a client, and the end.\<close>

datatype mqtt_op =
    Mq_Start bool bool int int int "byte list" "byte list"
  | Mq_Time_Mark int UbxTimeMarkStruct
  | Mq_Log int "byte list"
  | Mq_On_Connect int
  | Mq_On_Disconnect int
  | Mq_Shutdown int

fun mqtt_step :: "mqtt_op \<Rightarrow> mqtt_sink \<Rightarrow> mqtt_output list \<times> mqtt_sink" where
  "mqtt_step (Mq_Start created created' disc creds conn username password) s = mq_start created created' disc creds conn username password s"
| "mqtt_step (Mq_Time_Mark result tm) s = mq_publish result data_topic (time_mark_line tm) s"
| "mqtt_step (Mq_Log result msg) s = mq_publish result log_topic msg s"
| "mqtt_step (Mq_On_Connect result) s = (if mq_mqtt s then callback_connected result s else ([], s))"
| "mqtt_step (Mq_On_Disconnect result) s = (if mq_mqtt s then callback_disconnected result s else ([], s))"
| "mqtt_step (Mq_Shutdown result) s = mq_cleanup result s"

definition mqtt_run :: "mqtt_op list \<Rightarrow> mqtt_sink \<Rightarrow> mqtt_output list list \<times> mqtt_sink" where
  "mqtt_run = run_ops mqtt_step"

text \<open>
  The reference: who is logged in, after a start with a name for which the library made a client and until the end, and whether the broker is reached, from the callback of a
  connection until that of a disconnection or a failed connection.
\<close>

fun ref_session :: "mqtt_op list \<Rightarrow> (byte list \<times> bool) option" where
  "ref_session [] = None"
| "ref_session (op # past) =
     (case op of
        Mq_Start created created' _ _ _ username _ \<Rightarrow> if created \<or> created' then Some (username, False) else None
      | Mq_On_Connect result \<Rightarrow> map_option (\<lambda>(u, _). (u, result = 0)) (ref_session past)
      | Mq_On_Disconnect _ \<Rightarrow> map_option (\<lambda>(u, _). (u, False)) (ref_session past)
      | Mq_Shutdown _ \<Rightarrow> None
      | _ \<Rightarrow> ref_session past)"

fun ref_messages :: "byte list \<Rightarrow> mqtt_op list \<Rightarrow> mqtt_op \<Rightarrow> (byte list \<times> byte list) list" where
  "ref_messages station past (Mq_Time_Mark _ tm) =
     (case ref_session past of Some (u, True) \<Rightarrow> [(data_topic @ u @ octets ''/'' @ station, time_mark_line tm)] | _ \<Rightarrow> [])"
| "ref_messages station past (Mq_Log _ msg) =
     (case ref_session past of Some (u, True) \<Rightarrow> [(log_topic @ u @ octets ''/'' @ station, msg)] | _ \<Rightarrow> [])"
| "ref_messages station past _ = []"

fun messages :: "mqtt_output list \<Rightarrow> (byte list \<times> byte list) list" where
  "messages [] = []"
| "messages (Mosq_Publish topic content # out) = (topic, content) # messages out"
| "messages (_ # out) = messages out"

lemma messages_append [simp]: "messages (xs @ ys) = messages xs @ messages ys"
  by (induction xs rule: messages.induct) simp_all

definition in_session :: "byte list \<Rightarrow> mqtt_op list \<Rightarrow> mqtt_sink \<Rightarrow> bool" where
  "in_session station past s \<longleftrightarrow> mq_station_id s = station \<and>
     (case ref_session past of None \<Rightarrow> \<not> mq_mqtt s \<and> mq_status s \<noteq> Connected
      | Some (u, online) \<Rightarrow> mq_mqtt s \<and> mq_username s = u \<and> (mq_status s = Connected \<longleftrightarrow> online))"

lemma mqttDisconnect_effect:
  "mqttDisconnect r s = (out, s') \<Longrightarrow> messages out = [] \<and> mq_mqtt s' = mq_mqtt s \<and> mq_station_id s' = mq_station_id s
    \<and> mq_username s' = mq_username s \<and> mq_client_id s' = mq_client_id s \<and> (mq_mqtt s \<longrightarrow> mq_status s' \<noteq> Connected)"
  by (auto simp: mqttDisconnect_def Let_def split: if_splits)

lemma cleanup_effect:
  assumes "mq_cleanup r s = (out, s')" and "mq_mqtt s \<or> mq_status s \<noteq> Connected"
  shows "messages out = [] \<and> \<not> mq_mqtt s' \<and> mq_station_id s' = mq_station_id s
    \<and> mq_username s' = mq_username s \<and> mq_client_id s' = mq_client_id s \<and> mq_status s' \<noteq> Connected"
  using assms mqttDisconnect_effect [of r s]
  by (auto simp: mq_cleanup_def mq_connected_def Let_def split: if_splits prod.splits)

lemma start_effect:
  assumes "mq_start created created' disc creds conn username password s = (out, s')" and "mq_mqtt s \<or> mq_status s \<noteq> Connected"
  shows "messages out = [] \<and> (mq_mqtt s' \<longleftrightarrow> created \<or> created') \<and> mq_station_id s' = mq_station_id s \<and> mq_username s' = username
    \<and> mq_status s' \<noteq> Connected"
proof -
  let ?s = "s\<lparr>mq_username := username, mq_password := password, mq_client_id := username @ octets ''_'' @ mq_station_id s\<rparr>"
  obtain out1 s1 where one: "mq_initialise created disc (mq_client_id ?s) ?s = (out1, s1)" by fastforce
  have ready: "messages out1 = [] \<and> mq_mqtt s1 = created \<and> mq_station_id s1 = mq_station_id s \<and> mq_username s1 = username
      \<and> mq_status s1 \<noteq> Connected"
    using one assms(2) cleanup_effect [of disc ?s] by (auto simp: mq_initialise_def Let_def split: if_splits prod.splits)
  obtain out2 where two: "mqttConnect created' disc creds conn s1 = (out2, s')" "out = out1 @ out2"
    using assms(1) one by (auto simp: mq_start_def Let_def split: prod.splits)
  show ?thesis using ready two by (auto simp: mqttConnect_def mq_initialise_def mq_connected_def Let_def split: if_splits)
qed

lemma publish_effect:
  "in_session station past s \<Longrightarrow> messages (fst (mq_publish r topic content s)) =
      (case ref_session past of Some (u, True) \<Rightarrow> [(topic @ u @ octets ''/'' @ station, content)] | _ \<Rightarrow> [])
    \<and> in_session station past (snd (mq_publish r topic content s))"
  by (auto simp: in_session_def mq_publish_def mq_connected_def split: option.splits bool.splits)

lemma session_step:
  assumes "in_session station past s"
  shows "messages (fst (mqtt_step op s)) = ref_messages station past op \<and> in_session station (op # past) (snd (mqtt_step op s))"
proof (cases op)
  case (Mq_Start created created' disc creds conn username password)
  obtain out s' where r: "mq_start created created' disc creds conn username password s = (out, s')" by fastforce
  have "mq_mqtt s \<or> mq_status s \<noteq> Connected" using assms by (auto simp: in_session_def split: option.splits)
  from start_effect [OF r this] show ?thesis using assms by (simp add: Mq_Start r in_session_def)
next
  case (Mq_Time_Mark r tm)
  then show ?thesis using publish_effect [OF assms] by (simp add: in_session_def)
next
  case (Mq_Log r msg)
  then show ?thesis using publish_effect [OF assms] by (simp add: in_session_def)
next
  case (Mq_On_Connect r)
  then show ?thesis using assms by (auto simp: in_session_def callback_connected_def Let_def split: option.splits if_splits)
next
  case (Mq_On_Disconnect r)
  then show ?thesis using assms by (auto simp: in_session_def callback_disconnected_def mq_connected_def split: option.splits if_splits)
next
  case (Mq_Shutdown r)
  obtain out s' where c: "mq_cleanup r s = (out, s')" by fastforce
  have "mq_mqtt s \<or> mq_status s \<noteq> Connected" using assms by (auto simp: in_session_def split: option.splits)
  from cleanup_effect [OF c this] show ?thesis using assms by (simp add: Mq_Shutdown c in_session_def)
qed

interpretation mqtt: reference_run mqtt_step "\<lambda>op. True" "\<lambda>past. in_session station (rev past)" messages
    "\<lambda>past op. ref_messages station (rev past) op" for station
  by unfold_locales (use session_step in auto)


text \<open>Taking back an inhibition does not restore the connection: nothing is sent until the broker calls back again.\<close>

lemma uninhibit_disconnected: "\<not> mq_connected (snd (mq_setInhibited False s))"
  by (simp add: mq_setInhibited_def mq_connected_def)

end
