(* ===== verification/File_Sink.thy ===== *)
theory File_Sink
  imports Mqtt_Sink "HOL-Library.AList" "HOL-Library.Sublist"
begin

text \<open>
  The sink that writes data and log files, \<open>daemon/src/sinks/file_sink.cpp\<close>. The disk is a list of regular files by
  path; what may be opened or removed is an argument, as are the clock, read once for an operation, and the text of the time that names
  new files. What is written is on the disk at once. Directories exist; a path does not contain a line break.
\<close>

section \<open>The disk\<close>

record disk_file =
  f_content :: "byte list"
  f_mtime :: int

type_synonym path = "byte list"
type_synonym disk = "(path \<times> disk_file) list"

text \<open>Nanoseconds of the system clock, the text of that time, and what the file system permits.\<close>

record file_env =
  fe_now :: int
  fe_stamp :: "byte list"
  fe_can_open :: "path \<Rightarrow> bool"
  fe_can_remove :: "path \<Rightarrow> bool"

definition ns_per_s :: int where "ns_per_s = 1000000000"
definition ns_per_day :: int where "ns_per_day = 86400 * ns_per_s"

definition file_size :: "path \<Rightarrow> disk \<Rightarrow> nat option" where
  "file_size p d = map_option (\<lambda>f. length (f_content f)) (map_of d p)"

text \<open>Opening to append and to replace, writing to an open file, removing.\<close>

definition open_append :: "file_env \<Rightarrow> path \<Rightarrow> disk \<Rightarrow> path option \<times> disk" where
  "open_append env p d =
     (if \<not> fe_can_open env p then (None, d)
      else (Some p, if map_of d p = None then AList.update p \<lparr>f_content = [], f_mtime = fe_now env\<rparr> d else d))"

definition write_file :: "file_env \<Rightarrow> path \<Rightarrow> byte list \<Rightarrow> disk \<Rightarrow> disk" where
  "write_file env p text d =
     (case map_of d p of None \<Rightarrow> d
      | Some f \<Rightarrow> AList.update p \<lparr>f_content = f_content f @ text, f_mtime = fe_now env\<rparr> d)"

definition replace_file :: "file_env \<Rightarrow> path \<Rightarrow> byte list \<Rightarrow> disk \<Rightarrow> disk" where
  "replace_file env p text d = AList.update p \<lparr>f_content = text, f_mtime = fe_now env\<rparr> d"

section \<open>Paths\<close>

definition DATA_FOLDER :: path where "DATA_FOLDER = octets ''/var/muondetector//data/''"
definition CONFIG_FILE :: path where "CONFIG_FILE = octets ''/var/muondetector//currentWorkingFileInformation.conf''"

definition file_name :: "path \<Rightarrow> byte list" where
  "file_name p = rev (takeWhile (\<lambda>c. c \<noteq> 0x2f) (rev p))"

text \<open>\<open>extension\<close>: from the last point on, which is not the first character.\<close>

definition extension :: "byte list \<Rightarrow> byte list" where
  "extension name =
     (let e = rev (takeWhile (\<lambda>c. c \<noteq> 0x2e) (rev name))
      in if length e + 1 < length name then 0x2e # e else [])"

text \<open>\<open><<\<close> of a path quotes it.\<close>

definition quoted :: "path \<Rightarrow> byte list" where
  "quoted p = 0x22 # concat (map (\<lambda>c. if c = 0x22 \<or> c = 0x5c then [0x5c, c] else [c]) p) @ [0x22]"

fun get_line :: "byte list \<Rightarrow> (byte list \<times> byte list) option" where
  "get_line [] = None"
| "get_line text = Some (takeWhile (\<lambda>c. c \<noteq> 0x0a) text, drop 1 (dropWhile (\<lambda>c. c \<noteq> 0x0a) text))"

section \<open>The sink\<close>

record file_sink =
  fk_disk :: disk
  fk_data :: "path option"
  fk_log :: "path option"
  fk_dataPath :: path
  fk_logPath :: path
  fk_names :: "byte list list"
  fk_sizeMB :: u32
  fk_next :: int
  fk_period :: int

definition dailyUploadTime :: int where "dailyUploadTime = ((11 * 60 + 11) * 60 + 11) * ns_per_s"

definition generateNextDailyTime :: "int \<Rightarrow> int \<Rightarrow> int" where
  "generateNextDailyTime now offset =
     (let candidate = now div ns_per_day * ns_per_day + offset in if candidate \<le> now then candidate + ns_per_day else candidate)"

definition currentLogAge :: "file_env \<Rightarrow> file_sink \<Rightarrow> int" where
  "currentLogAge env s =
     (if fk_data s = None then - 1
      else case map_of (fk_disk s) CONFIG_FILE of None \<Rightarrow> - 1 | Some f \<Rightarrow> (fe_now env - f_mtime f) sdiv ns_per_s)"

definition getStatus :: "file_sink \<Rightarrow> u8" where
  "getStatus s =
     (if map_of (fk_disk s) (fk_dataPath s) = None \<or> fk_data s = None \<or> map_of (fk_disk s) (fk_logPath s) = None \<or> fk_log s = None
      then 0 else 1)"

definition size_of :: "path \<Rightarrow> disk \<Rightarrow> u32" where
  "size_of p d = (case file_size p d of None \<Rightarrow> 0 | Some n \<Rightarrow> word_of_nat n)"

definition getInfo :: "file_env \<Rightarrow> file_sink \<Rightarrow> LogInfoStruct" where
  "getInfo env s =
     \<lparr>log_logFileName = fk_logPath s, log_dataFileName = fk_dataPath s, log_status = getStatus s,
      log_logFileSize = size_of (fk_logPath s) (fk_disk s), log_dataFileSize = size_of (fk_dataPath s) (fk_disk s),
      log_logAge = currentLogAge env s, log_logRotationDuration = fk_period s, log_logEnabled = True\<rparr>"

definition makeBasePaths :: "file_env \<Rightarrow> path \<times> path" where
  "makeBasePaths env =
     (let name = fe_stamp env @ octets ''.dat''
      in (DATA_FOLDER @ octets ''data_'' @ name, DATA_FOLDER @ octets ''log_'' @ name))"

text \<open>A free pair of paths: the base, or the base with a number; the last number is taken unseen.\<close>

fun resolve_from :: "path \<Rightarrow> path \<Rightarrow> nat list \<Rightarrow> path \<times> path \<Rightarrow> disk \<Rightarrow> path \<times> path" where
  "resolve_from baseData baseLog [] (data, lg) d = (data, lg)"
| "resolve_from baseData baseLog (i # is) (data, lg) d =
     (if map_of d data = None \<and> map_of d lg = None then (data, lg)
      else resolve_from baseData baseLog is (baseData @ 0x2e # to_string i, baseLog @ 0x2e # to_string i) d)"

definition resolveUniquePaths :: "path \<times> path \<Rightarrow> disk \<Rightarrow> path \<times> path" where
  "resolveUniquePaths base d = resolve_from (fst base) (snd base) [0..<1000] base d"

definition DATA_HEADER :: "byte list" where
  "DATA_HEADER = octets ''#unix_timestamp_rising(s) unix_timestamp_trailing(s) time_accuracy(ns) valid timebase(0=gps,2=utc) utc_available'' @ [0x0a]"

definition LOG_HEADER :: "byte list" where
  "LOG_HEADER = octets ''#time<YYYY-MM-DD_hh-mm-ss> parname value unit'' @ [0x0a]"

definition closeFiles :: "file_sink \<Rightarrow> file_sink" where
  "closeFiles s = s\<lparr>fk_data := None, fk_log := None\<rparr>"

text \<open>Where one of the files does not open the other stays open, and nothing is published.\<close>

definition openFilesAtPaths :: "file_env \<Rightarrow> bool \<Rightarrow> file_sink \<Rightarrow> LogInfoStruct list \<times> file_sink" where
  "openFilesAtPaths env writeHeader s =
     (let (data, d) = open_append env (fk_dataPath s) (fk_disk s);
          (lg, d) = open_append env (fk_logPath s) d;
          s = s\<lparr>fk_data := data, fk_log := lg, fk_disk := d\<rparr>
      in if data = None \<or> lg = None then ([], s)
         else let d = (if writeHeader then write_file env (the lg) LOG_HEADER (write_file env (the data) DATA_HEADER d) else d);
                  s = s\<lparr>fk_disk := d\<rparr>
              in ([getInfo env s], s))"

definition writeConfigFile :: "file_env \<Rightarrow> file_sink \<Rightarrow> file_sink" where
  "writeConfigFile env s =
     (if fe_can_open env CONFIG_FILE
      then s\<lparr>fk_disk := replace_file env CONFIG_FILE (quoted (fk_dataPath s) @ 0x0a # quoted (fk_logPath s) @ [0x0a]) (fk_disk s)\<rparr>
      else s)"

definition data_names :: "disk \<Rightarrow> byte list list" where
  "data_names d = map file_name (filter (\<lambda>p. p = DATA_FOLDER @ file_name p \<and> extension (file_name p) = octets ''.dat'') (map fst d))"

definition readConfigFile :: "file_env \<Rightarrow> file_sink \<Rightarrow> file_sink" where
  "readConfigFile env s =
     (let s = s\<lparr>fk_names := data_names (fk_disk s)\<rparr>
      in case map_of (fk_disk s) CONFIG_FILE of None \<Rightarrow> s
        | Some f \<Rightarrow>
            if \<not> fe_can_open env CONFIG_FILE then s
            else (case get_line (f_content f) of None \<Rightarrow> s
                  | Some (line, rest) \<Rightarrow>
                      (let s = s\<lparr>fk_dataPath := line\<rparr>
                       in case get_line rest of None \<Rightarrow> s | Some (line, _) \<Rightarrow> s\<lparr>fk_logPath := line\<rparr>)))"

text \<open>After a removal failed nothing more is removed.\<close>

fun remove_files :: "file_env \<Rightarrow> int \<Rightarrow> path list \<Rightarrow> byte list list \<Rightarrow> bool \<Rightarrow> disk \<Rightarrow> bool \<times> disk" where
  "remove_files env period keep [] ok d = (ok, d)"
| "remove_files env period keep (name # names) ok d =
     (let p = DATA_FOLDER @ name
      in case map_of d p of None \<Rightarrow> remove_files env period keep names ok d
        | Some f \<Rightarrow>
            if p \<in> set keep \<or> (fe_now env - f_mtime f) sdiv ns_per_s \<le> period then remove_files env period keep names ok d
            else if ok \<and> fe_can_remove env p then remove_files env period keep names True (AList.delete p d)
            else remove_files env period keep names False d)"

definition removeOldFiles :: "file_env \<Rightarrow> file_sink \<Rightarrow> file_sink" where
  "removeOldFiles env s =
     s\<lparr>fk_disk := snd (remove_files env (fk_period s) [fk_dataPath s, fk_logPath s] (fk_names s) True (fk_disk s))\<rparr>"

definition take_paths :: "file_env \<Rightarrow> file_sink \<Rightarrow> file_sink" where
  "take_paths env s =
     (let (data, lg) = resolveUniquePaths (makeBasePaths env) (fk_disk s) in s\<lparr>fk_dataPath := data, fk_logPath := lg\<rparr>)"

definition openFiles :: "file_env \<Rightarrow> file_sink \<Rightarrow> LogInfoStruct list \<times> file_sink" where
  "openFiles env s = openFilesAtPaths env False (closeFiles (writeConfigFile env (take_paths env (readConfigFile env s))))"

definition rotateFiles :: "file_env \<Rightarrow> file_sink \<Rightarrow> LogInfoStruct list \<times> file_sink" where
  "rotateFiles env s =
     (let s = take_paths env (removeOldFiles env (readConfigFile env (closeFiles s)));
          s = s\<lparr>fk_next := generateNextDailyTime (fe_now env) dailyUploadTime\<rparr>
      in openFilesAtPaths env True (closeFiles (writeConfigFile env s)))"

definition file_sink_start :: "file_env \<Rightarrow> u32 \<Rightarrow> disk \<Rightarrow> LogInfoStruct list \<times> file_sink" where
  "file_sink_start env sizeMB d =
     openFiles env \<lparr>fk_disk = d, fk_data = None, fk_log = None, fk_dataPath = [], fk_logPath = [], fk_names = [], fk_sizeMB = sizeMB,
       fk_next = generateNextDailyTime (fe_now env) dailyUploadTime, fk_period = 7 * 24 * 3600\<rparr>"

text \<open>The limit is computed in 32 bits.\<close>

definition rotate_if_large :: "file_env \<Rightarrow> path \<Rightarrow> file_sink \<Rightarrow> LogInfoStruct list \<times> file_sink" where
  "rotate_if_large env p s =
     (case file_size p (fk_disk s) of None \<Rightarrow> ([], s)
      | Some n \<Rightarrow> if unat (1024 * 1024 * fk_sizeMB s) < n then rotateFiles env s else ([], s))"

definition onRotationRemind :: "file_env \<Rightarrow> file_sink \<Rightarrow> LogInfoStruct list \<times> file_sink" where
  "onRotationRemind env s =
     (let (out, s) = rotate_if_large env (fk_dataPath s) s;
          (out', s) = rotate_if_large env (fk_logPath s) s;
          (out'', s) = (if fe_now env < fk_next s then ([getInfo env s], s) else rotateFiles env s)
      in (out @ out' @ out'', s))"

definition write_stream :: "file_env \<Rightarrow> path option \<Rightarrow> byte list \<Rightarrow> file_sink \<Rightarrow> LogInfoStruct list \<times> file_sink" where
  "write_stream env stream line s =
     (case stream of None \<Rightarrow> ([], s)
      | Some p \<Rightarrow> (let s = s\<lparr>fk_disk := write_file env p (line @ [0x0a]) (fk_disk s)\<rparr> in ([getInfo env s], s)))"

definition writeToDataFile :: "file_env \<Rightarrow> byte list \<Rightarrow> file_sink \<Rightarrow> LogInfoStruct list \<times> file_sink" where
  "writeToDataFile env line s = write_stream env (fk_data s) line s"

definition writeToLogFile :: "file_env \<Rightarrow> byte list \<Rightarrow> file_sink \<Rightarrow> LogInfoStruct list \<times> file_sink" where
  "writeToLogFile env line s = write_stream env (fk_log s) line s"

definition setLogRotationPeriod :: "int \<Rightarrow> file_sink \<Rightarrow> file_sink" where
  "setLogRotationPeriod period s = s\<lparr>fk_period := period\<rparr>"

datatype file_op = File_Data UbxTimeMarkStruct | File_Log "byte list" | File_Remind | File_Period int

fun file_step :: "file_env \<Rightarrow> file_op \<Rightarrow> file_sink \<Rightarrow> LogInfoStruct list \<times> file_sink" where
  "file_step env (File_Data tm) s = writeToDataFile env (time_mark_line tm) s"
| "file_step env (File_Log msg) s = writeToLogFile env msg s"
| "file_step env File_Remind s = onRotationRemind env s"
| "file_step env (File_Period period) s = ([], setLogRotationPeriod period s)"

fun file_run :: "(file_env \<times> file_op) list \<Rightarrow> file_sink \<Rightarrow> file_sink" where
  "file_run [] s = s"
| "file_run ((env, op) # ops) s = file_run ops (snd (file_step env op s))"

section \<open>What becomes of a file\<close>

text \<open>
  What an operation may do to a file: append to it, or remove it, after which the name is free. Only a file of the data
  folder that ends in .dat is removed, and one that was not written for longer than the period.
\<close>

definition removable :: "file_env \<Rightarrow> int \<Rightarrow> path \<Rightarrow> disk_file \<Rightarrow> bool" where
  "removable env period p f \<longleftrightarrow> p = DATA_FOLDER @ file_name p \<and> extension (file_name p) = octets ''.dat''
     \<and> (period < (fe_now env - f_mtime f) sdiv ns_per_s \<or> period < 0)"

definition kept :: "file_env \<Rightarrow> int \<Rightarrow> path \<Rightarrow> disk \<Rightarrow> disk \<Rightarrow> bool" where
  "kept env period p d d' \<longleftrightarrow>
     (case map_of d p of None \<Rightarrow> True
      | Some f \<Rightarrow> removable env period p f \<or>
          (case map_of d' p of None \<Rightarrow> False
           | Some f' \<Rightarrow> prefix (f_content f) (f_content f') \<and> (f_mtime f' = f_mtime f \<or> f_mtime f' = fe_now env)))"

lemma kept_refl [simp]: "kept env period p d d"
  by (simp add: kept_def split: option.split)

lemma kept_trans: "kept env period p d d' \<Longrightarrow> kept env period p d' d'' \<Longrightarrow> kept env period p d d''"
  by (auto simp: kept_def removable_def split: option.splits dest: prefix_order.trans)

lemma kept_write [simp]: "kept env period p d (write_file env q text d)"
  by (auto simp: kept_def write_file_def update_conv' split: option.split)

lemma kept_open: "open_append env q d = (stream, d') \<Longrightarrow> kept env period p d d'"
  by (auto simp: kept_def open_append_def update_conv' split: option.splits if_splits)

lemma kept_replace: "p \<noteq> q \<Longrightarrow> kept env period p d (replace_file env q text d)"
  by (auto simp: kept_def replace_file_def update_conv' split: option.split)

lemma kept_delete: "(q = p \<Longrightarrow> \<exists>f. map_of d p = Some f \<and> removable env period p f) \<Longrightarrow> kept env period p d (AList.delete q d)"
  by (auto simp: kept_def delete_conv' split: option.split)

lemma file_name_folder: "name \<in> set (data_names d) \<Longrightarrow> file_name (DATA_FOLDER @ name) = name \<and> extension name = octets ''.dat''"
  by (force simp: data_names_def)

lemma kept_remove_files:
  "set names \<subseteq> set (data_names d0) \<Longrightarrow> kept env period p d (snd (remove_files env period keep names ok d))"
proof (induction names arbitrary: ok d)
  case (Cons name names)
  have name: "file_name (DATA_FOLDER @ name) = name" "extension name = octets ''.dat''"
    using Cons.prems file_name_folder by auto
  have "kept env period p d (AList.delete (DATA_FOLDER @ name) d)"
    if "map_of d (DATA_FOLDER @ name) = Some f" "period < (fe_now env - f_mtime f) sdiv ns_per_s" for f
    using that name by (intro kept_delete) (auto simp: removable_def)
  then show ?case
    using Cons by (auto simp: Let_def split: option.split intro: kept_trans)
qed simp

lemma kept_open_files:
  assumes "openFilesAtPaths env writeHeader s = (out, s')"
  shows "kept env period p (fk_disk s) (fk_disk s') \<and> fk_period s' = fk_period s \<and> fk_dataPath s' = fk_dataPath s \<and> fk_logPath s' = fk_logPath s
    \<and> fk_data s' \<in> {None, Some (fk_dataPath s)} \<and> fk_log s' \<in> {None, Some (fk_logPath s)}"
proof -
  obtain data d1 lg d2 where o: "open_append env (fk_dataPath s) (fk_disk s) = (data, d1)" "open_append env (fk_logPath s) d1 = (lg, d2)"
    by fastforce
  have streams: "data \<in> {None, Some (fk_dataPath s)}" "lg \<in> {None, Some (fk_logPath s)}"
    using o by (auto simp: open_append_def split: if_splits)
  have "kept env period p (fk_disk s) d2" using kept_open [OF o(1)] kept_open [OF o(2)] kept_trans by blast
  moreover have "kept env period p d2 (write_file env q t (write_file env r u d2))" for q r t u
    by (rule kept_trans [OF kept_write kept_write])
  ultimately have "kept env period p (fk_disk s) (write_file env q t (write_file env r u d2))" for q r t u
    using kept_trans by blast
  then show ?thesis
    using assms o streams \<open>kept env period p (fk_disk s) d2\<close> by (auto simp: openFilesAtPaths_def Let_def split: if_splits)
qed

lemma read_config: "fk_disk (readConfigFile env s) = fk_disk s \<and> fk_period (readConfigFile env s) = fk_period s
    \<and> fk_names (readConfigFile env s) = data_names (fk_disk s) \<and> fk_data (readConfigFile env s) = fk_data s \<and> fk_log (readConfigFile env s) = fk_log s"
  by (simp add: readConfigFile_def Let_def split: option.split prod.split)

definition sink_ok :: "file_sink \<Rightarrow> bool" where
  "sink_ok s \<longleftrightarrow>
     take (length DATA_FOLDER) (fk_dataPath s) = DATA_FOLDER \<and> take (length DATA_FOLDER) (fk_logPath s) = DATA_FOLDER
   \<and> (case fk_data s of None \<Rightarrow> True | Some p \<Rightarrow> p = fk_dataPath s \<and> map_of (fk_disk s) p \<noteq> None)
   \<and> (case fk_log s of None \<Rightarrow> True | Some p \<Rightarrow> p = fk_logPath s \<and> map_of (fk_disk s) p \<noteq> None)"

lemma resolve_from_folder:
  assumes "take n baseData = folder" "take n baseLog = folder" "length folder = n" "take n (fst cur) = folder" "take n (snd cur) = folder"
    "resolve_from baseData baseLog is cur d = (data, lg)"
  shows "take n data = folder \<and> take n lg = folder"
  using assms(4-)
proof (induction "is" arbitrary: cur)
  case (Cons i "is")
  have "n \<le> length baseData" "n \<le> length baseLog" using assms(1-3) by (metis length_take min.absorb_iff2)+
  then have "take n (baseData @ x) = folder" "take n (baseLog @ x) = folder" for x using assms(1,2) by simp_all
  then show ?case
    using Cons.prems Cons.IH [of "(baseData @ 0x2e # to_string i, baseLog @ 0x2e # to_string i)"]
    by (cases cur) (simp split: if_splits)
qed auto

lemma take_paths_folder:
  "take (length DATA_FOLDER) (fk_dataPath (take_paths env s)) = DATA_FOLDER \<and> take (length DATA_FOLDER) (fk_logPath (take_paths env s)) = DATA_FOLDER"
proof -
  obtain data lg where r: "resolveUniquePaths (makeBasePaths env) (fk_disk s) = (data, lg)" by fastforce
  have "take (length DATA_FOLDER) data = DATA_FOLDER \<and> take (length DATA_FOLDER) lg = DATA_FOLDER"
    by (rule resolve_from_folder [OF _ _ refl _ _ r [unfolded resolveUniquePaths_def]]) (simp_all add: makeBasePaths_def Let_def)
  then show ?thesis by (simp add: take_paths_def r)
qed

lemma open_append_exists: "open_append env q d = (Some r, d') \<Longrightarrow> r = q \<and> map_of d' q \<noteq> None"
  "open_append env q d = (stream, d') \<Longrightarrow> map_of d p \<noteq> None \<Longrightarrow> map_of d' p \<noteq> None"
  by (auto simp: open_append_def update_conv' split: if_splits)

lemma write_file_exists [simp]: "map_of (write_file env q t d) p = None \<longleftrightarrow> map_of d p = None"
  by (auto simp: write_file_def update_conv' split: option.split)

lemma write_file_Some [simp]: "(\<exists>f. map_of (write_file env q t d) p = Some f) \<longleftrightarrow> (\<exists>f. map_of d p = Some f)"
  using write_file_exists [of env q t d p] by (simp only: not_None_eq [symmetric])

lemma open_files_ok:
  assumes "take (length DATA_FOLDER) (fk_dataPath s) = DATA_FOLDER" "take (length DATA_FOLDER) (fk_logPath s) = DATA_FOLDER"
    and "openFilesAtPaths env writeHeader s = (out, s')"
  shows "sink_ok s'"
proof -
  obtain data d1 lg d2 where o: "open_append env (fk_dataPath s) (fk_disk s) = (data, d1)" "open_append env (fk_logPath s) d1 = (lg, d2)"
    by fastforce
  have "data = Some q \<Longrightarrow> q = fk_dataPath s \<and> map_of d2 q \<noteq> None" "lg = Some q \<Longrightarrow> q = fk_logPath s \<and> map_of d2 q \<noteq> None" for q
    using o open_append_exists by fastforce+
  then show ?thesis
    using assms o by (auto simp: openFilesAtPaths_def sink_ok_def Let_def split: if_splits option.splits)
qed

lemma kept_config: "p \<noteq> CONFIG_FILE \<Longrightarrow> kept env period p (fk_disk s) (fk_disk (writeConfigFile env s))"
  by (simp add: writeConfigFile_def kept_replace)

lemma write_config_same: "fk_period (writeConfigFile env s) = fk_period s \<and> fk_dataPath (writeConfigFile env s) = fk_dataPath s
    \<and> fk_logPath (writeConfigFile env s) = fk_logPath s \<and> fk_next (writeConfigFile env s) = fk_next s"
  by (simp add: writeConfigFile_def)

lemma take_paths_same: "fk_disk (take_paths env s) = fk_disk s \<and> fk_period (take_paths env s) = fk_period s"
  by (simp add: take_paths_def split: prod.split)

lemma next_daily: "0 \<le> offset \<Longrightarrow> offset < ns_per_day \<Longrightarrow> now < generateNextDailyTime now offset \<and> generateNextDailyTime now offset \<le> now + ns_per_day"
  by (auto simp: generateNextDailyTime_def Let_def ns_per_day_def ns_per_s_def)

lemma rotate_files:
  assumes "rotateFiles env s = (out, s')"
  shows "sink_ok s' \<and> fk_period s' = fk_period s \<and> fe_now env < fk_next s'
    \<and> (p = CONFIG_FILE \<or> kept env (fk_period s) p (fk_disk s) (fk_disk s'))"
proof -
  define s1 where "s1 = removeOldFiles env (readConfigFile env (closeFiles s))"
  define s2 where "s2 = (take_paths env s1)\<lparr>fk_next := generateNextDailyTime (fe_now env) dailyUploadTime\<rparr>"
  define s3 where "s3 = closeFiles (writeConfigFile env s2)"
  have o: "openFilesAtPaths env True s3 = (out, s')"
    using assms by (simp add: rotateFiles_def s1_def s2_def s3_def Let_def)
  have period: "fk_period s1 = fk_period s" "fk_period s3 = fk_period s"
    using read_config [of env "closeFiles s"] take_paths_same [of env s1] write_config_same [of env s2]
    by (simp_all add: s1_def s2_def s3_def removeOldFiles_def closeFiles_def)
  have "fe_now env < fk_next s3"
    using next_daily [of dailyUploadTime "fe_now env"] write_config_same [of env s2]
    by (simp add: s3_def s2_def closeFiles_def dailyUploadTime_def ns_per_day_def ns_per_s_def)
  then have time: "fe_now env < fk_next s'"
    using o by (auto simp: openFilesAtPaths_def Let_def split: prod.splits if_splits)
  have ok: "sink_ok s'"
    by (rule open_files_ok [OF _ _ o]) (use take_paths_folder [of env s1] write_config_same [of env s2] in
      \<open>simp_all add: s2_def s3_def closeFiles_def\<close>)
  have removed: "kept env (fk_period s) p (fk_disk s) (fk_disk s1)"
    using read_config [of env "closeFiles s"] kept_remove_files [of _ "fk_disk s" env "fk_period s" p "fk_disk s"]
    by (simp add: s1_def removeOldFiles_def closeFiles_def)
  have "kept env (fk_period s) p (fk_disk s) (fk_disk s')" if "p \<noteq> CONFIG_FILE"
  proof -
    have "kept env (fk_period s) p (fk_disk s1) (fk_disk s3)"
      using kept_config [OF that, of env "fk_period s" s2] take_paths_same [of env s1] by (simp add: s3_def s2_def closeFiles_def)
    moreover have "kept env (fk_period s) p (fk_disk s3) (fk_disk s')" using kept_open_files [OF o] by blast
    ultimately show ?thesis using removed kept_trans by blast
  qed
  then show ?thesis using ok time period kept_open_files [OF o] by auto
qed

lemma rotate_if_large_keeps:
  assumes "rotate_if_large env q s = (out, s')" "sink_ok s"
  shows "sink_ok s' \<and> fk_period s' = fk_period s \<and> (p = CONFIG_FILE \<or> kept env (fk_period s) p (fk_disk s) (fk_disk s'))"
  using assms rotate_files [of env s] by (auto simp: rotate_if_large_def split: option.splits if_splits)

lemma remind:
  assumes "onRotationRemind env s = (out, s')" "sink_ok s"
  shows "sink_ok s' \<and> fe_now env < fk_next s' \<and> (p = CONFIG_FILE \<or> kept env (fk_period s) p (fk_disk s) (fk_disk s'))"
proof -
  obtain o1 s1 o2 s2 where r: "rotate_if_large env (fk_dataPath s) s = (o1, s1)" "rotate_if_large env (fk_logPath s1) s1 = (o2, s2)"
    by fastforce
  note one = rotate_if_large_keeps [OF r(1) assms(2), of p]
  note two = rotate_if_large_keeps [OF r(2), of p]
  have ok: "sink_ok s2" "fk_period s2 = fk_period s" "p = CONFIG_FILE \<or> kept env (fk_period s) p (fk_disk s) (fk_disk s2)"
    using one two kept_trans by auto
  show ?thesis
  proof (cases "fe_now env < fk_next s2")
    case True
    then show ?thesis using assms(1) ok by (auto simp: onRotationRemind_def r)
  next
    case False
    then obtain o3 where "rotateFiles env s2 = (o3, s')" using assms(1) by (auto simp: onRotationRemind_def r split: prod.splits)
    from rotate_files [OF this, of p] show ?thesis using ok kept_trans by auto
  qed
qed

lemma write_stream_appends:
  assumes "write_stream env stream line s = (out, s')" "sink_ok s" "stream = fk_data s \<or> stream = fk_log s"
  shows "sink_ok s' \<and> map_option f_content (map_of (fk_disk s') p)
    = map_option (\<lambda>f. f_content f @ (if stream = Some p then line @ [0x0a] else [])) (map_of (fk_disk s) p)"
proof (cases stream)
  case None
  then show ?thesis using assms by (cases "map_of (fk_disk s) p") (auto simp: write_stream_def)
next
  case (Some q)
  have s': "s' = s\<lparr>fk_disk := write_file env q (line @ [0x0a]) (fk_disk s)\<rparr>"
    using assms(1) Some by (auto simp: write_stream_def Let_def)
  have "sink_ok s'" using assms(2) by (auto simp: s' sink_ok_def split: option.splits)
  then show ?thesis
    using Some by (auto simp: s' write_file_def update_conv' split: option.split)
qed

lemmas remind_effect = remind [OF prod.collapse [symmetric]]
lemmas write_effect = write_stream_appends [OF prod.collapse [symmetric]]

lemma step_ok: "sink_ok s \<Longrightarrow> sink_ok (snd (file_step env op s))"
proof (cases op)
  case (File_Period period)
  moreover assume "sink_ok s"
  ultimately show ?thesis by (cases "fk_data s"; cases "fk_log s") (simp_all add: setLogRotationPeriod_def sink_ok_def)
qed (use remind_effect write_effect in \<open>auto simp: writeToDataFile_def writeToLogFile_def\<close>)

lemma run_ok: "sink_ok s \<Longrightarrow> sink_ok (file_run ops s)"
  by (induction ops arbitrary: s) (auto simp: step_ok)

lemma start_ok: "sink_ok (snd (file_sink_start env sizeMB d))"
proof -
  let ?s0 = "\<lparr>fk_disk = d, fk_data = None, fk_log = None, fk_dataPath = [], fk_logPath = [], fk_names = [], fk_sizeMB = sizeMB,
       fk_next = generateNextDailyTime (fe_now env) dailyUploadTime, fk_period = 7 * 24 * 3600\<rparr>"
  let ?s1 = "take_paths env (readConfigFile env ?s0)"
  let ?s2 = "closeFiles (writeConfigFile env ?s1)"
  obtain out s' where o: "openFilesAtPaths env False ?s2 = (out, s')" by fastforce
  have "sink_ok s'"
    by (rule open_files_ok [OF _ _ o]) (use take_paths_folder [of env "readConfigFile env ?s0"] write_config_same [of env ?s1] in
      \<open>simp_all add: closeFiles_def\<close>)
  then show ?thesis unfolding file_sink_start_def openFiles_def o snd_conv .
qed

text \<open>Where every file can be opened both streams are open from the start on.\<close>

definition streams_open :: "file_sink \<Rightarrow> bool" where
  "streams_open s \<longleftrightarrow> fk_data s \<noteq> None \<and> fk_log s \<noteq> None"

definition can_open_all :: "file_env \<Rightarrow> bool" where
  "can_open_all env \<longleftrightarrow> (\<forall>p. fe_can_open env p)"

lemma open_files_open: "can_open_all env \<Longrightarrow> streams_open (snd (openFilesAtPaths env writeHeader s))"
  by (simp add: can_open_all_def streams_open_def openFilesAtPaths_def open_append_def Let_def)

lemma rotate_open: "can_open_all env \<Longrightarrow> streams_open (snd (rotateFiles env s))"
  by (simp add: rotateFiles_def Let_def open_files_open)

lemma rotate_if_large_open: "can_open_all env \<Longrightarrow> streams_open s \<Longrightarrow> streams_open (snd (rotate_if_large env p s))"
  by (simp add: rotate_if_large_def rotate_open split: option.split)

lemma remind_open: "can_open_all env \<Longrightarrow> streams_open s \<Longrightarrow> streams_open (snd (onRotationRemind env s))"
  by (simp add: onRotationRemind_def rotate_if_large_open rotate_open split: prod.split)
    (metis rotate_if_large_open rotate_open snd_conv)

lemma step_open: "can_open_all env \<Longrightarrow> streams_open s \<Longrightarrow> streams_open (snd (file_step env op s))"
proof (cases op)
  case File_Remind
  then show "can_open_all env \<Longrightarrow> streams_open s \<Longrightarrow> ?thesis" by (simp add: remind_open)
qed (simp_all add: writeToDataFile_def writeToLogFile_def write_stream_def setLogRotationPeriod_def streams_open_def
    Let_def split: option.split)

lemma run_open: "list_all (\<lambda>(env, op). can_open_all env) ops \<Longrightarrow> streams_open s \<Longrightarrow> streams_open (file_run ops s)"
  by (induction ops arbitrary: s) (auto simp: step_open)

lemma start_open: "can_open_all env \<Longrightarrow> streams_open (snd (file_sink_start env sizeMB d))"
  by (simp add: file_sink_start_def openFiles_def open_files_open)

text \<open>
  C38: What the sink does to the files. Whatever it has written and rotated before, on any disk and whatever can be opened: while the stream
  of its kind is open, a line that is handed over is appended, with a line break, to that file, which exists and is the current
  one, and no other file changes; while it is closed the line is dropped and no file changes. Where every
  file could be opened whenever it was tried, both streams are open, so that no line is dropped. A reminder leaves every file as it is
  or appended to, but the list of the current paths, which it replaces, and removes at most files of the data folder that end
  in .dat and were not written for longer than the period (where the period is negative, any of them); after it the time of
  the next rotation lies ahead.
\<close>

theorem records_kept:
  "let s = file_run ops (snd (file_sink_start env0 sizeMB d)); s' = snd (file_step env op s);
       appended = (\<lambda>stream line. map_option f_content (map_of (fk_disk s') p)
         = map_option (\<lambda>f. f_content f @ (if stream = Some p then line @ [0x0a] else [])) (map_of (fk_disk s) p))
   in (case fk_data s of None \<Rightarrow> True | Some q \<Rightarrow> q = fk_dataPath s \<and> map_of (fk_disk s) q \<noteq> None)
    \<and> (case fk_log s of None \<Rightarrow> True | Some q \<Rightarrow> q = fk_logPath s \<and> map_of (fk_disk s) q \<noteq> None)
    \<and> (if can_open_all env0 \<and> list_all (\<lambda>(env, op). can_open_all env) ops then fk_data s \<noteq> None \<and> fk_log s \<noteq> None else True)
    \<and> (case op of
        File_Data tm \<Rightarrow> appended (fk_data s) (time_mark_line tm)
      | File_Log msg \<Rightarrow> appended (fk_log s) msg
      | File_Period _ \<Rightarrow> fk_disk s' = fk_disk s
      | File_Remind \<Rightarrow> fe_now env < fk_next s' \<and> (p = CONFIG_FILE \<or> kept env (fk_period s) p (fk_disk s) (fk_disk s')))"
proof -
  define s where "s = file_run ops (snd (file_sink_start env0 sizeMB d))"
  have ok: "sink_ok s" unfolding s_def by (rule run_ok [OF start_ok])
  have streams: "(case fk_data s of None \<Rightarrow> True | Some q \<Rightarrow> q = fk_dataPath s \<and> map_of (fk_disk s) q \<noteq> None)"
      "(case fk_log s of None \<Rightarrow> True | Some q \<Rightarrow> q = fk_logPath s \<and> map_of (fk_disk s) q \<noteq> None)"
    using ok by (simp_all add: sink_ok_def)
  have "if can_open_all env0 \<and> list_all (\<lambda>(env, op). can_open_all env) ops then fk_data s \<noteq> None \<and> fk_log s \<noteq> None else True"
    using run_open [OF _ start_open] by (simp add: s_def streams_open_def)
  then show ?thesis
    unfolding s_def [symmetric] Let_def
    using streams write_effect [OF ok, where p = p] remind_effect [OF ok, of env p]
    by (cases op) (simp_all add: writeToDataFile_def writeToLogFile_def setLogRotationPeriod_def)
qed

text \<open>Files that got a number are never removed: they do not end in .dat.\<close>

lemma numbered_not_removable:
  assumes "file_name p = name @ octets ''.dat.'' @ to_string i" shows "\<not> removable env period p f"
proof -
  have "0x2e \<notin> set (to_string i)" using to_string_digits [of i] by (auto simp: isdigit_def)
  then have "takeWhile (\<lambda>c. c \<noteq> 0x2e) (rev (to_string i) @ 0x2e # x) = rev (to_string i)" for x
    by (subst takeWhile_append2) auto
  then have "extension (file_name p) = 0x2e # to_string i"
    by (simp add: assms extension_def octets_def Let_def)
  moreover have "octets ''.dat'' \<noteq> 0x2e # to_string i"
  proof
    assume "octets ''.dat'' = 0x2e # to_string i"
    then have "of_char CHR ''d'' \<in> set (to_string i)" by (simp add: octets_def) (metis list.set_intros(1))
    then show False using to_string_digits [of i] by (auto simp: isdigit_def)
  qed
  ultimately show ?thesis by (auto simp: removable_def)
qed

end
