(* ===== verification/Temp_Sensors.thy ===== *)
theory Temp_Sensors
  imports I2c_Device Ieee_Double Messages
begin

text \<open>
  The temperature sensors: classes \<open>LM75\<close> and \<open>MIC184\<close> (\<open>daemon/src/hardware/i2c/lm75.cpp\<close>, \<open>mic184.cpp\<close>), which have
  the same four registers, and \<open>TempSource\<close> (\<open>daemon/src/sources/temp_source.cpp\<close>), which publishes what they read.
  A MIC184 is told from an LM75 by an alarm provoked on purpose, so its registers are overwritten and restored.
  Waiting is a parameter, a function on the state of the bus; the output for debugging is left out.
\<close>

definition REG_TEMP :: u8 where "REG_TEMP = 0x00"
definition REG_CONF :: u8 where "REG_CONF = 0x01"
definition REG_THYST :: u8 where "REG_THYST = 0x02"
definition REG_TOS :: u8 where "REG_TOS = 0x03"

text \<open>An \<open>LM75\<close> with the last value its base class keeps, and a \<open>MIC184\<close>, which has one member more.\<close>

record 'd lm75 = "'d i2cDevice" +
  lm_fLastRawValue :: int
  lm_fLastTemp :: rat

record 'd mic184 = "'d lm75" +
  mi_fExternal :: bool

section \<open>LM75\<close>

definition lm_readRaw :: "'d i2c_bus \<Rightarrow> ('d, 'x) lm75_scheme \<Rightarrow> (int \<times> ('d, 'x) lm75_scheme) option" where
  "lm_readRaw bus s = do {
     (ok, dataword, s) \<leftarrow> readWord bus REG_TEMP s;
     if \<not> ok then Some (- 32768, s)
     else (let val = sint (hd dataword) in Some (val, s\<lparr>lm_fLastRawValue := val\<rparr>))
   }"

definition lm_getTemperature :: "'d i2c_bus \<Rightarrow> ('d, 'x) lm75_scheme \<Rightarrow> (rat \<times> ('d, 'x) lm75_scheme) option" where
  "lm_getTemperature bus s = do {
     (dataword, s) \<leftarrow> lm_readRaw bus s;
     let temp = float (of_int (dataword div 256));
     let temp = float (double (temp + double (float (of_int (dataword mod 256)) / 256)));
     Some (temp, s\<lparr>lm_fLastTemp := temp\<rparr>)
   }"

definition lm_identify :: "'d i2c_bus \<Rightarrow> ('d, 'x) lm75_scheme \<Rightarrow> (bool \<times> ('d, 'x) lm75_scheme) option" where
  "lm_identify bus s =
     (if iv_mode s = MODE_FAILED then Some (False, s)
      else let (present, s) = devicePresent bus s in
        if \<not> present then Some (False, s)
        else do {
          (ok, dataword, s) \<leftarrow> readWord bus REG_TEMP s;
          if \<not> ok \<or> hd dataword AND 0x1f \<noteq> 0 then Some (False, s) else do {
          (ok, conf_reg, s) \<leftarrow> readByte bus REG_CONF s;
          if \<not> ok \<or> drop_bit 5 (hd conf_reg) \<noteq> 0 then Some (False, s) else do {
          (ok, dataword, s) \<leftarrow> readWord bus REG_THYST s;
          if \<not> ok \<or> hd dataword AND 0x7f \<noteq> 0 then Some (False, s) else do {
          (ok, dataword, s) \<leftarrow> readWord bus REG_TOS s;
          if \<not> ok \<or> hd dataword AND 0x7f \<noteq> 0 then Some (False, s) else Some (True, s)}}}})"

section \<open>MIC184\<close>

definition mic_readRaw :: "'d i2c_bus \<Rightarrow> ('d, 'x) mic184_scheme \<Rightarrow> (int \<times> ('d, 'x) mic184_scheme) option" where
  "mic_readRaw bus s = do {
     (ok, dataword, s) \<leftarrow> readWord bus REG_TEMP s;
     if \<not> ok then Some (- 32768, s)
     else (let val = sint (hd dataword) in Some (val, s\<lparr>lm_fLastRawValue := val\<rparr>))
   }"

definition mic_getTemperature :: "'d i2c_bus \<Rightarrow> ('d, 'x) mic184_scheme \<Rightarrow> (rat \<times> ('d, 'x) mic184_scheme) option" where
  "mic_getTemperature bus s = do {
     (dataword, s) \<leftarrow> mic_readRaw bus s;
     let temp = float (of_int (dataword div 256));
     let temp = float (double (temp + double (float (of_int (dataword mod 256)) / 256)));
     Some (temp, s\<lparr>lm_fLastTemp := temp\<rparr>)
   }"

text \<open>Setting both limits, the second only after the first was written.\<close>

definition write_limits :: "'d i2c_bus \<Rightarrow> u16 \<Rightarrow> ('d, 'x) i2cDevice_scheme \<Rightarrow> (bool \<times> ('d, 'x) i2cDevice_scheme) option" where
  "write_limits bus dataword s = do {
     (ok, s) \<leftarrow> writeWord bus REG_THYST dataword s;
     if ok then writeWord bus REG_TOS dataword s else Some (False, s)
   }"

definition sleep_for :: "(nat \<Rightarrow> 'd \<Rightarrow> 'd) \<Rightarrow> nat \<Rightarrow> ('d, 'x) i2cDevice_scheme \<Rightarrow> ('d, 'x) i2cDevice_scheme" where
  "sleep_for wait ms s = s\<lparr>iv_bus := wait ms (iv_bus s)\<rparr>"

text \<open>Restoring the limits, whatever comes of it.\<close>

definition restore_limits :: "'d i2c_bus \<Rightarrow> u16 \<Rightarrow> u16 \<Rightarrow> ('d, 'x) i2cDevice_scheme \<Rightarrow> ('d, 'x) i2cDevice_scheme option" where
  "restore_limits bus thyst tos s = do {
     (_, s) \<leftarrow> writeWord bus REG_THYST thyst s;
     (_, s) \<leftarrow> writeWord bus REG_TOS tos s;
     Some s
   }"

text \<open>What follows the tests an LM75 passes too, with the contents to restore.\<close>

definition mic_provoke :: "'d i2c_bus \<Rightarrow> (nat \<Rightarrow> 'd \<Rightarrow> 'd) \<Rightarrow> u8 \<Rightarrow> u16 \<Rightarrow> u16 \<Rightarrow> ('d, 'x) mic184_scheme
    \<Rightarrow> (bool \<times> ('d, 'x) mic184_scheme) option" where
  "mic_provoke bus wait conf_reg_save thyst_save tos_save s =
     (let (ok, s) = writeByte bus REG_CONF 0x02 s in
      if \<not> ok then Some (False, s) else do {
      (ok, s) \<leftarrow> write_limits bus 0xc880 s;
      if \<not> ok then Some (False, s) else do {
      (ok, conf_reg, s) \<leftarrow> readByte bus REG_CONF (sleep_for wait 160 s);
      if \<not> ok then Some (False, s)
      else if hd conf_reg AND 0x80 = 0 then do {
        s \<leftarrow> restore_limits bus thyst_save tos_save s;
        Some (False, snd (writeByte bus REG_CONF conf_reg_save s))
      }
      else do {
      (ok, s) \<leftarrow> write_limits bus 0x7f80 s;
      if \<not> ok then Some (False, s) else do {
      (ok, _, s) \<leftarrow> readByte bus REG_CONF (sleep_for wait 160 s);
      if \<not> ok then Some (False, s) else do {
      s \<leftarrow> restore_limits bus thyst_save tos_save s;
      let (ok, s) = writeByte bus REG_CONF conf_reg_save s;
      if ok then Some (True, s\<lparr>mi_fExternal := conf_reg_save AND 0x20 \<noteq> 0\<rparr>) else Some (False, s)}}}}})"

definition mic_identify :: "'d i2c_bus \<Rightarrow> (nat \<Rightarrow> 'd \<Rightarrow> 'd) \<Rightarrow> ('d, 'x) mic184_scheme
    \<Rightarrow> (bool \<times> ('d, 'x) mic184_scheme) option" where
  "mic_identify bus wait s =
     (if iv_mode s = MODE_FAILED then Some (False, s)
      else let (present, s) = devicePresent bus s in
        if \<not> present then Some (False, s)
        else do {
          (ok, dataword, s) \<leftarrow> readWord bus REG_TEMP s;
          if \<not> ok \<or> hd dataword AND 0x1f \<noteq> 0 then Some (False, s) else do {
          (ok, conf_reg_save, s) \<leftarrow> readByte bus REG_CONF s;
          if \<not> ok \<or> hd conf_reg_save AND 0x40 \<noteq> 0 then Some (False, s) else do {
          (ok, thyst_save, s) \<leftarrow> readWord bus REG_THYST s;
          if \<not> ok then Some (False, s) else do {
          (ok, tos_save, s) \<leftarrow> readWord bus REG_TOS s;
          if \<not> ok then Some (False, s)
          else if hd thyst_save AND 0x7f \<noteq> 0 \<or> hd tos_save AND 0x7f \<noteq> 0 then Some (False, s)
          else mic_provoke bus wait (hd conf_reg_save) (hd thyst_save) (hd tos_save) s}}}})"

definition setExternal :: "'d i2c_bus \<Rightarrow> (nat \<Rightarrow> 'd \<Rightarrow> 'd) \<Rightarrow> bool \<Rightarrow> ('d, 'x) mic184_scheme
    \<Rightarrow> (bool \<times> ('d, 'x) mic184_scheme) option" where
  "setExternal bus wait enable_external s = do {
     (ok, conf_reg, s) \<leftarrow> readByte bus REG_CONF s;
     if \<not> ok then Some (False, s) else do {
     let conf_reg_save = hd conf_reg;
     let (ok, s) = writeByte bus REG_CONF (hd conf_reg AND NOT 0x40) s;
     if \<not> ok then Some (False, s) else do {
     (ok, _, s) \<leftarrow> readByte bus REG_CONF s;
     if \<not> ok then Some (False, s) else do {
     let conf_reg_save = (if enable_external then conf_reg_save OR 0x20 else conf_reg_save AND NOT 0x20);
     let (ok, s) = writeByte bus REG_CONF conf_reg_save s;
     if \<not> ok then Some (False, s) else do {
     (ok, conf_reg, s) \<leftarrow> readByte bus REG_CONF s;
     if \<not> ok \<or> hd conf_reg AND 0x20 \<noteq> conf_reg_save AND 0x20 then Some (False, s)
     else (let s = sleep_for wait 160 (s\<lparr>mi_fExternal := enable_external\<rparr>)
           in Some (True, if mi_fExternal s then sleep_for wait 160 s else s))}}}}
   }"

section \<open>The source\<close>

text \<open>The device the registry has under the source's name, an \<open>LM75\<close> before a \<open>MIC184\<close>.\<close>

record 'd temp_registry =
  tg_lm75 :: "'d lm75 option"
  tg_mic184 :: "'d mic184 option"

definition temp_update :: "'d i2c_bus \<Rightarrow> byte list \<Rightarrow> 'd temp_registry \<Rightarrow> (event list \<times> 'd temp_registry) option" where
  "temp_update bus name r =
     (case tg_lm75 r of
        Some device \<Rightarrow> do {
          (t, device) \<leftarrow> lm_getTemperature bus device;
          Some ([Ev_Temperature \<lparr>tev_source = name, tev_temperature = t\<rparr>], r\<lparr>tg_lm75 := Some device\<rparr>)
        }
      | None \<Rightarrow>
          (case tg_mic184 r of
             Some device \<Rightarrow> do {
               (t, device) \<leftarrow> mic_getTemperature bus device;
               Some ([Ev_Temperature \<lparr>tev_source = name, tev_temperature = t\<rparr>], r\<lparr>tg_mic184 := Some device\<rparr>)
             }
           | None \<Rightarrow> Some ([], r)))"

section \<open>What the readings mean\<close>

lemma quarter_sum: "of_int (n div 256) + of_int (n mod 256) / 256 = (of_int n / 256 :: rat)"
proof -
  have "of_int n = (of_int (256 * (n div 256) + n mod 256) :: rat)" by simp
  then show ?thesis by (simp only: of_int_add of_int_mult) simp
qed

text \<open>A number of 256ths that fits in 16 bits is a \<open>float\<close> and a \<open>double\<close>.\<close>

lemma rnd_256th: "\<bar>n\<bar> < 2 ^ 17 \<Longrightarrow> 24 \<le> p \<Longrightarrow> rnd p (of_int n / 256) = of_int n / 256"
proof (rule rnd_exact [where m = n and e = "- 8"])
  assume n: "\<bar>n\<bar> < 2 ^ 17" and p: "24 \<le> p"
  have "\<bar>of_int n / 256 :: rat\<bar> < pow2 16" using n by (simp add: pow2_def abs_divide)
  also have "\<dots> \<le> pow2 (- 8 + int p)" by (rule pow2_mono) (use p in simp)
  finally show "\<bar>of_int n / 256 :: rat\<bar> < pow2 (- 8 + int p)" .
qed (simp add: pow2_def)

lemma float_256th [simp]: "\<bar>n\<bar> < 2 ^ 17 \<Longrightarrow> float (of_int n / 256) = of_int n / 256"
  and double_256th [simp]: "\<bar>n\<bar> < 2 ^ 17 \<Longrightarrow> double (of_int n / 256) = of_int n / 256"
  by (simp_all add: float_def double_def rnd_256th)

lemma temperature_exact:
  assumes "- 32768 \<le> n" and "n < 32768"
  shows "float (double (float (of_int (n div 256)) + double (float (of_int (n mod 256)) / 256))) = of_int n / 256"
proof -
  have d: "- 128 \<le> n div 256" "n div 256 < 128" "0 \<le> n mod 256" "n mod 256 < 256" using assms by auto
  have "float (of_int (n div 256)) = of_int (n div 256)" "float (of_int (n mod 256)) = of_int (n mod 256)"
    using d by (simp_all add: float_def rnd_of_int)
  moreover have "double (of_int (n mod 256) / 256) = of_int (n mod 256) / 256" using d by simp
  ultimately show ?thesis using assms by (simp add: quarter_sum)
qed
section \<open>The chips\<close>

text \<open>
  What the data sheets promise of a sensor at \<open>address\<close>: a configuration and two limits that can be written and
  read back, and a temperature whose five lowest bits are zero; everything is acknowledged. The top bit of the
  configuration is not stored but shows the \<open>status\<close>; after an alarm was provoked and a conversion time has passed,
  it is set on a MIC184 (\<open>mic\<close>) and never on an LM75.
\<close>

record temp_regs =
  tr_conf :: byte
  tr_thyst :: u16
  tr_tos :: u16

definition PROVOKED :: temp_regs where
  "PROVOKED = \<lparr>tr_conf = 0x02, tr_thyst = 0xc880, tr_tos = 0xc880\<rparr>"

definition temp_chip :: "'d i2c_bus \<Rightarrow> u8 \<Rightarrow> (nat \<Rightarrow> 'd \<Rightarrow> 'd) \<Rightarrow> ('d \<Rightarrow> temp_regs) \<Rightarrow> ('d \<Rightarrow> bool) \<Rightarrow> bool \<Rightarrow> bool" where
  "temp_chip bus address wait regs status mic \<longleftrightarrow>
     (\<forall>d. fst (sys_read bus address 1 d) = 1 \<and> regs (snd (snd (sys_read bus address 1 d))) = regs d) \<and>
     (\<forall>d. \<exists>w d'. sys_rdwr bus address [REG_TEMP] 2 d = (Some (words_octets [w]), d') \<and> w AND 0x1f = 0 \<and> regs d' = regs d) \<and>
     (\<forall>d. \<exists>d'. sys_rdwr bus address [REG_CONF] 1 d
        = (Some [tr_conf (regs d) OR (if status d then 0x80 else 0)], d') \<and> regs d' = regs d) \<and>
     (\<forall>d. \<exists>d'. sys_rdwr bus address [REG_THYST] 2 d = (Some (words_octets [tr_thyst (regs d)]), d') \<and> regs d' = regs d) \<and>
     (\<forall>d. \<exists>d'. sys_rdwr bus address [REG_TOS] 2 d = (Some (words_octets [tr_tos (regs d)]), d') \<and> regs d' = regs d) \<and>
     (\<forall>d c. \<exists>d'. sys_write bus address [REG_CONF, c] d = (2, d') \<and> regs d' = (regs d)\<lparr>tr_conf := c AND 0x7f\<rparr>) \<and>
     (\<forall>d w. \<exists>d'. sys_write bus address (REG_THYST # words_octets [w]) d = (3, d') \<and> regs d' = (regs d)\<lparr>tr_thyst := w\<rparr>) \<and>
     (\<forall>d w. \<exists>d'. sys_write bus address (REG_TOS # words_octets [w]) d = (3, d') \<and> regs d' = (regs d)\<lparr>tr_tos := w\<rparr>) \<and>
     (\<forall>d ms. regs (wait ms d) = regs d) \<and>
     (\<forall>d. regs d = PROVOKED \<longrightarrow> status (wait 160 d) = mic) \<and>
     (\<forall>d. tr_conf (regs d) AND 0x80 = 0)"

text \<open>An object that may use the bus, with the registers \<open>r\<close> in its chip.\<close>

definition holds :: "u8 \<Rightarrow> ('d \<Rightarrow> temp_regs) \<Rightarrow> temp_regs \<Rightarrow> ('d, 'x) i2cDevice_scheme \<Rightarrow> bool" where
  "holds address regs r s \<longleftrightarrow> ready s \<and> iv_address s = address \<and> regs (iv_bus s) = r"

lemma readWord_ok:
  assumes "ready s" and "sys_rdwr bus (iv_address s) [reg] 2 (iv_bus s) = (Some (words_octets [w]), d)"
  shows "readWord bus reg s = Some (True, [w], s\<lparr>iv_bus := d\<rparr>)"
  using readBytes_loop_ok [OF assms, of fNrRetries]
  by (simp add: readWord_def readWords_def words_result_def to_int16_def)

lemma readByte_ok:
  assumes "ready s" and "sys_rdwr bus (iv_address s) [reg] 1 (iv_bus s) = (Some b, d)"
  shows "readByte bus reg s = Some (True, b, s\<lparr>iv_bus := d\<rparr>)"
  using readBytes_ok [OF assms] by (simp add: readByte_def)

lemma writeByte_ok:
  assumes "ready s" and "sys_write bus (iv_address s) [reg, c] (iv_bus s) = (2, d)"
  obtains t where "writeByte bus reg c s = (True, t)" and "ready t" and "iv_address t = iv_address s" and "iv_bus t = d"
    and "i2cDevice.more t = i2cDevice.more s"
proof -
  obtain t where "writeBytes_loop fNrRetries bus reg [c] s = (1, t)" "ready t" "iv_address t = iv_address s" "iv_bus t = d"
    by (rule writeBytes_loop_ok [OF assms(1), of bus reg "[c]" d fNrRetries]) (use assms(2) in simp_all)
  then show thesis using that [of t] writeBytes_loop_ready [OF assms(1)] by (simp add: writeByte_def writeBytes_def)
qed

lemma writeWord_ok:
  assumes "ready s" and "sys_write bus (iv_address s) (reg # words_octets [w]) (iv_bus s) = (3, d)"
  obtains t where "writeWord bus reg w s = Some (True, t)" and "ready t" and "iv_address t = iv_address s" and "iv_bus t = d"
    and "i2cDevice.more t = i2cDevice.more s"
proof -
  obtain t where "writeBytes_loop fNrRetries bus reg (words_octets [w]) s = (2, t)" "ready t" "iv_address t = iv_address s" "iv_bus t = d"
    by (rule writeBytes_loop_ok [OF assms(1), of bus reg "words_octets [w]" d fNrRetries]) (use assms(2) in simp_all)
  then show thesis using that [of t] writeBytes_loop_ready [OF assms(1)] by (simp add: writeWord_def writeWords_def)
qed

text \<open>One access after another: what is read, what is stored, and the object remains as it is otherwise.\<close>

lemma sensor_present:
  assumes "temp_chip bus address wait regs status mic" and "holds address regs r s"
  obtains t where "devicePresent bus s = (True, t)" and "holds address regs r t" and "i2cDevice.more t = i2cDevice.more s"
proof -
  obtain n b t where q: "i2c_read bus 1 s = (n, b, t)" by (cases "i2c_read bus 1 s") auto
  have "ready s" "iv_address s = address" "regs (iv_bus s) = r" using assms(2) by (simp_all add: holds_def)
  note rd = ready_read [OF this(1) q, unfolded this(2)]
  moreover have "n = 1 \<and> regs (iv_bus t) = r"
    using assms rd(3) unfolding temp_chip_def holds_def by (metis fst_conv snd_conv)
  moreover have "i2cDevice.more t = i2cDevice.more s"
    using q by (auto simp: i2c_read_def Let_def split: prod.splits if_splits)
  ultimately show thesis using that [of t] q \<open>iv_address s = address\<close> by (simp add: devicePresent_def holds_def)
qed

lemma temp_chip_accesses:
  assumes "temp_chip bus address wait regs status mic"
  shows "\<exists>w d'. sys_rdwr bus address [REG_TEMP] 2 d = (Some (words_octets [w]), d') \<and> w AND 0x1f = 0 \<and> regs d' = regs d"
    and "\<exists>d'. sys_rdwr bus address [REG_CONF] 1 d
      = (Some [tr_conf (regs d) OR (if status d then 0x80 else 0)], d') \<and> regs d' = regs d"
    and "\<exists>d'. sys_rdwr bus address [REG_THYST] 2 d = (Some (words_octets [tr_thyst (regs d)]), d') \<and> regs d' = regs d"
    and "\<exists>d'. sys_rdwr bus address [REG_TOS] 2 d = (Some (words_octets [tr_tos (regs d)]), d') \<and> regs d' = regs d"
    and "\<exists>d'. sys_write bus address [REG_CONF, c] d = (2, d') \<and> regs d' = (regs d)\<lparr>tr_conf := c AND 0x7f\<rparr>"
    and "\<exists>d'. sys_write bus address (REG_THYST # words_octets [w]) d = (3, d') \<and> regs d' = (regs d)\<lparr>tr_thyst := w\<rparr>"
    and "\<exists>d'. sys_write bus address (REG_TOS # words_octets [w]) d = (3, d') \<and> regs d' = (regs d)\<lparr>tr_tos := w\<rparr>"
    and "regs (wait ms d) = regs d" and "regs d = PROVOKED \<Longrightarrow> status (wait 160 d) = mic" and "tr_conf (regs d) AND 0x80 = 0"
  using assms by (simp_all only: temp_chip_def simp_thms)

lemma chip_reads:
  assumes "temp_chip bus address wait regs status mic" and "holds address regs r s"
  shows "\<exists>w t. readWord bus REG_TEMP s = Some (True, [w], t) \<and> w AND 0x1f = 0 \<and> holds address regs r t
      \<and> i2cDevice.more t = i2cDevice.more s"
    and "\<exists>t. readByte bus REG_CONF s = Some (True, [tr_conf r OR (if status (iv_bus s) then 0x80 else 0)], t)
      \<and> holds address regs r t \<and> i2cDevice.more t = i2cDevice.more s"
    and "\<exists>t. readWord bus REG_THYST s = Some (True, [tr_thyst r], t) \<and> holds address regs r t
      \<and> i2cDevice.more t = i2cDevice.more s"
    and "\<exists>t. readWord bus REG_TOS s = Some (True, [tr_tos r], t) \<and> holds address regs r t
      \<and> i2cDevice.more t = i2cDevice.more s"
proof -
  have s: "ready s" "iv_address s = address" "regs (iv_bus s) = r" using assms(2) by (simp_all add: holds_def)
  have keep: "holds address regs r (s\<lparr>iv_bus := d\<rparr>) \<and> i2cDevice.more (s\<lparr>iv_bus := d\<rparr>) = i2cDevice.more s" if "regs d = r" for d
    using s that by (simp add: holds_def)
  obtain w d where "sys_rdwr bus address [REG_TEMP] 2 (iv_bus s) = (Some (words_octets [w]), d)" "w AND 0x1f = 0" "regs d = r"
    using temp_chip_accesses(1) [OF assms(1), of "iv_bus s"] s by auto
  then show "\<exists>w t. readWord bus REG_TEMP s = Some (True, [w], t) \<and> w AND 0x1f = 0 \<and> holds address regs r t
      \<and> i2cDevice.more t = i2cDevice.more s"
    using readWord_ok [OF s(1), of bus REG_TEMP w d] keep s by auto
  obtain d where "sys_rdwr bus address [REG_CONF] 1 (iv_bus s)
      = (Some [tr_conf r OR (if status (iv_bus s) then 0x80 else 0)], d)" "regs d = r"
    using temp_chip_accesses(2) [OF assms(1), of "iv_bus s"] s by auto
  then show "\<exists>t. readByte bus REG_CONF s = Some (True, [tr_conf r OR (if status (iv_bus s) then 0x80 else 0)], t)
      \<and> holds address regs r t \<and> i2cDevice.more t = i2cDevice.more s"
    using readByte_ok [OF s(1), of bus REG_CONF _ d] keep s by auto
  obtain d where "sys_rdwr bus address [REG_THYST] 2 (iv_bus s) = (Some (words_octets [tr_thyst r]), d)" "regs d = r"
    using temp_chip_accesses(3) [OF assms(1), of "iv_bus s"] s by auto
  then show "\<exists>t. readWord bus REG_THYST s = Some (True, [tr_thyst r], t) \<and> holds address regs r t
      \<and> i2cDevice.more t = i2cDevice.more s"
    using readWord_ok [OF s(1), of bus REG_THYST _ d] keep s by auto
  obtain d where "sys_rdwr bus address [REG_TOS] 2 (iv_bus s) = (Some (words_octets [tr_tos r]), d)" "regs d = r"
    using temp_chip_accesses(4) [OF assms(1), of "iv_bus s"] s by auto
  then show "\<exists>t. readWord bus REG_TOS s = Some (True, [tr_tos r], t) \<and> holds address regs r t
      \<and> i2cDevice.more t = i2cDevice.more s"
    using readWord_ok [OF s(1), of bus REG_TOS _ d] keep s by auto
qed

lemma chip_writes:
  assumes "temp_chip bus address wait regs status mic" and "holds address regs r s"
  shows "\<exists>t. writeByte bus REG_CONF c s = (True, t) \<and> holds address regs (r\<lparr>tr_conf := c AND 0x7f\<rparr>) t
      \<and> i2cDevice.more t = i2cDevice.more s"
    and "\<exists>t. writeWord bus REG_THYST w s = Some (True, t) \<and> holds address regs (r\<lparr>tr_thyst := w\<rparr>) t
      \<and> i2cDevice.more t = i2cDevice.more s"
    and "\<exists>t. writeWord bus REG_TOS w s = Some (True, t) \<and> holds address regs (r\<lparr>tr_tos := w\<rparr>) t
      \<and> i2cDevice.more t = i2cDevice.more s"
proof -
  have s: "ready s" "iv_address s = address" "regs (iv_bus s) = r" using assms(2) by (simp_all add: holds_def)
  obtain d where "sys_write bus (iv_address s) [REG_CONF, c] (iv_bus s) = (2, d)" "regs d = r\<lparr>tr_conf := c AND 0x7f\<rparr>"
    using temp_chip_accesses(5) [OF assms(1), of c "iv_bus s"] s by auto
  then show "\<exists>t. writeByte bus REG_CONF c s = (True, t) \<and> holds address regs (r\<lparr>tr_conf := c AND 0x7f\<rparr>) t
      \<and> i2cDevice.more t = i2cDevice.more s"
    using s by (elim writeByte_ok [OF s(1)]) (auto simp: holds_def)
  obtain d where "sys_write bus (iv_address s) (REG_THYST # words_octets [w]) (iv_bus s) = (3, d)" "regs d = r\<lparr>tr_thyst := w\<rparr>"
    using temp_chip_accesses(6) [OF assms(1), of w "iv_bus s"] s by auto
  then show "\<exists>t. writeWord bus REG_THYST w s = Some (True, t) \<and> holds address regs (r\<lparr>tr_thyst := w\<rparr>) t
      \<and> i2cDevice.more t = i2cDevice.more s"
    using s by (elim writeWord_ok [OF s(1)]) (auto simp: holds_def)
  obtain d where "sys_write bus (iv_address s) (REG_TOS # words_octets [w]) (iv_bus s) = (3, d)" "regs d = r\<lparr>tr_tos := w\<rparr>"
    using temp_chip_accesses(7) [OF assms(1), of w "iv_bus s"] s by auto
  then show "\<exists>t. writeWord bus REG_TOS w s = Some (True, t) \<and> holds address regs (r\<lparr>tr_tos := w\<rparr>) t
      \<and> i2cDevice.more t = i2cDevice.more s"
    using s by (elim writeWord_ok [OF s(1)]) (auto simp: holds_def)
qed

lemma chip_limits:
  assumes "temp_chip bus address wait regs status mic" and "holds address regs r s"
  shows "\<exists>t. write_limits bus w s = Some (True, t) \<and> holds address regs (r\<lparr>tr_thyst := w, tr_tos := w\<rparr>) t
      \<and> i2cDevice.more t = i2cDevice.more s"
    and "\<exists>t. restore_limits bus a b s = Some t \<and> holds address regs (r\<lparr>tr_thyst := a, tr_tos := b\<rparr>) t
      \<and> i2cDevice.more t = i2cDevice.more s"
proof -
  have "\<exists>u t. writeWord bus REG_THYST a s = Some (True, u) \<and> writeWord bus REG_TOS b u = Some (True, t)
      \<and> holds address regs (r\<lparr>tr_thyst := a, tr_tos := b\<rparr>) t \<and> i2cDevice.more t = i2cDevice.more s" for a b
    using chip_writes(2) [OF assms, of a] chip_writes(3) [OF assms(1), where w = b] by metis
  from this [of w w] this [of a b]
  show "\<exists>t. write_limits bus w s = Some (True, t) \<and> holds address regs (r\<lparr>tr_thyst := w, tr_tos := w\<rparr>) t
      \<and> i2cDevice.more t = i2cDevice.more s"
    and "\<exists>t. restore_limits bus a b s = Some t \<and> holds address regs (r\<lparr>tr_thyst := a, tr_tos := b\<rparr>) t
      \<and> i2cDevice.more t = i2cDevice.more s"
    by (auto simp: write_limits_def restore_limits_def)
qed

lemma chip_sleep:
  "temp_chip bus address wait regs status mic \<Longrightarrow> holds address regs r s \<Longrightarrow> holds address regs r (sleep_for wait ms s)"
  by (simp add: holds_def sleep_for_def temp_chip_accesses(8))

lemma sleep_more [simp]: "i2cDevice.more (sleep_for wait ms s) = i2cDevice.more s"
  by (simp add: sleep_for_def)

lemma sleep_external [simp]: "mi_fExternal (sleep_for wait ms s) = mi_fExternal s"
  by (simp add: sleep_for_def)

lemma provoked_status:
  "temp_chip bus address wait regs status mic \<Longrightarrow> holds address regs PROVOKED s \<Longrightarrow> status (iv_bus (sleep_for wait 160 s)) = mic"
  by (simp add: holds_def sleep_for_def temp_chip_accesses(9))

lemma status_bit:
  assumes "c AND 0x80 = 0"
  shows "(c OR (if b then 0x80 else 0)) AND 0x80 = (if b then 0x80 else 0)"
    and "(c OR (if b then 0x80 else 0)) AND 0x7f = c"
    and "(c OR (if b then 0x80 else 0)) AND 0x40 = c AND 0x40" "(c OR (if b then 0x80 else 0)) AND 0x20 = c AND (0x20 :: byte)"
proof -
  have "c = (c AND 0x80) OR (c AND NOT 0x80)" by (simp only: bit.conj_disj_distrib [symmetric]) simp
  then have c: "c AND NOT 0x80 = c" using assms by simp
  have m: "(0x7f :: byte) = NOT 0x80" by simp
  have "c AND 0x7f = c AND NOT 0x80" by (simp only: m)
  also note c
  finally have "c AND 0x7f = c" .
  then show "(c OR (if b then 0x80 else 0)) AND 0x80 = (if b then 0x80 else 0)"
    and "(c OR (if b then 0x80 else 0)) AND 0x7f = c"
    and "(c OR (if b then 0x80 else 0)) AND 0x40 = c AND 0x40" "(c OR (if b then 0x80 else 0)) AND 0x20 = c AND (0x20 :: byte)"
    using assms by (simp_all add: bit.conj_disj_distrib2)
qed

lemma zone_bit:
  shows "c AND 0x80 = 0 \<Longrightarrow> (if on then (c OR (if b then 0x80 else 0)) OR 0x20 else (c OR (if b then 0x80 else 0)) AND NOT 0x20) AND 0x7f
      = (if on then c OR 0x20 else c AND NOT (0x20 :: byte))"
    and "((x AND 0x7f) OR (if b then 0x80 else 0)) AND 0x20 = x AND (0x20 :: byte)"
proof -
  let ?x = "c OR (if b then 0x80 else 0) :: byte"
  assume "c AND 0x80 = 0"
  note c = status_bit(2) [OF this, of b]
  have "(?x OR 0x20) AND 0x7f = (?x AND 0x7f) OR 0x20" by (simp add: bit.conj_disj_distrib2)
  moreover have "(?x AND NOT 0x20) AND 0x7f = (?x AND 0x7f) AND NOT 0x20" by (simp only: and.assoc and.commute and.left_commute)
  ultimately show "(if on then ?x OR 0x20 else ?x AND NOT 0x20) AND 0x7f = (if on then c OR 0x20 else c AND NOT (0x20 :: byte))"
    unfolding c by simp
qed (simp add: bit.conj_disj_distrib2 and.assoc)

lemma chip_provoke:
  assumes "temp_chip bus address wait regs status mic" and "holds address regs r s"
  shows "\<exists>t. mic_provoke bus wait (tr_conf r OR (if b then 0x80 else 0)) (tr_thyst r) (tr_tos r) s = Some (mic, t)
    \<and> holds address regs r t \<and> (mic \<longrightarrow> mi_fExternal t = (tr_conf r AND 0x20 \<noteq> 0))"
proof -
  let ?c = "tr_conf r OR (if b then 0x80 else 0)"
  note A = assms(1)
  have z: "tr_conf r AND 0x80 = 0" using assms(2) temp_chip_accesses(10) [OF A] by (auto simp: holds_def)
  obtain s1 where s1: "writeByte bus REG_CONF 2 s = (True, s1)" "holds address regs (r\<lparr>tr_conf := 2\<rparr>) s1"
    using chip_writes(1) [OF assms, of 2] by auto
  obtain s2 where s2: "write_limits bus 0xc880 s1 = Some (True, s2)" "holds address regs PROVOKED s2"
    using chip_limits(1) [OF A s1(2), of "0xc880"] by (cases r) (auto simp: PROVOKED_def)
  obtain s3 where s3: "readByte bus REG_CONF (sleep_for wait 160 s2) = Some (True, [2 OR (if mic then 0x80 else 0)], s3)"
    "holds address regs PROVOKED s3"
    using chip_reads(2) [OF A chip_sleep [OF A s2(2), of 160]] provoked_status [OF A s2(2)] by (auto simp: PROVOKED_def)
  have restore: "\<exists>t u. restore_limits bus (tr_thyst r) (tr_tos r) v = Some u \<and> writeByte bus REG_CONF ?c u = (True, t) \<and> holds address regs r t"
    if v: "holds address regs q v" for q v
  proof -
    obtain u where u: "restore_limits bus (tr_thyst r) (tr_tos r) v = Some u"
      "holds address regs (q\<lparr>tr_thyst := tr_thyst r, tr_tos := tr_tos r\<rparr>) u"
      using chip_limits(2) [OF A v] by blast
    have e: "q\<lparr>tr_thyst := tr_thyst r, tr_tos := tr_tos r, tr_conf := ?c AND 0x7f\<rparr> = r"
      unfolding status_bit(2) [OF z] by (cases r; cases q) simp
    show ?thesis using chip_writes(1) [OF A u(2), of ?c, unfolded e] u(1) by blast
  qed
  show ?thesis
  proof (cases mic)
    case False
    from restore [OF s3(2)] show ?thesis using False s1 s2 s3 by (auto simp: mic_provoke_def)
  next
    case True
    obtain s4 where s4: "write_limits bus 0x7f80 s3 = Some (True, s4)" "\<exists>q. holds address regs q s4"
      using chip_limits(1) [OF A s3(2)] by blast
    then obtain q where q: "holds address regs q s4" by blast
    obtain s5 x where s5: "readByte bus REG_CONF (sleep_for wait 160 s4) = Some (True, x, s5)" "holds address regs q s5"
      using chip_reads(2) [OF A chip_sleep [OF A q, of 160]] by blast
    obtain t u where t: "restore_limits bus (tr_thyst r) (tr_tos r) s5 = Some u" "writeByte bus REG_CONF ?c u = (True, t)"
      "holds address regs r t" using restore [OF s5(2)] by blast
    then have "mic_provoke bus wait ?c (tr_thyst r) (tr_tos r) s = Some (True, t\<lparr>mi_fExternal := tr_conf r AND 0x20 \<noteq> 0\<rparr>)"
      using True s1 s2 s3 s4 s5 status_bit(4) [OF z, of b] by (simp add: mic_provoke_def)
    then show ?thesis using True t(3) by (simp add: holds_def ready_def)
  qed
qed

section \<open>Recognising a MIC184\<close>

text \<open>
  \<open>MIC184::identify\<close> succeeds on exactly the MIC184s that are in their initial state (no interrupt masked, limits
  as the chip stores them), and on an LM75 it fails. Whatever it finds, the configuration and both limits of
  the chip are as they were before, although it overwrote all three to provoke the alarm.
\<close>

theorem mic184_identified:
  assumes "temp_chip bus address wait regs status mic" and "holds address regs r s" and "iv_mode s \<noteq> MODE_FAILED"
  shows "\<exists>t. mic_identify bus wait s
      = Some (mic \<and> tr_conf r AND 0x40 = 0 \<and> tr_thyst r AND 0x7f = 0 \<and> tr_tos r AND 0x7f = 0, t) \<and> holds address regs r t"
proof -
  note A = assms(1)
  have z: "tr_conf r AND 0x80 = 0" using assms(2) temp_chip_accesses(10) [OF A] by (auto simp: holds_def)
  obtain s1 where s1: "devicePresent bus s = (True, s1)" "holds address regs r s1"
    using sensor_present [OF A assms(2)] by blast
  obtain w s2 where s2: "readWord bus REG_TEMP s1 = Some (True, [w], s2)" "w AND 0x1f = 0" "holds address regs r s2"
    using chip_reads(1) [OF A s1(2)] by blast
  obtain b s3 where s3: "readByte bus REG_CONF s2 = Some (True, [tr_conf r OR (if b then 0x80 else 0)], s3)" "holds address regs r s3"
    using chip_reads(2) [OF A s2(3)] by blast
  obtain s4 where s4: "readWord bus REG_THYST s3 = Some (True, [tr_thyst r], s4)" "holds address regs r s4"
    using chip_reads(3) [OF A s3(2)] by blast
  obtain s5 where s5: "readWord bus REG_TOS s4 = Some (True, [tr_tos r], s5)" "holds address regs r s5"
    using chip_reads(4) [OF A s4(2)] by blast
  obtain t where "mic_provoke bus wait (tr_conf r OR (if b then 0x80 else 0)) (tr_thyst r) (tr_tos r) s5 = Some (mic, t)"
    "holds address regs r t"
    using chip_provoke [OF A s5(2), of b] by blast
  then show ?thesis
    using assms(3) s1 s2 s3 s4 s5 by (simp add: mic_identify_def status_bit(3) [OF z])
qed

text \<open>
  \<open>setExternal\<close> changes the zone and nothing else, on every MIC184 and every LM75.
\<close>

theorem mic184_zone:
  assumes "temp_chip bus address wait regs status mic" and "holds address regs r s"
  shows "\<exists>t. setExternal bus wait on s = Some (True, t) \<and> mi_fExternal t = on
      \<and> holds address regs (r\<lparr>tr_conf := if on then tr_conf r OR 0x20 else tr_conf r AND NOT 0x20\<rparr>) t"
proof -
  note A = assms(1)
  have z: "tr_conf r AND 0x80 = 0" using assms(2) temp_chip_accesses(10) [OF A] by (auto simp: holds_def)
  obtain b c s1 where c: "c = tr_conf r OR (if b then 0x80 else 0)"
    and s1: "readByte bus REG_CONF s = Some (True, [c], s1)" "holds address regs r s1"
    using chip_reads(2) [OF A assms(2)] by blast
  obtain s2 q where s2: "writeByte bus REG_CONF (c AND NOT 0x40) s1 = (True, s2)" "holds address regs (r\<lparr>tr_conf := q\<rparr>) s2"
    using chip_writes(1) [OF A s1(2)] by blast
  obtain s3 x where s3: "readByte bus REG_CONF s2 = Some (True, x, s3)" "holds address regs (r\<lparr>tr_conf := q\<rparr>) s3"
    using chip_reads(2) [OF A s2(2)] by blast
  define n where "n = (if on then c OR 0x20 else c AND NOT 0x20)"
  obtain s4 where s4: "writeByte bus REG_CONF n s3 = (True, s4)" "holds address regs (r\<lparr>tr_conf := n AND 0x7f\<rparr>) s4"
    using chip_writes(1) [OF A s3(2), of n] by auto
  obtain b' s5 where s5: "readByte bus REG_CONF s4 = Some (True, [(n AND 0x7f) OR (if b' then 0x80 else 0)], s5)"
    "holds address regs (r\<lparr>tr_conf := n AND 0x7f\<rparr>) s5"
    using chip_reads(2) [OF A s4(2)] by auto
  have e: "n AND 0x7f = (if on then tr_conf r OR 0x20 else tr_conf r AND NOT 0x20)"
    unfolding n_def c by (rule zone_bit(1) [OF z])
  have "setExternal bus wait on s = Some (True, let s = sleep_for wait 160 (s5\<lparr>mi_fExternal := on\<rparr>)
     in if on then sleep_for wait 160 s else s)"
    using s1 s2 s3 s4 s5 zone_bit(2) [of n b'] n_def by (cases on) (simp_all add: setExternal_def Let_def)
  moreover have "holds address regs (r\<lparr>tr_conf := n AND 0x7f\<rparr>) (s5\<lparr>mi_fExternal := on\<rparr>)"
    using s5(2) by (simp add: holds_def ready_def)
  note h = chip_sleep [OF A this, unfolded e]
  ultimately show ?thesis using h chip_sleep [OF A h] by (auto simp: Let_def)
qed

text \<open>
  \<open>getTemperature\<close> and the source. What is published is exactly the reading in 256ths of a degree, and where the
  read fails it is -128 degrees, published like any other temperature.
\<close>

lemma lm_readRaw_cases:
  assumes "ready s" obtains n t where "lm_readRaw bus s = Some (n, t)" and "- 32768 \<le> n" and "n < 32768"
proof -
  from readWord_ready [OF assms] obtain ok data d where "readWord bus REG_TEMP s = Some (ok, data, s\<lparr>iv_bus := d\<rparr>)" .
  then show thesis using that sint_range_size [of "hd data"]
    by (cases ok) (auto simp: lm_readRaw_def Let_def word_size)
qed

lemma lm_getTemperature_value:
  assumes "ready s" and "lm_readRaw bus s = Some (n, t)"
  shows "lm_getTemperature bus s = Some (of_int n / 256, t\<lparr>lm_fLastTemp := of_int n / 256\<rparr>)"
proof -
  have "- 32768 \<le> n" "n < 32768" by (rule lm_readRaw_cases [OF assms(1), of bus], use assms(2) in simp)+
  from temperature_exact [OF this] show ?thesis
    by (simp only: lm_getTemperature_def assms(2) bind.bind_lunit Let_def prod.case)
qed
lemma mic_as_lm75: "mic_getTemperature bus s = lm_getTemperature bus s"
  by (simp add: mic_getTemperature_def lm_getTemperature_def mic_readRaw_def lm_readRaw_def)

lemma lm_getTemperature_word:
  assumes "ready s" and "sys_rdwr bus (iv_address s) [REG_TEMP] 2 (iv_bus s) = (Some (words_octets [w]), d)"
  shows "\<exists>t. lm_getTemperature bus s = Some (of_int (sint w) / 256, t)"
proof -
  have "lm_readRaw bus s = Some (sint w, s\<lparr>iv_bus := d, lm_fLastRawValue := sint w\<rparr>)"
    by (simp add: lm_readRaw_def readWord_ok [OF assms] Let_def)
  from lm_getTemperature_value [OF assms(1) this] show ?thesis by blast
qed

lemma lm_getTemperature_fails:
  assumes "ready s" and "readWord bus REG_TEMP s = Some (False, data, u)"
  shows "\<exists>t. lm_getTemperature bus s = Some (- 128, t)"
proof -
  have "lm_readRaw bus s = Some (- 32768, u)" by (simp add: lm_readRaw_def assms(2))
  from lm_getTemperature_value [OF assms(1) this] show ?thesis by simp
qed

text \<open>The one event of an update, for either kind of device.\<close>

theorem temperature_published:
  assumes "ready s" and "ready m"
  shows "sys_rdwr bus (iv_address s) [REG_TEMP] 2 (iv_bus s) = (Some (words_octets [w]), d) \<Longrightarrow>
      map_option fst (temp_update bus name \<lparr>tg_lm75 = Some s, tg_mic184 = x\<rparr>)
        = Some [Ev_Temperature \<lparr>tev_source = name, tev_temperature = of_int (sint w) / 256\<rparr>]"
    and "sys_rdwr bus (iv_address m) [REG_TEMP] 2 (iv_bus m) = (Some (words_octets [w]), d) \<Longrightarrow>
      map_option fst (temp_update bus name \<lparr>tg_lm75 = None, tg_mic184 = Some m\<rparr>)
        = Some [Ev_Temperature \<lparr>tev_source = name, tev_temperature = of_int (sint w) / 256\<rparr>]"
    and "readWord bus REG_TEMP s = Some (False, data, t) \<Longrightarrow>
      map_option fst (temp_update bus name \<lparr>tg_lm75 = Some s, tg_mic184 = x\<rparr>)
        = Some [Ev_Temperature \<lparr>tev_source = name, tev_temperature = - 128\<rparr>]"
  using lm_getTemperature_word [OF assms(1), of bus w d] lm_getTemperature_word [OF assms(2), of bus w d]
    lm_getTemperature_fails [OF assms(1), of bus data t]
  by (auto simp: temp_update_def mic_as_lm75)

section \<open>A chip\<close>

text \<open>Its state: the registers and the status bit; \<open>mic\<close> whether it is a MIC184.\<close>

definition sensor_regs :: "temp_regs \<times> bool \<Rightarrow> temp_regs" where
  "sensor_regs d = (fst d)\<lparr>tr_conf := tr_conf (fst d) AND 0x7f\<rparr>"

definition sensor_wait :: "bool \<Rightarrow> nat \<Rightarrow> temp_regs \<times> bool \<Rightarrow> temp_regs \<times> bool" where
  "sensor_wait mic ms d = (fst d, mic)"

definition sensor_bus :: "(temp_regs \<times> bool) i2c_bus" where
  "sensor_bus = \<lparr>sys_read = \<lambda>_ n d. (int n, replicate n 0, d),
     sys_write = \<lambda>_ buf d. (int (length buf),
       case buf of [_, c] \<Rightarrow> ((fst d)\<lparr>tr_conf := c\<rparr>, snd d)
       | [reg, a, b] \<Rightarrow> (let w = hd (octets_words [a, b]) in
           (if reg = REG_THYST then (fst d)\<lparr>tr_thyst := w\<rparr> else (fst d)\<lparr>tr_tos := w\<rparr>, snd d))
       | _ \<Rightarrow> d),
     sys_rdwr = \<lambda>_ buf n d. (Some (if hd buf = REG_CONF then [tr_conf (sensor_regs d) OR (if snd d then 0x80 else 0)]
       else if hd buf = REG_THYST then words_octets [tr_thyst (fst d)]
       else if hd buf = REG_TOS then words_octets [tr_tos (fst d)] else words_octets [0x1900]), d),
     sys_slave = \<lambda>_ _ d. (True, d)\<rparr>"

lemma words_octets_1: "words_octets [w] = [ucast (drop_bit 8 w), ucast w]"
  by (simp add: words_octets_def)

lemma pair_ex: "fst p = a \<Longrightarrow> P (snd p) \<Longrightarrow> \<exists>d. p = (a, d) \<and> P d"
  by (cases p) simp

lemma sensor_bus_chip: "temp_chip sensor_bus address (sensor_wait mic) sensor_regs snd mic"
proof -
  have w: "hd (octets_words [ucast (drop_bit 8 w), ucast w]) = w" for w :: u16
    using octets_words_octets [of "[w]"] unfolding words_octets_1 by simp
  have temp: "\<exists>w d'. sys_rdwr sensor_bus address [REG_TEMP] 2 d = (Some (words_octets [w]), d') \<and> w AND 0x1f = 0
      \<and> sensor_regs d' = sensor_regs d" for d
    by (rule exI [of _ "0x1900"], rule exI [of _ d])
      (simp add: sensor_bus_def REG_TEMP_def REG_CONF_def REG_THYST_def REG_TOS_def)
  show ?thesis
    unfolding temp_chip_def
    by (intro conjI allI temp pair_ex; simp add: sensor_bus_def sensor_regs_def sensor_wait_def REG_CONF_def
        REG_THYST_def REG_TOS_def words_octets_1 w and.assoc del: octets_words.simps)
qed

definition mic_object :: "temp_regs \<Rightarrow> (temp_regs \<times> bool) mic184" where
  "mic_object r = i2cDevice.extend (opened 0x4f (r, False))
     \<lparr>lm_fLastRawValue = 0, lm_fLastTemp = 0, mi_fExternal = False\<rparr>"


theorem mic184_identified_witness:
  "\<exists>t. mic_identify sensor_bus (sensor_wait mic) (mic_object \<lparr>tr_conf = 0x20, tr_thyst = 0x4b00, tr_tos = 0x5000\<rparr>) = Some (mic, t)
     \<and> sensor_regs (iv_bus t) = \<lparr>tr_conf = 0x20, tr_thyst = 0x4b00, tr_tos = 0x5000\<rparr>"
proof -
  let ?r = "\<lparr>tr_conf = 0x20, tr_thyst = 0x4b00, tr_tos = 0x5000\<rparr>"
  have "holds 0x4f sensor_regs ?r (mic_object ?r)" "iv_mode (mic_object ?r) \<noteq> MODE_FAILED"
    by (simp_all add: holds_def sensor_regs_def mic_object_def i2cDevice.defs opened_def ready_def MODE_NORMAL_def
        MODE_LOCKED_def MODE_FAILED_def)
  from mic184_identified [OF sensor_bus_chip this, of mic] show ?thesis by (auto simp: holds_def)
qed

end
