(* ===== verification/Spec2Isabelle.thy ===== *)
theory Spec2Isabelle
  imports Config_Echo Serial_Session Tcp_Server Rate_Buffer Geohash Event_Bus Scheduler Protocol Calibration Mcp4728_Driver Ads1115_Driver Gpio_Driver Log_Parameters File_Sink Temp_Sensors
begin

text \<open>
  The muon detector daemon: a verification development.

  The program. The daemon (\<open>daemon/src\<close>) runs on a Raspberry Pi beside a muon detector. A u-blox GNSS
  receiver on a serial port time-stamps the detector pulses and is configured over the same port in
  the UBX protocol; GPIO lines report the pulses themselves; an SDS011 sensor on another serial port
  measures particulate matter; I2C devices give temperatures, voltages and thresholds. Components
  exchange events and commands over an event bus. Clients (\<open>gui/\<close>) connect over TCP with the framing of
  \<open>library/src/network\<close>.

  The theories, in the order of their imports, and the code they model:

  \<^item> \<open>Prelude\<close>: types of fixed width, the lemma collections, and three interfaces as locales:
    \<open>byte_parser\<close> (a parser that takes one octet at a time: cutting the stream into chunks does not
    matter), \<open>framed_parser\<close> (it returns to an idle state after each frame, delivering what the frame
    stands for: streams of frames are delivered exactly) and \<open>write_queue\<close> (the transmit queues: first in, first out, no frame
    lost or doubled, and writes never overlap). Each is interpreted on the model of every component that
    provides it.
  \<^item> \<open>Reference_Run\<close>: running a component over a list of its operations, and the locale \<open>reference_run\<close>: a component
    whose every step gives what a function of the whole history says does so over every run. It is interpreted
    on the log engine and on the MQTT sink.
  \<^item> \<open>Byte_Access\<close>: \<open>get\<close> and \<open>put\<close> (\<open>daemon/src/utility/helper_functions.h\<close>) and \<open>unixtime_from_gps\<close>.
    A read or write past the end of the string is undefined in C++ and the value None here.
  \<^item> \<open>Ieee_Double\<close>: rounding to \<open>double\<close> and \<open>float\<close> (to nearest, ties to even, normal range) on exact
    rationals, and the conversion to \<open>int64_t\<close>.
  \<^item> \<open>Text\<close>: the character classes of the C locale, \<open>std::to_string\<close>, \<open>std::from_chars\<close>.
  \<^item> \<open>Ubx_Ids\<close>, \<open>Ubx_Events\<close>, \<open>Ubx_Message\<close>: \<open>library/src/data/ublox\<close> and \<open>library/src/data/events/ubx_event.h\<close>:
    message numbers and tables, event structs, \<open>UbxMessage\<close> with its frame and checksum.
  \<^item> \<open>Ubx_Parser\<close>: \<open>UbxParser::feed\<close> (\<open>daemon/src/hardware/ublox/ubx_parser.cpp\<close>), octet by octet, with the
    payload vector and its index; a store outside the vector is None.
  \<^item> \<open>Ubx_Decode\<close>, \<open>Ubx_Version\<close>, \<open>Ubx_Timemark\<close>, \<open>Ubx_Processor\<close>: \<open>message_processor.cpp\<close>: every decoder,
    the version text, the time marks with their floating-point arithmetic, and the dispatch with the
    state the functions share.
  \<^item> \<open>Serial_Ublox\<close>: class \<open>SerialUblox\<close> (\<open>serialublox.cpp\<close>): the state as the record \<open>sx\<close>, one function for
    each \<open>handle\<close>, the send path, the connection, the completion handlers of reads and writes. What is
    posted to a strand waits in a list of the record; what is published on the bus is recorded.
  \<^item> \<open>Serial_Session\<close>: the runs of a \<open>SerialUblox\<close>: the step relation \<open>sx_step\<close> of all interleavings of bus
    deliveries, reads, write completions, posted tasks and timers, its reachable states, and what the
    handlers send.
  \<^item> \<open>Config_Echo\<close>: the encoders of \<open>serialublox.cpp\<close> against the decoders of \<open>message_processor.cpp\<close>, through
    frame and parser.
  \<^item> \<open>Tcp_Connection\<close>: class \<open>TcpConnection\<close> (\<open>library/src/network/tcpconnection.cpp\<close>): frames, the receive
    buffer, the write queue, with a reference decoder of whole streams as the specification.
  \<^item> \<open>Sds011\<close>: \<open>Sds011Parser\<close> and \<open>Sds011\<close> (\<open>daemon/src/hardware/sds011\<close>), with the messages of the sensor as its
    data sheet lays them out.
  \<^item> \<open>Tcp_Server\<close>: \<open>TcpServer\<close>, \<open>TcpSink\<close> and \<open>TcpSource\<close> (\<open>daemon/src/network\<close>, \<open>sinks\<close>, \<open>sources\<close>): the sessions,
    their heartbeats, the connections shared with the sink, and the tasks posted to the \<open>io_context\<close>.
  \<^item> \<open>Rate_Buffer\<close>: \<open>EventRateBuffer\<close> with its filters and \<open>CounterRateBuffer\<close> (\<open>daemon/src/utility\<close>).
  \<^item> \<open>Geohash\<close>: \<open>GeoHash::hashFromCoordinates\<close> (\<open>daemon/src/utility/geohash.cpp\<close>).
  \<^item> \<open>Histogram\<close>: class \<open>Histogram\<close> (\<open>library/src/data/histogram.cpp\<close>) with its arithmetic on \<open>double\<close>; \<open>fill\<close>, which
    may call itself for ever, is a partial function.
  \<^item> \<open>Capnp\<close>, \<open>Message_Keys\<close>, \<open>Messages\<close>, \<open>Codec_Events\<close>, \<open>Codec_Commands\<close>, \<open>Codec_Sound\<close>: the messages between daemon
    and client: the values and schemas of Cap'n Proto, the keys, the structs, and each codec of
    \<open>library/src/capnp/capnp_codec.cpp\<close> as a record of its schema, \<open>encode\<close>, \<open>decode\<close> and key, with what it preserves.
  \<^item> \<open>Protocol\<close>: what the sink of the daemon sends (\<open>event_bindings.cpp\<close>), what the client makes of it and sends
    itself (\<open>gui/src/mainwindow.cpp\<close>), and \<open>TcpCommandDecoder\<close>.
  \<^item> \<open>Event_Bus\<close>, \<open>Scheduler\<close>: \<open>EventBus\<close> with its \<open>ThreadPool\<close>, and \<open>Scheduler\<close> (\<open>daemon/src/core\<close>): step
    relations over the critical sections of all threads.
  \<^item> \<open>I2c_Device\<close>: class \<open>i2cDevice\<close> (\<open>daemon/src/hardware/i2c/i2cdevice.cpp\<close>), the base of the chips, over the system calls
    of the bus; each chip is a record that extends its state. On it: \<open>Eeprom\<close> (\<open>eeprom24aa02.cpp\<close>), \<open>Mcp4728\<close> and
    \<open>Ads1115\<close> (the DAC and the ADC, \<open>mcp4728.cpp\<close>, \<open>ads1115.cpp\<close>) with their drivers \<open>Mcp4728_Driver\<close> and \<open>Ads1115_Driver\<close>
    (\<open>daemon/src/drivers\<close>), and \<open>Temp_Sensors\<close> (\<open>lm75.cpp\<close>, \<open>mic184.cpp\<close>, \<open>daemon/src/sources/temp_source.cpp\<close>).
  \<^item> \<open>Text_Io\<close>, \<open>Calibration\<close>: numbers and streams of text, and \<open>ShowerDetectorCalib\<close>
    (\<open>daemon/src/utility/calibration.cpp\<close>), whose items are kept in the EEPROM.
  \<^item> \<open>Gpio_Signals\<close>, \<open>Gpio_Driver\<close>: the pins of each version of the board and \<open>GpioDriver\<close>
    (\<open>daemon/src/drivers/gpio_driver.cpp\<close>): lines, switches, edges and rates.
  \<^item> \<open>Geo_Position\<close>: \<open>GeoPosManager\<close> (\<open>daemon/src/utility/geoposmanager.cpp\<close>): the modes of the position, its histograms and the lock-in.
  \<^item> \<open>Data_Store\<close>: \<open>DataStore\<close> and its bindings (\<open>daemon/src/core\<close>): what is stored of each event, how requests are
    answered, and the histograms.
  \<^item> \<open>Log_Engine\<close>, \<open>Log_Parameters\<close>: the log engine and \<open>LogParameterProcessor\<close> (\<open>daemon/src/components\<close>), which are not
    connected in the program.
  \<^item> \<open>Mqtt_Sink\<close>, \<open>File_Sink\<close>: \<open>MqttSink\<close> and \<open>FileSink\<close> (\<open>daemon/src/sinks\<close>).

  What the lemmas show. Parsers: memory safety, exact delivery of streams of valid frames for every
  chunking, nothing fabricated, single-octet corruption rejected. Decoders: for each message the exact
  payload length below which it is read past its end; the encoders and decoders of the configuration
  are inverse; time marks are exact up to one nanosecond, and one really is lost. Connection: nothing
  but the selection of protocol and rate while the state is not ready, the handshake completes, version-dependent commands
  are released exactly once; where a write error, a denied message or a read error leads. TCP:
  equivalence with the reference decoder, bounded buffer, ordered output. Rate buffers: dead time, true
  intervals, bounded rate, exact counting over wrap-around. Server: the sessions, the sink and the open
  connections agree in every reachable state, and one heartbeat round ends exactly the stale ones.
  Histograms: \<open>fill\<close> returns exactly when its range admits the value, and no count is lost or doubled by it.
  Messages: every encoding conforms to its schema; every event the daemon sends reaches the client, and
  every command the daemon, with exactly the members the codecs carry.
  Geohash: the cell contains the position. Bus: a delivery calls the handlers subscribed when it was
  published, in order and once, unless the pool is stopped before or a handler throws. Scheduler: tasks run not before their time, spaced by their interval,
  and a cancelled one that is out of the thread's hands never again. Chips: under what the data sheet promises of
  a chip, writing pages of the EEPROM is an update of its memory, the operations of the DAC are those of its
  settings, the voltages are exact to stated bounds, a MIC184 is recognised and left as it was found, and a
  sample of the ADC is always returned; a bus that fails is reported by some functions and not by others. Calibration:
  what is written is read back, where every item has a text. GPIO: edges are published in order, and the output lines follow the
  commands. Position: one lock-in at most. Store: requests are answered with the newest value. Log and MQTT:
  what is written is a function of the history, and what the processor publishes is what the log engine asks for. Files: a line
  is appended to the open file or dropped where there is none, and only old data files are removed.

  Conventions. Machine integers are words of their width; \<open>int\<close> stands for times in nanoseconds and
  \<open>nat\<close> for sizes, where the code computes in \<open>size_t\<close> the wrap-around is written out. Undefined behaviour
  and exceptions are values (None, or \<open>Inl\<close> of an error). Every function is total, by structural or
  well-founded recursion, except \<open>Histogram::fill\<close>, the
  loop that writes the EEPROM (\<open>eep_loop\<close>) and the ADC's wait for a conversion (\<open>wait_conversion\<close>), where None is a call that
  never returns; no fuel is used. Plain \<open>char\<close> is unsigned, as on ARM Linux.

  Parameters. The serial port, the socket, clocks and the order in which unordered containers are
  iterated are arguments or fields of the states; what is used of Boost.Asio is that posted tasks run
  in order on their strand and that a completion handler runs once for each operation started. The
  packing of Cap'n Proto is a pair of functions; what is used of it is that a message that conforms to
  a schema is read back under that schema (\<open>capnp_wire\<close>). Also arguments: the system calls of the bus and the time
  that passes, with what the data sheets promise of a chip as a named hypothesis (\<open>eeprom_chip\<close>, \<open>dac_chip\<close>, \<open>temp_chip\<close>) that
  a concrete chip satisfies; the results of libgpiod, libmosquitto and \<open>sysinfo\<close>; what the file system permits; and the
  texts of the time of day. Doubles and floats are finite; \<open>std::lround\<close> saturates
  and the narrowing to \<open>int\<close> keeps the low bits, as on 64-bit ARM.

  Not modelled. Logging text (it changes no state). The rest of the daemon: the network discovery, the sensors of
  pressure, humidity, light and magnetic field, the timing multiplexer PCA9536 and the display, maintenance, the
  sink that fills the store, the configuration parser, which reads its values through libconfig, and the
  composition of the daemon from its configuration. No component subscribes to the \<open>LogParameter\<close> events the
  processor publishes: the engine is modelled by itself, for any parameters it may be handed. What the Qt client shows, the
  tools, the tests and vendored code are left out.
\<close>

end
